(* ===== verification/Prelude.thy ===== *)
theory Prelude
  imports
    Complex_Main
    "HOL-Library.List_Lexorder"
    "HOL-Library.Char_ord"
    "HOL-Library.Product_Lexorder"
    "HOL-Library.Option_ord"
begin

text \<open>
  Shared vocabulary of the development.  Every store of the program keeps its state in SQLite
  tables, so this theory fixes how a table is modelled (a list of rows, in the order of
  insertion), what the SQL statements of the program do to it, how \<open>ORDER BY\<close> with nulls last
  is computed, how Python's text helpers and \<open>timedelta\<close> rounding behave, and the lemmas about
  these that the component theories share.
\<close>

named_theorems table_simps \<open>selection, update and insertion on tables\<close>

section \<open>Text and time\<close>

type_synonym str = string

text \<open>
  Instants are microseconds since the epoch.  The stores keep them as ISO-8601 text with a fixed
  number of digits and a fixed UTC suffix, for which text order is the order of the instants.
\<close>

type_synonym instant = int

text \<open>\<open>str.isspace\<close> on ASCII, and the test \<open>not s.strip()\<close>.\<close>

definition py_space :: "char \<Rightarrow> bool" where
  "py_space c \<longleftrightarrow> (let n = of_char c :: nat in (9 \<le> n \<and> n \<le> 13) \<or> (28 \<le> n \<and> n \<le> 32))"

definition py_blank :: "str \<Rightarrow> bool" where
  "py_blank s \<longleftrightarrow> list_all py_space s"

definition py_strip :: "str \<Rightarrow> str" where
  "py_strip s = rev (dropWhile py_space (rev (dropWhile py_space s)))"

text \<open>
  \<open>int(text)\<close> on ASCII text: surrounding space is dropped, a sign is allowed, and single
  underscores may stand between digits.
\<close>

definition digit_value :: "char \<Rightarrow> int option" where
  "digit_value c = (let n = int (of_char c) in if 48 \<le> n \<and> n \<le> 57 then Some (n - 48) else None)"

fun int_digits :: "int \<Rightarrow> bool \<Rightarrow> str \<Rightarrow> int option" where
  "int_digits acc after_digit [] = (if after_digit then Some acc else None)"
| "int_digits acc after_digit (c # cs) =
     (if c = CHR ''_'' then (if after_digit then int_digits acc False cs else None)
      else case digit_value c of None \<Rightarrow> None | Some d \<Rightarrow> int_digits (acc * 10 + d) True cs)"

definition py_int :: "str \<Rightarrow> int option" where
  "py_int s = (case py_strip s of
       [] \<Rightarrow> None
     | c # cs \<Rightarrow> if c = CHR ''-'' then map_option uminus (int_digits 0 False cs)
                else if c = CHR ''+'' then int_digits 0 False cs
                else int_digits 0 False (c # cs))"

text \<open>Decimal rendering of an integer, as \<open>str(int)\<close>.\<close>

fun nat_digits :: "nat \<Rightarrow> str" where
  "nat_digits n =
     (if n < 10 then [char_of (48 + n)] else nat_digits (n div 10) @ [char_of (48 + n mod 10)])"

declare nat_digits.simps [simp del]

definition py_int_str :: "int \<Rightarrow> str" where
  "py_int_str i = (if i < 0 then CHR ''-'' # nat_digits (nat (- i)) else nat_digits (nat i))"

text \<open>The rendering can be read back, so it is injective, and it consists of digits.\<close>

definition digits_value :: "str \<Rightarrow> nat" where
  "digits_value s = foldl (\<lambda>n c. 10 * n + (of_char c - 48)) 0 s"

lemma digits_value_snoc [simp]: "digits_value (s @ [c]) = 10 * digits_value s + (of_char c - 48)"
  by (simp add: digits_value_def)

lemma of_digit_char: "n < 10 \<Longrightarrow> (of_char (char_of (48 + n)) :: nat) = 48 + n"
  by (simp only: of_char_of) simp

lemma digits_value_nat_digits [simp]: "digits_value (nat_digits n) = n"
proof (induction n rule: nat_digits.induct)
  case (1 n)
  show ?case
  proof (cases "n < 10")
    case True
    then show ?thesis by (subst nat_digits.simps) (simp only: digits_value_def foldl.simps if_True of_digit_char)
  next
    case False
    have "n mod 10 < 10" by simp
    with False 1 show ?thesis
      by (subst nat_digits.simps) (simp only: if_False digits_value_snoc of_digit_char, simp)
  qed
qed

lemma nat_digits_inject [simp]: "nat_digits m = nat_digits n \<longleftrightarrow> m = n"
  by (metis digits_value_nat_digits)

lemma nat_digits_chars: "c \<in> set (nat_digits n) \<Longrightarrow> 48 \<le> (of_char c :: nat) \<and> (of_char c :: nat) \<le> 57"
proof (induction n rule: nat_digits.induct)
  case (1 n)
  have digit: "48 \<le> (of_char (char_of (48 + k)) :: nat) \<and> (of_char (char_of (48 + k)) :: nat) \<le> 57"
    if "k < 10" for k :: nat using that by (simp only: of_digit_char) simp
  show ?case
  proof (cases "n < 10")
    case True
    then have "c = char_of (48 + n)" using 1(2) by (subst (asm) nat_digits.simps) (simp only: if_True list.set singleton_iff)
    then show ?thesis using digit [OF True] by (simp only:)
  next
    case False
    then have "c \<in> set (nat_digits (n div 10)) \<or> c = char_of (48 + n mod 10)"
      using 1(2) by (subst (asm) nat_digits.simps) (simp only: if_False set_append list.set Un_iff singleton_iff)
    then show ?thesis
    proof
      assume "c = char_of (48 + n mod 10)"
      then show ?thesis using digit [of "n mod 10"] by simp
    qed (rule 1(1) [OF False])
  qed
qed

lemma py_int_str_inject [simp]: "py_int_str i = py_int_str j \<longleftrightarrow> i = j"
proof
  assume eq: "py_int_str i = py_int_str j"
  have minus: "CHR ''-'' # s \<noteq> nat_digits n" for s n
  proof
    assume "CHR ''-'' # s = nat_digits n"
    then have "CHR ''-'' \<in> set (nat_digits n)" by (metis list.set_intros(1))
    then show False using nat_digits_chars by fastforce
  qed
  show "i = j" using eq minus [of "nat_digits (nat (- i))" "nat j"] minus [of "nat_digits (nat (- j))" "nat i"]
    by (auto simp: py_int_str_def split: if_splits)
qed simp

text \<open>Round half to even.\<close>

definition round_half_even :: "rat \<Rightarrow> int" where
  "round_half_even x =
     (let f = \<lfloor>x\<rfloor>; d = x - of_int f
      in if d < 1 / 2 then f else if d > 1 / 2 then f + 1 else if even f then f else f + 1)"

lemma round_half_even_int [simp]: "round_half_even (of_int n) = n"
  by (simp add: round_half_even_def)

lemma round_half_even_mono_nonneg: "0 \<le> x \<Longrightarrow> 0 \<le> round_half_even x"
  by (auto simp: round_half_even_def Let_def)

section \<open>Order of nullable columns\<close>

text \<open>\<open>ORDER BY CASE WHEN c IS NULL THEN 1 ELSE 0 END, c\<close>: null is the greatest value.\<close>

datatype 'a nulls_last = Value 'a | Null

fun nulls_key :: "'a option \<Rightarrow> 'a nulls_last" where
  "nulls_key (Some x) = Value x"
| "nulls_key None = Null"

instantiation nulls_last :: (linorder) linorder
begin

fun less_eq_nulls_last :: "'a nulls_last \<Rightarrow> 'a nulls_last \<Rightarrow> bool" where
  "Value x \<le> Value y \<longleftrightarrow> x \<le> y"
| "Value x \<le> Null \<longleftrightarrow> True"
| "Null \<le> Value y \<longleftrightarrow> False"
| "Null \<le> Null \<longleftrightarrow> True"

definition less_nulls_last :: "'a nulls_last \<Rightarrow> 'a nulls_last \<Rightarrow> bool" where
  "less_nulls_last x y \<longleftrightarrow> x \<le> y \<and> \<not> y \<le> x"

instance
proof
  fix x y z :: "'a nulls_last"
  show "x < y \<longleftrightarrow> x \<le> y \<and> \<not> y \<le> x" by (simp add: less_nulls_last_def)
  show "x \<le> x" by (cases x) auto
  show "x \<le> y \<Longrightarrow> y \<le> z \<Longrightarrow> x \<le> z" by (cases x; cases y; cases z) auto
  show "x \<le> y \<Longrightarrow> y \<le> x \<Longrightarrow> x = y" by (cases x; cases y) auto
  show "x \<le> y \<or> y \<le> x" by (cases x; cases y) auto
qed

end

section \<open>Tables\<close>

text \<open>
  \<open>SELECT * FROM t WHERE P\<close> with \<open>fetchone\<close> and \<open>fetchall\<close>, \<open>UPDATE t SET f WHERE P\<close>, its
  \<open>rowcount\<close>, and \<open>ORDER BY k\<close>.
\<close>

definition fetch_one :: "('r \<Rightarrow> bool) \<Rightarrow> 'r list \<Rightarrow> 'r option" where
  "fetch_one P t = find P t"

definition update_where :: "('r \<Rightarrow> bool) \<Rightarrow> ('r \<Rightarrow> 'r) \<Rightarrow> 'r list \<Rightarrow> 'r list" where
  "update_where P f t = map (\<lambda>r. if P r then f r else r) t"

definition rowcount :: "('r \<Rightarrow> bool) \<Rightarrow> 'r list \<Rightarrow> nat" where
  "rowcount P t = length (filter P t)"

definition order_by :: "('r \<Rightarrow> 'k::linorder) \<Rightarrow> 'r list \<Rightarrow> 'r list" where
  "order_by k t = sort_key k t"

text \<open>Lookup by primary key \<open>k\<close>; a table is keyed when no two rows share a key.\<close>

definition by_key :: "('r \<Rightarrow> 'k) \<Rightarrow> 'k \<Rightarrow> 'r list \<Rightarrow> 'r option" where
  "by_key k x t = fetch_one (\<lambda>r. k r = x) t"

definition keyed :: "('r \<Rightarrow> 'k) \<Rightarrow> 'r list \<Rightarrow> bool" where
  "keyed k t \<longleftrightarrow> distinct (map k t)"

lemma fetch_one_simps [simp]:
  "fetch_one P [] = None"
  "fetch_one P (r # t) = (if P r then Some r else fetch_one P t)"
  by (simp_all add: fetch_one_def)

lemma fetch_one_append [table_simps]:
  "fetch_one P (s @ t) = (case fetch_one P s of None \<Rightarrow> fetch_one P t | Some r \<Rightarrow> Some r)"
  by (induction s) auto

lemma fetch_one_SomeD: "fetch_one P t = Some r \<Longrightarrow> r \<in> set t \<and> P r"
  by (induction t) (auto split: if_splits)

lemma fetch_one_None_iff: "fetch_one P t = None \<longleftrightarrow> (\<forall>r \<in> set t. \<not> P r)"
  by (induction t) auto

lemma by_key_simps [simp]:
  "by_key k x [] = None"
  "by_key k x (r # t) = (if k r = x then Some r else by_key k x t)"
  by (simp_all add: by_key_def)

lemma by_key_append [table_simps]:
  "by_key k x (s @ t) = (case by_key k x s of None \<Rightarrow> by_key k x t | Some r \<Rightarrow> Some r)"
  by (simp add: by_key_def fetch_one_append split: option.split)

lemma by_key_SomeD: "by_key k x t = Some r \<Longrightarrow> r \<in> set t \<and> k r = x"
  unfolding by_key_def by (drule fetch_one_SomeD) simp

lemma by_key_None_iff: "by_key k x t = None \<longleftrightarrow> x \<notin> k ` set t"
  by (auto simp: by_key_def fetch_one_None_iff)

lemma keyed_Nil [simp]: "keyed k []"
  by (simp add: keyed_def)

lemma keyed_Cons [simp]: "keyed k (s # t) \<longleftrightarrow> keyed k t \<and> (\<forall>u \<in> set t. k u \<noteq> k s)"
  by (auto simp: keyed_def image_iff)

lemma by_key_in: "keyed k t \<Longrightarrow> r \<in> set t \<Longrightarrow> by_key k (k r) t = Some r"
  by (induction t) auto

lemma by_key_same: "keyed k t \<Longrightarrow> by_key k x t = Some r \<Longrightarrow> s \<in> set t \<Longrightarrow> k s = x \<Longrightarrow> s = r"
  using by_key_in by fastforce

lemma update_where_simps [simp]:
  "update_where P f [] = []"
  "update_where P f (r # t) = (if P r then f r else r) # update_where P f t"
  by (simp_all add: update_where_def)

lemma length_update_where [simp]: "length (update_where P f t) = length t"
  by (simp add: update_where_def)

lemma set_update_where: "set (update_where P f t) = (\<lambda>r. if P r then f r else r) ` set t"
  by (simp add: update_where_def)

lemma map_update_where [simp]:
  "(\<And>r. r \<in> set t \<Longrightarrow> P r \<Longrightarrow> g (f r) = g r) \<Longrightarrow> map g (update_where P f t) = map g t"
  by (auto simp: update_where_def)

lemma keyed_update_where [simp]: "(\<And>r. k (f r) = k r) \<Longrightarrow> keyed k (update_where P f t) = keyed k t"
  by (simp add: keyed_def)

lemma by_key_update_where [table_simps]:
  "(\<And>r. k (f r) = k r) \<Longrightarrow>
   by_key k x (update_where P f t) = map_option (\<lambda>r. if P r then f r else r) (by_key k x t)"
  by (induction t) auto

lemma keyed_snoc [simp]: "keyed k (t @ [r]) \<longleftrightarrow> keyed k t \<and> by_key k (k r) t = None"
  by (auto simp: keyed_def by_key_None_iff)

lemma keyed_map: "(\<And>r. r \<in> set t \<Longrightarrow> k (f r) = k r) \<Longrightarrow> keyed k (map f t) = keyed k t"
  by (simp add: keyed_def cong: map_cong)

lemma by_key_map:
  "(\<And>r. r \<in> set t \<Longrightarrow> k (f r) = k r) \<Longrightarrow> by_key k x (map f t) = map_option f (by_key k x t)"
  by (induction t) auto

lemma image_key_update_where [simp]:
  "(\<And>r. k (f r) = k r) \<Longrightarrow> k ` set (update_where P f t) = k ` set t"
  by (metis list.set_map map_update_where)

lemma rowcount_by_key:
  "keyed k t \<Longrightarrow> by_key k x t = Some r \<Longrightarrow> P r \<Longrightarrow> rowcount (\<lambda>s. k s = x \<and> P s) t = 1"
proof (induction t)
  case (Cons s t)
  show ?case
  proof (cases "k s = x")
    case True
    then have "filter (\<lambda>s. k s = x \<and> P s) t = []"
      using Cons.prems(1) by (auto simp: filter_empty_conv)
    with True Cons.prems show ?thesis by (simp add: rowcount_def)
  next
    case False
    with Cons show ?thesis by (simp add: rowcount_def)
  qed
qed simp

text \<open>An update addressed to one key changes the row of that key only.\<close>

lemma update_key_set:
  assumes "keyed k t" and "by_key k x t = Some r"
  shows "set (update_where (\<lambda>s. k s = x) f t) = insert (f r) (set t - {r})"
proof -
  have one: "s \<in> set t \<Longrightarrow> k s = x \<longleftrightarrow> s = r" for s
    using by_key_same [OF assms] by_key_SomeD [OF assms(2)] by blast
  have r: "r \<in> set t" "k r = x" using by_key_SomeD [OF assms(2)] by auto
  have "set (update_where (\<lambda>s. k s = x) f t) = (\<lambda>s. if s = r then f s else s) ` set t"
    unfolding set_update_where by (rule image_cong [OF refl]) (simp add: one)
  also have "\<dots> = insert (f r) (set t - {r})" using r(1) by auto
  finally show ?thesis .
qed

lemma update_where_key_cond:
  assumes "keyed k t" and "by_key k x t = Some r" and "Q r"
  shows "update_where (\<lambda>s. k s = x \<and> Q s) f t = update_where (\<lambda>s. k s = x) f t"
  unfolding update_where_def
  using by_key_same [OF assms(1,2)] assms(3) by (intro map_cong) auto

lemma sum_list_update_key:
  fixes g :: "'r \<Rightarrow> 'a::ab_group_add"
  shows "keyed k t \<Longrightarrow> by_key k x t = Some r \<Longrightarrow>
    sum_list (map g (update_where (\<lambda>s. k s = x) f t)) = sum_list (map g t) - g r + g (f r)"
proof (induction t)
  case (Cons s t)
  show ?case
  proof (cases "k s = x")
    case True
    then have "\<forall>u \<in> set t. k u \<noteq> x" using Cons.prems(1) by auto
    then have "update_where (\<lambda>s. k s = x) f t = t"
      by (auto simp: update_where_def intro: map_idI)
    with True Cons.prems show ?thesis by (simp add: algebra_simps)
  next
    case False
    with Cons show ?thesis by (simp add: algebra_simps)
  qed
qed simp

lemma set_order_by [simp]: "set (order_by k t) = set t"
  by (simp add: order_by_def)

lemma length_order_by [simp]: "length (order_by k t) = length t"
  by (simp add: order_by_def)

lemma sorted_order_by [simp]: "sorted (map k (order_by k t))"
  by (simp add: order_by_def)

lemma order_by_hd_least: "order_by k t = r # rs \<Longrightarrow> s \<in> set t \<Longrightarrow> k r \<le> k s"
proof -
  assume eq: "order_by k t = r # rs" and s: "s \<in> set t"
  have "sorted (map k (r # rs))" unfolding eq [symmetric] by simp
  moreover have "s \<in> set (r # rs)" unfolding eq [symmetric] using s by simp
  ultimately show ?thesis by auto
qed

text \<open>
  What a transaction does to a table that is never deleted from: each row is rewritten along \<open>R\<close>
  and the rows appended satisfy \<open>N\<close>.
\<close>

definition table_follow :: "('r \<Rightarrow> 'r \<Rightarrow> bool) \<Rightarrow> ('r \<Rightarrow> bool) \<Rightarrow> 'r list \<Rightarrow> 'r list \<Rightarrow> bool" where
  "table_follow R N S S' \<longleftrightarrow> (\<exists>f news. S' = map f S @ news \<and> (\<forall>r \<in> set S. R r (f r)) \<and> (\<forall>r \<in> set news. N r))"

lemma table_followE:
  assumes "table_follow R N S S'"
  obtains f news where "S' = map f S @ news" "\<And>r. r \<in> set S \<Longrightarrow> R r (f r)" "\<And>r. r \<in> set news \<Longrightarrow> N r"
  using assms by (auto simp: table_follow_def)

lemma table_follow_refl: "(\<And>r. R r r) \<Longrightarrow> table_follow R N S S"
  unfolding table_follow_def by (rule exI [of _ id], rule exI [of _ "[]"]) simp

lemma table_follow_update:
  "(\<And>r. R r r) \<Longrightarrow> (\<And>r. r \<in> set S \<Longrightarrow> P r \<Longrightarrow> R r (f r)) \<Longrightarrow> table_follow R N S (update_where P f S)"
  unfolding table_follow_def update_where_def
  by (rule exI [of _ "\<lambda>r. if P r then f r else r"], rule exI [of _ "[]"]) simp

lemma table_followI:
  "S' = map f S @ news \<Longrightarrow> (\<And>r. r \<in> set S \<Longrightarrow> R r (f r)) \<Longrightarrow> (\<And>r. r \<in> set news \<Longrightarrow> N r) \<Longrightarrow>
   table_follow R N S S'"
  unfolding table_follow_def by blast

lemma table_follow_snoc:
  assumes "table_follow R N S S'" and "N r"
  shows "table_follow R N S (S' @ [r])"
proof -
  obtain f news where f: "S' = map f S @ news" "\<And>r. r \<in> set S \<Longrightarrow> R r (f r)" "\<And>r. r \<in> set news \<Longrightarrow> N r"
    using assms(1) by (rule table_followE) blast
  show ?thesis
  proof (rule table_followI)
    show "S' @ [r] = map f S @ (news @ [r])" by (simp add: f(1))
  qed (use f(2,3) assms(2) in auto)
qed

lemma table_follow_keyed:
  assumes "table_follow R N S S'" and "\<And>r r'. R r r' \<Longrightarrow> k r' = k r" and "by_key k x S = Some r"
  shows "\<exists>r'. by_key k x S' = Some r' \<and> R r r'"
proof -
  obtain f news where f: "S' = map f S @ news" "\<And>r. r \<in> set S \<Longrightarrow> R r (f r)"
    using assms(1) by (rule table_followE) blast
  have "by_key k x (map f S) = map_option f (by_key k x S)"
    by (rule by_key_map) (rule assms(2) [OF f(2)])
  then show ?thesis
    using assms(3) f by_key_SomeD [OF assms(3)] by (auto simp: by_key_append)
qed

lemma table_follow_new:
  assumes "table_follow R N S S'" and "\<And>r r'. R r r' \<Longrightarrow> k r' = k r"
    and "by_key k x S = None" and "by_key k x S' = Some r"
  shows "N r"
proof -
  obtain f news where f: "S' = map f S @ news" "\<And>r. r \<in> set S \<Longrightarrow> R r (f r)" "\<And>r. r \<in> set news \<Longrightarrow> N r"
    using assms(1) by (rule table_followE) blast
  have "by_key k x (map f S) = map_option f (by_key k x S)"
    by (rule by_key_map) (rule assms(2) [OF f(2)])
  then have "by_key k x news = Some r" using assms(3,4) f(1) by (simp add: by_key_append)
  then show ?thesis using f(3) by_key_SomeD [of k x news r] by simp
qed

lemma table_follow_same_keys:
  assumes "table_follow R N S S'" and "\<And>r. \<not> N r" and "\<And>r r'. R r r' \<Longrightarrow> k r' = k r"
  shows "map k S' = map k S"
proof -
  obtain f news where f: "S' = map f S @ news" "\<And>r. r \<in> set S \<Longrightarrow> R r (f r)" "\<And>r. r \<in> set news \<Longrightarrow> N r"
    using assms(1) by (rule table_followE) blast
  then have "news = []" using assms(2) by (cases news) auto
  then show ?thesis using f(1) assms(3) [OF f(2)] by simp
qed

lemma table_follow_all:
  assumes "table_follow R N S S'" and "\<And>r r'. R r r' \<Longrightarrow> Q r \<Longrightarrow> Q r'" and "\<And>r. N r \<Longrightarrow> Q r"
    and "\<forall>r \<in> set S. Q r"
  shows "\<forall>r \<in> set S'. Q r"
proof -
  obtain f news where f: "S' = map f S @ news" "\<And>r. r \<in> set S \<Longrightarrow> R r (f r)" "\<And>r. r \<in> set news \<Longrightarrow> N r"
    using assms(1) by (rule table_followE) blast
  have "Q (f r)" if "r \<in> set S" for r
    using assms(2) [OF f(2) [OF that]] assms(4) that by simp
  then show ?thesis using f(1,3) assms(3) by auto
qed

end
