(* ===== verification/Codec.thy ===== *)
theory Codec
  imports Prelude "HOL-Library.Multiset"
begin

text \<open>
  The canonical JSON of \<open>src/polaris/journal/codec.py\<close>: the value type that \<open>json.dumps\<close> sees
  after \<open>_json_default\<close>, its text with sorted keys and minimal separators, and the hash of that
  text.  Text is a list of UTF-8 bytes; \<open>ensure_ascii=False\<close> leaves every byte above 127 alone.

  The digest of \<open>hashlib.sha256\<close> and the digits of \<open>float.__repr__\<close> enter through the record
  \<open>codec\<close>, so that every theorem holds for whatever functions they are; where a property needs
  two digests to differ it says so.
\<close>

datatype json =
    JNull
  | JBool bool
  | JInt int
  | JFloat rat
  | JStr str
  | JArr "json list"
  | JObj "(str \<times> json) list"

record codec =
  sha256 :: "str \<Rightarrow> str"
  float_repr :: "rat \<Rightarrow> str"

section \<open>Text of strings\<close>

definition hex_digit :: "nat \<Rightarrow> char" where
  "hex_digit n = (if n < 10 then char_of (48 + n) else char_of (87 + n))"

text \<open>The escapes of \<open>json.encoder.ESCAPE\<close> (the \<open>ensure_ascii=False\<close> table).\<close>

definition escape_char :: "char \<Rightarrow> str" where
  "escape_char c =
     (let n = of_char c :: nat in
      if n = 34 then [char_of (92::nat), c]
      else if n = 92 then [c, c]
      else if n = 10 then [char_of (92::nat), CHR ''n'']
      else if n = 13 then [char_of (92::nat), CHR ''r'']
      else if n = 9 then [char_of (92::nat), CHR ''t'']
      else if n = 12 then [char_of (92::nat), CHR ''f'']
      else if n = 8 then [char_of (92::nat), CHR ''b'']
      else if n < 32 then [char_of (92::nat), CHR ''u'', CHR ''0'', CHR ''0'', hex_digit (n div 16), hex_digit (n mod 16)]
      else [c])"

definition quote_text :: "str \<Rightarrow> str" where
  "quote_text s = char_of (34::nat) # concat (map escape_char s) @ [char_of (34::nat)]"

section \<open>Canonical text\<close>

fun join_text :: "str \<Rightarrow> str list \<Rightarrow> str" where
  "join_text sep [] = []"
| "join_text sep [x] = x"
| "join_text sep (x # y # ys) = x @ sep @ join_text sep (y # ys)"

fun canonical_json :: "codec \<Rightarrow> json \<Rightarrow> str" where
  "canonical_json cd JNull = ''null''"
| "canonical_json cd (JBool b) = (if b then ''true'' else ''false'')"
| "canonical_json cd (JInt i) = py_int_str i"
| "canonical_json cd (JFloat r) = float_repr cd r"
| "canonical_json cd (JStr s) = quote_text s"
| "canonical_json cd (JArr xs) = ''['' @ join_text '','' (map (canonical_json cd) xs) @ '']''"
| "canonical_json cd (JObj kvs) =
     ''{'' @ join_text '',''
       (map (\<lambda>(k, t). quote_text k @ '':'' @ t)
         (sort_key fst (map (\<lambda>(k, v). (k, canonical_json cd v)) kvs))) @ ''}''"

definition sha256_hex :: "codec \<Rightarrow> json \<Rightarrow> str" where
  "sha256_hex cd v = sha256 cd (canonical_json cd v)"

text \<open>An optional text column or argument as a JSON value (\<open>None\<close> is \<open>null\<close>).\<close>

definition jopt :: "str option \<Rightarrow> json" where
  "jopt x = (case x of None \<Rightarrow> JNull | Some s \<Rightarrow> JStr s)"

definition jopt_int :: "int option \<Rightarrow> json" where
  "jopt_int x = (case x of None \<Rightarrow> JNull | Some i \<Rightarrow> JInt i)"

definition jopt_float :: "rat option \<Rightarrow> json" where
  "jopt_float x = (case x of None \<Rightarrow> JNull | Some r \<Rightarrow> JFloat r)"

section \<open>Python's view of JSON values\<close>

text \<open>\<open>py_str\<close> is \<open>str()\<close> of a JSON value; the texts of floats and containers are parameters.\<close>

record text_env =
  te_codec :: codec
  te_repr :: "json \<Rightarrow> str"

fun py_str :: "text_env \<Rightarrow> json \<Rightarrow> str" where
  "py_str te JNull = ''None''"
| "py_str te (JBool b) = (if b then ''True'' else ''False'')"
| "py_str te (JInt i) = py_int_str i"
| "py_str te (JFloat r) = float_repr (te_codec te) r"
| "py_str te (JStr s) = s"
| "py_str te v = te_repr te v"

fun py_truthy :: "json \<Rightarrow> bool" where
  "py_truthy JNull = False"
| "py_truthy (JBool b) = b"
| "py_truthy (JInt i) = (i \<noteq> 0)"
| "py_truthy (JFloat r) = (r \<noteq> 0)"
| "py_truthy (JStr s) = (s \<noteq> [])"
| "py_truthy (JArr xs) = (xs \<noteq> [])"
| "py_truthy (JObj kvs) = (kvs \<noteq> [])"

text \<open>\<open>mapping.get(key)\<close>, with \<open>None\<close> for an absent key.\<close>

definition jget :: "(str \<times> json) list \<Rightarrow> str \<Rightarrow> json" where
  "jget kvs k = (case map_of kvs k of None \<Rightarrow> JNull | Some v \<Rightarrow> v)"

definition jhas :: "(str \<times> json) list \<Rightarrow> str \<Rightarrow> bool" where
  "jhas kvs k \<longleftrightarrow> map_of kvs k \<noteq> None"

section \<open>The order of members\<close>

text \<open>The order of an object's members does not matter to its canonical text.\<close>

lemma canonical_json_member_order:
  assumes "mset kvs = mset lvs" and "distinct (map fst kvs)"
  shows "canonical_json cd (JObj kvs) = canonical_json cd (JObj lvs)"
proof -
  let ?g = "\<lambda>kv. (fst kv, canonical_json cd (snd kv))"
  have keys: "map fst (map ?g xs) = map fst xs" for xs by simp
  have set_eq: "set (map ?g kvs) = set (map ?g lvs)"
    using mset_eq_setD [OF assms(1)] by simp
  have dist: "distinct (map fst (map ?g kvs))" "distinct (map fst (map ?g lvs))"
    using assms by (simp_all only: keys) (metis mset_map mset_eq_imp_distinct_iff)
  have "sort_key fst (map ?g kvs) = sort_key fst (map ?g lvs)"
  proof (rule map_sorted_distinct_set_unique [where f = fst])
    show "inj_on fst (set (sort_key fst (map ?g kvs)) \<union> set (sort_key fst (map ?g lvs)))"
      using dist(1) set_eq by (simp only: set_sort Un_absorb distinct_map)
    show "distinct (map fst (sort_key fst (map ?g kvs)))"
      using dist(1) by (simp only: distinct_map distinct_sort set_sort)
    show "distinct (map fst (sort_key fst (map ?g lvs)))"
      using dist(2) by (simp only: distinct_map distinct_sort set_sort)
  qed (use set_eq in simp_all)
  then show ?thesis by (simp add: case_prod_unfold)
qed

end
