(* ===== verification/Float64.thy ===== *)
theory Float64
  imports Prelude
begin

text \<open>
  Python floats and SQLite \<open>REAL\<close> columns are IEEE doubles.  A float is modelled by the rational
  number it denotes and every arithmetic operation by the exact one followed by rounding to 53
  significant bits (ties to even, subnormals at exponent -1074).  Infinities and NaN are not
  modelled: the amounts the program adds (seconds of wall time) stay far below 2 to the 1023.
\<close>

fun bit_length :: "nat \<Rightarrow> nat" where
  "bit_length n = (if n = 0 then 0 else Suc (bit_length (n div 2)))"

declare bit_length.simps [simp del]

definition pow2 :: "int \<Rightarrow> rat" where
  "pow2 e = (if 0 \<le> e then 2 ^ nat e else 1 / 2 ^ nat (- e))"

definition ilog2 :: "rat \<Rightarrow> int" where
  "ilog2 x =
     (let (p, q) = quotient_of x; e = int (bit_length (nat p)) - int (bit_length (nat q))
      in if pow2 e \<le> x then e else e - 1)"

definition round_double :: "rat \<Rightarrow> rat" where
  "round_double x =
     (if x = 0 then 0
      else let s = max (ilog2 \<bar>x\<bar> - 52) (- 1074)
           in sgn x * of_int (round_half_even (\<bar>x\<bar> / pow2 s)) * pow2 s)"

definition fadd :: "rat \<Rightarrow> rat \<Rightarrow> rat" where
  "fadd a b = round_double (a + b)"

definition fsub :: "rat \<Rightarrow> rat \<Rightarrow> rat" where
  "fsub a b = round_double (a - b)"

lemma pow2_pos [simp]: "0 < pow2 e"
  by (simp add: pow2_def)

lemma round_double_0 [simp]: "round_double 0 = 0"
  by (simp add: round_double_def)

lemma round_double_nonneg: "0 \<le> x \<Longrightarrow> 0 \<le> round_double x"
  using pow2_pos by (auto simp: round_double_def Let_def less_imp_le
      intro!: mult_nonneg_nonneg round_half_even_mono_nonneg divide_nonneg_pos)

lemma fadd_nonneg: "0 \<le> a \<Longrightarrow> 0 \<le> b \<Longrightarrow> 0 \<le> fadd a b"
  by (simp add: fadd_def round_double_nonneg)

text \<open>\<open>ilog2\<close> is the exponent, so a rounded value can be given by its 53-bit integer.\<close>

lemma pow2_powi: "pow2 e = 2 powi e"
  by (simp add: pow2_def power_int_def field_simps)

lemma pow2_add: "pow2 (a + b) = pow2 a * pow2 b"
  by (simp add: pow2_powi power_int_add)

lemma pow2_strict_mono: "a < b \<Longrightarrow> pow2 a < pow2 b"
  by (simp add: pow2_powi power_int_strict_increasing)

lemma pow2_less_iff: "pow2 a < pow2 b \<longleftrightarrow> a < b"
  using pow2_strict_mono by (metis linorder_neqE not_less_iff_gr_or_eq)

lemma bit_length_bounds: "0 < n \<Longrightarrow> 2 ^ (bit_length n - 1) \<le> n \<and> n < 2 ^ bit_length n \<and> 0 < bit_length n"
proof (induction n rule: bit_length.induct)
  case (1 n)
  show ?case
  proof (cases "n div 2 = 0")
    case True
    with 1(2) have "n = 1" by auto
    then show ?thesis by (simp add: bit_length.simps)
  next
    case False
    with 1 have "2 ^ (bit_length (n div 2) - 1) \<le> n div 2" "n div 2 < 2 ^ bit_length (n div 2)"
       "0 < bit_length (n div 2)" by auto
    then obtain m where m: "bit_length (n div 2) = Suc m" "2 ^ m \<le> n div 2" "n div 2 < 2 * 2 ^ m"
      by (cases "bit_length (n div 2)") auto
    have "bit_length n = Suc (Suc m)" using 1(2) m(1) by (subst bit_length.simps) simp
    then show ?thesis using m by auto
  qed
qed

lemma pow2_bit_length:
  assumes "0 < p"
  shows "pow2 (int (bit_length (nat p)) - 1) \<le> of_int p" and "of_int p < pow2 (int (bit_length (nat p)))"
proof -
  define a where "a = bit_length (nat p)"
  have A: "2 ^ (a - 1) \<le> nat p" "nat p < 2 ^ a" "0 < a"
    using bit_length_bounds [of "nat p"] assms by (auto simp: a_def)
  have p: "of_int p = (of_nat (nat p) :: rat)" using assms by simp
  have "of_nat (2 ^ (a - 1)) \<le> (of_nat (nat p) :: rat)" "of_nat (nat p) < (of_nat (2 ^ a) :: rat)"
    using A(1,2) by (simp_all only: of_nat_le_iff of_nat_less_iff)
  moreover have "pow2 (int a) = 2 ^ a" "pow2 (int a - 1) = 2 ^ (a - 1)"
    using A(3) by (simp_all add: pow2_def nat_diff_distrib)
  ultimately show "pow2 (int (bit_length (nat p)) - 1) \<le> of_int p"
      "of_int p < pow2 (int (bit_length (nat p)))"
    unfolding p a_def [symmetric] by simp_all
qed

lemma ilog2_bounds:
  assumes "0 < x"
  shows "pow2 (ilog2 x) \<le> x" and "x < pow2 (ilog2 x + 1)"
proof -
  obtain p q where pq: "quotient_of x = (p, q)" by (cases "quotient_of x")
  have q: "0 < q" using quotient_of_denom_pos [OF pq] .
  have x: "x = of_int p / of_int q" using quotient_of_div [OF pq] .
  have p: "0 < p" using assms q by (simp add: x zero_less_divide_iff)
  define a b where ab: "a = bit_length (nat p)" "b = bit_length (nat q)"
  note rp = pow2_bit_length [OF p, folded ab] and rq = pow2_bit_length [OF q, folded ab]
  define e where "e = int a - int b"
  have hi: "x < pow2 (e + 1)"
  proof -
    have "of_int p < pow2 (e + 1) * pow2 (int b - 1)"
      using rp(2) by (simp add: pow2_add [symmetric] e_def)
    also have "\<dots> \<le> pow2 (e + 1) * of_int q" using rq(1) by simp
    finally show ?thesis using q by (simp add: x field_simps)
  qed
  have lo: "pow2 (e - 1) \<le> x"
  proof -
    have "pow2 (e - 1) * of_int q \<le> pow2 (e - 1) * pow2 (int b)" using rq(2) by simp
    also have "\<dots> \<le> of_int p" using rp(1) by (simp add: pow2_add [symmetric] e_def)
    finally show ?thesis using q by (simp add: x field_simps)
  qed
  have il: "ilog2 x = (if pow2 e \<le> x then e else e - 1)"
    by (simp add: ilog2_def pq ab e_def Let_def)
  show "pow2 (ilog2 x) \<le> x" "x < pow2 (ilog2 x + 1)" using il hi lo by auto
qed

lemma ilog2_eqI: "pow2 e \<le> x \<Longrightarrow> x < pow2 (e + 1) \<Longrightarrow> ilog2 x = e"
proof -
  assume e: "pow2 e \<le> x" "x < pow2 (e + 1)"
  have "0 < x" using e(1) pow2_pos [of e] by linarith
  from ilog2_bounds [OF this] e have "pow2 e < pow2 (ilog2 x + 1)" "pow2 (ilog2 x) < pow2 (e + 1)" by linarith+
  then show "ilog2 x = e" by (simp add: pow2_less_iff)
qed

lemma round_double_normal:
  "pow2 e \<le> x \<Longrightarrow> x < pow2 (e + 1) \<Longrightarrow> - 1022 \<le> e \<Longrightarrow>
   round_double x = of_int (round_half_even (x / pow2 (e - 52))) * pow2 (e - 52)"
proof -
  assume e: "pow2 e \<le> x" "x < pow2 (e + 1)" "- 1022 \<le> e"
  then have "0 < x" using pow2_pos [of e] by linarith
  moreover have "max (e - 52) (- 1074) = e - 52" using e(3) by simp
  ultimately show ?thesis using ilog2_eqI [OF e(1,2)] by (simp add: round_double_def Let_def)
qed

lemma round_half_even_eqI:
  assumes "of_int n - 1 / 2 < x" and "x < of_int n + 1 / 2"
  shows "round_half_even x = n"
proof (cases "of_int n \<le> x")
  case True
  then have "\<lfloor>x\<rfloor> = n" using assms(2) by (intro floor_unique) auto
  then show ?thesis using assms(2) by (simp add: round_half_even_def Let_def)
next
  case False
  then have "\<lfloor>x\<rfloor> = n - 1" using assms(1) by (intro floor_unique) auto
  then show ?thesis using assms(1) False by (simp add: round_half_even_def Let_def)
qed

lemma round_double_eqI:
  assumes "pow2 e \<le> x" and "x < pow2 (e + 1)" and "- 1022 \<le> e"
    and "of_int n - 1 / 2 < x / pow2 (e - 52)" and "x / pow2 (e - 52) < of_int n + 1 / 2"
  shows "round_double x = of_int n * pow2 (e - 52)"
  using round_double_normal [OF assms(1-3)] round_half_even_eqI [OF assms(4,5)] by simp

lemma round_double_neg: "round_double (- x) = - round_double x"
  by (simp add: round_double_def Let_def sgn_if)

lemma round_half_even_ge: "of_int k \<le> x \<Longrightarrow> k \<le> round_half_even x"
proof -
  assume "of_int k \<le> x"
  then have "k \<le> \<lfloor>x\<rfloor>" by (simp add: le_floor_iff)
  then show "k \<le> round_half_even x" by (simp add: round_half_even_def Let_def)
qed

lemma round_half_even_le: "x \<le> of_int k \<Longrightarrow> round_half_even x \<le> k"
proof -
  assume x: "x \<le> of_int k"
  show "round_half_even x \<le> k"
  proof (cases "x = of_int k")
    case False
    then have "\<lfloor>x\<rfloor> + 1 \<le> k" using x by (simp add: floor_less_iff add1_zle_eq)
    then show ?thesis by (simp add: round_half_even_def Let_def)
  qed simp
qed

lemma int_pow2: "s \<le> 0 \<Longrightarrow> of_int n / pow2 s = of_int (n * 2 ^ nat (- s))"
  by (auto simp: pow2_def)

lemma int_pow2_cancel: "s \<le> 0 \<Longrightarrow> of_int (n * 2 ^ nat (- s)) * pow2 s = of_int n"
  using int_pow2 [of s n] pow2_pos [of s] by (metis less_irrefl nonzero_eq_divide_eq)

lemma round_double_pos:
  "0 < x \<Longrightarrow> round_double x =
     (let s = max (ilog2 x - 52) (- 1074) in of_int (round_half_even (x / pow2 s)) * pow2 s)"
  by (simp add: round_double_def Let_def)

text \<open>Rounding does not cross an integer below 2 to the 53.\<close>

lemma pow2_mono: "a \<le> b \<Longrightarrow> pow2 a \<le> pow2 b"
  using pow2_strict_mono [of a b] by (cases "a = b") auto

lemma pow2_53: "n < 2 ^ 53 \<Longrightarrow> of_int n < pow2 53"
proof -
  assume "n < 2 ^ 53"
  then have "(of_int n :: rat) < of_int (2 ^ 53)" by (simp only: of_int_less_iff)
  then show ?thesis by (simp add: pow2_def)
qed

lemma round_double_ge_int:
  assumes "of_int n \<le> x" and "0 \<le> n" and "n < 2 ^ 53"
  shows "of_int n \<le> round_double x"
proof (cases "x = 0")
  case False
  define e s where "e = ilog2 x" and s: "s = max (e - 52) (- 1074)"
  have x: "0 < x" using assms(1,2) False by (metis less_le of_int_0_le_iff order_trans)
  have b: "pow2 e \<le> x" using ilog2_bounds [OF x] by (simp add: e_def)
  have r: "round_double x = of_int (round_half_even (x / pow2 s)) * pow2 s"
    using round_double_pos [OF x] by (simp add: e_def s Let_def)
  show ?thesis
  proof (cases "e \<le> 52")
    case True
    then have s0: "s \<le> 0" by (simp add: s)
    have "of_int n / pow2 s \<le> x / pow2 s" using assms(1) by (intro divide_right_mono) (simp_all add: less_imp_le)
    then have "n * 2 ^ nat (- s) \<le> round_half_even (x / pow2 s)"
      unfolding int_pow2 [OF s0] by (rule round_half_even_ge)
    then have "of_int (n * 2 ^ nat (- s)) * pow2 s \<le> round_double x"
      unfolding r by (intro mult_right_mono) (simp_all only: of_int_le_iff pow2_pos less_imp_le)
    then show ?thesis by (simp only: int_pow2_cancel [OF s0])
  next
    case False
    then have s1: "s = e - 52" by (simp add: s)
    have p: "pow2 e = of_int (2 ^ 52) * pow2 s"
      using pow2_add [of 52 s] by (simp add: s1) (simp add: pow2_def)
    have "of_int (2 ^ 52) \<le> x / pow2 s"
      using b unfolding p by (simp only: le_divide_eq pow2_pos if_True)
    then have "2 ^ 52 \<le> round_half_even (x / pow2 s)" by (rule round_half_even_ge)
    then have "pow2 e \<le> round_double x"
      unfolding r p by (intro mult_right_mono) (simp_all only: of_int_le_iff pow2_pos less_imp_le)
    moreover have "pow2 53 \<le> pow2 e" using False by (intro pow2_mono) simp
    ultimately show ?thesis using pow2_53 [OF assms(3)] by linarith
  qed
qed (use assms in simp)

lemma round_double_le_int:
  assumes "x \<le> of_int n" and "0 \<le> x" and "n < 2 ^ 53"
  shows "round_double x \<le> of_int n"
proof (cases "x = 0")
  case False
  define e s where "e = ilog2 x" and s: "s = max (e - 52) (- 1074)"
  have x: "0 < x" using assms(2) False by simp
  have b: "pow2 e \<le> x" using ilog2_bounds [OF x] by (simp add: e_def)
  have r: "round_double x = of_int (round_half_even (x / pow2 s)) * pow2 s"
    using round_double_pos [OF x] by (simp add: e_def s Let_def)
  have "e \<le> 52"
  proof (rule ccontr)
    assume "\<not> e \<le> 52"
    then have "pow2 53 \<le> pow2 e" by (intro pow2_mono) simp
    then show False using b assms(1) pow2_53 [OF assms(3)] by linarith
  qed
  then have s0: "s \<le> 0" by (simp add: s)
  have "x / pow2 s \<le> of_int n / pow2 s" using assms(1) by (intro divide_right_mono) (simp_all add: less_imp_le)
  then have "round_half_even (x / pow2 s) \<le> n * 2 ^ nat (- s)"
    unfolding int_pow2 [OF s0] by (rule round_half_even_le)
  then have "round_double x \<le> of_int (n * 2 ^ nat (- s)) * pow2 s"
    unfolding r by (intro mult_right_mono) (simp_all only: of_int_le_iff pow2_pos less_imp_le)
  then show ?thesis by (simp only: int_pow2_cancel [OF s0])
qed (use assms in simp)

lemma round_double_int: "0 \<le> n \<Longrightarrow> n < 2 ^ 53 \<Longrightarrow> round_double (of_int n) = of_int n"
  using round_double_ge_int [of n "of_int n"] round_double_le_int [of "of_int n" n] by simp

lemma round_double_ge_pow2:
  assumes "pow2 k \<le> x" and "0 \<le> k"
  shows "pow2 k \<le> round_double x"
proof -
  define e s where "e = ilog2 x" and s: "s = max (e - 52) (- 1074)"
  have x: "0 < x" using assms(1) pow2_pos [of k] by (rule order.strict_trans2 [rotated])
  have b: "pow2 e \<le> x" "x < pow2 (e + 1)" using ilog2_bounds [OF x] by (simp_all add: e_def)
  have "\<not> e + 1 \<le> k" using b(2) assms(1) pow2_mono [of "e + 1" k] by linarith
  then have ke: "k \<le> e" by simp
  then have s1: "s = e - 52" using assms(2) by (simp add: s)
  have p: "pow2 e = of_int (2 ^ 52) * pow2 s"
    using pow2_add [of 52 s] by (simp add: s1) (simp add: pow2_def)
  have "of_int (2 ^ 52) \<le> x / pow2 s"
    using b(1) unfolding p by (simp only: le_divide_eq pow2_pos if_True)
  then have "2 ^ 52 \<le> round_half_even (x / pow2 s)" by (rule round_half_even_ge)
  then have "pow2 e \<le> round_double x"
    unfolding p round_double_pos [OF x] e_def [symmetric] s [symmetric] Let_def
    by (intro mult_right_mono) (simp_all only: of_int_le_iff pow2_pos less_imp_le)
  with pow2_mono [OF ke] show ?thesis by (rule order_trans)
qed

section \<open>Durations\<close>

text \<open>
  \<open>timedelta(seconds=s)\<close> in microseconds: the whole seconds are exact, the fraction is multiplied by
  a million in double precision, and the sum is rounded half to even.
\<close>

definition truncate_rat :: "rat \<Rightarrow> int" where
  "truncate_rat s = (if 0 \<le> s then \<lfloor>s\<rfloor> else \<lceil>s\<rceil>)"

definition timedelta_us :: "rat \<Rightarrow> int" where
  "timedelta_us s =
     (let i = truncate_rat s
      in round_half_even (of_int (i * 1000000) + round_double ((s - of_int i) * 1000000)))"

lemma timedelta_us_int [simp]: "timedelta_us (of_int n) = n * 1000000"
proof -
  have "truncate_rat (of_int n) = n" by (simp add: truncate_rat_def)
  then have "timedelta_us (of_int n) = round_half_even (of_int (n * 1000000))"
    by (simp add: timedelta_us_def Let_def)
  then show ?thesis by (simp only: round_half_even_int)
qed

lemma timedelta_us_numeral [simp]: "timedelta_us (numeral n) = numeral n * 1000000"
  using timedelta_us_int [of "numeral n"] by simp

end
