(* ===== verification/JournalModel.thy ===== *)
theory JournalModel
  imports Codec Float64
begin

text \<open>
  The data of the execution journal (\<open>src/polaris/journal/models.py\<close>, \<open>errors.py\<close> and the schema
  and helpers of \<open>journal.py\<close>): statuses and their text, the budget, one record per table of the
  schema, the database, and the transaction that every writing method of \<open>Journal\<close> runs in.
\<close>

section \<open>Statuses\<close>

datatype run_status = RunCreated | RunRunning | RunPaused | RunCompleted | RunFailed | RunCancelled

datatype step_status =
  StepCreated | StepReady | StepLeased | StepExecuting | StepCommitted | StepUncertain
  | StepFailed | StepCancelled

datatype safety_class = ReadOnly | Idempotent | Reconcilable | OpaqueSideEffect

fun run_status_value :: "run_status \<Rightarrow> str" where
  "run_status_value RunCreated = ''created''"
| "run_status_value RunRunning = ''running''"
| "run_status_value RunPaused = ''paused''"
| "run_status_value RunCompleted = ''completed''"
| "run_status_value RunFailed = ''failed''"
| "run_status_value RunCancelled = ''cancelled''"

fun step_status_value :: "step_status \<Rightarrow> str" where
  "step_status_value StepCreated = ''created''"
| "step_status_value StepReady = ''ready''"
| "step_status_value StepLeased = ''leased''"
| "step_status_value StepExecuting = ''executing''"
| "step_status_value StepCommitted = ''committed''"
| "step_status_value StepUncertain = ''uncertain''"
| "step_status_value StepFailed = ''failed''"
| "step_status_value StepCancelled = ''cancelled''"

fun safety_value :: "safety_class \<Rightarrow> str" where
  "safety_value ReadOnly = ''read_only''"
| "safety_value Idempotent = ''idempotent''"
| "safety_value Reconcilable = ''reconcilable''"
| "safety_value OpaqueSideEffect = ''opaque_side_effect''"

text \<open>The run transition table \<open>_RUN_TRANSITIONS\<close>.\<close>

fun run_transitions :: "run_status \<Rightarrow> run_status list" where
  "run_transitions RunCreated = [RunRunning, RunPaused, RunFailed, RunCancelled]"
| "run_transitions RunRunning = [RunPaused, RunCompleted, RunFailed, RunCancelled]"
| "run_transitions RunPaused = [RunRunning, RunCompleted, RunFailed, RunCancelled]"
| "run_transitions RunCompleted = []"
| "run_transitions RunFailed = []"
| "run_transitions RunCancelled = []"

section \<open>Errors\<close>

text \<open>
  The exceptions of \<open>errors.py\<close>, the \<open>sqlite3.IntegrityError\<close> of a violated constraint, and the
  \<open>OverflowError\<close> of a parameter that is no 64-bit integer.  Messages are not modelled.
\<close>

datatype journal_error =
  JournalClosed | NotFound | InvalidTransition | OwnershipError | LeaseExpired
  | BudgetExceeded | Conflict | ValidationError | IntegrityError | OverflowError

text \<open>\<open>RunStatus(text)\<close>, \<open>StepStatus(text)\<close> and \<open>SafetyClass(text)\<close> with their \<open>ValueError\<close>.\<close>

definition coerce_run_status :: "str \<Rightarrow> journal_error + run_status" where
  "coerce_run_status s =
     (case find (\<lambda>x. run_status_value x = s)
        [RunCreated, RunRunning, RunPaused, RunCompleted, RunFailed, RunCancelled] of
        None \<Rightarrow> Inl ValidationError | Some x \<Rightarrow> Inr x)"

definition coerce_step_status :: "str \<Rightarrow> journal_error + step_status" where
  "coerce_step_status s =
     (case find (\<lambda>x. step_status_value x = s)
        [StepCreated, StepReady, StepLeased, StepExecuting, StepCommitted, StepUncertain,
         StepFailed, StepCancelled] of
        None \<Rightarrow> Inl ValidationError | Some x \<Rightarrow> Inr x)"

definition coerce_safety :: "str \<Rightarrow> journal_error + safety_class" where
  "coerce_safety s =
     (case find (\<lambda>x. safety_value x = s) [ReadOnly, Idempotent, Reconcilable, OpaqueSideEffect] of
        None \<Rightarrow> Inl ValidationError | Some x \<Rightarrow> Inr x)"

lemma coerce_run_status_value [simp]: "coerce_run_status (run_status_value x) = Inr x"
  by (cases x) (simp_all add: coerce_run_status_def)

lemma coerce_step_status_value [simp]: "coerce_step_status (step_status_value x) = Inr x"
  by (cases x) (simp_all add: coerce_step_status_def)

lemma coerce_safety_value [simp]: "coerce_safety (safety_value x) = Inr x"
  by (cases x) (simp_all add: coerce_safety_def)

lemma coerce_run_status_Inr: "coerce_run_status s = Inr x \<longleftrightarrow> s = run_status_value x"
proof
  show "coerce_run_status s = Inr x \<Longrightarrow> s = run_status_value x"
    by (auto simp: coerce_run_status_def split: if_splits option.splits)
qed simp

section \<open>Integers in SQLite\<close>

text \<open>
  An \<open>INTEGER\<close> is a signed 64-bit number; \<open>sqlite3\<close> refuses to bind any other \<open>int\<close>.  A sum or
  difference that leaves the range is computed in double precision and stays a \<open>REAL\<close>; one that
  is an integer of the range again is stored as an \<open>INTEGER\<close> by the affinity of the column.  Doubles
  beyond the range are integers, so that a column is an \<open>int\<close> that is a \<open>REAL\<close> exactly when it is
  out of range.
\<close>

definition int64 :: "int \<Rightarrow> bool" where
  "int64 n \<longleftrightarrow> - (2 ^ 63) \<le> n \<and> n < 2 ^ 63"

definition bindable :: "int option \<Rightarrow> bool" where
  "bindable x \<longleftrightarrow> (case x of None \<Rightarrow> True | Some n \<Rightarrow> int64 n)"

definition as_real :: "int \<Rightarrow> rat" where
  "as_real n = round_double (of_int n)"

definition sql_add :: "int \<Rightarrow> int \<Rightarrow> int" where
  "sql_add x y = (if int64 x \<and> int64 y \<and> int64 (x + y) then x + y else \<lfloor>fadd (as_real x) (as_real y)\<rfloor>)"

definition sql_sub :: "int \<Rightarrow> int \<Rightarrow> int" where
  "sql_sub x y = (if int64 x \<and> int64 y \<and> int64 (x - y) then x - y else \<lfloor>fsub (as_real x) (as_real y)\<rfloor>)"

text \<open>The sum \<open>row[a] + row[b] + amount\<close> that Python computes: unbounded, or in doubles once a column is a \<open>REAL\<close>.\<close>

definition py_sum :: "int \<Rightarrow> int \<Rightarrow> int \<Rightarrow> int" where
  "py_sum x y n = (if int64 x \<and> int64 y then x + y + n else \<lfloor>fadd (fadd (as_real x) (as_real y)) (as_real n)\<rfloor>)"

lemma bindable_simps [simp]: "bindable None" "bindable (Some n) \<longleftrightarrow> int64 n"
  by (simp_all add: bindable_def)

lemma sql_exact:
  "0 \<le> x \<Longrightarrow> 0 \<le> y \<Longrightarrow> x + y < 2 ^ 63 \<Longrightarrow> sql_add x y = x + y"
  "0 \<le> y \<Longrightarrow> y \<le> x \<Longrightarrow> x < 2 ^ 63 \<Longrightarrow> sql_sub x y = x - y"
  by (simp_all add: sql_add_def sql_sub_def int64_def)

lemma as_real_nonneg: "0 \<le> n \<Longrightarrow> 0 \<le> as_real n"
  by (simp add: as_real_def round_double_nonneg)

lemma sql_add_nonneg: "0 \<le> x \<Longrightarrow> 0 \<le> y \<Longrightarrow> 0 \<le> sql_add x y"
  by (simp add: sql_add_def as_real_nonneg fadd_nonneg)

text \<open>A sum of amounts that are not negative and do not fit is beyond every 64-bit limit.\<close>

lemma real_stays_big:
  assumes "pow2 63 \<le> a" and "0 \<le> b"
  shows "pow2 63 \<le> fadd a b" "pow2 63 \<le> fadd b a"
  using assms by (auto simp: fadd_def intro!: round_double_ge_pow2)

lemma as_real_big: "2 ^ 63 \<le> n \<Longrightarrow> pow2 63 \<le> as_real n"
  unfolding as_real_def
proof (intro round_double_ge_pow2)
  assume "2 ^ 63 \<le> n"
  then have "(of_int (2 ^ 63) :: rat) \<le> of_int n" by (simp only: of_int_le_iff)
  then show "pow2 63 \<le> of_int n" by (simp add: pow2_def)
qed simp

lemma floor_big: "pow2 63 \<le> x \<Longrightarrow> 2 ^ 63 \<le> \<lfloor>x\<rfloor>"
  by (simp add: pow2_def le_floor_iff)

lemma py_sum_exact:
  assumes "0 \<le> x" "0 \<le> y" "0 \<le> n" and "py_sum x y n < 2 ^ 63"
  shows "py_sum x y n = x + y + n"
proof (cases "int64 x \<and> int64 y")
  case False
  with assms(1,2) have "2 ^ 63 \<le> x \<or> 2 ^ 63 \<le> y" by (auto simp: int64_def)
  then have big: "pow2 63 \<le> fadd (as_real x) (as_real y)"
  proof
    assume "2 ^ 63 \<le> x"
    then show ?thesis using assms(2) by (intro real_stays_big(1) as_real_big as_real_nonneg)
  next
    assume "2 ^ 63 \<le> y"
    then show ?thesis using assms(1) by (intro real_stays_big(2) as_real_big as_real_nonneg)
  qed
  have "py_sum x y n = \<lfloor>fadd (fadd (as_real x) (as_real y)) (as_real n)\<rfloor>" using False by (auto simp: py_sum_def)
  then have "2 ^ 63 \<le> py_sum x y n"
    using floor_big [OF real_stays_big(1) [OF big as_real_nonneg [OF assms(3)]]] by simp
  with assms(4) show ?thesis by simp
qed (simp add: py_sum_def)

section \<open>Budgets\<close>

text \<open>A wall clock limit is an \<open>int\<close> or a \<open>float\<close>; the column has \<open>REAL\<close> affinity.\<close>

datatype wall_number = WallInt int | WallFloat rat

fun wall_value :: "wall_number \<Rightarrow> rat" where
  "wall_value (WallInt n) = of_int n"
| "wall_value (WallFloat r) = r"

fun wall_json :: "wall_number option \<Rightarrow> json" where
  "wall_json None = JNull"
| "wall_json (Some (WallInt n)) = JInt n"
| "wall_json (Some (WallFloat r)) = JFloat r"

fun stored_wall :: "wall_number \<Rightarrow> wall_number" where
  "stored_wall (WallInt n) = WallFloat (as_real n)"
| "stored_wall (WallFloat r) = WallFloat r"

fun wall_bindable :: "wall_number option \<Rightarrow> bool" where
  "wall_bindable (Some (WallInt n)) \<longleftrightarrow> int64 n"
| "wall_bindable _ \<longleftrightarrow> True"

record budget =
  call_limit :: "int option"
  token_limit :: "int option"
  micro_usd_limit :: "int option"
  wall_seconds_limit :: "wall_number option"
  reserved_calls :: int
  reserved_tokens :: int
  reserved_micro_usd :: int
  reserved_wall_seconds :: rat
  used_calls :: int
  used_tokens :: int
  used_micro_usd :: int
  used_wall_seconds :: rat

definition fresh_budget :: "int option \<Rightarrow> int option \<Rightarrow> int option \<Rightarrow> wall_number option \<Rightarrow> budget" where
  "fresh_budget c t m w =
     \<lparr>call_limit = c, token_limit = t, micro_usd_limit = m, wall_seconds_limit = w,
      reserved_calls = 0, reserved_tokens = 0, reserved_micro_usd = 0, reserved_wall_seconds = 0,
      used_calls = 0, used_tokens = 0, used_micro_usd = 0, used_wall_seconds = 0\<rparr>"

definition limits_fit :: "budget \<Rightarrow> bool" where
  "limits_fit b \<longleftrightarrow> bindable (call_limit b) \<and> bindable (token_limit b) \<and> bindable (micro_usd_limit b)"

text \<open>The table constraint \<open>CHECK (reserved_... >= 0)\<close> of \<open>runs\<close>.\<close>

definition budget_check :: "budget \<Rightarrow> bool" where
  "budget_check b \<longleftrightarrow> 0 \<le> reserved_calls b \<and> 0 \<le> reserved_tokens b \<and>
     0 \<le> reserved_micro_usd b \<and> 0 \<le> reserved_wall_seconds b"

section \<open>Rows\<close>

text \<open>
  One record per table, in the order of the columns; a column that holds JSON keeps the canonical
  text.  The budget columns of \<open>runs\<close> are grouped in one field.
\<close>

record run_row =
  run_id :: str
  run_mode :: str
  run_request :: str
  run_config :: str
  run_stat :: run_status
  run_parent :: "str option"
  run_budget :: budget
  run_created :: instant
  run_updated :: instant

record key_row =
  external_key :: str
  ext_run :: str
  mode_hash :: str
  request_hash :: str
  config_hash :: str
  budget_hash :: str
  ext_parent :: "str option"
  ext_created :: instant

record step_row =
  step_id :: str
  step_run :: str
  step_key :: str
  step_kind :: str
  step_name :: str
  step_input :: str
  input_hash :: str
  step_safety :: safety_class
  step_seq :: "int option"
  step_stat :: step_status
  step_output :: "str option"
  step_error :: "str option"
  uncertainty :: "str option"
  lease_owner :: "str option"
  lease_expires :: "instant option"
  attempts :: int
  step_created :: instant
  step_updated :: instant

record event_row =
  event_id :: int
  event_run :: str
  event_step :: "str option"
  event_type :: str
  event_payload :: str
  event_created :: instant

record receipt_row =
  receipt_id :: str
  receipt_run :: str
  receipt_step :: "str option"
  idem_key :: str
  receipt_payload :: str
  receipt_created :: instant

datatype approval_status = Pending | Approved | Rejected

record approval_row =
  approval_id :: str
  approval_run :: str
  approval_step :: "str option"
  approval_kind :: str
  approval_request :: str
  approval_stat :: approval_status
  decision :: "approval_status option"
  decided_by :: "str option"
  decision_reason :: "str option"
  approval_created :: instant
  decided_at :: "instant option"

record artifact_row =
  artifact_id :: str
  artifact_run :: str
  artifact_step :: "str option"
  artifact_name :: str
  media_type :: "str option"
  artifact_uri :: str
  artifact_sha :: "str option"
  size_bytes :: "int option"
  artifact_meta :: str
  artifact_created :: instant

datatype call_status = CallStarted | CallCompleted | CallFailed | CallUncertain

record call_row =
  call_id :: str
  call_run :: str
  call_step :: "str option"
  call_provider :: str
  call_model :: "str option"
  call_request :: str
  call_response :: "str option"
  call_stat :: call_status
  call_in_tokens :: int
  call_out_tokens :: int
  call_micro_usd :: int
  call_started :: instant
  call_completed :: "instant option"

text \<open>The four resources of a reservation, asked for and actually consumed.\<close>

record amounts =
  a_calls :: int
  a_tokens :: int
  a_micro_usd :: int
  a_wall :: rat

record reservation_row =
  rsv_id :: str
  rsv_run :: str
  rsv_asked :: amounts
  rsv_actual :: "amounts option"
  rsv_settled :: bool
  rsv_created :: instant
  rsv_settled_at :: "instant option"

section \<open>The database and its transactions\<close>

record db =
  runs :: "run_row list"
  external_keys :: "key_row list"
  steps :: "step_row list"
  events :: "event_row list"
  receipts :: "receipt_row list"
  approvals :: "approval_row list"
  artifacts :: "artifact_row list"
  calls :: "call_row list"
  reservations :: "reservation_row list"

definition empty_db :: db where
  "empty_db = \<lparr>runs = [], external_keys = [], steps = [], events = [], receipts = [],
     approvals = [], artifacts = [], calls = [], reservations = []\<rparr>"

record journal =
  database :: db
  closed :: bool

text \<open>
  \<open>_transaction\<close>: the body runs on the database under the connection's lock; an exception rolls
  back, otherwise the new database is committed.  A closed journal refuses.
\<close>

definition transaction ::
  "(db \<Rightarrow> journal_error + 'a \<times> db) \<Rightarrow> journal \<Rightarrow> (journal_error + 'a) \<times> journal" where
  "transaction body j =
     (if closed j then (Inl JournalClosed, j)
      else case body (database j) of
             Inl e \<Rightarrow> (Inl e, j)
           | Inr (x, d) \<Rightarrow> (Inr x, j\<lparr>database := d\<rparr>))"

definition close_journal :: "journal \<Rightarrow> journal" where
  "close_journal j = j\<lparr>closed := True\<rparr>"

text \<open>\<open>_new_id\<close>: a prefix and the hexadecimal of a fresh uuid.\<close>

definition new_id :: "str \<Rightarrow> str \<Rightarrow> str" where
  "new_id prefix hex = prefix @ ''_'' @ hex"

section \<open>Timestamps\<close>

text \<open>
  \<open>isoformat(timespec="microseconds")\<close> of an instant in UTC with \<open>Z\<close> for the offset.  The columns keep the instant,
  whose order is the order of these texts; the payload of an event keeps the text.
\<close>

definition civil_date :: "int \<Rightarrow> int \<times> int \<times> int" where
  "civil_date z =
     (let n = z + 719468; doe = n mod 146097;
          yoe = (doe - doe div 1460 + doe div 36524 - doe div 146096) div 365;
          doy = doe - (365 * yoe + yoe div 4 - yoe div 100);
          mp = (5 * doy + 2) div 153;
          m = (if mp < 10 then mp + 3 else mp - 9)
      in (yoe + 400 * (n div 146097) + (if m \<le> 2 then 1 else 0), m, doy - (153 * mp + 2) div 5 + 1))"

definition zero_padded :: "nat \<Rightarrow> int \<Rightarrow> str" where
  "zero_padded w n = (let t = py_int_str n in replicate (w - length t) (CHR ''0'') @ t)"

definition iso_instant :: "instant \<Rightarrow> str" where
  "iso_instant t =
     (let (y, m, d) = civil_date (t div 86400000000); us = t mod 86400000000; s = us div 1000000
      in zero_padded 4 y @ ''-'' @ zero_padded 2 m @ ''-'' @ zero_padded 2 d @ ''T'' @ zero_padded 2 (s div 3600) @ '':'' @
         zero_padded 2 (s div 60 mod 60) @ '':'' @ zero_padded 2 (s mod 60) @ ''.'' @ zero_padded 6 (us mod 1000000) @ ''Z'')"

lemma iso_instant_examples:
  "iso_instant 0 = ''1970-01-01T00:00:00.000000Z''"
  "iso_instant 1709208245000042 = ''2024-02-29T12:04:05.000042Z''"
  by code_simp+

section \<open>Lookups and the event log\<close>

abbreviation find_run :: "str \<Rightarrow> db \<Rightarrow> run_row option" where
  "find_run x d \<equiv> by_key run_id x (runs d)"

abbreviation find_step :: "str \<Rightarrow> db \<Rightarrow> step_row option" where
  "find_step x d \<equiv> by_key step_id x (steps d)"

abbreviation find_approval :: "str \<Rightarrow> db \<Rightarrow> approval_row option" where
  "find_approval x d \<equiv> by_key approval_id x (approvals d)"

abbreviation find_call :: "str \<Rightarrow> db \<Rightarrow> call_row option" where
  "find_call x d \<equiv> by_key call_id x (calls d)"

abbreviation find_reservation :: "str \<Rightarrow> db \<Rightarrow> reservation_row option" where
  "find_reservation x d \<equiv> by_key rsv_id x (reservations d)"

text \<open>\<open>AUTOINCREMENT\<close>: one more than the largest identifier ever given (rows are never deleted).\<close>

definition next_event_id :: "event_row list \<Rightarrow> int" where
  "next_event_id es = fold max (map event_id es) 0 + 1"

lemma next_event_id_Nil [simp]: "next_event_id [] = 1"
  by (simp add: next_event_id_def)

lemma next_event_id_snoc [simp]:
  "event_id e = next_event_id es \<Longrightarrow> next_event_id (es @ [e]) = next_event_id es + 1"
  by (simp add: next_event_id_def)

definition append_event_row ::
  "codec \<Rightarrow> str \<Rightarrow> str \<Rightarrow> json \<Rightarrow> str option \<Rightarrow> instant \<Rightarrow> db \<Rightarrow> db" where
  "append_event_row cd run ty payload sid ts d =
     d\<lparr>events := events d @
        [\<lparr>event_id = next_event_id (events d), event_run = run, event_step = sid,
          event_type = ty, event_payload = canonical_json cd payload, event_created = ts\<rparr>]\<rparr>"

lemma append_event_row_other [simp]:
  "runs (append_event_row cd run ty p sid ts d) = runs d"
  "external_keys (append_event_row cd run ty p sid ts d) = external_keys d"
  "steps (append_event_row cd run ty p sid ts d) = steps d"
  "receipts (append_event_row cd run ty p sid ts d) = receipts d"
  "approvals (append_event_row cd run ty p sid ts d) = approvals d"
  "artifacts (append_event_row cd run ty p sid ts d) = artifacts d"
  "calls (append_event_row cd run ty p sid ts d) = calls d"
  "reservations (append_event_row cd run ty p sid ts d) = reservations d"
  by (simp_all add: append_event_row_def)

lemma events_append_event_row:
  "events (append_event_row cd run ty p sid ts d) = events d @
     [\<lparr>event_id = next_event_id (events d), event_run = run, event_step = sid,
       event_type = ty, event_payload = canonical_json cd p, event_created = ts\<rparr>]"
  by (simp add: append_event_row_def)

end
