(* ===== verification/JournalRuns.thy ===== *)
theory JournalRuns
  imports JournalModel
begin

text \<open>
  The run operations of \<open>Journal\<close>: budget input, \<open>create_run\<close> with its external key, the status
  transitions, \<open>append_event\<close> and the run and event queries.
\<close>

section \<open>Budget input\<close>

text \<open>
  The \<open>budget\<close> argument is nothing, a \<open>Budget\<close>, or a mapping; a mapping's names go through the
  alias table, later entries of the same name replace earlier ones, and unknown names are refused.
\<close>

datatype budget_arg = BudgetNone | BudgetObject budget | BudgetMapping "(str \<times> json) list"

definition budget_alias :: "str \<Rightarrow> str" where
  "budget_alias k =
     (if k = ''max_calls'' \<or> k = ''calls'' then ''call_limit''
      else if k = ''max_tokens'' \<or> k = ''tokens'' then ''token_limit''
      else if k = ''max_micro_usd'' \<or> k = ''micro_usd'' then ''micro_usd_limit''
      else if k = ''max_wall_seconds'' \<or> k = ''wall_seconds'' \<or> k = ''wall_time_limit_seconds''
        then ''wall_seconds_limit''
      else k)"

definition budget_names :: "str list" where
  "budget_names = [''call_limit'', ''token_limit'', ''micro_usd_limit'', ''wall_seconds_limit'']"

definition last_value :: "str \<Rightarrow> (str \<times> json) list \<Rightarrow> json" where
  "last_value k kvs = (case find (\<lambda>kv. fst kv = k) (rev kvs) of None \<Rightarrow> JNull | Some (_, v) \<Rightarrow> v)"

text \<open>\<open>_validate_nonnegative_integer\<close> and \<open>_validate_nonnegative\<close>; \<open>None\<close> is no limit.\<close>

fun int_limit :: "json \<Rightarrow> journal_error + int option" where
  "int_limit JNull = Inr None"
| "int_limit (JInt i) = (if i < 0 then Inl ValidationError else Inr (Some i))"
| "int_limit _ = Inl ValidationError"

fun wall_limit :: "json \<Rightarrow> journal_error + wall_number option" where
  "wall_limit JNull = Inr None"
| "wall_limit (JInt i) = (if i < 0 then Inl ValidationError else Inr (Some (WallInt i)))"
| "wall_limit (JFloat r) = (if r < 0 then Inl ValidationError else Inr (Some (WallFloat r)))"
| "wall_limit _ = Inl ValidationError"

definition validate_limits :: "json \<Rightarrow> json \<Rightarrow> json \<Rightarrow> json \<Rightarrow> journal_error + budget" where
  "validate_limits c t m w =
     (case int_limit c of Inl e \<Rightarrow> Inl e | Inr c' \<Rightarrow>
      case int_limit t of Inl e \<Rightarrow> Inl e | Inr t' \<Rightarrow>
      case int_limit m of Inl e \<Rightarrow> Inl e | Inr m' \<Rightarrow>
      case wall_limit w of Inl e \<Rightarrow> Inl e | Inr w' \<Rightarrow> Inr (fresh_budget c' t' m' w'))"

fun budget_from_input :: "budget_arg \<Rightarrow> journal_error + budget" where
  "budget_from_input BudgetNone = Inr (fresh_budget None None None None)"
| "budget_from_input (BudgetObject b) =
     validate_limits (jopt_int (call_limit b)) (jopt_int (token_limit b))
       (jopt_int (micro_usd_limit b)) (wall_json (wall_seconds_limit b))"
| "budget_from_input (BudgetMapping kvs) =
     (let data = map (\<lambda>(k, v). (budget_alias k, v)) kvs in
      if \<exists>k \<in> set (map fst data). k \<notin> set budget_names then Inl ValidationError
      else validate_limits (last_value ''call_limit'' data) (last_value ''token_limit'' data)
             (last_value ''micro_usd_limit'' data) (last_value ''wall_seconds_limit'' data))"

definition budget_identity :: "budget \<Rightarrow> json" where
  "budget_identity b = JObj
     [(''call_limit'', jopt_int (call_limit b)), (''token_limit'', jopt_int (token_limit b)),
      (''micro_usd_limit'', jopt_int (micro_usd_limit b)),
      (''wall_seconds_limit'', wall_json (wall_seconds_limit b))]"

definition budget_identity_hash :: "codec \<Rightarrow> budget \<Rightarrow> str" where
  "budget_identity_hash cd b = sha256_hex cd (budget_identity b)"

section \<open>Creating runs\<close>

record run_request =
  rq_mode :: str
  rq_request :: json
  rq_config :: json
  rq_budget_limits :: budget_arg
  rq_budget :: budget_arg
  rq_parent :: "str option"
  rq_external :: "str option"

text \<open>\<open>budget if budget is not None else budget_limits\<close>, refused when both are given.\<close>

definition pick_budget :: "budget_arg \<Rightarrow> budget_arg \<Rightarrow> journal_error + budget_arg" where
  "pick_budget limits bud =
     (if limits \<noteq> BudgetNone \<and> bud \<noteq> BudgetNone then Inl ValidationError
      else Inr (if bud \<noteq> BudgetNone then bud else limits))"

definition same_request :: "codec \<Rightarrow> run_request \<Rightarrow> budget \<Rightarrow> key_row \<Rightarrow> bool" where
  "same_request cd rq limits k \<longleftrightarrow>
     mode_hash k = sha256_hex cd (JStr (rq_mode rq)) \<and>
     request_hash k = sha256_hex cd (rq_request rq) \<and>
     config_hash k = sha256_hex cd (rq_config rq) \<and>
     budget_hash k = budget_identity_hash cd limits \<and>
     ext_parent k = rq_parent rq"

definition insert_run ::
  "codec \<Rightarrow> run_request \<Rightarrow> budget \<Rightarrow> str \<Rightarrow> instant \<Rightarrow> db \<Rightarrow> journal_error + run_row \<times> db" where
  "insert_run cd rq limits rid now d =
     (let row = \<lparr>run_id = rid, run_mode = rq_mode rq,
                 run_request = canonical_json cd (rq_request rq),
                 run_config = canonical_json cd (rq_config rq),
                 run_stat = RunCreated, run_parent = rq_parent rq,
                 run_budget = fresh_budget (call_limit limits) (token_limit limits)
                   (micro_usd_limit limits) (map_option stored_wall (wall_seconds_limit limits)),
                 run_created = now, run_updated = now\<rparr>;
          keys = (case rq_external rq of None \<Rightarrow> []
            | Some x \<Rightarrow> [\<lparr>external_key = x, ext_run = rid,
                mode_hash = sha256_hex cd (JStr (rq_mode rq)),
                request_hash = sha256_hex cd (rq_request rq),
                config_hash = sha256_hex cd (rq_config rq),
                budget_hash = budget_identity_hash cd limits,
                ext_parent = rq_parent rq, ext_created = now\<rparr>])
      in if \<not> limits_fit limits \<or> \<not> wall_bindable (wall_seconds_limit limits) then Inl OverflowError
         else if find_run rid d \<noteq> None \<or>
            (\<exists>k \<in> set keys. by_key external_key (external_key k) (external_keys d) \<noteq> None)
         then Inl IntegrityError
         else Inr (row, append_event_row cd rid ''run.created''
               (JObj [(''mode'', JStr (rq_mode rq)), (''parent_run_id'', jopt (rq_parent rq))])
               None now
               (d\<lparr>runs := runs d @ [row], external_keys := external_keys d @ keys\<rparr>)))"

definition create_run_tx ::
  "codec \<Rightarrow> run_request \<Rightarrow> budget \<Rightarrow> str \<Rightarrow> instant \<Rightarrow> db \<Rightarrow> journal_error + run_row \<times> db" where
  "create_run_tx cd rq limits rid now d =
     (let existing = (case rq_external rq of None \<Rightarrow> None
            | Some x \<Rightarrow> (case by_key external_key x (external_keys d) of None \<Rightarrow> None
                | Some k \<Rightarrow> map_option (\<lambda>r. (k, r)) (find_run (ext_run k) d)))
      in case existing of
           Some (k, r) \<Rightarrow> if same_request cd rq limits k then Inr (r, d) else Inl Conflict
         | None \<Rightarrow>
             (case rq_parent rq of
                None \<Rightarrow> insert_run cd rq limits rid now d
              | Some p \<Rightarrow> if find_run p d = None then Inl NotFound
                          else insert_run cd rq limits rid now d))"

definition create_run ::
  "codec \<Rightarrow> run_request \<Rightarrow> str \<Rightarrow> instant \<Rightarrow> journal \<Rightarrow> (journal_error + run_row) \<times> journal" where
  "create_run cd rq hex now j =
     (if rq_mode rq = [] then (Inl ValidationError, j)
      else if (\<exists>x. rq_external rq = Some x \<and> py_blank x) then (Inl ValidationError, j)
      else case pick_budget (rq_budget_limits rq) (rq_budget rq) of
        Inl e \<Rightarrow> (Inl e, j)
      | Inr b \<Rightarrow> (case budget_from_input b of
            Inl e \<Rightarrow> (Inl e, j)
          | Inr limits \<Rightarrow>
              transaction (create_run_tx cd rq limits (new_id ''run'' hex) now) j))"

section \<open>Reading runs\<close>

definition get_run :: "str \<Rightarrow> journal \<Rightarrow> journal_error + run_row" where
  "get_run rid j =
     (if closed j then Inl JournalClosed
      else case find_run rid (database j) of None \<Rightarrow> Inl NotFound | Some r \<Rightarrow> Inr r)"

fun coerce_all :: "('a \<Rightarrow> journal_error + 'b) \<Rightarrow> 'a list \<Rightarrow> journal_error + 'b list" where
  "coerce_all f [] = Inr []"
| "coerce_all f (x # xs) =
     (case f x of Inl e \<Rightarrow> Inl e
      | Inr y \<Rightarrow> (case coerce_all f xs of Inl e \<Rightarrow> Inl e | Inr ys \<Rightarrow> Inr (y # ys)))"

definition list_runs :: "str list option \<Rightarrow> journal \<Rightarrow> journal_error + run_row list" where
  "list_runs status j =
     (case status of
        None \<Rightarrow> if closed j then Inl JournalClosed
                else Inr (order_by (\<lambda>r. (run_created r, run_id r)) (runs (database j)))
      | Some names \<Rightarrow>
          (case coerce_all coerce_run_status names of
             Inl e \<Rightarrow> Inl e
           | Inr values \<Rightarrow>
               if values = [] then Inr []
               else if closed j then Inl JournalClosed
               else Inr (order_by (\<lambda>r. (run_created r, run_id r))
                      (filter (\<lambda>r. run_stat r \<in> set values) (runs (database j))))))"

definition recoverable_runs :: "journal \<Rightarrow> journal_error + run_row list" where
  "recoverable_runs j = list_runs (Some [''created'', ''running'', ''paused'']) j"

section \<open>Status transitions\<close>

definition mark_run_status_tx ::
  "codec \<Rightarrow> str \<Rightarrow> run_status \<Rightarrow> instant \<Rightarrow> db \<Rightarrow> journal_error + run_row \<times> db" where
  "mark_run_status_tx cd rid target now d =
     (case find_run rid d of
        None \<Rightarrow> Inl NotFound
      | Some row \<Rightarrow>
          (let current = run_stat row in
           if current = target then Inr (row, d)
           else if target \<notin> set (run_transitions current) then Inl InvalidTransition
           else (let d' = append_event_row cd rid ''run.status_changed''
                     (JObj [(''from'', JStr (run_status_value current)),
                            (''to'', JStr (run_status_value target))]) None now
                     (d\<lparr>runs := update_where (\<lambda>r. run_id r = rid \<and> run_stat r = current)
                         (\<lambda>r. r\<lparr>run_stat := target, run_updated := now\<rparr>) (runs d)\<rparr>)
                 in case find_run rid d' of None \<Rightarrow> Inl NotFound | Some r \<Rightarrow> Inr (r, d'))))"

definition mark_run_status ::
  "codec \<Rightarrow> str \<Rightarrow> str \<Rightarrow> instant \<Rightarrow> journal \<Rightarrow> (journal_error + run_row) \<times> journal" where
  "mark_run_status cd rid status now j =
     (case coerce_run_status status of
        Inl e \<Rightarrow> (Inl e, j)
      | Inr target \<Rightarrow> transaction (mark_run_status_tx cd rid target now) j)"

section \<open>Events\<close>

text \<open>The check, made by several methods, that an optional step exists and is of the run.\<close>

definition check_step_of_run :: "str \<Rightarrow> str option \<Rightarrow> db \<Rightarrow> journal_error option" where
  "check_step_of_run rid sid d =
     (case sid of None \<Rightarrow> None
      | Some s \<Rightarrow> (case find_step s d of
            None \<Rightarrow> Some NotFound
          | Some st \<Rightarrow> if step_run st \<noteq> rid then Some ValidationError else None))"

definition append_event_tx ::
  "codec \<Rightarrow> str \<Rightarrow> str \<Rightarrow> json \<Rightarrow> str option \<Rightarrow> instant \<Rightarrow> db \<Rightarrow> journal_error + event_row \<times> db" where
  "append_event_tx cd rid ty payload sid now d =
     (if find_run rid d = None then Inl NotFound
      else case check_step_of_run rid sid d of
        Some e \<Rightarrow> Inl e
      | None \<Rightarrow> (let d' = append_event_row cd rid ty payload sid now d
                in Inr (last (events d'), d')))"

definition append_event ::
  "codec \<Rightarrow> str \<Rightarrow> str \<Rightarrow> json \<Rightarrow> str option \<Rightarrow> instant \<Rightarrow> journal \<Rightarrow>
   (journal_error + event_row) \<times> journal" where
  "append_event cd rid ty payload sid now j =
     (if ty = [] then (Inl ValidationError, j)
      else transaction (append_event_tx cd rid ty payload sid now) j)"

definition list_events ::
  "str \<Rightarrow> str option \<Rightarrow> int option \<Rightarrow> int option \<Rightarrow> journal \<Rightarrow> journal_error + event_row list" where
  "list_events rid sid after_id limit j =
     (if (case limit of None \<Rightarrow> False | Some n \<Rightarrow> n \<le> 0) then Inl ValidationError
      else if closed j then Inl JournalClosed
      else if find_run rid (database j) = None then Inl NotFound
      else if \<not> bindable after_id \<or> \<not> bindable limit then Inl OverflowError
      else (let found = order_by event_id
              (filter (\<lambda>e. event_run e = rid \<and>
                   (case sid of None \<Rightarrow> True | Some s \<Rightarrow> event_step e = Some s) \<and>
                   (case after_id of None \<Rightarrow> True | Some a \<Rightarrow> a < event_id e))
                 (events (database j)))
            in Inr (case limit of None \<Rightarrow> found | Some n \<Rightarrow> take (nat n) found)))"

definition materialized_timeline :: "str \<Rightarrow> journal \<Rightarrow> journal_error + event_row list" where
  "materialized_timeline rid j = list_events rid None None None j"

definition get_event :: "int \<Rightarrow> journal \<Rightarrow> journal_error + event_row" where
  "get_event eid j =
     (if closed j then Inl JournalClosed
      else if \<not> int64 eid then Inl OverflowError
      else case by_key event_id eid (events (database j)) of None \<Rightarrow> Inl NotFound | Some e \<Rightarrow> Inr e)"

end
