(* ===== verification/JournalSteps.thy ===== *)
theory JournalSteps
  imports JournalRuns
begin

text \<open>
  The step operations of \<open>Journal\<close>: idempotent creation, the claim of the first ready step, the
  lease check that guards every worker operation, and the transitions of a step up to the recovery
  of expired leases.  An operation that reads the clock more than once takes one argument per
  reading, in the order of the readings.
\<close>

section \<open>Creating steps\<close>

definition step_key_of ::
  "codec \<Rightarrow> str \<Rightarrow> str \<Rightarrow> str \<Rightarrow> safety_class \<Rightarrow> int option \<Rightarrow> str" where
  "step_key_of cd kind name ihash safety seq = sha256_hex cd (JObj
     [(''kind'', JStr kind), (''name'', JStr name), (''input_hash'', JStr ihash),
      (''safety'', JStr (safety_value safety)), (''sequence'', jopt_int seq)])"

definition step_id_of :: "codec \<Rightarrow> str \<Rightarrow> str \<Rightarrow> str" where
  "step_id_of cd run key =
     ''step_'' @ sha256_hex cd (JObj [(''run_id'', JStr run), (''key'', JStr key)])"

text \<open>\<open>INSERT OR IGNORE INTO steps\<close>: ignored when the identifier or the (run, key) pair exists.\<close>

definition step_exists :: "step_row \<Rightarrow> db \<Rightarrow> bool" where
  "step_exists r d \<longleftrightarrow>
     (\<exists>s \<in> set (steps d). step_id s = step_id r \<or> (step_run s = step_run r \<and> step_key s = step_key r))"

definition create_step_tx ::
  "codec \<Rightarrow> str \<Rightarrow> str \<Rightarrow> str \<Rightarrow> json \<Rightarrow> safety_class \<Rightarrow> int option \<Rightarrow> instant \<Rightarrow> db \<Rightarrow>
   journal_error + step_row \<times> db" where
  "create_step_tx cd rid kind name input safety seq now d =
     (let ihash = sha256_hex cd input;
          key = step_key_of cd kind name ihash safety seq;
          sid = step_id_of cd rid key;
          row = \<lparr>step_id = sid, step_run = rid, step_key = key, step_kind = kind,
                 step_name = name, step_input = canonical_json cd input, input_hash = ihash,
                 step_safety = safety, step_seq = seq, step_stat = StepReady,
                 step_output = None, step_error = None, uncertainty = None,
                 lease_owner = None, lease_expires = None, attempts = 0,
                 step_created = now, step_updated = now\<rparr>
      in if find_run rid d = None then Inl NotFound
         else if \<not> bindable seq then Inl OverflowError
         else (let d' = (if step_exists row d then d
                else append_event_row cd rid ''step.created''
                  (JObj [(''kind'', JStr kind), (''name'', JStr name),
                         (''input_hash'', JStr ihash), (''safety'', JStr (safety_value safety)),
                         (''sequence'', jopt_int seq),
                         (''status'', JStr (step_status_value StepReady))])
                  (Some sid) now (d\<lparr>steps := steps d @ [row]\<rparr>))
               in case find_step sid d' of None \<Rightarrow> Inl NotFound | Some r \<Rightarrow> Inr (r, d')))"

definition create_step ::
  "codec \<Rightarrow> str \<Rightarrow> str \<Rightarrow> str \<Rightarrow> json \<Rightarrow> str \<Rightarrow> int option \<Rightarrow> instant \<Rightarrow> journal \<Rightarrow>
   (journal_error + step_row) \<times> journal" where
  "create_step cd rid kind name input safety seq now j =
     (if kind = [] \<or> name = [] then (Inl ValidationError, j)
      else if (\<exists>n. seq = Some n \<and> n < 0) then (Inl ValidationError, j)
      else case coerce_safety safety of
        Inl e \<Rightarrow> (Inl e, j)
      | Inr sv \<Rightarrow> transaction (create_step_tx cd rid kind name input sv seq now) j)"

section \<open>Reading steps\<close>

definition get_step :: "str \<Rightarrow> journal \<Rightarrow> journal_error + step_row" where
  "get_step sid j =
     (if closed j then Inl JournalClosed
      else case find_step sid (database j) of None \<Rightarrow> Inl NotFound | Some r \<Rightarrow> Inr r)"

text \<open>The order of every step query: sequence with nulls last, creation time, identifier.\<close>

definition step_order :: "step_row \<Rightarrow> int nulls_last \<times> int \<times> str" where
  "step_order r = (nulls_key (step_seq r), step_created r, step_id r)"

definition list_steps ::
  "str \<Rightarrow> str list option \<Rightarrow> journal \<Rightarrow> journal_error + step_row list" where
  "list_steps rid status j =
     (case (case status of None \<Rightarrow> Inr None
              | Some names \<Rightarrow> (case coerce_all coerce_step_status names of
                    Inl e \<Rightarrow> Inl e | Inr vs \<Rightarrow> Inr (Some vs))) of
        Inl e \<Rightarrow> Inl e
      | Inr wanted \<Rightarrow>
          if wanted = Some [] then Inr []
          else if closed j then Inl JournalClosed
          else if find_run rid (database j) = None then Inl NotFound
          else Inr (order_by step_order
            (filter (\<lambda>r. step_run r = rid \<and>
                (case wanted of None \<Rightarrow> True | Some vs \<Rightarrow> step_stat r \<in> set vs))
              (steps (database j)))))"

section \<open>Claiming\<close>

definition ready_steps :: "str option \<Rightarrow> db \<Rightarrow> step_row list" where
  "ready_steps rid d = order_by step_order
     (filter (\<lambda>r. step_stat r = StepReady \<and>
        (case rid of None \<Rightarrow> True | Some x \<Rightarrow> step_run r = x)) (steps d))"

definition claim_ready_step_tx ::
  "codec \<Rightarrow> str \<Rightarrow> str option \<Rightarrow> instant \<Rightarrow> instant \<Rightarrow> db \<Rightarrow>
   journal_error + step_row option \<times> db" where
  "claim_ready_step_tx cd worker rid now expiry d =
     (if (\<exists>x. rid = Some x \<and> find_run x d = None) then Inl NotFound
      else case ready_steps rid d of
        [] \<Rightarrow> Inr (None, d)
      | row # _ \<Rightarrow>
          (let hit = (\<lambda>r. step_id r = step_id row \<and> step_stat r = StepReady) in
           if rowcount hit (steps d) \<noteq> 1 then Inr (None, d)
           else (let d' = append_event_row cd (step_run row) ''step.leased''
                     (JObj [(''worker_id'', JStr worker), (''lease_expires_at'', JStr (iso_instant expiry)),
                            (''attempt'', JInt (attempts row + 1))])
                     (Some (step_id row)) now
                     (d\<lparr>steps := update_where hit
                         (\<lambda>r. r\<lparr>step_stat := StepLeased, lease_owner := Some worker,
                                lease_expires := Some expiry, attempts := attempts r + 1,
                                step_updated := now\<rparr>) (steps d)\<rparr>)
                 in case find_step (step_id row) d' of
                      None \<Rightarrow> Inl NotFound | Some r \<Rightarrow> Inr (Some r, d'))))"

definition claim_ready_step ::
  "codec \<Rightarrow> str \<Rightarrow> rat \<Rightarrow> str option \<Rightarrow> instant \<Rightarrow> instant \<Rightarrow> journal \<Rightarrow>
   (journal_error + step_row option) \<times> journal" where
  "claim_ready_step cd worker lease_seconds rid now now2 j =
     (if worker = [] then (Inl ValidationError, j)
      else if lease_seconds \<le> 0 then (Inl ValidationError, j)
      else transaction
        (claim_ready_step_tx cd worker rid now (now2 + timedelta_us lease_seconds)) j)"

section \<open>The lease check\<close>

definition check_owner_and_lease :: "step_row \<Rightarrow> str \<Rightarrow> instant \<Rightarrow> journal_error option" where
  "check_owner_and_lease row worker now =
     (if worker = [] then Some ValidationError
      else if lease_owner row \<noteq> Some worker then Some OwnershipError
      else case lease_expires row of
        None \<Rightarrow> Some LeaseExpired
      | Some e \<Rightarrow> if e \<le> now then Some LeaseExpired else None)"

lemma check_owner_and_lease_None:
  "check_owner_and_lease row worker now = None \<longleftrightarrow>
   worker \<noteq> [] \<and> lease_owner row = Some worker \<and> (\<exists>e. lease_expires row = Some e \<and> now < e)"
  by (auto simp: check_owner_and_lease_def split: option.splits)

section \<open>Execution\<close>

definition mark_executing_tx ::
  "codec \<Rightarrow> str \<Rightarrow> str \<Rightarrow> instant \<Rightarrow> instant \<Rightarrow> db \<Rightarrow> journal_error + step_row \<times> db" where
  "mark_executing_tx cd sid worker now now2 d =
     (case find_step sid d of
        None \<Rightarrow> Inl NotFound
      | Some row \<Rightarrow>
          if step_stat row \<noteq> StepLeased then Inl InvalidTransition
          else case check_owner_and_lease row worker now of
            Some e \<Rightarrow> Inl e
          | None \<Rightarrow>
              (let d' = append_event_row cd (step_run row) ''step.executing''
                     (JObj [(''worker_id'', JStr worker)]) (Some sid) now2
                     (d\<lparr>steps := update_where (\<lambda>r. step_id r = sid \<and> step_stat r = StepLeased)
                         (\<lambda>r. r\<lparr>step_stat := StepExecuting, step_updated := now2\<rparr>) (steps d)\<rparr>)
               in case find_step sid d' of None \<Rightarrow> Inl NotFound | Some r \<Rightarrow> Inr (r, d')))"

definition mark_executing ::
  "codec \<Rightarrow> str \<Rightarrow> str \<Rightarrow> instant \<Rightarrow> instant \<Rightarrow> journal \<Rightarrow> (journal_error + step_row) \<times> journal" where
  "mark_executing cd sid worker now now2 j = transaction (mark_executing_tx cd sid worker now now2) j"

definition heartbeat_tx ::
  "codec \<Rightarrow> str \<Rightarrow> str \<Rightarrow> rat \<Rightarrow> instant \<Rightarrow> instant \<Rightarrow> instant \<Rightarrow> db \<Rightarrow>
   journal_error + step_row \<times> db" where
  "heartbeat_tx cd sid worker lease_seconds now now2 now3 d =
     (case find_step sid d of
        None \<Rightarrow> Inl NotFound
      | Some row \<Rightarrow>
          if step_stat row \<notin> {StepLeased, StepExecuting} then Inl InvalidTransition
          else case check_owner_and_lease row worker now of
            Some e \<Rightarrow> Inl e
          | None \<Rightarrow>
              (let expiry = now3 + timedelta_us lease_seconds;
                   d' = append_event_row cd (step_run row) ''step.heartbeat''
                     (JObj [(''worker_id'', JStr worker), (''lease_expires_at'', JStr (iso_instant expiry))])
                     (Some sid) now2
                     (d\<lparr>steps := update_where
                         (\<lambda>r. step_id r = sid \<and> step_stat r = step_stat row \<and>
                              lease_owner r = Some worker)
                         (\<lambda>r. r\<lparr>lease_expires := Some expiry, step_updated := now2\<rparr>) (steps d)\<rparr>)
               in case find_step sid d' of None \<Rightarrow> Inl NotFound | Some r \<Rightarrow> Inr (r, d')))"

definition heartbeat ::
  "codec \<Rightarrow> str \<Rightarrow> str \<Rightarrow> rat \<Rightarrow> instant \<Rightarrow> instant \<Rightarrow> instant \<Rightarrow> journal \<Rightarrow>
   (journal_error + step_row) \<times> journal" where
  "heartbeat cd sid worker lease_seconds now now2 now3 j =
     (if lease_seconds \<le> 0 then (Inl ValidationError, j)
      else transaction (heartbeat_tx cd sid worker lease_seconds now now2 now3) j)"

section \<open>Receipts\<close>

definition record_receipt_row ::
  "codec \<Rightarrow> str \<Rightarrow> str option \<Rightarrow> str \<Rightarrow> json \<Rightarrow> instant \<Rightarrow> db \<Rightarrow> journal_error + receipt_row \<times> db" where
  "record_receipt_row cd rid sid key payload ts d =
     (let text = canonical_json cd payload in
      if key = [] then Inl ValidationError
      else case by_key idem_key key (receipts d) of
        Some r \<Rightarrow>
          if receipt_run r \<noteq> rid \<or> receipt_step r \<noteq> sid \<or> receipt_payload r \<noteq> text
          then Inl Conflict else Inr (r, d)
      | None \<Rightarrow>
          (let row = \<lparr>receipt_id = ''receipt_'' @ sha256_hex cd (JStr key), receipt_run = rid,
                      receipt_step = sid, idem_key = key, receipt_payload = text,
                      receipt_created = ts\<rparr>
           in if by_key receipt_id (receipt_id row) (receipts d) \<noteq> None then Inl IntegrityError
              else Inr (row, d\<lparr>receipts := receipts d @ [row]\<rparr>)))"

definition record_receipt_tx ::
  "codec \<Rightarrow> str \<Rightarrow> str \<Rightarrow> json \<Rightarrow> instant \<Rightarrow> db \<Rightarrow> journal_error + receipt_row \<times> db" where
  "record_receipt_tx cd sid key payload now d =
     (case find_step sid d of
        None \<Rightarrow> Inl NotFound
      | Some st \<Rightarrow>
          (let existed = by_key idem_key key (receipts d) \<noteq> None in
           case record_receipt_row cd (step_run st) (Some sid) key payload now d of
             Inl e \<Rightarrow> Inl e
           | Inr (r, d') \<Rightarrow>
               Inr (r, if existed then d'
                       else append_event_row cd (step_run st) ''receipt.recorded''
                         (JObj [(''receipt_id'', JStr (receipt_id r)),
                                (''idempotency_key'', JStr key)]) (Some sid) now d')))"

definition record_receipt ::
  "codec \<Rightarrow> str \<Rightarrow> str \<Rightarrow> json \<Rightarrow> instant \<Rightarrow> journal \<Rightarrow> (journal_error + receipt_row) \<times> journal" where
  "record_receipt cd sid key payload now j = transaction (record_receipt_tx cd sid key payload now) j"

definition find_receipt :: "str \<Rightarrow> journal \<Rightarrow> journal_error + receipt_row option" where
  "find_receipt key j =
     (if closed j then Inl JournalClosed else Inr (by_key idem_key key (receipts (database j))))"

section \<open>Committing\<close>

text \<open>
  The \<open>receipt\<close> argument of \<open>commit_step\<close>: nothing, a \<open>ReceiptRecord\<close>, or a mapping given by its
  \<open>idempotency_key\<close> (after \<open>str\<close>), \<open>payload\<close> and \<open>receipt\<close> members.
\<close>

datatype receipt_arg =
    NoReceipt
  | ReceiptObject str json
  | ReceiptMapping "str option" "json option" "json option"

fun receipt_of_arg :: "receipt_arg \<Rightarrow> journal_error + (str \<times> json) option" where
  "receipt_of_arg NoReceipt = Inr None"
| "receipt_of_arg (ReceiptObject key payload) = Inr (Some (key, payload))"
| "receipt_of_arg (ReceiptMapping None p r) = Inl ValidationError"
| "receipt_of_arg (ReceiptMapping (Some key) p r) =
     Inr (Some (key, case p of Some v \<Rightarrow> v | None \<Rightarrow> (case r of Some v \<Rightarrow> v | None \<Rightarrow> JNull)))"

definition commit_receipt ::
  "codec \<Rightarrow> step_row \<Rightarrow> receipt_arg \<Rightarrow> instant \<Rightarrow> db \<Rightarrow> journal_error + str option \<times> db" where
  "commit_receipt cd row arg ts d =
     (case receipt_of_arg arg of
        Inl e \<Rightarrow> Inl e
      | Inr None \<Rightarrow> Inr (None, d)
      | Inr (Some (key, payload)) \<Rightarrow>
          (case record_receipt_row cd (step_run row) (Some (step_id row)) key payload ts d of
             Inl e \<Rightarrow> Inl e | Inr (r, d') \<Rightarrow> Inr (Some (receipt_id r), d')))"

definition commit_step_tx ::
  "codec \<Rightarrow> str \<Rightarrow> str \<Rightarrow> json \<Rightarrow> receipt_arg \<Rightarrow> instant \<Rightarrow> instant \<Rightarrow> db \<Rightarrow>
   journal_error + step_row \<times> db" where
  "commit_step_tx cd sid worker output arg now now2 d =
     (case find_step sid d of
        None \<Rightarrow> Inl NotFound
      | Some row \<Rightarrow>
          if step_stat row \<noteq> StepExecuting then Inl InvalidTransition
          else case check_owner_and_lease row worker now of
            Some e \<Rightarrow> Inl e
          | None \<Rightarrow>
              (case commit_receipt cd row arg now2 d of
                 Inl e \<Rightarrow> Inl e
               | Inr (rcpt, d1) \<Rightarrow>
                   (let d' = append_event_row cd (step_run row) ''step.committed''
                         (JObj [(''worker_id'', JStr worker),
                                (''output_hash'', JStr (sha256_hex cd output)),
                                (''receipt_id'', jopt rcpt)]) (Some sid) now2
                         (d1\<lparr>steps := update_where
                             (\<lambda>r. step_id r = sid \<and> step_stat r = StepExecuting \<and>
                                  lease_owner r = Some worker)
                             (\<lambda>r. r\<lparr>step_stat := StepCommitted,
                                    step_output := Some (canonical_json cd output),
                                    step_error := None, lease_owner := None,
                                    lease_expires := None, step_updated := now2\<rparr>) (steps d1)\<rparr>)
                    in case find_step sid d' of None \<Rightarrow> Inl NotFound | Some r \<Rightarrow> Inr (r, d'))))"

definition commit_step ::
  "codec \<Rightarrow> str \<Rightarrow> str \<Rightarrow> json \<Rightarrow> receipt_arg \<Rightarrow> instant \<Rightarrow> instant \<Rightarrow> journal \<Rightarrow>
   (journal_error + step_row) \<times> journal" where
  "commit_step cd sid worker output arg now now2 j =
     transaction (commit_step_tx cd sid worker output arg now now2) j"

section \<open>Failing, doubting, cancelling\<close>

definition finish_owned_step_tx ::
  "codec \<Rightarrow> str \<Rightarrow> str \<Rightarrow> step_status \<Rightarrow> str \<Rightarrow> json option \<Rightarrow> str option \<Rightarrow> instant \<Rightarrow> instant \<Rightarrow>
   db \<Rightarrow> journal_error + step_row \<times> db" where
  "finish_owned_step_tx cd sid worker target event error reason now now2 d =
     (case find_step sid d of
        None \<Rightarrow> Inl NotFound
      | Some row \<Rightarrow>
          if step_stat row \<notin> {StepLeased, StepExecuting} then Inl InvalidTransition
          else case check_owner_and_lease row worker now of
            Some e \<Rightarrow> Inl e
          | None \<Rightarrow>
              (let payload = JObj ((''worker_id'', JStr worker) #
                     (case error of None \<Rightarrow> [] | Some v \<Rightarrow> [(''error'', v)]) @
                     (case reason of None \<Rightarrow> [] | Some v \<Rightarrow> [(''reason'', JStr v)]));
                   d' = append_event_row cd (step_run row) event payload (Some sid) now2
                     (d\<lparr>steps := update_where
                         (\<lambda>r. step_id r = sid \<and> step_stat r = step_stat row \<and>
                              lease_owner r = Some worker)
                         (\<lambda>r. r\<lparr>step_stat := target,
                                step_error := map_option (canonical_json cd) error,
                                uncertainty := reason, lease_owner := None,
                                lease_expires := None, step_updated := now2\<rparr>) (steps d)\<rparr>)
               in case find_step sid d' of None \<Rightarrow> Inl NotFound | Some r \<Rightarrow> Inr (r, d')))"

definition fail_step ::
  "codec \<Rightarrow> str \<Rightarrow> str \<Rightarrow> json option \<Rightarrow> instant \<Rightarrow> instant \<Rightarrow> journal \<Rightarrow>
   (journal_error + step_row) \<times> journal" where
  "fail_step cd sid worker error now now2 j =
     transaction (finish_owned_step_tx cd sid worker StepFailed ''step.failed'' error None now now2) j"

definition mark_uncertain ::
  "codec \<Rightarrow> str \<Rightarrow> str \<Rightarrow> str \<Rightarrow> instant \<Rightarrow> instant \<Rightarrow> journal \<Rightarrow>
   (journal_error + step_row) \<times> journal" where
  "mark_uncertain cd sid worker reason now now2 j =
     (if reason = [] then (Inl ValidationError, j)
      else transaction
        (finish_owned_step_tx cd sid worker StepUncertain ''step.uncertain'' None (Some reason) now now2) j)"

definition cancel_step_tx ::
  "codec \<Rightarrow> str \<Rightarrow> str option \<Rightarrow> instant \<Rightarrow> instant \<Rightarrow> db \<Rightarrow> journal_error + step_row \<times> db" where
  "cancel_step_tx cd sid worker now now2 d =
     (case find_step sid d of
        None \<Rightarrow> Inl NotFound
      | Some row \<Rightarrow>
          if step_stat row \<notin> {StepCreated, StepReady, StepLeased, StepExecuting, StepUncertain}
          then Inl InvalidTransition
          else case (if step_stat row \<in> {StepLeased, StepExecuting}
                     then (case worker of None \<Rightarrow> Some OwnershipError
                           | Some w \<Rightarrow> check_owner_and_lease row w now)
                     else None) of
            Some e \<Rightarrow> Inl e
          | None \<Rightarrow>
              (let d' = append_event_row cd (step_run row) ''step.cancelled''
                     (JObj [(''worker_id'', jopt worker),
                            (''from'', JStr (step_status_value (step_stat row)))]) (Some sid) now2
                     (d\<lparr>steps := update_where
                         (\<lambda>r. step_id r = sid \<and> step_stat r = step_stat row)
                         (\<lambda>r. r\<lparr>step_stat := StepCancelled, lease_owner := None,
                                lease_expires := None, step_updated := now2\<rparr>) (steps d)\<rparr>)
               in case find_step sid d' of None \<Rightarrow> Inl NotFound | Some r \<Rightarrow> Inr (r, d')))"

definition cancel_step ::
  "codec \<Rightarrow> str \<Rightarrow> str option \<Rightarrow> instant \<Rightarrow> instant \<Rightarrow> journal \<Rightarrow>
   (journal_error + step_row) \<times> journal" where
  "cancel_step cd sid worker now now2 j = transaction (cancel_step_tx cd sid worker now now2) j"

section \<open>Recovery of expired leases\<close>

text \<open>The selection of \<open>reclaim_expired_leases\<close>.\<close>

definition lease_expired :: "instant \<Rightarrow> step_row \<Rightarrow> bool" where
  "lease_expired now r \<longleftrightarrow> step_stat r \<in> {StepLeased, StepExecuting} \<and>
     (case lease_expires r of None \<Rightarrow> False | Some e \<Rightarrow> e \<le> now)"

definition reclaim_target :: "safety_class \<Rightarrow> step_status" where
  "reclaim_target s = (if s \<in> {ReadOnly, Idempotent} then StepReady else StepUncertain)"

definition reclaim_reason :: "step_status \<Rightarrow> str option" where
  "reclaim_reason target =
     (if target = StepReady then None
      else Some ''lease expired; outcome requires reconciliation or approval'')"

text \<open>One iteration of the loop: the row as selected, and the database as it stands.\<close>

definition reclaim_one ::
  "codec \<Rightarrow> instant \<Rightarrow> step_row \<Rightarrow> step_row list \<times> db \<Rightarrow> step_row list \<times> db" where
  "reclaim_one cd ts row acc =
     (let (done, d) = acc;
          target = reclaim_target (step_safety row);
          reason = reclaim_reason target;
          hit = (\<lambda>r. step_id r = step_id row \<and> step_stat r = step_stat row \<and>
                  (case lease_expires r of None \<Rightarrow> False | Some e \<Rightarrow> e \<le> ts))
      in if rowcount hit (steps d) \<noteq> 1 then (done, d)
         else (let d' = append_event_row cd (step_run row) ''step.lease_expired''
                   (JObj [(''from'', JStr (step_status_value (step_stat row))),
                          (''to'', JStr (step_status_value target)),
                          (''previous_owner'', jopt (lease_owner row)),
                          (''safety'', JStr (safety_value (step_safety row))),
                          (''reason'', jopt reason)]) (Some (step_id row)) ts
                   (d\<lparr>steps := update_where hit
                       (\<lambda>r. r\<lparr>step_stat := target, uncertainty := reason, lease_owner := None,
                              lease_expires := None, step_updated := ts\<rparr>) (steps d)\<rparr>)
               in (case find_step (step_id row) d' of None \<Rightarrow> done | Some r \<Rightarrow> done @ [r], d')))"

definition reclaim_expired_leases_tx ::
  "codec \<Rightarrow> instant \<Rightarrow> db \<Rightarrow> journal_error + step_row list \<times> db" where
  "reclaim_expired_leases_tx cd ts d =
     Inr (fold (reclaim_one cd ts)
       (order_by (\<lambda>r. (lease_expires r, step_id r)) (filter (lease_expired ts) (steps d))) ([], d))"

definition reclaim_expired_leases ::
  "codec \<Rightarrow> instant \<Rightarrow> journal \<Rightarrow> (journal_error + step_row list) \<times> journal" where
  "reclaim_expired_leases cd now j = transaction (reclaim_expired_leases_tx cd now) j"

end
