(* ===== verification/JournalLedger.thy ===== *)
theory JournalLedger
  imports JournalSteps
begin

text \<open>
  The ledgers of \<open>Journal\<close> beside runs and steps: approvals, artifacts, provider calls, and the
  budget reservations with their settlement.
\<close>

section \<open>Approvals\<close>

definition request_approval_tx ::
  "codec \<Rightarrow> str \<Rightarrow> str option \<Rightarrow> json \<Rightarrow> str \<Rightarrow> str \<Rightarrow> instant \<Rightarrow> db \<Rightarrow>
   journal_error + approval_row \<times> db" where
  "request_approval_tx cd rid sid request kind aid now d =
     (if find_run rid d = None then Inl NotFound
      else case check_step_of_run rid sid d of
        Some e \<Rightarrow> Inl e
      | None \<Rightarrow>
          (let row = \<lparr>approval_id = aid, approval_run = rid, approval_step = sid,
                      approval_kind = kind, approval_request = canonical_json cd request,
                      approval_stat = Pending, decision = None, decided_by = None,
                      decision_reason = None, approval_created = now, decided_at = None\<rparr>
           in if find_approval aid d \<noteq> None then Inl IntegrityError
              else Inr (row, append_event_row cd rid ''approval.requested''
                    (JObj [(''approval_id'', JStr aid), (''kind'', JStr kind)]) sid now
                    (d\<lparr>approvals := approvals d @ [row]\<rparr>))))"

definition request_approval ::
  "codec \<Rightarrow> str \<Rightarrow> str option \<Rightarrow> json \<Rightarrow> str \<Rightarrow> str \<Rightarrow> instant \<Rightarrow> journal \<Rightarrow>
   (journal_error + approval_row) \<times> journal" where
  "request_approval cd rid sid request kind hex now j =
     (if kind = [] then (Inl ValidationError, j)
      else transaction (request_approval_tx cd rid sid request kind (new_id ''approval'' hex) now) j)"

definition get_approval :: "str \<Rightarrow> journal \<Rightarrow> journal_error + approval_row" where
  "get_approval aid j =
     (if closed j then Inl JournalClosed
      else case find_approval aid (database j) of None \<Rightarrow> Inl NotFound | Some r \<Rightarrow> Inr r)"

text \<open>A decision is a boolean or the text of one of the two verdicts.\<close>

datatype decision_arg = DecideBool bool | DecideText str

fun decision_value :: "decision_arg \<Rightarrow> journal_error + approval_status" where
  "decision_value (DecideBool b) = Inr (if b then Approved else Rejected)"
| "decision_value (DecideText s) =
     (if s = ''approved'' then Inr Approved else if s = ''rejected'' then Inr Rejected
      else Inl ValidationError)"

fun approval_value :: "approval_status \<Rightarrow> str" where
  "approval_value Pending = ''pending''"
| "approval_value Approved = ''approved''"
| "approval_value Rejected = ''rejected''"

definition decide_approval_tx ::
  "codec \<Rightarrow> str \<Rightarrow> approval_status \<Rightarrow> str \<Rightarrow> str option \<Rightarrow> instant \<Rightarrow> db \<Rightarrow>
   journal_error + approval_row \<times> db" where
  "decide_approval_tx cd aid verdict who reason now d =
     (case find_approval aid d of
        None \<Rightarrow> Inl NotFound
      | Some row \<Rightarrow>
          if approval_stat row \<noteq> Pending then
            (if decision row = Some verdict \<and> decided_by row = Some who then Inr (row, d)
             else Inl InvalidTransition)
          else
            (let d' = append_event_row cd (approval_run row) ''approval.decided''
                   (JObj [(''approval_id'', JStr aid), (''decision'', JStr (approval_value verdict)),
                          (''decided_by'', JStr who), (''reason'', jopt reason)])
                   (approval_step row) now
                   (d\<lparr>approvals := update_where (\<lambda>r. approval_id r = aid \<and> approval_stat r = Pending)
                       (\<lambda>r. r\<lparr>approval_stat := verdict, decision := Some verdict,
                              decided_by := Some who, decision_reason := reason,
                              decided_at := Some now\<rparr>) (approvals d)\<rparr>)
             in case find_approval aid d' of None \<Rightarrow> Inl NotFound | Some r \<Rightarrow> Inr (r, d')))"

definition decide_approval ::
  "codec \<Rightarrow> str \<Rightarrow> decision_arg \<Rightarrow> str \<Rightarrow> str option \<Rightarrow> instant \<Rightarrow> journal \<Rightarrow>
   (journal_error + approval_row) \<times> journal" where
  "decide_approval cd aid dec who reason now j =
     (case decision_value dec of
        Inl e \<Rightarrow> (Inl e, j)
      | Inr verdict \<Rightarrow>
          if who = [] then (Inl ValidationError, j)
          else transaction (decide_approval_tx cd aid verdict who reason now) j)"

definition approval_order :: "approval_row \<Rightarrow> int \<times> str" where
  "approval_order r = (approval_created r, approval_id r)"

definition list_approvals ::
  "str option \<Rightarrow> str option \<Rightarrow> str option \<Rightarrow> journal \<Rightarrow> journal_error + approval_row list" where
  "list_approvals rid sid status j =
     (if closed j then Inl JournalClosed
      else Inr (order_by approval_order
        (filter (\<lambda>r. (case rid of None \<Rightarrow> True | Some x \<Rightarrow> approval_run r = x) \<and>
                     (case sid of None \<Rightarrow> True | Some x \<Rightarrow> approval_step r = Some x) \<and>
                     (case status of None \<Rightarrow> True | Some x \<Rightarrow> approval_value (approval_stat r) = x))
          (approvals (database j)))))"

definition list_pending_approvals ::
  "str option \<Rightarrow> journal \<Rightarrow> journal_error + approval_row list" where
  "list_pending_approvals rid j =
     (if closed j then Inl JournalClosed
      else Inr (order_by approval_order
        (filter (\<lambda>r. approval_stat r = Pending \<and>
                     (case rid of None \<Rightarrow> True | Some x \<Rightarrow> approval_run r = x))
          (approvals (database j)))))"

section \<open>Artifacts\<close>

definition record_artifact_tx ::
  "codec \<Rightarrow> str \<Rightarrow> str \<Rightarrow> str \<Rightarrow> str option \<Rightarrow> str option \<Rightarrow> str option \<Rightarrow> int option \<Rightarrow>
   json \<Rightarrow> str \<Rightarrow> instant \<Rightarrow> db \<Rightarrow> journal_error + artifact_row \<times> db" where
  "record_artifact_tx cd rid name uri sid mtype sha nbytes meta aid now d =
     (if find_run rid d = None then Inl NotFound
      else case check_step_of_run rid sid d of
        Some e \<Rightarrow> Inl e
      | None \<Rightarrow>
          (let row = \<lparr>artifact_id = aid, artifact_run = rid, artifact_step = sid,
                      artifact_name = name, media_type = mtype, artifact_uri = uri,
                      artifact_sha = sha, size_bytes = nbytes,
                      artifact_meta = canonical_json cd meta, artifact_created = now\<rparr>
           in if \<not> bindable nbytes then Inl OverflowError
              else if by_key artifact_id aid (artifacts d) \<noteq> None then Inl IntegrityError
              else Inr (row, append_event_row cd rid ''artifact.recorded''
                    (JObj [(''artifact_id'', JStr aid), (''name'', JStr name),
                           (''sha256'', jopt sha)]) sid now
                    (d\<lparr>artifacts := artifacts d @ [row]\<rparr>))))"

definition record_artifact ::
  "codec \<Rightarrow> str \<Rightarrow> str \<Rightarrow> str \<Rightarrow> str option \<Rightarrow> str option \<Rightarrow> str option \<Rightarrow> int option \<Rightarrow>
   json \<Rightarrow> str \<Rightarrow> instant \<Rightarrow> journal \<Rightarrow> (journal_error + artifact_row) \<times> journal" where
  "record_artifact cd rid name uri sid mtype sha nbytes meta hex now j =
     (if name = [] \<or> uri = [] then (Inl ValidationError, j)
      else if (\<exists>n. nbytes = Some n \<and> n < 0) then (Inl ValidationError, j)
      else transaction (record_artifact_tx cd rid name uri sid mtype sha nbytes meta
             (new_id ''artifact'' hex) now) j)"

definition list_artifacts :: "str \<Rightarrow> journal \<Rightarrow> journal_error + artifact_row list" where
  "list_artifacts rid j =
     (if closed j then Inl JournalClosed
      else Inr (order_by (\<lambda>r. (artifact_created r, artifact_id r))
        (filter (\<lambda>r. artifact_run r = rid) (artifacts (database j)))))"

section \<open>Provider calls\<close>

text \<open>
  \<open>start_provider_call\<close> checks the run only; an unknown step is caught by the foreign key, and a
  step of another run is accepted.
\<close>

definition start_provider_call_tx ::
  "codec \<Rightarrow> str \<Rightarrow> str \<Rightarrow> json \<Rightarrow> str option \<Rightarrow> str option \<Rightarrow> str \<Rightarrow> instant \<Rightarrow> db \<Rightarrow>
   journal_error + call_row \<times> db" where
  "start_provider_call_tx cd rid provider request sid model cid now d =
     (if find_run rid d = None then Inl NotFound
      else (let row = \<lparr>call_id = cid, call_run = rid, call_step = sid, call_provider = provider,
                       call_model = model, call_request = canonical_json cd request,
                       call_response = None, call_stat = CallStarted, call_in_tokens = 0,
                       call_out_tokens = 0, call_micro_usd = 0, call_started = now,
                       call_completed = None\<rparr>
            in if find_call cid d \<noteq> None \<or> (\<exists>s. sid = Some s \<and> find_step s d = None)
               then Inl IntegrityError
               else Inr (row, append_event_row cd rid ''provider.started''
                 (JObj [(''provider_call_id'', JStr cid), (''provider'', JStr provider),
                        (''model'', jopt model)]) sid now
                 (d\<lparr>calls := calls d @ [row]\<rparr>))))"

definition start_provider_call ::
  "codec \<Rightarrow> str \<Rightarrow> str \<Rightarrow> json \<Rightarrow> str option \<Rightarrow> str option \<Rightarrow> str \<Rightarrow> instant \<Rightarrow> journal \<Rightarrow>
   (journal_error + call_row) \<times> journal" where
  "start_provider_call cd rid provider request sid model hex now j =
     (if provider = [] then (Inl ValidationError, j)
      else transaction (start_provider_call_tx cd rid provider request sid model
             (new_id ''provider'' hex) now) j)"

definition coerce_call_status :: "str \<Rightarrow> journal_error + call_status" where
  "coerce_call_status s =
     (if s = ''completed'' then Inr CallCompleted else if s = ''failed'' then Inr CallFailed
      else if s = ''uncertain'' then Inr CallUncertain else Inl ValidationError)"

text \<open>\<open>model or row["model"]\<close> in the event, \<open>COALESCE(model, column)\<close> in the row.\<close>

definition complete_provider_call_tx ::
  "codec \<Rightarrow> str \<Rightarrow> json \<Rightarrow> str \<Rightarrow> call_status \<Rightarrow> str option \<Rightarrow> int \<Rightarrow> int \<Rightarrow> int \<Rightarrow> instant \<Rightarrow> db \<Rightarrow>
   journal_error + call_row \<times> db" where
  "complete_provider_call_tx cd cid response name status model itok otok usd now d =
     (case find_call cid d of
        None \<Rightarrow> Inl NotFound
      | Some row \<Rightarrow>
          if call_stat row \<noteq> CallStarted then Inl InvalidTransition
          else if \<not> int64 itok \<or> \<not> int64 otok \<or> \<not> int64 usd then Inl OverflowError
          else
            (let shown = (case model of None \<Rightarrow> call_model row
                   | Some m \<Rightarrow> if m = [] then call_model row else Some m);
                 d' = append_event_row cd (call_run row) (''provider.'' @ name)
                   (JObj [(''provider_call_id'', JStr cid), (''model'', jopt shown),
                          (''input_tokens'', JInt itok), (''output_tokens'', JInt otok),
                          (''micro_usd'', JInt usd)]) (call_step row) now
                   (d\<lparr>calls := update_where (\<lambda>r. call_id r = cid \<and> call_stat r = CallStarted)
                       (\<lambda>r. r\<lparr>call_response := Some (canonical_json cd response),
                              call_stat := status,
                              call_model := (case model of None \<Rightarrow> call_model r | Some m \<Rightarrow> Some m),
                              call_in_tokens := itok, call_out_tokens := otok,
                              call_micro_usd := usd, call_completed := Some now\<rparr>) (calls d)\<rparr>)
             in case find_call cid d' of None \<Rightarrow> Inl NotFound | Some r \<Rightarrow> Inr (r, d')))"

definition complete_provider_call ::
  "codec \<Rightarrow> str \<Rightarrow> json \<Rightarrow> str \<Rightarrow> str option \<Rightarrow> int \<Rightarrow> int \<Rightarrow> int \<Rightarrow> instant \<Rightarrow> journal \<Rightarrow>
   (journal_error + call_row) \<times> journal" where
  "complete_provider_call cd cid response name model itok otok usd now j =
     (case coerce_call_status name of
        Inl e \<Rightarrow> (Inl e, j)
      | Inr status \<Rightarrow>
          if itok < 0 \<or> otok < 0 \<or> usd < 0 then (Inl ValidationError, j)
          else transaction
            (complete_provider_call_tx cd cid response name status model itok otok usd now) j)"

definition list_provider_calls :: "str \<Rightarrow> journal \<Rightarrow> journal_error + call_row list" where
  "list_provider_calls rid j =
     (if closed j then Inl JournalClosed
      else Inr (order_by (\<lambda>r. (call_started r, call_id r))
        (filter (\<lambda>r. call_run r = rid) (calls (database j)))))"

section \<open>Budget reservations\<close>

definition amounts_valid :: "amounts \<Rightarrow> bool" where
  "amounts_valid a \<longleftrightarrow> 0 \<le> a_calls a \<and> 0 \<le> a_tokens a \<and> 0 \<le> a_micro_usd a \<and> 0 \<le> a_wall a"

definition amounts_fit :: "amounts \<Rightarrow> bool" where
  "amounts_fit a \<longleftrightarrow> int64 (a_calls a) \<and> int64 (a_tokens a) \<and> int64 (a_micro_usd a)"

definition amounts_members :: "amounts \<Rightarrow> (str \<times> json) list" where
  "amounts_members a =
     [(''calls'', JInt (a_calls a)), (''tokens'', JInt (a_tokens a)),
      (''micro_usd'', JInt (a_micro_usd a)), (''wall_seconds'', JFloat (a_wall a))]"

text \<open>The loop over the four resources: projected use against the limit.\<close>

definition over_limit :: "'a::linorder option \<Rightarrow> 'a \<Rightarrow> bool" where
  "over_limit limit projected \<longleftrightarrow> (case limit of None \<Rightarrow> False | Some l \<Rightarrow> l < projected)"

definition budget_exceeded :: "budget \<Rightarrow> amounts \<Rightarrow> bool" where
  "budget_exceeded b a \<longleftrightarrow>
     over_limit (call_limit b) (py_sum (reserved_calls b) (used_calls b) (a_calls a)) \<or>
     over_limit (token_limit b) (py_sum (reserved_tokens b) (used_tokens b) (a_tokens a)) \<or>
     over_limit (micro_usd_limit b) (py_sum (reserved_micro_usd b) (used_micro_usd b) (a_micro_usd a)) \<or>
     over_limit (map_option wall_value (wall_seconds_limit b))
       (fadd (fadd (reserved_wall_seconds b) (used_wall_seconds b)) (a_wall a))"

definition reserve_amounts :: "amounts \<Rightarrow> budget \<Rightarrow> budget" where
  "reserve_amounts a b =
     b\<lparr>reserved_calls := sql_add (reserved_calls b) (a_calls a),
       reserved_tokens := sql_add (reserved_tokens b) (a_tokens a),
       reserved_micro_usd := sql_add (reserved_micro_usd b) (a_micro_usd a),
       reserved_wall_seconds := fadd (reserved_wall_seconds b) (a_wall a)\<rparr>"

definition settle_amounts :: "amounts \<Rightarrow> amounts \<Rightarrow> budget \<Rightarrow> budget" where
  "settle_amounts asked actual b =
     b\<lparr>reserved_calls := sql_sub (reserved_calls b) (a_calls asked),
       reserved_tokens := sql_sub (reserved_tokens b) (a_tokens asked),
       reserved_micro_usd := sql_sub (reserved_micro_usd b) (a_micro_usd asked),
       reserved_wall_seconds := fsub (reserved_wall_seconds b) (a_wall asked),
       used_calls := sql_add (used_calls b) (a_calls actual),
       used_tokens := sql_add (used_tokens b) (a_tokens actual),
       used_micro_usd := sql_add (used_micro_usd b) (a_micro_usd actual),
       used_wall_seconds := fadd (used_wall_seconds b) (a_wall actual)\<rparr>"

definition reserve_budget_tx ::
  "codec \<Rightarrow> str \<Rightarrow> amounts \<Rightarrow> str \<Rightarrow> instant \<Rightarrow> db \<Rightarrow> journal_error + str \<times> db" where
  "reserve_budget_tx cd rid a vid now d =
     (case find_reservation vid d of
        Some v \<Rightarrow> if rsv_run v = rid \<and> rsv_asked v = a then Inr (vid, d) else Inl Conflict
      | None \<Rightarrow>
          (case find_run rid d of
             None \<Rightarrow> Inl NotFound
           | Some row \<Rightarrow>
               if budget_exceeded (run_budget row) a then Inl BudgetExceeded
               else if \<not> amounts_fit a then Inl OverflowError
               else if \<not> budget_check (reserve_amounts a (run_budget row)) then Inl IntegrityError
               else Inr (vid, append_event_row cd rid ''budget.reserved''
                 (JObj ((''reservation_id'', JStr vid) # amounts_members a)) None now
                 (d\<lparr>runs := update_where (\<lambda>r. run_id r = rid)
                      (\<lambda>r. r\<lparr>run_budget := reserve_amounts a (run_budget r), run_updated := now\<rparr>)
                      (runs d),
                    reservations := reservations d @
                      [\<lparr>rsv_id = vid, rsv_run = rid, rsv_asked = a, rsv_actual = None,
                        rsv_settled = False, rsv_created = now, rsv_settled_at = None\<rparr>]\<rparr>))))"

definition reserve_budget ::
  "codec \<Rightarrow> str \<Rightarrow> amounts \<Rightarrow> str option \<Rightarrow> str \<Rightarrow> instant \<Rightarrow> journal \<Rightarrow>
   (journal_error + str) \<times> journal" where
  "reserve_budget cd rid a given hex now j =
     (if \<not> amounts_valid a then (Inl ValidationError, j)
      else transaction (reserve_budget_tx cd rid a
        (case given of None \<Rightarrow> new_id ''budget'' hex
         | Some v \<Rightarrow> if v = [] then new_id ''budget'' hex else v) now) j)"

text \<open>
  \<open>settle_budget\<close> takes every amount under two names, refuses both at once, and treats an absent
  amount as zero.
\<close>

definition pick_amount :: "'a::zero option \<Rightarrow> 'a option \<Rightarrow> journal_error + 'a" where
  "pick_amount explicit alias =
     (if explicit \<noteq> None \<and> alias \<noteq> None then Inl ValidationError
      else Inr (case explicit of Some v \<Rightarrow> v | None \<Rightarrow> (case alias of Some v \<Rightarrow> v | None \<Rightarrow> 0)))"

record settle_args =
  sa_calls :: "int option \<times> int option"
  sa_tokens :: "int option \<times> int option"
  sa_micro_usd :: "int option \<times> int option"
  sa_wall :: "rat option \<times> rat option"

definition actual_amounts :: "settle_args \<Rightarrow> journal_error + amounts" where
  "actual_amounts s =
     (case pick_amount (fst (sa_calls s)) (snd (sa_calls s)) of Inl e \<Rightarrow> Inl e | Inr c \<Rightarrow>
      case pick_amount (fst (sa_tokens s)) (snd (sa_tokens s)) of Inl e \<Rightarrow> Inl e | Inr t \<Rightarrow>
      case pick_amount (fst (sa_micro_usd s)) (snd (sa_micro_usd s)) of Inl e \<Rightarrow> Inl e | Inr m \<Rightarrow>
      case pick_amount (fst (sa_wall s)) (snd (sa_wall s)) of Inl e \<Rightarrow> Inl e | Inr w \<Rightarrow>
      if amounts_valid \<lparr>a_calls = c, a_tokens = t, a_micro_usd = m, a_wall = w\<rparr>
      then Inr \<lparr>a_calls = c, a_tokens = t, a_micro_usd = m, a_wall = w\<rparr>
      else Inl ValidationError)"

definition settle_budget_tx ::
  "codec \<Rightarrow> str \<Rightarrow> str \<Rightarrow> amounts \<Rightarrow> instant \<Rightarrow> db \<Rightarrow> journal_error + budget \<times> db" where
  "settle_budget_tx cd rid vid actual now d =
     (case find_reservation vid d of
        None \<Rightarrow> Inl NotFound
      | Some v \<Rightarrow>
          if rsv_run v \<noteq> rid then Inl ValidationError
          else if rsv_settled v then
            (if rsv_actual v \<noteq> Some actual then Inl Conflict
             else case find_run rid d of None \<Rightarrow> Inl NotFound | Some r \<Rightarrow> Inr (run_budget r, d))
          else if \<not> amounts_fit actual then Inl OverflowError
          else if (\<exists>r \<in> set (runs d). run_id r = rid \<and>
                     \<not> budget_check (settle_amounts (rsv_asked v) actual (run_budget r)))
            then Inl IntegrityError
          else
            (let d' = append_event_row cd rid ''budget.settled''
                   (JObj ((''reservation_id'', JStr vid) # amounts_members actual)) None now
                   (d\<lparr>runs := update_where (\<lambda>r. run_id r = rid)
                        (\<lambda>r. r\<lparr>run_budget := settle_amounts (rsv_asked v) actual (run_budget r),
                               run_updated := now\<rparr>) (runs d),
                      reservations := update_where (\<lambda>s. rsv_id s = vid \<and> \<not> rsv_settled s)
                        (\<lambda>s. s\<lparr>rsv_actual := Some actual, rsv_settled := True,
                               rsv_settled_at := Some now\<rparr>) (reservations d)\<rparr>)
             in case find_run rid d' of None \<Rightarrow> Inl NotFound | Some r \<Rightarrow> Inr (run_budget r, d')))"

definition settle_budget ::
  "codec \<Rightarrow> str \<Rightarrow> str \<Rightarrow> settle_args \<Rightarrow> instant \<Rightarrow> journal \<Rightarrow> (journal_error + budget) \<times> journal" where
  "settle_budget cd rid vid args now j =
     (case actual_amounts args of
        Inl e \<Rightarrow> (Inl e, j)
      | Inr actual \<Rightarrow> transaction (settle_budget_tx cd rid vid actual now) j)"

end
