(* ===== verification/Contracts.thy ===== *)
theory Contracts
  imports Prelude
begin

text \<open>
  The contracts several components share, as locales.  A store is a deterministic machine: an
  operation (with the clock readings and fresh identifiers it used) takes the stored state to the
  next one, and a failed operation leaves it alone.  The locales say what the daemon relies on
  when it drives such a store: an invariant that every operation keeps, a log that only grows,
  records whose status follows a transition table, and leases that no other worker can break.
  The journal and the scheduler store interpret them on their own operations.
\<close>

section \<open>Machines with an invariant\<close>

definition run_ops :: "('op \<Rightarrow> 's \<Rightarrow> 's) \<Rightarrow> 'op list \<Rightarrow> 's \<Rightarrow> 's" where
  "run_ops exec ops s = fold exec ops s"

lemma run_ops_simps [simp]:
  "run_ops exec [] s = s"
  "run_ops exec (a # ops) s = run_ops exec ops (exec a s)"
  by (simp_all add: run_ops_def)

locale machine =
  fixes exec :: "'op \<Rightarrow> 's \<Rightarrow> 's"
    and ok :: "'s \<Rightarrow> bool"
  assumes exec_ok: "ok s \<Longrightarrow> ok (exec a s)"
begin

lemma run_ok: "ok s \<Longrightarrow> ok (run_ops exec ops s)"
  by (induction ops arbitrary: s) (auto intro: exec_ok)

end

section \<open>Append-only logs\<close>

locale append_only = machine +
  fixes log :: "'s \<Rightarrow> 'e list"
  assumes exec_log: "ok s \<Longrightarrow> \<exists>es. log (exec a s) = log s @ es"
begin

lemma run_log: "ok s \<Longrightarrow> \<exists>es. log (run_ops exec ops s) = log s @ es"
proof (induction ops arbitrary: s)
  case (Cons a ops)
  obtain es where es: "log (exec a s) = log s @ es" using exec_log Cons.prems by blast
  obtain fs where "log (run_ops exec ops (exec a s)) = log (exec a s) @ fs"
    using Cons.IH exec_ok Cons.prems by blast
  with es show ?case by simp
qed simp

lemma run_log_nth: "ok s \<Longrightarrow> i < length (log s) \<Longrightarrow> log (run_ops exec ops s) ! i = log s ! i"
  using run_log [of s ops] by (auto simp: nth_append)

end

section \<open>Records that follow a transition table\<close>

locale lifecycle = machine +
  fixes status :: "'s \<Rightarrow> 'id \<Rightarrow> 'st option"
    and edge :: "'st \<Rightarrow> 'st \<Rightarrow> bool"
  assumes exec_status: "ok s \<Longrightarrow> status s i = Some x \<Longrightarrow>
      \<exists>y. status (exec a s) i = Some y \<and> (x = y \<or> edge x y)"
begin

lemma run_status: "ok s \<Longrightarrow> status s i = Some x \<Longrightarrow>
    \<exists>y. status (run_ops exec ops s) i = Some y \<and> edge\<^sup>*\<^sup>* x y"
proof (induction ops arbitrary: s x)
  case (Cons a ops)
  obtain y where y: "status (exec a s) i = Some y" "x = y \<or> edge x y"
    using exec_status Cons.prems by blast
  obtain z where "status (run_ops exec ops (exec a s)) i = Some z" "edge\<^sup>*\<^sup>* y z"
    using Cons.IH y(1) exec_ok Cons.prems(1) by blast
  with y(2) show ?case by (auto intro: converse_rtranclp_into_rtranclp)
qed simp

lemma run_terminal:
  assumes "ok s" and "status s i = Some x" and "\<And>y. \<not> edge x y"
  shows "status (run_ops exec ops s) i = Some x"
proof -
  obtain y where y: "status (run_ops exec ops s) i = Some y" "edge\<^sup>*\<^sup>* x y"
    using run_status assms(1,2) by blast
  from y(2) have "x = y" by (cases rule: converse_rtranclpE) (use assms(3) in auto)
  with y(1) show ?thesis by simp
qed

end

section \<open>Records that freeze\<close>

text \<open>Once a record satisfies \<open>frozen\<close>, no operation changes it.\<close>

locale freezing = machine +
  fixes item :: "'s \<Rightarrow> 'id \<Rightarrow> 'r option"
    and frozen :: "'r \<Rightarrow> bool"
  assumes exec_frozen: "ok s \<Longrightarrow> item s i = Some r \<Longrightarrow> frozen r \<Longrightarrow> item (exec a s) i = Some r"
begin

lemma run_frozen: "ok s \<Longrightarrow> item s i = Some r \<Longrightarrow> frozen r \<Longrightarrow> item (run_ops exec ops s) i = Some r"
  by (induction ops arbitrary: s) (auto intro: exec_ok exec_frozen)

end

section \<open>Leases\<close>

text \<open>
  \<open>holding s i = Some (w, e)\<close>: worker \<open>w\<close> holds the lease of item \<open>i\<close> until \<open>e\<close>.
  \<open>releases a i w e\<close>: the operation \<open>a\<close> is one that may end or renew that lease (an operation
  of \<open>w\<close> itself, a recovery whose clock has reached \<open>e\<close>, or an operator's cancellation).
  \<open>acquires a w\<close>: the operation asks for work on behalf of \<open>w\<close>.
\<close>

locale lease_protocol = machine +
  fixes holding :: "'s \<Rightarrow> 'id \<Rightarrow> ('w \<times> 't::linorder) option"
    and releases :: "'op \<Rightarrow> 'id \<Rightarrow> 'w \<Rightarrow> 't \<Rightarrow> bool"
    and acquires :: "'op \<Rightarrow> 'w \<Rightarrow> bool"
  assumes exec_holding: "ok s \<Longrightarrow> holding s i = Some (w, e) \<Longrightarrow> \<not> releases a i w e \<Longrightarrow>
      holding (exec a s) i = Some (w, e)"
    and exec_acquire: "ok s \<Longrightarrow> holding s i = None \<Longrightarrow> holding (exec a s) i = Some (w, e) \<Longrightarrow>
      acquires a w"
begin

text \<open>A lease outlives every sequence of operations that contains no release of it.\<close>

lemma run_holding:
  "ok s \<Longrightarrow> holding s i = Some (w, e) \<Longrightarrow> (\<And>a. a \<in> set ops \<Longrightarrow> \<not> releases a i w e) \<Longrightarrow>
   holding (run_ops exec ops s) i = Some (w, e)"
proof (induction ops arbitrary: s)
  case (Cons a ops)
  have "holding (exec a s) i = Some (w, e)"
    using Cons.prems by (intro exec_holding) auto
  then show ?case using Cons.IH [of "exec a s"] Cons.prems by (auto intro: exec_ok)
qed simp

text \<open>So a second worker can hold the item only after a release of the first lease.\<close>

lemma takeover_needs_release:
  assumes "ok s" and "holding s i = Some (w, e)"
    and "holding (run_ops exec ops s) i = Some (w', e')" and "w \<noteq> w'"
  shows "\<exists>a \<in> set ops. releases a i w e"
  using run_holding [OF assms(1,2), of ops] assms(3,4) by auto

end

section \<open>Sources of occurrences\<close>

text \<open>
  What the scheduler relies on when it walks a schedule: the next occurrence lies strictly after
  the reference instant.
\<close>

fun walk :: "('t \<Rightarrow> 't option) \<Rightarrow> nat \<Rightarrow> 't \<Rightarrow> 't list" where
  "walk next 0 t = []"
| "walk next (Suc n) t = (case next t of None \<Rightarrow> [] | Some u \<Rightarrow> u # walk next n u)"

locale occurrence_source =
  fixes next_after :: "'t::linorder \<Rightarrow> 't option"
  assumes next_later: "next_after t = Some u \<Longrightarrow> t < u"
begin

lemma walk_later: "u \<in> set (walk next_after n t) \<Longrightarrow> t < u"
proof (induction n arbitrary: t)
  case (Suc n)
  then obtain v where v: "next_after t = Some v" "u = v \<or> u \<in> set (walk next_after n v)"
    by (cases "next_after t") auto
  then have "t < v" by (intro next_later)
  with v(2) Suc.IH show ?case by (auto dest: order.strict_trans)
qed simp

lemma walk_increasing: "sorted_wrt (<) (walk next_after n t)"
  by (induction n arbitrary: t) (auto split: option.splits dest: walk_later)

lemma walk_length: "length (walk next_after n t) \<le> n"
  by (induction n arbitrary: t) (auto split: option.splits)

end

end
