(* ===== verification/JournalMachine.thy ===== *)
theory JournalMachine
  imports JournalLedger Contracts
begin

text \<open>
  The journal as a machine.  \<open>journal_op\<close> is one call of a writing method with its arguments, the
  clock readings it makes and the hexadecimal of the uuid it draws; \<open>exec\<close> performs it.  The lock
  and \<open>BEGIN IMMEDIATE\<close> make every such call atomic, so a list of operations is an interleaving of
  the calls of any number of workers.  \<open>db_step\<close> is the relation of the committed transactions,
  one rule per method, and its inversion rules are what the invariants are proved with.
\<close>

section \<open>Operations\<close>

datatype journal_op =
    CreateRun run_request str instant
  | MarkRunStatus str str instant
  | AppendEvent str str json "str option" instant
  | CreateStep str str str json str "int option" instant
  | ClaimReadyStep str rat "str option" instant instant
  | MarkExecuting str str instant instant
  | Heartbeat str str rat instant instant instant
  | CommitStep str str json receipt_arg instant instant
  | FailStep str str "json option" instant instant
  | MarkUncertain str str str instant instant
  | CancelStep str "str option" instant instant
  | ReclaimExpired instant
  | RecordReceipt str str json instant
  | RequestApproval str "str option" json str str instant
  | DecideApproval str decision_arg str "str option" instant
  | RecordArtifact str str str "str option" "str option" "str option" "int option" json str instant
  | StartCall str str json "str option" "str option" str instant
  | CompleteCall str json str "str option" int int int instant
  | ReserveBudget str amounts "str option" str instant
  | SettleBudget str str settle_args instant
  | CloseJournal

fun exec :: "codec \<Rightarrow> journal_op \<Rightarrow> journal \<Rightarrow> journal" where
  "exec cd (CreateRun rq hex now) j = snd (create_run cd rq hex now j)"
| "exec cd (MarkRunStatus rid st now) j = snd (mark_run_status cd rid st now j)"
| "exec cd (AppendEvent rid ty p sid now) j = snd (append_event cd rid ty p sid now j)"
| "exec cd (CreateStep rid k n i s q now) j = snd (create_step cd rid k n i s q now j)"
| "exec cd (ClaimReadyStep w l rid now now2) j = snd (claim_ready_step cd w l rid now now2 j)"
| "exec cd (MarkExecuting sid w now now2) j = snd (mark_executing cd sid w now now2 j)"
| "exec cd (Heartbeat sid w l now now2 now3) j = snd (heartbeat cd sid w l now now2 now3 j)"
| "exec cd (CommitStep sid w out r now now2) j = snd (commit_step cd sid w out r now now2 j)"
| "exec cd (FailStep sid w e now now2) j = snd (fail_step cd sid w e now now2 j)"
| "exec cd (MarkUncertain sid w r now now2) j = snd (mark_uncertain cd sid w r now now2 j)"
| "exec cd (CancelStep sid w now now2) j = snd (cancel_step cd sid w now now2 j)"
| "exec cd (ReclaimExpired now) j = snd (reclaim_expired_leases cd now j)"
| "exec cd (RecordReceipt sid k p now) j = snd (record_receipt cd sid k p now j)"
| "exec cd (RequestApproval rid sid rq k hex now) j = snd (request_approval cd rid sid rq k hex now j)"
| "exec cd (DecideApproval aid v who why now) j = snd (decide_approval cd aid v who why now j)"
| "exec cd (RecordArtifact rid n u sid mt sha sz meta hex now) j =
     snd (record_artifact cd rid n u sid mt sha sz meta hex now j)"
| "exec cd (StartCall rid p rq sid m hex now) j = snd (start_provider_call cd rid p rq sid m hex now j)"
| "exec cd (CompleteCall cid resp st m i out usd now) j =
     snd (complete_provider_call cd cid resp st m i out usd now j)"
| "exec cd (ReserveBudget rid a v hex now) j = snd (reserve_budget cd rid a v hex now j)"
| "exec cd (SettleBudget rid vid args now) j = snd (settle_budget cd rid vid args now j)"
| "exec cd CloseJournal j = close_journal j"

text \<open>The exception an operation raises, if it raises one.\<close>

fun err :: "(journal_error + 'a) \<times> journal \<Rightarrow> journal_error option" where
  "err (Inl e, j) = Some e"
| "err (Inr x, j) = None"

fun op_error :: "codec \<Rightarrow> journal_op \<Rightarrow> journal \<Rightarrow> journal_error option" where
  "op_error cd (CreateRun rq hex now) j = err (create_run cd rq hex now j)"
| "op_error cd (MarkRunStatus rid st now) j = err (mark_run_status cd rid st now j)"
| "op_error cd (AppendEvent rid ty p sid now) j = err (append_event cd rid ty p sid now j)"
| "op_error cd (CreateStep rid k n i s q now) j = err (create_step cd rid k n i s q now j)"
| "op_error cd (ClaimReadyStep w l rid now now2) j = err (claim_ready_step cd w l rid now now2 j)"
| "op_error cd (MarkExecuting sid w now now2) j = err (mark_executing cd sid w now now2 j)"
| "op_error cd (Heartbeat sid w l now now2 now3) j = err (heartbeat cd sid w l now now2 now3 j)"
| "op_error cd (CommitStep sid w out r now now2) j = err (commit_step cd sid w out r now now2 j)"
| "op_error cd (FailStep sid w e now now2) j = err (fail_step cd sid w e now now2 j)"
| "op_error cd (MarkUncertain sid w r now now2) j = err (mark_uncertain cd sid w r now now2 j)"
| "op_error cd (CancelStep sid w now now2) j = err (cancel_step cd sid w now now2 j)"
| "op_error cd (ReclaimExpired now) j = err (reclaim_expired_leases cd now j)"
| "op_error cd (RecordReceipt sid k p now) j = err (record_receipt cd sid k p now j)"
| "op_error cd (RequestApproval rid sid rq k hex now) j = err (request_approval cd rid sid rq k hex now j)"
| "op_error cd (DecideApproval aid v who why now) j = err (decide_approval cd aid v who why now j)"
| "op_error cd (RecordArtifact rid n u sid mt sha sz meta hex now) j =
     err (record_artifact cd rid n u sid mt sha sz meta hex now j)"
| "op_error cd (StartCall rid p rq sid m hex now) j = err (start_provider_call cd rid p rq sid m hex now j)"
| "op_error cd (CompleteCall cid resp st m i out usd now) j =
     err (complete_provider_call cd cid resp st m i out usd now j)"
| "op_error cd (ReserveBudget rid a v hex now) j = err (reserve_budget cd rid a v hex now j)"
| "op_error cd (SettleBudget rid vid args now) j = err (settle_budget cd rid vid args now j)"
| "op_error cd CloseJournal j = None"

lemma err_transaction: "err (transaction body j) = Some e \<Longrightarrow> snd (transaction body j) = j"
  by (auto simp: transaction_def split: sum.splits if_splits)

definition new_journal :: journal where
  "new_journal = \<lparr>database = empty_db, closed = False\<rparr>"

section \<open>Committed transactions\<close>

inductive db_step :: "codec \<Rightarrow> journal_op \<Rightarrow> db \<Rightarrow> db \<Rightarrow> bool" for cd where
  create_run: "create_run_tx cd rq limits rid now d = Inr (x, d') \<Longrightarrow>
    db_step cd (CreateRun rq hex now) d d'"
| mark_run_status: "mark_run_status_tx cd rid target now d = Inr (x, d') \<Longrightarrow>
    db_step cd (MarkRunStatus rid st now) d d'"
| append_event: "append_event_tx cd rid ty p sid now d = Inr (x, d') \<Longrightarrow>
    db_step cd (AppendEvent rid ty p sid now) d d'"
| create_step: "create_step_tx cd rid k n i s q now d = Inr (x, d') \<Longrightarrow>
    db_step cd (CreateStep rid k n i sv q now) d d'"
| claim: "w \<noteq> [] \<Longrightarrow> claim_ready_step_tx cd w rid now expiry d = Inr (x, d') \<Longrightarrow>
    db_step cd (ClaimReadyStep w l rid now now2) d d'"
| mark_executing: "mark_executing_tx cd sid w now now2 d = Inr (x, d') \<Longrightarrow>
    db_step cd (MarkExecuting sid w now now2) d d'"
| heartbeat: "heartbeat_tx cd sid w l now now2 now3 d = Inr (x, d') \<Longrightarrow>
    db_step cd (Heartbeat sid w l now now2 now3) d d'"
| commit_step: "commit_step_tx cd sid w out r now now2 d = Inr (x, d') \<Longrightarrow>
    db_step cd (CommitStep sid w out r now now2) d d'"
| fail_step: "finish_owned_step_tx cd sid w StepFailed ''step.failed'' e None now now2 d = Inr (x, d') \<Longrightarrow>
    db_step cd (FailStep sid w e now now2) d d'"
| mark_uncertain:
    "finish_owned_step_tx cd sid w StepUncertain ''step.uncertain'' None (Some why) now now2 d = Inr (x, d') \<Longrightarrow>
    db_step cd (MarkUncertain sid w why now now2) d d'"
| cancel_step: "cancel_step_tx cd sid wo now now2 d = Inr (x, d') \<Longrightarrow>
    db_step cd (CancelStep sid wo now now2) d d'"
| reclaim: "reclaim_expired_leases_tx cd now d = Inr (x, d') \<Longrightarrow>
    db_step cd (ReclaimExpired now) d d'"
| record_receipt: "record_receipt_tx cd sid k p now d = Inr (x, d') \<Longrightarrow>
    db_step cd (RecordReceipt sid k p now) d d'"
| request_approval: "request_approval_tx cd rid sid rq k aid now d = Inr (x, d') \<Longrightarrow>
    db_step cd (RequestApproval rid sid rq k hex now) d d'"
| decide_approval: "verdict \<noteq> Pending \<Longrightarrow>
    decide_approval_tx cd aid verdict who why now d = Inr (x, d') \<Longrightarrow>
    db_step cd (DecideApproval aid dec who why now) d d'"
| record_artifact: "record_artifact_tx cd rid n u sid mt sha sz meta aid now d = Inr (x, d') \<Longrightarrow>
    db_step cd (RecordArtifact rid n u sid mt sha sz meta hex now) d d'"
| start_call: "start_provider_call_tx cd rid p rq sid m cid now d = Inr (x, d') \<Longrightarrow>
    db_step cd (StartCall rid p rq sid m hex now) d d'"
| complete_call: "status \<noteq> CallStarted \<Longrightarrow>
    complete_provider_call_tx cd cid resp name status m i out usd now d = Inr (x, d') \<Longrightarrow>
    db_step cd (CompleteCall cid resp name m i out usd now) d d'"
| reserve_budget: "amounts_valid a \<Longrightarrow> reserve_budget_tx cd rid a vid now d = Inr (x, d') \<Longrightarrow>
    db_step cd (ReserveBudget rid a v hex now) d d'"
| settle_budget: "amounts_valid actual \<Longrightarrow> settle_budget_tx cd rid vid actual now d = Inr (x, d') \<Longrightarrow>
    db_step cd (SettleBudget rid vid args now) d d'"

inductive_cases claim_stepE: "db_step cd (ClaimReadyStep w l rid now now2) d d'"
inductive_cases reclaim_stepE: "db_step cd (ReclaimExpired now) d d'"
inductive_cases close_stepE: "db_step cd CloseJournal d d'"

lemma decision_value_not_Pending: "decision_value dec = Inr v \<Longrightarrow> v \<noteq> Pending"
  by (cases dec) (auto split: if_splits)

lemma coerce_call_status_not_started: "coerce_call_status s = Inr v \<Longrightarrow> v \<noteq> CallStarted"
  by (auto simp: coerce_call_status_def split: if_splits)

lemma actual_amounts_valid: "actual_amounts s = Inr a \<Longrightarrow> amounts_valid a"
  by (auto simp: actual_amounts_def split: sum.splits if_splits)

text \<open>An operation leaves the journal alone, closes it, or commits one transaction.\<close>

definition journal_step :: "codec \<Rightarrow> journal_op \<Rightarrow> journal \<Rightarrow> journal \<Rightarrow> bool" where
  "journal_step cd a j j' \<longleftrightarrow> j' = j \<or> (a = CloseJournal \<and> j' = close_journal j) \<or>
     (\<exists>d. db_step cd a (database j) d \<and> j' = j\<lparr>database := d\<rparr>)"

lemma journal_step_refl [simp]: "journal_step cd a j j"
  by (simp add: journal_step_def)

lemma transaction_step:
  assumes "\<And>x d. body (database j) = Inr (x, d) \<Longrightarrow> db_step cd a (database j) d"
  shows "journal_step cd a j (snd (transaction body j))"
  using assms by (auto simp: transaction_def journal_step_def split: sum.splits)

lemmas method_defs = create_run_def mark_run_status_def append_event_def create_step_def
  claim_ready_step_def mark_executing_def heartbeat_def commit_step_def fail_step_def
  mark_uncertain_def cancel_step_def reclaim_expired_leases_def record_receipt_def
  request_approval_def decide_approval_def record_artifact_def start_provider_call_def
  complete_provider_call_def reserve_budget_def settle_budget_def

lemma exec_journal_step: "journal_step cd a j (exec cd a j)"
proof (cases "a = CloseJournal")
  case True
  then show ?thesis by (simp add: journal_step_def)
next
  case False
  then show ?thesis
    by (cases a)
      (auto simp: method_defs split: sum.splits intro!: transaction_step intro: db_step.intros
        dest: decision_value_not_Pending coerce_call_status_not_started actual_amounts_valid)
qed

end
