(* ===== verification/StepMachine.thy ===== *)
theory StepMachine
  imports JournalMachine
begin

text \<open>
  The life of one step, as the abstract machine \<open>row_step\<close>, and the proof that every committed
  transaction of the journal moves every step row along it.
\<close>

section \<open>Closed form of the recovery loop\<close>

definition reclaimed :: "instant \<Rightarrow> step_row \<Rightarrow> step_row" where
  "reclaimed ts r = r\<lparr>step_stat := reclaim_target (step_safety r),
     uncertainty := reclaim_reason (reclaim_target (step_safety r)),
     lease_owner := None, lease_expires := None, step_updated := ts\<rparr>"

lemma step_id_reclaimed [simp]: "step_id (reclaimed ts r) = step_id r"
  by (simp add: reclaimed_def)

definition reclaim_event :: "step_row \<Rightarrow> json" where
  "reclaim_event r = JObj
     [(''from'', JStr (step_status_value (step_stat r))),
      (''to'', JStr (step_status_value (reclaim_target (step_safety r)))),
      (''previous_owner'', jopt (lease_owner r)), (''safety'', JStr (safety_value (step_safety r))),
      (''reason'', jopt (reclaim_reason (reclaim_target (step_safety r))))]"

lemma reclaim_one_hit:
  assumes k: "keyed step_id S" and r: "r \<in> set S" "lease_expired ts r" "step_id r \<notin> K"
    and s: "steps d = update_where (\<lambda>s. step_id s \<in> K) (reclaimed ts) S"
  shows "reclaim_one cd ts r (acc, d) =
      (acc @ [reclaimed ts r],
       append_event_row cd (step_run r) ''step.lease_expired'' (reclaim_event r) (Some (step_id r)) ts
         (d\<lparr>steps := update_where (\<lambda>s. step_id s \<in> insert (step_id r) K) (reclaimed ts) S\<rparr>))"
proof -
  define T where "T = update_where (\<lambda>s. step_id s \<in> insert (step_id r) K) (reclaimed ts) S"
  let ?hit = "\<lambda>s. step_id s = step_id r \<and> step_stat s = step_stat r \<and>
      (case lease_expires s of None \<Rightarrow> False | Some e \<Rightarrow> e \<le> ts)"
  have find: "by_key step_id (step_id r) (steps d) = Some r"
    using by_key_in [OF k r(1)] r(3) by (simp add: s by_key_update_where)
  have hit: "?hit r" using r(2) by (simp add: lease_expired_def)
  have keyed: "keyed step_id (steps d)" using k by (simp add: s)
  have one: "rowcount ?hit (steps d) = 1" by (rule rowcount_by_key [OF keyed find]) (use hit in simp)
  have upd: "update_where ?hit (\<lambda>x. x\<lparr>step_stat := reclaim_target (step_safety r),
       uncertainty := reclaim_reason (reclaim_target (step_safety r)),
       lease_owner := None, lease_expires := None, step_updated := ts\<rparr>) (steps d) = T"
    unfolding s T_def update_where_def list.map_comp
  proof (rule map_cong [OF refl])
    fix x assume x: "x \<in> set S"
    show "((\<lambda>r'. if ?hit r' then r'\<lparr>step_stat := reclaim_target (step_safety r),
       uncertainty := reclaim_reason (reclaim_target (step_safety r)),
       lease_owner := None, lease_expires := None, step_updated := ts\<rparr> else r') \<circ>
       (\<lambda>r. if step_id r \<in> K then reclaimed ts r else r)) x =
      (if step_id x \<in> insert (step_id r) K then reclaimed ts x else x)"
    proof (cases "step_id x = step_id r")
      case True
      have xr: "x = r" using by_key_in [OF k x] by_key_in [OF k r(1)] True by (metis option.inject)
      have le: "(case lease_expires r of None \<Rightarrow> False | Some e \<Rightarrow> e \<le> ts) = True" using hit by simp
      show ?thesis unfolding xr o_apply using r(3) by (simp add: le reclaimed_def)
    qed simp
  qed
  have find': "by_key step_id (step_id r) T = Some (reclaimed ts r)"
    using by_key_in [OF k r(1)] by (simp add: T_def by_key_update_where)
  show ?thesis
    unfolding reclaim_one_def Let_def prod.case one upd T_def [symmetric]
    by (simp add: find' reclaim_event_def)
qed

lemma reclaim_fold:
  assumes "keyed step_id S" and "set rows \<subseteq> set S" and "\<And>r. r \<in> set rows \<Longrightarrow> lease_expired ts r"
    and "distinct (map step_id rows)" and "\<And>r. r \<in> set rows \<Longrightarrow> step_id r \<notin> K"
    and "steps d = update_where (\<lambda>s. step_id s \<in> K) (reclaimed ts) S"
  shows "\<exists>evs. fold (reclaim_one cd ts) rows (acc, d) =
     (acc @ map (reclaimed ts) rows,
      d\<lparr>steps := update_where (\<lambda>s. step_id s \<in> K \<union> step_id ` set rows) (reclaimed ts) S,
        events := events d @ evs\<rparr>) \<and>
     (\<forall>e \<in> set evs. \<exists>r \<in> set rows. event_run e = step_run r \<and> event_step e = Some (step_id r)) \<and>
     map event_id (events d @ evs) = map event_id (events d) @
       map (\<lambda>i. next_event_id (events d) + int i) [0..<length rows]"
  using assms(2-)
proof (induction rows arbitrary: acc d K)
  case Nil
  then show ?case by (intro exI [of _ "[]"]) simp
next
  case (Cons r rows)
  have one: "reclaim_one cd ts r (acc, d) =
      (acc @ [reclaimed ts r],
       append_event_row cd (step_run r) ''step.lease_expired'' (reclaim_event r) (Some (step_id r)) ts
         (d\<lparr>steps := update_where (\<lambda>s. step_id s \<in> insert (step_id r) K) (reclaimed ts) S\<rparr>))"
    by (rule reclaim_one_hit [OF assms(1)]) (use Cons.prems in auto)
  let ?e = "\<lparr>event_id = next_event_id (events d), event_run = step_run r,
      event_step = Some (step_id r), event_type = ''step.lease_expired'',
      event_payload = canonical_json cd (reclaim_event r), event_created = ts\<rparr>"
  let ?d = "d\<lparr>steps := update_where (\<lambda>s. step_id s \<in> insert (step_id r) K) (reclaimed ts) S,
      events := events d @ [?e]\<rparr>"
  have nxt: "next_event_id (events d @ [?e]) = next_event_id (events d) + 1" by simp
  have prems: "set rows \<subseteq> set S" "\<And>r. r \<in> set rows \<Longrightarrow> lease_expired ts r"
      "distinct (map step_id rows)" "\<And>s. s \<in> set rows \<Longrightarrow> step_id s \<notin> insert (step_id r) K"
      "steps ?d = update_where (\<lambda>s. step_id s \<in> insert (step_id r) K) (reclaimed ts) S"
    using Cons.prems by (auto simp: image_iff)
  obtain evs where IH: "fold (reclaim_one cd ts) rows (acc @ [reclaimed ts r], ?d) =
     ((acc @ [reclaimed ts r]) @ map (reclaimed ts) rows,
      ?d\<lparr>steps := update_where (\<lambda>s. step_id s \<in> insert (step_id r) K \<union> step_id ` set rows) (reclaimed ts) S,
        events := events ?d @ evs\<rparr>)"
     "\<forall>e \<in> set evs. \<exists>r \<in> set rows. event_run e = step_run r \<and> event_step e = Some (step_id r)"
     "map event_id (events ?d @ evs) = map event_id (events ?d) @
       map (\<lambda>i. next_event_id (events ?d) + int i) [0..<length rows]"
    using Cons.IH [OF prems] by blast
  show ?case
  proof (intro exI [of _ "?e # evs"] conjI)
    show "fold (reclaim_one cd ts) (r # rows) (acc, d) =
     (acc @ map (reclaimed ts) (r # rows),
      d\<lparr>steps := update_where (\<lambda>s. step_id s \<in> K \<union> step_id ` set (r # rows)) (reclaimed ts) S,
        events := events d @ ?e # evs\<rparr>)"
      using IH(1) by (simp add: one append_event_row_def)
    show "\<forall>e\<in>set (?e # evs). \<exists>r\<in>set (r # rows). event_run e = step_run r \<and> event_step e = Some (step_id r)"
      using IH(2) by auto
    show "map event_id (events d @ ?e # evs) = map event_id (events d) @
       map (\<lambda>i. next_event_id (events d) + int i) [0..<length (r # rows)]"
      using IH(3) nxt by (simp add: map_upt_Suc del: upt_Suc)
  qed
qed

text \<open>
  The whole recovery: exactly the rows whose lease has run out are rewritten, in place, and they
  are what is returned, in the order of expiry.
\<close>

lemma reclaim_closed_form:
  assumes "keyed step_id (steps d)"
  shows "\<exists>evs. reclaim_expired_leases_tx cd ts d = Inr
     (map (reclaimed ts) (order_by (\<lambda>r. (lease_expires r, step_id r)) (filter (lease_expired ts) (steps d))),
      d\<lparr>steps := update_where (lease_expired ts) (reclaimed ts) (steps d), events := events d @ evs\<rparr>) \<and>
     (\<forall>e \<in> set evs. \<exists>r \<in> set (steps d). event_run e = step_run r \<and> event_step e = Some (step_id r)) \<and>
     map event_id (events d @ evs) = map event_id (events d) @
       map (\<lambda>i. next_event_id (events d) + int i) [0..<length evs]"
proof -
  let ?rows = "order_by (\<lambda>r. (lease_expires r, step_id r)) (filter (lease_expired ts) (steps d))"
  have dist: "distinct (map step_id ?rows)"
    using assms by (auto simp: order_by_def keyed_def distinct_map inj_on_def)
  have sub: "set ?rows \<subseteq> set (steps d)" by auto
  have exp: "\<And>r. r \<in> set ?rows \<Longrightarrow> lease_expired ts r" by simp
  have none: "\<And>r. r \<in> set ?rows \<Longrightarrow> step_id r \<notin> {}" by simp
  have start: "steps d = update_where (\<lambda>s. step_id s \<in> {}) (reclaimed ts) (steps d)"
    by (simp add: update_where_def)
  obtain evs where evs: "fold (reclaim_one cd ts) ?rows ([], d) =
     ([] @ map (reclaimed ts) ?rows,
      d\<lparr>steps := update_where (\<lambda>s. step_id s \<in> {} \<union> step_id ` set ?rows) (reclaimed ts) (steps d),
        events := events d @ evs\<rparr>)"
     "\<forall>e \<in> set evs. \<exists>r \<in> set ?rows. event_run e = step_run r \<and> event_step e = Some (step_id r)"
     "map event_id (events d @ evs) = map event_id (events d) @
       map (\<lambda>i. next_event_id (events d) + int i) [0..<length ?rows]"
    using reclaim_fold [OF assms sub exp dist none start] by blast
  have "update_where (\<lambda>s. step_id s \<in> {} \<union> step_id ` set ?rows) (reclaimed ts) (steps d) =
      update_where (lease_expired ts) (reclaimed ts) (steps d)"
    unfolding update_where_def
  proof (rule map_cong [OF refl])
    fix x assume x: "x \<in> set (steps d)"
    have "step_id x \<in> step_id ` set ?rows \<longleftrightarrow> lease_expired ts x"
    proof
      assume "step_id x \<in> step_id ` set ?rows"
      then obtain y where y: "y \<in> set (steps d)" "lease_expired ts y" "step_id x = step_id y" by auto
      then have "x = y" using by_key_in [OF assms x] by_key_in [OF assms y(1)] by (metis option.inject)
      with y show "lease_expired ts x" by simp
    qed (use x in auto)
    then show "(if step_id x \<in> {} \<union> step_id ` set ?rows then reclaimed ts x else x) =
        (if lease_expired ts x then reclaimed ts x else x)" by simp
  qed
  moreover have "length evs = length ?rows"
    using arg_cong [OF evs(3), of length] by simp
  ultimately show ?thesis
    using evs unfolding reclaim_expired_leases_tx_def
    by (intro exI [of _ evs]) auto
qed

section \<open>The abstract step machine\<close>

text \<open>\<open>row_step a r r'\<close>: the operation \<open>a\<close> may turn the step row \<open>r\<close> into \<open>r'\<close>.\<close>

inductive row_step :: "journal_op \<Rightarrow> step_row \<Rightarrow> step_row \<Rightarrow> bool" where
  keep: "row_step a r r"
| claim: "step_stat r = StepReady \<Longrightarrow> w \<noteq> [] \<Longrightarrow>
    row_step (ClaimReadyStep w l rid now now2) r
      (r\<lparr>step_stat := StepLeased, lease_owner := Some w, lease_expires := Some e,
         attempts := attempts r + 1, step_updated := now\<rparr>)"
| execute: "step_stat r = StepLeased \<Longrightarrow> check_owner_and_lease r w now = None \<Longrightarrow>
    row_step (MarkExecuting (step_id r) w now now2) r
      (r\<lparr>step_stat := StepExecuting, step_updated := now2\<rparr>)"
| renew: "step_stat r \<in> {StepLeased, StepExecuting} \<Longrightarrow> check_owner_and_lease r w now = None \<Longrightarrow>
    row_step (Heartbeat (step_id r) w l now now2 now3) r
      (r\<lparr>lease_expires := Some (now3 + timedelta_us l), step_updated := now2\<rparr>)"
| commit: "step_stat r = StepExecuting \<Longrightarrow> check_owner_and_lease r w now = None \<Longrightarrow>
    row_step (CommitStep (step_id r) w out rc now now2) r
      (r\<lparr>step_stat := StepCommitted, step_output := Some txt, step_error := None,
         lease_owner := None, lease_expires := None, step_updated := now2\<rparr>)"
| fail: "step_stat r \<in> {StepLeased, StepExecuting} \<Longrightarrow> check_owner_and_lease r w now = None \<Longrightarrow>
    row_step (FailStep (step_id r) w e now now2) r
      (r\<lparr>step_stat := StepFailed, step_error := txt, uncertainty := None,
         lease_owner := None, lease_expires := None, step_updated := now2\<rparr>)"
| doubt: "step_stat r \<in> {StepLeased, StepExecuting} \<Longrightarrow> check_owner_and_lease r w now = None \<Longrightarrow>
    row_step (MarkUncertain (step_id r) w why now now2) r
      (r\<lparr>step_stat := StepUncertain, step_error := None, uncertainty := Some why,
         lease_owner := None, lease_expires := None, step_updated := now2\<rparr>)"
| cancel: "step_stat r \<in> {StepCreated, StepReady, StepUncertain} \<or>
      (step_stat r \<in> {StepLeased, StepExecuting} \<and>
       (\<exists>w. wo = Some w \<and> check_owner_and_lease r w now = None)) \<Longrightarrow>
    row_step (CancelStep (step_id r) wo now now2) r
      (r\<lparr>step_stat := StepCancelled, lease_owner := None, lease_expires := None,
         step_updated := now2\<rparr>)"
| expire: "lease_expired now r \<Longrightarrow> row_step (ReclaimExpired now) r (reclaimed now r)"

inductive_cases row_stepE: "row_step a r r'"

lemma row_step_id: "row_step a r r' \<Longrightarrow> step_id r' = step_id r"
  by (erule row_step.cases) auto

text \<open>What \<open>create_step\<close> inserts.\<close>

definition fresh_step :: "step_row \<Rightarrow> bool" where
  "fresh_step r \<longleftrightarrow> step_stat r = StepReady \<and> step_output r = None \<and> step_error r = None \<and>
     uncertainty r = None \<and> lease_owner r = None \<and> lease_expires r = None \<and> attempts r = 0"

text \<open>
  The effect of one committed transaction on the step table: rows are rewritten along \<open>row_step\<close>,
  and at most one fresh row is appended.
\<close>

definition steps_follow :: "journal_op \<Rightarrow> step_row list \<Rightarrow> step_row list \<Rightarrow> bool" where
  "steps_follow a S S' \<longleftrightarrow> (\<exists>f news. S' = map f S @ news \<and> (\<forall>r \<in> set S. row_step a r (f r)) \<and>
     (news = [] \<or> (\<exists>r. news = [r] \<and> fresh_step r \<and> (\<forall>s \<in> set S. step_id s \<noteq> step_id r \<and>
        \<not> (step_run s = step_run r \<and> step_key s = step_key r)))))"

lemma steps_follow_refl [simp]: "steps_follow a S S"
  unfolding steps_follow_def by (rule exI [of _ id], rule exI [of _ "[]"]) (simp add: keep)

lemma steps_follow_update:
  "(\<And>r. r \<in> set S \<Longrightarrow> P r \<Longrightarrow> row_step a r (f r)) \<Longrightarrow> steps_follow a S (update_where P f S)"
  unfolding steps_follow_def update_where_def
  by (rule exI [of _ "\<lambda>r. if P r then f r else r"], rule exI [of _ "[]"]) (simp add: keep)

lemma steps_follow_snoc:
  "fresh_step r \<Longrightarrow> (\<And>s. s \<in> set S \<Longrightarrow> step_id s \<noteq> step_id r \<and>
     \<not> (step_run s = step_run r \<and> step_key s = step_key r)) \<Longrightarrow> steps_follow a S (S @ [r])"
  unfolding steps_follow_def by (rule exI [of _ id], rule exI [of _ "[r]"]) (auto simp: keep)

lemma claim_follows:
  assumes "claim_ready_step_tx cd w rid now expiry d = Inr (x, d')" and "w \<noteq> []"
  shows "steps_follow (ClaimReadyStep w l rid now now2) (steps d) (steps d')"
  using assms
  by (auto simp: claim_ready_step_tx_def Let_def split: if_splits list.splits option.splits
      intro!: steps_follow_update row_step.claim)

lemma owned_row: "keyed step_id S \<Longrightarrow> by_key step_id sid S = Some row \<Longrightarrow> r \<in> set S \<Longrightarrow>
    step_id r = sid \<Longrightarrow> r = row"
  by (rule by_key_same)

lemma mark_executing_follows:
  assumes "mark_executing_tx cd sid w now now2 d = Inr (x, d')" and "keyed step_id (steps d)"
  shows "steps_follow (MarkExecuting sid w now now2) (steps d) (steps d')"
proof -
  obtain row where row: "find_step sid d = Some row" "step_stat row = StepLeased"
      "check_owner_and_lease row w now = None"
      "steps d' = update_where (\<lambda>r. step_id r = sid \<and> step_stat r = StepLeased)
         (\<lambda>r. r\<lparr>step_stat := StepExecuting, step_updated := now2\<rparr>) (steps d)"
    using assms(1) by (auto simp: mark_executing_tx_def Let_def split: if_splits option.splits)
  show ?thesis unfolding row(4)
    using row(1-3) owned_row [OF assms(2)] by (intro steps_follow_update) (auto intro: row_step.execute)
qed

lemma heartbeat_follows:
  assumes "heartbeat_tx cd sid w l now now2 now3 d = Inr (x, d')" and "keyed step_id (steps d)"
  shows "steps_follow (Heartbeat sid w l now now2 now3) (steps d) (steps d')"
proof -
  obtain row where row: "find_step sid d = Some row" "step_stat row \<in> {StepLeased, StepExecuting}"
      "check_owner_and_lease row w now = None"
      "steps d' = update_where (\<lambda>r. step_id r = sid \<and> step_stat r = step_stat row \<and> lease_owner r = Some w)
         (\<lambda>r. r\<lparr>lease_expires := Some (now3 + timedelta_us l), step_updated := now2\<rparr>) (steps d)"
    using assms(1) by (auto simp: heartbeat_tx_def Let_def split: if_splits option.splits)
  show ?thesis unfolding row(4)
    using row(1-3) owned_row [OF assms(2)] by (intro steps_follow_update) (auto intro: row_step.renew)
qed

lemma steps_record_receipt_row:
  "record_receipt_row cd rid sid key p ts d = Inr (x, d') \<Longrightarrow> \<exists>rs. d' = d\<lparr>receipts := rs\<rparr>"
  by (auto simp: record_receipt_row_def Let_def split: if_splits option.splits intro: exI [of _ "receipts d"])

lemma steps_commit_receipt:
  "commit_receipt cd row arg ts d = Inr (x, d') \<Longrightarrow> \<exists>rs. d' = d\<lparr>receipts := rs\<rparr>"
  by (auto simp: commit_receipt_def split: sum.splits option.splits prod.splits
      dest: steps_record_receipt_row intro: exI [of _ "receipts d"])

lemma commit_step_follows:
  assumes "commit_step_tx cd sid w out rc now now2 d = Inr (x, d')" and "keyed step_id (steps d)"
  shows "steps_follow (CommitStep sid w out rc now now2) (steps d) (steps d')"
proof -
  obtain row where row: "find_step sid d = Some row" "step_stat row = StepExecuting"
      "check_owner_and_lease row w now = None"
      "steps d' = update_where (\<lambda>r. step_id r = sid \<and> step_stat r = StepExecuting \<and> lease_owner r = Some w)
         (\<lambda>r. r\<lparr>step_stat := StepCommitted, step_output := Some (canonical_json cd out),
                step_error := None, lease_owner := None, lease_expires := None,
                step_updated := now2\<rparr>) (steps d)"
    using assms(1)
    by (auto simp: commit_step_tx_def Let_def split: if_splits option.splits sum.splits
        dest!: steps_commit_receipt)
  show ?thesis unfolding row(4)
    using row(1-3) owned_row [OF assms(2)] by (intro steps_follow_update) (auto intro: row_step.commit)
qed

lemma finish_owned_step_row:
  assumes "finish_owned_step_tx cd sid w target ev e why now now2 d = Inr (x, d')"
  obtains row where "find_step sid d = Some row" "step_stat row \<in> {StepLeased, StepExecuting}"
      "check_owner_and_lease row w now = None"
      "steps d' = update_where (\<lambda>r. step_id r = sid \<and> step_stat r = step_stat row \<and> lease_owner r = Some w)
         (\<lambda>r. r\<lparr>step_stat := target, step_error := map_option (canonical_json cd) e,
                uncertainty := why, lease_owner := None, lease_expires := None,
                step_updated := now2\<rparr>) (steps d)"
  using assms by (auto simp: finish_owned_step_tx_def Let_def split: if_splits option.splits)

lemma fail_step_follows:
  assumes "finish_owned_step_tx cd sid w StepFailed ev e None now now2 d = Inr (x, d')"
    and "keyed step_id (steps d)"
  shows "steps_follow (FailStep sid w e now now2) (steps d) (steps d')"
  using assms(1)
proof (rule finish_owned_step_row)
  fix row assume row: "find_step sid d = Some row" "step_stat row \<in> {StepLeased, StepExecuting}"
      "check_owner_and_lease row w now = None"
    and eq: "steps d' = update_where (\<lambda>r. step_id r = sid \<and> step_stat r = step_stat row \<and> lease_owner r = Some w)
         (\<lambda>r. r\<lparr>step_stat := StepFailed, step_error := map_option (canonical_json cd) e,
                uncertainty := None, lease_owner := None, lease_expires := None,
                step_updated := now2\<rparr>) (steps d)"
  show ?thesis unfolding eq
    using row owned_row [OF assms(2)] by (intro steps_follow_update) (auto intro: row_step.fail)
qed

lemma mark_uncertain_follows:
  assumes "finish_owned_step_tx cd sid w StepUncertain ev None (Some why) now now2 d = Inr (x, d')"
    and "keyed step_id (steps d)"
  shows "steps_follow (MarkUncertain sid w why now now2) (steps d) (steps d')"
  using assms(1)
proof (rule finish_owned_step_row)
  fix row assume row: "find_step sid d = Some row" "step_stat row \<in> {StepLeased, StepExecuting}"
      "check_owner_and_lease row w now = None"
    and eq: "steps d' = update_where (\<lambda>r. step_id r = sid \<and> step_stat r = step_stat row \<and> lease_owner r = Some w)
         (\<lambda>r. r\<lparr>step_stat := StepUncertain, step_error := map_option (canonical_json cd) None,
                uncertainty := Some why, lease_owner := None, lease_expires := None,
                step_updated := now2\<rparr>) (steps d)"
  show ?thesis unfolding eq
    using row owned_row [OF assms(2)] by (intro steps_follow_update) (auto intro: row_step.doubt)
qed

lemma cancel_step_follows:
  assumes "cancel_step_tx cd sid wo now now2 d = Inr (x, d')" and "keyed step_id (steps d)"
  shows "steps_follow (CancelStep sid wo now now2) (steps d) (steps d')"
proof -
  obtain row where row: "find_step sid d = Some row"
      "step_stat row \<in> {StepCreated, StepReady, StepUncertain} \<or>
       (step_stat row \<in> {StepLeased, StepExecuting} \<and>
        (\<exists>w. wo = Some w \<and> check_owner_and_lease row w now = None))"
      "steps d' = update_where (\<lambda>r. step_id r = sid \<and> step_stat r = step_stat row)
         (\<lambda>r. r\<lparr>step_stat := StepCancelled, lease_owner := None, lease_expires := None,
                step_updated := now2\<rparr>) (steps d)"
    using assms(1) by (auto simp: cancel_step_tx_def Let_def split: if_splits option.splits)
  show ?thesis unfolding row(3)
  proof (rule steps_follow_update)
    fix r assume "r \<in> set (steps d)" "step_id r = sid \<and> step_stat r = step_stat row"
    then have "r = row" "sid = step_id row" using owned_row [OF assms(2) row(1)] by auto
    then show "row_step (CancelStep sid wo now now2) r
        (r\<lparr>step_stat := StepCancelled, lease_owner := None, lease_expires := None,
           step_updated := now2\<rparr>)"
      using row(2) by (simp add: row_step.cancel)
  qed
qed

lemma create_step_follows:
  assumes "create_step_tx cd rid k n i s q now d = Inr (x, d')"
  shows "steps_follow a (steps d) (steps d')"
  using assms
  by (auto simp: create_step_tx_def Let_def step_exists_def fresh_step_def
      split: if_splits option.splits intro!: steps_follow_snoc)

lemmas other_tx_defs = create_run_tx_def insert_run_def mark_run_status_tx_def append_event_tx_def
  record_receipt_tx_def request_approval_tx_def decide_approval_tx_def record_artifact_tx_def
  start_provider_call_tx_def complete_provider_call_tx_def reserve_budget_tx_def settle_budget_tx_def

theorem db_step_follows:
  assumes "db_step cd a d d'" and "keyed step_id (steps d)"
  shows "steps_follow a (steps d) (steps d')"
  using assms(1)
proof cases
  case (reclaim now x)
  then show ?thesis
    using reclaim_closed_form [OF assms(2), of cd now]
    by (auto intro!: steps_follow_update row_step.expire)
qed (use assms(2) in \<open>auto simp: other_tx_defs Let_def split: if_splits option.splits sum.splits prod.splits
   dest: steps_record_receipt_row
   intro: claim_follows mark_executing_follows heartbeat_follows commit_step_follows fail_step_follows
     mark_uncertain_follows cancel_step_follows create_step_follows\<close>)

end
