(* ===== verification/JournalInvariants.thy ===== *)
theory JournalInvariants
  imports StepMachine
begin

text \<open>
  The invariants of the journal's database that every committed transaction keeps: primary and
  unique keys, the numbering of the event log, the foreign keys, the consistency of each step row
  with its status, and the conservation of budgets.
\<close>

lemmas step_tx_defs = create_step_tx_def claim_ready_step_tx_def mark_executing_tx_def heartbeat_tx_def
  commit_step_tx_def finish_owned_step_tx_def cancel_step_tx_def

lemmas tx_splits = if_splits option.splits sum.splits prod.splits list.splits

section \<open>The event log\<close>

definition events_grow :: "event_row list \<Rightarrow> event_row list \<Rightarrow> bool" where
  "events_grow es es' \<longleftrightarrow> (\<exists>evs. es' = es @ evs \<and>
     map event_id evs = map (\<lambda>i. next_event_id es + int i) [0..<length evs])"

lemma events_grow_refl [simp]: "events_grow es es"
  by (simp add: events_grow_def)

lemma events_grow_snoc [simp]: "event_id e = next_event_id es \<Longrightarrow> events_grow es (es @ [e])"
  by (simp add: events_grow_def)

lemma db_step_events:
  assumes "db_step cd a d d'" and "keyed step_id (steps d)"
  shows "events_grow (events d) (events d')"
  using assms(1)
proof cases
  case (reclaim now x)
  then show ?thesis
    using reclaim_closed_form [OF assms(2), of cd now] by (auto simp: events_grow_def)
qed (auto simp: other_tx_defs step_tx_defs Let_def events_append_event_row split: tx_splits
   dest!: steps_record_receipt_row steps_commit_receipt)

definition events_numbered :: "event_row list \<Rightarrow> bool" where
  "events_numbered es \<longleftrightarrow> map event_id es = map (\<lambda>i. int i + 1) [0..<length es]"

lemma next_event_id_numbered: "events_numbered es \<Longrightarrow> next_event_id es = int (length es) + 1"
proof -
  have "fold max (map (\<lambda>i. int i + 1) [0..<n]) 0 = int n" for n
    by (induction n) auto
  then show "events_numbered es \<Longrightarrow> next_event_id es = int (length es) + 1"
    by (simp add: events_numbered_def next_event_id_def)
qed

lemma events_grow_numbered: "events_numbered es \<Longrightarrow> events_grow es es' \<Longrightarrow> events_numbered es'"
proof -
  assume n: "events_numbered es" and "events_grow es es'"
  then obtain evs where evs: "es' = es @ evs"
      "map event_id evs = map (\<lambda>i. next_event_id es + int i) [0..<length evs]"
    by (auto simp: events_grow_def)
  have "[0..<length es + length evs] = [0..<length es] @ map (\<lambda>i. i + length es) [0..<length evs]"
    by (simp add: upt_add_eq_append [of 0] map_add_upt add.commute)
  then show "events_numbered es'"
    using n evs next_event_id_numbered [OF n] by (simp add: events_numbered_def o_def algebra_simps)
qed

section \<open>Keys\<close>

definition keys_ok :: "db \<Rightarrow> bool" where
  "keys_ok d \<longleftrightarrow> keyed run_id (runs d) \<and> keyed external_key (external_keys d) \<and>
     keyed receipt_id (receipts d) \<and> keyed idem_key (receipts d) \<and>
     keyed approval_id (approvals d) \<and> keyed artifact_id (artifacts d) \<and>
     keyed call_id (calls d) \<and> keyed rsv_id (reservations d)"

definition step_keys_ok :: "db \<Rightarrow> bool" where
  "step_keys_ok d \<longleftrightarrow> keyed step_id (steps d) \<and> keyed (\<lambda>s. (step_run s, step_key s)) (steps d)"

lemma row_step_identity:
  "row_step a r r' \<Longrightarrow> step_id r' = step_id r \<and> step_run r' = step_run r \<and> step_key r' = step_key r \<and>
     step_kind r' = step_kind r \<and> step_name r' = step_name r \<and> step_input r' = step_input r \<and>
     input_hash r' = input_hash r \<and> step_safety r' = step_safety r \<and> step_seq r' = step_seq r \<and>
     step_created r' = step_created r"
  by (erule row_step.cases) (auto simp: reclaimed_def)

lemma steps_follow_keys:
  assumes "steps_follow a S S'" and "keyed step_id S" and "keyed (\<lambda>s. (step_run s, step_key s)) S"
  shows "keyed step_id S' \<and> keyed (\<lambda>s. (step_run s, step_key s)) S'"
proof -
  obtain f news where f: "S' = map f S @ news" "\<And>r. r \<in> set S \<Longrightarrow> row_step a r (f r)"
      "news = [] \<or> (\<exists>r. news = [r] \<and> fresh_step r \<and> (\<forall>s \<in> set S. step_id s \<noteq> step_id r \<and>
        \<not> (step_run s = step_run r \<and> step_key s = step_key r)))"
    using assms(1) by (auto simp: steps_follow_def)
  have ids: "k (f r) = k r" if "r \<in> set S" "k = step_id" for k :: "step_row \<Rightarrow> str" and r
    using row_step_identity [OF f(2) [OF that(1)]] that(2) by simp
  have pairs: "(step_run (f r), step_key (f r)) = (step_run r, step_key r)" if "r \<in> set S" for r
    using row_step_identity [OF f(2) [OF that]] by simp
  have "keyed step_id (map f S)" "keyed (\<lambda>s. (step_run s, step_key s)) (map f S)"
    using assms(2,3) keyed_map [of S step_id f] keyed_map [of S "\<lambda>s. (step_run s, step_key s)" f]
      ids pairs by auto
  then show ?thesis
    using f(1,3) ids pairs by (auto simp: by_key_None_iff image_iff) metis+
qed

lemma db_step_step_keys: "db_step cd a d d' \<Longrightarrow> step_keys_ok d \<Longrightarrow> step_keys_ok d'"
  using db_step_follows steps_follow_keys by (fastforce simp: step_keys_ok_def)

lemma record_receipt_keys:
  "record_receipt_row cd rid sid key p ts d = Inr (x, d') \<Longrightarrow> keys_ok d \<Longrightarrow> keys_ok d'"
  by (auto simp: record_receipt_row_def Let_def keys_ok_def split: tx_splits)

lemma commit_receipt_keys:
  "commit_receipt cd row arg ts d = Inr (x, d') \<Longrightarrow> keys_ok d \<Longrightarrow> keys_ok d'"
  by (auto simp: commit_receipt_def split: tx_splits dest: record_receipt_keys)

lemma keys_ok_frame:
  "keys_ok d \<Longrightarrow> keys_ok (d\<lparr>steps := S\<rparr>)" "keys_ok d \<Longrightarrow> keys_ok (append_event_row cd rid ty p sid ts d)"
  by (simp_all add: keys_ok_def)

lemma db_step_keys:
  assumes "db_step cd a d d'" and "step_keys_ok d" and "keys_ok d"
  shows "keys_ok d'"
  using assms(1)
proof cases
  case (reclaim now x)
  then show ?thesis
    using reclaim_closed_form [of d cd now] assms(2,3) by (auto simp: keys_ok_def step_keys_ok_def)
next
  case (commit_step sid w out r now now2 x)
  then show ?thesis
    using assms(3) by (auto simp: commit_step_tx_def Let_def split: tx_splits
      intro!: keys_ok_frame dest!: commit_receipt_keys)
next
  case (record_receipt sid k p now x)
  then show ?thesis
    using assms(3) by (auto simp: record_receipt_tx_def Let_def split: tx_splits
      intro!: keys_ok_frame dest!: record_receipt_keys)
next
  case (create_run rq limits rid now x hex)
  then show ?thesis
    using assms(3) by (auto simp: create_run_tx_def insert_run_def Let_def keys_ok_def split: tx_splits)
qed (use assms(3) in \<open>auto simp: other_tx_defs step_tx_defs Let_def keys_ok_def split: tx_splits\<close>)

section \<open>Foreign keys\<close>

text \<open>Every row refers to runs in \<open>R\<close> and steps in \<open>S\<close>.\<close>

definition ref_in :: "str set \<Rightarrow> str option \<Rightarrow> bool" where
  "ref_in S x \<longleftrightarrow> (case x of None \<Rightarrow> True | Some s \<Rightarrow> s \<in> S)"

definition refs :: "str set \<Rightarrow> str set \<Rightarrow> db \<Rightarrow> bool" where
  "refs R S d \<longleftrightarrow>
     (\<forall>r \<in> set (runs d). ref_in R (run_parent r)) \<and>
     (\<forall>k \<in> set (external_keys d). ext_run k \<in> R) \<and>
     (\<forall>s \<in> set (steps d). step_run s \<in> R) \<and>
     (\<forall>e \<in> set (events d). event_run e \<in> R \<and> ref_in S (event_step e)) \<and>
     (\<forall>x \<in> set (receipts d). receipt_run x \<in> R \<and> ref_in S (receipt_step x)) \<and>
     (\<forall>x \<in> set (approvals d). approval_run x \<in> R \<and> ref_in S (approval_step x)) \<and>
     (\<forall>x \<in> set (artifacts d). artifact_run x \<in> R \<and> ref_in S (artifact_step x)) \<and>
     (\<forall>x \<in> set (calls d). call_run x \<in> R \<and> ref_in S (call_step x)) \<and>
     (\<forall>x \<in> set (reservations d). rsv_run x \<in> R)"

definition run_ids :: "db \<Rightarrow> str set" where
  "run_ids d = run_id ` set (runs d)"

definition step_ids :: "db \<Rightarrow> str set" where
  "step_ids d = step_id ` set (steps d)"

definition refs_ok :: "db \<Rightarrow> bool" where
  "refs_ok d \<longleftrightarrow> refs (run_ids d) (step_ids d) d"

lemma ref_in_simps [simp]: "ref_in S None" "ref_in S (Some x) \<longleftrightarrow> x \<in> S"
  by (simp_all add: ref_in_def)

lemma ref_in_mono: "ref_in S x \<Longrightarrow> S \<subseteq> T \<Longrightarrow> ref_in T x"
  by (auto simp: ref_in_def split: option.splits)

lemma refs_mono: "refs R S d \<Longrightarrow> R \<subseteq> R' \<Longrightarrow> S \<subseteq> S' \<Longrightarrow> refs R' S' d"
  unfolding refs_def by (meson ref_in_mono subsetD)

lemma find_run_id: "find_run x d = Some r \<Longrightarrow> x \<in> run_ids d"
  by (auto simp: run_ids_def dest: by_key_SomeD)

lemma find_run_not_None: "find_run x d \<noteq> None \<longleftrightarrow> x \<in> run_ids d"
  by (simp add: run_ids_def by_key_None_iff)

lemma find_step_id: "find_step x d = Some s \<Longrightarrow> x \<in> step_ids d"
  by (auto simp: step_ids_def dest: by_key_SomeD)

lemma refs_find_step: "refs R S d \<Longrightarrow> find_step x d = Some s \<Longrightarrow> step_run s \<in> R"
  by (auto simp: refs_def dest: by_key_SomeD)

lemma refs_find_approval:
  "refs R S d \<Longrightarrow> find_approval x d = Some r \<Longrightarrow> approval_run r \<in> R \<and> ref_in S (approval_step r)"
  by (auto simp: refs_def dest: by_key_SomeD)

lemma refs_find_call:
  "refs R S d \<Longrightarrow> find_call x d = Some r \<Longrightarrow> call_run r \<in> R \<and> ref_in S (call_step r)"
  by (auto simp: refs_def dest: by_key_SomeD)

lemma refs_find_reservation: "refs R S d \<Longrightarrow> find_reservation x d = Some r \<Longrightarrow> rsv_run r \<in> R"
  by (auto simp: refs_def dest: by_key_SomeD)

lemma ready_steps_hd: "ready_steps rid d = r # rs \<Longrightarrow> r \<in> set (steps d) \<and> step_stat r = StepReady"
  using set_order_by [of step_order "filter (\<lambda>r. step_stat r = StepReady \<and>
        (case rid of None \<Rightarrow> True | Some x \<Rightarrow> step_run r = x)) (steps d)"]
  unfolding ready_steps_def by auto

lemma refs_append_event:
  "refs R S d \<Longrightarrow> run \<in> R \<Longrightarrow> ref_in S sid \<Longrightarrow> refs R S (append_event_row cd run ty p sid ts d)"
  by (simp add: refs_def append_event_row_def)

lemma refs_update:
  "refs R S d \<Longrightarrow> (\<And>r. run_parent (f r) = run_parent r) \<Longrightarrow>
     refs R S (d\<lparr>runs := update_where P f (runs d)\<rparr>)"
  "refs R S d \<Longrightarrow> (\<And>r. step_run (g r) = step_run r) \<Longrightarrow>
     refs R S (d\<lparr>steps := update_where Q g (steps d)\<rparr>)"
  "refs R S d \<Longrightarrow> (\<And>r. approval_run (h r) = approval_run r \<and> approval_step (h r) = approval_step r) \<Longrightarrow>
     refs R S (d\<lparr>approvals := update_where P' h (approvals d)\<rparr>)"
  "refs R S d \<Longrightarrow> (\<And>r. call_run (i r) = call_run r \<and> call_step (i r) = call_step r) \<Longrightarrow>
     refs R S (d\<lparr>calls := update_where Q' i (calls d)\<rparr>)"
  "refs R S d \<Longrightarrow> (\<And>r. run_parent (f r) = run_parent r) \<Longrightarrow> (\<And>r. rsv_run (k r) = rsv_run r) \<Longrightarrow>
     refs R S (d\<lparr>runs := update_where P f (runs d),
       reservations := update_where P'' k (reservations d)\<rparr>)"
  by (auto simp: refs_def set_update_where)

lemma refs_snoc:
  "refs R S d \<Longrightarrow> approval_run a \<in> R \<Longrightarrow> ref_in S (approval_step a) \<Longrightarrow>
     refs R S (d\<lparr>approvals := approvals d @ [a]\<rparr>)"
  "refs R S d \<Longrightarrow> artifact_run b \<in> R \<Longrightarrow> ref_in S (artifact_step b) \<Longrightarrow>
     refs R S (d\<lparr>artifacts := artifacts d @ [b]\<rparr>)"
  "refs R S d \<Longrightarrow> call_run c \<in> R \<Longrightarrow> ref_in S (call_step c) \<Longrightarrow>
     refs R S (d\<lparr>calls := calls d @ [c]\<rparr>)"
  "refs R S d \<Longrightarrow> step_run s \<in> R \<Longrightarrow> refs R S (d\<lparr>steps := steps d @ [s]\<rparr>)"
  "refs R S d \<Longrightarrow> (\<And>r. run_parent (f r) = run_parent r) \<Longrightarrow> rsv_run v \<in> R \<Longrightarrow>
     refs R S (d\<lparr>runs := update_where P f (runs d), reservations := reservations d @ [v]\<rparr>)"
  "refs R S d \<Longrightarrow> ref_in R (run_parent r) \<Longrightarrow> (\<And>k. k \<in> set ks \<Longrightarrow> ext_run k \<in> R) \<Longrightarrow>
     refs R S (d\<lparr>runs := runs d @ [r], external_keys := external_keys d @ ks\<rparr>)"
  by (auto simp: refs_def set_update_where)

lemma refs_steps_receipts:
  "refs R S (d\<lparr>receipts := rs\<rparr>) \<Longrightarrow> (\<And>r. step_run (g r) = step_run r) \<Longrightarrow>
     refs R S (d\<lparr>receipts := rs, steps := update_where Q g (steps d)\<rparr>)"
  by (auto simp: refs_def set_update_where)

lemma check_step_ref_in: "check_step_of_run rid sid d = None \<Longrightarrow> ref_in (step_ids d) sid"
  by (auto simp: check_step_of_run_def dest: find_step_id split: option.splits)

lemma refs_record_receipt:
  "record_receipt_row cd rid sid key p ts d = Inr (x, d') \<Longrightarrow> refs R S d \<Longrightarrow> rid \<in> R \<Longrightarrow> ref_in S sid \<Longrightarrow>
   refs R S d'"
  by (auto simp: record_receipt_row_def Let_def refs_def split: tx_splits)

lemma db_step_run_ids:
  assumes "db_step cd a d d'" and "step_keys_ok d"
  shows "run_ids d \<subseteq> run_ids d'"
  using assms(1)
proof cases
  case (reclaim now x)
  then show ?thesis
    using reclaim_closed_form [of d cd now] assms(2) by (auto simp: run_ids_def step_keys_ok_def)
qed (auto simp: other_tx_defs step_tx_defs Let_def run_ids_def split: tx_splits
   dest!: steps_record_receipt_row steps_commit_receipt)

lemma db_step_step_ids:
  assumes "db_step cd a d d'" and "step_keys_ok d"
  shows "step_ids d \<subseteq> step_ids d'"
proof -
  obtain f news where f: "steps d' = map f (steps d) @ news"
      "\<And>r. r \<in> set (steps d) \<Longrightarrow> row_step a r (f r)"
    using db_step_follows [OF assms(1)] assms(2) by (auto simp: step_keys_ok_def steps_follow_def)
  have "step_id r \<in> step_ids d'" if "r \<in> set (steps d)" for r
  proof -
    have "f r \<in> set (steps d')" using f(1) that by simp
    then show ?thesis using row_step_id [OF f(2) [OF that]] unfolding step_ids_def by (metis image_eqI)
  qed
  then show ?thesis by (auto simp: step_ids_def)
qed

lemma insert_run_shape:
  "insert_run cd rq limits rid now d = Inr (x, d') \<Longrightarrow>
   \<exists>ks ev. d' = append_event_row cd rid ''run.created'' ev None now
       (d\<lparr>runs := runs d @ [x], external_keys := external_keys d @ ks\<rparr>) \<and>
     run_id x = rid \<and> run_parent x = rq_parent rq \<and> (\<forall>k \<in> set ks. ext_run k = rid) \<and>
     find_run rid d = None \<and> run_stat x = RunCreated \<and>
     limits_fit limits \<and>
     run_budget x = fresh_budget (call_limit limits) (token_limit limits) (micro_usd_limit limits)
       (map_option stored_wall (wall_seconds_limit limits))"
  unfolding insert_run_def Let_def
  by (rule exI [of _ "case rq_external rq of None \<Rightarrow> [] | Some e \<Rightarrow> [\<lparr>external_key = e, ext_run = rid,
                mode_hash = sha256_hex cd (JStr (rq_mode rq)),
                request_hash = sha256_hex cd (rq_request rq),
                config_hash = sha256_hex cd (rq_config rq),
                budget_hash = budget_identity_hash cd limits,
                ext_parent = rq_parent rq, ext_created = now\<rparr>]"])
     (auto split: if_splits option.splits)

lemma create_run_shape:
  assumes "create_run_tx cd rq limits rid now d = Inr (x, d')"
  shows "(d' = d \<and> x \<in> set (runs d)) \<or>
    (insert_run cd rq limits rid now d = Inr (x, d') \<and> (\<forall>p. rq_parent rq = Some p \<longrightarrow> find_run p d \<noteq> None))"
  using assms by (auto simp: create_run_tx_def Let_def split: tx_splits dest: by_key_SomeD)

lemma commit_step_shape:
  assumes "commit_step_tx cd sid w out arg now now2 d = Inr (x, d')"
  obtains row rcpt d1 ev P g where "find_step sid d = Some row"
    "commit_receipt cd row arg now2 d = Inr (rcpt, d1)" "\<And>r. step_run (g r) = step_run r"
    "d' = append_event_row cd (step_run row) ''step.committed'' ev (Some sid) now2
       (d1\<lparr>steps := update_where P g (steps d1)\<rparr>)"
proof -
  obtain row rcpt d1 where row: "find_step sid d = Some row"
      "commit_receipt cd row arg now2 d = Inr (rcpt, d1)"
    using assms by (auto simp: commit_step_tx_def split: tx_splits)
  show ?thesis
    by (rule that [OF row, where g = "\<lambda>r. r\<lparr>step_stat := StepCommitted,
          step_output := Some (canonical_json cd out), step_error := None, lease_owner := None,
          lease_expires := None, step_updated := now2\<rparr>"])
      (use assms row in \<open>auto simp: commit_step_tx_def Let_def split: if_splits option.splits\<close>)
qed

lemma db_step_refs:
  assumes "db_step cd a d d'" and "step_keys_ok d" and "refs_ok d"
  shows "refs_ok d'"
proof -
  define R S where RS: "R = run_ids d'" "S = step_ids d'"
  have R: "run_ids d \<subseteq> R" and S: "step_ids d \<subseteq> S"
    using db_step_run_ids db_step_step_ids assms(1,2) by (auto simp: RS)
  have old: "refs R S d" using assms(3) R S by (auto simp: refs_ok_def intro: refs_mono)
  have run: "find_run x d = Some r \<Longrightarrow> x \<in> R" "find_run x d \<noteq> None \<Longrightarrow> x \<in> R" for x r
    using R find_run_id find_run_not_None by blast+
  have step: "find_step x d = Some s \<Longrightarrow> x \<in> S" for x s
    using S find_step_id by blast
  have chk: "check_step_of_run rid sid d = None \<Longrightarrow> ref_in S sid" for rid sid
    using S check_step_ref_in ref_in_mono by blast
  have known: "\<forall>s. sid = Some s \<longrightarrow> find_step s d \<noteq> None \<Longrightarrow> ref_in S sid" for sid
    using step by (cases sid) auto
  show ?thesis
    unfolding refs_ok_def RS [symmetric] using assms(1)
  proof cases
    case (reclaim now x)
    obtain evs where evs: "steps d' = update_where (lease_expired now) (reclaimed now) (steps d)"
        "d' = d\<lparr>steps := steps d', events := events d @ evs\<rparr>"
        "\<forall>e \<in> set evs. \<exists>r \<in> set (steps d). event_run e = step_run r \<and> event_step e = Some (step_id r)"
      using reclaim_closed_form [of d cd now] reclaim assms(2) by (auto simp: step_keys_ok_def)
    have "refs R S (d\<lparr>steps := steps d'\<rparr>)"
      unfolding evs(1) by (rule refs_update(2) [OF old]) (simp add: reclaimed_def)
    moreover have "event_run e \<in> R \<and> ref_in S (event_step e)" if e: "e \<in> set evs" for e
    proof -
      obtain r where r: "r \<in> set (steps d)" "event_run e = step_run r" "event_step e = Some (step_id r)"
        using evs(3) e by blast
      then have "step_id r \<in> S" using S by (auto simp: step_ids_def)
      with r old show ?thesis by (simp add: refs_def)
    qed
    ultimately show "refs R S d'" using old by (subst evs(2)) (auto simp: refs_def)
  next
    case (create_run rq limits rid now x hex)
    from create_run_shape [OF create_run(2)] show "refs R S d'"
    proof
      assume ins: "insert_run cd rq limits rid now d = Inr (x, d') \<and>
        (\<forall>p. rq_parent rq = Some p \<longrightarrow> find_run p d \<noteq> None)"
      then obtain ks ev where d': "d' = append_event_row cd rid ''run.created'' ev None now
          (d\<lparr>runs := runs d @ [x], external_keys := external_keys d @ ks\<rparr>)"
        "run_id x = rid" "run_parent x = rq_parent rq" "\<forall>k \<in> set ks. ext_run k = rid"
        using insert_run_shape by blast
      have "rid \<in> R" unfolding RS run_ids_def d'(1) using d'(2) by simp
      moreover have "ref_in R (rq_parent rq)" using ins run(2) by (auto simp: ref_in_def split: option.splits)
      ultimately show ?thesis unfolding d'(1) using old d'(3,4)
        by (intro refs_append_event refs_snoc) auto
    qed (use old in simp)
  next
    case (create_step rid k n i s q now x sv)
    then show "refs R S d'" using old run step RS
      by (auto simp: create_step_tx_def Let_def step_ids_def split: tx_splits
          intro!: refs_append_event refs_snoc)
  next
    case (commit_step sid w out r now now2 x)
    from commit_step(2) show "refs R S d'"
    proof (rule commit_step_shape)
      fix row rcpt d1 ev P and g :: "step_row \<Rightarrow> step_row"
      assume row: "find_step sid d = Some row" "commit_receipt cd row r now2 d = Inr (rcpt, d1)"
        and g: "\<And>r. step_run (g r) = step_run r"
        and d': "d' = append_event_row cd (step_run row) ''step.committed'' ev (Some sid) now2
          (d1\<lparr>steps := update_where P g (steps d1)\<rparr>)"
      have r: "step_run row \<in> R" using refs_find_step [OF old row(1)] .
      have "ref_in S (Some (step_id row))" using step [OF row(1)] by_key_SomeD [OF row(1)] by simp
      then have "refs R S d1" using row(2) old r
        by (auto simp: commit_receipt_def split: tx_splits intro: refs_record_receipt)
      then show ?thesis unfolding d' using step [OF row(1)] r g
        by (intro refs_append_event refs_update) auto
    qed
  next
    case (record_receipt sid k p now x)
    then obtain row d1 where row: "find_step sid d = Some row"
        "record_receipt_row cd (step_run row) (Some sid) k p now d = Inr (x, d1)"
        "d' = d1 \<or> (\<exists>ev. d' = append_event_row cd (step_run row) ''receipt.recorded'' ev (Some sid) now d1)"
      by (auto simp: record_receipt_tx_def Let_def split: tx_splits)
    have r: "step_run row \<in> R" "ref_in S (Some sid)"
      using refs_find_step [OF old row(1)] step [OF row(1)] by simp_all
    have "refs R S d1" using refs_record_receipt [OF row(2) old r] .
    then show "refs R S d'" using row(3) refs_append_event r by blast
  next
    case mark_run_status
    then show "refs R S d'" using old run chk step refs_find_step [OF old]
      by (auto simp: mark_run_status_tx_def Let_def split: tx_splits
          intro!: refs_append_event refs_update refs_snoc)
  next
    case append_event
    then show "refs R S d'" using old run chk step refs_find_step [OF old]
      by (auto simp: append_event_tx_def Let_def split: tx_splits
          intro!: refs_append_event refs_update refs_snoc)
  next
    case (claim w rid now expiry x l now2)
    then consider "d' = d" | row rs ev P g where "ready_steps rid d = row # rs"
        "d' = append_event_row cd (step_run row) ''step.leased'' ev (Some (step_id row)) now
           (d\<lparr>steps := update_where P g (steps d)\<rparr>)" "\<And>r. step_run (g r) = step_run r"
      by (auto simp: claim_ready_step_tx_def Let_def split: if_splits list.splits option.splits)
    then show "refs R S d'"
    proof cases
      case (2 row rs ev P g)
      have row: "row \<in> set (steps d)" using ready_steps_hd [OF 2(1)] by simp
      have "step_run row \<in> R" using old row by (simp add: refs_def)
      moreover have "ref_in S (Some (step_id row))" using S row by (auto simp: step_ids_def)
      ultimately show ?thesis unfolding 2(2) using refs_update(2) [OF old 2(3)] refs_append_event by blast
    qed (use old in simp)
  next
    case mark_executing
    then show "refs R S d'" using old run chk step refs_find_step [OF old]
      by (auto simp: mark_executing_tx_def Let_def split: tx_splits
          intro!: refs_append_event refs_update refs_snoc)
  next
    case heartbeat
    then show "refs R S d'" using old run chk step refs_find_step [OF old]
      by (auto simp: heartbeat_tx_def Let_def split: tx_splits
          intro!: refs_append_event refs_update refs_snoc)
  next
    case fail_step
    then show "refs R S d'" using old run chk step refs_find_step [OF old]
      by (auto simp: finish_owned_step_tx_def Let_def split: tx_splits
          intro!: refs_append_event refs_update refs_snoc)
  next
    case mark_uncertain
    then show "refs R S d'" using old run chk step refs_find_step [OF old]
      by (auto simp: finish_owned_step_tx_def Let_def split: tx_splits
          intro!: refs_append_event refs_update refs_snoc)
  next
    case cancel_step
    then show "refs R S d'" using old run chk step refs_find_step [OF old]
      by (auto simp: cancel_step_tx_def Let_def split: tx_splits
          intro!: refs_append_event refs_update refs_snoc)
  next
    case request_approval
    then show "refs R S d'" using old run chk step refs_find_step [OF old]
      by (auto simp: request_approval_tx_def Let_def split: tx_splits
          intro!: refs_append_event refs_update refs_snoc)
  next
    case decide_approval
    then show "refs R S d'" using old refs_find_approval [OF old]
      by (auto simp: decide_approval_tx_def Let_def split: tx_splits
          intro!: refs_append_event refs_update refs_snoc)
  next
    case record_artifact
    then show "refs R S d'" using old run chk step refs_find_step [OF old]
      by (auto simp: record_artifact_tx_def Let_def split: tx_splits
          intro!: refs_append_event refs_update refs_snoc)
  next
    case start_call
    then show "refs R S d'" using old run known
      by (auto simp: start_provider_call_tx_def Let_def split: tx_splits
          intro!: refs_append_event refs_update refs_snoc)
  next
    case complete_call
    then show "refs R S d'" using old refs_find_call [OF old]
      by (auto simp: complete_provider_call_tx_def Let_def split: tx_splits
          intro!: refs_append_event refs_update refs_snoc)
  next
    case reserve_budget
    then show "refs R S d'" using old run chk step refs_find_step [OF old]
      by (auto simp: reserve_budget_tx_def Let_def split: tx_splits
          intro!: refs_append_event refs_update refs_snoc)
  next
    case settle_budget
    then show "refs R S d'" using old refs_find_reservation [OF old]
      by (auto simp: settle_budget_tx_def Let_def split: tx_splits
          intro!: refs_append_event refs_update refs_snoc)
  qed
qed

end
