(* ===== verification/JournalBudget.thy ===== *)
theory JournalBudget
  imports JournalInvariants
begin

text \<open>
  What a step row says about itself, the conservation of budgets, and the whole invariant of the
  journal with the proof that every operation keeps it.
\<close>

section \<open>Step rows\<close>

definition step_row_ok :: "step_row \<Rightarrow> bool" where
  "step_row_ok r \<longleftrightarrow>
     (if step_stat r \<in> {StepLeased, StepExecuting}
      then (\<exists>w e. lease_owner r = Some w \<and> w \<noteq> [] \<and> lease_expires r = Some e) \<and> 0 < attempts r
      else lease_owner r = None \<and> lease_expires r = None) \<and>
     (step_output r \<noteq> None \<longleftrightarrow> step_stat r = StepCommitted) \<and>
     (step_stat r = StepUncertain \<longrightarrow> uncertainty r \<noteq> None) \<and>
     (uncertainty r \<noteq> None \<longrightarrow> step_stat r \<in> {StepUncertain, StepCancelled}) \<and>
     (step_error r \<noteq> None \<longrightarrow> step_stat r = StepFailed) \<and>
     step_stat r \<noteq> StepCreated \<and> 0 \<le> attempts r"

definition step_rows_ok :: "db \<Rightarrow> bool" where
  "step_rows_ok d \<longleftrightarrow> (\<forall>r \<in> set (steps d). step_row_ok r)"

lemma fresh_step_ok: "fresh_step r \<Longrightarrow> step_row_ok r"
  by (simp add: fresh_step_def step_row_ok_def)

lemma row_step_ok: "row_step a r r' \<Longrightarrow> step_row_ok r \<Longrightarrow> step_row_ok r'"
  by (erule row_step.cases)
    (auto simp: step_row_ok_def reclaimed_def reclaim_target_def reclaim_reason_def
      lease_expired_def check_owner_and_lease_None split: if_splits)

lemma db_step_rows:
  assumes "db_step cd a d d'" and "step_keys_ok d" and "step_rows_ok d"
  shows "step_rows_ok d'"
proof -
  have "steps_follow a (steps d) (steps d')"
    using db_step_follows [OF assms(1)] assms(2) by (simp add: step_keys_ok_def)
  then obtain f news where f: "steps d' = map f (steps d) @ news"
      "\<forall>r \<in> set (steps d). row_step a r (f r)" "\<forall>r \<in> set news. fresh_step r"
    unfolding steps_follow_def by fastforce
  have "step_row_ok (f r)" if "r \<in> set (steps d)" for r
    using row_step_ok [OF bspec [OF f(2) that]] assms(3) that by (simp add: step_rows_ok_def)
  then show ?thesis using fresh_step_ok f(3) by (auto simp: step_rows_ok_def f(1))
qed

section \<open>Budgets\<close>

text \<open>The sums over the reservations of one run: still held, and actually consumed.\<close>

definition outstanding :: "(amounts \<Rightarrow> int) \<Rightarrow> str \<Rightarrow> reservation_row list \<Rightarrow> int" where
  "outstanding f rid vs =
     sum_list (map (\<lambda>v. if rsv_run v = rid \<and> \<not> rsv_settled v then f (rsv_asked v) else 0) vs)"

definition consumed :: "(amounts \<Rightarrow> int) \<Rightarrow> str \<Rightarrow> reservation_row list \<Rightarrow> int" where
  "consumed f rid vs =
     sum_list (map (\<lambda>v. if rsv_run v = rid then (case rsv_actual v of None \<Rightarrow> 0 | Some a \<Rightarrow> f a) else 0) vs)"

text \<open>
  Everything that was ever asked for: as long as it fits 64 bits, no column has overflowed, and
  the columns are the sums.
\<close>

definition asked_total :: "(amounts \<Rightarrow> int) \<Rightarrow> str \<Rightarrow> reservation_row list \<Rightarrow> int" where
  "asked_total f rid vs = sum_list (map (\<lambda>v. if rsv_run v = rid then f (rsv_asked v) else 0) vs)"

definition column_ok :: "(amounts \<Rightarrow> int) \<Rightarrow> reservation_row list \<Rightarrow> str \<Rightarrow> int \<Rightarrow> int \<Rightarrow> bool" where
  "column_ok f vs rid reserved used \<longleftrightarrow> 0 \<le> reserved \<and> 0 \<le> used \<and>
     (asked_total f rid vs < 2 ^ 63 \<longrightarrow> reserved = outstanding f rid vs) \<and>
     (consumed f rid vs < 2 ^ 63 \<longrightarrow> used = consumed f rid vs)"

definition balanced :: "reservation_row list \<Rightarrow> str \<Rightarrow> budget \<Rightarrow> bool" where
  "balanced vs rid b \<longleftrightarrow> limits_fit b \<and>
     column_ok a_calls vs rid (reserved_calls b) (used_calls b) \<and>
     column_ok a_tokens vs rid (reserved_tokens b) (used_tokens b) \<and>
     column_ok a_micro_usd vs rid (reserved_micro_usd b) (used_micro_usd b) \<and>
     0 \<le> reserved_wall_seconds b \<and> 0 \<le> used_wall_seconds b"

definition rsv_ok :: "reservation_row \<Rightarrow> bool" where
  "rsv_ok v \<longleftrightarrow> amounts_valid (rsv_asked v) \<and> (rsv_settled v \<longleftrightarrow> rsv_actual v \<noteq> None) \<and>
     (\<forall>a. rsv_actual v = Some a \<longrightarrow> amounts_valid a) \<and> (rsv_settled v \<longleftrightarrow> rsv_settled_at v \<noteq> None)"

definition budgets_ok :: "db \<Rightarrow> bool" where
  "budgets_ok d \<longleftrightarrow> (\<forall>r \<in> set (runs d). balanced (reservations d) (run_id r) (run_budget r)) \<and>
     (\<forall>v \<in> set (reservations d). rsv_ok v)"

abbreviation accounts :: "db \<Rightarrow> (str \<times> budget) list" where
  "accounts d \<equiv> map (\<lambda>r. (run_id r, run_budget r)) (runs d)"

lemma budgets_ok_accounts:
  "budgets_ok d \<longleftrightarrow> (\<forall>(i, b) \<in> set (accounts d). balanced (reservations d) i b) \<and>
     (\<forall>v \<in> set (reservations d). rsv_ok v)"
  by (auto simp: budgets_ok_def)

lemma outstanding_snoc [simp]: "outstanding f rid (vs @ [v]) =
    outstanding f rid vs + (if rsv_run v = rid \<and> \<not> rsv_settled v then f (rsv_asked v) else 0)"
  by (simp add: outstanding_def)

lemma consumed_snoc [simp]: "consumed f rid (vs @ [v]) =
    consumed f rid vs + (if rsv_run v = rid then (case rsv_actual v of None \<Rightarrow> 0 | Some a \<Rightarrow> f a) else 0)"
  by (simp add: consumed_def)

lemma sum_list_none: "(\<And>v. v \<in> set vs \<Longrightarrow> g v = 0) \<Longrightarrow> sum_list (map g vs) = (0::int)"
  by (induction vs) auto

lemma asked_total_snoc [simp]: "asked_total f rid (vs @ [v]) =
    asked_total f rid vs + (if rsv_run v = rid then f (rsv_asked v) else 0)"
  by (simp add: asked_total_def)

lemma balanced_fresh:
  "(\<And>v. v \<in> set vs \<Longrightarrow> rsv_run v \<noteq> rid) \<Longrightarrow> limits_fit (fresh_budget c t m w) \<Longrightarrow> balanced vs rid (fresh_budget c t m w)"
  by (simp add: balanced_def column_ok_def fresh_budget_def outstanding_def consumed_def sum_list_none)

text \<open>The three integer resources; what is outstanding was asked for, and contains each unsettled reservation.\<close>

abbreviation resources :: "(amounts \<Rightarrow> int) set" where
  "resources \<equiv> {a_calls, a_tokens, a_micro_usd}"

lemma rsv_ok_nonneg:
  assumes "rsv_ok v" and "f \<in> resources"
  shows "0 \<le> f (rsv_asked v)" "rsv_actual v = Some a \<Longrightarrow> 0 \<le> f a"
  using assms by (auto simp: rsv_ok_def amounts_valid_def)

lemma outstanding_bounds:
  assumes "\<forall>v \<in> set vs. rsv_ok v" and "f \<in> resources"
  shows "0 \<le> outstanding f rid vs" "outstanding f rid vs \<le> asked_total f rid vs" "0 \<le> consumed f rid vs"
proof -
  have v: "0 \<le> f (rsv_asked v)" "\<And>a. rsv_actual v = Some a \<Longrightarrow> 0 \<le> f a" if "v \<in> set vs" for v
    using rsv_ok_nonneg [OF bspec [OF assms(1) that] assms(2)] by auto
  show "0 \<le> outstanding f rid vs" "0 \<le> consumed f rid vs"
    unfolding outstanding_def consumed_def by (auto intro!: sum_list_nonneg v split: option.splits)
  show "outstanding f rid vs \<le> asked_total f rid vs"
    unfolding outstanding_def asked_total_def by (rule sum_list_mono) (simp add: v)
qed

lemma outstanding_contains:
  assumes "\<forall>v \<in> set vs. rsv_ok v" and "f \<in> resources" and "v \<in> set vs" "\<not> rsv_settled v"
  shows "f (rsv_asked v) \<le> outstanding f (rsv_run v) vs"
proof -
  have "(if rsv_run v = rsv_run v \<and> \<not> rsv_settled v then f (rsv_asked v) else 0) \<le> outstanding f (rsv_run v) vs"
    unfolding outstanding_def
    by (rule member_le_sum_list) (use assms rsv_ok_nonneg(1) [OF _ assms(2)] in auto)
  then show ?thesis using assms(4) by simp
qed

lemma column_reserve:
  assumes "column_ok f vs rid x y" and "\<forall>v \<in> set vs. rsv_ok v" and "f \<in> resources"
    and "0 \<le> f (rsv_asked v)" "rsv_actual v = None" "\<not> rsv_settled v"
  shows "rsv_run v = rid \<Longrightarrow> column_ok f (vs @ [v]) rid (sql_add x (f (rsv_asked v))) y"
    and "rsv_run v \<noteq> rid \<Longrightarrow> column_ok f (vs @ [v]) rid x y"
  using assms outstanding_bounds [OF assms(2,3), of rid] sql_exact(1) [of x "f (rsv_asked v)"]
  by (auto simp: column_ok_def sql_add_nonneg)

lemma balanced_reserve:
  assumes "balanced vs rid b" and "\<forall>v \<in> set vs. rsv_ok v"
    and "amounts_valid a" and "rsv_asked v = a" "rsv_actual v = None" "\<not> rsv_settled v"
  shows "rsv_run v = rid \<Longrightarrow> balanced (vs @ [v]) rid (reserve_amounts a b)"
    and "rsv_run v \<noteq> rid \<Longrightarrow> balanced (vs @ [v]) rid b"
  using assms column_reserve [of _ vs rid _ _ v]
  by (simp_all add: balanced_def reserve_amounts_def limits_fit_def amounts_valid_def fadd_nonneg)

lemma column_settle:
  assumes c: "column_ok f vs rid x y" and f: "f \<in> resources" and v: "v \<in> set vs" "\<not> rsv_settled v" "rsv_run v = rid"
    and ok: "\<forall>v \<in> set vs. rsv_ok v" "0 \<le> f actual" "0 \<le> sql_sub x (f (rsv_asked v))"
    and vs': "asked_total f rid vs' = asked_total f rid vs" "outstanding f rid vs' = outstanding f rid vs - f (rsv_asked v)"
      "consumed f rid vs' = consumed f rid vs + f actual"
  shows "column_ok f vs' rid (sql_sub x (f (rsv_asked v))) (sql_add y (f actual))"
proof -
  note bounds = outstanding_bounds [OF ok(1) f, of rid] outstanding_contains [OF ok(1) f v(1,2)]
    rsv_ok_nonneg(1) [OF bspec [OF ok(1) v(1)] f]
  show ?thesis
    using c bounds v(3) ok(2,3) sql_exact(1) [of y "f actual"] sql_exact(2) [of "f (rsv_asked v)" x]
    by (auto simp: column_ok_def vs' sql_add_nonneg)
qed

lemma balanced_settle:
  fixes now :: instant
  assumes b: "balanced vs rid b" and k: "keyed rsv_id vs" "by_key rsv_id vid vs = Some v"
    and v: "\<not> rsv_settled v" "rsv_actual v = None" and ok: "amounts_valid actual" "\<forall>v \<in> set vs. rsv_ok v"
  defines "vs' \<equiv> update_where (\<lambda>s. rsv_id s = vid \<and> \<not> rsv_settled s)
     (\<lambda>s. s\<lparr>rsv_actual := Some actual, rsv_settled := True, rsv_settled_at := Some now\<rparr>) vs"
  shows "rsv_run v = rid \<Longrightarrow> budget_check (settle_amounts (rsv_asked v) actual b) \<Longrightarrow>
      balanced vs' rid (settle_amounts (rsv_asked v) actual b)"
    and "rsv_run v \<noteq> rid \<Longrightarrow> balanced vs' rid b"
proof -
  have vs': "vs' = update_where (\<lambda>s. rsv_id s = vid)
     (\<lambda>s. s\<lparr>rsv_actual := Some actual, rsv_settled := True, rsv_settled_at := Some now\<rparr>) vs"
    unfolding vs'_def by (rule update_where_key_cond [OF k]) (use v in simp)
  have out: "outstanding f rid vs' = outstanding f rid vs - (if rsv_run v = rid then f (rsv_asked v) else 0)"
    and use: "consumed f rid vs' = consumed f rid vs + (if rsv_run v = rid then f actual else 0)"
    and ask: "asked_total f rid vs' = asked_total f rid vs" for f rid
    unfolding outstanding_def consumed_def asked_total_def vs' using v by (simp_all add: sum_list_update_key [OF k])
  have mem: "v \<in> set vs" using by_key_SomeD [OF k(2)] by simp
  show "balanced vs' rid (settle_amounts (rsv_asked v) actual b)"
    if r: "rsv_run v = rid" "budget_check (settle_amounts (rsv_asked v) actual b)"
  proof -
    have "column_ok f vs' rid (sql_sub x (f (rsv_asked v))) (sql_add y (f actual))"
      if "column_ok f vs rid x y" "f \<in> resources" "0 \<le> f actual" "0 \<le> sql_sub x (f (rsv_asked v))" for f x y
      using column_settle [OF that(1,2) mem v(1) r(1) ok(2) that(3,4) ask] out [of f rid] use [of f rid] r(1) by simp
    then show ?thesis
      using b ok(1) r(2) by (simp add: balanced_def limits_fit_def settle_amounts_def budget_check_def amounts_valid_def fadd_nonneg)
  qed
  show "rsv_run v \<noteq> rid \<Longrightarrow> balanced vs' rid b"
    using b by (simp add: balanced_def column_ok_def out use ask)
qed

lemma budgets_okI:
  assumes "runs d' = update_where (\<lambda>r. run_id r = rid) g R" and "\<And>r. run_id (g r) = run_id r"
    and "\<And>r. r \<in> set R \<Longrightarrow> balanced (reservations d') (run_id r)
           (if run_id r = rid then run_budget (g r) else run_budget r)"
    and "\<And>v. v \<in> set (reservations d') \<Longrightarrow> rsv_ok v"
  shows "budgets_ok d'"
proof -
  have "balanced (reservations d') (run_id r') (run_budget r')" if r': "r' \<in> set (runs d')" for r'
  proof -
    obtain r where "r \<in> set R" "r' = (if run_id r = rid then g r else r)"
      using r' by (auto simp: assms(1) set_update_where)
    then show ?thesis using assms(3) [of r] by (simp add: assms(2) split: if_splits)
  qed
  then show ?thesis using assms(4) by (simp add: budgets_ok_def)
qed

lemma db_step_budgets_reserve:
  assumes "reserve_budget_tx cd rid a vid now d = Inr (x, d')" and "amounts_valid a" and "budgets_ok d"
  shows "budgets_ok d'"
proof (cases "find_reservation vid d")
  case (Some v)
  then show ?thesis using assms by (auto simp: reserve_budget_tx_def split: if_splits)
next
  case None
  define v where "v = \<lparr>rsv_id = vid, rsv_run = rid, rsv_asked = a, rsv_actual = None,
     rsv_settled = False, rsv_created = now, rsv_settled_at = None\<rparr>"
  have d': "runs d' = update_where (\<lambda>r. run_id r = rid)
      (\<lambda>r. r\<lparr>run_budget := reserve_amounts a (run_budget r), run_updated := now\<rparr>) (runs d)"
    "reservations d' = reservations d @ [v]"
    using assms(1) None by (auto simp: reserve_budget_tx_def v_def split: if_splits option.splits)
  have v: "rsv_ok v" using assms(2) by (simp add: v_def rsv_ok_def)
  have bal: "balanced (reservations d @ [v]) (run_id r)
      (if run_id r = rid then reserve_amounts a (run_budget r) else run_budget r)" if "r \<in> set (runs d)" for r
    using balanced_reserve [of "reservations d" "run_id r" "run_budget r" a v] assms(2,3) that
    by (auto simp: budgets_ok_def v_def)
  show ?thesis
  proof (rule budgets_okI [OF d'(1)])
    show "balanced (reservations d') (run_id r) (if run_id r = rid
        then run_budget (r\<lparr>run_budget := reserve_amounts a (run_budget r), run_updated := now\<rparr>)
        else run_budget r)" if "r \<in> set (runs d)" for r
      using bal [OF that] by (simp add: d'(2) cong: if_cong)
  qed (use v assms(3) in \<open>auto simp: budgets_ok_def d'(2)\<close>)
qed

lemma db_step_budgets_settle:
  assumes "settle_budget_tx cd rid vid actual now d = Inr (x, d')" and "amounts_valid actual"
    and "budgets_ok d" and "keys_ok d"
  shows "budgets_ok d'"
proof -
  obtain v where v: "find_reservation vid d = Some v" "rsv_run v = rid"
    using assms(1) by (auto simp: settle_budget_tx_def split: if_splits option.splits)
  show ?thesis
  proof (cases "rsv_settled v")
    case True
    then show ?thesis using assms v by (auto simp: settle_budget_tx_def split: if_splits option.splits)
  next
    case False
    let ?settle = "\<lambda>s. s\<lparr>rsv_actual := Some actual, rsv_settled := True, rsv_settled_at := Some now\<rparr>"
    have chk: "\<forall>r \<in> set (runs d). run_id r = rid \<longrightarrow>
         budget_check (settle_amounts (rsv_asked v) actual (run_budget r))"
      and d': "runs d' = update_where (\<lambda>r. run_id r = rid)
        (\<lambda>r. r\<lparr>run_budget := settle_amounts (rsv_asked v) actual (run_budget r), run_updated := now\<rparr>) (runs d)"
      "reservations d' = update_where (\<lambda>s. rsv_id s = vid \<and> \<not> rsv_settled s) ?settle (reservations d)"
      using assms(1) v False by (auto simp: settle_budget_tx_def Let_def split: if_splits option.splits)
    have ok: "rsv_ok v" and k: "keyed rsv_id (reservations d)"
      using assms(3,4) by_key_SomeD [OF v(1)] by (auto simp: budgets_ok_def keys_ok_def)
    have none: "rsv_actual v = None" using ok False by (simp add: rsv_ok_def)
    have bal: "balanced (reservations d') (run_id r)
       (if run_id r = rid then settle_amounts (rsv_asked v) actual (run_budget r) else run_budget r)"
      if r: "r \<in> set (runs d)" for r
    proof -
      have "balanced (reservations d) (run_id r) (run_budget r)"
        using assms(3) r by (simp add: budgets_ok_def)
      from balanced_settle [OF this k v(1) False none assms(2)] show ?thesis
        unfolding d'(2) using chk v(2) r assms(3) by (auto simp: budgets_ok_def)
    qed
    have settled: "rsv_ok (?settle s)" if "s \<in> set (reservations d)" for s
      using assms(2,3) that by (simp add: budgets_ok_def rsv_ok_def)
    show ?thesis
    proof (rule budgets_okI [OF d'(1)])
      show "balanced (reservations d') (run_id r) (if run_id r = rid
          then run_budget (r\<lparr>run_budget := settle_amounts (rsv_asked v) actual (run_budget r),
            run_updated := now\<rparr>) else run_budget r)" if "r \<in> set (runs d)" for r
        using bal [OF that] by (simp cong: if_cong)
    qed (use settled assms(3) in \<open>auto simp: budgets_ok_def d'(2) set_update_where\<close>)
  qed
qed

lemma db_step_budgets_create:
  assumes "create_run_tx cd rq limits rid now d = Inr (x, d')" and "budgets_ok d" and "refs_ok d"
  shows "budgets_ok d'"
  using create_run_shape [OF assms(1)]
proof
  assume ins: "insert_run cd rq limits rid now d = Inr (x, d') \<and>
    (\<forall>p. rq_parent rq = Some p \<longrightarrow> find_run p d \<noteq> None)"
  then obtain ks ev where d': "d' = append_event_row cd rid ''run.created'' ev None now
      (d\<lparr>runs := runs d @ [x], external_keys := external_keys d @ ks\<rparr>)"
      "run_id x = rid" "find_run rid d = None"
      "limits_fit limits"
      "run_budget x = fresh_budget (call_limit limits) (token_limit limits) (micro_usd_limit limits)
       (map_option stored_wall (wall_seconds_limit limits))"
    using insert_run_shape by blast
  have "rsv_run v \<noteq> rid" if "v \<in> set (reservations d)" for v
  proof -
    have "rsv_run v \<in> run_ids d" using assms(3) that by (simp add: refs_ok_def refs_def)
    then show ?thesis using d'(3) by (auto simp: run_ids_def by_key_None_iff)
  qed
  then show ?thesis using assms(2) d' by (auto simp: budgets_ok_def limits_fit_def fresh_budget_def intro!: balanced_fresh [unfolded fresh_budget_def])
qed (use assms in simp)

lemma budgets_frame:
  assumes "accounts d' = accounts d \<and> reservations d' = reservations d" and "budgets_ok d"
  shows "budgets_ok d'"
  using assms by (simp add: budgets_ok_accounts)

lemma db_step_accounts:
  assumes "db_step cd a d d'"
    and "\<And>rq hex now. a \<noteq> CreateRun rq hex now" "\<And>now. a \<noteq> ReclaimExpired now"
    "\<And>rid x v hex now. a \<noteq> ReserveBudget rid x v hex now" "\<And>rid v x now. a \<noteq> SettleBudget rid v x now"
  shows "accounts d' = accounts d \<and> reservations d' = reservations d"
  using assms(1)
  by cases
    (use assms(2-) in \<open>auto simp: other_tx_defs step_tx_defs Let_def split: tx_splits
      dest!: steps_record_receipt_row steps_commit_receipt\<close>)

lemma db_step_budgets:
  assumes "db_step cd a d d'" and "step_keys_ok d" and "keys_ok d" and "refs_ok d" and "budgets_ok d"
  shows "budgets_ok d'"
  using assms(1)
proof cases
  case create_run
  then show ?thesis using assms db_step_budgets_create by blast
next
  case reserve_budget
  then show ?thesis using assms db_step_budgets_reserve by blast
next
  case settle_budget
  then show ?thesis using assms db_step_budgets_settle by blast
next
  case (reclaim now x)
  then show ?thesis
    using reclaim_closed_form [of d cd now] assms(2,5) by (auto simp: budgets_ok_def step_keys_ok_def)
qed (use assms(5) in \<open>simp_all add: budgets_frame [OF db_step_accounts [OF assms(1)]]\<close>)

section \<open>The invariant of the journal\<close>

definition db_ok :: "db \<Rightarrow> bool" where
  "db_ok d \<longleftrightarrow> events_numbered (events d) \<and> step_keys_ok d \<and> keys_ok d \<and> refs_ok d \<and>
     step_rows_ok d \<and> budgets_ok d"

definition journal_ok :: "journal \<Rightarrow> bool" where
  "journal_ok j \<longleftrightarrow> db_ok (database j)"

lemma db_okD:
  assumes "db_ok d"
  shows "events_numbered (events d)" "step_keys_ok d" "keys_ok d" "refs_ok d" "step_rows_ok d"
    "budgets_ok d" "keyed step_id (steps d)"
  using assms by (simp_all add: db_ok_def step_keys_ok_def)

lemma db_step_ok:
  assumes s: "db_step cd a d d'" and ok: "db_ok d"
  shows "db_ok d'"
proof -
  note k = db_okD [OF ok]
  show ?thesis unfolding db_ok_def
    using events_grow_numbered [OF k(1) db_step_events [OF s k(7)]] db_step_step_keys [OF s k(2)]
      db_step_keys [OF s k(2,3)] db_step_refs [OF s k(2,4)] db_step_rows [OF s k(2,5)]
      db_step_budgets [OF s k(2,3,4,6)] by blast
qed

lemma empty_db_ok: "db_ok empty_db"
  by (simp add: db_ok_def empty_db_def events_numbered_def step_keys_ok_def keys_ok_def refs_ok_def
      refs_def step_rows_ok_def budgets_ok_def)

lemma new_journal_ok: "journal_ok new_journal"
  by (simp add: journal_ok_def new_journal_def empty_db_ok)

lemma exec_journal_ok: "journal_ok j \<Longrightarrow> journal_ok (exec cd a j)"
  using exec_journal_step [of cd a j] db_step_ok
  by (auto simp: journal_step_def journal_ok_def close_journal_def)

interpretation journal_machine: machine "exec cd" journal_ok for cd
  by unfold_locales (rule exec_journal_ok)

end
