(* ===== verification/JournalContracts.thy ===== *)
theory JournalContracts
  imports JournalBudget
begin

text \<open>
  The journal as a provider of the contracts: what one committed transaction does to a row of each
  table, and the interpretations of the shared locales on \<open>exec\<close> that follow.
\<close>

section \<open>One transaction, one row\<close>

lemma exec_cases [consumes 1]:
  assumes "journal_ok j"
  obtains "database (exec cd a j) = database j"
  | "db_step cd a (database j) (database (exec cd a j))" "db_ok (database j)"
  using exec_journal_step [of cd a j] assms
  by (auto simp: journal_step_def journal_ok_def close_journal_def)

text \<open>Runs keep their identity, and their status follows the transition table.\<close>

definition run_follows :: "run_row \<Rightarrow> run_row \<Rightarrow> bool" where
  "run_follows r r' \<longleftrightarrow>
     run_mode r' = run_mode r \<and> run_request r' = run_request r \<and> run_config r' = run_config r \<and>
     run_parent r' = run_parent r \<and> run_created r' = run_created r \<and>
     (run_stat r' = run_stat r \<or> run_stat r' \<in> set (run_transitions (run_stat r)))"

lemma run_follows_refl [simp]: "run_follows r r"
  by (simp add: run_follows_def)

lemma db_step_find_run:
  assumes "db_step cd a d d'" and "db_ok d" and "find_run i d = Some r"
  shows "\<exists>r'. find_run i d' = Some r' \<and> run_follows r r'"
  using assms(1)
proof cases
  case (reclaim now x)
  then show ?thesis using reclaim_closed_form [of d cd now] db_okD [OF assms(2)] assms(3) by auto
qed (use assms(3) in \<open>auto simp: other_tx_defs step_tx_defs Let_def table_simps run_follows_def
   split: tx_splits dest!: steps_record_receipt_row steps_commit_receipt\<close>)

lemma db_step_find_step:
  assumes "db_step cd a d d'" and "db_ok d" and "find_step i d = Some r"
  shows "\<exists>r'. find_step i d' = Some r' \<and> row_step a r r'"
proof -
  obtain f news where f: "steps d' = map f (steps d) @ news"
      "\<forall>r \<in> set (steps d). row_step a r (f r)"
    using db_step_follows [OF assms(1) db_okD(7) [OF assms(2)]] by (auto simp: steps_follow_def)
  have "by_key step_id i (map f (steps d)) = map_option f (find_step i d)"
    by (rule by_key_map) (use f(2) row_step_id in blast)
  then show ?thesis using assms(3) f by (auto simp: by_key_append dest: by_key_SomeD)
qed

lemma db_step_new_step:
  assumes "db_step cd a d d'" and "db_ok d" and "find_step i d = None" and "find_step i d' = Some r"
  shows "fresh_step r"
proof -
  obtain f news where f: "steps d' = map f (steps d) @ news"
      "\<forall>r \<in> set (steps d). row_step a r (f r)" "news = [] \<or> (\<exists>r. news = [r] \<and> fresh_step r)"
    using db_step_follows [OF assms(1) db_okD(7) [OF assms(2)]] by (auto simp: steps_follow_def)
  have "by_key step_id i (map f (steps d)) = map_option f (find_step i d)"
    by (rule by_key_map) (use f(2) row_step_id in blast)
  then show ?thesis using assms(3,4) f by (auto simp: by_key_append split: if_splits)
qed

text \<open>Rows that no transaction rewrites, and rows that a transaction rewrites once.\<close>

lemma record_receipt_find:
  "record_receipt_row cd rid sid key p ts d = Inr (x, d') \<Longrightarrow> by_key idem_key i (receipts d) = Some r \<Longrightarrow>
   by_key idem_key i (receipts d') = Some r"
  by (auto simp: record_receipt_row_def Let_def table_simps split: tx_splits)

lemma commit_receipt_find:
  "commit_receipt cd row arg ts d = Inr (x, d') \<Longrightarrow> by_key idem_key i (receipts d) = Some r \<Longrightarrow>
   by_key idem_key i (receipts d') = Some r"
  by (auto simp: commit_receipt_def dest: record_receipt_find split: tx_splits)

lemma db_step_find_receipt:
  assumes "db_step cd a d d'" and "db_ok d" and "by_key idem_key i (receipts d) = Some r"
  shows "by_key idem_key i (receipts d') = Some r"
  using assms(1)
proof cases
  case (reclaim now x)
  then show ?thesis using reclaim_closed_form [of d cd now] db_okD [OF assms(2)] assms(3) by auto
next
  case (commit_step sid w out rc now now2 x)
  then show ?thesis
    by (rule_tac commit_step_shape [OF commit_step(2)]) (use assms(3) commit_receipt_find in auto)
next
  case (record_receipt sid k p now x)
  then show ?thesis using assms(3)
    by (auto simp: record_receipt_tx_def Let_def split: tx_splits dest: record_receipt_find)
qed (use assms(3) in \<open>auto simp: create_run_tx_def insert_run_def mark_run_status_tx_def append_event_tx_def
   request_approval_tx_def decide_approval_tx_def record_artifact_tx_def start_provider_call_tx_def
   complete_provider_call_tx_def reserve_budget_tx_def settle_budget_tx_def create_step_tx_def
   claim_ready_step_tx_def mark_executing_tx_def heartbeat_tx_def finish_owned_step_tx_def
   cancel_step_tx_def Let_def split: tx_splits\<close>)

lemma db_step_find_key:
  assumes "db_step cd a d d'" and "db_ok d" and "by_key external_key i (external_keys d) = Some r"
  shows "by_key external_key i (external_keys d') = Some r"
  using assms(1)
proof cases
  case (reclaim now x)
  then show ?thesis using reclaim_closed_form [of d cd now] db_okD [OF assms(2)] assms(3) by auto
qed (use assms(3) in \<open>auto simp: other_tx_defs step_tx_defs Let_def table_simps
   split: tx_splits dest!: steps_record_receipt_row steps_commit_receipt\<close>)

lemma db_step_find_approval:
  assumes "db_step cd a d d'" and "db_ok d" and "find_approval i d = Some r" and "approval_stat r \<noteq> Pending"
  shows "find_approval i d' = Some r"
  using assms(1)
proof cases
  case (reclaim now x)
  then show ?thesis using reclaim_closed_form [of d cd now] db_okD [OF assms(2)] assms(3) by auto
qed (use assms(3,4) in \<open>auto simp: other_tx_defs step_tx_defs Let_def table_simps
   split: tx_splits dest!: steps_record_receipt_row steps_commit_receipt\<close>)

lemma db_step_find_call:
  assumes "db_step cd a d d'" and "db_ok d" and "find_call i d = Some r" and "call_stat r \<noteq> CallStarted"
  shows "find_call i d' = Some r"
  using assms(1)
proof cases
  case (reclaim now x)
  then show ?thesis using reclaim_closed_form [of d cd now] db_okD [OF assms(2)] assms(3) by auto
qed (use assms(3,4) in \<open>auto simp: other_tx_defs step_tx_defs Let_def table_simps
   split: tx_splits dest!: steps_record_receipt_row steps_commit_receipt\<close>)

lemma db_step_find_reservation:
  assumes "db_step cd a d d'" and "db_ok d" and "find_reservation i d = Some r" and "rsv_settled r"
  shows "find_reservation i d' = Some r"
  using assms(1)
proof cases
  case (reclaim now x)
  then show ?thesis using reclaim_closed_form [of d cd now] db_okD [OF assms(2)] assms(3) by auto
qed (use assms(3,4) in \<open>auto simp: other_tx_defs step_tx_defs Let_def table_simps
   split: tx_splits dest!: steps_record_receipt_row steps_commit_receipt\<close>)

section \<open>The event log\<close>

interpretation journal_log: append_only "exec cd" journal_ok "\<lambda>j. events (database j)" for cd
proof unfold_locales
  fix j a
  assume "journal_ok j"
  then show "\<exists>es. events (database (exec cd a j)) = events (database j) @ es"
  proof (cases rule: exec_cases [where cd = cd and a = a])
    case 2
    show ?thesis using db_step_events [OF 2(1) db_okD(7) [OF 2(2)]] by (auto simp: events_grow_def)
  qed simp
qed

section \<open>Life cycles\<close>

definition run_status_of :: "journal \<Rightarrow> str \<Rightarrow> run_status option" where
  "run_status_of j i = map_option run_stat (find_run i (database j))"

definition step_status_of :: "journal \<Rightarrow> str \<Rightarrow> step_status option" where
  "step_status_of j i = map_option step_stat (find_step i (database j))"

abbreviation run_edge :: "run_status \<Rightarrow> run_status \<Rightarrow> bool" where
  "run_edge x y \<equiv> y \<in> set (run_transitions x)"

text \<open>The transitions of a step that the operations of the journal perform.\<close>

fun step_transitions :: "step_status \<Rightarrow> step_status list" where
  "step_transitions StepCreated = [StepCancelled]"
| "step_transitions StepReady = [StepLeased, StepCancelled]"
| "step_transitions StepLeased = [StepExecuting, StepReady, StepUncertain, StepFailed, StepCancelled]"
| "step_transitions StepExecuting =
     [StepCommitted, StepReady, StepUncertain, StepFailed, StepCancelled]"
| "step_transitions StepUncertain = [StepCancelled]"
| "step_transitions StepCommitted = []"
| "step_transitions StepFailed = []"
| "step_transitions StepCancelled = []"

abbreviation step_edge :: "step_status \<Rightarrow> step_status \<Rightarrow> bool" where
  "step_edge x y \<equiv> y \<in> set (step_transitions x)"

lemma row_step_edge: "row_step a r r' \<Longrightarrow> step_stat r = step_stat r' \<or> step_edge (step_stat r) (step_stat r')"
  by (erule row_step.cases)
    (auto simp: reclaimed_def reclaim_target_def lease_expired_def)

interpretation run_cycle: lifecycle "exec cd" journal_ok run_status_of run_edge for cd
proof unfold_locales
  fix j i x a
  assume "journal_ok j" "run_status_of j i = Some x"
  then show "\<exists>y. run_status_of (exec cd a j) i = Some y \<and> (x = y \<or> run_edge x y)"
    by (cases rule: exec_cases [where cd = cd and a = a])
      (auto simp: run_status_of_def run_follows_def dest!: db_step_find_run)
qed

interpretation step_cycle: lifecycle "exec cd" journal_ok step_status_of step_edge for cd
proof unfold_locales
  fix j i x a
  assume "journal_ok j" "step_status_of j i = Some x"
  then show "\<exists>y. step_status_of (exec cd a j) i = Some y \<and> (x = y \<or> step_edge x y)"
    by (cases rule: exec_cases [where cd = cd and a = a])
      (auto simp: step_status_of_def dest!: db_step_find_step row_step_edge)
qed

section \<open>Records that freeze\<close>

definition step_closed :: "step_row \<Rightarrow> bool" where
  "step_closed r \<longleftrightarrow> step_stat r \<in> {StepCommitted, StepFailed, StepCancelled}"

lemma row_step_closed: "row_step a r r' \<Longrightarrow> step_closed r \<Longrightarrow> r' = r"
  by (erule row_step.cases) (auto simp: step_closed_def lease_expired_def)

interpretation closed_steps: freezing "exec cd" journal_ok "\<lambda>j i. find_step i (database j)" step_closed for cd
proof unfold_locales
  fix j i r a
  assume "journal_ok j" "find_step i (database j) = Some r" "step_closed r"
  then show "find_step i (database (exec cd a j)) = Some r"
    by (cases rule: exec_cases [where cd = cd and a = a])
      (auto dest!: db_step_find_step row_step_closed)
qed

text \<open>A step never changes its run.\<close>

interpretation step_owner: freezing "exec cd" journal_ok
  "\<lambda>j i. map_option step_run (find_step i (database j))" "\<lambda>r. True" for cd
proof unfold_locales
  fix j i r a
  assume "journal_ok j" "map_option step_run (find_step i (database j)) = Some r"
  then show "map_option step_run (find_step i (database (exec cd a j))) = Some r"
    by (cases rule: exec_cases [where cd = cd and a = a])
      (auto dest!: db_step_find_step row_step_identity)
qed

interpretation receipt_store: freezing "exec cd" journal_ok
  "\<lambda>j i. by_key idem_key i (receipts (database j))" "\<lambda>r. True" for cd
proof unfold_locales
  fix j i r a
  assume "journal_ok j" "by_key idem_key i (receipts (database j)) = Some r"
  then show "by_key idem_key i (receipts (database (exec cd a j))) = Some r"
    by (cases rule: exec_cases [where cd = cd and a = a]) (auto dest: db_step_find_receipt)
qed

interpretation key_store: freezing "exec cd" journal_ok
  "\<lambda>j i. by_key external_key i (external_keys (database j))" "\<lambda>r. True" for cd
proof unfold_locales
  fix j i r a
  assume "journal_ok j" "by_key external_key i (external_keys (database j)) = Some r"
  then show "by_key external_key i (external_keys (database (exec cd a j))) = Some r"
    by (cases rule: exec_cases [where cd = cd and a = a]) (auto dest: db_step_find_key)
qed

interpretation decided_approvals: freezing "exec cd" journal_ok
  "\<lambda>j i. find_approval i (database j)" "\<lambda>r. approval_stat r \<noteq> Pending" for cd
proof unfold_locales
  fix j i r a
  assume "journal_ok j" "find_approval i (database j) = Some r" "approval_stat r \<noteq> Pending"
  then show "find_approval i (database (exec cd a j)) = Some r"
    by (cases rule: exec_cases [where cd = cd and a = a]) (auto dest: db_step_find_approval)
qed

interpretation finished_calls: freezing "exec cd" journal_ok
  "\<lambda>j i. find_call i (database j)" "\<lambda>r. call_stat r \<noteq> CallStarted" for cd
proof unfold_locales
  fix j i r a
  assume "journal_ok j" "find_call i (database j) = Some r" "call_stat r \<noteq> CallStarted"
  then show "find_call i (database (exec cd a j)) = Some r"
    by (cases rule: exec_cases [where cd = cd and a = a]) (auto dest: db_step_find_call)
qed

interpretation settled_reservations: freezing "exec cd" journal_ok
  "\<lambda>j i. find_reservation i (database j)" rsv_settled for cd
proof unfold_locales
  fix j i r a
  assume "journal_ok j" "find_reservation i (database j) = Some r" "rsv_settled r"
  then show "find_reservation i (database (exec cd a j)) = Some r"
    by (cases rule: exec_cases [where cd = cd and a = a]) (auto dest: db_step_find_reservation)
qed

section \<open>Leases\<close>

definition lease_of :: "step_row \<Rightarrow> (str \<times> instant) option" where
  "lease_of r = (case (lease_owner r, lease_expires r) of (Some w, Some e) \<Rightarrow> Some (w, e) | _ \<Rightarrow> None)"

definition step_lease :: "journal \<Rightarrow> str \<Rightarrow> (str \<times> instant) option" where
  "step_lease j i = (case find_step i (database j) of None \<Rightarrow> None | Some r \<Rightarrow> lease_of r)"

text \<open>
  The calls that may end or renew the lease of worker \<open>w\<close> on step \<open>i\<close> until \<open>e\<close>: calls made in
  the name of \<open>w\<close> whose clock still shows a time before \<open>e\<close>, and a recovery from \<open>e\<close> on.
\<close>

fun releases_lease :: "journal_op \<Rightarrow> str \<Rightarrow> str \<Rightarrow> instant \<Rightarrow> bool" where
  "releases_lease (Heartbeat sid v l now now2 now3) i w e \<longleftrightarrow> sid = i \<and> v = w \<and> now < e"
| "releases_lease (CommitStep sid v out r now now2) i w e \<longleftrightarrow> sid = i \<and> v = w \<and> now < e"
| "releases_lease (FailStep sid v msg now now2) i w e \<longleftrightarrow> sid = i \<and> v = w \<and> now < e"
| "releases_lease (MarkUncertain sid v why now now2) i w e \<longleftrightarrow> sid = i \<and> v = w \<and> now < e"
| "releases_lease (CancelStep sid v now now2) i w e \<longleftrightarrow> sid = i \<and> v = Some w \<and> now < e"
| "releases_lease (ReclaimExpired now) i w e \<longleftrightarrow> e \<le> now"
| "releases_lease _ i w e \<longleftrightarrow> False"

fun asks_for_work :: "journal_op \<Rightarrow> str \<Rightarrow> bool" where
  "asks_for_work (ClaimReadyStep v l rid now now2) w \<longleftrightarrow> v = w"
| "asks_for_work _ w \<longleftrightarrow> False"

lemma row_step_lease:
  "row_step a r r' \<Longrightarrow> step_row_ok r \<Longrightarrow> lease_of r = Some (w, e) \<Longrightarrow>
   \<not> releases_lease a (step_id r) w e \<Longrightarrow> lease_of r' = Some (w, e)"
  by (erule row_step.cases)
    (auto simp: lease_of_def step_row_ok_def lease_expired_def check_owner_and_lease_None split: option.splits)

lemma row_step_acquire:
  "row_step a r r' \<Longrightarrow> step_row_ok r \<Longrightarrow> lease_of r = None \<Longrightarrow> lease_of r' = Some (w, e) \<Longrightarrow>
   asks_for_work a w"
  by (erule row_step.cases)
    (auto simp: lease_of_def step_row_ok_def reclaimed_def check_owner_and_lease_None split: option.splits)

lemma find_step_row_ok: "db_ok d \<Longrightarrow> find_step i d = Some r \<Longrightarrow> step_row_ok r \<and> step_id r = i"
  using by_key_SomeD [of step_id i "steps d" r] by (auto simp: db_ok_def step_rows_ok_def)

interpretation step_leases: lease_protocol "exec cd" journal_ok step_lease releases_lease asks_for_work for cd
proof unfold_locales
  fix j i w e a
  assume ok: "journal_ok j" and hold: "step_lease j i = Some (w, e)" and no: "\<not> releases_lease a i w e"
  obtain r where r: "find_step i (database j) = Some r" "lease_of r = Some (w, e)"
    using hold by (auto simp: step_lease_def split: option.splits)
  show "step_lease (exec cd a j) i = Some (w, e)"
    using ok
  proof (cases rule: exec_cases [where cd = cd and a = a])
    case 2
    obtain r' where r': "find_step i (database (exec cd a j)) = Some r'" "row_step a r r'"
      using db_step_find_step [OF 2 r(1)] by blast
    have "lease_of r' = Some (w, e)"
      using row_step_lease [OF r'(2) _ r(2)] find_step_row_ok [OF 2(2) r(1)] no by simp
    then show ?thesis by (simp add: step_lease_def r'(1))
  qed (use hold in \<open>simp add: step_lease_def\<close>)
next
  fix j i w e a
  assume ok: "journal_ok j" and free: "step_lease j i = None" and hold: "step_lease (exec cd a j) i = Some (w, e)"
  show "asks_for_work a w"
    using ok
  proof (cases rule: exec_cases [where cd = cd and a = a])
    case 2
    obtain r' where r': "find_step i (database (exec cd a j)) = Some r'" "lease_of r' = Some (w, e)"
      using hold by (auto simp: step_lease_def split: option.splits)
    show ?thesis
    proof (cases "find_step i (database j)")
      case None
      then show ?thesis using db_step_new_step [OF 2 _ r'(1)] r'(2) by (simp add: fresh_step_def lease_of_def)
    next
      case (Some r)
      then have "row_step a r r'" using db_step_find_step [OF 2 Some] r'(1) by auto
      then show ?thesis
        using row_step_acquire r'(2) find_step_row_ok [OF 2(2) Some] free Some by (simp add: step_lease_def)
    qed
  qed (use free hold in \<open>simp add: step_lease_def\<close>)
qed

section \<open>Attempts at unsafe steps\<close>

text \<open>A step that is not safe to repeat is attempted at most once.\<close>

definition repeatable :: "safety_class \<Rightarrow> bool" where
  "repeatable s \<longleftrightarrow> s \<in> {ReadOnly, Idempotent}"

definition single_attempt :: "step_row \<Rightarrow> bool" where
  "single_attempt r \<longleftrightarrow> repeatable (step_safety r) \<or> attempts r = (if step_stat r = StepReady then 0 else 1) \<or>
     (step_stat r = StepCancelled \<and> attempts r = 0)"

lemma row_step_single: "row_step a r r' \<Longrightarrow> single_attempt r \<Longrightarrow> single_attempt r'"
  by (erule row_step.cases)
    (auto simp: single_attempt_def repeatable_def reclaimed_def reclaim_target_def lease_expired_def split: if_splits)

lemma fresh_step_single: "fresh_step r \<Longrightarrow> single_attempt r"
  by (simp add: fresh_step_def single_attempt_def)

interpretation attempt_machine: machine "exec cd"
  "\<lambda>j. journal_ok j \<and> (\<forall>r \<in> set (steps (database j)). single_attempt r)" for cd
proof unfold_locales
  fix j a
  assume ok: "journal_ok j \<and> (\<forall>r \<in> set (steps (database j)). single_attempt r)"
  have "\<forall>r \<in> set (steps (database (exec cd a j))). single_attempt r"
    using ok [THEN conjunct1]
  proof (cases rule: exec_cases [where cd = cd and a = a])
    case 2
    show ?thesis
      using db_step_follows [OF 2(1) db_okD(7) [OF 2(2)]] ok row_step_single fresh_step_single
      unfolding steps_follow_def by fastforce
  qed (use ok in simp)
  then show "journal_ok (exec cd a j) \<and> (\<forall>r \<in> set (steps (database (exec cd a j))). single_attempt r)"
    using ok exec_journal_ok by simp
qed

end
