(* ===== verification/JournalProperties.thy ===== *)
theory JournalProperties
  imports JournalContracts
begin

text \<open>
  The properties of the journal.  \<open>after cd ops\<close> is the journal that the calls \<open>ops\<close>, in any
  interleaving of any number of workers, make of an empty one; properties are stated on these
  states or on any journal that satisfies the invariant.
\<close>

definition after :: "codec \<Rightarrow> journal_op list \<Rightarrow> journal" where
  "after cd ops = run_ops (exec cd) ops new_journal"

lemma after_append: "after cd (ops @ later) = run_ops (exec cd) later (after cd ops)"
  by (simp add: after_def run_ops_def)

lemma after_ok: "journal_ok (after cd ops)"
  unfolding after_def using new_journal_ok by (rule journal_machine.run_ok)

section \<open>Samples\<close>

definition sample_codec :: codec where
  "sample_codec = \<lparr>sha256 = (\<lambda>s. ''h''), float_repr = (\<lambda>r. ''0.0'')\<rparr>"

definition sample_request :: run_request where
  "sample_request = \<lparr>rq_mode = ''ask'', rq_request = JNull, rq_config = JNull,
     rq_budget_limits = BudgetMapping [(''max_calls'', JInt 2)], rq_budget = BudgetNone,
     rq_parent = None, rq_external = Some ''key''\<rparr>"

definition sample_ops :: "journal_op list" where
  "sample_ops = [CreateRun sample_request ''1'' 0,
     CreateStep ''run_1'' ''tool'' ''read'' JNull ''read_only'' (Some 1) 1,
     ClaimReadyStep ''alice'' 10 None 2 2]"

definition sample_run :: run_row where
  "sample_run = \<lparr>run_id = ''run_1'', run_mode = ''ask'', run_request = ''null'', run_config = ''null'',
     run_stat = RunCreated, run_parent = None,
     run_budget = fresh_budget (Some 2) None None None, run_created = 0, run_updated = 0\<rparr>"

definition sample_step :: step_row where
  "sample_step = \<lparr>step_id = ''step_h'', step_run = ''run_1'', step_key = ''h'', step_kind = ''tool'',
     step_name = ''read'', step_input = ''null'', input_hash = ''h'', step_safety = ReadOnly,
     step_seq = Some 1, step_stat = StepLeased, step_output = None, step_error = None,
     uncertainty = None, lease_owner = Some ''alice'', lease_expires = Some 10000002, attempts = 1,
     step_created = 1, step_updated = 2\<rparr>"

lemma sample_codec_simps [simp]: "sha256 sample_codec s = ''h''" "float_repr sample_codec r = ''0.0''"
  by (simp_all add: sample_codec_def)

lemmas sample_defs = sample_request_def sample_run_def sample_step_def

lemmas run_sample_simps = after_def sample_defs method_defs create_run_tx_def insert_run_def
  create_step_tx_def claim_ready_step_tx_def new_journal_def empty_db_def transaction_def
  pick_budget_def validate_limits_def budget_alias_def budget_names_def last_value_def
  new_id_def py_blank_def py_space_def step_id_of_def step_key_of_def sha256_hex_def
  step_exists_def ready_steps_def order_by_def rowcount_def coerce_safety_def Let_def
  append_event_row_def fresh_budget_def limits_fit_def int64_def

lemma sample_state:
  "runs (database (after sample_codec sample_ops)) = [sample_run]"
  "steps (database (after sample_codec sample_ops)) = [sample_step]"
  "receipts (database (after sample_codec sample_ops)) = []"
  "approvals (database (after sample_codec sample_ops)) = []"
  "calls (database (after sample_codec sample_ops)) = []"
  "reservations (database (after sample_codec sample_ops)) = []"
  "closed (after sample_codec sample_ops) = False"
  by (simp_all add: sample_ops_def run_sample_simps)


text \<open>The same journal with a second step, and the operations that pass the first step on.\<close>

definition handover_ops :: "journal_op list" where
  "handover_ops = [ReclaimExpired 20000000, ClaimReadyStep ''bob'' 10 None 20000000 20000000]"

lemma sample_lease:
  "step_lease (after sample_codec sample_ops) ''step_h'' = Some (''alice'', 10000002)"
  by (simp add: step_lease_def sample_state sample_step_def lease_of_def)

lemma handover_steps:
  "steps (database (after sample_codec (sample_ops @ handover_ops))) =
     [sample_step\<lparr>lease_owner := Some ''bob'', lease_expires := Some 30000000, attempts := 2,
        step_updated := 20000000\<rparr>]"
  unfolding after_append run_ops_def handover_ops_def
  by (simp add: method_defs transaction_def sample_state)
    (simp add: sample_state reclaim_expired_leases_tx_def lease_expired_def reclaim_one_def order_by_def
      Let_def rowcount_def sample_step_def reclaim_target_def reclaim_reason_def claim_ready_step_tx_def
      ready_steps_def append_event_row_def)

lemma handover_lease:
  "step_lease (after sample_codec (sample_ops @ handover_ops)) ''step_h'' = Some (''bob'', 30000000)"
  by (simp add: step_lease_def handover_steps lease_of_def sample_step_def)

section \<open>The journal as a whole\<close>

text \<open>
  C1: whatever calls have been made, in whatever interleaving, the journal's database satisfies its
  invariant: events are numbered from 1 without gaps, primary and unique keys hold, every row
  refers to an existing run and step, every step row agrees with its status (a lease exactly while
  leased or executing, an output exactly when committed), every limit of a run is a 64-bit integer,
  no amount it holds or has used is negative, and its reserved and used calls, tokens and
  micro-dollars are the sums over its reservations as long as these sums fit SQLite's integers.
  (Wall seconds are doubles whose rounding keeps them from being sums; they are not negative.)
\<close>

theorem journal_invariant: "journal_ok (after cd ops)"
  by (rule after_ok)

text \<open>
  The event log is append-only and gapless: later calls never change or drop an event, and the
  identifiers are 1, 2, 3, and so on in the order of insertion.
\<close>

theorem event_log_append_only:
  "take (length (events (database (after cd ops)))) (events (database (after cd (ops @ later)))) =
     events (database (after cd ops)) \<and>
   map event_id (events (database (after cd ops))) =
     map (\<lambda>i. int i + 1) [0..<length (events (database (after cd ops)))]"
proof -
  obtain es where "events (database (after cd (ops @ later))) = events (database (after cd ops)) @ es"
    using journal_log.run_log [OF after_ok] unfolding after_append by blast
  moreover have "events_numbered (events (database (after cd ops)))"
    using after_ok by (simp add: journal_ok_def db_ok_def)
  ultimately show ?thesis by (simp add: events_numbered_def)
qed

section \<open>Steps\<close>

text \<open>
  C2: refinement.  Every call of the journal moves every row of the step table along the abstract
  step machine \<open>row_step\<close> (claim, execute, renew, commit, fail, doubt, cancel, expire, or keep), and
  inserts at most one fresh ready row whose identifier and (run, key) pair are new.
\<close>

theorem step_table_refines_row_step:
  "steps_follow a (steps (database (after cd ops))) (steps (database (after cd (ops @ [a]))))"
  using after_ok [of cd ops]
proof (cases rule: exec_cases [where cd = cd and a = a])
  case 2
  then show ?thesis using db_step_follows [OF 2(1) db_okD(7) [OF 2(2)]] by (simp add: after_append)
qed (simp add: after_append)

text \<open>
  C3: leases exclude.  If worker \<open>w\<close> holds the lease of a step until \<open>e\<close> and some time later
  another worker holds it, then in between there was a call made for \<open>w\<close> itself before \<open>e\<close>, or a
  recovery of expired leases whose clock had reached \<open>e\<close>.
\<close>

theorem lease_takeover_needs_release:
  assumes "step_lease (after cd ops) i = Some (w, e)"
    and "step_lease (after cd (ops @ later)) i = Some (w', e')" and "w \<noteq> w'"
  shows "\<exists>a \<in> set later. releases_lease a i w e"
  using step_leases.takeover_needs_release [OF after_ok assms(1) _ assms(3)] assms(2)
  unfolding after_append by blast

theorem lease_takeover_needs_release_witness:
  "\<exists>a \<in> set handover_ops. releases_lease a ''step_h'' ''alice'' 10000002"
  by (rule lease_takeover_needs_release [OF sample_lease handover_lease]) simp

text \<open>
  C10: fencing.  A worker that does not hold an unexpired lease of a step can neither start,
  renew, commit, fail nor doubt it: each of the calls raises and changes nothing.
\<close>

theorem no_lease_no_effect:
  assumes "\<forall>e. step_lease (after cd ops) i = Some (w, e) \<longrightarrow> e \<le> now"
    and "a \<in> {MarkExecuting i w now now2, Heartbeat i w l now now2 now3, CommitStep i w out rc now now2,
          FailStep i w err' now now2, MarkUncertain i w why now now2}"
  shows "op_error cd a (after cd ops) \<noteq> None \<and> exec cd a (after cd ops) = after cd ops"
proof -
  define j where "j = after cd ops"
  have chk: "check_owner_and_lease r w now \<noteq> None" if "find_step i (database j) = Some r" for r
    using that assms(1) by (auto simp: check_owner_and_lease_None step_lease_def lease_of_def j_def)
  have "op_error cd a j \<noteq> None"
    using assms(2) chk
    by (auto simp: method_defs transaction_def mark_executing_tx_def heartbeat_tx_def commit_step_tx_def
        finish_owned_step_tx_def split: if_splits option.splits sum.splits)
  moreover from this have "exec cd a j = j"
    using assms(2) by (auto simp: method_defs split: if_splits dest: err_transaction)
  ultimately show ?thesis by (simp add: j_def)
qed

theorem no_lease_no_effect_witness:
  "exec sample_codec (MarkExecuting ''step_h'' ''bob'' 3 3) (after sample_codec sample_ops) =
     after sample_codec sample_ops"
  using no_lease_no_effect [where cd = sample_codec and ops = sample_ops and i = "''step_h''" and
      w = "''bob''" and now = 3 and ?now2.0 = 3 and a = "MarkExecuting ''step_h'' ''bob'' 3 3"]
  by (auto simp: sample_lease)

text \<open>
  A successful \<open>commit_step\<close> had the step executing under an unexpired lease of the caller; it
  stores the canonical text of the output, drops the lease and the old error, and returns the row
  it has stored.
\<close>

theorem commit_step_effect:
  assumes "commit_step cd i w out rc now now2 j = (Inr r', j')" and "journal_ok j"
  shows "\<exists>r e. find_step i (database j) = Some r \<and> step_stat r = StepExecuting \<and>
      lease_of r = Some (w, e) \<and> now < e \<and>
      r' = r\<lparr>step_stat := StepCommitted, step_output := Some (canonical_json cd out),
             step_error := None, lease_owner := None, lease_expires := None, step_updated := now2\<rparr> \<and>
      find_step i (database j') = Some r'"
proof -
  obtain d' where tx: "commit_step_tx cd i w out rc now now2 (database j) = Inr (r', d')" "j' = j\<lparr>database := d'\<rparr>"
    using assms(1) by (auto simp: commit_step_def transaction_def split: if_splits sum.splits)
  obtain row where row: "find_step i (database j) = Some row" "step_stat row = StepExecuting"
      "check_owner_and_lease row w now = None" "find_step i d' = Some r'"
      "steps d' = update_where (\<lambda>r. step_id r = i \<and> step_stat r = StepExecuting \<and> lease_owner r = Some w)
         (\<lambda>r. r\<lparr>step_stat := StepCommitted, step_output := Some (canonical_json cd out),
                step_error := None, lease_owner := None, lease_expires := None,
                step_updated := now2\<rparr>) (steps (database j))"
    using tx(1)
    by (auto simp: commit_step_tx_def Let_def split: if_splits option.splits sum.splits
        dest!: steps_commit_receipt)
  have "step_id row = i" using row(1) by (auto dest: by_key_SomeD)
  then show ?thesis using row tx(2)
    by (auto simp: by_key_update_where check_owner_and_lease_None lease_of_def)
qed

definition committed_ops :: "journal_op list" where
  "committed_ops = sample_ops @ [MarkExecuting ''step_h'' ''alice'' 3 3]"

lemma committed_sample:
  "\<exists>r' j'. commit_step sample_codec ''step_h'' ''alice'' (JBool True) (ReceiptObject ''idem'' JNull) 4 4
     (after sample_codec committed_ops) = (Inr r', j')"
  unfolding committed_ops_def after_append run_ops_def
  by (simp add: method_defs transaction_def sample_state)
    (simp add: sample_state mark_executing_tx_def commit_step_tx_def commit_receipt_def
      record_receipt_row_def Let_def sample_step_def check_owner_and_lease_def append_event_row_def
      sha256_hex_def)


theorem commit_step_effect_witness:
  "\<exists>r. find_step ''step_h'' (database (snd (commit_step sample_codec ''step_h'' ''alice'' (JBool True)
     (ReceiptObject ''idem'' JNull) 4 4 (after sample_codec committed_ops)))) = Some r \<and>
     step_stat r = StepCommitted \<and> step_output r = Some ''true''"
proof -
  obtain r' j' where c: "commit_step sample_codec ''step_h'' ''alice'' (JBool True) (ReceiptObject ''idem'' JNull) 4 4
     (after sample_codec committed_ops) = (Inr r', j')"
    using committed_sample by blast
  show ?thesis using commit_step_effect [OF c after_ok] c by auto
qed

text \<open>
  A step that is committed, failed or cancelled stays exactly as it is, output and error
  included, whatever is called afterwards.
\<close>

theorem closed_step_frozen:
  assumes "find_step i (database (after cd ops)) = Some r"
    and "step_stat r \<in> {StepCommitted, StepFailed, StepCancelled}"
  shows "find_step i (database (after cd (ops @ later))) = Some r"
  using closed_steps.run_frozen [OF after_ok assms(1)] assms(2)
  by (simp add: after_append step_closed_def)

definition failed_ops :: "journal_op list" where
  "failed_ops = sample_ops @ [FailStep ''step_h'' ''alice'' (Some (JStr ''boom'')) 3 3]"

lemma failed_sample:
  "find_step ''step_h'' (database (after sample_codec failed_ops)) = Some (sample_step\<lparr>step_stat := StepFailed,
     step_error := Some (quote_text ''boom''), lease_owner := None, lease_expires := None, step_updated := 3\<rparr>)"
  unfolding failed_ops_def after_append run_ops_def
  by (simp add: method_defs transaction_def sample_state)
    (simp add: sample_state finish_owned_step_tx_def Let_def sample_step_def check_owner_and_lease_def
      append_event_row_def)

theorem closed_step_frozen_witness:
  "find_step ''step_h'' (database (after sample_codec (failed_ops @ handover_ops))) =
   Some (sample_step\<lparr>step_stat := StepFailed, step_error := Some (quote_text ''boom''),
     lease_owner := None, lease_expires := None, step_updated := 3\<rparr>)"
  by (rule closed_step_frozen [OF failed_sample]) simp

text \<open>
  C4: a step that is not safe to repeat (reconcilable or an opaque side effect) is handed to a
  worker at most once in its life: recovery never puts it back among the ready steps.
\<close>

theorem unsafe_step_single_attempt:
  assumes "r \<in> set (steps (database (after cd ops)))"
    and "step_safety r \<in> {Reconcilable, OpaqueSideEffect}"
  shows "attempts r \<le> 1 \<and> (attempts r = 1 \<longrightarrow> step_stat r \<noteq> StepReady)"
proof -
  have "\<forall>r \<in> set (steps (database (after cd ops))). single_attempt r"
    using attempt_machine.run_ok [of new_journal cd ops] new_journal_ok
    by (simp add: after_def new_journal_def empty_db_def)
  then show ?thesis using assms by (auto simp: single_attempt_def repeatable_def)
qed

definition opaque_ops :: "journal_op list" where
  "opaque_ops = [CreateRun sample_request ''1'' 0,
     CreateStep ''run_1'' ''tool'' ''send'' JNull ''opaque_side_effect'' None 1,
     ClaimReadyStep ''alice'' 10 None 2 2, ReclaimExpired 20000000]"

definition opaque_step :: step_row where
  "opaque_step = sample_step\<lparr>step_name := ''send'', step_safety := OpaqueSideEffect, step_seq := None,
     step_stat := StepUncertain,
     uncertainty := Some ''lease expired; outcome requires reconciliation or approval'',
     lease_owner := None, lease_expires := None, step_updated := 20000000\<rparr>"

lemma opaque_sample: "steps (database (after sample_codec opaque_ops)) = [opaque_step]"
  by (simp add: opaque_ops_def run_sample_simps reclaim_expired_leases_tx_def lease_expired_def
      reclaim_one_def reclaim_target_def reclaim_reason_def opaque_step_def)

theorem unsafe_step_single_attempt_witness: "attempts opaque_step \<le> 1"
  using unsafe_step_single_attempt [of opaque_step sample_codec opaque_ops] opaque_sample
  by (simp add: opaque_step_def)

text \<open>
  Recovery.  \<open>reclaim_expired_leases\<close> returns exactly the steps whose lease has run out, in the
  order of expiry and identifier; each loses its lease and becomes ready again when it is safe to
  repeat and uncertain with a reason otherwise; every other step is left alone.
\<close>

theorem reclaim_expired_effect:
  fixes cd :: codec and now :: instant
  assumes "journal_ok j" and "\<not> closed j"
  defines "out \<equiv> reclaim_expired_leases cd now j"
  shows "fst out = Inr (map (reclaimed now) (order_by (\<lambda>r. (lease_expires r, step_id r))
           (filter (lease_expired now) (steps (database j))))) \<and>
    steps (database (snd out)) = map (\<lambda>r. if lease_expired now r then reclaimed now r else r) (steps (database j)) \<and>
    (\<forall>r \<in> set (steps (database (snd out))). \<not> lease_expired now r)"
proof -
  have k: "keyed step_id (steps (database j))" using assms(1) by (simp add: journal_ok_def db_okD)
  have "lease_expired now (reclaimed now r) = False" for r
    by (simp add: lease_expired_def reclaimed_def reclaim_target_def)
  then show ?thesis
    using reclaim_closed_form [OF k, of cd now] assms(2)
    by (auto simp: out_def reclaim_expired_leases_def transaction_def update_where_def)
qed

theorem reclaim_expired_effect_witness:
  "fst (reclaim_expired_leases sample_codec 20000000 (after sample_codec sample_ops)) =
     Inr [reclaimed 20000000 sample_step]"
  using reclaim_expired_effect [OF after_ok [of sample_codec sample_ops], of sample_codec 20000000]
  by (simp add: sample_state sample_step_def lease_expired_def order_by_def)

text \<open>
  \<open>claim_ready_step\<close> takes the least ready step of its scope in the order (sequence with nulls
  last, creation time, identifier), leases it to the caller until the expiry and counts the
  attempt; it returns nothing exactly when no step of the scope is ready, and then changes nothing.
\<close>

theorem claim_takes_least_ready:
  fixes rid :: "str option"
  assumes "claim_ready_step cd w l rid now now2 j = (Inr x, j')" and "journal_ok j"
  defines "ready \<equiv> {r \<in> set (steps (database j)). step_stat r = StepReady \<and>
     (\<forall>i. rid = Some i \<longrightarrow> step_run r = i)}"
  shows "(x = None \<longrightarrow> ready = {} \<and> j' = j) \<and>
    (\<forall>r'. x = Some r' \<longrightarrow> (\<exists>r \<in> ready. (\<forall>s \<in> ready. step_order r \<le> step_order s) \<and>
       r' = r\<lparr>step_stat := StepLeased, lease_owner := Some w,
             lease_expires := Some (now2 + timedelta_us l), attempts := attempts r + 1, step_updated := now\<rparr> \<and>
       find_step (step_id r) (database j') = Some r'))"
proof -
  obtain d' where tx: "claim_ready_step_tx cd w rid now (now2 + timedelta_us l) (database j) = Inr (x, d')"
      "j' = j\<lparr>database := d'\<rparr>"
    using assms(1) by (auto simp: claim_ready_step_def transaction_def split: if_splits sum.splits)
  have k: "keyed step_id (steps (database j))" using assms(2) by (simp add: journal_ok_def db_okD)
  have ready: "set (ready_steps rid (database j)) = ready"
    by (auto simp: ready_steps_def ready_def split: option.splits)
  show ?thesis
  proof (cases "ready_steps rid (database j)")
    case Nil
    then have "ready = {}" using ready by simp
    then show ?thesis using tx Nil by (auto simp: claim_ready_step_tx_def split: if_splits)
  next
    case (Cons row rest)
    have row: "row \<in> ready" using ready Cons by auto
    then have mem: "row \<in> set (steps (database j))" "step_stat row = StepReady" by (auto simp: ready_def)
    have least: "step_order row \<le> step_order s" if "s \<in> ready" for s
    proof -
      have "s \<in> set (filter (\<lambda>r. step_stat r = StepReady \<and>
          (case rid of None \<Rightarrow> True | Some x \<Rightarrow> step_run r = x)) (steps (database j)))"
        using that by (auto simp: ready_def split: option.splits)
      from order_by_hd_least [OF _ this] Cons show ?thesis by (simp add: ready_steps_def)
    qed
    have find: "find_step (step_id row) (database j) = Some row" using by_key_in [OF k mem(1)] .
    have one: "rowcount (\<lambda>r. step_id r = step_id row \<and> step_stat r = StepReady) (steps (database j)) = Suc 0"
      using rowcount_by_key [OF k find, of "\<lambda>r. step_stat r = StepReady"] mem(2) by simp
    have "x = Some (row\<lparr>step_stat := StepLeased, lease_owner := Some w,
             lease_expires := Some (now2 + timedelta_us l), attempts := attempts row + 1, step_updated := now\<rparr>) \<and>
       find_step (step_id row) d' = x"
      using tx(1) Cons one find mem(2)
      by (auto simp: claim_ready_step_tx_def Let_def by_key_update_where split: if_splits option.splits)
    then show ?thesis using row least tx(2) by auto
  qed
qed

definition ready_ops :: "journal_op list" where
  "ready_ops = [CreateRun sample_request ''1'' 0,
     CreateStep ''run_1'' ''tool'' ''read'' JNull ''read_only'' (Some 1) 1]"

theorem claim_takes_least_ready_witness:
  "\<exists>r j'. claim_ready_step sample_codec ''alice'' 10 None 2 2 (after sample_codec ready_ops) = (Inr (Some r), j') \<and>
     lease_of r = Some (''alice'', 10000002)"
proof -
  obtain x j' where c:
    "claim_ready_step sample_codec ''alice'' 10 None 2 2 (after sample_codec ready_ops) = (Inr x, j')"
    by (simp add: ready_ops_def run_sample_simps)
  have "x \<noteq> None"
    using c by (auto simp: ready_ops_def run_sample_simps)
  with claim_takes_least_ready [OF c after_ok] c show ?thesis
    by (auto simp: lease_of_def)
qed

end
