(* ===== verification/JournalLedgerProperties.thy ===== *)
theory JournalLedgerProperties
  imports JournalProperties
begin

text \<open>
  The properties of the journal's runs and ledgers: external keys, idempotent steps, receipts,
  approvals, provider calls and budgets.
\<close>

section \<open>Runs\<close>

text \<open>
  The status of a run moves only along the transition table of the journal, and a completed,
  failed or cancelled run keeps its status for ever.
\<close>

theorem run_status_follows_table:
  assumes "run_status_of (after cd ops) i = Some x"
  shows "\<exists>y. run_status_of (after cd (ops @ later)) i = Some y \<and> run_edge\<^sup>*\<^sup>* x y \<and>
    (x \<in> {RunCompleted, RunFailed, RunCancelled} \<longrightarrow> y = x)"
proof -
  obtain y where y: "run_status_of (run_ops (exec cd) later (after cd ops)) i = Some y" "run_edge\<^sup>*\<^sup>* x y"
    using run_cycle.run_status [OF after_ok assms] by blast
  moreover have "y = x" if "x \<in> {RunCompleted, RunFailed, RunCancelled}"
    using y(2) that by (cases rule: converse_rtranclpE) auto
  ultimately show ?thesis by (auto simp: after_append)
qed

theorem run_status_follows_table_witness:
  "\<exists>y. run_status_of (after sample_codec (sample_ops @ handover_ops)) ''run_1'' = Some y \<and>
     run_edge\<^sup>*\<^sup>* RunCreated y"
proof -
  have "run_status_of (after sample_codec sample_ops) ''run_1'' = Some RunCreated"
    by (simp add: run_status_of_def sample_state sample_run_def)
  from run_status_follows_table [OF this, of handover_ops] show ?thesis by blast
qed

lemma int_limit_error: "int_limit v = Inl e \<Longrightarrow> e = ValidationError"
  by (cases v) (auto split: if_splits)

lemma wall_limit_error: "wall_limit v = Inl e \<Longrightarrow> e = ValidationError"
  by (cases v) (auto split: if_splits)

lemma budget_from_input_error: "budget_from_input b = Inl e \<Longrightarrow> e = ValidationError"
  by (cases b) (auto simp: validate_limits_def Let_def dest: int_limit_error wall_limit_error
      split: sum.splits if_splits)

text \<open>What a successful \<open>create_run\<close> leaves behind under its external key.\<close>

lemma create_run_key:
  assumes "create_run cd rq hex now j = (Inr r, j')" and "rq_external rq = Some x"
  obtains k limits b where "pick_budget (rq_budget_limits rq) (rq_budget rq) = Inr b"
    "budget_from_input b = Inr limits" "rq_mode rq \<noteq> []" "\<not> py_blank x"
    "by_key external_key x (external_keys (database j')) = Some k" "ext_run k = run_id r"
    "same_request cd rq limits k" "find_run (run_id r) (database j') \<noteq> None"
proof -
  obtain b limits d' where b: "pick_budget (rq_budget_limits rq) (rq_budget rq) = Inr b"
      "budget_from_input b = Inr limits" "rq_mode rq \<noteq> []" "\<not> py_blank x"
      "create_run_tx cd rq limits (new_id ''run'' hex) now (database j) = Inr (r, d')" "j' = j\<lparr>database := d'\<rparr>"
    using assms by (auto simp: create_run_def transaction_def split: if_splits sum.splits)
  have "\<exists>k. by_key external_key x (external_keys d') = Some k \<and> ext_run k = run_id r \<and>
      same_request cd rq limits k \<and> find_run (run_id r) d' \<noteq> None"
  proof (cases "by_key external_key x (external_keys (database j))")
    case (Some k)
    have fr: "run_id r = ext_run k" if "find_run (ext_run k) (database j) = Some r" for r
      using by_key_SomeD [OF that] by simp
    show ?thesis using b(5) assms(2) Some
      by (auto simp: fr create_run_tx_def insert_run_def Let_def split: option.splits if_splits)
  next
    case None
    then show ?thesis using b(5) assms(2)
      by (auto simp: create_run_tx_def insert_run_def Let_def same_request_def table_simps
          split: option.splits if_splits)
  qed
  with b that show ?thesis by auto
qed

text \<open>
  What identifies a request under its key: the hashes of mode, request, configuration and budget limits, and the
  parent.  There is none when the mode is empty or the budget is refused.
\<close>

definition request_identity :: "codec \<Rightarrow> run_request \<Rightarrow> ((str \<times> str \<times> str) \<times> str \<times> str option) option" where
  "request_identity cd rq =
     (if rq_mode rq = [] then None
      else case pick_budget (rq_budget_limits rq) (rq_budget rq) of
        Inl e \<Rightarrow> None
      | Inr b \<Rightarrow> (case budget_from_input b of
          Inl e \<Rightarrow> None
        | Inr limits \<Rightarrow> Some ((sha256_hex cd (JStr (rq_mode rq)), sha256_hex cd (rq_request rq), sha256_hex cd (rq_config rq)),
            budget_identity_hash cd limits, rq_parent rq)))"

definition key_identity :: "key_row \<Rightarrow> (str \<times> str \<times> str) \<times> str \<times> str option" where
  "key_identity k = ((mode_hash k, request_hash k, config_hash k), budget_hash k, ext_parent k)"

lemma same_request_identity:
  "pick_budget (rq_budget_limits rq) (rq_budget rq) = Inr b \<Longrightarrow> budget_from_input b = Inr limits \<Longrightarrow> rq_mode rq \<noteq> [] \<Longrightarrow>
   same_request cd rq limits k \<longleftrightarrow> request_identity cd rq = Some (key_identity k)"
  by (auto simp: same_request_def request_identity_def key_identity_def)

lemma pick_budget_error: "pick_budget l b = Inl e \<Longrightarrow> e = ValidationError"
  by (auto simp: pick_budget_def split: if_splits)

lemma create_run_known:
  assumes "by_key external_key x (external_keys (database J)) = Some k" and "find_run (ext_run k) (database J) = Some r"
    and "rq_external rq = Some x" "\<not> py_blank x" "\<not> closed J"
  shows "create_run cd rq hex now J =
    ((case request_identity cd rq of
        None \<Rightarrow> Inl ValidationError
      | Some i \<Rightarrow> if i = key_identity k then Inr r else Inl Conflict), J)"
  using assms same_request_identity [of rq _ _ cd k] pick_budget_error budget_from_input_error
  by (auto simp: create_run_def transaction_def create_run_tx_def request_identity_def split: sum.split)

text \<open>
  C12: an external key makes \<open>create_run\<close> idempotent.  After a successful creation under the key,
  and whatever happens later, every call under the key changes nothing; a request whose mode,
  request, configuration and budget limits have the same hashes and whose parent is the same returns
  the same run, any other valid request is refused as a conflict.
\<close>

theorem create_run_idempotent:
  assumes "create_run cd rq hex now j = (Inr r, j')" and "rq_external rq = Some x" and "journal_ok j"
    and "\<not> closed (run_ops (exec cd) later j')"
  defines "J \<equiv> run_ops (exec cd) later j'"
  shows "request_identity cd rq \<noteq> None \<and>
    (\<exists>r'. find_run (run_id r) (database J) = Some r' \<and>
      (\<forall>rq'. rq_external rq' = Some x \<longrightarrow>
         create_run cd rq' hex' now' J =
           (if request_identity cd rq' = request_identity cd rq then (Inr r', J)
            else if request_identity cd rq' = None then (Inl ValidationError, J)
            else (Inl Conflict, J))))"
proof -
  obtain k limits b where k: "pick_budget (rq_budget_limits rq) (rq_budget rq) = Inr b"
    "budget_from_input b = Inr limits" "rq_mode rq \<noteq> []" "\<not> py_blank x"
    "by_key external_key x (external_keys (database j')) = Some k" "ext_run k = run_id r"
    "same_request cd rq limits k" "find_run (run_id r) (database j') \<noteq> None"
    by (rule create_run_key [OF assms(1,2)])
  have ok: "journal_ok j'" using exec_journal_ok [OF assms(3), of cd "CreateRun rq hex now"] assms(1) by simp
  have key: "by_key external_key x (external_keys (database J)) = Some k"
    unfolding J_def using key_store.run_frozen [OF ok k(5)] by simp
  obtain r' where r': "find_run (run_id r) (database J) = Some r'"
    using run_cycle.run_status [OF ok, of "run_id r"] k(8) by (fastforce simp: run_status_of_def J_def)
  have same: "request_identity cd rq = Some (key_identity k)" using same_request_identity [OF k(1-3)] k(7) by simp
  have "create_run cd rq' hex' now' J =
      (if request_identity cd rq' = request_identity cd rq then (Inr r', J)
       else if request_identity cd rq' = None then (Inl ValidationError, J) else (Inl Conflict, J))"
    if "rq_external rq' = Some x" for rq'
    using create_run_known [OF key _ that k(4), of r' cd hex' now'] r' k(6) assms(4) same
    unfolding J_def [symmetric] by (auto split: option.split)
  with same r' show ?thesis by auto
qed

theorem create_run_idempotent_witness:
  "\<exists>r'. create_run sample_codec sample_request ''2'' 99 (after sample_codec [CreateRun sample_request ''1'' 0]) =
     (Inr r', after sample_codec [CreateRun sample_request ''1'' 0]) \<and> run_id r' = ''run_1''"
proof -
  have c: "create_run sample_codec sample_request ''1'' 0 new_journal =
      (Inr sample_run, after sample_codec [CreateRun sample_request ''1'' 0])"
    by (simp add: run_sample_simps)
  have "rq_external sample_request = Some ''key''" by (simp add: sample_request_def)
  moreover have "\<not> closed (after sample_codec [CreateRun sample_request ''1'' 0])"
    by (simp add: run_sample_simps)
  ultimately obtain r' where r': "find_run ''run_1'' (database (after sample_codec [CreateRun sample_request ''1'' 0])) = Some r'"
      "create_run sample_codec sample_request ''2'' 99 (after sample_codec [CreateRun sample_request ''1'' 0]) =
        (Inr r', after sample_codec [CreateRun sample_request ''1'' 0])"
    using create_run_idempotent [OF c _ new_journal_ok, where later = "[]" and x = "''key''" and hex' = "''2''" and now' = 99]
    by (auto simp: sample_run_def)
  then show ?thesis using by_key_SomeD [OF r'(1)] by blast
qed


section \<open>Idempotent steps and receipts\<close>

text \<open>
  \<open>create_step\<close> is idempotent.  After a successful creation, and whatever happens later, the
  same call returns the step with the same identifier, in whatever state it is by then, and
  changes nothing: a resumed agent finds the steps it created before the crash.
\<close>

theorem create_step_idempotent:
  assumes "create_step cd rid k n i s q now j = (Inr r, j')" and "journal_ok j"
    and "\<not> closed (run_ops (exec cd) later j')"
  defines "J \<equiv> run_ops (exec cd) later j'"
  shows "\<exists>r'. create_step cd rid k n i s q now' J = (Inr r', J) \<and> step_id r' = step_id r \<and>
    find_step (step_id r) (database J) = Some r'"
proof -
  define sid where "sid = step_id_of cd rid (step_key_of cd k n (sha256_hex cd i) (case coerce_safety s of Inr v \<Rightarrow> v) q)"
  obtain sv d' where b: "k \<noteq> []" "n \<noteq> []" "\<not> (\<exists>m. q = Some m \<and> m < 0)" "coerce_safety s = Inr sv"
      "create_step_tx cd rid k n i sv q now (database j) = Inr (r, d')" "j' = j\<lparr>database := d'\<rparr>"
    using assms(1) by (auto simp: create_step_def transaction_def split: if_splits sum.splits)
  have ok: "journal_ok j'" using exec_journal_ok [OF assms(2), of cd "CreateStep rid k n i s q now"] assms(1) by simp
  have made: "find_step sid (database j') = Some r" "find_run rid (database j') \<noteq> None"
    using b by (auto simp: create_step_tx_def sid_def Let_def split: if_splits option.splits)
  have fits: "bindable q" using b(5) by (auto simp: create_step_tx_def Let_def split: if_splits)
  have sid: "step_id r = sid" using by_key_SomeD [OF made(1)] by simp
  obtain r' where r': "find_step sid (database J) = Some r'"
    using step_cycle.run_status [OF ok, of sid] made(1) by (fastforce simp: step_status_of_def J_def)
  obtain u where u: "find_run rid (database J) = Some u"
    using run_cycle.run_status [OF ok, of rid] made(2) by (fastforce simp: run_status_of_def J_def)
  have "step_id r' = sid" "r' \<in> set (steps (database J))" using by_key_SomeD [OF r'] by auto
  then have "step_exists R (database J)" if "step_id R = sid" for R
    using that by (auto simp: step_exists_def)
  then have "create_step cd rid k n i s q now' J = (Inr r', J)"
    using b(1-4) fits assms(3) r' u unfolding J_def [symmetric]
    by (auto simp: create_step_def transaction_def create_step_tx_def Let_def sid_def)
  then show ?thesis using sid r' \<open>step_id r' = sid\<close> by simp
qed

theorem create_step_idempotent_witness:
  "\<exists>r. create_step sample_codec ''run_1'' ''tool'' ''read'' JNull ''read_only'' (Some 1) 50
      (after sample_codec sample_ops) = (Inr r, after sample_codec sample_ops) \<and> step_id r = ''step_h''"
proof -
  define j0 where "j0 = after sample_codec [CreateRun sample_request ''1'' 0]"
  define j1 where "j1 = snd (create_step sample_codec ''run_1'' ''tool'' ''read'' JNull ''read_only'' (Some 1) 1 j0)"
  obtain r where c: "create_step sample_codec ''run_1'' ''tool'' ''read'' JNull ''read_only'' (Some 1) 1 j0 = (Inr r, j1)"
      "step_id r = ''step_h''"
    by (simp add: j0_def j1_def run_sample_simps)
  have j: "run_ops (exec sample_codec) [ClaimReadyStep ''alice'' 10 None 2 2] j1 = after sample_codec sample_ops"
    by (simp add: j0_def j1_def sample_ops_def after_def)
  show ?thesis
    using create_step_idempotent [OF c(1), where later = "[ClaimReadyStep ''alice'' 10 None 2 2]"] c(2)
    unfolding j by (auto simp: sample_state j0_def after_ok)
qed

text \<open>
  C13: a side effect is receipted exactly once.  After a successful \<open>record_receipt\<close> under a key, and
  whatever happens later, the receipt is unchanged, the same call returns it without writing, and
  a call with the key and any other payload is refused as a conflict.
\<close>

theorem receipt_exactly_once:
  assumes "record_receipt cd sid key p now j = (Inr r, j')" and "journal_ok j"
    and "\<not> closed (run_ops (exec cd) later j')"
  defines "J \<equiv> run_ops (exec cd) later j'"
  shows "find_receipt key J = Inr (Some r) \<and> receipt_step r = Some sid \<and> receipt_payload r = canonical_json cd p \<and>
    record_receipt cd sid key p now' J = (Inr r, J) \<and>
    (\<forall>p'. canonical_json cd p' \<noteq> canonical_json cd p \<longrightarrow>
       record_receipt cd sid key p' now' J = (Inl Conflict, J))"
proof -
  obtain d' where d': "record_receipt_tx cd sid key p now (database j) = Inr (r, d')" "j' = j\<lparr>database := d'\<rparr>"
    using assms(1) by (auto simp: record_receipt_def transaction_def split: if_splits sum.splits)
  obtain st d1 where st: "find_step sid (database j) = Some st"
      "record_receipt_row cd (step_run st) (Some sid) key p now (database j) = Inr (r, d1)"
      "receipts d' = receipts d1" "steps d' = steps d1"
    using d'(1) by (auto simp: record_receipt_tx_def Let_def split: if_splits sum.splits option.splits)
  have b4: "steps d' = steps (database j)" using st(4) steps_record_receipt_row [OF st(2)] by auto
  note b = st(1-3) b4 d'(2)
  have ok: "journal_ok j'" using exec_journal_ok [OF assms(2), of cd "RecordReceipt sid key p now"] assms(1) by simp
  have r: "by_key idem_key key (receipts (database j')) = Some r" "key \<noteq> []" "receipt_run r = step_run st"
      "receipt_step r = Some sid" "receipt_payload r = canonical_json cd p"
    using b by (auto simp: record_receipt_row_def Let_def table_simps split: if_splits option.splits)
  have rJ: "by_key idem_key key (receipts (database J)) = Some r"
    unfolding J_def using receipt_store.run_frozen [OF ok r(1)] by simp
  have "find_step sid (database j') = Some st" using b by simp
  then obtain st' where st': "find_step sid (database J) = Some st'" "step_run st' = step_run st"
    using step_owner.run_frozen [OF ok, of sid "step_run st"] by (auto simp: J_def)
  have "record_receipt cd sid key p' now' J =
      (if canonical_json cd p' = canonical_json cd p then (Inr r, J) else (Inl Conflict, J))" for p'
    using assms(3) st' rJ r unfolding J_def [symmetric]
    by (simp add: record_receipt_def transaction_def record_receipt_tx_def record_receipt_row_def)
  then show ?thesis using rJ r assms(3) unfolding J_def [symmetric] by (simp add: find_receipt_def)
qed

theorem receipt_exactly_once_witness:
  "\<exists>r j'. record_receipt sample_codec ''step_h'' ''idem'' JNull 5 (after sample_codec sample_ops) = (Inr r, j') \<and>
     record_receipt sample_codec ''step_h'' ''idem'' (JBool True) 6 j' = (Inl Conflict, j')"
proof -
  obtain r j' where c: "record_receipt sample_codec ''step_h'' ''idem'' JNull 5 (after sample_codec sample_ops) = (Inr r, j')"
      "\<not> closed j'"
    by (simp add: record_receipt_def transaction_def sample_state record_receipt_tx_def sample_step_def
        record_receipt_row_def Let_def)
  show ?thesis using receipt_exactly_once [OF c(1) after_ok, where later = "[]"] c by auto
qed

section \<open>Approvals and provider calls\<close>

text \<open>
  An approval is decided once.  After a successful decision, and whatever happens later, the row
  keeps the verdict, the same decision by the same person returns it without writing, and the
  opposite decision is refused as an invalid transition.
\<close>

theorem approval_decided_once:
  assumes "decide_approval cd aid dec who why now j = (Inr r, j')" and "decision_value dec = Inr v"
    and "journal_ok j" and "\<not> closed (run_ops (exec cd) later j')"
  defines "J \<equiv> run_ops (exec cd) later j'"
  shows "find_approval aid (database J) = Some r \<and> approval_stat r \<noteq> Pending \<and>
    decide_approval cd aid dec who why' now' J = (Inr r, J) \<and>
    (\<forall>dec' v'. decision_value dec' = Inr v' \<and> v' \<noteq> v \<longrightarrow>
       decide_approval cd aid dec' who why' now' J = (Inl InvalidTransition, J))"
proof -
  obtain d' where d': "decide_approval_tx cd aid v who why now (database j) = Inr (r, d')" "j' = j\<lparr>database := d'\<rparr>"
      "who \<noteq> []"
    using assms(1,2) by (auto simp: decide_approval_def transaction_def split: if_splits sum.splits)
  have v: "v \<noteq> Pending" using decision_value_not_Pending [OF assms(2)] .
  have ok: "journal_ok j'"
    using exec_journal_ok [OF assms(3), of cd "DecideApproval aid dec who why now"] assms(1) by simp
  have r: "find_approval aid (database j') = Some r" "approval_stat r \<noteq> Pending" "decision r = Some v"
      "decided_by r = Some who"
    using d' v by_key_SomeD [of approval_id aid "approvals (database j)"]
    by (auto simp: decide_approval_tx_def Let_def by_key_update_where split: if_splits option.splits)
  have "find_approval aid (database J) = Some r"
    unfolding J_def using decided_approvals.run_frozen [OF ok r(1,2)] .
  then show ?thesis using assms(2,4) r d'(3) unfolding J_def [symmetric]
    by (auto simp: decide_approval_def transaction_def decide_approval_tx_def)
qed

definition approval_ops :: "journal_op list" where
  "approval_ops = sample_ops @ [RequestApproval ''run_1'' (Some ''step_h'') JNull ''tool'' ''1'' 3]"

theorem approval_decided_once_witness:
  "\<exists>r j'. decide_approval sample_codec ''approval_1'' (DecideBool True) ''ann'' None 5
       (after sample_codec approval_ops) = (Inr r, j') \<and>
     decide_approval sample_codec ''approval_1'' (DecideText ''rejected'') ''ann'' None 6 j' = (Inl InvalidTransition, j')"
proof -
  have "\<exists>r j'. decide_approval sample_codec ''approval_1'' (DecideBool True) ''ann'' None 5
       (after sample_codec approval_ops) = (Inr r, j') \<and> \<not> closed j'"
    unfolding approval_ops_def after_append run_ops_def
    by (simp add: request_approval_def transaction_def sample_state)
      (simp add: sample_state request_approval_tx_def check_step_of_run_def sample_step_def sample_run_def
        decide_approval_def transaction_def decide_approval_tx_def new_id_def Let_def append_event_row_def)
  then obtain r j' where c: "decide_approval sample_codec ''approval_1'' (DecideBool True) ''ann'' None 5
       (after sample_codec approval_ops) = (Inr r, j')" "\<not> closed j'" by blast
  show ?thesis using approval_decided_once [OF c(1) _ after_ok, where later = "[]"] c by auto
qed

text \<open>
  A provider call is completed once.  After a successful completion, and whatever happens
  later, the stored response, status and usage are those of that completion, and every further
  completion of the call is refused without effect.
\<close>

theorem provider_call_completed_once:
  fixes later :: "journal_op list"
  assumes "complete_provider_call cd cid resp name model i out usd now j = (Inr r, j')" and "journal_ok j"
  defines "J \<equiv> run_ops (exec cd) later j'"
  shows "find_call cid (database J) = Some r \<and> call_stat r \<noteq> CallStarted \<and>
    call_response r = Some (canonical_json cd resp) \<and>
    call_in_tokens r = i \<and> call_out_tokens r = out \<and> call_micro_usd r = usd \<and>
    op_error cd (CompleteCall cid resp' name' model' i' out' usd' now') J \<noteq> None \<and>
    exec cd (CompleteCall cid resp' name' model' i' out' usd' now') J = J"
proof -
  obtain st d' where d': "complete_provider_call_tx cd cid resp name st model i out usd now (database j) = Inr (r, d')"
      "j' = j\<lparr>database := d'\<rparr>" "coerce_call_status name = Inr st"
    using assms(1) by (auto simp: complete_provider_call_def transaction_def split: if_splits sum.splits)
  have st: "st \<noteq> CallStarted" using coerce_call_status_not_started [OF d'(3)] .
  have ok: "journal_ok j'"
    using exec_journal_ok [OF assms(2), of cd "CompleteCall cid resp name model i out usd now"] assms(1) by simp
  have r: "find_call cid (database j') = Some r" "call_stat r \<noteq> CallStarted"
      "call_response r = Some (canonical_json cd resp)" "call_in_tokens r = i" "call_out_tokens r = out"
      "call_micro_usd r = usd"
    using d' st by_key_SomeD [of call_id cid "calls (database j)"]
    by (auto simp: complete_provider_call_tx_def Let_def by_key_update_where
        split: if_splits option.splits)
  have rJ: "find_call cid (database J) = Some r"
    unfolding J_def using finished_calls.run_frozen [OF ok r(1,2)] .
  have fail: "op_error cd (CompleteCall cid resp' name' model' i' out' usd' now') J \<noteq> None"
    using rJ r(2) by (auto simp: complete_provider_call_def transaction_def complete_provider_call_tx_def
        split: sum.splits)
  then have "exec cd (CompleteCall cid resp' name' model' i' out' usd' now') J = J"
    by (auto simp: complete_provider_call_def split: sum.splits if_splits dest: err_transaction)
  with rJ r fail show ?thesis by blast
qed

definition call_ops :: "journal_op list" where
  "call_ops = sample_ops @ [StartCall ''run_1'' ''openai'' JNull None (Some ''m'') ''1'' 3]"

theorem provider_call_completed_once_witness:
  "\<exists>r j'. complete_provider_call sample_codec ''provider_1'' JNull ''completed'' None 10 20 30 4
       (after sample_codec call_ops) = (Inr r, j') \<and> call_out_tokens r = 20"
proof -
  have "\<exists>r j'. complete_provider_call sample_codec ''provider_1'' JNull ''completed'' None 10 20 30 4
       (after sample_codec call_ops) = (Inr r, j')"
    unfolding call_ops_def after_append run_ops_def
    by (simp add: start_provider_call_def transaction_def sample_state)
      (simp add: sample_state start_provider_call_tx_def sample_run_def complete_provider_call_def
        coerce_call_status_def transaction_def complete_provider_call_tx_def new_id_def int64_def Let_def append_event_row_def)
  then obtain r j' where c: "complete_provider_call sample_codec ''provider_1'' JNull ''completed'' None 10 20 30 4
       (after sample_codec call_ops) = (Inr r, j')" by blast
  show ?thesis using provider_call_completed_once [OF c after_ok, where later = "[]"] c by auto
qed

section \<open>Budgets\<close>


lemmas sql_simps = sql_add_def sql_sub_def py_sum_def int64_def amounts_fit_def

definition sample_amounts :: amounts where
  "sample_amounts = \<lparr>a_calls = 2, a_tokens = 100, a_micro_usd = 5, a_wall = 1\<rparr>"

definition reserve_ops :: "journal_op list" where
  "reserve_ops = sample_ops @ [ReserveBudget ''run_1'' sample_amounts (Some ''b1'') [] 3]"

lemma round_double_1 [simp]: "round_double 1 = 1"
  by (simp add: round_double_def ilog2_def pow2_def bit_length.simps Let_def sgn_if round_half_even_def)

lemma reserve_sample:
  "runs (database (after sample_codec reserve_ops)) =
     [sample_run\<lparr>run_budget := reserve_amounts sample_amounts (run_budget sample_run), run_updated := 3\<rparr>]"
  "reservations (database (after sample_codec reserve_ops)) =
     [\<lparr>rsv_id = ''b1'', rsv_run = ''run_1'', rsv_asked = sample_amounts, rsv_actual = None,
       rsv_settled = False, rsv_created = 3, rsv_settled_at = None\<rparr>]"
  "closed (after sample_codec reserve_ops) = False"
  unfolding reserve_ops_def after_append run_ops_def
  by (simp_all add: reserve_budget_def transaction_def sample_state sample_amounts_def amounts_valid_def)
    (simp_all add: sample_state reserve_budget_tx_def sample_run_def fresh_budget_def budget_exceeded_def
      over_limit_def budget_check_def reserve_amounts_def sql_simps fadd_def append_event_row_def)


lemma within_limit:
  assumes "\<not> over_limit (Some l) (py_sum x y n)" and "0 \<le> x" "0 \<le> y" "0 \<le> n" "int64 l"
  shows "sql_add x n + y \<le> l"
proof -
  have le: "py_sum x y n \<le> l" using assms(1) by (simp add: over_limit_def)
  then have "x + y + n \<le> l" using py_sum_exact [of x y n] assms(2-5) by (simp add: int64_def)
  moreover have "sql_add x n = x + n" using calculation assms(2-5) by (intro sql_exact) (simp_all add: int64_def)
  ultimately show ?thesis by simp
qed

text \<open>
  C14: a reservation respects the limits.  When \<open>reserve_budget\<close> creates a reservation, the calls,
  tokens and micro-dollars that the run then holds and has used stay within its limits.
\<close>

theorem reserve_within_limits:
  assumes "reserve_budget cd rid a v hex now j = (Inr vid, j')" and "journal_ok j"
    and "find_reservation vid (database j) = None"
  shows "\<exists>r. find_run rid (database j') = Some r \<and>
    (\<forall>l. call_limit (run_budget r) = Some l \<longrightarrow> reserved_calls (run_budget r) + used_calls (run_budget r) \<le> l) \<and>
    (\<forall>l. token_limit (run_budget r) = Some l \<longrightarrow> reserved_tokens (run_budget r) + used_tokens (run_budget r) \<le> l) \<and>
    (\<forall>l. micro_usd_limit (run_budget r) = Some l \<longrightarrow>
       reserved_micro_usd (run_budget r) + used_micro_usd (run_budget r) \<le> l) \<and>
    (\<exists>s. find_reservation vid (database j') = Some s \<and> rsv_run s = rid \<and> rsv_asked s = a \<and> \<not> rsv_settled s)"
proof -
  obtain d' where d': "reserve_budget_tx cd rid a vid now (database j) = Inr (vid, d')" "j' = j\<lparr>database := d'\<rparr>"
    and a: "amounts_valid a"
    using assms(1) by (auto simp: reserve_budget_def transaction_def reserve_budget_tx_def
        split: if_splits sum.splits option.splits)
  then obtain row where row: "find_run rid (database j) = Some row" "\<not> budget_exceeded (run_budget row) a"
    using assms(3) by (auto simp: reserve_budget_tx_def split: if_splits option.splits)
  have "balanced (reservations (database j)) (run_id row) (run_budget row)"
    using assms(2) by_key_SomeD [OF row(1)] by (auto simp: journal_ok_def dest: db_okD(6) simp: budgets_ok_def)
  then have "0 \<le> reserved_calls (run_budget row)" "0 \<le> used_calls (run_budget row)"
    "0 \<le> reserved_tokens (run_budget row)" "0 \<le> used_tokens (run_budget row)"
    "0 \<le> reserved_micro_usd (run_budget row)" "0 \<le> used_micro_usd (run_budget row)" "limits_fit (run_budget row)"
    by (simp_all add: balanced_def column_ok_def)
  then have "(\<forall>l. call_limit (run_budget row) = Some l \<longrightarrow>
       sql_add (reserved_calls (run_budget row)) (a_calls a) + used_calls (run_budget row) \<le> l) \<and>
     (\<forall>l. token_limit (run_budget row) = Some l \<longrightarrow>
       sql_add (reserved_tokens (run_budget row)) (a_tokens a) + used_tokens (run_budget row) \<le> l) \<and>
     (\<forall>l. micro_usd_limit (run_budget row) = Some l \<longrightarrow>
       sql_add (reserved_micro_usd (run_budget row)) (a_micro_usd a) + used_micro_usd (run_budget row) \<le> l)"
    using row(2) a by (auto simp: budget_exceeded_def limits_fit_def amounts_valid_def intro!: within_limit)
  then show ?thesis using d' assms(3) row by_key_SomeD [OF row(1)]
    by (auto simp: reserve_budget_tx_def by_key_update_where by_key_append reserve_amounts_def split: if_splits)
qed

theorem reserve_within_limits_witness:
  "\<exists>r. find_run ''run_1'' (database (after sample_codec reserve_ops)) = Some r \<and>
     reserved_calls (run_budget r) + used_calls (run_budget r) \<le> 2"
proof -
  have c: "reserve_budget sample_codec ''run_1'' sample_amounts (Some ''b1'') [] 3 (after sample_codec sample_ops) =
      (Inr ''b1'', after sample_codec reserve_ops)"
    unfolding reserve_ops_def after_append run_ops_def
    by (simp add: reserve_budget_def transaction_def sample_state sample_amounts_def amounts_valid_def
        reserve_budget_tx_def sample_run_def fresh_budget_def budget_exceeded_def
        over_limit_def budget_check_def reserve_amounts_def sql_simps fadd_def)
  from reserve_within_limits [OF c after_ok] show ?thesis
    by (auto simp: sql_simps sample_state reserve_sample sample_run_def fresh_budget_def reserve_amounts_def)
qed

text \<open>
  C11: a reservation is settled once.  After a successful \<open>settle_budget\<close>, and whatever happens
  later, settling it again with the same amounts changes nothing and returns the budget of the
  run, and settling it with other amounts is refused as a conflict: nothing is consumed twice.
\<close>

theorem settle_exactly_once:
  assumes "settle_budget cd rid vid args now j = (Inr b, j')" and "actual_amounts args = Inr actual"
    and "journal_ok j" and "\<not> closed (run_ops (exec cd) later j')"
  defines "J \<equiv> run_ops (exec cd) later j'"
  shows "(\<exists>r. find_run rid (database J) = Some r \<and> settle_budget cd rid vid args now' J = (Inr (run_budget r), J)) \<and>
    (\<exists>s. find_reservation vid (database J) = Some s \<and> rsv_settled s \<and> rsv_actual s = Some actual) \<and>
    (\<forall>args' actual'. actual_amounts args' = Inr actual' \<and> actual' \<noteq> actual \<longrightarrow>
       settle_budget cd rid vid args' now' J = (Inl Conflict, J))"
proof -
  obtain d' where d': "settle_budget_tx cd rid vid actual now (database j) = Inr (b, d')" "j' = j\<lparr>database := d'\<rparr>"
    using assms(1,2) by (auto simp: settle_budget_def transaction_def split: if_splits sum.splits)
  have ok: "journal_ok j'" using exec_journal_ok [OF assms(3), of cd "SettleBudget rid vid args now"] assms(1) by simp
  obtain s where s: "find_reservation vid (database j') = Some s" "rsv_settled s" "rsv_actual s = Some actual"
      "rsv_run s = rid"
    using d' by_key_SomeD [of rsv_id vid "reservations (database j)"]
    by (auto simp: settle_budget_tx_def Let_def by_key_update_where split: if_splits option.splits)
  have "find_run rid (database j') \<noteq> None"
    using d' by (auto simp: settle_budget_tx_def Let_def split: if_splits option.splits)
  then obtain r where r: "find_run rid (database J) = Some r"
    using run_cycle.run_status [OF ok, of rid] by (fastforce simp: run_status_of_def J_def)
  have sJ: "find_reservation vid (database J) = Some s"
    unfolding J_def using settled_reservations.run_frozen [OF ok s(1,2)] .
  have "settle_budget cd rid vid args' now' J =
      (if actual' = actual then (Inr (run_budget r), J) else (Inl Conflict, J))"
    if "actual_amounts args' = Inr actual'" for args' actual'
    using that assms(4) sJ s r unfolding J_def [symmetric]
    by (simp add: settle_budget_def transaction_def settle_budget_tx_def)
  then show ?thesis using assms(2) r sJ s by auto
qed

definition settle_sample :: settle_args where
  "settle_sample = \<lparr>sa_calls = (Some 1, None), sa_tokens = (None, Some 80), sa_micro_usd = (None, None),
     sa_wall = (Some 0, None)\<rparr>"

lemma fsub_self [simp]: "fsub x x = 0"
  by (simp add: fsub_def)

theorem settle_exactly_once_witness:
  "\<exists>b j'. settle_budget sample_codec ''run_1'' ''b1'' settle_sample 4 (after sample_codec reserve_ops) = (Inr b, j') \<and>
     settle_budget sample_codec ''run_1'' ''b1'' settle_sample 5 j' = (Inr b, j')"
proof -
  have act: "actual_amounts settle_sample = Inr \<lparr>a_calls = 1, a_tokens = 80, a_micro_usd = 0, a_wall = 0\<rparr>"
    by (simp add: actual_amounts_def settle_sample_def pick_amount_def amounts_valid_def)
  have "\<exists>b j'. settle_budget sample_codec ''run_1'' ''b1'' settle_sample 4 (after sample_codec reserve_ops) =
      (Inr b, j') \<and> \<not> closed j' \<and> (\<exists>r. find_run ''run_1'' (database j') = Some r \<and> run_budget r = b)"
    by (simp add: settle_budget_def act transaction_def reserve_sample)
      (simp add: settle_budget_tx_def reserve_sample budget_check_def settle_amounts_def reserve_amounts_def sql_simps
        sample_run_def fresh_budget_def sample_amounts_def fadd_def Let_def append_event_row_def)
  then obtain b j' where c: "settle_budget sample_codec ''run_1'' ''b1'' settle_sample 4
      (after sample_codec reserve_ops) = (Inr b, j')" "\<not> closed j'"
      "\<exists>r. find_run ''run_1'' (database j') = Some r \<and> run_budget r = b" by blast
  show ?thesis using settle_exactly_once [OF c(1) act after_ok, where later = "[]"] c by auto
qed

section \<open>A rounding defect\<close>

text \<open>
  The doubles nearest to 0.1 and 0.7.  Their sum rounds to 0.7999999999999999, and taking 0.7 and
  0.1 away again leaves a value below zero.
\<close>

definition wall_01 :: rat where
  "wall_01 = 3602879701896397 / 36028797018963968"

definition wall_07 :: rat where
  "wall_07 = 3152519739159347 / 4503599627370496"

lemma float_sum: "fadd (3602879701896397 / 36028797018963968) (3152519739159347 / 4503599627370496) =
    7205759403792793 / 9007199254740992"
  using round_double_eqI [of "-1" "28823037615171173 / 36028797018963968" "7205759403792793"]
  by (simp add: fadd_def pow2_def)

lemma float_minus_07: "fsub (7205759403792793 / 9007199254740992) (3152519739159347 / 4503599627370496) =
    900719925474099 / 9007199254740992"
  using round_double_eqI [of "-4" "900719925474099 / 9007199254740992" "7205759403792792"]
  by (simp add: fsub_def pow2_def)

lemma float_minus_01: "fsub (900719925474099 / 9007199254740992) (3602879701896397 / 36028797018963968) =
    - 1 / 36028797018963968"
  using round_double_eqI [of "-55" "1 / 36028797018963968" "4503599627370496"] round_double_neg [of "1 / 36028797018963968"]
  by (simp add: fsub_def pow2_def)
lemma float_01: "fadd 0 (3602879701896397 / 36028797018963968) = 3602879701896397 / 36028797018963968"
  using round_double_eqI [of "-4" "3602879701896397 / 36028797018963968" "7205759403792794"]
  by (simp add: fadd_def pow2_def)

definition wall_amounts :: "rat \<Rightarrow> amounts" where
  "wall_amounts w = \<lparr>a_calls = 0, a_tokens = 0, a_micro_usd = 0, a_wall = w\<rparr>"

definition nothing_used :: settle_args where
  "nothing_used = \<lparr>sa_calls = (None, None), sa_tokens = (None, None), sa_micro_usd = (None, None),
     sa_wall = (None, None)\<rparr>"

definition wall_ops :: "journal_op list" where
  "wall_ops = [CreateRun sample_request ''1'' 0,
     ReserveBudget ''run_1'' (wall_amounts wall_01) (Some ''a'') [] 1,
     ReserveBudget ''run_1'' (wall_amounts wall_07) (Some ''b'') [] 2,
     SettleBudget ''run_1'' ''b'' nothing_used 3]"

text \<open>
  A finding.  Two reservations of 0.1 and 0.7 wall seconds, of which the second is settled, make
  the settlement of the first raise an integrity error: the subtraction of the rounded doubles
  goes below zero and violates the table's check, although the amounts are valid and the
  reservation exists and is unsettled.
\<close>

theorem settle_budget_rounding_defect:
  "op_error cd (SettleBudget ''run_1'' ''a'' nothing_used now) (after sample_codec wall_ops) = Some IntegrityError \<and>
   (\<exists>v. find_reservation ''a'' (database (after sample_codec wall_ops)) = Some v \<and> rsv_run v = ''run_1'' \<and>
      \<not> rsv_settled v \<and> rsv_asked v = wall_amounts wall_01)"
  by (simp add: wall_ops_def run_sample_simps wall_amounts_def amounts_valid_def reserve_budget_tx_def
      budget_exceeded_def over_limit_def budget_check_def reserve_amounts_def settle_amounts_def sql_simps
      settle_budget_tx_def nothing_used_def actual_amounts_def pick_amount_def wall_01_def wall_07_def
      float_01 float_sum float_minus_07 float_minus_01)

end
