(* ===== verification/Cron.thy ===== *)
theory Cron
  imports Float64 Contracts
begin

text \<open>
  \<open>src/polaris/scheduler/cron.py\<close> with what it uses of the calendar: local time fields of an
  instant, the field parser with Python's \<open>split\<close> and \<open>partition\<close>, \<open>CronExpression\<close> with
  \<open>matches\<close> and the bounded scan in both directions, and the errors of the scheduler.

  Zone rules come from the tz database, which is not part of the repository: a zone is the record
  of the functions the code calls on a \<open>ZoneInfo\<close>.  Instants are microseconds since the epoch;
  years beyond 9999, where \<open>datetime\<close> overflows, are not modelled.
\<close>

section \<open>Errors\<close>

datatype sched_error =
  ValueError | AssertionFailed | SchedValidation | SchedNotFound | SchedConflict | SchedOwnership | SchedClosed

section \<open>Local time\<close>

text \<open>Offset from UTC at an instant, the fold there, and the offset of a local time with a fold.\<close>

record zone =
  utc_offset :: "instant \<Rightarrow> int"
  fold_at :: "instant \<Rightarrow> bool"
  local_offset :: "int \<Rightarrow> bool \<Rightarrow> int"

definition utc_zone :: zone where
  "utc_zone = \<lparr>utc_offset = (\<lambda>_. 0), fold_at = (\<lambda>_. False), local_offset = (\<lambda>_ _. 0)\<rparr>"

record local_fields =
  lf_minute :: int
  lf_hour :: int
  lf_day :: int
  lf_month :: int
  lf_weekday :: int

definition minute_us :: int where "minute_us = 60000000"
definition day_us :: int where "day_us = 86400000000"

text \<open>
  The proleptic Gregorian calendar: month and day of the day number \<open>z\<close> since 1970-01-01, by eras
  of 400 years that start on the first of March.
\<close>

definition civil_month_day :: "int \<Rightarrow> int \<times> int" where
  "civil_month_day z =
     (let n = z + 719468; doe = n mod 146097;
          yoe = (doe - doe div 1460 + doe div 36524 - doe div 146096) div 365;
          doy = doe - (365 * yoe + yoe div 4 - yoe div 100);
          mp = (5 * doy + 2) div 153
      in (if mp < 10 then mp + 3 else mp - 9, doy - (153 * mp + 2) div 5 + 1))"

text \<open>\<open>datetime.weekday\<close>: Monday is 0; the epoch was a Thursday.\<close>

definition fields_of_local :: "int \<Rightarrow> local_fields" where
  "fields_of_local t =
     (let d = t div day_us; m = (t mod day_us) div minute_us; (mo, da) = civil_month_day d
      in \<lparr>lf_minute = m mod 60, lf_hour = m div 60, lf_day = da, lf_month = mo,
          lf_weekday = (d + 3) mod 7\<rparr>)"

definition local_fields_at :: "zone \<Rightarrow> instant \<Rightarrow> local_fields" where
  "local_fields_at z t = fields_of_local (t + utc_offset z t)"

section \<open>Text\<close>

text \<open>\<open>s.split(c)\<close>, \<open>s.partition(c)\<close> and \<open>s.split()\<close>.\<close>

fun split_char :: "char \<Rightarrow> str \<Rightarrow> str list" where
  "split_char c [] = [[]]"
| "split_char c (x # xs) =
     (if x = c then [] # split_char c xs
      else (case split_char c xs of [] \<Rightarrow> [[x]] | w # ws \<Rightarrow> (x # w) # ws))"

fun partition_char :: "char \<Rightarrow> str \<Rightarrow> str \<times> bool \<times> str" where
  "partition_char c [] = ([], False, [])"
| "partition_char c (x # xs) =
     (if x = c then ([], True, xs)
      else (case partition_char c xs of (a, found, b) \<Rightarrow> (x # a, found, b)))"

fun split_words :: "str \<Rightarrow> str \<Rightarrow> str list" where
  "split_words acc [] = (if acc = [] then [] else [rev acc])"
| "split_words acc (x # xs) =
     (if py_space x then (if acc = [] then split_words [] xs else rev acc # split_words [] xs)
      else split_words (x # acc) xs)"

definition py_split :: "str \<Rightarrow> str list" where
  "py_split s = split_words [] s"

section \<open>The field parser\<close>

text \<open>\<open>range(start, stop, step)\<close> for a positive step.\<close>

definition py_range :: "int \<Rightarrow> int \<Rightarrow> int \<Rightarrow> int list" where
  "py_range start stop step =
     map (\<lambda>i. start + int i * step) [0..<nat ((stop - start + step - 1) div step)]"

text \<open>One part of the list, the body of the loop of \<open>_parse_field\<close>.\<close>

definition part_bounds :: "str \<Rightarrow> bool \<Rightarrow> int \<Rightarrow> int \<Rightarrow> sched_error + int \<times> int" where
  "part_bounds base slash low high =
     (if base = ''*'' then Inr (low, high)
      else if CHR ''-'' \<in> set base then
        (case partition_char (CHR ''-'') base of (a, _, b) \<Rightarrow>
          (case (py_int a, py_int b) of
             (Some s, Some e) \<Rightarrow> if e < s then Inl ValueError else Inr (s, e)
           | _ \<Rightarrow> Inl ValueError))
      else (case py_int base of
             None \<Rightarrow> Inl ValueError
           | Some s \<Rightarrow> Inr (s, if slash then high else s)))"

definition parse_part :: "str \<Rightarrow> int \<Rightarrow> int \<Rightarrow> sched_error + int list" where
  "parse_part part low high =
     (case partition_char (CHR ''/'') part of (base, slash, step_text) \<Rightarrow>
       (case (if slash then py_int step_text else Some 1) of
          None \<Rightarrow> Inl ValueError
        | Some step \<Rightarrow>
            if step \<le> 0 then Inl ValueError
            else case part_bounds base slash low high of
              Inl e \<Rightarrow> Inl e
            | Inr (s, e) \<Rightarrow> if s < low \<or> high < e then Inl ValueError
                            else Inr (py_range s (e + 1) step)))"

fun parse_parts :: "str list \<Rightarrow> int \<Rightarrow> int \<Rightarrow> sched_error + int list" where
  "parse_parts [] low high = Inr []"
| "parse_parts (p # ps) low high =
     (case parse_part p low high of
        Inl e \<Rightarrow> Inl e
      | Inr vs \<Rightarrow> (case parse_parts ps low high of Inl e \<Rightarrow> Inl e | Inr ws \<Rightarrow> Inr (vs @ ws)))"

definition parse_field :: "str \<Rightarrow> int \<Rightarrow> int \<Rightarrow> bool \<Rightarrow> sched_error + int set" where
  "parse_field text low high dow =
     (if text = [] then Inl ValueError
      else case parse_parts (split_char (CHR '','') text) low high of
        Inl e \<Rightarrow> Inl e
      | Inr vs \<Rightarrow> Inr (if dow \<and> 7 \<in> set vs then insert 0 (set vs - {7}) else set vs))"

section \<open>Expressions\<close>

record cron_expression =
  cron_minutes :: "int set"
  cron_hours :: "int set"
  cron_days :: "int set"
  cron_months :: "int set"
  cron_weekdays :: "int set"
  day_wildcard :: bool
  weekday_wildcard :: bool

definition cron_parse :: "str \<Rightarrow> sched_error + cron_expression" where
  "cron_parse text =
     (case py_split text of
        [mi, ho, da, mo, wd] \<Rightarrow>
          (case parse_field mi 0 59 False of Inl e \<Rightarrow> Inl e | Inr mi' \<Rightarrow>
           case parse_field ho 0 23 False of Inl e \<Rightarrow> Inl e | Inr ho' \<Rightarrow>
           case parse_field da 1 31 False of Inl e \<Rightarrow> Inl e | Inr da' \<Rightarrow>
           case parse_field mo 1 12 False of Inl e \<Rightarrow> Inl e | Inr mo' \<Rightarrow>
           case parse_field wd 0 7 True of Inl e \<Rightarrow> Inl e | Inr wd' \<Rightarrow>
             Inr \<lparr>cron_minutes = mi', cron_hours = ho', cron_days = da', cron_months = mo',
                  cron_weekdays = wd', day_wildcard = (da = ''*''), weekday_wildcard = (wd = ''*'')\<rparr>)
      | _ \<Rightarrow> Inl ValueError)"

definition cron_matches :: "cron_expression \<Rightarrow> local_fields \<Rightarrow> bool" where
  "cron_matches c f \<longleftrightarrow>
     lf_minute f \<in> cron_minutes c \<and> lf_hour f \<in> cron_hours c \<and> lf_month f \<in> cron_months c \<and>
     (let day_matches = lf_day f \<in> cron_days c;
          weekday_matches = (lf_weekday f + 1) mod 7 \<in> cron_weekdays c
      in if day_wildcard c then weekday_matches
         else if weekday_wildcard c then day_matches
         else day_matches \<or> weekday_matches)"

section \<open>The scan\<close>

definition scan_limit :: nat where
  "scan_limit = 8 * 366 * 24 * 60"

text \<open>The loop over candidates, one minute apart; the fuel is the program's own bound.\<close>

fun scan_loop :: "nat \<Rightarrow> cron_expression \<Rightarrow> zone \<Rightarrow> int \<Rightarrow> instant \<Rightarrow> sched_error + instant" where
  "scan_loop 0 c z direction t = Inl ValueError"
| "scan_loop (Suc n) c z direction t =
     (if cron_matches c (local_fields_at z t) then Inr t
      else scan_loop n c z direction (t + direction * minute_us))"

definition cron_scan :: "cron_expression \<Rightarrow> zone \<Rightarrow> int \<Rightarrow> bool \<Rightarrow> instant \<Rightarrow> sched_error + instant" where
  "cron_scan c z direction inclusive t =
     (let c0 = t div minute_us * minute_us;
          c1 = (if \<not> inclusive \<or> (0 < direction \<and> c0 \<le> t) then c0 + direction * minute_us
                else if direction < 0 \<and> t < c0 then c0 - minute_us else c0)
      in scan_loop scan_limit c z direction c1)"

definition cron_next_after :: "cron_expression \<Rightarrow> zone \<Rightarrow> instant \<Rightarrow> sched_error + instant" where
  "cron_next_after c z t = cron_scan c z 1 False t"

definition cron_previous_or_at :: "cron_expression \<Rightarrow> zone \<Rightarrow> instant \<Rightarrow> sched_error + instant" where
  "cron_previous_or_at c z t = cron_scan c z (- 1) True t"

fun cron_next_times_loop :: "nat \<Rightarrow> cron_expression \<Rightarrow> zone \<Rightarrow> instant \<Rightarrow> sched_error + instant list" where
  "cron_next_times_loop 0 c z t = Inr []"
| "cron_next_times_loop (Suc n) c z t =
     (case cron_next_after c z t of
        Inl e \<Rightarrow> Inl e
      | Inr u \<Rightarrow> (case cron_next_times_loop n c z u of Inl e \<Rightarrow> Inl e | Inr us \<Rightarrow> Inr (u # us)))"

definition cron_next_times :: "cron_expression \<Rightarrow> zone \<Rightarrow> instant \<Rightarrow> int \<Rightarrow> sched_error + instant list" where
  "cron_next_times c z t count =
     (if count < 0 \<or> 1000 < count then Inl ValueError else cron_next_times_loop (nat count) c z t)"

section \<open>Lemmas\<close>

lemma py_range_mem: "0 < k \<Longrightarrow> x \<in> set (py_range a b k) \<longleftrightarrow> a \<le> x \<and> x < b \<and> (x - a) mod k = 0"
proof -
  assume k: "0 < k"
  show ?thesis
  proof
    assume "x \<in> set (py_range a b k)"
    then obtain i where i: "i < nat ((b - a + k - 1) div k)" "x = a + int i * k" by (auto simp: py_range_def)
    then have "int i + 1 \<le> (b - a + k - 1) div k" by linarith
    then have "(int i + 1) * k \<le> (b - a + k - 1) div k * k" using k by simp
    also have "\<dots> \<le> b - a + k - 1"
      using pos_mod_sign [OF k, of "b - a + k - 1"] by (simp add: minus_mod_eq_div_mult [symmetric])
    finally have "int i * k < b - a" by (simp add: algebra_simps)
    then show "a \<le> x \<and> x < b \<and> (x - a) mod k = 0" using i(2) k by simp
  next
    assume x: "a \<le> x \<and> x < b \<and> (x - a) mod k = 0"
    define i where "i = nat ((x - a) div k)"
    have i: "x = a + int i * k" using x k by (simp add: i_def pos_imp_zdiv_nonneg_iff minus_mod_eq_div_mult [symmetric])
    have "(int i + 1) * k \<le> b - a + k - 1" using x i by (simp add: algebra_simps)
    then have "(int i + 1) * k div k \<le> (b - a + k - 1) div k" using k by (rule zdiv_mono1)
    then have "int i + 1 \<le> (b - a + k - 1) div k" using k by simp
    then show "x \<in> set (py_range a b k)" using i by (auto simp: py_range_def)
  qed
qed

text \<open>Every value of a parsed field lies in the field's range.\<close>

lemma parse_part_bounds:
  "parse_part p low high = Inr vs \<Longrightarrow> x \<in> set vs \<Longrightarrow> low \<le> x \<and> x \<le> high"
  by (auto simp: parse_part_def py_range_mem split: prod.splits option.splits sum.splits if_splits)

lemma parse_parts_bounds:
  "parse_parts ps low high = Inr vs \<Longrightarrow> x \<in> set vs \<Longrightarrow> low \<le> x \<and> x \<le> high"
  by (induction ps arbitrary: vs) (auto dest: parse_part_bounds split: sum.splits)

lemma parse_field_bounds:
  assumes "parse_field text low high dow = Inr V" and "x \<in> V"
  shows "(low \<le> x \<and> x \<le> high) \<or> (dow \<and> x = 0)" and "dow \<Longrightarrow> x \<noteq> 7"
  using assms by (auto simp: parse_field_def dest: parse_parts_bounds split: if_splits sum.splits)

text \<open>The scan returns the first matching candidate.\<close>

lemma scan_loop_Inr:
  "scan_loop n c z s t = Inr u \<Longrightarrow>
   \<exists>i<n. u = t + int i * (s * minute_us) \<and> cron_matches c (local_fields_at z u) \<and>
     (\<forall>k<i. \<not> cron_matches c (local_fields_at z (t + int k * (s * minute_us))))"
proof (induction n arbitrary: t)
  case (Suc n)
  show ?case
  proof (cases "cron_matches c (local_fields_at z t)")
    case True
    with Suc.prems show ?thesis by (intro exI [of _ 0]) simp
  next
    case False
    with Suc obtain i where i: "i < n" "u = t + s * minute_us + int i * (s * minute_us)"
      "cron_matches c (local_fields_at z u)"
      "\<forall>k<i. \<not> cron_matches c (local_fields_at z (t + s * minute_us + int k * (s * minute_us)))"
      by fastforce
    have "\<not> cron_matches c (local_fields_at z (t + int k * (s * minute_us)))" if "k < Suc i" for k
      using that i(4) False by (cases k) (auto simp: algebra_simps)
    with i show ?thesis by (intro exI [of _ "Suc i"]) (auto simp: algebra_simps)
  qed
qed simp

lemma scan_loop_Inl:
  "scan_loop n c z s t = Inl e \<longleftrightarrow>
   e = ValueError \<and> (\<forall>i<n. \<not> cron_matches c (local_fields_at z (t + int i * (s * minute_us))))"
proof (induction n arbitrary: t)
  case (Suc n)
  have "(\<forall>i<Suc n. P i) \<longleftrightarrow> P 0 \<and> (\<forall>i<n. P (Suc i))" for P
    using less_Suc_eq_0_disj by auto
  then show ?case using Suc by (auto simp: algebra_simps)
qed auto

lemma scan_loop_hit: "cron_matches c (local_fields_at z t) \<Longrightarrow> 0 < n \<Longrightarrow> scan_loop n c z s t = Inr t"
  by (cases n) auto

lemma minute_multiple:
  assumes "v mod minute_us = 0" and "t < v"
  obtains k :: nat where "v = t div minute_us * minute_us + minute_us + int k * minute_us"
proof -
  have v: "v = (v div minute_us) * minute_us" using assms(1) by (simp add: minus_mod_eq_div_mult [symmetric])
  have "t div minute_us < v div minute_us"
  proof (rule ccontr)
    assume "\<not> t div minute_us < v div minute_us"
    then have "v div minute_us * minute_us \<le> t div minute_us * minute_us" by (simp add: minute_us_def)
    also have "\<dots> \<le> t" by (simp add: minute_us_def minus_mod_eq_div_mult [symmetric])
    finally show False using v assms(2) by simp
  qed
  then obtain k :: nat where "v div minute_us = t div minute_us + 1 + int k"
    by (metis add.commute zle_iff_zadd zless_imp_add1_zle)
  with v that show ?thesis by (metis (no_types) distrib_right mult_1 mult.commute add.assoc)
qed

lemma cron_next_after_unfold:
  "cron_next_after c z t = scan_loop scan_limit c z 1 (t div minute_us * minute_us + minute_us)"
  by (simp add: cron_next_after_def cron_scan_def)

lemma cron_previous_unfold:
  "cron_previous_or_at c z t = scan_loop scan_limit c z (- 1) (t div minute_us * minute_us)"
proof -
  have "t div minute_us * minute_us \<le> t"
    by (simp add: minute_us_def minus_mod_eq_div_mult [symmetric])
  then show ?thesis by (simp add: cron_previous_or_at_def cron_scan_def Let_def)
qed

lemma cron_next_afterE:
  assumes "cron_next_after c z t = Inr u"
  obtains i :: nat where "u = t div minute_us * minute_us + minute_us + int i * minute_us"
    "cron_matches c (local_fields_at z u)"
    "\<forall>k<i. \<not> cron_matches c (local_fields_at z (t div minute_us * minute_us + minute_us + int k * minute_us))"
  using scan_loop_Inr [OF assms [unfolded cron_next_after_unfold]] that by (simp only: mult_1) blast

lemma cron_previousE:
  assumes "cron_previous_or_at c z t = Inr u"
  obtains i :: nat where "u = t div minute_us * minute_us - int i * minute_us"
    "cron_matches c (local_fields_at z u)"
    "\<forall>k<i. \<not> cron_matches c (local_fields_at z (t div minute_us * minute_us - int k * minute_us))"
proof -
  have neg: "a + int i * (- 1 * minute_us) = a - int i * minute_us" for a i by simp
  show ?thesis
    using scan_loop_Inr [OF assms [unfolded cron_previous_unfold]] that by (simp only: neg) blast
qed

lemma cron_next_after_later: "cron_next_after c z t = Inr u \<Longrightarrow> t < u"
proof -
  assume "cron_next_after c z t = Inr u"
  then obtain i :: nat where "u = t div minute_us * minute_us + minute_us + int i * minute_us"
    by (rule cron_next_afterE)
  moreover have "t < t div minute_us * minute_us + minute_us"
    using pos_mod_bound [of minute_us t] by (simp add: minute_us_def minus_mod_eq_div_mult [symmetric])
  ultimately show ?thesis by (simp add: minute_us_def)
qed

interpretation cron_source: occurrence_source
  "\<lambda>t. case cron_next_after c z t of Inl e \<Rightarrow> None | Inr u \<Rightarrow> Some u" for c z
  by unfold_locales (auto split: sum.splits dest: cron_next_after_later)

lemma cron_next_times_walk:
  "cron_next_times_loop n c z t = Inr us \<Longrightarrow>
   us = walk (\<lambda>t. case cron_next_after c z t of Inl e \<Rightarrow> None | Inr u \<Rightarrow> Some u) n t \<and> length us = n"
  by (induction n arbitrary: t us) (auto split: sum.splits)

section \<open>Properties\<close>

text \<open>
  C15: a parsed cron expression only holds values of the fields' ranges: minutes 0 to 59, hours 0
  to 23, days 1 to 31, months 1 to 12 and weekdays 0 to 6, with 7 folded into Sunday.
\<close>

theorem cron_parse_ranges:
  assumes "cron_parse text = Inr c"
  shows "cron_minutes c \<subseteq> {0..59} \<and> cron_hours c \<subseteq> {0..23} \<and> cron_days c \<subseteq> {1..31} \<and>
    cron_months c \<subseteq> {1..12} \<and> cron_weekdays c \<subseteq> {0..6}"
proof -
  obtain mi ho da mo wd where f: "parse_field mi 0 59 False = Inr (cron_minutes c)"
     "parse_field ho 0 23 False = Inr (cron_hours c)" "parse_field da 1 31 False = Inr (cron_days c)"
     "parse_field mo 1 12 False = Inr (cron_months c)" "parse_field wd 0 7 True = Inr (cron_weekdays c)"
    using assms by (auto simp: cron_parse_def split: list.splits sum.splits)
  have "cron_weekdays c \<subseteq> {0..6}"
  proof
    fix x assume "x \<in> cron_weekdays c"
    with parse_field_bounds [OF f(5)] have "0 \<le> x" "x \<le> 7" "x \<noteq> 7" by fastforce+
    then show "x \<in> {0..6}" by simp
  qed
  moreover have "cron_minutes c \<subseteq> {0..59}" "cron_hours c \<subseteq> {0..23}" "cron_days c \<subseteq> {1..31}"
      "cron_months c \<subseteq> {1..12}"
    using parse_field_bounds(1) [OF f(1)] parse_field_bounds(1) [OF f(2)] parse_field_bounds(1) [OF f(3)]
      parse_field_bounds(1) [OF f(4)] by fastforce+
  ultimately show ?thesis by simp
qed

definition sample_cron :: cron_expression where
  "sample_cron = \<lparr>cron_minutes = {0, 30}, cron_hours = {9}, cron_days = {1}, cron_months = set (py_range 1 13 1),
     cron_weekdays = {0, 1}, day_wildcard = False, weekday_wildcard = False\<rparr>"

lemma sample_cron_parse: "cron_parse ''*/30 9 1 * 1,7'' = Inr sample_cron"
  by (simp add: cron_parse_def py_split_def py_space_def parse_field_def parse_part_def part_bounds_def
      py_int_def py_strip_def digit_value_def sample_cron_def py_range_def upt_rec)
    (auto simp: upt_rec)

theorem cron_parse_ranges_witness: "cron_weekdays sample_cron \<subseteq> {0..6}"
  using cron_parse_ranges [OF sample_cron_parse] by simp

text \<open>
  C16: \<open>next_after\<close> returns the least whole minute strictly after the reference at which the
  expression matches the local time of the zone, whatever the zone's rules are; it raises only
  when none of the following minutes of the scan (eight years) matches.
\<close>

theorem cron_next_after_least:
  "case cron_next_after c z t of
     Inr u \<Rightarrow> t < u \<and> u mod minute_us = 0 \<and> cron_matches c (local_fields_at z u) \<and>
       {v. t < v \<and> v < u \<and> v mod minute_us = 0 \<and> cron_matches c (local_fields_at z v)} = {}
   | Inl e \<Rightarrow> e = ValueError \<and>
       {v. t < v \<and> v \<le> t + int scan_limit * minute_us \<and> v mod minute_us = 0 \<and>
           cron_matches c (local_fields_at z v)} = {}"
proof (cases "cron_next_after c z t")
  case (Inr u)
  then obtain i where i: "u = t div minute_us * minute_us + minute_us + int i * minute_us"
     "cron_matches c (local_fields_at z u)"
     "\<forall>k<i. \<not> cron_matches c (local_fields_at z (t div minute_us * minute_us + minute_us + int k * minute_us))"
    by (rule cron_next_afterE)
  have "\<not> cron_matches c (local_fields_at z v)" if v: "t < v" "v < u" "v mod minute_us = 0" for v
  proof -
    obtain k :: nat where "v = t div minute_us * minute_us + minute_us + int k * minute_us"
      using minute_multiple [OF v(3,1)] .
    then show ?thesis using i(1,3) v(2) by (simp add: minute_us_def)
  qed
  moreover have "u mod minute_us = 0" by (simp add: i(1))
  ultimately show ?thesis using Inr i(2) cron_next_after_later [OF Inr] by auto
next
  case (Inl e)
  then have none: "e = ValueError" "\<forall>i<scan_limit. \<not> cron_matches c
      (local_fields_at z (t div minute_us * minute_us + minute_us + int i * minute_us))"
    unfolding cron_next_after_unfold scan_loop_Inl by auto
  have "\<not> cron_matches c (local_fields_at z v)"
    if v: "t < v" "v \<le> t + int scan_limit * minute_us" "v mod minute_us = 0" for v
  proof -
    obtain k :: nat where k: "v = t div minute_us * minute_us + minute_us + int k * minute_us"
      using minute_multiple [OF v(3,1)] .
    have "t < t div minute_us * minute_us + minute_us"
      using pos_mod_bound [of minute_us t] by (simp add: minute_us_def minus_mod_eq_div_mult [symmetric])
    then have "int k * minute_us < int scan_limit * minute_us" using k v(2) by linarith
    then show ?thesis using none(2) k by (simp add: minute_us_def)
  qed
  then show ?thesis using Inl none(1) by auto
qed

text \<open>
  \<open>previous_or_at\<close> returns the greatest whole minute at or before the reference at which the
  expression matches.
\<close>

theorem cron_previous_or_at_greatest:
  assumes "cron_previous_or_at c z t = Inr u"
  shows "u \<le> t \<and> u mod minute_us = 0 \<and> cron_matches c (local_fields_at z u) \<and>
    {v. u < v \<and> v \<le> t \<and> v mod minute_us = 0 \<and> cron_matches c (local_fields_at z v)} = {}"
proof -
  obtain i where i: "u = t div minute_us * minute_us - int i * minute_us"
     "cron_matches c (local_fields_at z u)"
     "\<forall>k<i. \<not> cron_matches c (local_fields_at z (t div minute_us * minute_us - int k * minute_us))"
    using assms by (rule cron_previousE)
  have floor: "t div minute_us * minute_us \<le> t"
    by (simp add: minute_us_def minus_mod_eq_div_mult [symmetric])
  have "\<not> cron_matches c (local_fields_at z v)" if v: "u < v" "v \<le> t" "v mod minute_us = 0" for v
  proof -
    obtain k :: nat where k: "v = u div minute_us * minute_us + minute_us + int k * minute_us"
      using minute_multiple [OF v(3,1)] .
    have u: "u div minute_us * minute_us = u" by (simp add: i(1) minute_us_def)
    have "v div minute_us \<le> t div minute_us" using v(2) by (intro zdiv_mono1) (simp_all add: minute_us_def)
    then have "v \<le> t div minute_us * minute_us"
      using v(3) by (metis minute_us_def mult_right_mono zero_le_numeral add.right_neutral div_mult_mod_eq)
    then have "int (Suc k) \<le> int i" using k u i(1) by (simp add: minute_us_def)
    then have "i - Suc k < i" "v = t div minute_us * minute_us - int (i - Suc k) * minute_us"
      using k u i(1) by (auto simp: of_nat_diff algebra_simps)
    then show ?thesis using i(3) by blast
  qed
  moreover have "u mod minute_us = 0" by (simp add: i(1) minute_us_def)
  moreover have "u \<le> t" using floor i(1) by (simp add: minute_us_def)
  ultimately show ?thesis using i(2) by auto
qed

lemma sample_fields: "local_fields_at utc_zone 1704099600000000 =
    \<lparr>lf_minute = 0, lf_hour = 9, lf_day = 1, lf_month = 1, lf_weekday = 0\<rparr>"
  by code_simp

lemma sample_cron_matches: "cron_matches sample_cron (local_fields_at utc_zone 1704099600000000)"
  by (simp add: sample_fields cron_matches_def sample_cron_def py_range_mem)

lemma sample_previous: "cron_previous_or_at sample_cron utc_zone 1704099600000001 = Inr 1704099600000000"
proof -
  have "(1704099600000001 :: int) div minute_us * minute_us = 1704099600000000" by (simp add: minute_us_def)
  then show ?thesis
    using scan_loop_hit [OF sample_cron_matches, of scan_limit] by (simp add: cron_previous_unfold scan_limit_def)
qed

theorem cron_previous_or_at_greatest_witness:
  "cron_matches sample_cron (local_fields_at utc_zone 1704099600000000)"
  using cron_previous_or_at_greatest [OF sample_previous] by simp

end
