(* ===== verification/SchedulerModel.thy ===== *)
theory SchedulerModel
  imports Cron Codec
begin

text \<open>
  \<open>src/polaris/scheduler/models.py\<close> and the schedule arithmetic of \<open>store.py\<close>: timestamps, schedule
  and payload validation, \<open>compute_next_run\<close>, \<open>preview_next_times\<close>, \<open>_initial_run\<close>,
  \<open>_due_occurrences\<close> and \<open>_advance_after_now\<close>, and the rows of the scheduler's tables.

  The environment holds what the code takes from outside the repository: the tz database behind
  \<open>ZoneInfo\<close>, the grammar of \<open>datetime.fromisoformat\<close>, and the permutation that
  \<open>random.Random(seed).shuffle\<close> performs.  A schedule read back from the database is the schedule
  that was stored; a \<open>datetime\<close> in it has become its ISO text, which denotes the same moment.
\<close>

section \<open>Statuses\<close>

datatype schedule_kind = KindOnce | KindInterval | KindCron
datatype catchup_policy = CatchupSkip | CatchupFireOnce | CatchupBounded
datatype job_state = JobScheduled | JobPaused | JobCompleted | JobCancelled
datatype job_run_status =
  JrClaimed | JrRunning | JrSucceeded | JrFailed | JrInterrupted | JrCancelled
datatype delivery_status = DvNotRequested | DvPending | DvSucceeded | DvFailed | DvSuppressed

fun schedule_kind_value :: "schedule_kind \<Rightarrow> str" where
  "schedule_kind_value KindOnce = ''once''"
| "schedule_kind_value KindInterval = ''interval''"
| "schedule_kind_value KindCron = ''cron''"

fun catchup_value :: "catchup_policy \<Rightarrow> str" where
  "catchup_value CatchupSkip = ''skip''"
| "catchup_value CatchupFireOnce = ''fire_once''"
| "catchup_value CatchupBounded = ''bounded''"

fun job_state_value :: "job_state \<Rightarrow> str" where
  "job_state_value JobScheduled = ''scheduled''"
| "job_state_value JobPaused = ''paused''"
| "job_state_value JobCompleted = ''completed''"
| "job_state_value JobCancelled = ''cancelled''"

fun job_run_value :: "job_run_status \<Rightarrow> str" where
  "job_run_value JrClaimed = ''claimed''"
| "job_run_value JrRunning = ''running''"
| "job_run_value JrSucceeded = ''succeeded''"
| "job_run_value JrFailed = ''failed''"
| "job_run_value JrInterrupted = ''interrupted''"
| "job_run_value JrCancelled = ''cancelled''"

fun delivery_value :: "delivery_status \<Rightarrow> str" where
  "delivery_value DvNotRequested = ''not_requested''"
| "delivery_value DvPending = ''pending''"
| "delivery_value DvSucceeded = ''succeeded''"
| "delivery_value DvFailed = ''failed''"
| "delivery_value DvSuppressed = ''suppressed''"

text \<open>\<open>Enum(text)\<close>: the member with that value, or \<open>ValueError\<close>.\<close>

definition coerce_enum :: "('a \<Rightarrow> str) \<Rightarrow> 'a list \<Rightarrow> str \<Rightarrow> sched_error + 'a" where
  "coerce_enum value members s =
     (case find (\<lambda>x. value x = s) members of None \<Rightarrow> Inl ValueError | Some x \<Rightarrow> Inr x)"

definition coerce_job_run :: "str \<Rightarrow> sched_error + job_run_status" where
  "coerce_job_run = coerce_enum job_run_value
     [JrClaimed, JrRunning, JrSucceeded, JrFailed, JrInterrupted, JrCancelled]"

definition coerce_delivery :: "str \<Rightarrow> sched_error + delivery_status" where
  "coerce_delivery = coerce_enum delivery_value
     [DvNotRequested, DvPending, DvSucceeded, DvFailed, DvSuppressed]"

definition coerce_catchup :: "str \<Rightarrow> sched_error + catchup_policy" where
  "coerce_catchup = coerce_enum catchup_value [CatchupSkip, CatchupFireOnce, CatchupBounded]"

definition coerce_job_state :: "str \<Rightarrow> sched_error + job_state" where
  "coerce_job_state = coerce_enum job_state_value [JobScheduled, JobPaused, JobCompleted, JobCancelled]"

definition coerce_kind :: "str \<Rightarrow> sched_error + schedule_kind" where
  "coerce_kind = coerce_enum schedule_kind_value [KindOnce, KindInterval, KindCron]"

section \<open>Timestamps\<close>

text \<open>A \<open>datetime\<close> with or without a time zone; a naive one holds its local microseconds.\<close>

datatype moment = Aware instant | Naive int

datatype stamp = StampText str | StampMoment moment

text \<open>One row of \<open>jobs\<close> and one of \<open>job_runs\<close>; the JSON columns hold the value they encode.\<close>

record schedule_spec =
  sp_kind :: schedule_kind
  sp_once :: "stamp option"
  sp_interval :: "rat option"
  sp_cron :: "str option"
  sp_timezone :: str
  sp_start :: "stamp option"

record job_payload =
  pl_mode :: str
  pl_request :: json
  pl_delivery :: "json option"

record job_row =
  job_id :: str
  job_name :: str
  job_schedule :: schedule_spec
  job_payload :: job_payload
  job_policy :: catchup_policy
  job_max_catchup :: int
  job_grace :: rat
  job_stat :: job_state
  next_run_at :: "instant option"
  job_created :: instant
  job_updated :: instant
  job_version :: int

record job_run_row =
  jr_id :: str
  jr_job :: str
  jr_scheduled :: instant
  jr_payload :: job_payload
  jr_stat :: job_run_status
  jr_attempt :: int
  jr_owner :: "str option"
  jr_expires :: "instant option"
  polaris_run :: "str option"
  cancel_requested :: bool
  execution_error :: "str option"
  delivery_stat :: delivery_status
  delivery_error :: "str option"
  jr_claimed :: instant
  jr_started :: "instant option"
  jr_completed :: "instant option"
  jr_updated :: instant

record sched_env =
  zone_of :: "str \<Rightarrow> zone option"
  iso_parse :: "str \<Rightarrow> moment option"
  shuffle :: "int \<Rightarrow> job_row list \<Rightarrow> job_row list"

definition get_timezone :: "sched_env \<Rightarrow> str \<Rightarrow> sched_error + zone" where
  "get_timezone env name = (case zone_of env name of None \<Rightarrow> Inl ValueError | Some z \<Rightarrow> Inr z)"

definition local_candidate :: "int \<Rightarrow> zone \<Rightarrow> bool \<Rightarrow> instant list \<Rightarrow> instant list" where
  "local_candidate l z side found =
     (let c = l - local_offset z l side
      in if c + utc_offset z c = l \<and> fold_at z c = side \<and> c \<notin> set found then found @ [c] else found)"

definition valid_local_instants :: "int \<Rightarrow> zone \<Rightarrow> instant list" where
  "valid_local_instants l z = sort (local_candidate l z True (local_candidate l z False []))"

definition resolve_local :: "sched_env \<Rightarrow> int \<Rightarrow> str \<Rightarrow> sched_error + instant" where
  "resolve_local env l tz =
     (case get_timezone env tz of
        Inl e \<Rightarrow> Inl e
      | Inr z \<Rightarrow> (case valid_local_instants l z of [] \<Rightarrow> Inl ValueError | t # _ \<Rightarrow> Inr t))"

definition resolve_moment :: "sched_env \<Rightarrow> moment \<Rightarrow> str \<Rightarrow> sched_error + instant" where
  "resolve_moment env m tz = (case m of Aware t \<Rightarrow> Inr t | Naive l \<Rightarrow> resolve_local env l tz)"

definition expand_zulu :: "str \<Rightarrow> str" where
  "expand_zulu s = (if s \<noteq> [] \<and> last s = CHR ''Z'' then butlast s @ ''+00:00'' else s)"

definition parse_timestamp :: "sched_env \<Rightarrow> stamp \<Rightarrow> str \<Rightarrow> sched_error + instant" where
  "parse_timestamp env v tz =
     (case v of
        StampMoment m \<Rightarrow> resolve_moment env m tz
      | StampText s \<Rightarrow>
          (let text = py_strip s in
           if text = [] then Inl ValueError
           else case iso_parse env (expand_zulu text) of
             None \<Rightarrow> Inl ValueError
           | Some m \<Rightarrow> resolve_moment env m tz))"

section \<open>Schedules and payloads\<close>

text \<open>\<open>ScheduleSpec.__post_init__\<close>.  A rational interval is finite.\<close>

definition make_schedule ::
  "sched_env \<Rightarrow> str \<Rightarrow> stamp option \<Rightarrow> rat option \<Rightarrow> str option \<Rightarrow> str \<Rightarrow> stamp option \<Rightarrow>
   sched_error + schedule_spec" where
  "make_schedule env kind once interval cron tz start =
     (case coerce_kind kind of
        Inl e \<Rightarrow> Inl e
      | Inr k \<Rightarrow>
          (let spec = \<lparr>sp_kind = k, sp_once = once, sp_interval = interval, sp_cron = cron,
                       sp_timezone = tz, sp_start = start\<rparr>
           in case get_timezone env tz of
             Inl e \<Rightarrow> Inl e
           | Inr _ \<Rightarrow>
               (case k of
                  KindOnce \<Rightarrow>
                    (case once of
                       None \<Rightarrow> Inl ValueError
                     | Some ts \<Rightarrow> (case parse_timestamp env ts tz of
                           Inl e \<Rightarrow> Inl e
                         | Inr _ \<Rightarrow> if interval \<noteq> None \<or> cron \<noteq> None then Inl ValueError else Inr spec))
                | KindInterval \<Rightarrow>
                    (if (case interval of None \<Rightarrow> True | Some i \<Rightarrow> i \<le> 0) then Inl ValueError
                     else if once \<noteq> None \<or> cron \<noteq> None then Inl ValueError
                     else case start of
                       None \<Rightarrow> Inr spec
                     | Some ts \<Rightarrow> (case parse_timestamp env ts tz of Inl e \<Rightarrow> Inl e | Inr _ \<Rightarrow> Inr spec))
                | KindCron \<Rightarrow>
                    (case cron of
                       None \<Rightarrow> Inl ValueError
                     | Some c \<Rightarrow> if once \<noteq> None \<or> interval \<noteq> None then Inl ValueError
                                else case cron_parse c of Inl e \<Rightarrow> Inl e | Inr _ \<Rightarrow> Inr spec))))"

text \<open>\<open>JobPayload.__post_init__\<close>; the request is a mapping by its type here.\<close>

definition normalise_mode :: "str \<Rightarrow> str" where
  "normalise_mode mode =
     (let m = map (\<lambda>c. if c = CHR ''_'' then CHR ''-'' else c) mode
      in if m = ''fan-out'' then ''fanout'' else m)"

definition make_payload :: "str \<Rightarrow> json \<Rightarrow> json option \<Rightarrow> sched_error + job_payload" where
  "make_payload mode request delivery =
     (let m = normalise_mode mode in
      if m \<notin> {''single'', ''fanout'', ''foundry-router''} then Inl ValueError
      else Inr \<lparr>pl_mode = m, pl_request = request, pl_delivery = delivery\<rparr>)"

section \<open>Occurrences\<close>

text \<open>
  \<open>timedelta.total_seconds\<close> is the correctly rounded quotient.  The floor division of two doubles
  is the floor of their exact quotient as long as it is far below 2 to the 53, which every pair of
  an elapsed time of a \<open>datetime\<close> and an interval of a microsecond or more satisfies.
\<close>

definition total_seconds :: "int \<Rightarrow> rat" where
  "total_seconds us = round_double (of_int us / 1000000)"

definition whole_steps :: "rat \<Rightarrow> rat \<Rightarrow> int" where
  "whole_steps elapsed interval = \<lfloor>elapsed / interval\<rfloor>"

definition steps_us :: "int \<Rightarrow> rat \<Rightarrow> int" where
  "steps_us n interval = timedelta_us (round_double (of_int n * interval))"

definition compute_next_run :: "sched_env \<Rightarrow> schedule_spec \<Rightarrow> instant \<Rightarrow> sched_error + instant option" where
  "compute_next_run env spec after =
     (case sp_kind spec of
        KindOnce \<Rightarrow>
          (case sp_once spec of
             None \<Rightarrow> Inl AssertionFailed
           | Some ts \<Rightarrow> (case parse_timestamp env ts (sp_timezone spec) of
                 Inl e \<Rightarrow> Inl e | Inr t \<Rightarrow> Inr (if after < t then Some t else None)))
      | KindInterval \<Rightarrow>
          (case sp_interval spec of
             None \<Rightarrow> Inl AssertionFailed
           | Some i \<Rightarrow>
               (case (case sp_start spec of None \<Rightarrow> Inr after
                      | Some ts \<Rightarrow> parse_timestamp env ts (sp_timezone spec)) of
                  Inl e \<Rightarrow> Inl e
                | Inr anchor \<Rightarrow>
                    if after < anchor then Inr (Some anchor)
                    else (let n = whole_steps (total_seconds (after - anchor)) i + 1
                          in Inr (Some (anchor + steps_us n i)))))
      | KindCron \<Rightarrow>
          (case sp_cron spec of
             None \<Rightarrow> Inl AssertionFailed
           | Some text \<Rightarrow>
               (case cron_parse text of
                  Inl e \<Rightarrow> Inl e
                | Inr c \<Rightarrow> (case get_timezone env (sp_timezone spec) of
                      Inl e \<Rightarrow> Inl e
                    | Inr z \<Rightarrow> (case cron_next_after c z after of Inl e \<Rightarrow> Inl e | Inr t \<Rightarrow> Inr (Some t))))))"

fun preview_loop :: "nat \<Rightarrow> sched_env \<Rightarrow> schedule_spec \<Rightarrow> instant \<Rightarrow> sched_error + instant list" where
  "preview_loop 0 env spec cursor = Inr []"
| "preview_loop (Suc n) env spec cursor =
     (case compute_next_run env spec cursor of
        Inl e \<Rightarrow> Inl e
      | Inr None \<Rightarrow> Inr []
      | Inr (Some t) \<Rightarrow> (case preview_loop n env spec t of Inl e \<Rightarrow> Inl e | Inr ts \<Rightarrow> Inr (t # ts)))"

definition preview_next_times :: "sched_env \<Rightarrow> schedule_spec \<Rightarrow> instant \<Rightarrow> int \<Rightarrow> sched_error + instant list" where
  "preview_next_times env spec after howmany =
     (if howmany < 0 \<or> 1000 < howmany then Inl SchedValidation else preview_loop (nat howmany) env spec after)"

definition initial_run :: "sched_env \<Rightarrow> schedule_spec \<Rightarrow> instant \<Rightarrow> sched_error + instant option" where
  "initial_run env spec now =
     (case sp_kind spec of
        KindOnce \<Rightarrow>
          (case sp_once spec of
             None \<Rightarrow> Inl AssertionFailed
           | Some ts \<Rightarrow> (case parse_timestamp env ts (sp_timezone spec) of
                 Inl e \<Rightarrow> Inl e | Inr t \<Rightarrow> Inr (Some t)))
      | KindInterval \<Rightarrow>
          (case sp_start spec of
             None \<Rightarrow> Inl AssertionFailed
           | Some ts \<Rightarrow> (case parse_timestamp env ts (sp_timezone spec) of
                 Inl e \<Rightarrow> Inl e
               | Inr anchor \<Rightarrow> if now \<le> anchor then Inr (Some anchor) else compute_next_run env spec now))
      | KindCron \<Rightarrow> compute_next_run env spec now)"

definition advance_after_now :: "sched_env \<Rightarrow> job_row \<Rightarrow> instant \<Rightarrow> sched_error + instant option" where
  "advance_after_now env job now =
     (case sp_kind (job_schedule job) of KindOnce \<Rightarrow> Inr None
      | _ \<Rightarrow> compute_next_run env (job_schedule job) now)"

text \<open>The latest occurrence not after \<open>now\<close> that the skip policy considers.\<close>

definition skip_latest :: "sched_env \<Rightarrow> job_row \<Rightarrow> instant \<Rightarrow> instant \<Rightarrow> sched_error + instant" where
  "skip_latest env job first now =
     (let spec = job_schedule job in
      case sp_kind spec of
        KindOnce \<Rightarrow> Inr first
      | KindInterval \<Rightarrow>
          (case sp_interval spec of
             None \<Rightarrow> Inl AssertionFailed
           | Some i \<Rightarrow> (let elapsed = max 0 (total_seconds (now - first))
                       in Inr (first + steps_us (whole_steps elapsed i) i)))
      | KindCron \<Rightarrow>
          (case sp_cron spec of
             None \<Rightarrow> Inl AssertionFailed
           | Some text \<Rightarrow>
               (case cron_parse text of
                  Inl e \<Rightarrow> Inl e
                | Inr c \<Rightarrow> (case get_timezone env (sp_timezone spec) of
                      Inl e \<Rightarrow> Inl e | Inr z \<Rightarrow> cron_previous_or_at c z now))))"

text \<open>
  The loop that collects cron occurrences backwards; \<open>count\<close> bounds the number found, so it is the
  fuel.  The previous occurrence is computed once more after the last one is found, as in the code.
\<close>

fun collect_back ::
  "nat \<Rightarrow> cron_expression \<Rightarrow> zone \<Rightarrow> instant \<Rightarrow> instant \<Rightarrow> instant list \<Rightarrow> sched_error + instant list" where
  "collect_back 0 c z first cursor found = Inr found"
| "collect_back (Suc n) c z first cursor found =
     (if first \<le> cursor
      then (case cron_previous_or_at c z (cursor - 1) of
              Inl e \<Rightarrow> Inl e
            | Inr prev \<Rightarrow> collect_back n c z first prev (found @ [cursor]))
      else Inr found)"

definition due_occurrences :: "sched_env \<Rightarrow> job_row \<Rightarrow> instant \<Rightarrow> sched_error + instant list" where
  "due_occurrences env job now =
     (case next_run_at job of
        None \<Rightarrow> Inr []
      | Some first \<Rightarrow>
          if now < first then Inr []
          else if job_policy job = CatchupSkip then
            (case skip_latest env job first now of
               Inl e \<Rightarrow> Inl e
             | Inr latest \<Rightarrow>
                 if latest < first \<or> job_grace job < total_seconds (now - latest) then Inr []
                 else Inr [latest])
          else
            (let howmany = (if job_policy job = CatchupBounded then job_max_catchup job else 1);
                 spec = job_schedule job
             in case sp_kind spec of
               KindOnce \<Rightarrow> Inr [first]
             | KindInterval \<Rightarrow>
                 (case sp_interval spec of
                    None \<Rightarrow> Inl AssertionFailed
                  | Some i \<Rightarrow>
                      (let elapsed = max 0 (total_seconds (now - first));
                           latest = whole_steps elapsed i;
                           start = (if job_policy job = CatchupFireOnce then latest
                                    else max 0 (latest - howmany + 1))
                       in Inr (map (\<lambda>k. first + steps_us k i) (py_range start (latest + 1) 1))))
             | KindCron \<Rightarrow>
                 (case sp_cron spec of
                    None \<Rightarrow> Inl AssertionFailed
                  | Some text \<Rightarrow>
                      (case cron_parse text of
                         Inl e \<Rightarrow> Inl e
                       | Inr c \<Rightarrow> (case get_timezone env (sp_timezone spec) of
                             Inl e \<Rightarrow> Inl e
                           | Inr z \<Rightarrow> (case cron_previous_or_at c z now of
                                 Inl e \<Rightarrow> Inl e
                               | Inr cursor \<Rightarrow> (case collect_back (nat howmany) c z first cursor [] of
                                     Inl e \<Rightarrow> Inl e | Inr found \<Rightarrow> Inr (rev found))))))))"

end
