(* ===== verification/SchedulerStore.thy ===== *)
theory SchedulerStore
  imports SchedulerModel
begin

text \<open>
  \<open>SchedulerStore\<close> of \<open>src/polaris/scheduler/store.py\<close>: the two tables, the transaction, the job
  operations, the claim of due runs and the life of a run.  A writing method returns the row it
  reads back after its commit; here it is the row the commit left.  \<open>update_job\<close>, \<open>heartbeat\<close> and
  \<open>request_cancel\<close> read in one transaction and write in a second one, so their writes are
  definitions of their own, which another caller's write may precede.
\<close>

section \<open>The store\<close>

record sched_db =
  jobs :: "job_row list"
  job_runs :: "job_run_row list"

record sched_store =
  sdb :: sched_db
  sclosed :: bool

definition new_store :: sched_store where
  "new_store = \<lparr>sdb = \<lparr>jobs = [], job_runs = []\<rparr>, sclosed = False\<rparr>"

definition sched_transaction ::
  "(sched_db \<Rightarrow> sched_error + 'a \<times> sched_db) \<Rightarrow> sched_store \<Rightarrow> (sched_error + 'a) \<times> sched_store" where
  "sched_transaction body s =
     (if sclosed s then (Inl SchedClosed, s)
      else case body (sdb s) of
             Inl e \<Rightarrow> (Inl e, s)
           | Inr (x, d) \<Rightarrow> (Inr x, s\<lparr>sdb := d\<rparr>))"

definition close_store :: "sched_store \<Rightarrow> sched_store" where
  "close_store s = s\<lparr>sclosed := True\<rparr>"

abbreviation find_job :: "str \<Rightarrow> sched_db \<Rightarrow> job_row option" where
  "find_job x d \<equiv> by_key job_id x (jobs d)"

abbreviation find_job_run :: "str \<Rightarrow> sched_db \<Rightarrow> job_run_row option" where
  "find_job_run x d \<equiv> by_key jr_id x (job_runs d)"

text \<open>What a method returns: the row as it is in the new database.\<close>

definition return_job :: "str \<Rightarrow> sched_db \<Rightarrow> sched_error + job_row \<times> sched_db" where
  "return_job i d = (case find_job i d of None \<Rightarrow> Inl SchedNotFound | Some r \<Rightarrow> Inr (r, d))"

definition return_run :: "str \<Rightarrow> sched_db \<Rightarrow> sched_error + job_run_row \<times> sched_db" where
  "return_run i d = (case find_job_run i d of None \<Rightarrow> Inl SchedNotFound | Some r \<Rightarrow> Inr (r, d))"

section \<open>Jobs\<close>

definition validate_job_options :: "str \<Rightarrow> int \<Rightarrow> rat \<Rightarrow> sched_error + catchup_policy" where
  "validate_job_options policy maxc grace =
     (case coerce_catchup policy of
        Inl e \<Rightarrow> Inl SchedValidation
      | Inr p \<Rightarrow>
          if maxc < 1 \<or> 10 < maxc then Inl SchedValidation
          else if grace < 0 then Inl SchedValidation
          else if p \<noteq> CatchupBounded \<and> maxc \<noteq> 1 then Inl SchedValidation
          else Inr p)"

text \<open>An interval schedule without a start is given one, an interval from now.\<close>

definition anchor_schedule :: "sched_env \<Rightarrow> schedule_spec \<Rightarrow> instant \<Rightarrow> sched_error + schedule_spec" where
  "anchor_schedule env spec now =
     (if sp_kind spec = KindInterval \<and> sp_start spec = None then
        (case sp_interval spec of
           None \<Rightarrow> Inl AssertionFailed
         | Some i \<Rightarrow> make_schedule env ''interval'' None (Some i) None (sp_timezone spec)
                       (Some (StampMoment (Aware (now + timedelta_us i)))))
      else Inr spec)"

definition insert_job :: "job_row \<Rightarrow> sched_db \<Rightarrow> sched_error + job_row \<times> sched_db" where
  "insert_job row d =
     (if find_job (job_id row) d \<noteq> None then Inl SchedConflict
      else return_job (job_id row) (d\<lparr>jobs := jobs d @ [row]\<rparr>))"

definition create_job ::
  "sched_env \<Rightarrow> schedule_spec \<Rightarrow> job_payload \<Rightarrow> str \<Rightarrow> str option \<Rightarrow> str \<Rightarrow> int \<Rightarrow> rat \<Rightarrow> str \<Rightarrow>
   instant \<Rightarrow> sched_store \<Rightarrow> (sched_error + job_row) \<times> sched_store" where
  "create_job env spec payload name given policy maxc grace uuid now s =
     (case validate_job_options policy maxc grace of
        Inl e \<Rightarrow> (Inl e, s)
      | Inr p \<Rightarrow>
     (case anchor_schedule env spec now of
        Inl e \<Rightarrow> (Inl e, s)
      | Inr sched \<Rightarrow>
     (case initial_run env sched now of
        Inl e \<Rightarrow> (Inl e, s)
      | Inr first \<Rightarrow>
          (let i = (case given of None \<Rightarrow> uuid | Some g \<Rightarrow> if g = [] then uuid else g);
               shown = (if py_strip name = [] then i else py_strip name)
           in if i = [] then (Inl SchedValidation, s)
              else sched_transaction (insert_job
                \<lparr>job_id = i, job_name = shown, job_schedule = sched, job_payload = payload,
                 job_policy = p, job_max_catchup = maxc, job_grace = grace,
                 job_stat = JobScheduled, next_run_at = first, job_created = now,
                 job_updated = now, job_version = 1\<rparr>) s))))"

definition get_job :: "str \<Rightarrow> sched_store \<Rightarrow> sched_error + job_row" where
  "get_job i s =
     (if sclosed s then Inl SchedClosed
      else case find_job i (sdb s) of None \<Rightarrow> Inl SchedNotFound | Some r \<Rightarrow> Inr r)"

definition list_jobs :: "str option \<Rightarrow> sched_store \<Rightarrow> sched_error + job_row list" where
  "list_jobs state s =
     (case (case state of None \<Rightarrow> Inr None
              | Some t \<Rightarrow> (case coerce_job_state t of Inl e \<Rightarrow> Inl e | Inr x \<Rightarrow> Inr (Some x))) of
        Inl e \<Rightarrow> Inl e
      | Inr wanted \<Rightarrow>
          if sclosed s then Inl SchedClosed
          else Inr (order_by (\<lambda>j. (job_created j, job_id j))
            (filter (\<lambda>j. case wanted of None \<Rightarrow> True | Some x \<Rightarrow> job_stat j = x) (jobs (sdb s)))))"

text \<open>The keyword arguments of \<open>update_job\<close>; an argument left out is \<open>None\<close>.\<close>

record job_changes =
  ch_name :: "str option"
  ch_schedule :: "schedule_spec option"
  ch_payload :: "job_payload option"
  ch_policy :: "str option"
  ch_max :: "int option"
  ch_grace :: "rat option"

definition given_or :: "'a option \<Rightarrow> 'a \<Rightarrow> 'a" where
  "given_or x y = (case x of None \<Rightarrow> y | Some v \<Rightarrow> v)"

definition update_job_row ::
  "str \<Rightarrow> (job_row \<Rightarrow> job_row) \<Rightarrow> sched_db \<Rightarrow> sched_error + job_row \<times> sched_db" where
  "update_job_row i f d =
     (if rowcount (\<lambda>j. job_id j = i) (jobs d) \<noteq> 1 then Inl SchedNotFound
      else return_job i (d\<lparr>jobs := update_where (\<lambda>j. job_id j = i) f (jobs d)\<rparr>))"

text \<open>The checks and the write, from the row \<open>current\<close> that was read before.\<close>

definition update_job_from ::
  "sched_env \<Rightarrow> job_row \<Rightarrow> str \<Rightarrow> job_changes \<Rightarrow> instant \<Rightarrow> sched_store \<Rightarrow>
   (sched_error + job_row) \<times> sched_store" where
  "update_job_from env current i ch now s =
     (let name = (case ch_name ch of None \<Rightarrow> job_name current | Some n \<Rightarrow> py_strip n);
          spec = given_or (ch_schedule ch) (job_schedule current);
          payload = given_or (ch_payload ch) (job_payload current);
          policy = given_or (ch_policy ch) (catchup_value (job_policy current));
          maxc = given_or (ch_max ch) (job_max_catchup current);
          grace = given_or (ch_grace ch) (job_grace current)
      in if name = [] then (Inl SchedValidation, s)
         else case validate_job_options policy maxc grace of
           Inl e \<Rightarrow> (Inl e, s)
         | Inr p \<Rightarrow>
        (case anchor_schedule env spec now of
           Inl e \<Rightarrow> (Inl e, s)
         | Inr sched \<Rightarrow>
        (case (if ch_schedule ch = None then Inr (next_run_at current) else initial_run env sched now) of
           Inl e \<Rightarrow> (Inl e, s)
         | Inr next \<Rightarrow>
             sched_transaction (update_job_row i (\<lambda>j. j\<lparr>job_name := name, job_schedule := sched,
                 job_payload := payload, job_policy := p, job_max_catchup := maxc,
                 job_grace := grace, next_run_at := next, job_updated := now,
                 job_version := job_version j + 1\<rparr>)) s)))"

definition update_job ::
  "sched_env \<Rightarrow> str \<Rightarrow> job_changes \<Rightarrow> instant \<Rightarrow> sched_store \<Rightarrow>
   (sched_error + job_row) \<times> sched_store" where
  "update_job env i ch now s =
     (case get_job i s of Inl e \<Rightarrow> (Inl e, s) | Inr current \<Rightarrow> update_job_from env current i ch now s)"

text \<open>\<open>_set_job_state\<close>, used by \<open>pause_job\<close>.\<close>

definition set_job_state_tx ::
  "str \<Rightarrow> job_state \<Rightarrow> job_state \<Rightarrow> instant \<Rightarrow> sched_db \<Rightarrow> sched_error + job_row \<times> sched_db" where
  "set_job_state_tx i target from_state now d =
     (let hit = (\<lambda>j. job_id j = i \<and> job_stat j = from_state) in
      if rowcount hit (jobs d) \<noteq> 1
      then Inl (if find_job i d = None then SchedNotFound else SchedConflict)
      else return_job i (d\<lparr>jobs := update_where hit
             (\<lambda>j. j\<lparr>job_stat := target, job_updated := now, job_version := job_version j + 1\<rparr>) (jobs d)\<rparr>))"

definition pause_job :: "str \<Rightarrow> instant \<Rightarrow> sched_store \<Rightarrow> (sched_error + job_row) \<times> sched_store" where
  "pause_job i now s = sched_transaction (set_job_state_tx i JobPaused JobScheduled now) s"

definition resume_job_tx ::
  "sched_env \<Rightarrow> str \<Rightarrow> instant \<Rightarrow> sched_db \<Rightarrow> sched_error + job_row \<times> sched_db" where
  "resume_job_tx env i now d =
     (case find_job i d of
        None \<Rightarrow> Inl SchedNotFound
      | Some current \<Rightarrow>
          if job_stat current \<noteq> JobPaused then Inl SchedConflict
          else case (if next_run_at current = None then initial_run env (job_schedule current) now
                     else Inr (next_run_at current)) of
            Inl e \<Rightarrow> Inl e
          | Inr next \<Rightarrow>
              (let hit = (\<lambda>j. job_id j = i \<and> job_stat j = JobPaused) in
               if rowcount hit (jobs d) \<noteq> 1 then Inl SchedConflict
               else return_job i (d\<lparr>jobs := update_where hit
                 (\<lambda>j. j\<lparr>job_stat := JobScheduled, next_run_at := next, job_updated := now,
                        job_version := job_version j + 1\<rparr>) (jobs d)\<rparr>)))"

definition resume_job ::
  "sched_env \<Rightarrow> str \<Rightarrow> instant \<Rightarrow> sched_store \<Rightarrow> (sched_error + job_row) \<times> sched_store" where
  "resume_job env i now s = sched_transaction (resume_job_tx env i now) s"

text \<open>The two updates of \<open>job_runs\<close> that a cancelled job makes.\<close>

definition active :: "job_run_row \<Rightarrow> bool" where
  "active r \<longleftrightarrow> jr_stat r \<in> {JrClaimed, JrRunning}"

definition awaiting_delivery :: "job_run_row \<Rightarrow> bool" where
  "awaiting_delivery r \<longleftrightarrow> jr_stat r = JrSucceeded \<and> delivery_stat r = DvPending"

definition request_job_runs :: "str \<Rightarrow> instant \<Rightarrow> job_run_row list \<Rightarrow> job_run_row list" where
  "request_job_runs i now rs =
     update_where (\<lambda>r. jr_job r = i \<and> awaiting_delivery r)
       (\<lambda>r. r\<lparr>cancel_requested := True, delivery_stat := DvSuppressed, delivery_error := None,
              jr_updated := now\<rparr>)
       (update_where (\<lambda>r. jr_job r = i \<and> active r)
         (\<lambda>r. r\<lparr>cancel_requested := True, jr_updated := now\<rparr>) rs)"

definition cancel_job_tx ::
  "str \<Rightarrow> instant \<Rightarrow> sched_db \<Rightarrow> sched_error + job_row \<times> sched_db" where
  "cancel_job_tx i now d =
     (case find_job i d of
        None \<Rightarrow> Inl SchedNotFound
      | Some current \<Rightarrow>
          if job_stat current = JobCancelled then Inr (current, d)
          else
            (let hit = (\<lambda>j. job_id j = i \<and> job_stat j \<in> {JobScheduled, JobPaused}) in
             if job_stat current \<noteq> JobCompleted \<and> rowcount hit (jobs d) \<noteq> 1 then Inl SchedConflict
             else return_job i
               (d\<lparr>jobs := (if job_stat current = JobCompleted then jobs d
                           else update_where hit (\<lambda>j. j\<lparr>job_stat := JobCancelled, job_updated := now,
                                  job_version := job_version j + 1\<rparr>) (jobs d)),
                  job_runs := request_job_runs i now (job_runs d)\<rparr>)))"

definition cancel_job :: "str \<Rightarrow> instant \<Rightarrow> sched_store \<Rightarrow> (sched_error + job_row) \<times> sched_store" where
  "cancel_job i now s = sched_transaction (cancel_job_tx i now) s"

definition delete_job :: "str \<Rightarrow> instant \<Rightarrow> sched_store \<Rightarrow> (sched_error + job_row) \<times> sched_store" where
  "delete_job i now s = cancel_job i now s"

section \<open>Claiming due runs\<close>

definition fresh_delivery :: "job_payload \<Rightarrow> delivery_status" where
  "fresh_delivery p = (if pl_delivery p \<noteq> None then DvPending else DvNotRequested)"

text \<open>
  The state of the claiming loop: the identifiers claimed, the number of uuids drawn and the
  database.  \<open>uuids n\<close> is the text of the \<open>n\<close>th uuid drawn.
\<close>

type_synonym claim_state = "str list \<times> nat \<times> sched_db"

text \<open>\<open>INSERT OR IGNORE INTO job_runs\<close> for one occurrence.\<close>

definition claim_occurrence ::
  "(nat \<Rightarrow> str) \<Rightarrow> job_row \<Rightarrow> str \<Rightarrow> instant \<Rightarrow> instant \<Rightarrow> instant \<Rightarrow> claim_state \<Rightarrow> claim_state" where
  "claim_occurrence uuids job owner now expiry scheduled acc =
     (let (claimed, n, d) = acc;
          row = \<lparr>jr_id = uuids n, jr_job = job_id job, jr_scheduled = scheduled,
                 jr_payload = job_payload job, jr_stat = JrClaimed, jr_attempt = 1,
                 jr_owner = Some owner, jr_expires = Some expiry, polaris_run = None,
                 cancel_requested = False, execution_error = None,
                 delivery_stat = fresh_delivery (job_payload job), delivery_error = None,
                 jr_claimed = now, jr_started = None, jr_completed = None, jr_updated = now\<rparr>
      in if \<exists>r \<in> set (job_runs d). jr_id r = uuids n \<or> (jr_job r = job_id job \<and> jr_scheduled r = scheduled)
         then (claimed, n + 1, d)
         else (claimed @ [uuids n], n + 1, d\<lparr>job_runs := job_runs d @ [row]\<rparr>))"

definition last_occurrences :: "nat \<Rightarrow> 'a list \<Rightarrow> 'a list" where
  "last_occurrences available occ =
     (if available < length occ then drop (length occ - available) occ else occ)"

definition claim_job ::
  "sched_env \<Rightarrow> (nat \<Rightarrow> str) \<Rightarrow> str \<Rightarrow> instant \<Rightarrow> instant \<Rightarrow> nat \<Rightarrow> job_row \<Rightarrow> claim_state \<Rightarrow>
   sched_error + claim_state" where
  "claim_job env uuids owner now expiry limit job acc =
     (if limit \<le> length (fst acc) then Inr acc
      else case due_occurrences env job now of
        Inl e \<Rightarrow> Inl e
      | Inr occ \<Rightarrow>
          (let (claimed, n, d) =
             fold (claim_occurrence uuids job owner now expiry)
               (last_occurrences (limit - length (fst acc)) occ) acc
           in case advance_after_now env job now of
             Inl e \<Rightarrow> Inl e
           | Inr next \<Rightarrow>
               Inr (claimed, n, d\<lparr>jobs := update_where (\<lambda>j. job_id j = job_id job)
                 (\<lambda>j. j\<lparr>next_run_at := next,
                        job_stat := (if next = None then JobCompleted else JobScheduled),
                        job_updated := now, job_version := job_version j + 1\<rparr>) (jobs d)\<rparr>)))"

fun claim_jobs ::
  "sched_env \<Rightarrow> (nat \<Rightarrow> str) \<Rightarrow> str \<Rightarrow> instant \<Rightarrow> instant \<Rightarrow> nat \<Rightarrow> job_row list \<Rightarrow> claim_state \<Rightarrow>
   sched_error + claim_state" where
  "claim_jobs env uuids owner now expiry limit [] acc = Inr acc"
| "claim_jobs env uuids owner now expiry limit (j # js) acc =
     (case claim_job env uuids owner now expiry limit j acc of
        Inl e \<Rightarrow> Inl e | Inr acc' \<Rightarrow> claim_jobs env uuids owner now expiry limit js acc')"

definition due_jobs :: "instant \<Rightarrow> sched_db \<Rightarrow> job_row list" where
  "due_jobs now d = order_by (\<lambda>j. (next_run_at j, job_id j))
     (filter (\<lambda>j. job_stat j = JobScheduled \<and>
        (case next_run_at j of None \<Rightarrow> False | Some t \<Rightarrow> t \<le> now)) (jobs d))"

text \<open>The rows of the claimed identifiers, as read back.\<close>

fun find_all :: "str list \<Rightarrow> sched_db \<Rightarrow> sched_error + job_run_row list" where
  "find_all [] d = Inr []"
| "find_all (i # is) d =
     (case find_job_run i d of
        None \<Rightarrow> Inl SchedNotFound
      | Some r \<Rightarrow> (case find_all is d of Inl e \<Rightarrow> Inl e | Inr rs \<Rightarrow> Inr (r # rs)))"

definition claim_due_runs_tx ::
  "sched_env \<Rightarrow> (nat \<Rightarrow> str) \<Rightarrow> instant \<Rightarrow> str \<Rightarrow> instant \<Rightarrow> nat \<Rightarrow> int option \<Rightarrow> sched_db \<Rightarrow>
   sched_error + job_run_row list \<times> sched_db" where
  "claim_due_runs_tx env uuids now owner expiry limit seed d =
     (let js = (case seed of None \<Rightarrow> due_jobs now d | Some k \<Rightarrow> shuffle env k (due_jobs now d)) in
      case claim_jobs env uuids owner now expiry limit js ([], 0, d) of
        Inl e \<Rightarrow> Inl e
      | Inr (claimed, n, d') \<Rightarrow>
          (case find_all claimed d' of Inl e \<Rightarrow> Inl e | Inr rs \<Rightarrow> Inr (rs, d')))"

definition claim_due_runs ::
  "sched_env \<Rightarrow> (nat \<Rightarrow> str) \<Rightarrow> instant \<Rightarrow> str \<Rightarrow> rat \<Rightarrow> int \<Rightarrow> int option \<Rightarrow> int option \<Rightarrow> sched_store \<Rightarrow>
   (sched_error + job_run_row list) \<times> sched_store" where
  "claim_due_runs env uuids now owner lease batch startup_cap seed s =
     (let limit = (case startup_cap of None \<Rightarrow> batch | Some c \<Rightarrow> min batch c) in
      if owner = [] then (Inl SchedValidation, s)
      else if timedelta_us lease \<le> 0 then (Inl SchedValidation, s)
      else if batch < 1 then (Inl SchedValidation, s)
      else if limit < 1 then (Inl SchedValidation, s)
      else sched_transaction
        (claim_due_runs_tx env uuids now owner (now + timedelta_us lease) (nat limit) seed) s)"

end
