(* ===== verification/SchedulerRuns.thy ===== *)
theory SchedulerRuns
  imports SchedulerStore
begin

text \<open>
  The operations of \<open>SchedulerStore\<close> on claimed runs: start, attach, heartbeat, cancellation,
  completion, delivery, recovery of stale runs and approved retry, with the run queries.
\<close>

definition get_job_run :: "str \<Rightarrow> sched_store \<Rightarrow> sched_error + job_run_row" where
  "get_job_run i s =
     (if sclosed s then Inl SchedClosed
      else case find_job_run i (sdb s) of None \<Rightarrow> Inl SchedNotFound | Some r \<Rightarrow> Inr r)"

definition list_job_runs :: "str option \<Rightarrow> str option \<Rightarrow> sched_store \<Rightarrow> sched_error + job_run_row list" where
  "list_job_runs job status s =
     (case (case status of None \<Rightarrow> Inr None
              | Some t \<Rightarrow> (case coerce_job_run t of Inl e \<Rightarrow> Inl e | Inr x \<Rightarrow> Inr (Some x))) of
        Inl e \<Rightarrow> Inl e
      | Inr wanted \<Rightarrow>
          if sclosed s then Inl SchedClosed
          else Inr (order_by (\<lambda>r. (jr_scheduled r, jr_id r))
            (filter (\<lambda>r. (case job of None \<Rightarrow> True | Some j \<Rightarrow> jr_job r = j) \<and>
                         (case wanted of None \<Rightarrow> True | Some x \<Rightarrow> jr_stat r = x)) (job_runs (sdb s)))))"

text \<open>\<open>_require_active_lease\<close>, also written out in \<open>mark_running\<close> and \<open>complete\<close>.\<close>

definition require_active_lease :: "job_run_row \<Rightarrow> str \<Rightarrow> instant \<Rightarrow> sched_error option" where
  "require_active_lease r owner now =
     (if jr_owner r \<noteq> Some owner then Some SchedOwnership
      else case jr_expires r of
        None \<Rightarrow> Some SchedOwnership
      | Some e \<Rightarrow> if e \<le> now then Some SchedOwnership else None)"

lemma require_active_lease_None:
  "require_active_lease r owner now = None \<longleftrightarrow>
   jr_owner r = Some owner \<and> (\<exists>e. jr_expires r = Some e \<and> now < e)"
  by (auto simp: require_active_lease_def split: option.splits)

text \<open>\<open>COALESCE(new, old)\<close>, and the suppression of a pending delivery.\<close>

definition coalesce :: "'a option \<Rightarrow> 'a option \<Rightarrow> 'a option" where
  "coalesce x y = (case x of None \<Rightarrow> y | Some v \<Rightarrow> Some v)"

definition suppress :: "delivery_status \<Rightarrow> delivery_status" where
  "suppress v = (if v = DvPending then DvSuppressed else v)"

definition update_runs ::
  "str \<Rightarrow> (job_run_row \<Rightarrow> bool) \<Rightarrow> (job_run_row \<Rightarrow> job_run_row) \<Rightarrow> sched_db \<Rightarrow> sched_db" where
  "update_runs i P f d = d\<lparr>job_runs := update_where (\<lambda>r. jr_id r = i \<and> P r) f (job_runs d)\<rparr>"

section \<open>Starting\<close>

definition mark_running_tx ::
  "str \<Rightarrow> str \<Rightarrow> str option \<Rightarrow> instant \<Rightarrow> sched_db \<Rightarrow> sched_error + job_run_row \<times> sched_db" where
  "mark_running_tx i owner pid now d =
     (case find_job_run i d of
        None \<Rightarrow> Inl SchedNotFound
      | Some row \<Rightarrow>
          if jr_stat row \<noteq> JrClaimed then Inl SchedConflict
          else case require_active_lease row owner now of
            Some e \<Rightarrow> Inl e
          | None \<Rightarrow>
              (let P = (\<lambda>r. jr_stat r = JrClaimed \<and> jr_owner r = Some owner) in
               if cancel_requested row then
                 return_run i (update_runs i P
                   (\<lambda>r. r\<lparr>jr_stat := JrCancelled, jr_owner := None, jr_expires := None,
                          polaris_run := coalesce pid (polaris_run r),
                          delivery_stat := suppress (delivery_stat r), jr_completed := Some now,
                          jr_updated := now\<rparr>) d)
               else if rowcount (\<lambda>r. jr_id r = i \<and> P r) (job_runs d) \<noteq> 1 then Inl SchedOwnership
               else return_run i (update_runs i P
                   (\<lambda>r. r\<lparr>jr_stat := JrRunning, jr_started := Some now, jr_updated := now,
                          polaris_run := coalesce pid (polaris_run r)\<rparr>) d)))"

definition mark_running ::
  "str \<Rightarrow> str \<Rightarrow> str option \<Rightarrow> instant \<Rightarrow> sched_store \<Rightarrow> (sched_error + job_run_row) \<times> sched_store" where
  "mark_running i owner pid now s = sched_transaction (mark_running_tx i owner pid now) s"

definition set_polaris_run_id_tx ::
  "str \<Rightarrow> str \<Rightarrow> str \<Rightarrow> instant \<Rightarrow> sched_db \<Rightarrow> sched_error + job_run_row \<times> sched_db" where
  "set_polaris_run_id_tx i owner pid now d =
     (let P = (\<lambda>r. jr_owner r = Some owner \<and> active r) in
      if rowcount (\<lambda>r. jr_id r = i \<and> P r) (job_runs d) \<noteq> 1 then Inl SchedOwnership
      else return_run i (update_runs i P (\<lambda>r. r\<lparr>polaris_run := Some pid, jr_updated := now\<rparr>) d))"

definition set_polaris_run_id ::
  "str \<Rightarrow> str \<Rightarrow> str \<Rightarrow> instant \<Rightarrow> sched_store \<Rightarrow> (sched_error + job_run_row) \<times> sched_store" where
  "set_polaris_run_id i owner pid now s =
     (if pid = [] then (Inl SchedValidation, s)
      else sched_transaction (set_polaris_run_id_tx i owner pid now) s)"

section \<open>Heartbeat and cancellation requests\<close>

text \<open>The second transaction of \<open>heartbeat\<close>.\<close>

definition heartbeat_write ::
  "str \<Rightarrow> str \<Rightarrow> instant \<Rightarrow> instant \<Rightarrow> sched_store \<Rightarrow> (sched_error + job_run_row) \<times> sched_store" where
  "heartbeat_write i owner expiry now s =
     sched_transaction (\<lambda>d. return_run i (update_runs i (\<lambda>r. jr_owner r = Some owner)
       (\<lambda>r. r\<lparr>jr_expires := Some expiry, jr_updated := now\<rparr>) d)) s"

definition job_heartbeat ::
  "str \<Rightarrow> str \<Rightarrow> rat \<Rightarrow> instant \<Rightarrow> sched_store \<Rightarrow> (sched_error + job_run_row) \<times> sched_store" where
  "job_heartbeat i owner lease now s =
     (if timedelta_us lease \<le> 0 then (Inl SchedValidation, s)
      else case get_job_run i s of
        Inl e \<Rightarrow> (Inl e, s)
      | Inr run \<Rightarrow>
          if \<not> active run then (Inl SchedConflict, s)
          else case require_active_lease run owner now of
            Some e \<Rightarrow> (Inl e, s)
          | None \<Rightarrow> heartbeat_write i owner (now + timedelta_us lease) now s)"

text \<open>The second transaction of \<open>request_cancel\<close>.\<close>

definition request_cancel_write ::
  "str \<Rightarrow> instant \<Rightarrow> sched_store \<Rightarrow> (sched_error + job_run_row) \<times> sched_store" where
  "request_cancel_write i now s =
     sched_transaction (\<lambda>d. return_run i (update_runs i (\<lambda>r. True)
       (\<lambda>r. r\<lparr>cancel_requested := True,
              delivery_stat := (if awaiting_delivery r then DvSuppressed else delivery_stat r),
              delivery_error := (if awaiting_delivery r then None else delivery_error r),
              jr_updated := now\<rparr>) d)) s"

definition request_cancel ::
  "str \<Rightarrow> instant \<Rightarrow> sched_store \<Rightarrow> (sched_error + job_run_row) \<times> sched_store" where
  "request_cancel i now s =
     (case get_job_run i s of
        Inl e \<Rightarrow> (Inl e, s)
      | Inr run \<Rightarrow>
          if jr_stat run \<in> {JrFailed, JrInterrupted, JrCancelled} then (Inr run, s)
          else request_cancel_write i now s)"

definition cancel_job_run_tx ::
  "str \<Rightarrow> str option \<Rightarrow> instant \<Rightarrow> sched_db \<Rightarrow> sched_error + job_run_row \<times> sched_db" where
  "cancel_job_run_tx i owner now d =
     (case find_job_run i d of
        None \<Rightarrow> Inl SchedNotFound
      | Some row \<Rightarrow>
          if jr_stat row \<in> {JrSucceeded, JrFailed, JrInterrupted, JrCancelled} then Inr (row, d)
          else if owner \<noteq> None \<and> jr_owner row \<noteq> owner then Inl SchedOwnership
          else if rowcount (\<lambda>r. jr_id r = i \<and> active r) (job_runs d) \<noteq> 1 then Inl SchedConflict
          else return_run i (update_runs i active
            (\<lambda>r. r\<lparr>jr_stat := JrCancelled, cancel_requested := True, jr_owner := None,
                   jr_expires := None, delivery_stat := suppress (delivery_stat r),
                   delivery_error := (if delivery_stat r = DvPending then None else delivery_error r),
                   jr_completed := Some now, jr_updated := now\<rparr>) d))"

definition cancel_job_run ::
  "str \<Rightarrow> str option \<Rightarrow> instant \<Rightarrow> sched_store \<Rightarrow> (sched_error + job_run_row) \<times> sched_store" where
  "cancel_job_run i owner now s = sched_transaction (cancel_job_run_tx i owner now) s"

section \<open>Completion and delivery\<close>

definition complete_run_tx ::
  "str \<Rightarrow> str \<Rightarrow> job_run_status \<Rightarrow> str option \<Rightarrow> str option \<Rightarrow> instant \<Rightarrow> sched_db \<Rightarrow>
   sched_error + job_run_row \<times> sched_db" where
  "complete_run_tx i owner terminal error pid now d =
     (case find_job_run i d of
        None \<Rightarrow> Inl SchedNotFound
      | Some row \<Rightarrow>
          if \<not> active row then Inl SchedConflict
          else case require_active_lease row owner now of
            Some e \<Rightarrow> Inl e
          | None \<Rightarrow>
              (let effective = (if cancel_requested row then JrCancelled else terminal);
                   drop = (\<lambda>r. effective = JrCancelled \<and> delivery_stat r = DvPending)
               in return_run i (update_runs i (\<lambda>r. jr_owner r = Some owner)
                 (\<lambda>r. r\<lparr>jr_stat := effective, execution_error := error,
                        polaris_run := coalesce pid (polaris_run r), jr_owner := None,
                        jr_expires := None,
                        delivery_stat := (if drop r then DvSuppressed else delivery_stat r),
                        delivery_error := (if drop r then None else delivery_error r),
                        jr_completed := Some now, jr_updated := now\<rparr>) d)))"

definition complete_run ::
  "str \<Rightarrow> str \<Rightarrow> str \<Rightarrow> str option \<Rightarrow> str option \<Rightarrow> instant \<Rightarrow> sched_store \<Rightarrow>
   (sched_error + job_run_row) \<times> sched_store" where
  "complete_run i owner status error pid now s =
     (case coerce_job_run status of
        Inl e \<Rightarrow> (Inl e, s)
      | Inr terminal \<Rightarrow>
          if terminal \<notin> {JrSucceeded, JrFailed, JrCancelled} then (Inl SchedValidation, s)
          else sched_transaction (complete_run_tx i owner terminal error pid now) s)"

definition record_delivery_tx ::
  "str \<Rightarrow> delivery_status \<Rightarrow> str option \<Rightarrow> instant \<Rightarrow> sched_db \<Rightarrow> sched_error + job_run_row \<times> sched_db" where
  "record_delivery_tx i target error now d =
     (case find_job_run i d of
        None \<Rightarrow> Inl SchedNotFound
      | Some row \<Rightarrow>
          if jr_stat row \<noteq> JrSucceeded then Inl SchedConflict
          else if delivery_stat row \<noteq> DvPending then Inr (row, d)
          else return_run i (update_runs i awaiting_delivery
            (\<lambda>r. r\<lparr>delivery_stat := target, delivery_error := error, jr_updated := now\<rparr>) d))"

definition record_delivery ::
  "str \<Rightarrow> str \<Rightarrow> str option \<Rightarrow> instant \<Rightarrow> sched_store \<Rightarrow> (sched_error + job_run_row) \<times> sched_store" where
  "record_delivery i status error now s =
     (case coerce_delivery status of
        Inl e \<Rightarrow> (Inl e, s)
      | Inr target \<Rightarrow>
          if target \<notin> {DvSucceeded, DvFailed, DvSuppressed} then (Inl SchedValidation, s)
          else sched_transaction (record_delivery_tx i target error now) s)"

definition list_pending_deliveries :: "int option \<Rightarrow> sched_store \<Rightarrow> sched_error + job_run_row list" where
  "list_pending_deliveries limit s =
     (if (case limit of None \<Rightarrow> False | Some n \<Rightarrow> n < 1) then Inl SchedValidation
      else if sclosed s then Inl SchedClosed
      else (let found = order_by (\<lambda>r. (jr_completed r, jr_id r)) (filter awaiting_delivery (job_runs (sdb s)))
            in Inr (case limit of None \<Rightarrow> found | Some n \<Rightarrow> take (nat n) found)))"

section \<open>Recovery and retry\<close>

definition stale :: "instant \<Rightarrow> job_run_row \<Rightarrow> bool" where
  "stale now r \<longleftrightarrow> active r \<and> (case jr_expires r of None \<Rightarrow> False | Some e \<Rightarrow> e \<le> now)"

definition interrupt :: "instant \<Rightarrow> job_run_row \<Rightarrow> job_run_row" where
  "interrupt now r = r\<lparr>jr_stat := JrInterrupted,
     execution_error := Some ''lease expired; execution outcome may be ambiguous'',
     jr_owner := None, jr_expires := None, jr_completed := Some now, jr_updated := now\<rparr>"

definition recover_stale_runs_tx ::
  "instant \<Rightarrow> sched_db \<Rightarrow> sched_error + job_run_row list \<times> sched_db" where
  "recover_stale_runs_tx now d =
     (let ids = map jr_id (order_by (\<lambda>r. (jr_expires r, jr_id r)) (filter (stale now) (job_runs d)));
          d' = d\<lparr>job_runs := update_where (\<lambda>r. jr_id r \<in> set ids) (interrupt now) (job_runs d)\<rparr>
      in case find_all ids d' of Inl e \<Rightarrow> Inl e | Inr rs \<Rightarrow> Inr (rs, d'))"

definition recover_stale_runs ::
  "instant \<Rightarrow> sched_store \<Rightarrow> (sched_error + job_run_row list) \<times> sched_store" where
  "recover_stale_runs now s = sched_transaction (recover_stale_runs_tx now) s"

definition retryable :: "job_run_row \<Rightarrow> bool" where
  "retryable r \<longleftrightarrow> jr_stat r \<in> {JrFailed, JrInterrupted, JrCancelled}"

definition create_retry_tx ::
  "str \<Rightarrow> str \<Rightarrow> instant \<Rightarrow> instant \<Rightarrow> sched_db \<Rightarrow> sched_error + job_run_row \<times> sched_db" where
  "create_retry_tx i owner expiry now d =
     (case find_job_run i d of
        None \<Rightarrow> Inl SchedNotFound
      | Some row \<Rightarrow>
          if \<not> retryable row then Inl SchedConflict
          else if rowcount (\<lambda>r. jr_id r = i \<and> retryable r) (job_runs d) \<noteq> 1 then Inl SchedConflict
          else return_run i (update_runs i retryable
            (\<lambda>r. r\<lparr>jr_stat := JrClaimed, jr_attempt := jr_attempt r + 1, jr_owner := Some owner,
                   jr_expires := Some expiry, polaris_run := None, cancel_requested := False,
                   execution_error := None, delivery_stat := fresh_delivery (jr_payload row),
                   delivery_error := None, jr_claimed := now, jr_started := None,
                   jr_completed := None, jr_updated := now\<rparr>) d))"

definition create_retry ::
  "str \<Rightarrow> str \<Rightarrow> rat \<Rightarrow> bool \<Rightarrow> instant \<Rightarrow> sched_store \<Rightarrow> (sched_error + job_run_row) \<times> sched_store" where
  "create_retry i owner lease approved now s =
     (if \<not> approved then (Inl SchedValidation, s)
      else if timedelta_us lease \<le> 0 \<or> owner = [] then (Inl SchedValidation, s)
      else sched_transaction (create_retry_tx i owner (now + timedelta_us lease) now) s)"

end
