(* ===== verification/SchedulerMachine.thy ===== *)
theory SchedulerMachine
  imports SchedulerRuns
begin

text \<open>
  The scheduler store as a machine.  A \<open>sched_op\<close> is one call with its arguments, its clock
  reading and the uuids it draws; a list of them is an interleaving of the calls of any number of
  schedulers.  \<open>UpdateJobFrom\<close>, \<open>HeartbeatWrite\<close> and \<open>RequestCancelWrite\<close> are the second
  transactions of the calls that read first, so that writes of others may fall in between.
  \<open>run_step\<close> is the life of one row of \<open>job_runs\<close>.
\<close>

datatype sched_op =
    CreateJob schedule_spec job_payload str "str option" str int rat str instant
  | UpdateJob str job_changes instant
  | UpdateJobFrom job_row str job_changes instant
  | PauseJob str instant
  | ResumeJob str instant
  | CancelJob str instant
  | ClaimDueRuns "nat \<Rightarrow> str" instant str rat int "int option" "int option"
  | MarkRunning str str "str option" instant
  | SetPolarisRunId str str str instant
  | JobHeartbeat str str rat instant
  | HeartbeatWrite str str instant instant
  | RequestCancel str instant
  | RequestCancelWrite str instant
  | CancelJobRun str "str option" instant
  | CompleteRun str str str "str option" "str option" instant
  | RecordDelivery str str "str option" instant
  | RecoverStale instant
  | CreateRetry str str rat bool instant
  | CloseStore

fun sched_exec :: "sched_env \<Rightarrow> sched_op \<Rightarrow> sched_store \<Rightarrow> sched_store" where
  "sched_exec env (CreateJob sp pl n g p m gr u now) s = snd (create_job env sp pl n g p m gr u now s)"
| "sched_exec env (UpdateJob i ch now) s = snd (update_job env i ch now s)"
| "sched_exec env (UpdateJobFrom cur i ch now) s = snd (update_job_from env cur i ch now s)"
| "sched_exec env (PauseJob i now) s = snd (pause_job i now s)"
| "sched_exec env (ResumeJob i now) s = snd (resume_job env i now s)"
| "sched_exec env (CancelJob i now) s = snd (cancel_job i now s)"
| "sched_exec env (ClaimDueRuns u now w l b c k) s = snd (claim_due_runs env u now w l b c k s)"
| "sched_exec env (MarkRunning i w pid now) s = snd (mark_running i w pid now s)"
| "sched_exec env (SetPolarisRunId i w pid now) s = snd (set_polaris_run_id i w pid now s)"
| "sched_exec env (JobHeartbeat i w l now) s = snd (job_heartbeat i w l now s)"
| "sched_exec env (HeartbeatWrite i w e now) s = snd (heartbeat_write i w e now s)"
| "sched_exec env (RequestCancel i now) s = snd (request_cancel i now s)"
| "sched_exec env (RequestCancelWrite i now) s = snd (request_cancel_write i now s)"
| "sched_exec env (CancelJobRun i w now) s = snd (cancel_job_run i w now s)"
| "sched_exec env (CompleteRun i w st e pid now) s = snd (complete_run i w st e pid now s)"
| "sched_exec env (RecordDelivery i st e now) s = snd (record_delivery i st e now s)"
| "sched_exec env (RecoverStale now) s = snd (recover_stale_runs now s)"
| "sched_exec env (CreateRetry i w l ok now) s = snd (create_retry i w l ok now s)"
| "sched_exec env CloseStore s = close_store s"

section \<open>The life of a run\<close>

definition cancel_request :: "instant \<Rightarrow> job_run_row \<Rightarrow> job_run_row" where
  "cancel_request now r = r\<lparr>cancel_requested := True,
     delivery_stat := (if awaiting_delivery r then DvSuppressed else delivery_stat r),
     delivery_error := (if awaiting_delivery r then None else delivery_error r), jr_updated := now\<rparr>"

inductive run_step :: "sched_op \<Rightarrow> job_run_row \<Rightarrow> job_run_row \<Rightarrow> bool" where
  keep: "run_step a r r"
| start: "jr_stat r = JrClaimed \<Longrightarrow> require_active_lease r w now = None \<Longrightarrow> \<not> cancel_requested r \<Longrightarrow>
    run_step (MarkRunning (jr_id r) w pid now) r
      (r\<lparr>jr_stat := JrRunning, jr_started := Some now, jr_updated := now,
         polaris_run := coalesce pid (polaris_run r)\<rparr>)"
| start_cancelled: "jr_stat r = JrClaimed \<Longrightarrow> require_active_lease r w now = None \<Longrightarrow> cancel_requested r \<Longrightarrow>
    run_step (MarkRunning (jr_id r) w pid now) r
      (r\<lparr>jr_stat := JrCancelled, jr_owner := None, jr_expires := None,
         polaris_run := coalesce pid (polaris_run r), delivery_stat := suppress (delivery_stat r),
         jr_completed := Some now, jr_updated := now\<rparr>)"
| attach: "active r \<Longrightarrow> jr_owner r = Some w \<Longrightarrow>
    run_step (SetPolarisRunId (jr_id r) w pid now) r (r\<lparr>polaris_run := Some pid, jr_updated := now\<rparr>)"
| renew: "active r \<Longrightarrow> require_active_lease r w now = None \<Longrightarrow>
    run_step (JobHeartbeat (jr_id r) w l now) r
      (r\<lparr>jr_expires := Some (now + timedelta_us l), jr_updated := now\<rparr>)"
| renew_late: "jr_owner r = Some w \<Longrightarrow>
    run_step (HeartbeatWrite (jr_id r) w e now) r (r\<lparr>jr_expires := Some e, jr_updated := now\<rparr>)"
| request: "\<not> retryable r \<Longrightarrow> run_step (RequestCancel (jr_id r) now) r (cancel_request now r)"
| request_late: "run_step (RequestCancelWrite (jr_id r) now) r (cancel_request now r)"
| job_request: "active r \<Longrightarrow> run_step (CancelJob (jr_job r) now) r (r\<lparr>cancel_requested := True, jr_updated := now\<rparr>)"
| job_suppress: "awaiting_delivery r \<Longrightarrow> run_step (CancelJob (jr_job r) now) r
      (r\<lparr>cancel_requested := True, delivery_stat := DvSuppressed, delivery_error := None, jr_updated := now\<rparr>)"
| cancel: "active r \<Longrightarrow> wo = None \<or> jr_owner r = wo \<Longrightarrow>
    run_step (CancelJobRun (jr_id r) wo now) r
      (r\<lparr>jr_stat := JrCancelled, cancel_requested := True, jr_owner := None, jr_expires := None,
         delivery_stat := suppress (delivery_stat r),
         delivery_error := (if delivery_stat r = DvPending then None else delivery_error r),
         jr_completed := Some now, jr_updated := now\<rparr>)"
| complete: "active r \<Longrightarrow> require_active_lease r w now = None \<Longrightarrow>
    terminal \<in> {JrSucceeded, JrFailed, JrCancelled} \<Longrightarrow>
    eff = (if cancel_requested r then JrCancelled else terminal) \<Longrightarrow>
    run_step (CompleteRun (jr_id r) w st e pid now) r
      (r\<lparr>jr_stat := eff, execution_error := e, polaris_run := coalesce pid (polaris_run r),
         jr_owner := None, jr_expires := None,
         delivery_stat := (if eff = JrCancelled then suppress (delivery_stat r) else delivery_stat r),
         delivery_error := (if eff = JrCancelled \<and> delivery_stat r = DvPending then None else delivery_error r),
         jr_completed := Some now, jr_updated := now\<rparr>)"
| deliver: "awaiting_delivery r \<Longrightarrow> target \<in> {DvSucceeded, DvFailed, DvSuppressed} \<Longrightarrow>
    run_step (RecordDelivery (jr_id r) st e now) r
      (r\<lparr>delivery_stat := target, delivery_error := e, jr_updated := now\<rparr>)"
| expire: "stale now r \<Longrightarrow> run_step (RecoverStale now) r (interrupt now r)"
| retry: "retryable r \<Longrightarrow> w \<noteq> [] \<Longrightarrow>
    run_step (CreateRetry (jr_id r) w l True now) r
      (r\<lparr>jr_stat := JrClaimed, jr_attempt := jr_attempt r + 1, jr_owner := Some w,
         jr_expires := Some (now + timedelta_us l), polaris_run := None, cancel_requested := False,
         execution_error := None, delivery_stat := fresh_delivery (jr_payload r),
         delivery_error := None, jr_claimed := now, jr_started := None, jr_completed := None,
         jr_updated := now\<rparr>)"

inductive_cases run_step_claimE: "run_step (ClaimDueRuns u now w l b c k) r r'"
inductive_cases run_step_recoverE: "run_step (RecoverStale now) r r'"

text \<open>What a claim inserts.\<close>

fun fresh_run :: "sched_op \<Rightarrow> job_run_row \<Rightarrow> bool" where
  "fresh_run (ClaimDueRuns u now w l b c k) r \<longleftrightarrow>
     jr_stat r = JrClaimed \<and> jr_attempt r = 1 \<and> w \<noteq> [] \<and> jr_owner r = Some w \<and>
     jr_expires r = Some (now + timedelta_us l) \<and> polaris_run r = None \<and> \<not> cancel_requested r \<and>
     execution_error r = None \<and> delivery_stat r = fresh_delivery (jr_payload r) \<and>
     delivery_error r = None \<and> jr_claimed r = now \<and> jr_started r = None \<and> jr_completed r = None"
| "fresh_run _ r \<longleftrightarrow> False"

abbreviation runs_follow :: "sched_op \<Rightarrow> job_run_row list \<Rightarrow> job_run_row list \<Rightarrow> bool" where
  "runs_follow a S S' \<equiv> table_follow (run_step a) (fresh_run a) S S'"

lemma run_step_identity:
  "run_step a r r' \<Longrightarrow> jr_id r' = jr_id r \<and> jr_job r' = jr_job r \<and> jr_scheduled r' = jr_scheduled r \<and>
     jr_payload r' = jr_payload r"
  by (erule run_step.cases) (auto simp: interrupt_def cancel_request_def)

lemma follow_keep: "runs_follow a S S"
  by (rule table_follow_refl) (rule keep)

lemma return_run_Inr: "return_run i d = Inr (x, d') \<longleftrightarrow> d' = d \<and> find_job_run i d = Some x"
  by (auto simp: return_run_def split: option.splits)

lemma return_job_Inr: "return_job i d = Inr (x, d') \<longleftrightarrow> d' = d \<and> find_job i d = Some x"
  by (auto simp: return_job_def split: option.splits)

lemma update_runs_simps [simp]:
  "jobs (update_runs i P f d) = jobs d"
  "job_runs (update_runs i P f d) = update_where (\<lambda>r. jr_id r = i \<and> P r) f (job_runs d)"
  by (simp_all add: update_runs_def)

lemma follow_update_runs:
  "(\<And>r. r \<in> set S \<Longrightarrow> jr_id r = i \<Longrightarrow> P r \<Longrightarrow> run_step a r (f r)) \<Longrightarrow>
   runs_follow a S (update_where (\<lambda>r. jr_id r = i \<and> P r) f S)"
  by (rule table_follow_update) (auto intro: keep)

lemma mark_running_follows:
  assumes "mark_running_tx i w pid now d = Inr (x, d')" and "keyed jr_id (job_runs d)"
  shows "runs_follow (MarkRunning i w pid now) (job_runs d) (job_runs d')"
proof -
  obtain row where row: "find_job_run i d = Some row" "jr_stat row = JrClaimed"
      "require_active_lease row w now = None"
    using assms(1) by (auto simp: mark_running_tx_def split: option.splits if_splits)
  note one = by_key_same [OF assms(2) row(1)]
  show ?thesis using assms(1) row
    by (auto simp: mark_running_tx_def Let_def return_run_Inr split: if_splits intro!: follow_update_runs)
      (use one in \<open>auto intro: run_step.start run_step.start_cancelled\<close>)
qed

lemma set_polaris_run_id_follows:
  "set_polaris_run_id_tx i w pid now d = Inr (x, d') \<Longrightarrow>
   runs_follow (SetPolarisRunId i w pid now) (job_runs d) (job_runs d')"
  by (auto simp: set_polaris_run_id_tx_def Let_def return_run_Inr split: if_splits
      intro!: follow_update_runs intro: run_step.attach)

lemma cancel_job_run_follows:
  assumes "cancel_job_run_tx i wo now d = Inr (x, d')" and "keyed jr_id (job_runs d)"
  shows "runs_follow (CancelJobRun i wo now) (job_runs d) (job_runs d')"
proof -
  obtain row where row: "find_job_run i d = Some row"
    using assms(1) by (auto simp: cancel_job_run_tx_def split: option.splits)
  let ?f = "\<lambda>r. r\<lparr>jr_stat := JrCancelled, cancel_requested := True, jr_owner := None, jr_expires := None,
         delivery_stat := suppress (delivery_stat r),
         delivery_error := (if delivery_stat r = DvPending then None else delivery_error r),
         jr_completed := Some now, jr_updated := now\<rparr>"
  have d': "job_runs d' = job_runs d \<or>
      (job_runs d' = update_where (\<lambda>r. jr_id r = i \<and> active r) ?f (job_runs d) \<and>
       (wo = None \<or> jr_owner row = wo))"
    using assms(1) row by (auto simp: cancel_job_run_tx_def return_run_Inr split: if_splits)
  have "run_step (CancelJobRun i wo now) r (?f r)"
    if "wo = None \<or> jr_owner row = wo" and "r \<in> set (job_runs d)" "jr_id r = i" "active r" for r
  proof -
    have "r = row" using by_key_same [OF assms(2) row that(2,3)] .
    then show ?thesis using that run_step.cancel [of r wo now] by simp
  qed
  then show ?thesis using d' follow_keep follow_update_runs by fastforce
qed

lemma complete_run_follows:
  assumes "complete_run_tx i w terminal e pid now d = Inr (x, d')" and "keyed jr_id (job_runs d)"
    and "terminal \<in> {JrSucceeded, JrFailed, JrCancelled}"
  shows "runs_follow (CompleteRun i w st e pid now) (job_runs d) (job_runs d')"
proof -
  obtain row where row: "find_job_run i d = Some row" "active row" "require_active_lease row w now = None"
    using assms(1) by (auto simp: complete_run_tx_def split: option.splits if_splits)
  define eff where "eff = (if cancel_requested row then JrCancelled else terminal)"
  let ?f = "\<lambda>r. r\<lparr>jr_stat := eff, execution_error := e, polaris_run := coalesce pid (polaris_run r),
         jr_owner := None, jr_expires := None,
         delivery_stat := (if eff = JrCancelled then suppress (delivery_stat r) else delivery_stat r),
         delivery_error := (if eff = JrCancelled \<and> delivery_stat r = DvPending then None else delivery_error r),
         jr_completed := Some now, jr_updated := now\<rparr>"
  have "job_runs d' = update_where (\<lambda>r. jr_id r = i \<and> jr_owner r = Some w) ?f (job_runs d)"
    using assms(1) row
    by (auto simp: complete_run_tx_def Let_def return_run_Inr suppress_def eff_def [symmetric]
        update_where_def intro!: map_cong)
  moreover have "run_step (CompleteRun i w st e pid now) r (?f r)" if r: "r \<in> set (job_runs d)" "jr_id r = i" for r
  proof -
    have "r = row" using by_key_same [OF assms(2) row(1) r] .
    then show ?thesis using run_step.complete [of r w now terminal eff st e pid] row(2,3) assms(3) r(2)
      by (simp add: eff_def)
  qed
  ultimately show ?thesis by (auto intro: follow_update_runs)
qed

lemma record_delivery_follows:
  "record_delivery_tx i target e now d = Inr (x, d') \<Longrightarrow> target \<in> {DvSucceeded, DvFailed, DvSuppressed} \<Longrightarrow>
   runs_follow (RecordDelivery i st e now) (job_runs d) (job_runs d')"
  by (auto simp: record_delivery_tx_def return_run_Inr split: if_splits option.splits
      intro!: follow_update_runs follow_keep intro: run_step.deliver)

lemma create_retry_follows:
  assumes "create_retry_tx i w (now + timedelta_us l) now d = Inr (x, d')" and "keyed jr_id (job_runs d)"
    and "w \<noteq> []"
  shows "runs_follow (CreateRetry i w l True now) (job_runs d) (job_runs d')"
proof -
  obtain row where row: "find_job_run i d = Some row"
    using assms(1) by (auto simp: create_retry_tx_def split: option.splits)
  note one = by_key_same [OF assms(2) row]
  show ?thesis using assms(1) row
    by (auto simp: create_retry_tx_def return_run_Inr split: if_splits intro!: follow_update_runs)
      (use one assms(3) in \<open>auto intro: run_step.retry\<close>)
qed

text \<open>The identifiers that a recovery selects; under unique identifiers these are the stale rows.\<close>

definition expired_id :: "instant \<Rightarrow> job_run_row list \<Rightarrow> str \<Rightarrow> bool" where
  "expired_id now S i \<longleftrightarrow> i \<in> set (map jr_id (order_by (\<lambda>r. (jr_expires r, jr_id r)) (filter (stale now) S)))"

lemma recover_stale_shape:
  assumes "recover_stale_runs_tx now d = Inr (x, d')"
  shows "d' = d\<lparr>job_runs := update_where (\<lambda>r. expired_id now (job_runs d) (jr_id r)) (interrupt now) (job_runs d)\<rparr>"
  using assms unfolding recover_stale_runs_tx_def Let_def expired_id_def [symmetric]
  by (simp split: sum.splits)

lemma expired_id_stale:
  assumes "keyed jr_id S" and "r \<in> set S"
  shows "expired_id now S (jr_id r) \<longleftrightarrow> stale now r"
proof
  assume "expired_id now S (jr_id r)"
  then obtain q where q: "q \<in> set S" "stale now q" "jr_id q = jr_id r"
    by (auto simp: expired_id_def)
  have "q = r" using by_key_same [OF assms(1) by_key_in [OF assms] q(1,3)] .
  then show "stale now r" using q(2) by simp
qed (use assms(2) in \<open>auto simp: expired_id_def\<close>)

lemma recover_stale_runs_of:
  assumes "recover_stale_runs_tx now d = Inr (x, d')" and "keyed jr_id (job_runs d)"
  shows "job_runs d' = update_where (stale now) (interrupt now) (job_runs d)"
  using expired_id_stale [OF assms(2)] recover_stale_shape [OF assms(1)]
  by (simp add: update_where_def cong: map_cong)

lemma recover_stale_follows:
  assumes "recover_stale_runs_tx now d = Inr (x, d')" and "keyed jr_id (job_runs d)"
  shows "runs_follow (RecoverStale now) (job_runs d) (job_runs d')"
  unfolding recover_stale_runs_of [OF assms]
  by (rule table_follow_update [OF keep]) (rule run_step.expire)

definition request_run :: "instant \<Rightarrow> job_run_row \<Rightarrow> job_run_row" where
  "request_run now r =
     (if active r then r\<lparr>cancel_requested := True, jr_updated := now\<rparr>
      else if awaiting_delivery r
      then r\<lparr>cancel_requested := True, delivery_stat := DvSuppressed, delivery_error := None, jr_updated := now\<rparr>
      else r)"

lemma request_job_runs_eq:
  "request_job_runs i now S = map (\<lambda>r. if jr_job r = i then request_run now r else r) S"
  by (simp add: request_job_runs_def update_where_def request_run_def active_def awaiting_delivery_def)

lemma request_run_step: "jr_job r = i \<Longrightarrow> run_step (CancelJob i now) r (request_run now r)"
  using run_step.job_request [of r now] run_step.job_suppress [of r now] run_step.keep
  by (simp add: request_run_def)

lemma cancel_job_shape:
  assumes "cancel_job_tx i now d = Inr (x, d')"
  shows "d' = d \<or> job_runs d' = request_job_runs i now (job_runs d)"
proof (cases "find_job i d")
  case (Some current)
  then show ?thesis using assms
    by (cases "job_stat current = JobCancelled")
      (simp_all add: cancel_job_tx_def Let_def return_job_Inr split: if_splits)
qed (use assms in \<open>simp add: cancel_job_tx_def\<close>)

lemma cancel_job_follows:
  assumes "cancel_job_tx i now d = Inr (x, d')"
  shows "runs_follow (CancelJob i now) (job_runs d) (job_runs d')"
proof -
  have "runs_follow (CancelJob i now) (job_runs d) (request_job_runs i now (job_runs d))"
  proof (rule table_followI)
    show "request_job_runs i now (job_runs d) =
        map (\<lambda>r. if jr_job r = i then request_run now r else r) (job_runs d) @ []"
      by (simp add: request_job_runs_eq)
  qed (simp_all add: request_run_step keep)
  then show ?thesis using cancel_job_shape [OF assms] follow_keep by metis
qed

section \<open>Claiming\<close>

lemma claim_occurrence_follows:
  assumes "runs_follow (ClaimDueRuns u now w l b c k) S (job_runs (snd (snd acc)))" and "w \<noteq> []"
  shows "runs_follow (ClaimDueRuns u now w l b c k) S
    (job_runs (snd (snd (claim_occurrence uuids job w now (now + timedelta_us l) t acc))))"
proof -
  obtain claimed n d where acc: "acc = (claimed, n, d)" by (cases acc) auto
  show ?thesis using assms unfolding acc
    by (simp add: claim_occurrence_def table_follow_snoc)
qed

definition advance_job :: "instant \<Rightarrow> instant option \<Rightarrow> job_row \<Rightarrow> job_row" where
  "advance_job now following j = j\<lparr>next_run_at := following,
     job_stat := (if following = None then JobCompleted else JobScheduled),
     job_updated := now, job_version := job_version j + 1\<rparr>"

definition advance_claim :: "instant \<Rightarrow> instant option \<Rightarrow> job_row \<Rightarrow> claim_state \<Rightarrow> claim_state" where
  "advance_claim now following job acc = (fst acc, fst (snd acc), (snd (snd acc))
     \<lparr>jobs := update_where (\<lambda>j. job_id j = job_id job) (advance_job now following) (jobs (snd (snd acc)))\<rparr>)"

definition insert_occurrences ::
  "(nat \<Rightarrow> str) \<Rightarrow> str \<Rightarrow> instant \<Rightarrow> instant \<Rightarrow> nat \<Rightarrow> job_row \<Rightarrow> instant list \<Rightarrow> claim_state \<Rightarrow> claim_state" where
  "insert_occurrences uuids w now e limit job occ acc =
     fold (claim_occurrence uuids job w now e) (last_occurrences (limit - length (fst acc)) occ) acc"

lemma claim_job_shape:
  "claim_job env uuids w now e limit job acc =
     (if limit \<le> length (fst acc) then Inr acc
      else case due_occurrences env job now of Inl e \<Rightarrow> Inl e
      | Inr occ \<Rightarrow> (case advance_after_now env job now of Inl e \<Rightarrow> Inl e
        | Inr following \<Rightarrow> Inr (advance_claim now following job (insert_occurrences uuids w now e limit job occ acc))))"
  unfolding claim_job_def advance_claim_def insert_occurrences_def advance_job_def Let_def split_def ..

lemma claim_jobE:
  assumes "claim_job env uuids w now e limit job acc = Inr acc'"
  obtains "limit \<le> length (fst acc)" "acc' = acc"
  | occ following where "\<not> limit \<le> length (fst acc)" "due_occurrences env job now = Inr occ"
    "advance_after_now env job now = Inr following"
    "acc' = advance_claim now following job (insert_occurrences uuids w now e limit job occ acc)"
  using assms unfolding claim_job_shape by (auto split: if_splits sum.splits)

lemma advance_claim_simps [simp]:
  "fst (advance_claim now following job acc) = fst acc"
  "job_runs (snd (snd (advance_claim now following job acc))) = job_runs (snd (snd acc))"
  "jobs (snd (snd (advance_claim now following job acc))) =
     update_where (\<lambda>j. job_id j = job_id job) (advance_job now following) (jobs (snd (snd acc)))"
  by (simp_all add: advance_claim_def)

text \<open>The induction every fact about a claim goes through: what one insertion keeps, the claim keeps.\<close>

lemma claim_jobs_induct:
  assumes "claim_jobs env uuids w now e limit js acc = Inr acc'" and "Q (fst acc) (job_runs (snd (snd acc)))"
    and "\<And>job t acc. job \<in> set js \<Longrightarrow> Q (fst acc) (job_runs (snd (snd acc))) \<Longrightarrow>
      Q (fst (claim_occurrence uuids job w now e t acc)) (job_runs (snd (snd (claim_occurrence uuids job w now e t acc))))"
  shows "Q (fst acc') (job_runs (snd (snd acc')))"
  using assms
proof (induction js arbitrary: acc)
  case (Cons h js)
  note step = Cons.prems(3) [of h]
  have fold: "Q (fst (fold (claim_occurrence uuids h w now e) ts acc))
      (job_runs (snd (snd (fold (claim_occurrence uuids h w now e) ts acc))))"
    if "Q (fst acc) (job_runs (snd (snd acc)))" for ts and acc :: claim_state
    using that
  proof (induction ts arbitrary: acc)
    case (Cons t ts)
    have "Q (fst (claim_occurrence uuids h w now e t acc)) (job_runs (snd (snd (claim_occurrence uuids h w now e t acc))))"
      using step Cons.prems by simp
    then show ?case using Cons.IH by simp
  qed simp
  obtain acc1 where acc1: "claim_job env uuids w now e limit h acc = Inr acc1"
      "claim_jobs env uuids w now e limit js acc1 = Inr acc'"
    using Cons.prems(1) by (cases "claim_job env uuids w now e limit h acc") simp_all
  have "Q (fst acc1) (job_runs (snd (snd acc1)))"
    using acc1(1)
  proof (cases rule: claim_jobE)
    case (2 occ following)
    then show ?thesis using fold [OF Cons.prems(2)] by (simp add: insert_occurrences_def)
  qed (use Cons.prems(2) in simp)
  then show ?case using Cons.prems(3) by (intro Cons.IH [OF acc1(2)]) simp_all
qed simp

lemma claim_jobs_follows:
  assumes "claim_jobs env uuids w now (now + timedelta_us l) limit js acc = Inr acc'" and "w \<noteq> []"
    and "runs_follow (ClaimDueRuns u now w l b c k) S (job_runs (snd (snd acc)))"
  shows "runs_follow (ClaimDueRuns u now w l b c k) S (job_runs (snd (snd acc')))"
  using claim_jobs_induct [OF assms(1), of "\<lambda>_. runs_follow (ClaimDueRuns u now w l b c k) S", OF assms(3)]
    claim_occurrence_follows assms(2) by blast

section \<open>The machine\<close>

inductive sched_step :: "sched_env \<Rightarrow> sched_op \<Rightarrow> sched_db \<Rightarrow> sched_db \<Rightarrow> bool" for env where
  create_job: "insert_job row d = Inr (x, d') \<Longrightarrow> job_version row = 1 \<and> job_stat row = JobScheduled \<Longrightarrow>
    1 \<le> job_max_catchup row \<and> job_max_catchup row \<le> 10 \<and> 0 \<le> job_grace row \<and>
      (job_policy row \<noteq> CatchupBounded \<longrightarrow> job_max_catchup row = 1) \<Longrightarrow>
    sched_step env (CreateJob sp pl n g p m gr u now) d d'"
| update_job: "update_job_row i f d = Inr (x, d') \<Longrightarrow>
    a = UpdateJob i ch now \<or> a = UpdateJobFrom cur i ch now \<Longrightarrow>
    (\<And>j. job_id (f j) = job_id j \<and> job_stat (f j) = job_stat j \<and> job_created (f j) = job_created j \<and>
       job_version (f j) = job_version j + 1 \<and>
       1 \<le> job_max_catchup (f j) \<and> job_max_catchup (f j) \<le> 10 \<and> 0 \<le> job_grace (f j) \<and>
       (job_policy (f j) \<noteq> CatchupBounded \<longrightarrow> job_max_catchup (f j) = 1)) \<Longrightarrow>
    sched_step env a d d'"
| pause_job: "set_job_state_tx i JobPaused JobScheduled now d = Inr (x, d') \<Longrightarrow>
    sched_step env (PauseJob i now) d d'"
| resume_job: "resume_job_tx env i now d = Inr (x, d') \<Longrightarrow> sched_step env (ResumeJob i now) d d'"
| cancel_job: "cancel_job_tx i now d = Inr (x, d') \<Longrightarrow> sched_step env (CancelJob i now) d d'"
| claim: "w \<noteq> [] \<Longrightarrow> 0 < timedelta_us l \<Longrightarrow>
    claim_due_runs_tx env u now w (now + timedelta_us l) limit k d = Inr (x, d') \<Longrightarrow>
    sched_step env (ClaimDueRuns u now w l b c k) d d'"
| mark_running: "mark_running_tx i w pid now d = Inr (x, d') \<Longrightarrow> sched_step env (MarkRunning i w pid now) d d'"
| attach: "set_polaris_run_id_tx i w pid now d = Inr (x, d') \<Longrightarrow> sched_step env (SetPolarisRunId i w pid now) d d'"
| heartbeat: "find_job_run i d = Some run \<Longrightarrow> active run \<Longrightarrow> require_active_lease run w now = None \<Longrightarrow>
    d' = update_runs i (\<lambda>r. jr_owner r = Some w)
       (\<lambda>r. r\<lparr>jr_expires := Some (now + timedelta_us l), jr_updated := now\<rparr>) d \<Longrightarrow>
    sched_step env (JobHeartbeat i w l now) d d'"
| heartbeat_write: "d' = update_runs i (\<lambda>r. jr_owner r = Some w)
       (\<lambda>r. r\<lparr>jr_expires := Some e, jr_updated := now\<rparr>) d \<Longrightarrow>
    sched_step env (HeartbeatWrite i w e now) d d'"
| request: "find_job_run i d = Some run \<Longrightarrow> \<not> retryable run \<Longrightarrow>
    d' = update_runs i (\<lambda>r. True) (cancel_request now) d \<Longrightarrow> sched_step env (RequestCancel i now) d d'"
| request_late: "d' = update_runs i (\<lambda>r. True) (cancel_request now) d \<Longrightarrow>
    sched_step env (RequestCancelWrite i now) d d'"
| cancel_run: "cancel_job_run_tx i wo now d = Inr (x, d') \<Longrightarrow> sched_step env (CancelJobRun i wo now) d d'"
| complete: "terminal \<in> {JrSucceeded, JrFailed, JrCancelled} \<Longrightarrow>
    complete_run_tx i w terminal e pid now d = Inr (x, d') \<Longrightarrow>
    sched_step env (CompleteRun i w st e pid now) d d'"
| deliver: "target \<in> {DvSucceeded, DvFailed, DvSuppressed} \<Longrightarrow>
    record_delivery_tx i target e now d = Inr (x, d') \<Longrightarrow>
    sched_step env (RecordDelivery i st e now) d d'"
| recover: "recover_stale_runs_tx now d = Inr (x, d') \<Longrightarrow> sched_step env (RecoverStale now) d d'"
| retry: "w \<noteq> [] \<Longrightarrow> create_retry_tx i w (now + timedelta_us l) now d = Inr (x, d') \<Longrightarrow>
    sched_step env (CreateRetry i w l True now) d d'"

inductive_cases sched_claimE: "sched_step env (ClaimDueRuns u now w l b c k) d d'"

lemma validate_job_options_Inr:
  "validate_job_options p m g = Inr q \<Longrightarrow>
   1 \<le> m \<and> m \<le> 10 \<and> 0 \<le> g \<and> (q \<noteq> CatchupBounded \<longrightarrow> m = 1)"
  by (auto simp: validate_job_options_def split: sum.splits if_splits)

definition sched_moves :: "sched_env \<Rightarrow> sched_op \<Rightarrow> sched_store \<Rightarrow> sched_store \<Rightarrow> bool" where
  "sched_moves env a s s' \<longleftrightarrow> s' = s \<or> (a = CloseStore \<and> s' = close_store s) \<or>
     (\<exists>d. sched_step env a (sdb s) d \<and> s' = s\<lparr>sdb := d\<rparr>)"

lemma sched_transaction_moves:
  "(\<And>x d. body (sdb s) = Inr (x, d) \<Longrightarrow> sched_step env a (sdb s) d) \<Longrightarrow>
   sched_moves env a s (snd (sched_transaction body s))"
  by (auto simp: sched_transaction_def sched_moves_def split: sum.splits)

lemma sched_moves_refl [simp]: "sched_moves env a s s"
  by (simp add: sched_moves_def)

lemma update_job_from_moves:
  "a = UpdateJob i ch now \<or> a = UpdateJobFrom cur i ch now \<Longrightarrow>
   sched_moves env a s (snd (update_job_from env cur' i ch now s))"
  unfolding update_job_from_def Let_def
  by (auto split: sum.splits intro!: sched_transaction_moves sched_step.update_job
      dest: validate_job_options_Inr)


lemma create_job_moves: "sched_moves env (CreateJob sp pl n g p m gr u now) s (snd (create_job env sp pl n g p m gr u now s))"
  unfolding create_job_def Let_def
  by (auto split: sum.splits intro!: sched_transaction_moves sched_step.create_job
      dest: validate_job_options_Inr)

lemma sched_exec_moves: "sched_moves env a s (sched_exec env a s)"
proof (cases a)
  case (UpdateJob i ch now)
  then show ?thesis
    by (auto simp: update_job_def split: sum.splits intro: update_job_from_moves)
next
  case (ClaimDueRuns u now w l b c k)
  then show ?thesis
    by (auto simp: claim_due_runs_def Let_def intro!: sched_transaction_moves sched_step.claim)
next
  case (CompleteRun i w st e pid now)
  have "sched_moves env a s (snd (sched_transaction (complete_run_tx i w terminal e pid now) s))"
    if "terminal \<in> {JrSucceeded, JrFailed, JrCancelled}" for terminal
    unfolding CompleteRun by (rule sched_transaction_moves) (rule sched_step.complete [OF that])
  then show ?thesis using CompleteRun by (auto simp: complete_run_def split: sum.splits)
next
  case (RecordDelivery i st e now)
  have "sched_moves env a s (snd (sched_transaction (record_delivery_tx i target e now) s))"
    if "target \<in> {DvSucceeded, DvFailed, DvSuppressed}" for target
    unfolding RecordDelivery by (rule sched_transaction_moves) (rule sched_step.deliver [OF that])
  then show ?thesis using RecordDelivery by (auto simp: record_delivery_def split: sum.splits)
next
  case (JobHeartbeat i w l now)
  show ?thesis
  proof (cases "get_job_run i s")
    case (Inr run)
    then have "\<not> sclosed s" "find_job_run i (sdb s) = Some run"
      by (auto simp: get_job_run_def split: if_splits option.splits)
    then show ?thesis using Inr JobHeartbeat
      by (auto simp: job_heartbeat_def heartbeat_write_def return_run_Inr split: option.splits
          intro!: sched_transaction_moves intro: sched_step.heartbeat)
  qed (use JobHeartbeat in \<open>simp add: job_heartbeat_def\<close>)
next
  case (RequestCancel i now)
  show ?thesis
  proof (cases "get_job_run i s")
    case (Inr run)
    then have "find_job_run i (sdb s) = Some run"
      by (auto simp: get_job_run_def split: if_splits option.splits)
    then show ?thesis using Inr RequestCancel
      by (auto simp: request_cancel_def request_cancel_write_def return_run_Inr retryable_def
          cancel_request_def [abs_def] intro!: sched_transaction_moves intro: sched_step.request)
  qed (use RequestCancel in \<open>simp add: request_cancel_def\<close>)
qed (auto simp: pause_job_def resume_job_def cancel_job_def mark_running_def
    set_polaris_run_id_def heartbeat_write_def request_cancel_write_def cancel_job_run_def
    recover_stale_runs_def create_retry_def return_run_Inr
    create_job_moves sched_moves_def [of env CloseStore] cancel_request_def [abs_def]
    intro: update_job_from_moves intro!: sched_transaction_moves sched_step.pause_job
      sched_step.resume_job sched_step.cancel_job sched_step.mark_running sched_step.attach
      sched_step.heartbeat_write sched_step.request_late sched_step.cancel_run sched_step.recover
      sched_step.retry)

lemma claim_txE:
  assumes "claim_due_runs_tx env u now w e limit k d = Inr (x, d')"
  obtains js claimed n where
    "js = (case k of None \<Rightarrow> due_jobs now d | Some k \<Rightarrow> shuffle env k (due_jobs now d))"
    "claim_jobs env u w now e limit js ([], 0, d) = Inr (claimed, n, d')" "find_all claimed d' = Inr x"
  using assms by (auto simp: claim_due_runs_tx_def Let_def split: sum.splits prod.splits)

lemma resume_job_runs: "resume_job_tx env i now d = Inr (x, d') \<Longrightarrow> job_runs d' = job_runs d"
  unfolding resume_job_tx_def Let_def
  by (auto simp: return_job_Inr split: option.splits sum.splits if_splits)

lemma sched_step_follows:
  assumes "sched_step env a d d'" and "keyed jr_id (job_runs d)"
  shows "runs_follow a (job_runs d) (job_runs d')"
  using assms(1)
proof cases
  case (claim w l u now limit k x b c)
  from claim(4) obtain js claimed n where
    "claim_jobs env u w now (now + timedelta_us l) limit js ([], 0, d) = Inr (claimed, n, d')"
    by (rule claim_txE)
  from claim_jobs_follows [OF this claim(2), where u = u and b = b and c = c and k = k and S = "job_runs d"] show ?thesis
    using claim(1) follow_keep by simp
next
  case (heartbeat i run w now l)
  have "run_step a r (r\<lparr>jr_expires := Some (now + timedelta_us l), jr_updated := now\<rparr>)"
    if "r \<in> set (job_runs d)" "jr_id r = i" for r
    using run_step.renew [of r w now l] by_key_same [OF assms(2) heartbeat(2) that] heartbeat(1,3,4) that(2) by simp
  then show ?thesis using heartbeat(5) by (auto intro: follow_update_runs)
next
  case (heartbeat_write i w now e)
  have "run_step a r (r\<lparr>jr_expires := Some e, jr_updated := now\<rparr>)"
    if "jr_id r = i" "jr_owner r = Some w" for r
    using run_step.renew_late [of r w e now] heartbeat_write(1) that by simp
  then show ?thesis using heartbeat_write(2) by (auto intro: follow_update_runs)
next
  case (request i run now)
  have "run_step a r (cancel_request now r)" if "r \<in> set (job_runs d)" "jr_id r = i" for r
    using run_step.request [of r now] by_key_same [OF assms(2) request(2) that] request(1,3) that(2) by simp
  then show ?thesis using request(4) follow_update_runs [where P = "\<lambda>r. True"] by simp
next
  case (request_late i now)
  have "run_step a r (cancel_request now r)" if "jr_id r = i" for r
    using run_step.request_late [of r now] request_late(1) that by simp
  then show ?thesis using request_late(2) follow_update_runs [where P = "\<lambda>r. True"] by simp
qed (use assms(2) in \<open>auto simp: insert_job_def update_job_row_def return_job_Inr set_job_state_tx_def Let_def
   resume_job_runs split: if_splits
   intro: mark_running_follows set_polaris_run_id_follows cancel_job_run_follows complete_run_follows
     record_delivery_follows create_retry_follows recover_stale_follows cancel_job_follows follow_keep\<close>)

end
