(* ===== verification/SchedulerInvariants.thy ===== *)
theory SchedulerInvariants
  imports SchedulerMachine
begin

text \<open>
  The life of a job row, the invariant of the scheduler's tables and its preservation by every
  operation.  \<open>shuffle_ok\<close> states what the claim relies on of \<open>random.Random.shuffle\<close>: it permutes.
\<close>

definition shuffle_ok :: "sched_env \<Rightarrow> bool" where
  "shuffle_ok env \<longleftrightarrow> (\<forall>k js. mset (shuffle env k js) = mset js)"

section \<open>The life of a job\<close>

definition options_ok :: "job_row \<Rightarrow> bool" where
  "options_ok j \<longleftrightarrow> 1 \<le> job_max_catchup j \<and> job_max_catchup j \<le> 10 \<and> 0 \<le> job_grace j \<and>
     (job_policy j \<noteq> CatchupBounded \<longrightarrow> job_max_catchup j = 1)"

definition due_job :: "instant \<Rightarrow> job_row \<Rightarrow> bool" where
  "due_job now j \<longleftrightarrow> job_stat j = JobScheduled \<and> (case next_run_at j of None \<Rightarrow> False | Some t \<Rightarrow> t \<le> now)"

inductive job_step :: "sched_op \<Rightarrow> job_row \<Rightarrow> job_row \<Rightarrow> bool" where
  keep: "job_step a j j"
| edit: "a = UpdateJob (job_id j) ch now \<or> a = UpdateJobFrom cur (job_id j) ch now \<Longrightarrow>
    job_id j' = job_id j \<Longrightarrow> job_stat j' = job_stat j \<Longrightarrow> job_version j' = job_version j + 1 \<Longrightarrow>
    options_ok j' \<Longrightarrow> job_step a j j'"
| pause: "job_stat j = JobScheduled \<Longrightarrow> job_step (PauseJob (job_id j) now) j
    (j\<lparr>job_stat := JobPaused, job_updated := now, job_version := job_version j + 1\<rparr>)"
| resume: "job_stat j = JobPaused \<Longrightarrow> job_step (ResumeJob (job_id j) now) j
    (j\<lparr>job_stat := JobScheduled, next_run_at := following, job_updated := now, job_version := job_version j + 1\<rparr>)"
| cancel: "job_stat j \<in> {JobScheduled, JobPaused} \<Longrightarrow> job_step (CancelJob (job_id j) now) j
    (j\<lparr>job_stat := JobCancelled, job_updated := now, job_version := job_version j + 1\<rparr>)"
| advance: "due_job now j \<Longrightarrow> job_step (ClaimDueRuns u now w l b c k) j (advance_job now following j)"

fun fresh_job :: "sched_op \<Rightarrow> job_row \<Rightarrow> bool" where
  "fresh_job (CreateJob sp pl n g p m gr u now) j \<longleftrightarrow> job_stat j = JobScheduled \<and> job_version j = 1 \<and> options_ok j"
| "fresh_job _ j \<longleftrightarrow> False"

abbreviation jobs_follow :: "sched_op \<Rightarrow> job_row list \<Rightarrow> job_row list \<Rightarrow> bool" where
  "jobs_follow a S S' \<equiv> table_follow (job_step a) (fresh_job a) S S'"

lemma advance_job_simps [simp]:
  "job_id (advance_job now following j) = job_id j"
  "job_stat (advance_job now following j) = (if following = None then JobCompleted else JobScheduled)"
  "next_run_at (advance_job now following j) = following"
  "job_version (advance_job now following j) = job_version j + 1"
  "options_ok (advance_job now following j) = options_ok j"
  by (simp_all add: advance_job_def options_ok_def)

lemma job_step_id: "job_step a j j' \<Longrightarrow> job_id j' = job_id j"
  by (erule job_step.cases) auto

lemma follow_same_jobs: "jobs_follow a S S"
  by (rule table_follow_refl) (rule job_step.keep)

lemma follow_update_jobs:
  "(\<And>j. j \<in> set S \<Longrightarrow> P j \<Longrightarrow> job_step a j (f j)) \<Longrightarrow> jobs_follow a S (update_where P f S)"
  by (rule table_follow_update) (auto intro: job_step.keep)

subsection \<open>Claiming\<close>

text \<open>What one pass over the due jobs does to the job table.\<close>

definition advanced :: "instant \<Rightarrow> str set \<Rightarrow> job_row \<Rightarrow> job_row \<Rightarrow> bool" where
  "advanced now ids j j' \<longleftrightarrow> j' = j \<or> (job_id j \<in> ids \<and> (\<exists>following. j' = advance_job now following j))"

lemma advanced_id: "advanced now ids j j' \<Longrightarrow> job_id j' = job_id j"
  by (auto simp: advanced_def)

lemma claim_occurrence_jobs [simp]: "jobs (snd (snd (claim_occurrence uuids job w now e t acc))) = jobs (snd (snd acc))"
  by (simp add: claim_occurrence_def Let_def split_def)

lemma fold_claim_jobs [simp]:
  "jobs (snd (snd (fold (claim_occurrence uuids job w now e) ts acc))) = jobs (snd (snd acc))"
  by (induction ts arbitrary: acc) simp_all

lemma insert_occurrences_jobs [simp]:
  "jobs (snd (snd (insert_occurrences uuids w now e limit job occ acc))) = jobs (snd (snd acc))"
  by (simp add: insert_occurrences_def)

lemma claim_job_advances:
  assumes "claim_job env uuids w now e limit job acc = Inr acc'"
  shows "\<exists>f. jobs (snd (snd acc')) = map f (jobs (snd (snd acc))) \<and>
    (\<forall>j. advanced now {job_id job} j (f j))"
  using assms
proof (cases rule: claim_jobE)
  case (2 occ following)
  let ?f = "\<lambda>j. if job_id j = job_id job then advance_job now following j else j"
  show ?thesis using 2(4)
    by (intro exI [of _ ?f]) (auto simp: update_where_def advanced_def)
qed (auto simp: advanced_def intro!: exI [of _ id])

lemma claim_jobs_advances:
  "claim_jobs env uuids w now e limit js acc = Inr acc' \<Longrightarrow> distinct (map job_id js) \<Longrightarrow>
   \<exists>f. jobs (snd (snd acc')) = map f (jobs (snd (snd acc))) \<and> (\<forall>j. advanced now (job_id ` set js) j (f j))"
proof (induction js arbitrary: acc)
  case (Cons h js)
  obtain acc1 where acc1: "claim_job env uuids w now e limit h acc = Inr acc1"
      "claim_jobs env uuids w now e limit js acc1 = Inr acc'"
    using Cons.prems(1) by (cases "claim_job env uuids w now e limit h acc") simp_all
  obtain f where f: "jobs (snd (snd acc1)) = map f (jobs (snd (snd acc)))" "\<And>j. advanced now {job_id h} j (f j)"
    using claim_job_advances [OF acc1(1)] by blast
  obtain g where g: "jobs (snd (snd acc')) = map g (jobs (snd (snd acc1)))"
      "\<And>j. advanced now (job_id ` set js) j (g j)"
    using Cons.IH [OF acc1(2)] Cons.prems(2) by auto
  have "advanced now (job_id ` set (h # js)) j (g (f j))" for j
    using f(2) [of j] g(2) [of "f j"] Cons.prems(2) unfolding advanced_def
    by (auto simp: image_iff)
  then show ?case using f(1) g(1) by (intro exI [of _ "g \<circ> f"]) simp
qed (auto simp: advanced_def intro!: exI [of _ id])

lemma set_due_jobs: "set (due_jobs now d) = {j \<in> set (jobs d). due_job now j}"
  by (auto simp: due_jobs_def due_job_def)

lemma due_jobs_distinct: "keyed job_id (jobs d) \<Longrightarrow> distinct (map job_id (due_jobs now d))"
proof -
  assume key: "keyed job_id (jobs d)"
  have "inj_on job_id (set (jobs d))" "distinct (jobs d)"
    using key by (simp_all add: keyed_def distinct_map)
  then have "distinct (due_jobs now d)" "inj_on job_id (set (due_jobs now d))"
    by (auto simp: due_jobs_def order_by_def inj_on_def)
  then show ?thesis by (simp add: distinct_map)
qed

text \<open>The jobs a claim visits, in the order it visits them.\<close>

definition claim_order :: "sched_env \<Rightarrow> instant \<Rightarrow> int option \<Rightarrow> sched_db \<Rightarrow> job_row list" where
  "claim_order env now k d = (case k of None \<Rightarrow> due_jobs now d | Some k \<Rightarrow> shuffle env k (due_jobs now d))"

lemma claim_order_mset: "shuffle_ok env \<Longrightarrow> mset (claim_order env now k d) = mset (due_jobs now d)"
  by (simp add: claim_order_def shuffle_ok_def split: option.split)

lemma set_claim_order: "shuffle_ok env \<Longrightarrow> set (claim_order env now k d) = {j \<in> set (jobs d). due_job now j}"
  using claim_order_mset [of env now k d] set_due_jobs mset_eq_setD by metis

lemma claim_order_distinct:
  "shuffle_ok env \<Longrightarrow> keyed job_id (jobs d) \<Longrightarrow> distinct (map job_id (claim_order env now k d))"
  by (metis claim_order_mset due_jobs_distinct mset_eq_imp_distinct_iff mset_map)

lemma claim_orderE:
  assumes "claim_due_runs_tx env u now w e limit k d = Inr (x, d')"
  obtains claimed n where
    "claim_jobs env u w now e limit (claim_order env now k d) ([], 0, d) = Inr (claimed, n, d')"
    "find_all claimed d' = Inr x"
  using claim_txE [OF assms] unfolding claim_order_def by metis

lemma claim_jobs_follow:
  assumes "claim_due_runs_tx env u now w e limit k d = Inr (x, d')" and "shuffle_ok env"
    and "keyed job_id (jobs d)"
  shows "jobs_follow (ClaimDueRuns u now w l b c k') (jobs d) (jobs d')"
proof -
  obtain claimed n where
    "claim_jobs env u w now e limit (claim_order env now k d) ([], 0, d) = Inr (claimed, n, d')"
    using assms(1) by (rule claim_orderE)
  from claim_jobs_advances [OF this claim_order_distinct [OF assms(2,3)]]
  obtain f where f: "jobs d' = map f (jobs d)"
      "\<And>j. advanced now (job_id ` {j \<in> set (jobs d). due_job now j}) j (f j)"
    by (auto simp: set_claim_order [OF assms(2)])
  have "job_step (ClaimDueRuns u now w l b c k') j (f j)" if j: "j \<in> set (jobs d)" for j
  proof (cases "f j = j")
    case False
    then obtain q following where q: "q \<in> set (jobs d)" "due_job now q" "job_id q = job_id j"
        "f j = advance_job now following j"
      using f(2) [of j] unfolding advanced_def by auto
    have "q = j" using by_key_same [OF assms(3) by_key_in [OF assms(3) j] q(1,3)] .
    then show ?thesis using q(2,4) job_step.advance by simp
  qed (simp add: job_step.keep)
  with f(1) show ?thesis by (intro table_followI [of _ f _ "[]"]) auto
qed


lemma resume_job_follow:
  "resume_job_tx env i now d = Inr (x, d') \<Longrightarrow> jobs_follow (ResumeJob i now) (jobs d) (jobs d')"
  by (auto simp: resume_job_tx_def return_job_Inr Let_def split: option.splits sum.splits if_splits
      intro!: follow_update_jobs job_step.resume)

lemma set_job_state_follow:
  "set_job_state_tx i JobPaused JobScheduled now d = Inr (x, d') \<Longrightarrow>
   jobs_follow (PauseJob i now) (jobs d) (jobs d')"
  by (auto simp: set_job_state_tx_def return_job_Inr Let_def split: if_splits
      intro!: follow_update_jobs job_step.pause)

lemma cancel_job_follow:
  assumes "cancel_job_tx i now d = Inr (x, d')"
  shows "jobs_follow (CancelJob i now) (jobs d) (jobs d')"
proof -
  let ?hit = "\<lambda>j. job_id j = i \<and> job_stat j \<in> {JobScheduled, JobPaused}"
  let ?f = "\<lambda>j. j\<lparr>job_stat := JobCancelled, job_updated := now, job_version := job_version j + 1\<rparr>"
  have step: "job_step (CancelJob i now) j (?f j)" if "?hit j" for j
    using job_step.cancel [of j now] that by simp
  have "jobs d' = jobs d \<or> jobs d' = update_where ?hit ?f (jobs d)"
    using assms by (auto simp: cancel_job_tx_def return_job_Inr Let_def split: option.splits if_splits)
  then show ?thesis
    using follow_same_jobs [of "CancelJob i now" "jobs d"]
      follow_update_jobs [where P = ?hit and f = ?f and S = "jobs d", OF step] by (elim disjE) simp_all
qed

lemma insert_job_follow:
  "insert_job row d = Inr (x, d') \<Longrightarrow> fresh_job a row \<Longrightarrow> jobs_follow a (jobs d) (jobs d')"
  by (auto simp: insert_job_def return_job_Inr split: if_splits intro!: table_follow_snoc follow_same_jobs)

lemma sched_step_jobs:
  assumes "sched_step env a d d'" and "shuffle_ok env" and "keyed job_id (jobs d)"
  shows "jobs_follow a (jobs d) (jobs d')"
  using assms(1)
proof cases
  case (create_job row x sp pl n g p m gr u now)
  then show ?thesis by (intro insert_job_follow [OF create_job(2)]) (simp add: options_ok_def)
next
  case (update_job i f x ch now cur)
  have "job_step a j (f j)" if "job_id j = i" for j
    using update_job(2) update_job(3) [of j] that
    by (intro job_step.edit [of a j ch now cur]) (simp_all add: options_ok_def)
  then show ?thesis using update_job(1)
    by (auto simp: update_job_row_def return_job_Inr split: if_splits intro!: follow_update_jobs)
next
  case (claim w l u now limit k x b c)
  then show ?thesis using claim_jobs_follow assms(2,3) by simp
next
  case (recover now x)
  then show ?thesis using recover_stale_shape [OF recover(2)] follow_same_jobs by simp
qed (auto intro: set_job_state_follow resume_job_follow cancel_job_follow follow_same_jobs
   simp: mark_running_tx_def set_polaris_run_id_tx_def cancel_job_run_tx_def complete_run_tx_def
     record_delivery_tx_def create_retry_tx_def return_run_Inr Let_def split: option.splits if_splits)

section \<open>The invariant of a run row\<close>

definition leased_run :: "job_run_row \<Rightarrow> bool" where
  "leased_run r \<longleftrightarrow> jr_owner r \<noteq> None \<and> jr_owner r \<noteq> Some [] \<and> jr_expires r \<noteq> None \<and> jr_completed r = None \<and>
     delivery_stat r \<in> {DvNotRequested, DvPending}"

definition closed_run :: "job_run_row \<Rightarrow> bool" where
  "closed_run r \<longleftrightarrow> jr_owner r = None \<and> jr_expires r = None \<and> jr_completed r \<noteq> None"

definition run_row_ok :: "job_run_row \<Rightarrow> bool" where
  "run_row_ok r \<longleftrightarrow> 1 \<le> jr_attempt r \<and>
     (delivery_stat r = DvNotRequested \<longleftrightarrow> pl_delivery (jr_payload r) = None) \<and>
     (case jr_stat r of
        JrClaimed \<Rightarrow> leased_run r \<and> jr_started r = None
      | JrRunning \<Rightarrow> leased_run r \<and> jr_started r \<noteq> None
      | JrSucceeded \<Rightarrow> closed_run r \<and> (delivery_stat r = DvPending \<longrightarrow> \<not> cancel_requested r)
      | JrFailed \<Rightarrow> closed_run r \<and> delivery_stat r \<in> {DvNotRequested, DvPending}
      | JrInterrupted \<Rightarrow> closed_run r \<and> delivery_stat r \<in> {DvNotRequested, DvPending}
      | JrCancelled \<Rightarrow> closed_run r \<and> delivery_stat r \<in> {DvNotRequested, DvSuppressed})"

lemmas run_fields = active_def awaiting_delivery_def suppress_def retryable_def fresh_delivery_def
  leased_run_def closed_run_def

lemma run_row_ok_active:
  "run_row_ok r \<Longrightarrow> active r \<Longrightarrow> leased_run r"
  "run_row_ok r \<Longrightarrow> \<not> active r \<Longrightarrow> closed_run r"
  by (auto simp: run_row_ok_def active_def split: job_run_status.splits)

lemma run_step_ok: "run_step a r r' \<Longrightarrow> run_row_ok r \<Longrightarrow> run_row_ok r'"
proof (induction rule: run_step.induct)
  case (request r now)
  then show ?case by (cases "jr_stat r") (auto simp: run_row_ok_def run_fields cancel_request_def)
next
  case (request_late r now)
  then show ?case by (cases "jr_stat r") (auto simp: run_row_ok_def run_fields cancel_request_def)
next
  case (complete r w now terminal eff st e pid)
  have "leased_run r" using run_row_ok_active(1) [OF complete(5,1)] .
  moreover have "eff = JrCancelled \<or> \<not> cancel_requested r \<and> eff \<in> {JrSucceeded, JrFailed}"
    using complete(3,4) by auto
  ultimately show ?case using complete(5)
    by (elim disjE) (auto simp: run_row_ok_def run_fields)
next
  case (retry r w now l)
  then show ?case by (simp add: run_row_ok_def run_fields)
next
  case (renew_late r w e now)
  have "active r" using run_row_ok_active(2) [OF renew_late(2)] renew_late(1) by (auto simp: closed_run_def)
  then show ?case using renew_late(2) by (auto simp: run_row_ok_def run_fields)
next
  case (expire now r)
  then have "active r" by (simp add: stale_def)
  then show ?case using run_row_ok_active(1) expire(2) by (auto simp: run_row_ok_def run_fields interrupt_def)
next
  case (cancel r wo now)
  then show ?case using run_row_ok_active(1) [OF cancel(3,1)] by (auto simp: run_row_ok_def run_fields)
next
  case (deliver r target st e now)
  then show ?case by (auto simp: run_row_ok_def run_fields)
qed (auto simp: run_row_ok_def run_fields)

lemma fresh_run_ok: "fresh_run a r \<Longrightarrow> run_row_ok r"
  by (cases a) (auto simp: run_row_ok_def run_fields)

section \<open>The invariant of the tables\<close>

definition occurrence_key :: "job_run_row \<Rightarrow> str \<times> instant" where
  "occurrence_key r = (jr_job r, jr_scheduled r)"

definition sched_ok :: "sched_db \<Rightarrow> bool" where
  "sched_ok d \<longleftrightarrow> keyed job_id (jobs d) \<and> keyed jr_id (job_runs d) \<and> keyed occurrence_key (job_runs d) \<and>
     (\<forall>r \<in> set (job_runs d). run_row_ok r \<and> jr_job r \<in> job_id ` set (jobs d)) \<and>
     (\<forall>j \<in> set (jobs d). options_ok j \<and> 1 \<le> job_version j)"

text \<open>The runs a claim may add belong to jobs of the table and occur nowhere in it.\<close>

lemma claim_occurrence_keyed:
  assumes "keyed jr_id (job_runs (snd (snd acc))) \<and> keyed occurrence_key (job_runs (snd (snd acc)))"
  shows "keyed jr_id (job_runs (snd (snd (claim_occurrence uuids job w now e t acc)))) \<and>
    keyed occurrence_key (job_runs (snd (snd (claim_occurrence uuids job w now e t acc))))"
proof -
  obtain claimed n d where acc: "acc = (claimed, n, d)" by (cases acc) auto
  show ?thesis using assms unfolding acc
    by (auto simp: claim_occurrence_def by_key_None_iff occurrence_key_def)
qed

lemma claim_occurrence_owner:
  assumes "\<forall>r \<in> set (job_runs (snd (snd acc))). jr_job r \<in> J" and "job_id job \<in> J"
  shows "\<forall>r \<in> set (job_runs (snd (snd (claim_occurrence uuids job w now e t acc)))). jr_job r \<in> J"
proof -
  obtain claimed n d where acc: "acc = (claimed, n, d)" by (cases acc) auto
  show ?thesis using assms unfolding acc by (auto simp: claim_occurrence_def)
qed

lemma follow_without_fresh:
  assumes "runs_follow a S S'" and "\<And>r. \<not> fresh_run a r"
  obtains f where "S' = map f S" "\<And>r. r \<in> set S \<Longrightarrow> run_step a r (f r)"
  using assms by (auto simp: table_follow_def)

lemma run_step_occurrence: "run_step a r r' \<Longrightarrow> occurrence_key r' = occurrence_key r"
  using run_step_identity by (simp add: occurrence_key_def)

lemma sched_step_keys:
  assumes "sched_step env a d d'" and "sched_ok d" and "shuffle_ok env"
  shows "keyed jr_id (job_runs d') \<and> keyed occurrence_key (job_runs d') \<and>
    (\<forall>r \<in> set (job_runs d'). jr_job r \<in> job_id ` set (jobs d))"
proof (cases "\<exists>r. fresh_run a r")
  case True
  then obtain u now w l b c k where a: "a = ClaimDueRuns u now w l b c k" by (cases a) auto
  from assms(1) [unfolded a] obtain limit x where
    tx: "claim_due_runs_tx env u now w (now + timedelta_us l) limit k d = Inr (x, d')"
    by (rule sched_claimE) auto
  then obtain claimed n where
    cj: "claim_jobs env u w now (now + timedelta_us l) limit (claim_order env now k d) ([], 0, d) = Inr (claimed, n, d')"
    by (rule claim_orderE)
  have ids: "job_id j \<in> job_id ` set (jobs d)" if "j \<in> set (claim_order env now k d)" for j
    using that by (simp add: set_claim_order [OF assms(3)])
  have "keyed jr_id (job_runs d') \<and> keyed occurrence_key (job_runs d')"
    using claim_jobs_induct [OF cj, of "\<lambda>_ S. keyed jr_id S \<and> keyed occurrence_key S"]
      claim_occurrence_keyed assms(2) by (simp add: sched_ok_def)
  moreover have "\<forall>r \<in> set (job_runs d'). jr_job r \<in> job_id ` set (jobs d)"
    using claim_jobs_induct [OF cj, of "\<lambda>_ S. \<forall>r \<in> set S. jr_job r \<in> job_id ` set (jobs d)"]
      claim_occurrence_owner [OF _ ids] assms(2) by (simp add: sched_ok_def)
  ultimately show ?thesis by blast
next
  case False
  have "runs_follow a (job_runs d) (job_runs d')"
    using sched_step_follows [OF assms(1)] assms(2) by (simp add: sched_ok_def)
  then obtain f where f: "job_runs d' = map f (job_runs d)" "\<And>r. r \<in> set (job_runs d) \<Longrightarrow> run_step a r (f r)"
    using follow_without_fresh False by metis
  have "keyed jr_id (job_runs d')" unfolding f(1)
    using assms(2) run_step_identity [OF f(2)] by (subst keyed_map) (simp_all add: sched_ok_def)
  moreover have "keyed occurrence_key (job_runs d')" unfolding f(1)
    using assms(2) run_step_occurrence [OF f(2)] by (subst keyed_map) (simp_all add: sched_ok_def)
  ultimately show ?thesis using f run_step_identity [OF f(2)] assms(2) by (auto simp: sched_ok_def)
qed

lemma sched_step_job_ids:
  assumes "jobs_follow a S S'"
  shows "job_id ` set S \<subseteq> job_id ` set S'"
proof
  fix i assume "i \<in> job_id ` set S"
  then obtain j where "by_key job_id i S = Some j" by (metis by_key_None_iff not_None_eq)
  then obtain j' where "by_key job_id i S' = Some j'"
    using table_follow_keyed [OF assms, of job_id i j] job_step_id by metis
  then show "i \<in> job_id ` set S'" using by_key_SomeD by fastforce
qed

lemma job_step_ok: "job_step a j j' \<Longrightarrow> options_ok j \<and> 1 \<le> job_version j \<Longrightarrow> options_ok j' \<and> 1 \<le> job_version j'"
  by (erule job_step.cases) (auto simp: options_ok_def advance_job_def)

lemma fresh_job_ok: "fresh_job a j \<Longrightarrow> options_ok j \<and> 1 \<le> job_version j"
  by (cases a) auto

lemma sched_step_job_keys:
  assumes "sched_step env a d d'" and "shuffle_ok env" and "keyed job_id (jobs d)"
  shows "keyed job_id (jobs d')"
proof (cases "\<exists>j. fresh_job a j")
  case True
  then obtain sp pl n g p m gr u now where a: "a = CreateJob sp pl n g p m gr u now" by (cases a) auto
  from assms(1) [unfolded a] show ?thesis
    by cases (use assms(3) in \<open>auto simp: insert_job_def return_job_Inr by_key_None_iff split: if_splits\<close>)
next
  case False
  obtain f news where f: "jobs d' = map f (jobs d) @ news" "\<And>j. j \<in> set (jobs d) \<Longrightarrow> job_step a j (f j)"
      "\<And>j. j \<in> set news \<Longrightarrow> fresh_job a j"
    using sched_step_jobs [OF assms] by (rule table_followE) blast
  then have "jobs d' = map f (jobs d)" using False by (cases news) auto
  then show ?thesis using assms(3) job_step_id [OF f(2)] by (simp add: keyed_map)
qed

theorem sched_step_ok:
  assumes "sched_step env a d d'" and "sched_ok d" and "shuffle_ok env"
  shows "sched_ok d'"
proof -
  have runs: "runs_follow a (job_runs d) (job_runs d')" and jobs: "jobs_follow a (jobs d) (jobs d')"
    using sched_step_follows [OF assms(1)] sched_step_jobs [OF assms(1,3)] assms(2) by (simp_all add: sched_ok_def)
  have "\<forall>r \<in> set (job_runs d'). run_row_ok r"
    using assms(2) by (intro table_follow_all [OF runs run_step_ok fresh_run_ok]) (simp_all add: sched_ok_def)
  moreover have "\<forall>j \<in> set (jobs d'). options_ok j \<and> 1 \<le> job_version j"
    using assms(2) by (intro table_follow_all [OF jobs job_step_ok fresh_job_ok]) (simp_all add: sched_ok_def)
  ultimately show ?thesis
    using sched_step_keys [OF assms] sched_step_job_keys [OF assms(1,3)] sched_step_job_ids [OF jobs] assms(2)
    unfolding sched_ok_def by blast
qed

end
