(* ===== verification/SchedulerContracts.thy ===== *)
theory SchedulerContracts
  imports SchedulerInvariants Contracts
begin

text \<open>
  The scheduler store as a provider of the shared contracts: its invariant, the life cycles of jobs
  and runs, the lease protocol of runs, and what of a run is frozen.
\<close>

definition store_ok :: "sched_env \<Rightarrow> sched_store \<Rightarrow> bool" where
  "store_ok env s \<longleftrightarrow> shuffle_ok env \<and> sched_ok (sdb s)"

lemma store_ok_keys:
  "store_ok env s \<Longrightarrow> keyed jr_id (job_runs (sdb s))"
  "store_ok env s \<Longrightarrow> keyed job_id (jobs (sdb s))"
  "store_ok env s \<Longrightarrow> shuffle_ok env"
  by (simp_all add: store_ok_def sched_ok_def)

lemma store_ok_row: "store_ok env s \<Longrightarrow> find_job_run i (sdb s) = Some r \<Longrightarrow> run_row_ok r"
  by (auto simp: store_ok_def sched_ok_def dest: by_key_SomeD)

lemma sched_exec_cases:
  "sdb (sched_exec env a s) = sdb s \<or> sched_step env a (sdb s) (sdb (sched_exec env a s))"
  using sched_exec_moves [of env a s] by (auto simp: sched_moves_def close_store_def)

lemma sched_exec_runs:
  assumes "store_ok env s"
  shows "runs_follow a (job_runs (sdb s)) (job_runs (sdb (sched_exec env a s)))"
  using sched_exec_cases [of env a s] sched_step_follows follow_keep store_ok_keys(1) [OF assms] by metis

lemma sched_exec_jobs:
  assumes "store_ok env s"
  shows "jobs_follow a (jobs (sdb s)) (jobs (sdb (sched_exec env a s)))"
  using sched_exec_cases [of env a s] sched_step_jobs follow_same_jobs store_ok_keys(2,3) [OF assms] by metis

lemma sched_exec_ok: "store_ok env s \<Longrightarrow> store_ok env (sched_exec env a s)"
  using sched_exec_cases [of env a s] sched_step_ok unfolding store_ok_def by metis

text \<open>A run of the store lives on along \<open>run_step\<close>.\<close>

lemma sched_exec_run:
  "store_ok env s \<Longrightarrow> find_job_run i (sdb s) = Some r \<Longrightarrow>
   \<exists>r'. find_job_run i (sdb (sched_exec env a s)) = Some r' \<and> run_step a r r'"
  by (rule table_follow_keyed [OF sched_exec_runs]) (simp_all add: run_step_identity)

lemma sched_exec_new_run:
  "store_ok env s \<Longrightarrow> find_job_run i (sdb s) = None \<Longrightarrow>
   find_job_run i (sdb (sched_exec env a s)) = Some r \<Longrightarrow> fresh_run a r"
  by (rule table_follow_new [OF sched_exec_runs, where k = jr_id]) (simp_all add: run_step_identity)

lemma sched_exec_job:
  "store_ok env s \<Longrightarrow> find_job i (sdb s) = Some j \<Longrightarrow>
   \<exists>j'. find_job i (sdb (sched_exec env a s)) = Some j' \<and> job_step a j j'"
  by (rule table_follow_keyed [OF sched_exec_jobs]) (simp_all add: job_step_id)

interpretation sched: machine "sched_exec env" "store_ok env" for env
  by unfold_locales (rule sched_exec_ok)

section \<open>Life cycles\<close>

inductive job_edge :: "job_state \<Rightarrow> job_state \<Rightarrow> bool" where
  "job_edge JobScheduled JobPaused"
| "job_edge JobPaused JobScheduled"
| "job_edge JobScheduled JobCancelled"
| "job_edge JobPaused JobCancelled"
| "job_edge JobScheduled JobCompleted"

definition job_status :: "sched_store \<Rightarrow> str \<Rightarrow> job_state option" where
  "job_status s i = map_option job_stat (find_job i (sdb s))"

lemma job_step_edge: "job_step a j j' \<Longrightarrow> job_stat j = job_stat j' \<or> job_edge (job_stat j) (job_stat j')"
  by (erule job_step.cases) (auto simp: due_job_def intro: job_edge.intros)

interpretation job_life: lifecycle "sched_exec env" "store_ok env" job_status job_edge for env
proof unfold_locales
  fix s i x a
  assume ok: "store_ok env s" and "job_status s i = Some x"
  then obtain j where j: "find_job i (sdb s) = Some j" "x = job_stat j" by (auto simp: job_status_def)
  then show "\<exists>y. job_status (sched_exec env a s) i = Some y \<and> (x = y \<or> job_edge x y)"
    using sched_exec_job [OF ok j(1), of a] job_step_edge by (auto simp: job_status_def)
qed

text \<open>A retry leads from an unsuccessful end back to \<open>JrClaimed\<close>; nothing leads out of success.\<close>

inductive run_edge :: "job_run_status \<Rightarrow> job_run_status \<Rightarrow> bool" where
  "run_edge JrClaimed JrRunning"
| "x \<in> {JrClaimed, JrRunning} \<Longrightarrow> y \<in> {JrSucceeded, JrFailed, JrInterrupted, JrCancelled} \<Longrightarrow> run_edge x y"
| "x \<in> {JrFailed, JrInterrupted, JrCancelled} \<Longrightarrow> run_edge x JrClaimed"

inductive_cases run_edge_succeededE: "run_edge JrSucceeded y"

definition run_status_of :: "sched_store \<Rightarrow> str \<Rightarrow> job_run_status option" where
  "run_status_of s i = map_option jr_stat (find_job_run i (sdb s))"

lemma run_step_edge: "run_step a r r' \<Longrightarrow> jr_stat r = jr_stat r' \<or> run_edge (jr_stat r) (jr_stat r')"
  by (erule run_step.cases)
    (auto simp: run_fields stale_def interrupt_def cancel_request_def intro: run_edge.intros)

interpretation job_run_life: lifecycle "sched_exec env" "store_ok env" run_status_of run_edge for env
proof unfold_locales
  fix s i x a
  assume ok: "store_ok env s" and "run_status_of s i = Some x"
  then obtain r where r: "find_job_run i (sdb s) = Some r" "x = jr_stat r" by (auto simp: run_status_of_def)
  then show "\<exists>y. run_status_of (sched_exec env a s) i = Some y \<and> (x = y \<or> run_edge x y)"
    using sched_exec_run [OF ok r(1), of a] run_step_edge by (auto simp: run_status_of_def)
qed

section \<open>Leases\<close>

definition row_holding :: "job_run_row \<Rightarrow> (str \<times> instant) option" where
  "row_holding r = (case jr_owner r of None \<Rightarrow> None | Some w \<Rightarrow> map_option (Pair w) (jr_expires r))"

definition run_holding :: "sched_store \<Rightarrow> str \<Rightarrow> (str \<times> instant) option" where
  "run_holding s i = Option.bind (find_job_run i (sdb s)) row_holding"

fun releases_run :: "sched_op \<Rightarrow> str \<Rightarrow> str \<Rightarrow> instant \<Rightarrow> bool" where
  "releases_run (MarkRunning i' w' pid now) i w e \<longleftrightarrow> i' = i \<and> w' = w \<and> now < e"
| "releases_run (JobHeartbeat i' w' l now) i w e \<longleftrightarrow> i' = i \<and> w' = w \<and> now < e"
| "releases_run (HeartbeatWrite i' w' e' now) i w e \<longleftrightarrow> i' = i \<and> w' = w"
| "releases_run (CancelJobRun i' wo now) i w e \<longleftrightarrow> i' = i \<and> (wo = None \<or> wo = Some w)"
| "releases_run (CompleteRun i' w' st err pid now) i w e \<longleftrightarrow> i' = i \<and> w' = w \<and> now < e"
| "releases_run (RecoverStale now) i w e \<longleftrightarrow> e \<le> now"
| "releases_run _ i w e \<longleftrightarrow> False"

fun acquires_run :: "sched_op \<Rightarrow> str \<Rightarrow> bool" where
  "acquires_run (ClaimDueRuns u now w' l b c k) w \<longleftrightarrow> w' = w"
| "acquires_run (CreateRetry i w' l approved now) w \<longleftrightarrow> w' = w \<and> approved"
| "acquires_run _ w \<longleftrightarrow> False"

lemma row_holding_Some: "row_holding r = Some (w, e) \<longleftrightarrow> jr_owner r = Some w \<and> jr_expires r = Some e"
  by (auto simp: row_holding_def split: option.splits)

lemma row_holding_None: "run_row_ok r \<Longrightarrow> row_holding r = None \<longleftrightarrow> \<not> active r"
  by (auto simp: row_holding_def run_row_ok_def leased_run_def closed_run_def active_def
      split: option.splits job_run_status.splits)

lemma run_step_holding:
  assumes "run_step a r r'" and "run_row_ok r" and "row_holding r = Some (w, e)" and "\<not> releases_run a (jr_id r) w e"
  shows "row_holding r' = Some (w, e)"
proof -
  have "active r" using row_holding_None [OF assms(2)] assms(3) by (cases "active r") auto
  with assms(1,3,4) show ?thesis
    by cases (auto simp: row_holding_Some require_active_lease_None retryable_def active_def stale_def
      cancel_request_def)
qed

lemma run_step_acquire:
  assumes "run_step a r r'" and "run_row_ok r" and "row_holding r = None" and "row_holding r' = Some (w, e)"
  shows "acquires_run a w"
proof -
  have "\<not> active r" using row_holding_None [OF assms(2)] assms(3) by simp
  then have "jr_owner r = None" using run_row_ok_active(2) [OF assms(2)] by (simp add: closed_run_def)
  from assms(1,4) this \<open>\<not> active r\<close> show ?thesis
    by cases (auto simp: row_holding_Some require_active_lease_None closed_run_def active_def
      cancel_request_def interrupt_def stale_def)
qed

lemma fresh_run_acquire: "fresh_run a r \<Longrightarrow> row_holding r = Some (w, e) \<Longrightarrow> acquires_run a w"
  by (cases a) (auto simp: row_holding_Some)

interpretation run_lease: lease_protocol "sched_exec env" "store_ok env" run_holding releases_run acquires_run for env
proof unfold_locales
  fix s i w e a
  assume ok: "store_ok env s" and "run_holding s i = Some (w, e)" and rel: "\<not> releases_run a i w e"
  then obtain r where r: "find_job_run i (sdb s) = Some r" "row_holding r = Some (w, e)"
    by (auto simp: run_holding_def bind_eq_Some_conv)
  obtain r' where r': "find_job_run i (sdb (sched_exec env a s)) = Some r'" "run_step a r r'"
    using sched_exec_run [OF ok r(1)] by blast
  have "jr_id r = i" using by_key_SomeD [OF r(1)] by simp
  then have "row_holding r' = Some (w, e)"
    using run_step_holding [OF r'(2) store_ok_row [OF ok r(1)] r(2)] rel by simp
  with r'(1) show "run_holding (sched_exec env a s) i = Some (w, e)" by (simp add: run_holding_def)
next
  fix s i w e a
  assume ok: "store_ok env s" and none: "run_holding s i = None" and "run_holding (sched_exec env a s) i = Some (w, e)"
  then obtain r' where r': "find_job_run i (sdb (sched_exec env a s)) = Some r'" "row_holding r' = Some (w, e)"
    by (auto simp: run_holding_def bind_eq_Some_conv)
  show "acquires_run a w"
  proof (cases "find_job_run i (sdb s)")
    case None
    then show ?thesis using sched_exec_new_run [OF ok None r'(1)] fresh_run_acquire r'(2) by blast
  next
    case (Some r)
    then have "run_step a r r'" "row_holding r = None"
      using sched_exec_run [OF ok Some, of a] r'(1) none by (auto simp: run_holding_def)
    then show ?thesis using run_step_acquire store_ok_row [OF ok Some] r'(2) by blast
  qed
qed

section \<open>What is frozen\<close>

definition run_identity :: "sched_store \<Rightarrow> str \<Rightarrow> (str \<times> instant \<times> job_payload) option" where
  "run_identity s i = map_option (\<lambda>r. (jr_job r, jr_scheduled r, jr_payload r)) (find_job_run i (sdb s))"

interpretation run_identity: freezing "sched_exec env" "store_ok env" run_identity "\<lambda>_. True" for env
proof unfold_locales
  fix s i x a
  assume ok: "store_ok env s" and "run_identity s i = Some x"
  then obtain r where r: "find_job_run i (sdb s) = Some r" "x = (jr_job r, jr_scheduled r, jr_payload r)"
    by (auto simp: run_identity_def)
  then show "run_identity (sched_exec env a s) i = Some x"
    using sched_exec_run [OF ok r(1), of a] run_step_identity by (auto simp: run_identity_def)
qed

text \<open>The outcome of a run whose execution succeeded and whose delivery is not pending.\<close>

definition run_outcome :: "job_run_row \<Rightarrow> job_run_status \<times> int \<times> str option \<times> str option \<times> delivery_status \<times> str option" where
  "run_outcome r = (jr_stat r, jr_attempt r, polaris_run r, execution_error r, delivery_stat r, delivery_error r)"

definition settled_outcome ::
  "job_run_status \<times> int \<times> str option \<times> str option \<times> delivery_status \<times> str option \<Rightarrow> bool" where
  "settled_outcome x = (case x of (st, _, _, _, dv, _) \<Rightarrow> st = JrSucceeded \<and> dv \<noteq> DvPending)"

definition outcome_of ::
  "sched_store \<Rightarrow> str \<Rightarrow> (job_run_status \<times> int \<times> str option \<times> str option \<times> delivery_status \<times> str option) option" where
  "outcome_of s i = map_option run_outcome (find_job_run i (sdb s))"

lemma run_step_outcome:
  "run_step a r r' \<Longrightarrow> run_row_ok r \<Longrightarrow> jr_stat r = JrSucceeded \<Longrightarrow> delivery_stat r \<noteq> DvPending \<Longrightarrow>
   run_outcome r' = run_outcome r"
  by (erule run_step.cases)
    (auto simp: run_outcome_def run_fields run_row_ok_def stale_def cancel_request_def require_active_lease_None)

interpretation run_outcome: freezing "sched_exec env" "store_ok env" outcome_of settled_outcome for env
proof unfold_locales
  fix s i x a
  assume ok: "store_ok env s" and "outcome_of s i = Some x" and fr: "settled_outcome x"
  then obtain r where r: "find_job_run i (sdb s) = Some r" "x = run_outcome r"
    by (auto simp: outcome_of_def)
  then have "jr_stat r = JrSucceeded" "delivery_stat r \<noteq> DvPending"
    using fr by (auto simp: settled_outcome_def run_outcome_def)
  then show "outcome_of (sched_exec env a s) i = Some x"
    using sched_exec_run [OF ok r(1), of a] run_step_outcome store_ok_row [OF ok r(1)] r(2)
    by (auto simp: outcome_of_def)
qed

end
