(* ===== verification/SchedulerEngine.thy ===== *)
theory SchedulerEngine
  imports SchedulerContracts
begin

text \<open>
  The engine of \<open>src/polaris/scheduler/engine.py\<close>: a ticker that claims due runs and spawns tasks, which submit a run, wait
  for its end, complete it and deliver its result.  Between two awaits a task runs alone, so that the engine is a
  sequence of acts: one of them advances one task by one such stretch.  Other callers of the store, the heartbeats
  of the tasks among them, act in between.
\<close>

section \<open>The engine and its tasks\<close>

datatype submit_result = SubText str | SubMapping "(str \<times> json) list" | SubObject json json

text \<open>What a callback returns, or the exception that it raises, by the text \<open>type: message\<close>.\<close>

datatype callback_answer = Returned submit_result | Raised str

datatype engine_error = EeStore sched_error | EeRaised str | EeRunId | EeNoRunId

record engine =
  en_owner :: str
  en_lease :: rat
  en_batch :: int
  en_cap :: "int option"
  en_waits :: bool
  en_delivers :: bool
  en_store_text :: "sched_error \<Rightarrow> str"

fun error_text :: "engine \<Rightarrow> engine_error \<Rightarrow> str" where
  "error_text eng (EeStore e) = en_store_text eng e"
| "error_text eng (EeRaised t) = t"
| "error_text eng EeRunId = ''ValueError: submit callback must return a run id''"
| "error_text eng EeNoRunId = ''ValueError: successful scheduled run has no Polaris run id''"

definition check_engine :: "rat \<Rightarrow> int \<Rightarrow> rat \<Rightarrow> rat \<Rightarrow> sched_error + unit" where
  "check_engine lease batch tick_seconds jitter =
     (if timedelta_us lease \<le> 0 \<or> batch < 1 \<or> tick_seconds \<le> 0 \<or> jitter < 0 then Inl ValueError else Inr ())"

definition py_or :: "json \<Rightarrow> json \<Rightarrow> json" where
  "py_or a b = (if py_truthy a then a else b)"

fun nonempty_text :: "json \<Rightarrow> str option" where
  "nonempty_text (JStr s) = (if s = [] then None else Some s)"
| "nonempty_text _ = None"

fun submitted_run_id :: "submit_result \<Rightarrow> str option" where
  "submitted_run_id (SubText t) = Some t"
| "submitted_run_id (SubMapping kvs) = nonempty_text (py_or (jget kvs ''run_id'') (jget kvs ''id''))"
| "submitted_run_id (SubObject a b) = nonempty_text (py_or a b)"

text \<open>Where a task is: \<open>_execute\<close> before its first line, in \<open>submit\<close>, in \<open>wait\<close>, in the \<open>finally\<close>, in \<open>sleep(0)\<close>; \<open>_deliver_run\<close>
  before its first line and in the delivery callback.\<close>

datatype task =
    Starting str | Submitting str | Awaiting str str | Closing str str | Yielding str
  | DeliveryDue str | Delivering str

datatype engine_event = Submitted str job_payload | Delivered str json str

record engine_state =
  es_store :: sched_store
  es_tasks :: "task list"
  es_active :: "str list"
  es_first :: bool
  es_log :: "engine_event list"

definition new_engine :: "sched_store \<Rightarrow> engine_state" where
  "new_engine s = \<lparr>es_store = s, es_tasks = [], es_active = [], es_first = True, es_log = []\<rparr>"

section \<open>Execution\<close>

definition begin_run :: "engine \<Rightarrow> str \<Rightarrow> instant \<Rightarrow> sched_store \<Rightarrow> (sched_error + job_run_row option) \<times> sched_store" where
  "begin_run eng i now s =
     (case get_job_run i s of
        Inl e \<Rightarrow> (Inl e, s)
      | Inr cur \<Rightarrow>
          if cancel_requested cur then
            (case cancel_job_run i (Some (en_owner eng)) now s of (Inl e, s1) \<Rightarrow> (Inl e, s1) | (Inr _, s1) \<Rightarrow> (Inr None, s1))
          else
            (case mark_running i (en_owner eng) None now s of
               (Inl e, s1) \<Rightarrow> (Inl e, s1)
             | (Inr r, s1) \<Rightarrow> (Inr (if jr_stat r = JrCancelled then None else Some r), s1)))"

text \<open>The \<open>except\<close> branch, and the end of a run whose callbacks returned.\<close>

definition end_failed ::
  "engine \<Rightarrow> str \<Rightarrow> engine_error \<Rightarrow> str option \<Rightarrow> instant \<Rightarrow> sched_store \<Rightarrow> (sched_error + job_run_row) \<times> sched_store" where
  "end_failed eng i x pid now s =
     (case get_job_run i s of
        Inl e \<Rightarrow> (Inl e, s)
      | Inr cur \<Rightarrow>
          if cancel_requested cur then complete_run i (en_owner eng) (job_run_value JrCancelled) None pid now s
          else complete_run i (en_owner eng) (job_run_value JrFailed) (Some (error_text eng x)) pid now s)"

definition end_returned ::
  "engine \<Rightarrow> str \<Rightarrow> str option \<Rightarrow> instant \<Rightarrow> sched_store \<Rightarrow> (sched_error + job_run_row) \<times> sched_store" where
  "end_returned eng i pid now s =
     (case get_job_run i s of
        Inl e \<Rightarrow> (Inl e, s)
      | Inr cur \<Rightarrow>
          complete_run i (en_owner eng) (job_run_value (if cancel_requested cur then JrCancelled else JrSucceeded))
            None pid now s)"

text \<open>What follows the answer of \<open>submit\<close>: the identifier that it carries is attached to the run.\<close>

definition attach_result ::
  "engine \<Rightarrow> str \<Rightarrow> callback_answer \<Rightarrow> instant \<Rightarrow> sched_store \<Rightarrow> (engine_error \<times> str option + str) \<times> sched_store" where
  "attach_result eng i answer now s =
     (case answer of
        Raised t \<Rightarrow> (Inl (EeRaised t, None), s)
      | Returned v \<Rightarrow>
          (case submitted_run_id v of
             None \<Rightarrow> (Inl (EeRunId, None), s)
           | Some pid \<Rightarrow>
               (case set_polaris_run_id i (en_owner eng) pid now s of
                  (Inl e, s1) \<Rightarrow> (Inl (EeStore e, Some pid), s1)
                | (Inr _, s1) \<Rightarrow> (Inr pid, s1))))"

section \<open>Delivery\<close>

text \<open>The first stretch of \<open>_deliver_run\<close>; a message to hand over, if it comes to that.\<close>

definition begin_delivery ::
  "engine \<Rightarrow> str \<Rightarrow> instant \<Rightarrow> sched_store \<Rightarrow> (json \<times> str) option \<times> sched_store" where
  "begin_delivery eng i now s =
     (case get_job_run i s of
        Inl e \<Rightarrow> (None, s)
      | Inr cur \<Rightarrow>
          if jr_stat cur \<noteq> JrSucceeded \<or> delivery_stat cur \<noteq> DvPending then (None, s)
          else case pl_delivery (jr_payload cur) of
            None \<Rightarrow> (None, s)
          | Some target \<Rightarrow>
              if cancel_requested cur then (None, snd (record_delivery i (delivery_value DvSuppressed) None now s))
              else if \<not> en_delivers eng then
                (None, snd (record_delivery i (delivery_value DvFailed) (Some ''no delivery callback configured'') now s))
              else case polaris_run cur of
                None \<Rightarrow> (None, snd (record_delivery i (delivery_value DvFailed) (Some (error_text eng EeNoRunId)) now s))
              | Some pid \<Rightarrow> (Some (target, pid), s))"

definition end_delivery :: "engine \<Rightarrow> str \<Rightarrow> callback_answer \<Rightarrow> instant \<Rightarrow> sched_store \<Rightarrow> sched_store" where
  "end_delivery eng i answer now s =
     (case answer of
        Raised t \<Rightarrow> snd (record_delivery i (delivery_value DvFailed) (Some (error_text eng (EeRaised t))) now s)
      | Returned v \<Rightarrow> snd (record_delivery i (delivery_value DvSucceeded) None now s))"

section \<open>One stretch of a task\<close>

text \<open>The end of a delivery frees its run for the next one; the task of an execution holds none before it delivers.\<close>

fun free_delivery :: "task \<Rightarrow> str list \<Rightarrow> str list" where
  "free_delivery (DeliveryDue i) ongoing = removeAll i ongoing"
| "free_delivery (Delivering i) ongoing = removeAll i ongoing"
| "free_delivery _ ongoing = ongoing"

text \<open>The task that is left, if any, the store, the runs in delivery and the events.\<close>

type_synonym stretch = "task list \<times> sched_store \<times> str list \<times> engine_event list"

definition deliver_stretch :: "engine \<Rightarrow> str \<Rightarrow> instant \<Rightarrow> sched_store \<Rightarrow> str list \<Rightarrow> stretch" where
  "deliver_stretch eng i now s ongoing =
     (case begin_delivery eng i now s of
        (None, s1) \<Rightarrow> ([], s1, removeAll i ongoing, [])
      | (Some (target, pid), s1) \<Rightarrow> ([Delivering i], s1, ongoing, [Delivered i target pid]))"

fun advance :: "engine \<Rightarrow> task \<Rightarrow> callback_answer \<Rightarrow> instant \<Rightarrow> sched_store \<Rightarrow> str list \<Rightarrow> stretch" where
  "advance eng (Starting i) answer now s ongoing =
     (case begin_run eng i now s of
        (Inr (Some r), s1) \<Rightarrow> ([Submitting i], s1, ongoing, [Submitted i (jr_payload r)])
      | (_, s1) \<Rightarrow> ([], s1, ongoing, []))"
| "advance eng (Submitting i) answer now s ongoing =
     (case attach_result eng i answer now s of
        (Inl (x, pid), s1) \<Rightarrow> ([], snd (end_failed eng i x pid now s1), ongoing, [])
      | (Inr pid, s1) \<Rightarrow> ([if en_waits eng then Awaiting i pid else Closing i pid], s1, ongoing, []))"
| "advance eng (Awaiting i pid) answer now s ongoing =
     (case answer of
        Raised t \<Rightarrow> ([], snd (end_failed eng i (EeRaised t) (Some pid) now s), ongoing, [])
      | Returned v \<Rightarrow> ([Closing i pid], s, ongoing, []))"
| "advance eng (Closing i pid) answer now s ongoing =
     (case end_returned eng i (Some pid) now s of
        (Inl e, s1) \<Rightarrow> ([], s1, ongoing, [])
      | (Inr r, s1) \<Rightarrow> (if jr_stat r = JrSucceeded then [Yielding i] else [], s1, ongoing, []))"
| "advance eng (Yielding i) answer now s ongoing =
     (if i \<in> set ongoing then ([], s, ongoing, []) else deliver_stretch eng i now s (i # ongoing))"
| "advance eng (DeliveryDue i) answer now s ongoing = deliver_stretch eng i now s ongoing"
| "advance eng (Delivering i) answer now s ongoing = ([], end_delivery eng i answer now s, removeAll i ongoing, [])"

section \<open>The ticker\<close>

fun spawn_deliveries :: "str list \<Rightarrow> task list \<times> str list \<Rightarrow> task list \<times> str list" where
  "spawn_deliveries [] acc = acc"
| "spawn_deliveries (i # is) (ts, ongoing) =
     spawn_deliveries is (if i \<in> set ongoing then (ts, ongoing) else (ts @ [DeliveryDue i], i # ongoing))"

definition scheduler_tick :: "sched_env \<Rightarrow> engine \<Rightarrow> (nat \<Rightarrow> str) \<Rightarrow> instant \<Rightarrow> engine_state \<Rightarrow> engine_state" where
  "scheduler_tick env eng uuids now st =
     (case recover_stale_runs now (es_store st) of
        (Inl e, s1) \<Rightarrow> st\<lparr>es_store := s1\<rparr>
      | (Inr _, s1) \<Rightarrow>
          (case list_pending_deliveries (Some (en_batch eng)) s1 of
             Inl e \<Rightarrow> st\<lparr>es_store := s1\<rparr>
           | Inr pending \<Rightarrow>
               (let (ts, ongoing) = spawn_deliveries (map jr_id pending) (es_tasks st, es_active st);
                    st1 = st\<lparr>es_store := s1, es_tasks := ts, es_active := ongoing, es_first := False\<rparr>
                in case claim_due_runs env uuids now (en_owner eng) (en_lease eng) (en_batch eng)
                          (if es_first st then en_cap eng else None) None s1 of
                     (Inl e, s2) \<Rightarrow> st1\<lparr>es_store := s2\<rparr>
                   | (Inr claimed, s2) \<Rightarrow> st1\<lparr>es_store := s2, es_tasks := ts @ map (\<lambda>r. Starting (jr_id r)) claimed\<rparr>)))"

definition scheduler_retry :: "engine \<Rightarrow> str \<Rightarrow> instant \<Rightarrow> engine_state \<Rightarrow> engine_state" where
  "scheduler_retry eng i now st =
     (case create_retry i (en_owner eng) (en_lease eng) True now (es_store st) of
        (Inl e, s1) \<Rightarrow> st\<lparr>es_store := s1\<rparr>
      | (Inr r, s1) \<Rightarrow> st\<lparr>es_store := s1, es_tasks := es_tasks st @ [Starting (jr_id r)]\<rparr>)"

definition replace_task :: "nat \<Rightarrow> task list \<Rightarrow> task list \<Rightarrow> task list" where
  "replace_task n new ts = take n ts @ new @ drop (Suc n) ts"

text \<open>The acts: a call of the store by anyone, a tick, a retry by an operator, a stretch of the \<open>n\<close>-th task, the cancellation
  of that task (no handler of the engine keeps a \<open>CancelledError\<close>), and the end of the process, after which a new engine
  starts over the same store.\<close>

datatype engine_act =
    StoreAct sched_op | TickAct "nat \<Rightarrow> str" instant | RetryAct str instant | TaskAct nat callback_answer instant
  | StopAct nat | DieAct

fun engine_step :: "sched_env \<Rightarrow> engine \<Rightarrow> engine_act \<Rightarrow> engine_state \<Rightarrow> engine_state" where
  "engine_step env eng (StoreAct a) st = st\<lparr>es_store := sched_exec env a (es_store st)\<rparr>"
| "engine_step env eng (TickAct uuids now) st = scheduler_tick env eng uuids now st"
| "engine_step env eng (RetryAct i now) st = scheduler_retry eng i now st"
| "engine_step env eng (TaskAct n answer now) st =
     (if n < length (es_tasks st) then
        (case advance eng (es_tasks st ! n) answer now (es_store st) (es_active st) of
           (new, s, ongoing, evs) \<Rightarrow>
             st\<lparr>es_store := s, es_tasks := replace_task n new (es_tasks st), es_active := ongoing, es_log := es_log st @ evs\<rparr>)
      else st)"
| "engine_step env eng (StopAct n) st =
     (if n < length (es_tasks st) then
        st\<lparr>es_tasks := replace_task n [] (es_tasks st), es_active := free_delivery (es_tasks st ! n) (es_active st)\<rparr>
      else st)"
| "engine_step env eng DieAct st = st\<lparr>es_tasks := [], es_active := [], es_first := True\<rparr>"

definition engine_run :: "sched_env \<Rightarrow> engine \<Rightarrow> engine_act list \<Rightarrow> engine_state \<Rightarrow> engine_state" where
  "engine_run env eng acts st = fold (engine_step env eng) acts st"

lemma engine_run_simps [simp]:
  "engine_run env eng [] st = st" "engine_run env eng (a # acts) st = engine_run env eng acts (engine_step env eng a st)"
  by (simp_all add: engine_run_def)

end
