(* ===== verification/Schedules.thy ===== *)
theory Schedules
  imports SchedulerModel
begin

text \<open>
  The properties of the scheduler's time arithmetic: the next occurrence is strictly later, previews
  increase, local times are resolved to instants that show them, and the defect of fractional
  intervals.
\<close>

section \<open>Ranges\<close>

text \<open>
  \<open>datetime\<close> covers the years 1 to 9999, so every instant is below 2 to the 58 microseconds in
  absolute value; \<open>start_in_range\<close> states this of the start of a schedule.
\<close>

definition in_range :: "instant \<Rightarrow> bool" where
  "in_range t \<longleftrightarrow> \<bar>t\<bar> < 2 ^ 58"

definition start_in_range :: "sched_env \<Rightarrow> schedule_spec \<Rightarrow> bool" where
  "start_in_range env spec \<longleftrightarrow>
     (case sp_start spec of None \<Rightarrow> True
      | Some ts \<Rightarrow> (case parse_timestamp env ts (sp_timezone spec) of Inl e \<Rightarrow> True | Inr t \<Rightarrow> in_range t))"

text \<open>Intervals of a whole number of seconds.\<close>

definition whole_interval :: "schedule_spec \<Rightarrow> bool" where
  "whole_interval spec \<longleftrightarrow> (case sp_interval spec of None \<Rightarrow> True
     | Some i \<Rightarrow> i = of_int \<lfloor>i\<rfloor> \<and> 0 < i \<and> \<lfloor>i\<rfloor> < 2 ^ 50)"

lemma steps_us_int: "0 \<le> k * n \<Longrightarrow> k * n < 2 ^ 53 \<Longrightarrow> steps_us k (of_int n) = k * n * 1000000"
proof -
  assume b: "0 \<le> k * n" "k * n < 2 ^ 53"
  have "(of_int k :: rat) * of_int n = of_int (k * n)" by simp
  then show ?thesis unfolding steps_us_def using round_double_int [OF b] by (simp only: timedelta_us_int)
qed

lemma interval_step_later:
  assumes "0 \<le> us" and "us < 2 ^ 59" and "0 < n" and "n < 2 ^ 50"
  defines "k \<equiv> whole_steps (total_seconds us) (of_int n) + 1"
  shows "us < steps_us k (of_int n)" and "steps_us k (of_int n) = k * n * 1000000" and "0 < k"
proof -
  define x :: rat where "x = of_int us / 1000000"
  define E where "E = round_double x"
  have x0: "0 \<le> x" using assms(1) by (simp add: x_def)
  have xb: "x \<le> of_int (2 ^ 40)"
  proof -
    have "(of_int us :: rat) \<le> of_int (2 ^ 40 * 1000000)"
      using assms(2) by (simp only: of_int_le_iff) simp
    then show ?thesis by (simp add: x_def)
  qed
  have E0: "0 \<le> E" using x0 by (simp add: E_def round_double_nonneg)
  have Eb: "E \<le> of_int (2 ^ 40)" unfolding E_def using xb x0 by (intro round_double_le_int) simp_all
  have n: "(0::rat) < of_int n" using assms(3) by simp
  have k: "k = \<lfloor>E / of_int n\<rfloor> + 1" by (simp add: k_def whole_steps_def total_seconds_def E_def x_def)
  show k0: "0 < k" using E0 n by (simp add: k zero_le_floor)
  have "E / of_int n < of_int k" unfolding k by linarith
  then have Elt: "E < of_int (k * n)" using n by (simp add: divide_less_eq mult.commute)
  have "of_int (k - 1) \<le> E / of_int n" unfolding k by simp
  then have "of_int ((k - 1) * n) \<le> E" using n by (simp add: le_divide_eq)
  then have "of_int ((k - 1) * n) \<le> (of_int (2 ^ 40) :: rat)" using Eb by (rule order_trans)
  then have "(k - 1) * n \<le> 2 ^ 40" by (simp only: of_int_le_iff)
  then have kn: "k * n < 2 ^ 53" using assms(4) by (simp add: left_diff_distrib)
  have kn0: "0 \<le> k * n" using k0 assms(3) by simp
  show eq: "steps_us k (of_int n) = k * n * 1000000" using steps_us_int [OF kn0 kn] .
  have "\<not> of_int (k * n) \<le> x"
  proof
    assume "of_int (k * n) \<le> x"
    then have "of_int (k * n) \<le> E" unfolding E_def using kn0 kn by (intro round_double_ge_int)
    with Elt show False by simp
  qed
  then have "of_int us < (of_int (k * n * 1000000) :: rat)" by (simp add: x_def divide_less_eq not_le)
  then have "us < k * n * 1000000" by (simp only: of_int_less_iff)
  then show "us < steps_us k (of_int n)" by (simp add: eq)
qed

section \<open>The next occurrence\<close>

lemma compute_next_run_gt:
  assumes "compute_next_run env spec after = Inr (Some t)"
    and "sp_kind spec = KindInterval \<longrightarrow> whole_interval spec" and "start_in_range env spec" and "in_range after"
  shows "after < t"
proof (cases "sp_kind spec")
  case KindOnce
  then show ?thesis using assms(1) by (auto simp: compute_next_run_def split: option.splits sum.splits if_splits)
next
  case KindCron
  then show ?thesis using assms(1)
    by (auto simp: compute_next_run_def split: option.splits sum.splits dest: cron_next_after_later)
next
  case KindInterval
  obtain i anchor where i: "sp_interval spec = Some i"
    "(case sp_start spec of None \<Rightarrow> Inr after | Some ts \<Rightarrow> parse_timestamp env ts (sp_timezone spec)) = Inr anchor"
    "t = (if after < anchor then anchor
          else anchor + steps_us (whole_steps (total_seconds (after - anchor)) i + 1) i)"
    using assms(1) KindInterval
    by (auto simp: compute_next_run_def Let_def split: option.splits sum.splits if_splits)
  have "in_range anchor" using i(2) assms(3,4) by (auto simp: start_in_range_def split: option.splits)
  then have b: "after - anchor < 2 ^ 59" using assms(4) by (simp add: in_range_def)
  obtain n where n: "i = of_int n" "0 < n" "n < 2 ^ 50"
    using assms(2) KindInterval i(1) by (auto simp: whole_interval_def)
  show ?thesis
  proof (cases "after < anchor")
    case False
    then show ?thesis using interval_step_later(1) [of "after - anchor" n] b n i(3) by simp
  qed (use i(3) in simp)
qed

text \<open>
  The next occurrence is strictly later than the reference, for one-off schedules, for every
  cron expression in every zone, and for intervals of a whole number of seconds.
\<close>

theorem compute_next_run_later:
  assumes "compute_next_run env spec after = Inr (Some t)"
    and "sp_kind spec = KindInterval \<longrightarrow> whole_interval spec" and "start_in_range env spec" and "in_range after"
  shows "after < t"
  using assms by (rule compute_next_run_gt)

definition sample_env :: sched_env where
  "sample_env = \<lparr>zone_of = (\<lambda>name. if name = ''UTC'' then Some utc_zone else None),
     iso_parse = (\<lambda>s. None), shuffle = (\<lambda>seed jobs. rev jobs)\<rparr>"

definition every :: "rat \<Rightarrow> schedule_spec" where
  "every i = \<lparr>sp_kind = KindInterval, sp_once = None, sp_interval = Some i, sp_cron = None,
     sp_timezone = ''UTC'', sp_start = None\<rparr>"

lemma every_90: "compute_next_run sample_env (every 90) 0 = Inr (Some 90000000)"
  by (simp add: compute_next_run_def every_def total_seconds_def whole_steps_def steps_us_def
      round_double_int [of 90, simplified])

theorem compute_next_run_later_witness:
  "\<exists>t. compute_next_run sample_env (every 90) 0 = Inr (Some t) \<and> 0 < t"
  using compute_next_run_later [OF every_90] every_90
  by (simp add: every_def whole_interval_def start_in_range_def in_range_def)

lemma preview_loop_chain:
  "preview_loop n env spec a = Inr ts \<Longrightarrow>
   (\<And>x y. compute_next_run env spec x = Inr (Some y) \<Longrightarrow> P x \<Longrightarrow> x < y) \<Longrightarrow> P a \<Longrightarrow>
   (\<And>t. t \<in> set ts \<Longrightarrow> P t) \<Longrightarrow> sorted_wrt (<) (a # ts) \<and> length ts \<le> n"
proof (induction n arbitrary: a ts)
  case (Suc n)
  show ?case
  proof (cases ts)
    case (Cons t us)
    then have step: "compute_next_run env spec a = Inr (Some t)" and rest: "preview_loop n env spec t = Inr us"
      using Suc.prems(1) by (auto split: sum.splits option.splits)
    have "a < t" using Suc.prems(2) [OF step Suc.prems(3)] .
    moreover have "sorted_wrt (<) (t # us) \<and> length us \<le> n"
      using Suc.IH [OF rest Suc.prems(2)] Suc.prems(4) Cons by simp
    ultimately show ?thesis using Cons by auto
  qed simp
qed simp

text \<open>
  \<open>preview_next_times\<close> lists at most the requested number of occurrences, each strictly later
  than the one before and all after the reference, for the same schedules; a count outside 0 to
  1000 is refused.
\<close>

theorem preview_increasing:
  assumes "preview_next_times env spec after howmany = Inr ts"
    and "sp_kind spec = KindInterval \<longrightarrow> whole_interval spec" and "start_in_range env spec"
    and "\<forall>t \<in> insert after (set ts). in_range t"
  shows "sorted_wrt (<) (after # ts) \<and> length ts \<le> nat howmany \<and> howmany \<in> {0..1000}"
proof -
  have "preview_loop (nat howmany) env spec after = Inr ts" "howmany \<in> {0..1000}"
    using assms(1) by (auto simp: preview_next_times_def split: if_splits)
  moreover have "x < y" if "compute_next_run env spec x = Inr (Some y)" "in_range x" for x y
    using compute_next_run_gt [OF that(1) assms(2,3) that(2)] .
  ultimately show ?thesis
    using preview_loop_chain [of _ env spec after ts in_range] assms(4) by blast
qed

theorem preview_increasing_witness:
  "\<exists>t. preview_next_times sample_env (every 90) 0 1 = Inr [t] \<and> sorted_wrt (<) [0, t]"
proof -
  have p: "preview_next_times sample_env (every 90) 0 1 = Inr [90000000]"
    by (simp add: preview_next_times_def every_90)
  from preview_increasing [OF p] p show ?thesis
    by (simp add: every_def whole_interval_def start_in_range_def in_range_def)
qed

section \<open>Local times\<close>

text \<open>
  A local time without a zone is resolved to the earliest of the instants at which the zone's
  clock shows it with the fold of that instant, and is refused when there is none (a gap of the
  zone) or the zone is unknown.
\<close>

theorem resolve_local_earliest:
  "case resolve_local env l tz of
     Inr t \<Rightarrow> (\<exists>z. zone_of env tz = Some z \<and> t + utc_offset z t = l \<and> t = l - local_offset z l (fold_at z t) \<and>
       {u. u < t \<and> u + utc_offset z u = l \<and> u = l - local_offset z l (fold_at z u)} = {})
   | Inl e \<Rightarrow> e = ValueError \<and> (case zone_of env tz of None \<Rightarrow> True
       | Some z \<Rightarrow> {u. u + utc_offset z u = l \<and> u = l - local_offset z l (fold_at z u)} = {})"
proof (cases "zone_of env tz")
  case (Some z)
  have mem: "u \<in> set (valid_local_instants l z) \<longleftrightarrow>
      u + utc_offset z u = l \<and> u = l - local_offset z l (fold_at z u)" for u
    by (cases "fold_at z u") (auto simp: valid_local_instants_def local_candidate_def Let_def)
  show ?thesis
  proof (cases "valid_local_instants l z")
    case Nil
    then show ?thesis using mem Some by (auto simp: resolve_local_def get_timezone_def)
  next
    case (Cons t ts)
    have "sorted (valid_local_instants l z)" by (simp add: valid_local_instants_def)
    then have "t \<le> u" if "u \<in> set (valid_local_instants l z)" for u using that Cons by auto
    then show ?thesis using mem [of t] mem Cons Some
      by (fastforce simp: resolve_local_def get_timezone_def)
  qed
qed (simp add: resolve_local_def get_timezone_def)

section \<open>A defect of fractional intervals\<close>

text \<open>
  The double nearest to 1.1 is above 1.1 and the one nearest to 3.3 below 3.3, so three intervals of
  1.1 seconds count as two when 3.3 seconds have elapsed.
\<close>

definition every_1_1 :: schedule_spec where
  "every_1_1 = every (2476979795053773 / 2251799813685248) \<lparr>sp_start := Some (StampMoment (Aware 0))\<rparr>"

lemma seconds_33: "total_seconds 3300000 = 3715469692580659 / 1125899906842624"
  using round_double_eqI [of 1 "33 / 10" "7430939385161318"] by (simp add: total_seconds_def pow2_def)

lemma seconds_22: "total_seconds 2200000 = 2476979795053773 / 1125899906842624"
  using round_double_eqI [of 1 "22 / 10" "4953959590107546"] by (simp add: total_seconds_def pow2_def)

lemma three_steps: "steps_us 3 (2476979795053773 / 2251799813685248) = 3300000"
proof -
  have a: "round_double (7430939385161319 / 2251799813685248) = 7430939385161319 / 2251799813685248"
    using round_double_eqI [of 1 "7430939385161319 / 2251799813685248" "7430939385161319"] by (simp add: pow2_def)
  have b: "round_double (675539944105575 * 1000000 / 2251799813685248) = 5153960755200005 / 17179869184"
    using round_double_eqI [of 18 "675539944105575 * 1000000 / 2251799813685248" "5153960755200005"]
    by (simp add: pow2_def)
  have c: "truncate_rat (7430939385161319 / 2251799813685248) = 3"
    by (simp add: truncate_rat_def floor_eq_iff)
  have d: "round_half_even (3000000 + 5153960755200005 / 17179869184) = 3300000"
    by (rule round_half_even_eqI) simp_all
  have "steps_us 3 (2476979795053773 / 2251799813685248) = timedelta_us (7430939385161319 / 2251799813685248)"
    by (simp add: steps_us_def a)
  moreover have "(7430939385161319 / 2251799813685248 - of_int 3) * 1000000 =
      (675539944105575 * 1000000 / 2251799813685248 :: rat)" by simp
  moreover have "of_int (3 * 1000000) = (3000000 :: rat)" by simp
  ultimately show ?thesis unfolding timedelta_us_def c Let_def by (simp only: b d)
qed

text \<open>
  A finding.  With an interval of 1.1 seconds anchored at 0, the next run computed after the
  occurrence at 3.3 seconds is that occurrence itself, so the preview from 2.2 seconds repeats it
  for ever instead of moving on.
\<close>

theorem fractional_interval_repeats:
  "compute_next_run env every_1_1 3300000 = Inr (Some 3300000) \<and>
   preview_next_times env every_1_1 2200000 3 = Inr [3300000, 3300000, 3300000]"
proof -
  have "whole_steps (3715469692580659 / 1125899906842624) (2476979795053773 / 2251799813685248) = 2"
    "whole_steps (2476979795053773 / 1125899906842624) (2476979795053773 / 2251799813685248) = 2"
    by (simp_all add: whole_steps_def floor_eq_iff)
  then have "compute_next_run env every_1_1 3300000 = Inr (Some 3300000)"
    "compute_next_run env every_1_1 2200000 = Inr (Some 3300000)"
    by (simp_all add: compute_next_run_def every_1_1_def every_def parse_timestamp_def resolve_moment_def
        seconds_33 seconds_22 three_steps)
  then show ?thesis by (simp add: preview_next_times_def eval_nat_numeral)
qed

end
