(* ===== verification/SchedulerClaims.thy ===== *)
theory SchedulerClaims
  imports SchedulerContracts Schedules
begin

text \<open>
  What one claim returns and what it leaves behind, and the occurrences of a due job: the closed
  forms the properties of the scheduler rest on.
\<close>

section \<open>The runs a claim inserts\<close>

definition claimed_row :: "instant \<Rightarrow> str \<Rightarrow> instant \<Rightarrow> job_row \<Rightarrow> job_run_row \<Rightarrow> bool" where
  "claimed_row now w e job r \<longleftrightarrow> jr_job r = job_id job \<and> jr_payload r = job_payload job \<and>
     jr_stat r = JrClaimed \<and> jr_attempt r = 1 \<and> jr_owner r = Some w \<and> jr_expires r = Some e \<and>
     \<not> cancel_requested r \<and> delivery_stat r = fresh_delivery (job_payload job) \<and> jr_claimed r = now"

lemma claim_jobs_news:
  assumes "claim_jobs env u w now e limit js ([], 0, d) = Inr (claimed, n, d')"
  shows "\<exists>news. job_runs d' = job_runs d @ news \<and> map jr_id news = claimed \<and>
    (\<forall>r \<in> set news. \<exists>job \<in> set js. claimed_row now w e job r)"
proof -
  let ?Q = "\<lambda>claimed S. \<exists>news. S = job_runs d @ news \<and> map jr_id news = claimed \<and>
    (\<forall>r \<in> set news. \<exists>job \<in> set js. claimed_row now w e job r)"
  have "?Q (fst (claim_occurrence u job w now e t acc)) (job_runs (snd (snd (claim_occurrence u job w now e t acc))))"
    if j: "job \<in> set js" and Q: "?Q (fst acc) (job_runs (snd (snd acc)))" for job t acc
  proof -
    obtain claimed n dd where acc: "acc = (claimed, n, dd)" by (cases acc) auto
    obtain news where news: "job_runs dd = job_runs d @ news" "map jr_id news = claimed"
      "\<forall>r \<in> set news. \<exists>job \<in> set js. claimed_row now w e job r" using Q acc by auto
    let ?row = "\<lparr>jr_id = u n, jr_job = job_id job, jr_scheduled = t, jr_payload = job_payload job,
        jr_stat = JrClaimed, jr_attempt = 1, jr_owner = Some w, jr_expires = Some e, polaris_run = None,
        cancel_requested = False, execution_error = None, delivery_stat = fresh_delivery (job_payload job),
        delivery_error = None, jr_claimed = now, jr_started = None, jr_completed = None, jr_updated = now\<rparr>"
    have "claimed_row now w e job ?row" by (simp add: claimed_row_def)
    then have "\<exists>ns. job_runs d @ news @ [?row] = job_runs d @ ns \<and> map jr_id ns = claimed @ [u n] \<and>
        (\<forall>r \<in> set ns. \<exists>job \<in> set js. claimed_row now w e job r)"
      using news j by (intro exI [of _ "news @ [?row]"]) auto
    then show ?thesis using news unfolding acc by (simp add: claim_occurrence_def)
  qed
  from claim_jobs_induct [OF assms, of ?Q, OF _ this] show ?thesis by auto
qed

lemma find_all_rows:
  "keyed jr_id (job_runs d) \<Longrightarrow> set rs \<subseteq> set (job_runs d) \<Longrightarrow> find_all (map jr_id rs) d = Inr rs"
  by (induction rs) (simp_all add: by_key_in)

lemma claim_due_runs_news:
  assumes "claim_due_runs_tx env u now w e limit k d = Inr (rs, d')" and "keyed jr_id (job_runs d')"
  shows "job_runs d' = job_runs d @ rs \<and> (\<forall>r \<in> set rs. \<exists>job \<in> set (claim_order env now k d). claimed_row now w e job r)"
proof -
  obtain claimed n where c: "claim_jobs env u w now e limit (claim_order env now k d) ([], 0, d) = Inr (claimed, n, d')"
      "find_all claimed d' = Inr rs"
    using assms(1) by (rule claim_orderE)
  obtain news where n: "job_runs d' = job_runs d @ news" "map jr_id news = claimed"
      "\<forall>r \<in> set news. \<exists>job \<in> set (claim_order env now k d). claimed_row now w e job r"
    using claim_jobs_news [OF c(1)] by blast
  have "find_all claimed d' = Inr news"
    using find_all_rows [OF assms(2), of news] n(1,2) by simp
  then show ?thesis using c(2) n by simp
qed

section \<open>How many\<close>

lemma claim_occurrence_length: "length (fst (claim_occurrence u job w now e t acc)) \<le> length (fst acc) + 1"
  "length (fst acc) \<le> length (fst (claim_occurrence u job w now e t acc))"
  by (simp_all add: claim_occurrence_def split_def Let_def)

lemma fold_claim_length:
  "length (fst acc) \<le> length (fst (fold (claim_occurrence u job w now e) ts acc)) \<and>
   length (fst (fold (claim_occurrence u job w now e) ts acc)) \<le> length (fst acc) + length ts"
proof (induction ts arbitrary: acc)
  case (Cons t ts)
  let ?acc = "claim_occurrence u job w now e t acc"
  have "length (fst acc) \<le> length (fst ?acc)" "length (fst ?acc) \<le> length (fst acc) + 1"
    by (rule claim_occurrence_length)+
  then show ?case using Cons.IH [of ?acc] by simp
qed simp

lemma insert_occurrences_length:
  "length (fst acc) \<le> length (fst (insert_occurrences u w now e limit job occ acc)) \<and>
   (length (fst acc) \<le> limit \<longrightarrow> length (fst (insert_occurrences u w now e limit job occ acc)) \<le> limit)"
proof -
  let ?ts = "last_occurrences (limit - length (fst acc)) occ"
  have "length ?ts \<le> limit - length (fst acc)" by (simp add: last_occurrences_def)
  then show ?thesis
    using fold_claim_length [where ts = ?ts and acc = acc and u = u and w = w and now = now and e = e and job = job]
    unfolding insert_occurrences_def by linarith
qed

lemma claim_job_length:
  assumes "claim_job env u w now e limit job acc = Inr acc'"
  shows "length (fst acc) \<le> length (fst acc') \<and> (length (fst acc) \<le> limit \<longrightarrow> length (fst acc') \<le> limit)"
  using assms by (cases rule: claim_jobE) (simp_all add: insert_occurrences_length)

lemma claim_jobs_length:
  "claim_jobs env u w now e limit js acc = Inr acc' \<Longrightarrow>
   length (fst acc) \<le> length (fst acc') \<and> (length (fst acc) \<le> limit \<longrightarrow> length (fst acc') \<le> limit)"
proof (induction js arbitrary: acc)
  case (Cons h js)
  obtain acc1 where acc1: "claim_job env u w now e limit h acc = Inr acc1"
      "claim_jobs env u w now e limit js acc1 = Inr acc'"
    using Cons.prems by (cases "claim_job env u w now e limit h acc") simp_all
  show ?case using claim_job_length [OF acc1(1)] Cons.IH [OF acc1(2)] by linarith
qed simp

lemma claim_due_runs_claimed:
  assumes "claim_jobs env u w now e limit js ([], 0, d) = Inr (claimed, n, d')"
    and "find_all claimed d' = Inr rs" and "keyed jr_id (job_runs d')"
  shows "claimed = map jr_id rs"
proof -
  obtain news where n: "job_runs d' = job_runs d @ news" "map jr_id news = claimed"
    using claim_jobs_news [OF assms(1)] by blast
  then have "find_all claimed d' = Inr news" using find_all_rows [OF assms(3), of news] by simp
  then show ?thesis using n(2) assms(2) by simp
qed

lemma claim_due_runs_length:
  assumes "claim_due_runs_tx env u now w e limit k d = Inr (rs, d')" and "keyed jr_id (job_runs d')"
  shows "length rs \<le> limit"
proof -
  obtain claimed n where c: "claim_jobs env u w now e limit (claim_order env now k d) ([], 0, d) = Inr (claimed, n, d')"
      "find_all claimed d' = Inr rs"
    using assms(1) by (rule claim_orderE)
  show ?thesis using claim_due_runs_claimed [OF c assms(2)] claim_jobs_length [OF c(1)] by simp
qed

section \<open>No due job is left behind\<close>

lemma claim_job_processed:
  assumes "claim_job env u w now e limit job acc = Inr acc'" and "length (fst acc) < limit"
    and "by_key job_id (job_id job) (jobs (snd (snd acc))) = Some job"
  shows "\<exists>following. advance_after_now env job now = Inr following \<and>
    by_key job_id (job_id job) (jobs (snd (snd acc'))) = Some (advance_job now following job)"
  using assms(1)
proof (cases rule: claim_jobE)
  case (2 occ following)
  then show ?thesis using assms(3) by (simp add: by_key_update_where)
qed (use assms(2) in simp)

lemma advanced_by_key:
  assumes "S' = map f S" and "\<And>j. advanced now ids j (f j)" and "i \<notin> ids"
  shows "by_key job_id i S' = by_key job_id i S"
proof -
  have "by_key job_id i S' = map_option f (by_key job_id i S)"
    unfolding assms(1) by (rule by_key_map) (rule advanced_id [OF assms(2)])
  moreover have "f j = j" if "by_key job_id i S = Some j" for j
    using assms(2) [of j] by_key_SomeD [OF that] assms(3) by (auto simp: advanced_def)
  ultimately show ?thesis by (cases "by_key job_id i S") simp_all
qed

lemma claim_jobs_processed:
  "claim_jobs env u w now e limit js acc = Inr acc' \<Longrightarrow> length (fst acc') < limit \<Longrightarrow>
   distinct (map job_id js) \<Longrightarrow> j \<in> set js \<Longrightarrow> by_key job_id (job_id j) (jobs (snd (snd acc))) = Some j \<Longrightarrow>
   \<exists>following. advance_after_now env j now = Inr following \<and>
    by_key job_id (job_id j) (jobs (snd (snd acc'))) = Some (advance_job now following j)"
proof (induction js arbitrary: acc)
  case (Cons h js)
  obtain acc1 where acc1: "claim_job env u w now e limit h acc = Inr acc1"
      "claim_jobs env u w now e limit js acc1 = Inr acc'"
    using Cons.prems(1) by (cases "claim_job env u w now e limit h acc") simp_all
  have room: "length (fst acc) < limit"
    using claim_job_length [OF acc1(1)] claim_jobs_length [OF acc1(2)] Cons.prems(2) by linarith
  have dist: "distinct (map job_id js)" "job_id h \<notin> job_id ` set js" using Cons.prems(3) by auto
  obtain g where g: "jobs (snd (snd acc')) = map g (jobs (snd (snd acc1)))"
      "\<And>j. advanced now (job_id ` set js) j (g j)"
    using claim_jobs_advances [OF acc1(2) dist(1)] by blast
  obtain f where f: "jobs (snd (snd acc1)) = map f (jobs (snd (snd acc)))" "\<And>j. advanced now {job_id h} j (f j)"
    using claim_job_advances [OF acc1(1)] by blast
  show ?case
  proof (cases "j = h")
    case True
    then show ?thesis
      using claim_job_processed [OF acc1(1) room] Cons.prems(5) advanced_by_key [OF g dist(2)] by simp
  next
    case False
    then have j: "j \<in> set js" "job_id j \<noteq> job_id h" using Cons.prems(4) dist(2) by (auto simp: image_iff)
    then have "by_key job_id (job_id j) (jobs (snd (snd acc1))) = Some j"
      using advanced_by_key [OF f, of "job_id j"] Cons.prems(5) by simp
    then show ?thesis using Cons.IH [OF acc1(2) Cons.prems(2) dist(1) j(1)] by simp
  qed
qed simp

section \<open>The occurrences of a due job\<close>

lemma cron_previous_le: "cron_previous_or_at c z t = Inr u \<Longrightarrow> u \<le> t"
proof -
  assume "cron_previous_or_at c z t = Inr u"
  then obtain i :: nat where "u = t div minute_us * minute_us - int i * minute_us" by (rule cron_previousE)
  moreover have "t div minute_us * minute_us \<le> t"
    by (simp add: minute_us_def minus_mod_eq_div_mult [symmetric])
  moreover have "0 \<le> int i * minute_us" by (simp add: minute_us_def)
  ultimately show ?thesis by linarith
qed

lemma cron_previous_matches: "cron_previous_or_at c z t = Inr u \<Longrightarrow> cron_matches c (local_fields_at z u)"
  by (erule cron_previousE) simp

text \<open>The backward collection keeps a strictly descending list of matches from \<open>first\<close> on.\<close>

definition descending_matches :: "cron_expression \<Rightarrow> zone \<Rightarrow> instant \<Rightarrow> instant \<Rightarrow> instant list \<Rightarrow> bool" where
  "descending_matches c z first now ts \<longleftrightarrow> sorted_wrt (>) ts \<and>
     (\<forall>t \<in> set ts. first \<le> t \<and> t \<le> now \<and> cron_matches c (local_fields_at z t))"

lemma collect_back_descending:
  "collect_back n c z first cursor found = Inr ts \<Longrightarrow> descending_matches c z first now found \<Longrightarrow>
   (\<forall>t \<in> set found. cursor < t) \<Longrightarrow> cursor \<le> now \<Longrightarrow> cron_matches c (local_fields_at z cursor) \<Longrightarrow>
   descending_matches c z first now ts \<and> length ts \<le> length found + n"
proof (induction n arbitrary: cursor found)
  case (Suc n)
  show ?case
  proof (cases "first \<le> cursor")
    case True
    then obtain prev where prev: "cron_previous_or_at c z (cursor - 1) = Inr prev"
        "collect_back n c z first prev (found @ [cursor]) = Inr ts"
      using Suc.prems(1) by (auto split: sum.splits)
    have lt: "prev < cursor" using cron_previous_le [OF prev(1)] by simp
    have "descending_matches c z first now (found @ [cursor])"
      using Suc.prems(2,3,4,5) True by (auto simp: descending_matches_def sorted_wrt_append)
    then show ?thesis
      using Suc.IH [OF prev(2)] lt Suc.prems(3,4) cron_previous_matches [OF prev(1)] by fastforce
  qed (use Suc.prems in auto)
qed auto

lemma length_py_range: "length (py_range a b 1) = nat (b - a)"
  by (simp add: py_range_def)

lemma due_occurrences_length:
  assumes "due_occurrences env job now = Inr occ" and "options_ok job"
  shows "int (length occ) \<le> job_max_catchup job"
proof (cases "next_run_at job = None \<or> (\<exists>t. next_run_at job = Some t \<and> now < t)")
  case True
  then show ?thesis using assms by (auto simp: due_occurrences_def options_ok_def)
next
  case False
  then obtain first where first: "next_run_at job = Some first" "\<not> now < first" by auto
  have one: "1 \<le> job_max_catchup job" using assms(2) by (simp add: options_ok_def)
  define howmany where "howmany = (if job_policy job = CatchupBounded then job_max_catchup job else 1)"
  have h: "howmany \<le> job_max_catchup job" "1 \<le> howmany" using one by (simp_all add: howmany_def)
  show ?thesis
  proof (cases "job_policy job = CatchupSkip")
    case True
    then show ?thesis using assms(1) first one by (auto simp: due_occurrences_def split: sum.splits if_splits)
  next
    case False
    note eq = assms(1) [unfolded due_occurrences_def first(1) option.case if_not_P [OF first(2)]
        if_not_P [OF False] Let_def howmany_def [symmetric]]
    show ?thesis
    proof (cases "sp_kind (job_schedule job)")
      case KindOnce
      then show ?thesis using eq one by auto
    next
      case KindInterval
      then show ?thesis using eq h
        by (auto simp: length_py_range split: option.splits if_splits)
    next
      case KindCron
      then obtain c z cursor found where f: "cron_previous_or_at c z now = Inr cursor"
          "collect_back (nat howmany) c z first cursor [] = Inr found" "occ = rev found"
        using eq by (auto split: option.splits sum.splits)
      have "length found \<le> nat howmany"
        using collect_back_descending [OF f(2), of now] cron_previous_le [OF f(1)]
          cron_previous_matches [OF f(1)] by (simp add: descending_matches_def)
      then show ?thesis using f(3) h by simp
    qed
  qed
qed

lemma due_occurrences_cron:
  assumes "due_occurrences env job now = Inr occ" and "sp_kind (job_schedule job) = KindCron"
  shows "sorted_wrt (<) occ \<and> (\<forall>t \<in> set occ. t \<le> now \<and> (\<exists>first. next_run_at job = Some first \<and> first \<le> t) \<and>
    (\<exists>text c z. sp_cron (job_schedule job) = Some text \<and> cron_parse text = Inr c \<and>
       zone_of env (sp_timezone (job_schedule job)) = Some z \<and> cron_matches c (local_fields_at z t)))"
proof (cases "next_run_at job = None \<or> (\<exists>t. next_run_at job = Some t \<and> now < t)")
  case True
  then show ?thesis using assms by (auto simp: due_occurrences_def)
next
  case False
  then obtain first where first: "next_run_at job = Some first" "\<not> now < first" by auto
  show ?thesis
  proof (cases "job_policy job = CatchupSkip")
    case True
    then show ?thesis using assms first
      by (auto simp: due_occurrences_def skip_latest_def get_timezone_def Let_def
          split: sum.splits if_splits option.splits dest: cron_previous_le cron_previous_matches)
  next
    case False
    note eq = assms(1) [unfolded due_occurrences_def first(1) option.case if_not_P [OF first(2)]
        if_not_P [OF False] Let_def assms(2) schedule_kind.case]
    obtain tx c z cursor found where f: "sp_cron (job_schedule job) = Some tx" "cron_parse tx = Inr c"
        "zone_of env (sp_timezone (job_schedule job)) = Some z" "cron_previous_or_at c z now = Inr cursor"
        "collect_back (nat (if job_policy job = CatchupBounded then job_max_catchup job else 1)) c z first cursor [] = Inr found"
        "occ = rev found"
      using eq by (auto simp: get_timezone_def split: option.splits sum.splits)
    have "descending_matches c z first now found"
      using collect_back_descending [OF f(5), of now] cron_previous_le [OF f(4)]
        cron_previous_matches [OF f(4)] by (simp add: descending_matches_def)
    then show ?thesis using f first by (auto simp: descending_matches_def sorted_wrt_rev)
  qed
qed

end
