(* ===== verification/SchedulerProperties.thy ===== *)
theory SchedulerProperties
  imports SchedulerClaims
begin

text \<open>
  The properties of the scheduler store, over every sequence of calls by any number of schedulers.
\<close>

abbreviation sched_run :: "sched_env \<Rightarrow> sched_op list \<Rightarrow> sched_store \<Rightarrow> sched_store" where
  "sched_run env \<equiv> run_ops (sched_exec env)"

lemma new_store_ok: "shuffle_ok env \<Longrightarrow> store_ok env new_store"
  by (simp add: store_ok_def sched_ok_def new_store_def)

lemma sample_shuffle [simp]: "shuffle_ok sample_env"
  by (simp add: shuffle_ok_def sample_env_def)

text \<open>A store with a once job at instant 0, and a claim of it by \<open>a\<close> at instant 10.\<close>

definition once_at_0 :: schedule_spec where
  "once_at_0 = \<lparr>sp_kind = KindOnce, sp_once = Some (StampMoment (Aware 0)), sp_interval = None,
     sp_cron = None, sp_timezone = ''UTC'', sp_start = None\<rparr>"

definition sample_payload :: job_payload where
  "sample_payload = \<lparr>pl_mode = ''single'', pl_request = JObj [], pl_delivery = Some (JObj [])\<rparr>"

definition sample_job :: sched_op where
  "sample_job = CreateJob once_at_0 sample_payload ''j'' None ''fire_once'' 1 0 ''j1'' 0"

definition sample_claim :: sched_op where
  "sample_claim = ClaimDueRuns (\<lambda>n. CHR ''r'' # nat_digits n) 10 ''a'' 30 5 None None"

definition demo :: "sched_op list \<Rightarrow> sched_store" where
  "demo ops = sched_run sample_env (sample_job # ops) new_store"

lemma demo_ok: "store_ok sample_env (demo ops)"
  unfolding demo_def by (rule sched.run_ok) (simp add: new_store_ok)

text \<open>
  C17: in every store reached by any interleaving of calls, job and run identifiers are unique, no
  occurrence of a job has two runs, every run belongs to a job, the options of every job are
  within their bounds, and every run row agrees with its status: a claimed or running one is held
  by a named owner until an expiry and not completed, a closed one is held by nobody and completed,
  a delivery is recorded only for a success and pending only without a cancel request.
\<close>

theorem scheduler_invariant:
  assumes "shuffle_ok env"
  shows "sched_ok (sdb (sched_run env ops new_store))"
  using sched.run_ok [OF new_store_ok [OF assms], of ops] by (simp add: store_ok_def)

theorem scheduler_invariant_witness:
  "sched_ok (sdb (sched_run sample_env [sample_job, sample_claim] new_store))"
  by (rule scheduler_invariant) simp


text \<open>
  C18: every call moves every row of \<open>job_runs\<close> along \<open>run_step\<close> and inserts only fresh claims, and
  every row of \<open>jobs\<close> along \<open>job_step\<close>: the tables refine the life of a run and of a job.
\<close>

theorem scheduler_refines_steps:
  assumes "shuffle_ok env"
  shows "(let s = sched_run env ops new_store; s' = sched_exec env a s in
     runs_follow a (job_runs (sdb s)) (job_runs (sdb s')) \<and> jobs_follow a (jobs (sdb s)) (jobs (sdb s')))"
  using sched_exec_runs sched_exec_jobs sched.run_ok [OF new_store_ok [OF assms], of ops] by (simp add: Let_def)

theorem scheduler_refines_steps_witness:
  "let s = sched_run sample_env [sample_job] new_store; s' = sched_exec sample_env sample_claim s in
     runs_follow sample_claim (job_runs (sdb s)) (job_runs (sdb s')) \<and>
     jobs_follow sample_claim (jobs (sdb s)) (jobs (sdb s'))"
  by (rule scheduler_refines_steps) simp

section \<open>Claims\<close>

lemma claim_due_runs_Inr:
  assumes "claim_due_runs env u now w l b cap k s = (Inr rs, s')"
  obtains d' where "w \<noteq> []" "0 < timedelta_us l" "\<not> sclosed s"
    "claim_due_runs_tx env u now w (now + timedelta_us l) (nat (case cap of None \<Rightarrow> b | Some c \<Rightarrow> min b c)) k (sdb s) = Inr (rs, d')"
    "s' = s\<lparr>sdb := d'\<rparr>" "1 \<le> (case cap of None \<Rightarrow> b | Some c \<Rightarrow> min b c)"
  using assms by (auto simp: claim_due_runs_def sched_transaction_def Let_def split: if_splits sum.splits)

lemma claim_due_runs_ok:
  assumes "claim_due_runs env u now w l b cap k s = (Inr rs, s')" and "store_ok env s"
  shows "store_ok env s'"
  using sched_exec_ok [OF assms(2), of "ClaimDueRuns u now w l b cap k"] assms(1) by simp

text \<open>
  C19: a successful claim appends the runs it returns to the table and changes no other run.  There
  are at most \<open>batch\<close> and \<open>startup_cap\<close> of them, each a first attempt held by the caller until the
  lease ends, with the payload of a job that was scheduled and due, for an occurrence that had no
  run before.
\<close>

theorem claim_due_runs_effect:
  assumes "claim_due_runs env u now w l b cap k s = (Inr rs, s')" and "store_ok env s"
  shows "job_runs (sdb s') = job_runs (sdb s) @ rs \<and> int (length rs) \<le> (case cap of None \<Rightarrow> b | Some c \<Rightarrow> min b c) \<and>
    (\<forall>r \<in> set rs. (\<exists>j \<in> set (jobs (sdb s)). due_job now j \<and> claimed_row now w (now + timedelta_us l) j r) \<and>
       occurrence_key r \<notin> occurrence_key ` set (job_runs (sdb s)))"
proof -
  obtain d' where d: "claim_due_runs_tx env u now w (now + timedelta_us l)
      (nat (case cap of None \<Rightarrow> b | Some c \<Rightarrow> min b c)) k (sdb s) = Inr (rs, d')" "s' = s\<lparr>sdb := d'\<rparr>"
      "1 \<le> (case cap of None \<Rightarrow> b | Some c \<Rightarrow> min b c)"
    using assms(1) by (rule claim_due_runs_Inr)
  have ok: "sched_ok d'" using claim_due_runs_ok [OF assms] d(2) by (simp add: store_ok_def)
  then have news: "job_runs d' = job_runs (sdb s) @ rs"
      "\<forall>r \<in> set rs. \<exists>job \<in> set (claim_order env now k (sdb s)). claimed_row now w (now + timedelta_us l) job r"
    using claim_due_runs_news [OF d(1)] by (simp_all add: sched_ok_def)
  have "length rs \<le> nat (case cap of None \<Rightarrow> b | Some c \<Rightarrow> min b c)"
    using claim_due_runs_length [OF d(1)] ok by (simp add: sched_ok_def)
  moreover have "occurrence_key r \<notin> occurrence_key ` set (job_runs (sdb s))" if "r \<in> set rs" for r
    using ok that unfolding sched_ok_def news(1) keyed_def by auto
  ultimately show ?thesis
    using news d(2,3) set_claim_order [OF store_ok_keys(3) [OF assms(2)]] by auto
qed

theorem claim_due_runs_effect_witness:
  "\<exists>rs s'. claim_due_runs sample_env (\<lambda>n. CHR ''r'' # nat_digits n) 10 ''a'' 30 5 None None (demo []) = (Inr rs, s') \<and>
     map jr_id rs = [''r0''] \<and> job_runs (sdb s') = job_runs (sdb (demo [])) @ rs"
proof -
  let ?c = "claim_due_runs sample_env (\<lambda>n. CHR ''r'' # nat_digits n) 10 ''a'' 30 5 None None (demo [])"
  have "(case fst ?c of Inl e \<Rightarrow> False | Inr rs \<Rightarrow> map jr_id rs = [''r0''])" by code_simp
  then obtain rs where rs: "fst ?c = Inr rs" "map jr_id rs = [''r0'']" by (auto split: sum.splits)
  then have c: "?c = (Inr rs, snd ?c)" by (metis prod.collapse)
  have e: "job_runs (sdb (snd ?c)) = job_runs (sdb (demo [])) @ rs"
    using claim_due_runs_effect [OF c demo_ok] by (rule conjunct1)
  show ?thesis
    by (rule exI [of _ rs], rule exI [of _ "snd ?c"], intro conjI) (rule c, rule rs(2), rule e)
qed

text \<open>
  A claim that returned fewer runs than its limit leaves no due job behind: each job that was
  due has been advanced, to its next occurrence after now or, when there is none, to completion.
\<close>

theorem claim_leaves_none_due:
  assumes "claim_due_runs env u now w l b cap k s = (Inr rs, s')" and "store_ok env s"
    and "int (length rs) < (case cap of None \<Rightarrow> b | Some c \<Rightarrow> min b c)"
    and "j \<in> set (jobs (sdb s))" and "due_job now j"
  shows "\<exists>following. advance_after_now env j now = Inr following \<and>
    find_job (job_id j) (sdb s') = Some (advance_job now following j)"
proof -
  obtain d' where d: "claim_due_runs_tx env u now w (now + timedelta_us l)
      (nat (case cap of None \<Rightarrow> b | Some c \<Rightarrow> min b c)) k (sdb s) = Inr (rs, d')" "s' = s\<lparr>sdb := d'\<rparr>"
    using assms(1) by (rule claim_due_runs_Inr)
  obtain claimed n where c: "claim_jobs env u w now (now + timedelta_us l)
      (nat (case cap of None \<Rightarrow> b | Some c \<Rightarrow> min b c)) (claim_order env now k (sdb s)) ([], 0, sdb s) = Inr (claimed, n, d')"
      "find_all claimed d' = Inr rs"
    using d(1) by (rule claim_orderE)
  have "keyed jr_id (job_runs d')"
    using claim_due_runs_ok [OF assms(1,2)] d(2) by (simp add: store_ok_def sched_ok_def)
  then have "length claimed = length rs"
    using claim_due_runs_claimed [OF c] by simp
  then have room: "length (fst (claimed, n, d')) < nat (case cap of None \<Rightarrow> b | Some c \<Rightarrow> min b c)"
    using assms(3) by simp
  have sh: "shuffle_ok env" and key: "keyed job_id (jobs (sdb s))"
    using store_ok_keys [OF assms(2)] by simp_all
  have "j \<in> set (claim_order env now k (sdb s))" using set_claim_order [OF sh] assms(4,5) by simp
  then show ?thesis
    using claim_jobs_processed [OF c(1) room claim_order_distinct [OF sh key]] by_key_in [OF key assms(4)] d(2)
    by simp
qed

theorem claim_leaves_none_due_witness:
  "\<exists>j s'. job_id j = ''j1'' \<and> due_job 10 j \<and>
     snd (claim_due_runs sample_env (\<lambda>n. CHR ''r'' # nat_digits n) 10 ''a'' 30 5 None None (demo [])) = s' \<and>
     find_job ''j1'' (sdb s') = Some (advance_job 10 None j)"
proof -
  let ?c = "claim_due_runs sample_env (\<lambda>n. CHR ''r'' # nat_digits n) 10 ''a'' 30 5 None None (demo [])"
  have "(case fst ?c of Inl e \<Rightarrow> False | Inr rs \<Rightarrow> length rs = 1)" by code_simp
  then obtain rs where rs: "fst ?c = Inr rs" "length rs = 1" by (auto split: sum.splits)
  then have c: "?c = (Inr rs, snd ?c)" by (metis prod.collapse)
  have "(case jobs (sdb (demo [])) of [j] \<Rightarrow> job_id j = ''j1'' \<and> due_job 10 j \<and>
      (case advance_after_now sample_env j 10 of Inr None \<Rightarrow> True | _ \<Rightarrow> False) | _ \<Rightarrow> False)" by code_simp
  then obtain j where j: "jobs (sdb (demo [])) = [j]" "job_id j = ''j1''" "due_job 10 j"
      "advance_after_now sample_env j 10 = Inr None"
    by (auto split: list.splits sum.splits option.splits)
  have "int (length rs) < (case None of None \<Rightarrow> 5 | Some c \<Rightarrow> min 5 c)" "j \<in> set (jobs (sdb (demo [])))"
    using rs(2) j(1) by simp_all
  from claim_leaves_none_due [OF c demo_ok this j(3)] j show ?thesis by auto
qed

text \<open>
  A due job has at most as many occurrences as its catch-up limit; for a cron schedule they are
  strictly increasing, each lies between the recorded next run and now, and each is matched by the
  job's expression in its zone.
\<close>

theorem due_occurrences_bounded:
  assumes "due_occurrences env job now = Inr occ" and "options_ok job"
  shows "int (length occ) \<le> job_max_catchup job \<and>
    (case sp_kind (job_schedule job) of KindCron \<Rightarrow> sorted_wrt (<) occ \<and>
       (\<forall>t \<in> set occ. t \<le> now \<and> (\<exists>first. next_run_at job = Some first \<and> first \<le> t) \<and>
         (\<exists>text c z. sp_cron (job_schedule job) = Some text \<and> cron_parse text = Inr c \<and>
            zone_of env (sp_timezone (job_schedule job)) = Some z \<and> cron_matches c (local_fields_at z t)))
     | _ \<Rightarrow> True)"
  using due_occurrences_length [OF assms] due_occurrences_cron [OF assms(1)]
  by (simp split: schedule_kind.split)

theorem due_occurrences_bounded_witness:
  "\<exists>occ. due_occurrences sample_env (hd (jobs (sdb (demo [])))) 10 = Inr occ \<and> length occ \<le> 1"
proof -
  let ?j = "hd (jobs (sdb (demo [])))"
  have o: "due_occurrences sample_env ?j 10 = Inr [0]" by code_simp
  have "options_ok ?j \<and> job_max_catchup ?j = 1" by code_simp
  with due_occurrences_bounded [OF o] o show ?thesis by simp
qed

section \<open>Leases\<close>

text \<open>
  While a scheduler holds a run, a second one comes to hold it only after the first one itself
  gave it up or renewed it, the lease ran out and was recovered, or the run was cancelled.
\<close>

theorem job_lease_takeover:
  assumes "store_ok env s" and "run_holding s i = Some (w, e)"
    and "run_holding (sched_run env ops s) i = Some (w', e')" and "w \<noteq> w'"
  shows "\<exists>a \<in> set ops. releases_run a i w e"
  using assms by (rule run_lease.takeover_needs_release)

theorem job_lease_takeover_witness:
  "\<exists>a \<in> {RecoverStale 40000000, CreateRetry ''r0'' ''b'' 30 True 40000000}. releases_run a ''r0'' ''a'' 30000010"
proof -
  let ?ops = "[RecoverStale 40000000, CreateRetry ''r0'' ''b'' 30 True 40000000]"
  have "run_holding (demo [sample_claim]) ''r0'' = Some (''a'', 30000010)" by code_simp
  moreover have "run_holding (sched_run sample_env ?ops (demo [sample_claim])) ''r0'' = Some (''b'', 70000000)"
    by code_simp
  ultimately show ?thesis
    using job_lease_takeover [OF demo_ok, of "[sample_claim]" "''r0''" "''a''" 30000010 ?ops "''b''" 70000000] by simp
qed

text \<open>
  Without an unexpired lease of the run, \<open>mark_running\<close>, \<open>heartbeat\<close> and \<open>complete\<close> fail and
  leave the store as it was.
\<close>

theorem no_job_lease_no_effect:
  assumes "find_job_run i (sdb s) = Some r" and "require_active_lease r w now \<noteq> None"
  shows "(\<exists>e. mark_running i w pid now s = (Inl e, s)) \<and> (\<exists>e. job_heartbeat i w l now s = (Inl e, s)) \<and>
    (\<exists>e. complete_run i w st err pid now s = (Inl e, s))"
  using assms
  by (auto simp: mark_running_def mark_running_tx_def job_heartbeat_def get_job_run_def complete_run_def
      complete_run_tx_def sched_transaction_def split: sum.splits)

theorem no_job_lease_no_effect_witness:
  "\<exists>e. complete_run ''r0'' ''b'' ''succeeded'' None None 11 (demo [sample_claim]) = (Inl e, demo [sample_claim])"
proof -
  let ?s = "demo [sample_claim]"
  have "(case find_job_run ''r0'' (sdb ?s) of None \<Rightarrow> False
      | Some r \<Rightarrow> (case require_active_lease r ''b'' 11 of None \<Rightarrow> False | Some e \<Rightarrow> True))" by code_simp
  then obtain r where "find_job_run ''r0'' (sdb ?s) = Some r" "require_active_lease r ''b'' 11 \<noteq> None"
    by (auto split: option.splits)
  from no_job_lease_no_effect [OF this] show ?thesis by blast
qed

section \<open>Life cycles\<close>

text \<open>
  A cancelled or completed job keeps that state through every later sequence of calls, so no
  claim takes it up again, and a run that succeeded stays succeeded.
\<close>

theorem final_states_stay:
  assumes "store_ok env s"
  shows "(job_status s i \<in> {Some JobCancelled, Some JobCompleted} \<longrightarrow>
      job_status (sched_run env ops s) i = job_status s i) \<and>
    (run_status_of s i = Some JrSucceeded \<longrightarrow> run_status_of (sched_run env ops s) i = Some JrSucceeded)"
proof -
  have "\<not> job_edge JobCancelled y" "\<not> job_edge JobCompleted y" for y by (auto elim: job_edge.cases)
  moreover have "\<not> run_edge JrSucceeded y" for y by (auto elim: run_edge_succeededE)
  ultimately show ?thesis
    using job_life.run_terminal [OF assms] job_run_life.run_terminal [OF assms] by auto
qed

theorem final_states_stay_witness:
  "job_status (sched_run sample_env [PauseJob ''j1'' 50, ResumeJob ''j1'' 60] (demo [sample_claim])) ''j1'' = Some JobCompleted"
proof -
  have "job_status (demo [sample_claim]) ''j1'' = Some JobCompleted" by code_simp
  then show ?thesis
    using final_states_stay [OF demo_ok, where i = "''j1''" and ops = "[PauseJob ''j1'' 50, ResumeJob ''j1'' 60]"
      and ops1 = "[sample_claim]"] by simp
qed

lemma run_step_reopens:
  "run_step a r r' \<Longrightarrow> run_row_ok r \<Longrightarrow> retryable r \<Longrightarrow>
   jr_stat r' = jr_stat r \<or> (\<exists>w l now. a = CreateRetry (jr_id r) w l True now)"
  by (erule run_step.cases) (auto simp: run_fields stale_def cancel_request_def)

text \<open>
  A run that failed, was interrupted or was cancelled leaves that status only through an
  approved retry of this very run.
\<close>

theorem only_retry_reopens:
  assumes "store_ok env s" and "run_status_of s i = Some x" and "x \<in> {JrFailed, JrInterrupted, JrCancelled}"
    and "run_status_of (sched_run env ops s) i \<noteq> Some x"
  shows "\<exists>w l now. CreateRetry i w l True now \<in> set ops"
  using assms
proof (induction ops arbitrary: s)
  case (Cons a ops)
  obtain r where r: "find_job_run i (sdb s) = Some r" "jr_stat r = x"
    using Cons.prems(2) by (auto simp: run_status_of_def)
  obtain r' where r': "find_job_run i (sdb (sched_exec env a s)) = Some r'" "run_step a r r'"
    using sched_exec_run [OF Cons.prems(1) r(1)] by blast
  have "jr_id r = i" using by_key_SomeD [OF r(1)] by simp
  then consider "jr_stat r' = x" | w l now where "a = CreateRetry i w l True now"
    using run_step_reopens [OF r'(2) store_ok_row [OF Cons.prems(1) r(1)]] r(2) Cons.prems(3)
    by (auto simp: retryable_def)
  then show ?case
  proof cases
    case 1
    then have "run_status_of (sched_exec env a s) i = Some x" using r'(1) by (simp add: run_status_of_def)
    then have "\<exists>w l now. CreateRetry i w l True now \<in> set ops"
      using Cons.prems(3,4) by (intro Cons.IH [OF sched_exec_ok [OF Cons.prems(1)]]) simp_all
    then show ?thesis by auto
  qed auto
qed simp

theorem only_retry_reopens_witness:
  "\<exists>w l now. CreateRetry ''r0'' w l True now \<in> {CancelJob ''j1'' 40000001, CreateRetry ''r0'' ''b'' 30 True 40000002}"
proof -
  let ?ops = "[CancelJob ''j1'' 40000001, CreateRetry ''r0'' ''b'' 30 True 40000002]"
  have "run_status_of (demo [sample_claim, RecoverStale 40000000]) ''r0'' = Some JrInterrupted" by code_simp
  moreover have "run_status_of (sched_run sample_env ?ops (demo [sample_claim, RecoverStale 40000000])) ''r0'' = Some JrClaimed"
    by code_simp
  ultimately show ?thesis using only_retry_reopens [OF demo_ok, of _ "''r0''" JrInterrupted ?ops] by simp
qed

section \<open>Completion, delivery and recovery\<close>

text \<open>
  A completion that succeeds was made by the holder before the expiry of its lease.  It closes
  the run with the status asked for, or as cancelled when a cancellation had been requested, in
  which case a pending delivery is suppressed; the lease is gone and no other run changes.
\<close>

theorem complete_run_effect:
  assumes "complete_run i w st err pid now s = (Inr r', s')" and "store_ok env s"
  shows "\<exists>r terminal. find_job_run i (sdb s) = Some r \<and> coerce_job_run st = Inr terminal \<and>
    terminal \<in> {JrSucceeded, JrFailed, JrCancelled} \<and> active r \<and> require_active_lease r w now = None \<and>
    jr_stat r' = (if cancel_requested r then JrCancelled else terminal) \<and>
    delivery_stat r' = (if jr_stat r' = JrCancelled then suppress (delivery_stat r) else delivery_stat r) \<and>
    execution_error r' = err \<and> jr_owner r' = None \<and> jr_expires r' = None \<and> jr_completed r' = Some now \<and>
    s' = s\<lparr>sdb := (sdb s)\<lparr>job_runs := update_where (\<lambda>q. jr_id q = i) (\<lambda>_. r') (job_runs (sdb s))\<rparr>\<rparr>"
proof -
  obtain terminal d' where t: "coerce_job_run st = Inr terminal" "terminal \<in> {JrSucceeded, JrFailed, JrCancelled}"
      "complete_run_tx i w terminal err pid now (sdb s) = Inr (r', d')" "s' = s\<lparr>sdb := d'\<rparr>"
    using assms(1) by (auto simp: complete_run_def sched_transaction_def split: sum.splits if_splits)
  obtain r where r: "find_job_run i (sdb s) = Some r" "active r" "require_active_lease r w now = None"
    using t(3) by (auto simp: complete_run_tx_def split: option.splits if_splits)
  define eff where "eff = (if cancel_requested r then JrCancelled else terminal)"
  define f :: "job_run_row \<Rightarrow> job_run_row" where "f = (\<lambda>r. r\<lparr>jr_stat := eff, execution_error := err,
                        polaris_run := coalesce pid (polaris_run r), jr_owner := None,
                        jr_expires := None,
                        delivery_stat := (if eff = JrCancelled \<and> delivery_stat r = DvPending then DvSuppressed else delivery_stat r),
                        delivery_error := (if eff = JrCancelled \<and> delivery_stat r = DvPending then None else delivery_error r),
                        jr_completed := Some now, jr_updated := now\<rparr>)"
  note key = store_ok_keys(1) [OF assms(2)]
  have own: "jr_owner r = Some w" using r(3) by (simp add: require_active_lease_None)
  have "return_run i (update_runs i (\<lambda>r. jr_owner r = Some w) f (sdb s)) = Inr (r', d')"
    using t(3) r by (simp add: complete_run_tx_def Let_def eff_def f_def)
  then have d': "d' = update_runs i (\<lambda>r. jr_owner r = Some w) f (sdb s)" "find_job_run i d' = Some r'"
    by (auto simp: return_run_Inr)
  have runs: "job_runs d' = update_where (\<lambda>q. jr_id q = i) f (job_runs (sdb s))"
    unfolding d'(1) using update_where_key_cond [OF key r(1), of "\<lambda>r. jr_owner r = Some w" f] own by simp
  have r': "r' = f r" using d'(2) r(1) unfolding runs
    by (subst (asm) by_key_update_where) (auto simp: f_def dest: by_key_SomeD)
  have "update_where (\<lambda>q. jr_id q = i) f (job_runs (sdb s)) = update_where (\<lambda>q. jr_id q = i) (\<lambda>_. r') (job_runs (sdb s))"
    unfolding update_where_def r' using by_key_same [OF key r(1)] by (intro map_cong) auto
  then have "d' = (sdb s)\<lparr>job_runs := update_where (\<lambda>q. jr_id q = i) (\<lambda>_. r') (job_runs (sdb s))\<rparr>"
    using runs d'(1) by (simp add: update_runs_def)
  then show ?thesis using t r r' by (intro exI [of _ r] exI [of _ terminal]) (simp add: f_def eff_def suppress_def)
qed

theorem complete_run_effect_witness:
  "\<exists>r' s'. complete_run ''r0'' ''a'' ''succeeded'' None None 20 (demo [sample_claim, RequestCancel ''r0'' 15]) = (Inr r', s') \<and>
     jr_stat r' = JrCancelled \<and> delivery_stat r' = DvSuppressed"
proof -
  let ?c = "complete_run ''r0'' ''a'' ''succeeded'' None None 20 (demo [sample_claim, RequestCancel ''r0'' 15])"
  have "(case fst ?c of Inl e \<Rightarrow> False | Inr r \<Rightarrow> True)" by code_simp
  then obtain r' where "fst ?c = Inr r'" by (auto split: sum.splits)
  then have c: "?c = (Inr r', snd ?c)" by (metis prod.collapse)
  have "(case find_job_run ''r0'' (sdb (demo [sample_claim, RequestCancel ''r0'' 15])) of None \<Rightarrow> False
      | Some r \<Rightarrow> cancel_requested r \<and> delivery_stat r = DvPending)" by code_simp
  then have "jr_stat r' = JrCancelled" "delivery_stat r' = DvSuppressed"
    using complete_run_effect [OF c demo_ok] by (auto simp: suppress_def)
  then show ?thesis using c by blast
qed

text \<open>
  Recovery always succeeds on an open store: it interrupts exactly the active runs whose lease
  ended at or before now, changes nothing else, and returns them in the order of their expiry; a
  second recovery at the same time finds nothing.
\<close>

theorem recover_stale_effect:
  assumes "\<not> sclosed s" and "store_ok env s"
  shows "recover_stale_runs now s =
    (Inr (map (interrupt now) (order_by (\<lambda>r. (jr_expires r, jr_id r)) (filter (stale now) (job_runs (sdb s))))),
     s\<lparr>sdb := (sdb s)\<lparr>job_runs := update_where (stale now) (interrupt now) (job_runs (sdb s))\<rparr>\<rparr>) \<and>
    fst (recover_stale_runs now (snd (recover_stale_runs now s))) = Inr []"
proof -
  have one: "recover_stale_runs now s =
    (Inr (map (interrupt now) (order_by (\<lambda>r. (jr_expires r, jr_id r)) (filter (stale now) (job_runs (sdb s))))),
     s\<lparr>sdb := (sdb s)\<lparr>job_runs := update_where (stale now) (interrupt now) (job_runs (sdb s))\<rparr>\<rparr>)"
    if "\<not> sclosed s" "keyed jr_id (job_runs (sdb s))" for s
  proof -
    let ?S = "job_runs (sdb s)"
    let ?rs = "order_by (\<lambda>r. (jr_expires r, jr_id r)) (filter (stale now) ?S)"
    let ?d = "(sdb s)\<lparr>job_runs := update_where (stale now) (interrupt now) ?S\<rparr>"
    have upd: "update_where (\<lambda>r. jr_id r \<in> set (map jr_id ?rs)) (interrupt now) ?S =
        update_where (stale now) (interrupt now) ?S"
      using expired_id_stale [OF that(2), of _ now, unfolded expired_id_def]
      unfolding update_where_def by (intro map_cong [OF refl]) simp
    have key: "keyed jr_id (job_runs ?d)" using that(2) by (simp add: interrupt_def)
    have ids: "map jr_id (map (interrupt now) ?rs) = map jr_id ?rs" by (simp add: interrupt_def)
    have "set (map (interrupt now) ?rs) \<subseteq> set (job_runs ?d)" by (auto simp: set_update_where)
    then have "find_all (map jr_id ?rs) ?d = Inr (map (interrupt now) ?rs)"
      using find_all_rows [OF key, of "map (interrupt now) ?rs"] unfolding ids by simp
    then show ?thesis using that(1)
      unfolding recover_stale_runs_def sched_transaction_def recover_stale_runs_tx_def Let_def upd by simp
  qed
  let ?s = "s\<lparr>sdb := (sdb s)\<lparr>job_runs := update_where (stale now) (interrupt now) (job_runs (sdb s))\<rparr>\<rparr>"
  note key = store_ok_keys(1) [OF assms(2)]
  have "filter (stale now) (job_runs (sdb ?s)) = []"
    by (auto simp: filter_empty_conv set_update_where) (simp add: stale_def interrupt_def active_def)
  then have "fst (recover_stale_runs now ?s) = Inr []"
    using one [of ?s] assms(1) key by (simp add: interrupt_def order_by_def)
  then show ?thesis using one [OF assms(1) key] by simp
qed

theorem recover_stale_effect_witness:
  "\<exists>r s'. recover_stale_runs 40000000 (demo [sample_claim]) = (Inr [r], s') \<and> jr_id r = ''r0'' \<and> jr_stat r = JrInterrupted"
proof -
  have "\<not> sclosed (demo [sample_claim])" by code_simp
  note eff = recover_stale_effect [OF this demo_ok, THEN conjunct1, of 40000000]
  have "(case filter (stale 40000000) (job_runs (sdb (demo [sample_claim]))) of [r] \<Rightarrow> jr_id r = ''r0'' | _ \<Rightarrow> False)"
    by code_simp
  then obtain r where "filter (stale 40000000) (job_runs (sdb (demo [sample_claim]))) = [r]" "jr_id r = ''r0''"
    by (auto split: list.splits)
  then show ?thesis using eff by (simp add: order_by_def interrupt_def)
qed

lemma record_delivery_tx_Inr:
  assumes "record_delivery_tx i target err now d = Inr (r, d')" and "target \<in> {DvSucceeded, DvFailed, DvSuppressed}"
    and "keyed jr_id (job_runs d)"
  shows "find_job_run i d' = Some r \<and> jr_stat r = JrSucceeded \<and> delivery_stat r \<noteq> DvPending"
proof -
  obtain row where row: "find_job_run i d = Some row" "jr_stat row = JrSucceeded"
    using assms(1) by (auto simp: record_delivery_tx_def split: option.splits if_splits)
  show ?thesis
  proof (cases "delivery_stat row = DvPending")
    case True
    then have ret: "return_run i (update_runs i awaiting_delivery
            (\<lambda>r. r\<lparr>delivery_stat := target, delivery_error := err, jr_updated := now\<rparr>) d) = Inr (r, d')"
      using assms(1) row by (simp add: record_delivery_tx_def)
    then have "find_job_run i d' = Some r" "r = row\<lparr>delivery_stat := target, delivery_error := err, jr_updated := now\<rparr>"
      using row True by (auto simp: return_run_Inr by_key_update_where awaiting_delivery_def dest: by_key_SomeD)
    then show ?thesis using row assms(2) by auto
  qed (use assms(1) row in \<open>auto simp: record_delivery_tx_def\<close>)
qed

text \<open>
  Once a delivery is recorded, the outcome of the run (its status, attempt, error and delivery)
  never changes again, and a second recording returns the stored row and changes nothing.
\<close>

theorem delivery_recorded_once:
  assumes "record_delivery i st err now s = (Inr r, s')" and "store_ok env s"
  shows "(\<exists>r'. find_job_run i (sdb (sched_run env ops s')) = Some r' \<and> run_outcome r' = run_outcome r) \<and>
    (case record_delivery i st2 err2 now2 s' of (Inl e, s2) \<Rightarrow> s2 = s' | (Inr r2, s2) \<Rightarrow> r2 = r \<and> s2 = s')"
proof -
  obtain target d' where t: "target \<in> {DvSucceeded, DvFailed, DvSuppressed}"
      "record_delivery_tx i target err now (sdb s) = Inr (r, d')" "s' = s\<lparr>sdb := d'\<rparr>"
    using assms(1) by (auto simp: record_delivery_def sched_transaction_def split: sum.splits if_splits)
  have ok: "store_ok env s'" using sched_exec_ok [OF assms(2), of "RecordDelivery i st err now"] assms(1) by simp
  have row: "find_job_run i d' = Some r" "jr_stat r = JrSucceeded" "delivery_stat r \<noteq> DvPending"
    using record_delivery_tx_Inr [OF t(2,1) store_ok_keys(1) [OF assms(2)]] by blast+
  have out: "outcome_of s' i = Some (run_outcome r)" "settled_outcome (run_outcome r)"
    using row t(3) by (simp_all add: outcome_of_def settled_outcome_def run_outcome_def)
  have "outcome_of (sched_run env ops s') i = Some (run_outcome r)"
    using run_outcome.run_frozen [OF ok out] .
  then have "\<exists>r'. find_job_run i (sdb (sched_run env ops s')) = Some r' \<and> run_outcome r' = run_outcome r"
    by (auto simp: outcome_of_def)
  moreover have "case record_delivery i st2 err2 now2 s' of (Inl e, s2) \<Rightarrow> s2 = s' | (Inr r2, s2) \<Rightarrow> r2 = r \<and> s2 = s'"
    using row t(3) by (simp add: record_delivery_def sched_transaction_def record_delivery_tx_def split: sum.split)
  ultimately show ?thesis by blast
qed

theorem delivery_recorded_once_witness:
  "\<exists>r'. find_job_run ''r0'' (sdb (sched_run sample_env [CancelJob ''j1'' 30, RecordDelivery ''r0'' ''failed'' None 31]
       (snd (record_delivery ''r0'' ''succeeded'' None 25
          (demo [sample_claim, CompleteRun ''r0'' ''a'' ''succeeded'' None None 20]))))) = Some r' \<and>
     delivery_stat r' = DvSucceeded"
proof -
  let ?s = "demo [sample_claim, CompleteRun ''r0'' ''a'' ''succeeded'' None None 20]"
  let ?c = "record_delivery ''r0'' ''succeeded'' None 25 ?s"
  have "(case fst ?c of Inl e \<Rightarrow> False | Inr r \<Rightarrow> delivery_stat r = DvSucceeded)" by code_simp
  then obtain r where r: "fst ?c = Inr r" "delivery_stat r = DvSucceeded" by (auto split: sum.splits)
  then have c: "?c = (Inr r, snd ?c)" by (metis prod.collapse)
  from delivery_recorded_once [where ops = "[CancelJob ''j1'' 30, RecordDelivery ''r0'' ''failed'' None 31]",
      OF c demo_ok, THEN conjunct1]
  show ?thesis using r(2) by (auto simp: run_outcome_def)
qed

end
