(* ===== verification/SchedulerEngineProperties.thy ===== *)
theory SchedulerEngineProperties
  imports SchedulerEngine SchedulerProperties
begin

text \<open>
  How often the engine submits a run, for every interleaving of its tasks, of other callers of the store and of
  restarts of the process.
\<close>

section \<open>Attempts that have begun\<close>

definition begun_row :: "job_run_row \<Rightarrow> int" where
  "begun_row r = (if jr_stat r = JrClaimed then jr_attempt r - 1 else jr_attempt r)"

definition begun :: "sched_store \<Rightarrow> str \<Rightarrow> int" where
  "begun s i = (case find_job_run i (sdb s) of None \<Rightarrow> 0 | Some r \<Rightarrow> begun_row r)"

lemma run_step_begun: "run_step a r r' \<Longrightarrow> begun_row r \<le> begun_row r'"
  by (erule run_step.cases) (auto simp: begun_row_def interrupt_def cancel_request_def stale_def run_fields)

lemma fresh_run_begun: "fresh_run a r \<Longrightarrow> begun_row r = 0"
  by (cases a) (auto simp: begun_row_def)

lemma exec_begun:
  assumes "store_ok env s"
  shows "begun s i \<le> begun (sched_exec env a s) i"
proof (cases "find_job_run i (sdb s)")
  case None
  then show ?thesis using sched_exec_new_run [OF assms None, of a] fresh_run_begun
    by (auto simp: begun_def split: option.splits)
next
  case (Some r)
  then show ?thesis using sched_exec_run [OF assms Some, of a] run_step_begun by (auto simp: begun_def)
qed

lemma run_begun: "store_ok env s \<Longrightarrow> begun s i \<le> begun (sched_run env ops s) i"
proof (induction ops arbitrary: s)
  case (Cons a ops)
  have "begun s i \<le> begun (sched_exec env a s) i" using Cons.prems by (rule exec_begun)
  also have "\<dots> \<le> begun (sched_run env ops (sched_exec env a s)) i" using Cons.IH sched_exec_ok [OF Cons.prems] by simp
  finally show ?case by simp
qed simp

section \<open>A stretch is a sequence of calls\<close>

lemma sched_run_append: "sched_run env (xs @ ys) s = sched_run env ys (sched_run env xs s)"
  by (simp add: run_ops_def)

definition by_calls :: "sched_env \<Rightarrow> sched_store \<Rightarrow> sched_store \<Rightarrow> bool" where
  "by_calls env s t \<longleftrightarrow> (\<exists>ops. t = sched_run env ops s)"

lemma by_calls_refl [simp]: "by_calls env s s"
  unfolding by_calls_def by (rule exI [of _ "[]"]) simp

lemma by_calls_exec [simp]: "by_calls env s (sched_exec env a s)"
  unfolding by_calls_def by (rule exI [of _ "[a]"]) simp

lemma by_calls_trans: "by_calls env s t \<Longrightarrow> by_calls env t u \<Longrightarrow> by_calls env s u"
  unfolding by_calls_def by (metis sched_run_append)

named_theorems engine_calls \<open>operations of the engine as calls of the store\<close>

lemma by_calls_ops [engine_calls]:
  "by_calls env s (snd (cancel_job_run i w now s))" "by_calls env s (snd (mark_running i v pid now s))"
  "by_calls env s (snd (complete_run i v st e p now s))" "by_calls env s (snd (set_polaris_run_id i v x now s))"
  "by_calls env s (snd (record_delivery i st e now s))" "by_calls env s (snd (recover_stale_runs now s))"
  "by_calls env s (snd (claim_due_runs env u now v l b c k s))" "by_calls env s (snd (create_retry i v l ok now s))"
  using by_calls_exec [of env s "CancelJobRun i w now"] by_calls_exec [of env s "MarkRunning i v pid now"]
    by_calls_exec [of env s "CompleteRun i v st e p now"] by_calls_exec [of env s "SetPolarisRunId i v x now"]
    by_calls_exec [of env s "RecordDelivery i st e now"] by_calls_exec [of env s "RecoverStale now"]
    by_calls_exec [of env s "ClaimDueRuns u now v l b c k"] by_calls_exec [of env s "CreateRetry i v l ok now"]
  by simp_all

lemma by_calls_begin [engine_calls]: "by_calls env s (snd (begin_run eng i now s))"
  using by_calls_ops(1) [of env s i "Some (en_owner eng)" now] by_calls_ops(2) [of env s i "en_owner eng" None now]
  by (auto simp: begin_run_def split: sum.splits prod.splits)

lemma by_calls_end [engine_calls]:
  "by_calls env s (snd (end_failed eng i x pid now s))" "by_calls env s (snd (end_returned eng i pid now s))"
  using by_calls_ops(3) by (auto simp: end_failed_def end_returned_def split: sum.splits)

lemma by_calls_attach [engine_calls]: "by_calls env s (snd (attach_result eng i answer now s))"
  using by_calls_ops(4) [of env s i "en_owner eng" _ now]
  by (auto simp: attach_result_def split: callback_answer.splits option.splits prod.splits sum.splits) (metis snd_conv)+

lemma by_calls_delivery [engine_calls]:
  "by_calls env s (snd (begin_delivery eng i now s))" "by_calls env s (end_delivery eng i answer now s)"
  using by_calls_ops(5)
  by (auto simp: begin_delivery_def end_delivery_def split: sum.splits option.splits callback_answer.splits)

lemma by_calls_deliver [engine_calls]:
  "deliver_stretch eng i now s dl = (new, s', dl', evs) \<Longrightarrow> by_calls env s s'"
  using by_calls_delivery(1) [of env s eng i now] by (auto simp: deliver_stretch_def split: prod.splits option.splits)

lemma advance_submitting:
  assumes "advance eng (Submitting i) answer now s dl = (new, s', dl', evs)"
  shows "by_calls env s s'"
proof (cases "attach_result eng i answer now s")
  case (Pair out s1)
  have s1: "by_calls env s s1" using by_calls_attach [of env s eng i answer now] Pair by simp
  show ?thesis
  proof (cases out)
    case (Inl p)
    then show ?thesis using assms Pair by_calls_trans [OF s1 by_calls_end(1)] by (auto split: prod.splits)
  qed (use assms Pair s1 in auto)
qed

lemma advance_by_calls:
  assumes "advance eng t answer now s dl = (new, s', dl', evs)"
  shows "by_calls env s s'"
proof (cases t)
  case (Starting i)
  then show ?thesis using assms by_calls_begin [of env s eng i now] by (auto split: prod.splits sum.splits option.splits)
next
  case (Submitting i)
  then show ?thesis using assms advance_submitting by simp
next
  case (Awaiting i pid)
  then show ?thesis using assms by_calls_end(1) by (auto split: callback_answer.splits)
next
  case (Closing i pid)
  then show ?thesis using assms by_calls_end(2) [of env s eng i "Some pid" now] by (auto split: prod.splits sum.splits)
next
  case (Yielding i)
  then show ?thesis using assms by_calls_deliver by (auto split: if_splits)
next
  case (DeliveryDue i)
  then show ?thesis using assms by_calls_deliver by simp
next
  case (Delivering i)
  then show ?thesis using assms by_calls_delivery(2) by auto
qed

section \<open>A submission begins an attempt\<close>

definition submissions :: "str \<Rightarrow> engine_event list \<Rightarrow> int" where
  "submissions i evs = int (length (filter (\<lambda>ev. case ev of Submitted j p \<Rightarrow> j = i | _ \<Rightarrow> False) evs))"

lemma submissions_simps [simp]:
  "submissions i [] = 0" "submissions i (evs @ evs') = submissions i evs + submissions i evs'"
  "submissions i [Submitted j p] = (if i = j then 1 else 0)" "submissions i [Delivered j t pid] = 0"
  by (simp_all add: submissions_def)

lemma advance_submissions:
  assumes "advance eng t answer now s dl = (new, s', dl', evs)" and "submissions i evs \<noteq> 0"
  obtains r where "t = Starting i" "mark_running i (en_owner eng) None now s = (Inr r, s')" "jr_stat r \<noteq> JrCancelled"
    "submissions i evs = 1"
proof (cases t)
  case (Starting j)
  then show ?thesis using assms that
    by (auto simp: begin_run_def split: prod.splits sum.splits option.splits if_splits)
qed (use assms in \<open>auto simp: deliver_stretch_def split: prod.splits sum.splits option.splits callback_answer.splits if_splits\<close>)

lemma marked_begins:
  assumes "mark_running i w pid now s = (Inr r, s')" and "jr_stat r \<noteq> JrCancelled"
  shows "begun s' i = begun s i + 1"
proof -
  obtain d where d: "mark_running_tx i w pid now (sdb s) = Inr (r, d)" "s' = s\<lparr>sdb := d\<rparr>"
    using assms(1) by (auto simp: mark_running_def sched_transaction_def split: sum.splits prod.splits if_splits)
  then obtain row where row: "find_job_run i (sdb s) = Some row" "jr_stat row = JrClaimed"
      "require_active_lease row w now = None"
    by (auto simp: mark_running_tx_def split: option.splits if_splits)
  have "jr_id row = i" "jr_owner row = Some w" using by_key_SomeD [OF row(1)] row(3) by (auto simp: require_active_lease_None)
  with d row assms(2) show ?thesis
    by (auto simp: mark_running_tx_def return_run_Inr Let_def table_simps begun_def begun_row_def split: if_splits)
qed

section \<open>Every act\<close>

lemma tick_by_calls: "by_calls env (es_store st) (es_store (scheduler_tick env eng uuids now st))"
proof (cases "recover_stale_runs now (es_store st)")
  case (Pair out s1)
  have s1: "by_calls env (es_store st) s1" using by_calls_ops(6) [of env "es_store st" now] Pair by simp
  have "by_calls env s1 (snd (claim_due_runs env uuids now (en_owner eng) (en_lease eng) (en_batch eng) c None s1))" for c
    by (rule by_calls_ops(7))
  note s2 = by_calls_trans [OF s1 this]
  show ?thesis using Pair s1 s2 [of "if es_first st then en_cap eng else None"]
    by (auto simp: scheduler_tick_def Let_def split: sum.splits prod.splits)
qed

lemma retry_by_calls: "by_calls env (es_store st) (es_store (scheduler_retry eng i now st))"
  using by_calls_ops(8) [of env "es_store st" i "en_owner eng" "en_lease eng" True now]
  by (auto simp: scheduler_retry_def split: sum.splits prod.splits)

lemma step_by_calls: "by_calls env (es_store st) (es_store (engine_step env eng a st))"
proof (cases a)
  case (TaskAct n answer now)
  then show ?thesis using advance_by_calls by (auto split: prod.splits)
qed (simp_all add: tick_by_calls retry_by_calls)

lemma tick_log [simp]: "es_log (scheduler_tick env eng uuids now st) = es_log st"
  by (auto simp: scheduler_tick_def Let_def split: sum.splits prod.splits)

lemma retry_log [simp]: "es_log (scheduler_retry eng i now st) = es_log st"
  by (auto simp: scheduler_retry_def split: sum.splits prod.splits)

lemma by_calls_ok: "by_calls env s t \<Longrightarrow> store_ok env s \<Longrightarrow> store_ok env t \<and> begun s i \<le> begun t i"
  unfolding by_calls_def using sched.run_ok run_begun by blast

lemma step_submissions:
  assumes "store_ok env (es_store st)"
  shows "submissions i (es_log (engine_step env eng a st)) - submissions i (es_log st)
    \<le> begun (es_store (engine_step env eng a st)) i - begun (es_store st) i"
proof (cases "es_log (engine_step env eng a st) = es_log st")
  case True
  then show ?thesis using by_calls_ok [OF step_by_calls assms, of eng a i] by simp
next
  case False
  then obtain n answer now where a: "a = TaskAct n answer now" "n < length (es_tasks st)"
    by (cases a) (auto split: if_splits)
  obtain new s' dl evs where adv: "advance eng (es_tasks st ! n) answer now (es_store st) (es_active st) = (new, s', dl, evs)"
    by (metis prod_cases4)
  have grown: "begun (es_store st) i \<le> begun s' i" using by_calls_ok [OF advance_by_calls [OF adv] assms] by simp
  have "submissions i evs \<le> begun s' i - begun (es_store st) i"
  proof (cases "submissions i evs = 0")
    case False
    with adv show ?thesis by (rule advance_submissions) (auto dest: marked_begins)
  qed (use grown in simp)
  then show ?thesis using a adv by simp
qed

lemma engine_run_submissions:
  "store_ok env (es_store st) \<Longrightarrow> submissions i (es_log st) \<le> begun (es_store st) i \<Longrightarrow>
   submissions i (es_log (engine_run env eng acts st)) \<le> begun (es_store (engine_run env eng acts st)) i"
proof (induction acts arbitrary: st)
  case (Cons a acts)
  have "store_ok env (es_store (engine_step env eng a st))" using by_calls_ok [OF step_by_calls Cons.prems(1)] by simp
  moreover have "submissions i (es_log (engine_step env eng a st)) \<le> begun (es_store (engine_step env eng a st)) i"
    using step_submissions [OF Cons.prems(1), of i eng a] Cons.prems(2) by simp
  ultimately show ?case using Cons.IH by simp
qed simp

definition run_attempts :: "sched_store \<Rightarrow> str \<Rightarrow> int" where
  "run_attempts s i = (case find_job_run i (sdb s) of None \<Rightarrow> 0 | Some r \<Rightarrow> jr_attempt r)"

lemma begun_attempts: "begun s i \<le> run_attempts s i"
  by (simp add: begun_def begun_row_def run_attempts_def split: option.splits)

text \<open>
  C7: the engine submits a run at most once per attempt of it: for every interleaving of ticks, retries, stretches and
  cancellations of tasks, restarts of the process and calls by other schedulers, the number of submissions of a run is at
  most the attempt that its row counts, so that a run that nobody retried is submitted once at most.
\<close>

theorem submitted_once_per_attempt:
  assumes "shuffle_ok env"
  shows "(let st = engine_run env eng acts (new_engine new_store) in
    submissions i (es_log st) \<le> run_attempts (es_store st) i)"
proof -
  have "submissions i (es_log (new_engine new_store)) \<le> begun (es_store (new_engine new_store)) i"
    by (simp add: new_engine_def begun_def new_store_def)
  from engine_run_submissions [OF _ this] new_store_ok [OF assms] begun_attempts order_trans show ?thesis
    unfolding Let_def by (metis engine_state.select_convs(1) new_engine_def)
qed

definition sample_engine :: engine where
  "sample_engine = \<lparr>en_owner = ''a'', en_lease = 30, en_batch = 5, en_cap = None, en_waits = False, en_delivers = True,
     en_store_text = (\<lambda>e. ''store'')\<rparr>"

definition sample_tick :: "instant \<Rightarrow> engine_act" where
  "sample_tick now = TickAct (\<lambda>n. CHR ''r'' # nat_digits n) now"

definition sample_engine_run :: "engine_act list \<Rightarrow> engine_state" where
  "sample_engine_run acts = engine_run sample_env sample_engine (StoreAct sample_job # acts) (new_engine new_store)"

definition sample_acts :: "engine_act list" where
  "sample_acts = [sample_tick 10, TaskAct 0 (Returned (SubText [])) 20]"

theorem submitted_once_per_attempt_witness:
  "submissions ''r0'' (es_log (sample_engine_run sample_acts)) = 1 \<and>
   (let st = sample_engine_run sample_acts in submissions ''r0'' (es_log st) \<le> run_attempts (es_store st) ''r0'')"
proof (rule conjI)
  show "submissions ''r0'' (es_log (sample_engine_run sample_acts)) = 1" by code_simp
  show "let st = sample_engine_run sample_acts in submissions ''r0'' (es_log st) \<le> run_attempts (es_store st) ''r0''"
    unfolding sample_engine_run_def by (rule submitted_once_per_attempt) simp
qed

section \<open>Deliveries in flight\<close>

fun delivery_of :: "task \<Rightarrow> str list" where
  "delivery_of (DeliveryDue i) = [i]"
| "delivery_of (Delivering i) = [i]"
| "delivery_of _ = []"

definition in_delivery :: "task list \<Rightarrow> str list" where
  "in_delivery ts = concat (map delivery_of ts)"

lemma in_delivery_simps [simp]:
  "in_delivery [] = []" "in_delivery (t # ts) = delivery_of t @ in_delivery ts"
  "in_delivery (ts @ us) = in_delivery ts @ in_delivery us"
  by (simp_all add: in_delivery_def)

lemma in_delivery_starting [simp]: "in_delivery (map (\<lambda>r. Starting (f r)) rs) = []"
  by (induction rs) auto

definition flights_ok :: "task list \<Rightarrow> str list \<Rightarrow> bool" where
  "flights_ok ts ongoing \<longleftrightarrow> distinct ongoing \<and> mset (in_delivery ts) = mset ongoing"

lemma replace_task_flights:
  assumes "n < length ts"
  shows "mset (in_delivery ts) = mset (in_delivery (replace_task n [] ts)) + mset (delivery_of (ts ! n))"
    and "mset (in_delivery (replace_task n new ts)) = mset (in_delivery (replace_task n [] ts)) + mset (in_delivery new)"
proof -
  have "in_delivery ts = in_delivery (take n ts @ ts ! n # drop (Suc n) ts)" using id_take_nth_drop [OF assms] by metis
  then show "mset (in_delivery ts) = mset (in_delivery (replace_task n [] ts)) + mset (delivery_of (ts ! n))"
    by (simp add: replace_task_def)
qed (simp add: replace_task_def)

lemma spawn_deliveries_flights:
  "spawn_deliveries is (ts, ongoing) = (ts', ongoing') \<Longrightarrow> flights_ok ts ongoing \<Longrightarrow> flights_ok ts' ongoing'"
  by (induction "is" "(ts, ongoing)" arbitrary: ts ongoing rule: spawn_deliveries.induct)
    (auto simp: flights_ok_def split: if_splits)

text \<open>What a stretch does to the deliveries: those that it starts enter, those that it ends leave.\<close>

lemma freed: "distinct ongoing \<Longrightarrow> i \<in> set ongoing \<Longrightarrow> add_mset i (mset (removeAll i ongoing)) = mset ongoing"
  by (simp flip: distinct_remove1_removeAll)

lemma deliver_flights:
  assumes "deliver_stretch eng i now s ongoing = (new, s', ongoing', evs)" and "distinct ongoing" and "i \<in> set ongoing"
  shows "distinct ongoing' \<and> add_mset i (mset ongoing') = mset ongoing + mset (in_delivery new)"
  using assms freed [OF assms(2,3)] by (auto simp: deliver_stretch_def distinct_removeAll split: prod.splits option.splits)

lemma advance_flights:
  assumes "advance eng t answer now s ongoing = (new, s', ongoing', evs)" and "distinct ongoing"
    and "set (delivery_of t) \<subseteq> set ongoing"
  shows "distinct ongoing' \<and> mset ongoing' + mset (delivery_of t) = mset ongoing + mset (in_delivery new)"
proof (cases t)
  case (Yielding i)
  then show ?thesis using assms deliver_flights [of eng i now s "i # ongoing" new s' ongoing' evs] by (auto split: if_splits)
next
  case (DeliveryDue i)
  then show ?thesis using assms deliver_flights [of eng i now s ongoing new s' ongoing' evs] by simp
next
  case (Delivering i)
  then show ?thesis using assms freed [OF assms(2), of i] by (auto simp: distinct_removeAll)
qed (use assms in \<open>auto split: prod.splits sum.splits option.splits callback_answer.splits if_splits\<close>)

lemma stop_flights:
  assumes "distinct ongoing" and "set (delivery_of t) \<subseteq> set ongoing"
  shows "distinct (free_delivery t ongoing) \<and> mset (free_delivery t ongoing) + mset (delivery_of t) = mset ongoing"
  using assms freed [OF assms(1)] by (cases t) (auto simp: distinct_removeAll)

lemma replace_flights:
  assumes "flights_ok ts ongoing" and "n < length ts" and "distinct ongoing'"
    and "mset ongoing' + mset (delivery_of (ts ! n)) = mset ongoing + mset (in_delivery new)"
  shows "flights_ok (replace_task n new ts) ongoing'"
proof -
  let ?R = "mset (in_delivery (replace_task n [] ts))" and ?D = "mset (delivery_of (ts ! n))" and ?N = "mset (in_delivery new)"
  have "mset ongoing = ?R + ?D" using assms(1) replace_task_flights(1) [OF assms(2)] unfolding flights_ok_def by metis
  with assms(4) have "mset ongoing' + ?D = (?R + ?N) + ?D" by (metis add.assoc add.commute)
  then have "mset ongoing' = ?R + ?N" by (rule add_right_imp_eq)
  with assms(3) replace_task_flights(2) [OF assms(2), of new] show ?thesis unfolding flights_ok_def by metis
qed

lemma flight_of_task:
  assumes "flights_ok ts ongoing" and "n < length ts"
  shows "set (delivery_of (ts ! n)) \<subseteq> set ongoing"
proof -
  have "set (delivery_of (ts ! n)) \<subseteq> set (in_delivery ts)" using nth_mem [OF assms(2)] by (auto simp: in_delivery_def)
  moreover have "set (in_delivery ts) = set ongoing" using assms(1) mset_eq_setD by (auto simp: flights_ok_def)
  ultimately show ?thesis by simp
qed

lemma tick_flights:
  assumes "flights_ok (es_tasks st) (es_active st)"
  shows "flights_ok (es_tasks (scheduler_tick env eng uuids now st)) (es_active (scheduler_tick env eng uuids now st))"
  using assms spawn_deliveries_flights
  by (auto simp: scheduler_tick_def Let_def flights_ok_def split: sum.splits prod.splits)

lemma step_flights:
  assumes "flights_ok (es_tasks st) (es_active st)"
  shows "flights_ok (es_tasks (engine_step env eng a st)) (es_active (engine_step env eng a st))"
proof (cases a)
  case (TaskAct n answer now)
  have "flights_ok (replace_task n new (es_tasks st)) ongoing'"
    if "n < length (es_tasks st)"
      and "advance eng (es_tasks st ! n) answer now (es_store st) (es_active st) = (new, s', ongoing', evs)" for new s' ongoing' evs
    using advance_flights [OF that(2)] replace_flights [OF assms that(1)] flight_of_task [OF assms that(1)] assms
    by (auto simp: flights_ok_def)
  with assms TaskAct show ?thesis by (auto split: prod.splits)
next
  case (StopAct n)
  then show ?thesis
    using assms stop_flights [of "es_active st" "es_tasks st ! n"] flight_of_task [OF assms, of n] replace_flights [OF assms, of n _ "[]"]
    by (auto simp: flights_ok_def)
next
  case (RetryAct i now)
  then show ?thesis using assms by (auto simp: scheduler_retry_def flights_ok_def split: sum.splits prod.splits)
qed (use assms tick_flights in \<open>simp_all add: flights_ok_def\<close>)

lemma run_flights: "flights_ok (es_tasks st) (es_active st) \<Longrightarrow>
  flights_ok (es_tasks (engine_run env eng acts st)) (es_active (engine_run env eng acts st))"
  by (induction acts arbitrary: st) (simp_all add: step_flights)

text \<open>
  C8: at every moment at most one task delivers the result of a run, whether the ticker or the execution of the run
  started it, and \<open>_active_deliveries\<close> holds exactly the runs whose delivery is under way, so that a finished or cancelled
  delivery never blocks the next.
\<close>

theorem one_delivery_in_flight:
  "(let st = engine_run env eng acts (new_engine s) in
    distinct (in_delivery (es_tasks st)) \<and> set (in_delivery (es_tasks st)) = set (es_active st))"
  using run_flights [of "new_engine s" env eng acts]
  by (auto simp: new_engine_def flights_ok_def Let_def dest: mset_eq_setD mset_eq_imp_distinct_iff)

section \<open>A task of an earlier attempt\<close>

text \<open>
  The run is claimed and submitted; its lease runs out while the callback works; the operator retries it, and the second
  attempt is submitted.  Then the first callback returns: the owner is the same, so that its task attaches its own run to
  the second attempt and completes it.
\<close>

definition late_return :: "engine_act list" where
  "late_return = sample_acts @
     [StoreAct (RecoverStale 40000000), RetryAct ''r0'' 40000010, TaskAct 1 (Returned (SubText [])) 40000020,
      TaskAct 0 (Returned (SubText ''first'')) 40000030, TaskAct 0 (Returned (SubText [])) 40000040]"

lemma late_attempt_settles_retry:
  "(case find_job_run ''r0'' (sdb (es_store (sample_engine_run late_return))) of
      None \<Rightarrow> False
    | Some r \<Rightarrow> jr_stat r = JrSucceeded \<and> jr_attempt r = 2 \<and> polaris_run r = Some ''first'') \<and>
   Submitting ''r0'' \<in> set (es_tasks (sample_engine_run late_return))"
  by code_simp

end
