(* ===== verification/Texts.thy ===== *)
theory Texts
  imports Codec
begin

text \<open>
  Texts as lists of Unicode code points, where the program measures, splits, scans or folds them:
  UTF-8, ASCII constants, the text searches of \<open>str\<close>, and the ASCII form of \<open>json.dumps\<close>.  The
  Unicode tables of the interpreter are the parameter \<open>unicode\<close>.
\<close>

type_synonym ustr = "nat list"

text \<open>\<open>str.encode()\<close>: UTF-8, which refuses lone surrogates.\<close>

definition surrogate :: "nat \<Rightarrow> bool" where
  "surrogate c \<longleftrightarrow> 55296 \<le> c \<and> c \<le> 57343"

definition utf8_char :: "nat \<Rightarrow> str" where
  "utf8_char c =
     (if c < 128 then [char_of c]
      else if c < 2048 then [char_of (192 + c div 64), char_of (128 + c mod 64)]
      else if c < 65536 then [char_of (224 + c div 4096), char_of (128 + c div 64 mod 64), char_of (128 + c mod 64)]
      else [char_of (240 + c div 262144), char_of (128 + c div 4096 mod 64), char_of (128 + c div 64 mod 64),
            char_of (128 + c mod 64)])"

definition utf8_encode :: "ustr \<Rightarrow> str" where
  "utf8_encode t = concat (map utf8_char t)"

text \<open>An ASCII constant of the source.\<close>

definition asc :: "str \<Rightarrow> ustr" where
  "asc s = map of_char s"

lemma asc_append [simp]: "asc (s @ t) = asc s @ asc t"
  by (simp add: asc_def)

lemma asc_Nil [simp]: "asc [] = []"
  by (simp add: asc_def)

lemma length_asc [simp]: "length (asc s) = length s"
  by (simp add: asc_def)

record unicode =
  uc_space :: "nat \<Rightarrow> bool"
  uc_word :: "nat \<Rightarrow> bool"
  uc_same :: "nat \<Rightarrow> nat \<Rightarrow> bool"
  uc_casefold :: "ustr \<Rightarrow> ustr"

text \<open>\<open>not text.strip()\<close>.\<close>

definition blank :: "unicode \<Rightarrow> ustr \<Rightarrow> bool" where
  "blank uc t \<longleftrightarrow> list_all (uc_space uc) t"

section \<open>Searching\<close>

fun prefix_of :: "'a list \<Rightarrow> 'a list \<Rightarrow> bool" where
  "prefix_of [] t = True"
| "prefix_of (c # p) [] = False"
| "prefix_of (c # p) (d # t) = (c = d \<and> prefix_of p t)"

lemma prefix_of_iff: "prefix_of p t \<longleftrightarrow> (\<exists>r. t = p @ r)"
  by (induction p t rule: prefix_of.induct) auto

text \<open>\<open>str.find\<close>: the index of the first occurrence.\<close>

fun find_at :: "'a list \<Rightarrow> 'a list \<Rightarrow> nat option" where
  "find_at p [] = (if p = [] then Some 0 else None)"
| "find_at p (d # t) = (if prefix_of p (d # t) then Some 0 else map_option Suc (find_at p t))"

definition contains :: "'a list \<Rightarrow> 'a list \<Rightarrow> bool" where
  "contains p t \<longleftrightarrow> find_at p t \<noteq> None"

lemma contains_iff: "contains p t \<longleftrightarrow> (\<exists>a r. t = a @ p @ r)"
proof (induction t)
  case (Cons d t)
  have "(\<exists>a r. d # t = a @ p @ r) \<longleftrightarrow> prefix_of p (d # t) \<or> (\<exists>a r. t = a @ p @ r)"
    by (auto simp: prefix_of_iff Cons_eq_append_conv)
  then show ?case using Cons.IH by (auto simp: contains_def)
qed (auto simp: contains_def)

text \<open>\<open>str.count\<close> and \<open>str.replace\<close>, from the left without overlap; the searched text is not empty.\<close>

function occurrences :: "'a list \<Rightarrow> 'a list \<Rightarrow> nat" where
  "occurrences p t =
     (if p = [] then length t + 1
      else if t = [] then 0
      else if prefix_of p t then 1 + occurrences p (drop (length p) t)
      else occurrences p (tl t))"
  by pat_completeness auto
termination by (relation "measure (\<lambda>(p, t). length t)") auto

declare occurrences.simps [simp del]

function replace_all :: "'a list \<Rightarrow> 'a list \<Rightarrow> 'a list \<Rightarrow> 'a list" where
  "replace_all p new t =
     (if p = [] \<or> t = [] then t
      else if prefix_of p t then new @ replace_all p new (drop (length p) t)
      else hd t # replace_all p new (tl t))"
  by pat_completeness auto
termination by (relation "measure (\<lambda>(p, new, t). length t)") auto

declare replace_all.simps [simp del]

section \<open>ASCII JSON\<close>

text \<open>\<open>json.dumps(..., ensure_ascii=True)\<close> of a text: one \<open>\u\<close> escape per UTF-16 unit outside the
  printable ASCII range.\<close>

definition hex4 :: "nat \<Rightarrow> ustr" where
  "hex4 n = map (\<lambda>k. of_char (hex_digit (n div 16 ^ k mod 16))) [3, 2, 1, 0]"

definition json_code :: "nat \<Rightarrow> ustr" where
  "json_code c =
     (if c = 34 then [92, 34] else if c = 92 then [92, 92]
      else if c = 10 then [92, 110] else if c = 13 then [92, 114] else if c = 9 then [92, 116]
      else if c = 12 then [92, 102] else if c = 8 then [92, 98]
      else if 32 \<le> c \<and> c \<le> 126 then [c]
      else if c \<le> 65535 then [92, 117] @ hex4 c
      else [92, 117] @ hex4 (55296 + (c - 65536) div 1024) @ [92, 117] @ hex4 (56320 + (c - 65536) mod 1024))"

definition json_text :: "ustr \<Rightarrow> ustr" where
  "json_text t = [34] @ concat (map json_code t) @ [34]"

definition json_text_or_null :: "ustr option \<Rightarrow> ustr" where
  "json_text_or_null x = (case x of None \<Rightarrow> asc ''null'' | Some t \<Rightarrow> json_text t)"

definition int_text :: "int \<Rightarrow> ustr" where
  "int_text i = asc (py_int_str i)"

text \<open>Such a text is printable ASCII: it has no line break.\<close>

definition printable :: "ustr \<Rightarrow> bool" where
  "printable t \<longleftrightarrow> list_all (\<lambda>c. 32 \<le> c \<and> c \<le> 126) t"

lemma printable_simps [simp]:
  "printable []" "printable (c # t) \<longleftrightarrow> 32 \<le> c \<and> c \<le> 126 \<and> printable t" "printable (s @ t) \<longleftrightarrow> printable s \<and> printable t"
  by (auto simp: printable_def)

lemma printable_no_break: "printable t \<Longrightarrow> 10 \<notin> set t"
  by (auto simp: printable_def list_all_iff)

lemma hex_digit_printable: "n < 16 \<Longrightarrow> 32 \<le> (of_char (hex_digit n) :: nat) \<and> (of_char (hex_digit n) :: nat) \<le> 126"
  by (auto simp: hex_digit_def)

lemma hex4_printable [simp]: "printable (hex4 n)"
  by (simp add: hex4_def hex_digit_printable)

lemma json_code_printable [simp]: "printable (json_code c)"
  by (simp add: json_code_def)

lemma json_text_printable [simp]: "printable (json_text t)"
  by (induction t) (simp_all add: json_text_def)

end
