(* ===== verification/ChannelModel.thy ===== *)
theory ChannelModel
  imports Texts
begin

text \<open>
  \<open>src/polaris/channels/models.py\<close> and \<open>auth.py\<close>: platforms, statuses, envelopes, outbound
  messages, and the deny-by-default authorization policy.

  Texts that only pass through are UTF-8 bytes; the text of an outbound message, which is measured
  and split, is a list of code points.
\<close>

section \<open>Enumerations\<close>

datatype platform = PfTelegram | PfSlack
datatype inbox_status = IbReceived | IbProcessing | IbCompleted | IbFailed
datatype outbox_status = ObPending | ObSending | ObSent | ObUnknown | ObFailed
datatype auth_decision = AuAllow | AuDeny | AuIgnored
datatype message_operation = OpSend | OpEdit | OpAnswer
datatype parse_mode = PmPlain | PmHtml

fun platform_value :: "platform \<Rightarrow> str" where
  "platform_value PfTelegram = ''telegram''"
| "platform_value PfSlack = ''slack''"

fun operation_value :: "message_operation \<Rightarrow> str" where
  "operation_value OpSend = ''send_message''"
| "operation_value OpEdit = ''edit_message''"
| "operation_value OpAnswer = ''answer_callback''"

fun parse_mode_value :: "parse_mode \<Rightarrow> str" where
  "parse_mode_value PmPlain = ''plain''"
| "parse_mode_value PmHtml = ''html''"

datatype channel_error = ChClosed | ChTransition | ChStoreError | ChValue | ChIntegrity

section \<open>Envelopes and messages\<close>

record channel_envelope =
  ev_platform :: platform
  ev_event :: str
  ev_type :: str
  ev_user :: str
  ev_channel :: str
  ev_thread :: str
  ev_downstream :: str
  ev_text :: "str option"
  ev_message :: "str option"
  ev_callback :: "str option"
  ev_callback_data :: "str option"
  ev_action :: str
  ev_received :: "str option"
  ev_metadata :: "(str \<times> json) list"

record outbound_message =
  om_platform :: platform
  om_key :: str
  om_channel :: str
  om_thread :: str
  om_text :: ustr
  om_operation :: message_operation
  om_parse :: parse_mode
  om_message :: "str option"
  om_callback :: "str option"
  om_silent :: bool
  om_chunk :: int
  om_chunks :: int
  om_metadata :: "(str \<times> json) list"

record remote_receipt =
  rr_platform :: platform
  rr_key :: str
  rr_message :: "str option"
  rr_channel :: str
  rr_operation :: message_operation
  rr_messages :: "str list"

text \<open>\<open>dataclasses.asdict\<close>, as \<open>_canonical_json\<close> sees it.\<close>

definition message_json :: "outbound_message \<Rightarrow> json" where
  "message_json m = JObj
     [(''platform'', JStr (platform_value (om_platform m))), (''idempotency_key'', JStr (om_key m)),
      (''channel_id'', JStr (om_channel m)), (''thread_key'', JStr (om_thread m)),
      (''text'', JStr (utf8_encode (om_text m))), (''operation'', JStr (operation_value (om_operation m))),
      (''parse_mode'', JStr (parse_mode_value (om_parse m))), (''message_id'', jopt (om_message m)),
      (''callback_query_id'', jopt (om_callback m)), (''disable_notification'', JBool (om_silent m)),
      (''chunk_index'', JInt (om_chunk m)), (''chunk_count'', JInt (om_chunks m)),
      (''metadata'', JObj (om_metadata m))]"

definition content_json :: "outbound_message \<Rightarrow> json" where
  "content_json m = JObj
     [(''platform'', JStr (platform_value (om_platform m))), (''channel_id'', JStr (om_channel m)),
      (''operation'', JStr (operation_value (om_operation m))), (''text'', JStr (utf8_encode (om_text m))),
      (''parse_mode'', JStr (parse_mode_value (om_parse m))), (''chunk_index'', JInt (om_chunk m))]"

section \<open>Authorization\<close>

record auth_policy =
  au_users :: "str set"
  au_channels :: "str set"
  au_actions :: "str set"
  au_platform_users :: "(platform \<times> str set) list"
  au_platform_channels :: "(platform \<times> str set) list"

text \<open>\<open>dict.get(key, default)\<close>.\<close>

definition get_default :: "('k \<times> 'v) list \<Rightarrow> 'k \<Rightarrow> 'v \<Rightarrow> 'v" where
  "get_default kvs k v = (case map_of kvs k of None \<Rightarrow> v | Some x \<Rightarrow> x)"

definition policy_evaluate :: "auth_policy \<Rightarrow> platform \<Rightarrow> str \<Rightarrow> str \<Rightarrow> str \<Rightarrow> auth_decision \<times> str" where
  "policy_evaluate p pf user channel action =
     (let users = get_default (au_platform_users p) pf (au_users p);
          channels = get_default (au_platform_channels p) pf (au_channels p)
      in if users = {} then (AuDeny, ''no users are authorized'')
         else if user \<notin> users then (AuDeny, ''user is not authorized'')
         else if channels = {} then (AuDeny, ''no channels are authorized'')
         else if channel \<notin> channels then (AuDeny, ''channel is not authorized'')
         else if au_actions p = {} then (AuDeny, ''no actions are authorized'')
         else if action \<notin> au_actions p then (AuDeny, ''action is not authorized'')
         else (AuAllow, ''authorized''))"

definition policy_authorize :: "auth_policy \<Rightarrow> platform \<Rightarrow> str \<Rightarrow> str \<Rightarrow> str \<Rightarrow> auth_decision" where
  "policy_authorize p pf user channel action = fst (policy_evaluate p pf user channel action)"

text \<open>The policy allows exactly a listed user in a listed channel with a listed action.\<close>

lemma policy_allows_iff:
  "policy_authorize p pf user channel action = AuAllow \<longleftrightarrow>
     user \<in> get_default (au_platform_users p) pf (au_users p) \<and>
     channel \<in> get_default (au_platform_channels p) pf (au_channels p) \<and> action \<in> au_actions p"
  by (auto simp: policy_authorize_def policy_evaluate_def Let_def)

lemma policy_never_ignores: "policy_authorize p pf user channel action \<noteq> AuIgnored"
  by (simp add: policy_authorize_def policy_evaluate_def Let_def)

section \<open>Telegram updates\<close>

text \<open>
  \<open>normalize_telegram_update\<close> of \<open>telegram.py\<close>.  A mapping is the member list of a JSON object.
\<close>

record normalized =
  nz_envelope :: "channel_envelope option"
  nz_decision :: auth_decision
  nz_reason :: str
  nz_type :: str
  nz_action :: str
  nz_user :: "str option"
  nz_channel :: "str option"

definition ignored_update :: "str \<Rightarrow> str \<Rightarrow> normalized" where
  "ignored_update type reason = \<lparr>nz_envelope = None, nz_decision = AuIgnored, nz_reason = reason,
     nz_type = type, nz_action = ''ignored'', nz_user = None, nz_channel = None\<rparr>"

text \<open>The part common to messages and callbacks: identities, policy, envelope.\<close>

definition normalize_identified ::
  "text_env \<Rightarrow> auth_policy \<Rightarrow> int \<Rightarrow> str \<Rightarrow> (str \<times> json) list \<Rightarrow> (str \<times> json) list \<Rightarrow> str \<Rightarrow> str \<Rightarrow>
   str option \<Rightarrow> str option \<Rightarrow> str option \<Rightarrow> str option \<Rightarrow> normalized" where
  "normalize_identified te policy update_id received sender chat type action txt message callback cdata =
     (if jget sender ''id'' = JNull \<or> jget chat ''id'' = JNull
      then ignored_update type ''user or chat identity is missing''
      else (let user = py_str te (jget sender ''id'');
                channel = py_str te (jget chat ''id'');
                (decision, reason) = policy_evaluate policy PfTelegram user channel action
            in \<lparr>nz_envelope = Some \<lparr>ev_platform = PfTelegram, ev_event = py_int_str update_id, ev_type = type,
                   ev_user = user, ev_channel = channel, ev_thread = ''telegram:'' @ channel,
                   ev_downstream = ''telegram:update:'' @ py_int_str update_id, ev_text = txt,
                   ev_message = message, ev_callback = callback, ev_callback_data = cdata,
                   ev_action = action, ev_received = Some received, ev_metadata = []\<rparr>,
                nz_decision = decision, nz_reason = reason, nz_type = type, nz_action = action,
                nz_user = Some user, nz_channel = Some channel\<rparr>))"

definition optional_id :: "text_env \<Rightarrow> (str \<times> json) list \<Rightarrow> str \<Rightarrow> str option" where
  "optional_id te kvs k = (if jhas kvs k then Some (py_str te (jget kvs k)) else None)"

definition normalize_message ::
  "text_env \<Rightarrow> auth_policy \<Rightarrow> int \<Rightarrow> str \<Rightarrow> (str \<times> json) list \<Rightarrow> normalized" where
  "normalize_message te policy update_id received msg =
     (if py_truthy (jget msg ''is_topic_message'') \<or> jhas msg ''message_thread_id''
      then ignored_update ''message'' ''forum topics are not supported''
      else case jget msg ''text'' of
        JStr txt \<Rightarrow>
          (case (jget msg ''from'', jget msg ''chat'') of
             (JObj sender, JObj chat) \<Rightarrow>
               normalize_identified te policy update_id received sender chat ''message''
                 (if take 1 txt = ''/'' then ''command'' else ''message'') (Some txt)
                 (optional_id te msg ''message_id'') None None
           | _ \<Rightarrow> ignored_update ''message'' ''message identity is missing'')
      | _ \<Rightarrow> ignored_update ''message'' ''only text messages are supported'')"

definition normalize_callback ::
  "text_env \<Rightarrow> auth_policy \<Rightarrow> int \<Rightarrow> str \<Rightarrow> (str \<times> json) list \<Rightarrow> normalized" where
  "normalize_callback te policy update_id received cb =
     (case (jget cb ''message'', jget cb ''from'') of
        (JObj msg, JObj sender) \<Rightarrow>
          (if py_truthy (jget msg ''is_topic_message'') \<or> jhas msg ''message_thread_id''
           then ignored_update ''callback_query'' ''forum topics are not supported''
           else case (jget msg ''chat'', jget cb ''data'') of
             (JObj chat, JStr cdata) \<Rightarrow>
               normalize_identified te policy update_id received sender chat ''callback_query'' ''callback'' None
                 (optional_id te msg ''message_id'') (optional_id te cb ''id'') (Some cdata)
           | _ \<Rightarrow> ignored_update ''callback_query'' ''callback data or chat identity is missing'')
      | _ \<Rightarrow> ignored_update ''callback_query'' ''inline callbacks are not supported'')"

definition normalize_telegram ::
  "text_env \<Rightarrow> auth_policy \<Rightarrow> str \<Rightarrow> (str \<times> json) list \<Rightarrow> channel_error + normalized" where
  "normalize_telegram te policy received upd =
     (case jget upd ''update_id'' of
        JInt update_id \<Rightarrow>
          Inr (case jget upd ''message'' of
             JObj msg \<Rightarrow> normalize_message te policy update_id received msg
           | _ \<Rightarrow> (case jget upd ''callback_query'' of
                 JObj cb \<Rightarrow> normalize_callback te policy update_id received cb
               | _ \<Rightarrow> ignored_update ''unsupported'' ''update type is not supported''))
      | _ \<Rightarrow> Inl ChValue)"

text \<open>
  The envelope of an allowed update names exactly the user, channel and action that the policy
  allowed.
\<close>

definition policy_backs :: "auth_policy \<Rightarrow> normalized \<Rightarrow> bool" where
  "policy_backs policy nz \<longleftrightarrow> nz_decision nz = AuAllow \<longrightarrow> (\<exists>e. nz_envelope nz = Some e \<and> ev_platform e = PfTelegram \<and>
    policy_authorize policy PfTelegram (ev_user e) (ev_channel e) (ev_action e) = AuAllow)"

lemma ignored_backed [simp]: "policy_backs policy (ignored_update ty r)"
  by (simp add: policy_backs_def ignored_update_def)

lemma identified_backed [simp]:
  "policy_backs policy (normalize_identified te policy i received sender chat ty action tt m cb cc)"
proof (cases "jget sender ''id'' = JNull \<or> jget chat ''id'' = JNull")
  case False
  then show ?thesis
    by (cases "policy_evaluate policy PfTelegram (py_str te (jget sender ''id'')) (py_str te (jget chat ''id'')) action")
      (simp add: normalize_identified_def policy_backs_def policy_authorize_def Let_def)
qed (simp add: normalize_identified_def)

lemma message_backed [simp]: "policy_backs policy (normalize_message te policy i received msg)"
  unfolding normalize_message_def by (simp split: json.split)

lemma callback_backed [simp]: "policy_backs policy (normalize_callback te policy i received cb)"
  unfolding normalize_callback_def by (simp split: json.split)

lemma normalize_allowed:
  "normalize_telegram te policy received upd = Inr nz \<Longrightarrow> policy_backs policy nz"
  unfolding normalize_telegram_def by (auto split: json.splits)

end
