(* ===== verification/ChannelFormatting.thy ===== *)
theory ChannelFormatting
  imports ChannelModel
begin

text \<open>
  \<open>src/polaris/channels/formatting.py\<close>: the length of a text in UTF-16 units, HTML escaping, the
  splitting of a text into chunks at readable boundaries, and the chunks of an outbound message.
  The lemmas show that no chunk exceeds the limit, that the chunks spell the text, and that the
  splitting ends for every limit of at least two units.
\<close>

section \<open>Definitions\<close>

definition cp_units :: "nat \<Rightarrow> nat" where
  "cp_units c = (if c > 65535 then 2 else 1)"

definition units :: "ustr \<Rightarrow> nat" where
  "units t = sum_list (map cp_units t)"

text \<open>\<open>utf16_units\<close>: encoding refuses lone surrogates.\<close>

definition utf16_units :: "ustr \<Rightarrow> channel_error + nat" where
  "utf16_units t = (if list_ex surrogate t then Inl ChValue else Inr (units t))"

text \<open>\<open>html.escape(value, quote=False)\<close>.\<close>

definition escape_code :: "nat \<Rightarrow> ustr" where
  "escape_code c =
     (if c = 38 then [38, 97, 109, 112, 59] else if c = 60 then [38, 108, 116, 59]
      else if c = 62 then [38, 103, 116, 59] else [c])"

definition safe_html :: "ustr \<Rightarrow> ustr" where
  "safe_html t = concat (map escape_code t)"

text \<open>The loop of \<open>_take_units\<close>; \<open>i\<close> is the index of the next character.\<close>

fun take_scan :: "nat \<Rightarrow> ustr \<Rightarrow> nat \<Rightarrow> nat \<Rightarrow> nat \<Rightarrow> nat \<Rightarrow> nat \<times> nat" where
  "take_scan limit [] used i last_break stop = (stop, last_break)"
| "take_scan limit (c # cs) used i last_break stop =
     (if limit < used + cp_units c then (stop, last_break)
      else take_scan limit cs (used + cp_units c) (i + 1)
             (if c \<in> {10, 32, 9} then i + 1 else last_break) (i + 1))"

definition take_units :: "ustr \<Rightarrow> nat \<Rightarrow> ustr \<times> ustr" where
  "take_units t limit =
     (let (stop, last_break) = take_scan limit t 0 0 0 0 in
      if stop = length t then (t, [])
      else (let cut = (if last_break \<noteq> 0 \<and> stop div 2 \<le> last_break then last_break else stop)
            in (take cut t, drop cut t)))"

lemma take_units_append: "take_units t limit = (chunk, rest) \<Longrightarrow> chunk @ rest = t"
  by (auto simp: take_units_def Let_def split: prod.splits if_splits)

function chunk_loop :: "nat \<Rightarrow> ustr \<Rightarrow> channel_error + ustr list" where
  "chunk_loop limit remaining =
     (if remaining = [] then Inr []
      else (let (chunk, rest) = take_units remaining limit in
            if chunk = [] then Inl ChValue
            else case chunk_loop limit rest of Inl e \<Rightarrow> Inl e | Inr cs \<Rightarrow> Inr (chunk # cs)))"
  by pat_completeness auto

termination
proof (relation "measure (\<lambda>(limit, remaining). length remaining)")
  fix limit :: nat and remaining p :: "nat list \<times> nat list" and r chunk rest
  show "wf (measure (\<lambda>(limit, remaining). length remaining))" by simp
next
  fix limit remaining p chunk rest
  assume "remaining \<noteq> []" "p = take_units remaining limit" "(chunk, rest) = p" "chunk \<noteq> []"
  then have "chunk @ rest = remaining" "chunk \<noteq> []" using take_units_append [of remaining limit chunk rest] by simp_all
  then show "((limit, rest), limit, remaining) \<in> measure (\<lambda>(limit, remaining). length remaining)" by auto
qed

declare chunk_loop.simps [simp del]

text \<open>\<open>str.count\<close> of the three backquotes, without overlap.\<close>

fun count_fences :: "ustr \<Rightarrow> nat" where
  "count_fences (a # b # c # t) =
     (if a = 96 \<and> b = 96 \<and> c = 96 then count_fences t + 1 else count_fences (b # c # t))"
| "count_fences t = 0"

definition fence_open :: ustr where "fence_open = [96, 96, 96, 10]"
definition fence_close :: ustr where "fence_close = [10, 96, 96, 96]"

text \<open>
  The loop of \<open>_preserve_code_fences\<close>; \<open>None\<close> is the return of the unchanged chunks.  A fence is
  added when it is needed and the longer text stays within the limit.
\<close>

definition add_within :: "nat \<Rightarrow> bool \<Rightarrow> ustr \<Rightarrow> ustr \<Rightarrow> channel_error + ustr option" where
  "add_within limit needed longer t =
     (if needed
      then case utf16_units longer of Inl e \<Rightarrow> Inl e | Inr n \<Rightarrow> Inr (if n \<le> limit then Some longer else None)
      else Inr (Some t))"

fun fence_loop :: "nat \<Rightarrow> bool \<Rightarrow> ustr list \<Rightarrow> channel_error + ustr list option" where
  "fence_loop limit in_fence [] = Inr (Some [])"
| "fence_loop limit in_fence (original # rest) =
     (case add_within limit in_fence (fence_open @ original) original of
        Inl e \<Rightarrow> Inl e
      | Inr None \<Rightarrow> Inr None
      | Inr (Some chunk) \<Rightarrow>
          (let still = (in_fence \<noteq> odd (count_fences original)) in
           case add_within limit (still \<and> rest \<noteq> []) (chunk @ fence_close) chunk of
             Inl e \<Rightarrow> Inl e
           | Inr None \<Rightarrow> Inr None
           | Inr (Some ended) \<Rightarrow>
               (case fence_loop limit still rest of
                  Inl e \<Rightarrow> Inl e | Inr None \<Rightarrow> Inr None | Inr (Some cs) \<Rightarrow> Inr (Some (ended # cs)))))"

definition preserve_fences :: "ustr list \<Rightarrow> nat \<Rightarrow> channel_error + ustr list" where
  "preserve_fences chunks limit =
     (if length chunks < 2 \<or> count_fences (concat chunks) = 0 then Inr chunks
      else case fence_loop limit False chunks of
        Inl e \<Rightarrow> Inl e | Inr None \<Rightarrow> Inr chunks | Inr (Some cs) \<Rightarrow> Inr cs)"

definition chunk_text :: "ustr \<Rightarrow> int \<Rightarrow> channel_error + ustr list" where
  "chunk_text t limit =
     (if limit < 1 then Inl ChValue
      else if t = [] then Inr [[]]
      else case chunk_loop (nat limit) t of Inl e \<Rightarrow> Inl e | Inr cs \<Rightarrow> preserve_fences cs (nat limit))"

definition chunk_outbound :: "outbound_message \<Rightarrow> int \<Rightarrow> channel_error + outbound_message list" where
  "chunk_outbound m limit =
     (case chunk_text (om_text m) limit of
        Inl e \<Rightarrow> Inl e
      | Inr chunks \<Rightarrow>
          Inr (if length chunks = 1 then [m]
               else map (\<lambda>(i, t). m\<lparr>om_key := om_key m @ '':chunk:'' @ py_int_str (int i), om_text := t,
                          om_chunk := int i, om_chunks := int (length chunks)\<rparr>) (enumerate 0 chunks)))"

section \<open>Lengths\<close>

lemma units_simps [simp]:
  "units [] = 0" "units (c # t) = cp_units c + units t" "units (s @ t) = units s + units t"
  by (simp_all add: units_def)

lemma cp_units_bounds: "1 \<le> cp_units c \<and> cp_units c \<le> 2"
  by (simp add: cp_units_def)

lemma units_take_mono: "m \<le> n \<Longrightarrow> units (take m t) \<le> units (take n t)"
proof -
  assume "m \<le> n"
  then have "take n t = take m t @ take (n - m) (drop m t)" by (metis le_add_diff_inverse take_add)
  then show ?thesis by simp
qed

section \<open>Splitting\<close>

lemma take_scan_spec:
  "take_scan limit cs used i last_break i = (stop, lb) \<Longrightarrow> used \<le> limit \<Longrightarrow> last_break \<le> i \<Longrightarrow>
   i \<le> stop \<and> stop \<le> i + length cs \<and> lb \<le> stop \<and> used + units (take (stop - i) cs) \<le> limit \<and>
   (cs \<noteq> [] \<and> used + 2 \<le> limit \<longrightarrow> i < stop)"
proof (induction cs arbitrary: used i last_break)
  case (Cons c cs)
  show ?case
  proof (cases "limit < used + cp_units c")
    case True
    then show ?thesis using Cons.prems cp_units_bounds [of c] by auto
  next
    case False
    let ?lb = "if c \<in> {10, 32, 9} then i + 1 else last_break"
    have "take_scan limit cs (used + cp_units c) (i + 1) ?lb (i + 1) = (stop, lb)" "?lb \<le> i + 1"
      using Cons.prems(1,3) False by auto
    from Cons.IH [OF this(1) _ this(2)] False
    have IH: "i + 1 \<le> stop" "stop \<le> i + 1 + length cs" "lb \<le> stop"
        "used + cp_units c + units (take (stop - (i + 1)) cs) \<le> limit" by simp_all
    have "stop - i = Suc (stop - (i + 1))" using IH(1) by simp
    then show ?thesis using IH by simp
  qed
qed simp

lemma take_units_spec:
  assumes "take_units t limit = (chunk, rest)"
  shows "units chunk \<le> limit \<and> (t \<noteq> [] \<and> 2 \<le> limit \<longrightarrow> chunk \<noteq> [])"
proof -
  obtain stop lb where s: "take_scan limit t 0 0 0 0 = (stop, lb)" by (cases "take_scan limit t 0 0 0 0")
  then have spec: "stop \<le> length t" "lb \<le> stop" "units (take stop t) \<le> limit" "t \<noteq> [] \<and> 2 \<le> limit \<longrightarrow> 0 < stop"
    using take_scan_spec [OF s] by simp_all
  define cut where "cut = (if stop \<noteq> length t \<and> lb \<noteq> 0 \<and> stop div 2 \<le> lb then lb else stop)"
  have "chunk = take cut t"
    using assms s by (auto simp: take_units_def cut_def split: if_splits)
  moreover have cut: "cut \<le> stop" "t \<noteq> [] \<and> 2 \<le> limit \<longrightarrow> 0 < cut" using spec by (auto simp: cut_def)
  moreover have "units (take cut t) \<le> limit" using units_take_mono [OF cut(1), of t] spec(3) by simp
  ultimately show ?thesis by auto
qed

lemma chunk_loop_spec:
  "chunk_loop limit t = Inr cs \<Longrightarrow> concat cs = t \<and> (\<forall>c \<in> set cs. units c \<le> limit \<and> c \<noteq> [])"
proof (induction limit t arbitrary: cs rule: chunk_loop.induct)
  case (1 limit t)
  show ?case
  proof (cases "t = []")
    case False
    obtain chunk rest where c: "take_units t limit = (chunk, rest)" by (cases "take_units t limit")
    have ne: "chunk \<noteq> []" and "\<exists>ds. chunk_loop limit rest = Inr ds \<and> cs = chunk # ds"
      using 1(2) False c by (simp_all add: chunk_loop.simps [of limit t] split: if_splits sum.splits)
    then obtain ds where ds: "chunk_loop limit rest = Inr ds" "cs = chunk # ds" by blast
    have "concat ds = rest \<and> (\<forall>c \<in> set ds. units c \<le> limit \<and> c \<noteq> [])"
      using 1(1) [OF False c [symmetric] refl ne ds(1)] .
    then show ?thesis using ds(2) ne take_units_append [OF c] take_units_spec [OF c] by auto
  qed (use 1(2) in \<open>simp add: chunk_loop.simps\<close>)
qed

lemma chunk_loop_total: "2 \<le> limit \<Longrightarrow> \<exists>cs. chunk_loop limit t = Inr cs"
proof (induction limit t rule: chunk_loop.induct)
  case (1 limit t)
  show ?case
  proof (cases "t = []")
    case False
    obtain chunk rest where c: "take_units t limit = (chunk, rest)" by (cases "take_units t limit")
    have ne: "chunk \<noteq> []" using take_units_spec [OF c] False 1(2) by blast
    obtain ds where "chunk_loop limit rest = Inr ds" using 1(1) [OF False c [symmetric] refl ne 1(2)] by blast
    then show ?thesis using False c ne by (simp add: chunk_loop.simps [of limit t])
  qed (simp add: chunk_loop.simps)
qed

section \<open>Fences\<close>

definition fenced :: "ustr \<Rightarrow> ustr \<Rightarrow> bool" where
  "fenced original c \<longleftrightarrow>
     c \<in> {original, fence_open @ original, original @ fence_close, fence_open @ original @ fence_close}"

lemma utf16_units_Inr: "utf16_units t = Inr n \<Longrightarrow> n = units t"
  by (simp add: utf16_units_def split: if_splits)

lemma add_within_Some:
  "add_within limit needed longer t = Inr (Some r) \<Longrightarrow> units t \<le> limit \<Longrightarrow>
   r = (if needed then longer else t) \<and> units r \<le> limit"
  by (auto simp: add_within_def split: if_splits sum.splits dest: utf16_units_Inr)

lemma fence_loop_ConsE:
  assumes "fence_loop limit in_fence (original # rest) = Inr (Some cs)"
  obtains chunk ended ds where "add_within limit in_fence (fence_open @ original) original = Inr (Some chunk)"
    "add_within limit ((in_fence \<noteq> odd (count_fences original)) \<and> rest \<noteq> []) (chunk @ fence_close) chunk = Inr (Some ended)"
    "fence_loop limit (in_fence \<noteq> odd (count_fences original)) rest = Inr (Some ds)" "cs = ended # ds"
  using assms by (auto simp: Let_def split: sum.splits option.splits)

lemma fence_loop_spec:
  "fence_loop limit in_fence chunks = Inr (Some cs) \<Longrightarrow> (\<forall>c \<in> set chunks. units c \<le> limit) \<Longrightarrow>
   list_all2 fenced chunks cs \<and> (\<forall>c \<in> set cs. units c \<le> limit)"
proof (induction chunks arbitrary: in_fence cs)
  case (Cons original rest)
  from Cons.prems(1) obtain chunk ended ds where
    c: "add_within limit in_fence (fence_open @ original) original = Inr (Some chunk)"
    and e: "add_within limit ((in_fence \<noteq> odd (count_fences original)) \<and> rest \<noteq> []) (chunk @ fence_close) chunk = Inr (Some ended)"
    and d: "fence_loop limit (in_fence \<noteq> odd (count_fences original)) rest = Inr (Some ds)" "cs = ended # ds"
    by (rule fence_loop_ConsE)
  have "units original \<le> limit" using Cons.prems(2) by simp
  note c' = add_within_Some [OF c this]
  note e' = add_within_Some [OF e conjunct2 [OF c']]
  have "fenced original ended" using c' e' by (auto simp: fenced_def)
  moreover have "list_all2 fenced rest ds \<and> (\<forall>c \<in> set ds. units c \<le> limit)"
    using Cons.IH [OF d(1)] Cons.prems(2) by simp
  ultimately show ?case unfolding d(2) using conjunct2 [OF e'] by simp
qed simp

lemma preserve_fences_spec:
  assumes "preserve_fences chunks limit = Inr cs" and "\<forall>c \<in> set chunks. units c \<le> limit"
  shows "list_all2 fenced chunks cs \<and> (\<forall>c \<in> set cs. units c \<le> limit) \<and> (count_fences (concat chunks) = 0 \<longrightarrow> cs = chunks)"
proof -
  have "list_all2 fenced chunks chunks" by (simp add: list.rel_refl fenced_def)
  then show ?thesis using assms fence_loop_spec [of limit False chunks]
    by (auto simp: preserve_fences_def split: if_splits sum.splits option.splits)
qed

lemma add_within_total:
  "\<not> list_ex surrogate longer \<Longrightarrow> \<exists>r. add_within limit needed longer t = Inr r \<and> r \<in> {None, Some longer, Some t}"
  by (simp add: add_within_def utf16_units_def)

lemma fence_texts [simp]: "\<not> list_ex surrogate fence_open" "\<not> list_ex surrogate fence_close"
  by (simp_all add: fence_open_def fence_close_def surrogate_def)

lemma fence_loop_total:
  "\<forall>c \<in> set chunks. \<not> list_ex surrogate c \<Longrightarrow> \<exists>r. fence_loop limit in_fence chunks = Inr r"
proof (induction chunks arbitrary: in_fence)
  case (Cons original rest)
  have o: "\<not> list_ex surrogate original" using Cons.prems by simp
  then have "\<not> list_ex surrogate (fence_open @ original)" by simp
  then obtain r where r: "add_within limit in_fence (fence_open @ original) original = Inr r"
      "r \<in> {None, Some (fence_open @ original), Some original}"
    using add_within_total by blast
  show ?case
  proof (cases r)
    case (Some chunk)
    let ?still = "in_fence \<noteq> odd (count_fences original)"
    have "\<not> list_ex surrogate (chunk @ fence_close)" using o r(2) Some by auto
    then obtain q where q: "add_within limit (?still \<and> rest \<noteq> []) (chunk @ fence_close) chunk = Inr q"
      using add_within_total by blast
    obtain ds where "fence_loop limit ?still rest = Inr ds" using Cons.IH Cons.prems by auto
    then show ?thesis using r(1) Some q by (simp add: Let_def split: option.split)
  qed (use r in simp)
qed simp

section \<open>The properties\<close>

text \<open>
  C23: no chunk of a text exceeds the limit in UTF-16 units, and the chunks spell the text: each is
  a piece of it, in order and without a gap, with at most a code fence reopened before and closed
  after it; a text without a code fence is returned unchanged by joining its chunks.
\<close>

theorem chunk_text_spells:
  assumes "chunk_text t limit = Inr cs"
  shows "(\<forall>c \<in> set cs. int (units c) \<le> limit) \<and> cs \<noteq> [] \<and>
    (\<exists>pieces. concat pieces = t \<and> list_all2 fenced pieces cs) \<and> (count_fences t = 0 \<longrightarrow> concat cs = t)"
proof (cases "t = []")
  case True
  then have "cs = [[]]" "1 \<le> limit" using assms by (auto simp: chunk_text_def split: if_splits)
  moreover have "list_all2 fenced [[]] [[]]" by (simp add: fenced_def)
  ultimately show ?thesis using True by (auto intro: exI [of _ "[[]]"])
next
  case False
  obtain pieces where p: "chunk_loop (nat limit) t = Inr pieces" "preserve_fences pieces (nat limit) = Inr cs" "1 \<le> limit"
    using assms False by (auto simp: chunk_text_def split: if_splits sum.splits)
  have spell: "concat pieces = t" "\<forall>c \<in> set pieces. units c \<le> nat limit" using chunk_loop_spec [OF p(1)] by auto
  note spec = preserve_fences_spec [OF p(2) spell(2)]
  have "pieces \<noteq> []" using spell(1) False by auto
  moreover have "length cs = length pieces" using list_all2_lengthD [of fenced pieces cs] spec by simp
  ultimately have ne: "cs \<noteq> []" by auto
  have le: "int (units c) \<le> limit" if "c \<in> set cs" for c
  proof -
    have "units c \<le> nat limit" using spec that by simp
    then show ?thesis using p(3) by linarith
  qed
  have "count_fences t = 0 \<longrightarrow> concat cs = t" using spec spell(1) by simp
  moreover have "\<exists>pieces. concat pieces = t \<and> list_all2 fenced pieces cs"
    using spec spell(1) by (intro exI [of _ pieces]) simp
  ultimately show ?thesis using ne le by simp
qed

theorem chunk_text_spells_witness:
  "chunk_text [97, 97, 32, 97, 97, 128512] 4 = Inr [[97, 97, 32], [97, 97, 128512]] \<and>
   concat [[97, 97, 32], [97, 97, 128512]] = [97, 97, 32, 97, 97, 128512 :: nat]"
proof -
  have c: "chunk_text [97, 97, 32, 97, 97, 128512] 4 = Inr [[97, 97, 32], [97, 97, 128512]]"
    by (simp add: chunk_text_def chunk_loop.simps take_units_def cp_units_def preserve_fences_def)
  have "count_fences [97, 97, 32, 97, 97, 128512] = 0" by simp
  with chunk_text_spells [OF c] c show ?thesis by blast
qed

text \<open>
  C24: with a limit of at least two units, the splitting of every text that can be encoded comes to
  an end with a result.
\<close>

theorem chunk_text_total:
  assumes "2 \<le> limit" and "\<not> list_ex surrogate t"
  shows "\<exists>cs. chunk_text t limit = Inr cs"
proof -
  have "2 \<le> nat limit" using assms(1) by simp
  then obtain pieces where p: "chunk_loop (nat limit) t = Inr pieces" using chunk_loop_total by blast
  have "\<forall>c \<in> set pieces. \<not> list_ex surrogate c"
    using chunk_loop_spec [OF p] assms(2) by (auto simp: list_ex_iff)
  then obtain r where "fence_loop (nat limit) False pieces = Inr r" using fence_loop_total by blast
  then show ?thesis using assms(1) p by (auto simp: chunk_text_def preserve_fences_def split: option.split)
qed

theorem chunk_text_total_witness: "\<exists>cs. chunk_text [128512, 96, 96, 96] 2 = Inr cs"
  by (rule chunk_text_total) (simp_all add: surrogate_def)

text \<open>The chunks of a message have keys of their own, and differ from it only in text and position.\<close>

lemma chunk_outbound_keys:
  assumes "chunk_outbound m limit = Inr ms"
  shows "distinct (map om_key ms) \<and> (\<forall>m' \<in> set ms. om_platform m' = om_platform m \<and> om_channel m' = om_channel m \<and>
    om_operation m' = om_operation m)"
proof -
  obtain chunks where c: "chunk_text (om_text m) limit = Inr chunks"
      "ms = (if length chunks = 1 then [m]
               else map (\<lambda>(i, t). m\<lparr>om_key := om_key m @ '':chunk:'' @ py_int_str (int i), om_text := t,
                          om_chunk := int i, om_chunks := int (length chunks)\<rparr>) (enumerate 0 chunks))"
    using assms by (auto simp: chunk_outbound_def split: sum.splits)
  have keys: "map (om_key \<circ> (\<lambda>(i, t). m\<lparr>om_key := om_key m @ '':chunk:'' @ py_int_str (int i), om_text := t,
      om_chunk := int i, om_chunks := int (length chunks)\<rparr>)) (enumerate 0 chunks) =
    map (\<lambda>i. om_key m @ '':chunk:'' @ py_int_str (int i)) [0..<length chunks]"
    by (rule nth_equalityI) (simp_all add: nth_enumerate_eq)
  show ?thesis
  proof (cases "length chunks = 1")
    case False
    have "distinct (map om_key ms)" unfolding c(2) using False keys by (simp add: distinct_map inj_on_def)
    then show ?thesis unfolding c(2) using False by auto
  qed (use c(2) in simp)
qed

end
