(* ===== verification/ChannelStore.thy ===== *)
theory ChannelStore
  imports ChannelModel Float64
begin

text \<open>
  \<open>ChannelStore\<close> of \<open>src/polaris/channels/store.py\<close>: the inbox, the outbox, the Telegram offsets,
  the authorization audit and the notifications, with every operation that reads or writes them.
  A JSON column holds the value it encodes.  Tables are in the order of their rowids.  \<open>_now\<close> and
  \<open>_deadline\<close> read the clock one after the other, so an operation that calls both takes two
  readings.
\<close>

section \<open>Tables\<close>

record inbox_row =
  ib_platform :: platform
  ib_event :: str
  ib_type :: str
  ib_user :: "str option"
  ib_channel :: "str option"
  ib_thread :: "str option"
  ib_downstream :: "str option"
  ib_payload :: "json option"
  ib_hash :: str
  ib_envelope :: "channel_envelope option"
  ib_decision :: auth_decision
  ib_reason :: str
  ib_stat :: inbox_status
  ib_owner :: "str option"
  ib_expires :: "instant option"
  ib_heartbeat :: "instant option"
  ib_attempts :: int
  ib_run :: "str option"
  ib_outbox :: "str option"
  ib_error :: "str option"
  ib_created :: instant
  ib_updated :: instant

record outbox_row =
  ox_message :: outbound_message
  ox_hash :: str
  ox_stat :: outbox_status
  ox_owner :: "str option"
  ox_expires :: "instant option"
  ox_heartbeat :: "instant option"
  ox_attempts :: int
  ox_receipt :: "remote_receipt option"
  ox_error :: "str option"
  ox_created :: instant
  ox_updated :: instant

record offset_row =
  of_key :: str
  of_next :: int
  of_updated :: instant
  of_epoch :: int
  of_activity :: "instant option"
  of_bot :: "str option"

record audit_row =
  ad_platform :: platform
  ad_event :: str
  ad_type :: str
  ad_user :: "str option"
  ad_channel :: "str option"
  ad_action :: str
  ad_hash :: str
  ad_decision :: auth_decision
  ad_reason :: str
  ad_created :: instant

record notification_row =
  nt_key :: str
  nt_platform :: platform
  nt_event :: str
  nt_outbox :: "str list"
  nt_created :: instant

record channel_db =
  inbox :: "inbox_row list"
  outbox :: "outbox_row list"
  offsets :: "offset_row list"
  audits :: "audit_row list"
  notifications :: "notification_row list"

record channel_store =
  chdb :: channel_db
  chclosed :: bool

record channel_env =
  ce_text :: text_env
  ce_policy :: auth_policy
  ce_stream :: str

definition new_channel_store :: channel_store where
  "new_channel_store = \<lparr>chdb = \<lparr>inbox = [], outbox = [], offsets = [], audits = [], notifications = []\<rparr>, chclosed = False\<rparr>"

definition channel_transaction ::
  "(channel_db \<Rightarrow> channel_error + 'a \<times> channel_db) \<Rightarrow> channel_store \<Rightarrow> (channel_error + 'a) \<times> channel_store" where
  "channel_transaction body s =
     (if chclosed s then (Inl ChClosed, s)
      else case body (chdb s) of Inl e \<Rightarrow> (Inl e, s) | Inr (x, d) \<Rightarrow> (Inr x, s\<lparr>chdb := d\<rparr>))"

definition close_channel_store :: "channel_store \<Rightarrow> channel_store" where
  "close_channel_store s = s\<lparr>chclosed := True\<rparr>"

definition inbox_key :: "inbox_row \<Rightarrow> platform \<times> str" where
  "inbox_key r = (ib_platform r, ib_event r)"

definition outbox_key :: "outbox_row \<Rightarrow> str" where
  "outbox_key r = om_key (ox_message r)"

abbreviation find_inbox :: "platform \<Rightarrow> str \<Rightarrow> channel_db \<Rightarrow> inbox_row option" where
  "find_inbox p e d \<equiv> by_key inbox_key (p, e) (inbox d)"

abbreviation find_outbox :: "str \<Rightarrow> channel_db \<Rightarrow> outbox_row option" where
  "find_outbox k d \<equiv> by_key outbox_key k (outbox d)"

abbreviation find_offset :: "str \<Rightarrow> channel_db \<Rightarrow> offset_row option" where
  "find_offset k d \<equiv> by_key of_key k (offsets d)"

text \<open>\<open>_deadline\<close>, from its clock reading.\<close>

definition deadline_at :: "instant \<Rightarrow> rat \<Rightarrow> channel_error + instant" where
  "deadline_at clock seconds = (if seconds \<le> 0 then Inl ChValue else Inr (clock + timedelta_us seconds))"

section \<open>Telegram offsets\<close>

definition stream_or :: "channel_env \<Rightarrow> str option \<Rightarrow> str" where
  "stream_or env given = (case given of None \<Rightarrow> ce_stream env | Some k \<Rightarrow> if k = [] then ce_stream env else k)"

definition get_telegram_offset :: "channel_env \<Rightarrow> str option \<Rightarrow> channel_store \<Rightarrow> channel_error + int option" where
  "get_telegram_offset env given s =
     (if chclosed s then Inl ChClosed
      else Inr (map_option of_next (find_offset (stream_or env given) (chdb s))))"

record offset_state =
  os_offset :: "int option"
  os_activity :: "instant option"
  os_epoch :: int
  os_bot :: "str option"

definition get_telegram_offset_state :: "str \<Rightarrow> channel_store \<Rightarrow> channel_error + offset_state" where
  "get_telegram_offset_state key s =
     (if chclosed s then Inl ChClosed
      else Inr (case find_offset key (chdb s) of
          None \<Rightarrow> \<lparr>os_offset = None, os_activity = None, os_epoch = 0, os_bot = None\<rparr>
        | Some r \<Rightarrow> \<lparr>os_offset = Some (of_next r), os_activity = of_activity r, os_epoch = of_epoch r,
                      os_bot = of_bot r\<rparr>))"

definition bind_identity_tx :: "str \<Rightarrow> str \<Rightarrow> instant \<Rightarrow> channel_db \<Rightarrow> channel_error + int \<times> channel_db" where
  "bind_identity_tx bot_id key now d =
     (case find_offset key d of
        None \<Rightarrow> Inr (0, d\<lparr>offsets := offsets d @ [\<lparr>of_key = key, of_next = 0, of_updated = now,
                    of_epoch = 0, of_activity = None, of_bot = Some bot_id\<rparr>]\<rparr>)
      | Some row \<Rightarrow>
          (case of_bot row of
             None \<Rightarrow> Inr (of_epoch row, d\<lparr>offsets := update_where (\<lambda>r. of_key r = key)
                        (\<lambda>r. r\<lparr>of_bot := Some bot_id, of_updated := now\<rparr>) (offsets d)\<rparr>)
           | Some previous \<Rightarrow>
               if previous \<noteq> bot_id then
                 Inr (of_epoch row + 1, d\<lparr>offsets := update_where (\<lambda>r. of_key r = key)
                   (\<lambda>r. r\<lparr>of_bot := Some bot_id, of_next := 0, of_epoch := of_epoch row + 1,
                          of_updated := now, of_activity := None\<rparr>) (offsets d)\<rparr>)
               else Inr (of_epoch row, d)))"

definition bind_telegram_identity ::
  "channel_env \<Rightarrow> str \<Rightarrow> str option \<Rightarrow> instant \<Rightarrow> channel_store \<Rightarrow> (channel_error + int) \<times> channel_store" where
  "bind_telegram_identity env bot_id given now s =
     (if bot_id = [] then (Inl ChValue, s)
      else channel_transaction (bind_identity_tx bot_id (stream_or env given) now) s)"

definition begin_epoch_tx :: "int \<Rightarrow> str \<Rightarrow> instant \<Rightarrow> channel_db \<Rightarrow> channel_error + int \<times> channel_db" where
  "begin_epoch_tx next_offset key now d =
     (let d' = d\<lparr>offsets := (if find_offset key d = None
            then offsets d @ [\<lparr>of_key = key, of_next = next_offset, of_updated = now, of_epoch = 1,
                               of_activity = Some now, of_bot = None\<rparr>]
            else update_where (\<lambda>r. of_key r = key) (\<lambda>r. r\<lparr>of_next := next_offset, of_updated := now,
                   of_epoch := of_epoch r + 1, of_activity := Some now\<rparr>) (offsets d))\<rparr>
      in case find_offset key d' of None \<Rightarrow> Inl ChStoreError | Some r \<Rightarrow> Inr (of_epoch r, d'))"

definition begin_telegram_epoch ::
  "channel_env \<Rightarrow> int \<Rightarrow> str option \<Rightarrow> instant \<Rightarrow> channel_store \<Rightarrow> (channel_error + int) \<times> channel_store" where
  "begin_telegram_epoch env next_offset given now s =
     (if next_offset < 0 then (Inl ChValue, s)
      else channel_transaction (begin_epoch_tx next_offset (stream_or env given) now) s)"

text \<open>The upsert that \<open>set_telegram_offset\<close> and \<open>ingest_telegram_update\<close> share.\<close>

definition bump_offset :: "str \<Rightarrow> int \<Rightarrow> instant \<Rightarrow> channel_db \<Rightarrow> channel_db" where
  "bump_offset key next_offset now d = d\<lparr>offsets :=
     (if find_offset key d = None
      then offsets d @ [\<lparr>of_key = key, of_next = next_offset, of_updated = now, of_epoch = 0,
                         of_activity = Some now, of_bot = None\<rparr>]
      else update_where (\<lambda>r. of_key r = key) (\<lambda>r. r\<lparr>of_next := max (of_next r) next_offset,
             of_updated := now, of_activity := Some now\<rparr>) (offsets d))\<rparr>"

definition set_telegram_offset ::
  "channel_env \<Rightarrow> int \<Rightarrow> str option \<Rightarrow> instant \<Rightarrow> channel_store \<Rightarrow> (channel_error + unit) \<times> channel_store" where
  "set_telegram_offset env next_offset given now s =
     (if next_offset < 0 then (Inl ChValue, s)
      else channel_transaction (\<lambda>d. Inr ((), bump_offset (stream_or env given) next_offset now d)) s)"

section \<open>Ingest\<close>

record ingest_result =
  ir_envelope :: "channel_envelope option"
  ir_decision :: auth_decision
  ir_reason :: str
  ir_duplicate :: bool
  ir_next :: "int option"

text \<open>
  \<open>INSERT ... ON CONFLICT(platform, external_event_id) DO NOTHING\<close>, with whether the row was a
  duplicate; a downstream key that another row has violates the unique constraint.
\<close>

definition insert_inbox :: "inbox_row \<Rightarrow> channel_db \<Rightarrow> channel_error + bool \<times> channel_db" where
  "insert_inbox row d =
     (if find_inbox (ib_platform row) (ib_event row) d \<noteq> None then Inr (True, d)
      else if ib_downstream row \<noteq> None \<and> (\<exists>r \<in> set (inbox d). ib_downstream r = ib_downstream row)
      then Inl ChIntegrity
      else Inr (False, d\<lparr>inbox := inbox d @ [row]\<rparr>))"

definition add_audit :: "audit_row \<Rightarrow> channel_db \<Rightarrow> channel_db" where
  "add_audit a d = d\<lparr>audits := audits d @ [a]\<rparr>"

definition fresh_inbox ::
  "platform \<Rightarrow> str \<Rightarrow> str \<Rightarrow> str option \<Rightarrow> str option \<Rightarrow> channel_envelope option \<Rightarrow> json option \<Rightarrow> str \<Rightarrow>
   auth_decision \<Rightarrow> str \<Rightarrow> instant \<Rightarrow> inbox_row" where
  "fresh_inbox p event type user channel envelope payload hash decision reason now =
     \<lparr>ib_platform = p, ib_event = event, ib_type = type, ib_user = user, ib_channel = channel,
      ib_thread = map_option ev_thread envelope, ib_downstream = map_option ev_downstream envelope,
      ib_payload = payload, ib_hash = hash, ib_envelope = envelope, ib_decision = decision, ib_reason = reason,
      ib_stat = (if envelope = None then IbCompleted else IbReceived), ib_owner = None, ib_expires = None,
      ib_heartbeat = None, ib_attempts = 0, ib_run = None, ib_outbox = None, ib_error = None,
      ib_created = now, ib_updated = now\<rparr>"

definition telegram_event_id :: "int \<Rightarrow> int \<Rightarrow> str" where
  "telegram_event_id epoch update_id = py_int_str epoch @ '':'' @ py_int_str update_id"

definition ingest_telegram_tx ::
  "str \<Rightarrow> int \<Rightarrow> normalized \<Rightarrow> json \<Rightarrow> str \<Rightarrow> instant \<Rightarrow> channel_db \<Rightarrow> channel_error + ingest_result \<times> channel_db" where
  "ingest_telegram_tx key update_id nz payload hash now d =
     (let epoch = (case find_offset key d of None \<Rightarrow> 0 | Some r \<Rightarrow> of_epoch r);
          event = telegram_event_id epoch update_id;
          envelope = (if nz_decision nz = AuAllow
             then map_option (\<lambda>e. e\<lparr>ev_event := event, ev_downstream := ''telegram:update:'' @ event\<rparr>) (nz_envelope nz)
             else None);
          row = fresh_inbox PfTelegram event (nz_type nz) (nz_user nz) (nz_channel nz) envelope
                  (if envelope = None then None else Some payload) hash (nz_decision nz) (nz_reason nz) now
      in case insert_inbox row d of
           Inl e \<Rightarrow> Inl e
         | Inr (duplicate, d1) \<Rightarrow>
             (let d2 = bump_offset key (update_id + 1) now d1;
                  d3 = (if duplicate then d2 else add_audit \<lparr>ad_platform = PfTelegram, ad_event = event,
                     ad_type = nz_type nz, ad_user = nz_user nz, ad_channel = nz_channel nz,
                     ad_action = nz_action nz, ad_hash = hash, ad_decision = nz_decision nz,
                     ad_reason = nz_reason nz, ad_created = now\<rparr> d2)
              in Inr (\<lparr>ir_envelope = envelope, ir_decision = nz_decision nz, ir_reason = nz_reason nz,
                       ir_duplicate = duplicate,
                       ir_next = Some (case find_offset key d3 of None \<Rightarrow> update_id + 1 | Some r \<Rightarrow> of_next r)\<rparr>, d3)))"

definition ingest_telegram_update ::
  "channel_env \<Rightarrow> (str \<times> json) list \<Rightarrow> auth_policy option \<Rightarrow> str option \<Rightarrow> str \<Rightarrow> instant \<Rightarrow> channel_store \<Rightarrow>
   (channel_error + ingest_result) \<times> channel_store" where
  "ingest_telegram_update env upd policy given received now s =
     (case jget upd ''update_id'' of
        JInt update_id \<Rightarrow>
          if update_id < 0 then (Inl ChValue, s)
          else (case normalize_telegram (ce_text env) (case policy of None \<Rightarrow> ce_policy env | Some p \<Rightarrow> p) received upd of
             Inl e \<Rightarrow> (Inl e, s)
           | Inr nz \<Rightarrow> channel_transaction (ingest_telegram_tx (stream_or env given) update_id nz (JObj upd)
                         (sha256_hex (te_codec (ce_text env)) (JObj upd)) now) s)
      | _ \<Rightarrow> (Inl ChValue, s))"

definition ingest_envelope_tx ::
  "channel_envelope \<Rightarrow> json \<Rightarrow> str \<Rightarrow> auth_decision \<Rightarrow> str \<Rightarrow> instant \<Rightarrow> channel_db \<Rightarrow>
   channel_error + ingest_result \<times> channel_db" where
  "ingest_envelope_tx e payload hash decision reason now d =
     (let kept = (if decision = AuAllow then Some e else None);
          row = fresh_inbox (ev_platform e) (ev_event e) (ev_type e) (Some (ev_user e)) (Some (ev_channel e)) kept
                  (if decision = AuAllow then Some payload else None) hash decision reason now
      in case insert_inbox row d of
           Inl err \<Rightarrow> Inl err
         | Inr (duplicate, d1) \<Rightarrow>
             Inr (\<lparr>ir_envelope = kept, ir_decision = decision, ir_reason = reason, ir_duplicate = duplicate,
                   ir_next = None\<rparr>,
                  if duplicate then d1 else add_audit \<lparr>ad_platform = ev_platform e, ad_event = ev_event e,
                     ad_type = ev_type e, ad_user = Some (ev_user e), ad_channel = Some (ev_channel e),
                     ad_action = ev_action e, ad_hash = hash, ad_decision = decision,
                     ad_reason = reason, ad_created = now\<rparr> d1))"

definition ingest_envelope ::
  "channel_env \<Rightarrow> channel_envelope \<Rightarrow> json \<Rightarrow> auth_decision option \<Rightarrow> str option \<Rightarrow> instant \<Rightarrow> channel_store \<Rightarrow>
   (channel_error + ingest_result) \<times> channel_store" where
  "ingest_envelope env e payload decision reason now s =
     (let auth = policy_evaluate (ce_policy env) (ev_platform e) (ev_user e) (ev_channel e) (ev_action e);
          dec = (case decision of None \<Rightarrow> fst auth | Some x \<Rightarrow> x);
          why = (case reason of None \<Rightarrow> snd auth | Some x \<Rightarrow> x)
      in channel_transaction (ingest_envelope_tx e payload (sha256_hex (te_codec (ce_text env)) payload) dec why now) s)"

section \<open>The inbox\<close>

definition inbox_expired :: "instant \<Rightarrow> inbox_row \<Rightarrow> bool" where
  "inbox_expired now r \<longleftrightarrow> ib_stat r = IbProcessing \<and> (case ib_expires r of None \<Rightarrow> False | Some e \<Rightarrow> e \<le> now)"

definition recover_inbox_row :: "instant \<Rightarrow> inbox_row \<Rightarrow> inbox_row" where
  "recover_inbox_row now r = r\<lparr>ib_stat := (if ib_downstream r \<noteq> None then IbReceived else IbFailed),
     ib_error := (if ib_downstream r = None then Some ''expired without deterministic downstream key'' else ib_error r),
     ib_owner := None, ib_expires := None, ib_heartbeat := None, ib_updated := now\<rparr>"

definition recover_inbox_locked :: "instant \<Rightarrow> channel_db \<Rightarrow> nat \<times> channel_db" where
  "recover_inbox_locked now d =
     (rowcount (inbox_expired now) (inbox d),
      d\<lparr>inbox := update_where (inbox_expired now) (recover_inbox_row now) (inbox d)\<rparr>)"

definition recover_inbox_leases :: "instant \<Rightarrow> channel_store \<Rightarrow> (channel_error + nat) \<times> channel_store" where
  "recover_inbox_leases now s = channel_transaction (\<lambda>d. Inr (recover_inbox_locked now d)) s"

definition received_inbox :: "platform option \<Rightarrow> channel_db \<Rightarrow> inbox_row list" where
  "received_inbox pf d = order_by ib_created (filter (\<lambda>r. ib_stat r = IbReceived \<and>
     (case pf of None \<Rightarrow> True | Some p \<Rightarrow> ib_platform r = p)) (inbox d))"

definition claim_inbox_tx ::
  "str \<Rightarrow> instant \<Rightarrow> instant \<Rightarrow> platform option \<Rightarrow> channel_db \<Rightarrow> channel_error + inbox_row option \<times> channel_db" where
  "claim_inbox_tx owner now deadline pf d =
     (let d1 = snd (recover_inbox_locked now d) in
      case received_inbox pf d1 of
        [] \<Rightarrow> Inr (None, d1)
      | r # _ \<Rightarrow>
          (let d2 = d1\<lparr>inbox := update_where (\<lambda>q. inbox_key q = inbox_key r \<and> ib_stat q = IbReceived)
             (\<lambda>q. q\<lparr>ib_stat := IbProcessing, ib_owner := Some owner, ib_expires := Some deadline,
                    ib_heartbeat := Some now, ib_attempts := ib_attempts q + 1, ib_updated := now\<rparr>) (inbox d1)\<rparr>
           in Inr (find_inbox (ib_platform r) (ib_event r) d2, d2)))"

definition claim_inbox ::
  "str \<Rightarrow> rat \<Rightarrow> platform option \<Rightarrow> instant \<Rightarrow> instant \<Rightarrow> channel_store \<Rightarrow>
   (channel_error + inbox_row option) \<times> channel_store" where
  "claim_inbox owner lease pf now clock s =
     (if owner = [] then (Inl ChValue, s)
      else case deadline_at clock lease of
        Inl e \<Rightarrow> (Inl e, s)
      | Inr deadline \<Rightarrow> channel_transaction (claim_inbox_tx owner now deadline pf) s)"

text \<open>The rows that the owner is processing under an unexpired lease.\<close>

definition inbox_held :: "platform \<Rightarrow> str \<Rightarrow> str \<Rightarrow> instant \<Rightarrow> inbox_row \<Rightarrow> bool" where
  "inbox_held p event owner now r \<longleftrightarrow> inbox_key r = (p, event) \<and> ib_stat r = IbProcessing \<and>
     ib_owner r = Some owner \<and> (case ib_expires r of None \<Rightarrow> False | Some e \<Rightarrow> now < e)"

definition update_held_inbox ::
  "(inbox_row \<Rightarrow> bool) \<Rightarrow> (inbox_row \<Rightarrow> inbox_row) \<Rightarrow> channel_db \<Rightarrow> channel_error + unit \<times> channel_db" where
  "update_held_inbox P f d =
     (if rowcount P (inbox d) \<noteq> 1 then Inl ChTransition
      else Inr ((), d\<lparr>inbox := update_where P f (inbox d)\<rparr>))"

definition heartbeat_inbox ::
  "platform \<Rightarrow> str \<Rightarrow> str \<Rightarrow> rat \<Rightarrow> instant \<Rightarrow> instant \<Rightarrow> channel_store \<Rightarrow> (channel_error + unit) \<times> channel_store" where
  "heartbeat_inbox p event owner lease now clock s =
     (case deadline_at clock lease of
        Inl e \<Rightarrow> (Inl e, s)
      | Inr deadline \<Rightarrow> channel_transaction (update_held_inbox (inbox_held p event owner now)
          (\<lambda>r. r\<lparr>ib_expires := Some deadline, ib_heartbeat := Some now, ib_updated := now\<rparr>)) s)"

definition link_target :: "platform \<Rightarrow> str \<Rightarrow> str \<Rightarrow> instant \<Rightarrow> inbox_row \<Rightarrow> bool" where
  "link_target p event downstream now r \<longleftrightarrow> inbox_key r = (p, event) \<and> ib_downstream r = Some downstream \<and>
     ib_stat r = IbProcessing \<and> (case ib_expires r of None \<Rightarrow> False | Some e \<Rightarrow> now < e)"

definition link_inbox_tx ::
  "platform \<Rightarrow> str \<Rightarrow> str \<Rightarrow> str \<Rightarrow> instant \<Rightarrow> channel_db \<Rightarrow> channel_error + unit \<times> channel_db" where
  "link_inbox_tx p event downstream run now d =
     (case fetch_one (link_target p event downstream now) (inbox d) of
        None \<Rightarrow> Inl ChTransition
      | Some row \<Rightarrow>
          if ib_run row \<noteq> None \<and> ib_run row \<noteq> Some run then Inl ChTransition
          else Inr ((), d\<lparr>inbox := update_where (link_target p event downstream now)
                 (\<lambda>r. r\<lparr>ib_run := Some run, ib_updated := now\<rparr>) (inbox d)\<rparr>))"

definition link_inbox_run ::
  "platform \<Rightarrow> str \<Rightarrow> str \<Rightarrow> str \<Rightarrow> instant \<Rightarrow> channel_store \<Rightarrow> (channel_error + unit) \<times> channel_store" where
  "link_inbox_run p event downstream run now s =
     (if run = [] then (Inl ChValue, s) else channel_transaction (link_inbox_tx p event downstream run now) s)"

text \<open>\<open>COALESCE(new, old)\<close>.\<close>

definition or_else :: "'a option \<Rightarrow> 'a option \<Rightarrow> 'a option" where
  "or_else x y = (case x of None \<Rightarrow> y | Some v \<Rightarrow> Some v)"

definition close_inbox_row ::
  "inbox_status \<Rightarrow> str option \<Rightarrow> str option \<Rightarrow> str option \<Rightarrow> instant \<Rightarrow> inbox_row \<Rightarrow> inbox_row" where
  "close_inbox_row st run key error now r = r\<lparr>ib_stat := st, ib_run := or_else run (ib_run r),
     ib_outbox := or_else key (ib_outbox r), ib_error := error, ib_owner := None, ib_expires := None,
     ib_heartbeat := None, ib_updated := now\<rparr>"

definition finish_inbox ::
  "platform \<Rightarrow> str \<Rightarrow> str \<Rightarrow> inbox_status \<Rightarrow> str option \<Rightarrow> str option \<Rightarrow> str option \<Rightarrow> instant \<Rightarrow>
   channel_store \<Rightarrow> (channel_error + unit) \<times> channel_store" where
  "finish_inbox p event owner st run key error now s =
     channel_transaction (update_held_inbox (inbox_held p event owner now) (close_inbox_row st run key error now)) s"

definition complete_inbox ::
  "platform \<Rightarrow> str \<Rightarrow> str \<Rightarrow> str option \<Rightarrow> str option \<Rightarrow> instant \<Rightarrow> channel_store \<Rightarrow>
   (channel_error + unit) \<times> channel_store" where
  "complete_inbox p event owner run key now s = finish_inbox p event owner IbCompleted run key None now s"

definition fail_inbox ::
  "platform \<Rightarrow> str \<Rightarrow> str \<Rightarrow> str \<Rightarrow> str option \<Rightarrow> instant \<Rightarrow> channel_store \<Rightarrow>
   (channel_error + unit) \<times> channel_store" where
  "fail_inbox p event owner error run now s = finish_inbox p event owner IbFailed run None (Some error) now s"

definition get_inbox :: "platform \<Rightarrow> str \<Rightarrow> channel_store \<Rightarrow> channel_error + inbox_row option" where
  "get_inbox p event s = (if chclosed s then Inl ChClosed else Inr (find_inbox p event (chdb s)))"

definition linked_order :: "inbox_row \<Rightarrow> instant \<times> str \<times> str" where
  "linked_order r = (ib_updated r, platform_value (ib_platform r), ib_event r)"

definition list_linked_inbox ::
  "platform option \<Rightarrow> int \<Rightarrow> (instant \<times> platform \<times> str) option \<Rightarrow> channel_store \<Rightarrow> channel_error + inbox_row list" where
  "list_linked_inbox pf limit after s =
     (if limit < 1 \<or> 5000 < limit then Inl ChValue
      else if chclosed s then Inl ChClosed
      else Inr (take (nat limit) (order_by linked_order (filter (\<lambda>r. ib_run r \<noteq> None \<and>
          (case pf of None \<Rightarrow> True | Some p \<Rightarrow> ib_platform r = p) \<and>
          (case after of None \<Rightarrow> True
           | Some (t, p, event) \<Rightarrow> t < ib_updated r \<or>
               (ib_updated r = t \<and> platform_value p < platform_value (ib_platform r)) \<or>
               (ib_updated r = t \<and> ib_platform r = p \<and> event < ib_event r))) (inbox (chdb s))))))"

end
