(* ===== verification/ChannelOutbox.thy ===== *)
theory ChannelOutbox
  imports ChannelStore
begin

text \<open>
  The outbox half of \<open>ChannelStore\<close>: enqueueing under an idempotency key, claims, outcomes, operator
  decisions, the completion of an inbox event together with its answers, and notifications.
\<close>

section \<open>Enqueueing\<close>

definition message_text :: "channel_env \<Rightarrow> outbound_message \<Rightarrow> str" where
  "message_text env m = canonical_json (te_codec (ce_text env)) (message_json m)"

definition content_hash :: "channel_env \<Rightarrow> outbound_message \<Rightarrow> str" where
  "content_hash env m = sha256_hex (te_codec (ce_text env)) (content_json m)"

definition fresh_outbox :: "channel_env \<Rightarrow> outbound_message \<Rightarrow> instant \<Rightarrow> outbox_row" where
  "fresh_outbox env m now =
     \<lparr>ox_message = m, ox_hash = content_hash env m, ox_stat = ObPending, ox_owner = None, ox_expires = None,
      ox_heartbeat = None, ox_attempts = 0, ox_receipt = None, ox_error = None, ox_created = now, ox_updated = now\<rparr>"

text \<open>The hash encodes the text, which raises a \<open>ValueError\<close> for a lone surrogate.\<close>

definition enqueue_locked ::
  "channel_env \<Rightarrow> instant \<Rightarrow> outbound_message \<Rightarrow> channel_db \<Rightarrow> channel_error + outbox_row \<times> channel_db" where
  "enqueue_locked env now m d =
     (if list_ex surrogate (om_text m) then Inl ChValue
      else let d' = (if find_outbox (om_key m) d \<noteq> None then d
                else d\<lparr>outbox := outbox d @ [fresh_outbox env m now]\<rparr>)
      in case find_outbox (om_key m) d' of
           None \<Rightarrow> Inl ChStoreError
         | Some row \<Rightarrow>
             if ox_hash row \<noteq> content_hash env m \<or> message_text env (ox_message row) \<noteq> message_text env m
             then Inl ChStoreError else Inr (row, d'))"

definition enqueue_outbox ::
  "channel_env \<Rightarrow> outbound_message \<Rightarrow> instant \<Rightarrow> channel_store \<Rightarrow> (channel_error + outbox_row) \<times> channel_store" where
  "enqueue_outbox env m now s = channel_transaction (enqueue_locked env now m) s"

fun enqueue_all ::
  "channel_env \<Rightarrow> instant \<Rightarrow> outbound_message list \<Rightarrow> channel_db \<Rightarrow> channel_error + outbox_row list \<times> channel_db" where
  "enqueue_all env now [] d = Inr ([], d)"
| "enqueue_all env now (m # ms) d =
     (case enqueue_locked env now m d of
        Inl e \<Rightarrow> Inl e
      | Inr (row, d1) \<Rightarrow> (case enqueue_all env now ms d1 of
            Inl e \<Rightarrow> Inl e | Inr (rows, d2) \<Rightarrow> Inr (row # rows, d2)))"

definition complete_with_outbox_tx ::
  "channel_env \<Rightarrow> platform \<Rightarrow> str \<Rightarrow> str \<Rightarrow> outbound_message list \<Rightarrow> str option \<Rightarrow> instant \<Rightarrow> channel_db \<Rightarrow>
   channel_error + outbox_row list \<times> channel_db" where
  "complete_with_outbox_tx env p event owner batch run now d =
     (case enqueue_all env now batch d of
        Inl e \<Rightarrow> Inl e
      | Inr (rows, d1) \<Rightarrow>
          (case update_held_inbox (inbox_held p event owner now)
                  (close_inbox_row IbCompleted run (case batch of [] \<Rightarrow> None | m # _ \<Rightarrow> Some (om_key m)) None now) d1 of
             Inl e \<Rightarrow> Inl e | Inr (_, d2) \<Rightarrow> Inr (rows, d2)))"

definition complete_inbox_with_outbox ::
  "channel_env \<Rightarrow> platform \<Rightarrow> str \<Rightarrow> str \<Rightarrow> outbound_message list \<Rightarrow> str option \<Rightarrow> instant \<Rightarrow> channel_store \<Rightarrow>
   (channel_error + outbox_row list) \<times> channel_store" where
  "complete_inbox_with_outbox env p event owner batch run now s =
     channel_transaction (complete_with_outbox_tx env p event owner batch run now) s"

section \<open>Sending\<close>

definition outbox_expired :: "instant \<Rightarrow> outbox_row \<Rightarrow> bool" where
  "outbox_expired now r \<longleftrightarrow> ox_stat r = ObSending \<and> (case ox_expires r of None \<Rightarrow> False | Some e \<Rightarrow> e \<le> now)"

definition recover_outbox_row :: "instant \<Rightarrow> outbox_row \<Rightarrow> outbox_row" where
  "recover_outbox_row now r = r\<lparr>ox_stat := ObUnknown,
     ox_error := Some ''sending lease expired; remote outcome is unknown'',
     ox_owner := None, ox_expires := None, ox_heartbeat := None, ox_updated := now\<rparr>"

definition recover_outbox_locked :: "instant \<Rightarrow> channel_db \<Rightarrow> nat \<times> channel_db" where
  "recover_outbox_locked now d =
     (rowcount (outbox_expired now) (outbox d),
      d\<lparr>outbox := update_where (outbox_expired now) (recover_outbox_row now) (outbox d)\<rparr>)"

definition recover_outbox_leases :: "instant \<Rightarrow> channel_store \<Rightarrow> (channel_error + nat) \<times> channel_store" where
  "recover_outbox_leases now s = channel_transaction (\<lambda>d. Inr (recover_outbox_locked now d)) s"

definition pending_outbox :: "platform option \<Rightarrow> channel_db \<Rightarrow> outbox_row list" where
  "pending_outbox pf d = order_by ox_created (filter (\<lambda>r. ox_stat r = ObPending \<and>
     (case pf of None \<Rightarrow> True | Some p \<Rightarrow> om_platform (ox_message r) = p)) (outbox d))"

definition claim_outbox_tx ::
  "str \<Rightarrow> instant \<Rightarrow> instant \<Rightarrow> platform option \<Rightarrow> channel_db \<Rightarrow> channel_error + outbox_row option \<times> channel_db" where
  "claim_outbox_tx owner now deadline pf d =
     (let d1 = snd (recover_outbox_locked now d) in
      case pending_outbox pf d1 of
        [] \<Rightarrow> Inr (None, d1)
      | r # _ \<Rightarrow>
          (let d2 = d1\<lparr>outbox := update_where (\<lambda>q. outbox_key q = outbox_key r \<and> ox_stat q = ObPending)
             (\<lambda>q. q\<lparr>ox_stat := ObSending, ox_owner := Some owner, ox_expires := Some deadline,
                    ox_heartbeat := Some now, ox_attempts := ox_attempts q + 1, ox_updated := now\<rparr>) (outbox d1)\<rparr>
           in Inr (find_outbox (outbox_key r) d2, d2)))"

definition claim_outbox ::
  "str \<Rightarrow> rat \<Rightarrow> platform option \<Rightarrow> instant \<Rightarrow> instant \<Rightarrow> channel_store \<Rightarrow>
   (channel_error + outbox_row option) \<times> channel_store" where
  "claim_outbox owner lease pf now clock s =
     (if owner = [] then (Inl ChValue, s)
      else case deadline_at clock lease of
        Inl e \<Rightarrow> (Inl e, s)
      | Inr deadline \<Rightarrow> channel_transaction (claim_outbox_tx owner now deadline pf) s)"

definition outbox_held :: "str \<Rightarrow> str \<Rightarrow> instant \<Rightarrow> outbox_row \<Rightarrow> bool" where
  "outbox_held key owner now r \<longleftrightarrow> outbox_key r = key \<and> ox_stat r = ObSending \<and> ox_owner r = Some owner \<and>
     (case ox_expires r of None \<Rightarrow> False | Some e \<Rightarrow> now < e)"

text \<open>An update of one row, or the refusal when no row or several match, and the row it left.\<close>

definition update_outbox ::
  "str \<Rightarrow> (outbox_row \<Rightarrow> bool) \<Rightarrow> (outbox_row \<Rightarrow> outbox_row) \<Rightarrow> channel_db \<Rightarrow> channel_error + outbox_row option \<times> channel_db" where
  "update_outbox key P f d =
     (if rowcount P (outbox d) \<noteq> 1 then Inl ChTransition
      else (let d' = d\<lparr>outbox := update_where P f (outbox d)\<rparr> in Inr (find_outbox key d', d')))"

definition heartbeat_outbox ::
  "str \<Rightarrow> str \<Rightarrow> rat \<Rightarrow> instant \<Rightarrow> instant \<Rightarrow> channel_store \<Rightarrow> (channel_error + outbox_row option) \<times> channel_store" where
  "heartbeat_outbox key owner lease now clock s =
     (case deadline_at clock lease of
        Inl e \<Rightarrow> (Inl e, s)
      | Inr deadline \<Rightarrow> channel_transaction (update_outbox key (outbox_held key owner now)
          (\<lambda>r. r\<lparr>ox_expires := Some deadline, ox_heartbeat := Some now, ox_updated := now\<rparr>)) s)"

definition finish_outbox ::
  "str \<Rightarrow> str \<Rightarrow> outbox_status \<Rightarrow> remote_receipt option \<Rightarrow> str option \<Rightarrow> instant \<Rightarrow> channel_store \<Rightarrow>
   (channel_error + outbox_row option) \<times> channel_store" where
  "finish_outbox key owner st receipt error now s =
     channel_transaction (update_outbox key (outbox_held key owner now)
       (\<lambda>r. r\<lparr>ox_stat := st, ox_receipt := receipt, ox_error := error, ox_owner := None, ox_expires := None,
              ox_heartbeat := None, ox_updated := now\<rparr>)) s"

definition mark_outbox_sent ::
  "str \<Rightarrow> str \<Rightarrow> remote_receipt \<Rightarrow> instant \<Rightarrow> channel_store \<Rightarrow> (channel_error + outbox_row option) \<times> channel_store" where
  "mark_outbox_sent key owner receipt now s = finish_outbox key owner ObSent (Some receipt) None now s"

definition mark_outbox_unknown ::
  "str \<Rightarrow> str \<Rightarrow> str \<Rightarrow> instant \<Rightarrow> channel_store \<Rightarrow> (channel_error + outbox_row option) \<times> channel_store" where
  "mark_outbox_unknown key owner error now s = finish_outbox key owner ObUnknown None (Some error) now s"

definition mark_outbox_failed ::
  "str \<Rightarrow> str \<Rightarrow> str \<Rightarrow> instant \<Rightarrow> channel_store \<Rightarrow> (channel_error + outbox_row option) \<times> channel_store" where
  "mark_outbox_failed key owner error now s = finish_outbox key owner ObFailed None (Some error) now s"

section \<open>Operator decisions\<close>

definition resolve_outbox ::
  "str \<Rightarrow> bool \<Rightarrow> str \<Rightarrow> instant \<Rightarrow> channel_store \<Rightarrow> (channel_error + outbox_row option) \<times> channel_store" where
  "resolve_outbox key sent note now s =
     (if note = [] then (Inl ChValue, s)
      else channel_transaction (update_outbox key (\<lambda>r. outbox_key r = key \<and> ox_stat r = ObUnknown)
        (\<lambda>r. r\<lparr>ox_stat := (if sent then ObSent else ObFailed), ox_error := Some note, ox_updated := now\<rparr>)) s)"

definition retry_outbox ::
  "str \<Rightarrow> str \<Rightarrow> instant \<Rightarrow> channel_store \<Rightarrow> (channel_error + outbox_row option) \<times> channel_store" where
  "retry_outbox key note now s =
     (if note = [] then (Inl ChValue, s)
      else channel_transaction (update_outbox key (\<lambda>r. outbox_key r = key \<and> ox_stat r \<in> {ObUnknown, ObFailed})
        (\<lambda>r. r\<lparr>ox_stat := ObPending, ox_error := Some (''operator retry: '' @ note), ox_updated := now\<rparr>)) s)"

section \<open>Queries\<close>

definition get_outbox :: "str \<Rightarrow> channel_store \<Rightarrow> channel_error + outbox_row option" where
  "get_outbox key s = (if chclosed s then Inl ChClosed else Inr (find_outbox key (chdb s)))"

definition list_outbox ::
  "outbox_status option \<Rightarrow> platform option \<Rightarrow> int \<Rightarrow> channel_store \<Rightarrow> channel_error + outbox_row list" where
  "list_outbox st pf limit s =
     (if limit < 1 \<or> 5000 < limit then Inl ChValue
      else if chclosed s then Inl ChClosed
      else Inr (take (nat limit) (order_by (\<lambda>r. (ox_created r, outbox_key r)) (filter (\<lambda>r.
          (case st of None \<Rightarrow> True | Some x \<Rightarrow> ox_stat r = x) \<and>
          (case pf of None \<Rightarrow> True | Some p \<Rightarrow> om_platform (ox_message r) = p)) (outbox (chdb s))))))"

definition list_unknown_outbox :: "platform option \<Rightarrow> int \<Rightarrow> channel_store \<Rightarrow> channel_error + outbox_row list" where
  "list_unknown_outbox pf limit s = list_outbox (Some ObUnknown) pf limit s"

definition export_auth_audit :: "channel_store \<Rightarrow> channel_error + audit_row list" where
  "export_auth_audit s = (if chclosed s then Inl ChClosed else Inr (audits (chdb s)))"

section \<open>Notifications\<close>

definition notification_exists :: "str \<Rightarrow> channel_store \<Rightarrow> channel_error + bool" where
  "notification_exists key s =
     (if chclosed s then Inl ChClosed else Inr (by_key nt_key key (notifications (chdb s)) \<noteq> None))"

definition record_notification_tx ::
  "str \<Rightarrow> platform \<Rightarrow> str \<Rightarrow> str list \<Rightarrow> instant \<Rightarrow> channel_db \<Rightarrow> channel_error + unit \<times> channel_db" where
  "record_notification_tx key p event keys now d =
     (if \<exists>k \<in> set keys. find_outbox k d = None then Inl ChStoreError
      else (let present = by_key nt_key key (notifications d) in
            if present = None \<and> find_inbox p event d = None then Inl ChIntegrity
            else (let d' = (if present \<noteq> None then d else d\<lparr>notifications := notifications d @
                       [\<lparr>nt_key = key, nt_platform = p, nt_event = event, nt_outbox = keys, nt_created = now\<rparr>]\<rparr>)
                  in case by_key nt_key key (notifications d') of
                       None \<Rightarrow> Inl ChStoreError
                     | Some row \<Rightarrow> if nt_platform row \<noteq> p \<or> nt_event row \<noteq> event \<or> nt_outbox row \<noteq> keys
                                   then Inl ChStoreError else Inr ((), d'))))"

definition record_notification ::
  "str \<Rightarrow> platform \<Rightarrow> str \<Rightarrow> str list \<Rightarrow> instant \<Rightarrow> channel_store \<Rightarrow> (channel_error + unit) \<times> channel_store" where
  "record_notification key p event keys now s =
     (if key = [] then (Inl ChValue, s)
      else if keys = [] then (Inl ChValue, s)
      else channel_transaction (record_notification_tx key p event keys now) s)"

end
