(* ===== verification/ChannelMachine.thy ===== *)
theory ChannelMachine
  imports ChannelOutbox
begin

text \<open>
  The channel store as a machine: one \<open>channel_op\<close> is one call, with its arguments and its clock
  readings.  \<open>inbox_step\<close> and \<open>outbox_step\<close> are the lives of one inbox row and one outbox row, and
  every call moves every row along them.
\<close>

datatype channel_op =
    BindIdentity str "str option" instant
  | BeginEpoch int "str option" instant
  | SetOffset int "str option" instant
  | IngestTelegram "(str \<times> json) list" "auth_policy option" "str option" str instant
  | IngestEnvelope channel_envelope json "auth_decision option" "str option" instant
  | ClaimInbox str rat "platform option" instant instant
  | RecoverInbox instant
  | HeartbeatInbox platform str str rat instant instant
  | LinkInbox platform str str str instant
  | CompleteInbox platform str str "str option" "str option" instant
  | CompleteWithOutbox platform str str "outbound_message list" "str option" instant
  | FailInbox platform str str str "str option" instant
  | Enqueue outbound_message instant
  | ClaimOutbox str rat "platform option" instant instant
  | RecoverOutbox instant
  | HeartbeatOutbox str str rat instant instant
  | MarkSent str str remote_receipt instant
  | MarkUnknown str str str instant
  | MarkFailed str str str instant
  | ResolveOutbox str bool str instant
  | RetryOutbox str str instant
  | RecordNotification str platform str "str list" instant
  | CloseChannel

fun channel_exec :: "channel_env \<Rightarrow> channel_op \<Rightarrow> channel_store \<Rightarrow> channel_store" where
  "channel_exec env (BindIdentity b k now) s = snd (bind_telegram_identity env b k now s)"
| "channel_exec env (BeginEpoch n k now) s = snd (begin_telegram_epoch env n k now s)"
| "channel_exec env (SetOffset n k now) s = snd (set_telegram_offset env n k now s)"
| "channel_exec env (IngestTelegram u p k rc now) s = snd (ingest_telegram_update env u p k rc now s)"
| "channel_exec env (IngestEnvelope e pl dec why now) s = snd (ingest_envelope env e pl dec why now s)"
| "channel_exec env (ClaimInbox w l pf now c) s = snd (claim_inbox w l pf now c s)"
| "channel_exec env (RecoverInbox now) s = snd (recover_inbox_leases now s)"
| "channel_exec env (HeartbeatInbox p e w l now c) s = snd (heartbeat_inbox p e w l now c s)"
| "channel_exec env (LinkInbox p e ds run now) s = snd (link_inbox_run p e ds run now s)"
| "channel_exec env (CompleteInbox p e w run k now) s = snd (complete_inbox p e w run k now s)"
| "channel_exec env (CompleteWithOutbox p e w ms run now) s = snd (complete_inbox_with_outbox env p e w ms run now s)"
| "channel_exec env (FailInbox p e w err run now) s = snd (fail_inbox p e w err run now s)"
| "channel_exec env (Enqueue m now) s = snd (enqueue_outbox env m now s)"
| "channel_exec env (ClaimOutbox w l pf now c) s = snd (claim_outbox w l pf now c s)"
| "channel_exec env (RecoverOutbox now) s = snd (recover_outbox_leases now s)"
| "channel_exec env (HeartbeatOutbox k w l now c) s = snd (heartbeat_outbox k w l now c s)"
| "channel_exec env (MarkSent k w rc now) s = snd (mark_outbox_sent k w rc now s)"
| "channel_exec env (MarkUnknown k w err now) s = snd (mark_outbox_unknown k w err now s)"
| "channel_exec env (MarkFailed k w err now) s = snd (mark_outbox_failed k w err now s)"
| "channel_exec env (ResolveOutbox k b n now) s = snd (resolve_outbox k b n now s)"
| "channel_exec env (RetryOutbox k n now) s = snd (retry_outbox k n now s)"
| "channel_exec env (RecordNotification k p e ks now) s = snd (record_notification k p e ks now s)"
| "channel_exec env CloseChannel s = close_channel_store s"

section \<open>The life of an inbox row\<close>

definition claim_inbox_row :: "str \<Rightarrow> instant \<Rightarrow> instant \<Rightarrow> inbox_row \<Rightarrow> inbox_row" where
  "claim_inbox_row w now deadline q = q\<lparr>ib_stat := IbProcessing, ib_owner := Some w, ib_expires := Some deadline,
     ib_heartbeat := Some now, ib_attempts := ib_attempts q + 1, ib_updated := now\<rparr>"

definition recovered_inbox :: "instant \<Rightarrow> inbox_row \<Rightarrow> inbox_row" where
  "recovered_inbox now r = (if inbox_expired now r then recover_inbox_row now r else r)"

inductive inbox_step :: "channel_op \<Rightarrow> inbox_row \<Rightarrow> inbox_row \<Rightarrow> bool" where
  keep: "inbox_step a r r"
| recover: "inbox_expired now r \<Longrightarrow> a = RecoverInbox now \<or> a = ClaimInbox w l pf now c \<Longrightarrow>
    inbox_step a r (recover_inbox_row now r)"
| claim: "w \<noteq> [] \<Longrightarrow> 0 < l \<Longrightarrow> ib_stat (recovered_inbox now r) = IbReceived \<Longrightarrow>
    inbox_step (ClaimInbox w l pf now c) r (claim_inbox_row w now (c + timedelta_us l) (recovered_inbox now r))"
| heartbeat: "inbox_held p e w now r \<Longrightarrow> inbox_step (HeartbeatInbox p e w l now c) r
    (r\<lparr>ib_expires := Some (c + timedelta_us l), ib_heartbeat := Some now, ib_updated := now\<rparr>)"
| link: "inbox_key r = (p, e) \<Longrightarrow> ib_stat r = IbProcessing \<Longrightarrow>
    inbox_step (LinkInbox p e ds run now) r (r\<lparr>ib_run := Some run, ib_updated := now\<rparr>)"
| complete: "inbox_held p e w now r \<Longrightarrow>
    a = CompleteInbox p e w run k now \<or> a = CompleteWithOutbox p e w ms run now \<Longrightarrow>
    inbox_step a r (close_inbox_row IbCompleted run k None now r)"
| fail: "inbox_held p e w now r \<Longrightarrow>
    inbox_step (FailInbox p e w err run now) r (close_inbox_row IbFailed run None (Some err) now r)"

text \<open>A new row: stored as received with its content when it was allowed, as completed without it else.\<close>

definition fresh_inbox_row :: "inbox_row \<Rightarrow> bool" where
  "fresh_inbox_row r \<longleftrightarrow> ib_owner r = None \<and> ib_expires r = None \<and> ib_attempts r = 0 \<and> ib_run r = None \<and>
     (if ib_decision r = AuAllow \<and> ib_envelope r \<noteq> None
      then ib_stat r = IbReceived \<and> ib_payload r \<noteq> None \<and> ib_downstream r \<noteq> None
      else ib_stat r = IbCompleted \<and> ib_payload r = None \<and> ib_envelope r = None \<and> ib_thread r = None \<and> ib_downstream r = None)"

fun new_inbox :: "channel_op \<Rightarrow> inbox_row \<Rightarrow> bool" where
  "new_inbox (IngestTelegram u p k rc now) r \<longleftrightarrow> fresh_inbox_row r"
| "new_inbox (IngestEnvelope e pl dec why now) r \<longleftrightarrow> fresh_inbox_row r"
| "new_inbox _ r \<longleftrightarrow> False"

section \<open>The life of an outbox row\<close>

definition claim_outbox_row :: "str \<Rightarrow> instant \<Rightarrow> instant \<Rightarrow> outbox_row \<Rightarrow> outbox_row" where
  "claim_outbox_row w now deadline q = q\<lparr>ox_stat := ObSending, ox_owner := Some w, ox_expires := Some deadline,
     ox_heartbeat := Some now, ox_attempts := ox_attempts q + 1, ox_updated := now\<rparr>"

definition finish_outbox_row ::
  "outbox_status \<Rightarrow> remote_receipt option \<Rightarrow> str option \<Rightarrow> instant \<Rightarrow> outbox_row \<Rightarrow> outbox_row" where
  "finish_outbox_row st receipt error now r = r\<lparr>ox_stat := st, ox_receipt := receipt, ox_error := error,
     ox_owner := None, ox_expires := None, ox_heartbeat := None, ox_updated := now\<rparr>"

inductive outbox_step :: "channel_op \<Rightarrow> outbox_row \<Rightarrow> outbox_row \<Rightarrow> bool" where
  keep: "outbox_step a r r"
| recover: "outbox_expired now r \<Longrightarrow> a = RecoverOutbox now \<or> a = ClaimOutbox w l pf now c \<Longrightarrow>
    outbox_step a r (recover_outbox_row now r)"
| claim: "w \<noteq> [] \<Longrightarrow> 0 < l \<Longrightarrow> ox_stat r = ObPending \<Longrightarrow>
    outbox_step (ClaimOutbox w l pf now c) r (claim_outbox_row w now (c + timedelta_us l) r)"
| heartbeat: "outbox_held k w now r \<Longrightarrow> outbox_step (HeartbeatOutbox k w l now c) r
    (r\<lparr>ox_expires := Some (c + timedelta_us l), ox_heartbeat := Some now, ox_updated := now\<rparr>)"
| sent: "outbox_held k w now r \<Longrightarrow> outbox_step (MarkSent k w rc now) r (finish_outbox_row ObSent (Some rc) None now r)"
| unknown: "outbox_held k w now r \<Longrightarrow>
    outbox_step (MarkUnknown k w err now) r (finish_outbox_row ObUnknown None (Some err) now r)"
| failed: "outbox_held k w now r \<Longrightarrow>
    outbox_step (MarkFailed k w err now) r (finish_outbox_row ObFailed None (Some err) now r)"
| resolve: "outbox_key r = k \<Longrightarrow> ox_stat r = ObUnknown \<Longrightarrow> outbox_step (ResolveOutbox k b n now) r
    (r\<lparr>ox_stat := (if b then ObSent else ObFailed), ox_error := Some n, ox_updated := now\<rparr>)"
| retry: "outbox_key r = k \<Longrightarrow> ox_stat r \<in> {ObUnknown, ObFailed} \<Longrightarrow> outbox_step (RetryOutbox k n now) r
    (r\<lparr>ox_stat := ObPending, ox_error := Some (''operator retry: '' @ n), ox_updated := now\<rparr>)"

fun new_outbox :: "channel_env \<Rightarrow> channel_op \<Rightarrow> outbox_row \<Rightarrow> bool" where
  "new_outbox env (CompleteWithOutbox p e w ms run now) r \<longleftrightarrow> (\<exists>m \<in> set ms. r = fresh_outbox env m now)"
| "new_outbox env (Enqueue m now) r \<longleftrightarrow> r = fresh_outbox env m now"
| "new_outbox env _ r \<longleftrightarrow> False"

abbreviation inbox_follow :: "channel_op \<Rightarrow> channel_db \<Rightarrow> channel_db \<Rightarrow> bool" where
  "inbox_follow a d d' \<equiv> table_follow (inbox_step a) (new_inbox a) (inbox d) (inbox d')"

abbreviation outbox_follow :: "channel_env \<Rightarrow> channel_op \<Rightarrow> channel_db \<Rightarrow> channel_db \<Rightarrow> bool" where
  "outbox_follow env a d d' \<equiv> table_follow (outbox_step a) (new_outbox env a) (outbox d) (outbox d')"

lemma inbox_step_key: "inbox_step a r r' \<Longrightarrow> inbox_key r' = inbox_key r"
  by (erule inbox_step.cases)
    (auto simp: inbox_key_def recover_inbox_row_def recovered_inbox_def claim_inbox_row_def close_inbox_row_def)

lemma outbox_step_message: "outbox_step a r r' \<Longrightarrow> ox_message r' = ox_message r \<and> ox_hash r' = ox_hash r"
  by (erule outbox_step.cases) (auto simp: recover_outbox_row_def claim_outbox_row_def finish_outbox_row_def)

lemma outbox_step_key: "outbox_step a r r' \<Longrightarrow> outbox_key r' = outbox_key r"
  using outbox_step_message by (simp add: outbox_key_def)

end
