(* ===== verification/ChannelSteps.thy ===== *)
theory ChannelSteps
  imports ChannelMachine Contracts
begin

text \<open>Every call of the channel store moves every row along its life.\<close>

definition channel_follow :: "channel_env \<Rightarrow> channel_op \<Rightarrow> channel_db \<Rightarrow> channel_db \<Rightarrow> bool" where
  "channel_follow env a d d' \<longleftrightarrow> inbox_follow a d d' \<and> outbox_follow env a d d'"

lemma inbox_follow_same: "inbox d' = inbox d \<Longrightarrow> inbox_follow a d d'"
  by (simp add: table_follow_refl inbox_step.keep)

lemma outbox_follow_same: "outbox d' = outbox d \<Longrightarrow> outbox_follow env a d d'"
  by (simp add: table_follow_refl outbox_step.keep)

lemma channel_follow_same: "inbox d' = inbox d \<Longrightarrow> outbox d' = outbox d \<Longrightarrow> channel_follow env a d d'"
  by (simp add: channel_follow_def inbox_follow_same outbox_follow_same)

lemma inbox_follow_update:
  "(\<And>r. r \<in> set (inbox d) \<Longrightarrow> P r \<Longrightarrow> inbox_step a r (f r)) \<Longrightarrow> inbox d' = update_where P f (inbox d) \<Longrightarrow> inbox_follow a d d'"
  by (simp add: table_follow_update inbox_step.keep)

lemma outbox_follow_update:
  "(\<And>r. r \<in> set (outbox d) \<Longrightarrow> P r \<Longrightarrow> outbox_step a r (f r)) \<Longrightarrow> outbox d' = update_where P f (outbox d) \<Longrightarrow>
   outbox_follow env a d d'"
  by (simp add: table_follow_update outbox_step.keep)

lemma channel_transaction_rule:
  "P (chdb s) (chdb s) \<Longrightarrow> (\<And>x d'. body (chdb s) = Inr (x, d') \<Longrightarrow> P (chdb s) d') \<Longrightarrow>
   P (chdb s) (chdb (snd (channel_transaction body s)))"
  by (auto simp: channel_transaction_def split: sum.splits)

lemma channel_follow_refl [simp]: "channel_follow env a d d"
  by (simp add: channel_follow_same)

section \<open>Offsets\<close>

lemma bump_offset_simps [simp]:
  "inbox (bump_offset k n now d) = inbox d" "outbox (bump_offset k n now d) = outbox d"
  "audits (bump_offset k n now d) = audits d" "notifications (bump_offset k n now d) = notifications d"
  by (simp_all add: bump_offset_def)

lemma add_audit_simps [simp]:
  "inbox (add_audit r d) = inbox d" "outbox (add_audit r d) = outbox d" "offsets (add_audit r d) = offsets d"
  "audits (add_audit r d) = audits d @ [r]" "notifications (add_audit r d) = notifications d"
  by (simp_all add: add_audit_def)

lemma bind_identity_tables:
  "bind_identity_tx b k now d = Inr (x, d') \<Longrightarrow> inbox d' = inbox d \<and> outbox d' = outbox d"
  by (auto simp: bind_identity_tx_def split: option.splits if_splits)

lemma begin_epoch_tables:
  "begin_epoch_tx n k now d = Inr (x, d') \<Longrightarrow> inbox d' = inbox d \<and> outbox d' = outbox d"
  by (auto simp: begin_epoch_tx_def Let_def split: option.splits)

lemma record_notification_tables:
  "record_notification_tx k p e ks now d = Inr (x, d') \<Longrightarrow> inbox d' = inbox d \<and> outbox d' = outbox d"
  by (auto simp: record_notification_tx_def Let_def split: option.splits if_splits)

section \<open>Ingest\<close>

lemma insert_inbox_follow:
  assumes "insert_inbox row d = Inr (dup, d')" and "new_inbox a row"
  shows "inbox_follow a d d' \<and> outbox d' = outbox d"
  using assms table_follow_snoc [OF inbox_follow_same [OF refl, of a d], of row]
  by (auto simp: insert_inbox_def inbox_follow_same split: if_splits)

lemma fresh_inbox_fresh:
  "(envelope = None) = (payload = None) \<Longrightarrow> (envelope \<noteq> None \<longrightarrow> decision = AuAllow) \<Longrightarrow>
   fresh_inbox_row (fresh_inbox p event type user channel envelope payload hash decision reason now)"
  by (cases envelope; cases payload) (simp_all add: fresh_inbox_row_def fresh_inbox_def)

lemma ingest_telegram_follow:
  assumes "ingest_telegram_tx key i nz payload hash now d = Inr (x, d')"
  shows "channel_follow env (IngestTelegram u p k rc now') d d'"
proof -
  let ?event = "telegram_event_id (case find_offset key d of None \<Rightarrow> 0 | Some r \<Rightarrow> of_epoch r) i"
  let ?envelope = "if nz_decision nz = AuAllow
             then map_option (\<lambda>e. e\<lparr>ev_event := ?event, ev_downstream := ''telegram:update:'' @ ?event\<rparr>) (nz_envelope nz)
             else None"
  let ?row = "fresh_inbox PfTelegram ?event (nz_type nz) (nz_user nz) (nz_channel nz) ?envelope
                  (if ?envelope = None then None else Some payload) hash (nz_decision nz) (nz_reason nz) now"
  obtain dup d1 where ins: "insert_inbox ?row d = Inr (dup, d1)" and "inbox d' = inbox d1" "outbox d' = outbox d1"
    using assms unfolding ingest_telegram_tx_def Let_def by (auto split: sum.splits)
  moreover have "new_inbox (IngestTelegram u p k rc now') ?row"
    by (simp only: new_inbox.simps, rule fresh_inbox_fresh) auto
  ultimately show ?thesis
    using insert_inbox_follow [OF ins] by (auto simp: channel_follow_def intro: outbox_follow_same)
qed

lemma ingest_envelope_follow:
  assumes "ingest_envelope_tx e pl hash dec why now d = Inr (x, d')"
  shows "channel_follow env (IngestEnvelope e pl' dec' why' now') d d'"
proof -
  let ?kept = "if dec = AuAllow then Some e else None"
  let ?row = "fresh_inbox (ev_platform e) (ev_event e) (ev_type e) (Some (ev_user e)) (Some (ev_channel e)) ?kept
                  (if dec = AuAllow then Some pl else None) hash dec why now"
  obtain dup d1 where ins: "insert_inbox ?row d = Inr (dup, d1)" and "inbox d' = inbox d1" "outbox d' = outbox d1"
    using assms unfolding ingest_envelope_tx_def Let_def by (auto split: sum.splits)
  moreover have "new_inbox (IngestEnvelope e pl' dec' why' now') ?row"
    by (simp only: new_inbox.simps, rule fresh_inbox_fresh) auto
  ultimately show ?thesis
    using insert_inbox_follow [OF ins] by (auto simp: channel_follow_def intro: outbox_follow_same)
qed

section \<open>Inbox\<close>

lemma recover_inbox_follow:
  "a = RecoverInbox now \<or> a = ClaimInbox w l pf now c \<Longrightarrow> inbox_follow a d (snd (recover_inbox_locked now d))"
  by (rule inbox_follow_update [of d "inbox_expired now"]) (auto simp: recover_inbox_locked_def intro: inbox_step.recover)

lemma recovered_inbox_map: "update_where (inbox_expired now) (recover_inbox_row now) S = map (recovered_inbox now) S"
  by (simp add: update_where_def recovered_inbox_def)

lemma recover_inbox_tables: "snd (recover_inbox_locked now d) = d\<lparr>inbox := map (recovered_inbox now) (inbox d)\<rparr>"
  by (simp add: recover_inbox_locked_def recovered_inbox_map)

lemma update_where_map: "update_where P f (map g S) = map (\<lambda>r. if P (g r) then f (g r) else g r) S"
  by (simp add: update_where_def)

lemma claim_inbox_eq: "claim_inbox_tx w now deadline pf d =
  (let d1 = d\<lparr>inbox := map (recovered_inbox now) (inbox d)\<rparr> in
   case received_inbox pf d1 of [] \<Rightarrow> Inr (None, d1)
   | q # _ \<Rightarrow> (let d2 = d\<lparr>inbox := map (\<lambda>r. if inbox_key (recovered_inbox now r) = inbox_key q \<and>
          ib_stat (recovered_inbox now r) = IbReceived
        then claim_inbox_row w now deadline (recovered_inbox now r) else recovered_inbox now r) (inbox d)\<rparr>
      in Inr (find_inbox (ib_platform q) (ib_event q) d2, d2)))"
  unfolding claim_inbox_tx_def recover_inbox_tables claim_inbox_row_def Let_def
  by (simp add: update_where_map split: list.split)

lemma claim_inbox_shape:
  assumes "claim_inbox_tx w now deadline pf d = Inr (x, d')"
  shows "outbox d' = outbox d \<and> (\<exists>P. inbox d' = map (\<lambda>r. if P r \<and> ib_stat (recovered_inbox now r) = IbReceived
     then claim_inbox_row w now deadline (recovered_inbox now r) else recovered_inbox now r) (inbox d))"
proof (cases "received_inbox pf (d\<lparr>inbox := map (recovered_inbox now) (inbox d)\<rparr>)")
  case Nil
  then have "d' = d\<lparr>inbox := map (recovered_inbox now) (inbox d)\<rparr>" using assms by (simp add: claim_inbox_eq)
  then show ?thesis by (auto intro: exI [of _ "\<lambda>_. False"])
next
  case (Cons q qs)
  then show ?thesis using assms unfolding claim_inbox_eq Let_def
    by (auto intro!: exI [of _ "\<lambda>r. inbox_key (recovered_inbox now r) = inbox_key q"])
qed

lemma claim_inbox_follow:
  assumes "claim_inbox_tx w now (c + timedelta_us l) pf d = Inr (x, d')" and "w \<noteq> []" "0 < l"
  shows "channel_follow env (ClaimInbox w l pf now c) d d'"
proof -
  obtain P where P: "outbox d' = outbox d" "inbox d' = map (\<lambda>r. if P r \<and> ib_stat (recovered_inbox now r) = IbReceived
     then claim_inbox_row w now (c + timedelta_us l) (recovered_inbox now r) else recovered_inbox now r) (inbox d)"
    using claim_inbox_shape [OF assms(1)] by blast
  have "inbox_step (ClaimInbox w l pf now c) r (recovered_inbox now r)" for r
    by (auto simp: recovered_inbox_def intro: inbox_step.keep inbox_step.recover)
  then have "inbox_follow (ClaimInbox w l pf now c) d d'"
    using inbox_step.claim [OF assms(2,3)] P(2)
    by (intro table_followI [of _ "\<lambda>r. if P r \<and> ib_stat (recovered_inbox now r) = IbReceived
     then claim_inbox_row w now (c + timedelta_us l) (recovered_inbox now r) else recovered_inbox now r" _ "[]"]) auto
  then show ?thesis using P(1) by (simp add: channel_follow_def outbox_follow_same)
qed

lemma update_held_inbox_Inr:
  "update_held_inbox P f d = Inr (x, d') \<longleftrightarrow> rowcount P (inbox d) = 1 \<and> d' = d\<lparr>inbox := update_where P f (inbox d)\<rparr>"
  by (auto simp: update_held_inbox_def)

lemma update_held_follow:
  "update_held_inbox P f d = Inr (x, d') \<Longrightarrow> (\<And>r. P r \<Longrightarrow> inbox_step a r (f r)) \<Longrightarrow> channel_follow env a d d'"
  by (auto simp: update_held_inbox_Inr channel_follow_def
      intro!: table_follow_update [OF inbox_step.keep] table_follow_refl [OF outbox_step.keep])

lemma link_inbox_follow:
  "link_inbox_tx p e ds run now d = Inr (x, d') \<Longrightarrow> channel_follow env (LinkInbox p e ds run now) d d'"
  by (auto simp: link_inbox_tx_def channel_follow_def link_target_def split: option.splits if_splits
      intro!: table_follow_update [OF inbox_step.keep] table_follow_refl [OF outbox_step.keep] inbox_step.link)

section \<open>Outbox\<close>

lemma enqueue_locked_Inr:
  assumes "enqueue_locked env now m d = Inr (row, d')"
  shows "(d' = d \<or> find_outbox (om_key m) d = None \<and> d' = d\<lparr>outbox := outbox d @ [fresh_outbox env m now]\<rparr>) \<and>
    find_outbox (om_key m) d' = Some row"
  using assms by (auto simp: enqueue_locked_def Let_def split: option.splits if_splits)

lemma enqueue_all_follow:
  "enqueue_all env now ms d = Inr (rows, d') \<Longrightarrow> (\<And>m. m \<in> set ms \<Longrightarrow> new_outbox env a (fresh_outbox env m now)) \<Longrightarrow>
   outbox_follow env a d0 d \<Longrightarrow> outbox_follow env a d0 d' \<and> inbox d' = inbox d"
proof (induction ms arbitrary: d rows)
  case (Cons m ms)
  obtain row d1 rows' where d1: "enqueue_locked env now m d = Inr (row, d1)" "enqueue_all env now ms d1 = Inr (rows', d')"
    using Cons.prems(1) by (auto split: sum.splits)
  have "outbox_follow env a d0 d1 \<and> inbox d1 = inbox d"
    using enqueue_locked_Inr [OF d1(1)] Cons.prems(2) [of m] Cons.prems(3) by (auto intro: table_follow_snoc)
  then show ?case using Cons.IH [OF d1(2)] Cons.prems(2) by simp
qed simp

lemma complete_with_outbox_follow:
  assumes "complete_with_outbox_tx env p e w ms run now d = Inr (x, d')"
  shows "channel_follow env (CompleteWithOutbox p e w ms run now) d d'"
proof -
  let ?k = "case ms of [] \<Rightarrow> None | m # _ \<Rightarrow> Some (om_key m)"
  obtain rows d1 where d1: "enqueue_all env now ms d = Inr (rows, d1)"
      "update_held_inbox (inbox_held p e w now) (close_inbox_row IbCompleted run ?k None now) d1 = Inr ((), d')"
    using assms by (auto simp: complete_with_outbox_tx_def split: sum.splits)
  have "outbox_follow env (CompleteWithOutbox p e w ms run now) d d1 \<and> inbox d1 = inbox d"
    by (rule enqueue_all_follow [OF d1(1)]) (auto intro: outbox_follow_same)
  moreover have "inbox_follow (CompleteWithOutbox p e w ms run now) d1 d'"
    using update_held_follow [OF d1(2)] inbox_step.complete by (auto simp: channel_follow_def)
  ultimately show ?thesis using d1(2) by (auto simp: channel_follow_def update_held_inbox_Inr)
qed

lemma recover_outbox_follow:
  "a = RecoverOutbox now \<or> a = ClaimOutbox w l pf now c \<Longrightarrow> outbox_follow env a d (snd (recover_outbox_locked now d))"
  by (rule outbox_follow_update [of d "outbox_expired now"]) (auto simp: recover_outbox_locked_def intro: outbox_step.recover)

definition recovered_outbox :: "instant \<Rightarrow> outbox_row \<Rightarrow> outbox_row" where
  "recovered_outbox now r = (if outbox_expired now r then recover_outbox_row now r else r)"

lemma recovered_outbox_map: "update_where (outbox_expired now) (recover_outbox_row now) S = map (recovered_outbox now) S"
  by (simp add: update_where_def recovered_outbox_def)

text \<open>A recovered row is of unknown outcome, so a claim takes a row that was pending before.\<close>

lemma recovered_pending: "ox_stat (recovered_outbox now r) = ObPending \<Longrightarrow> recovered_outbox now r = r \<and> ox_stat r = ObPending"
  by (auto simp: recovered_outbox_def recover_outbox_row_def split: if_splits)

lemma recover_outbox_tables: "snd (recover_outbox_locked now d) = d\<lparr>outbox := map (recovered_outbox now) (outbox d)\<rparr>"
  by (simp add: recover_outbox_locked_def recovered_outbox_map)

lemma claim_outbox_eq: "claim_outbox_tx w now deadline pf d =
  (let d1 = d\<lparr>outbox := map (recovered_outbox now) (outbox d)\<rparr> in
   case pending_outbox pf d1 of [] \<Rightarrow> Inr (None, d1)
   | q # _ \<Rightarrow> (let d2 = d\<lparr>outbox := map (\<lambda>r. if outbox_key (recovered_outbox now r) = outbox_key q \<and>
          ox_stat (recovered_outbox now r) = ObPending
        then claim_outbox_row w now deadline (recovered_outbox now r) else recovered_outbox now r) (outbox d)\<rparr>
      in Inr (find_outbox (outbox_key q) d2, d2)))"
  unfolding claim_outbox_tx_def recover_outbox_tables claim_outbox_row_def Let_def
  by (simp add: update_where_map split: list.split)

lemma pending_recovered: "ox_stat r = ObPending \<Longrightarrow> recovered_outbox now r = r"
  by (simp add: recovered_outbox_def outbox_expired_def)

lemma claim_outbox_shape:
  assumes "claim_outbox_tx w now deadline pf d = Inr (x, d')"
  shows "inbox d' = inbox d \<and> (\<exists>P. outbox d' = map (\<lambda>r. if P r \<and> ox_stat r = ObPending
     then claim_outbox_row w now deadline r else recovered_outbox now r) (outbox d))"
proof (cases "pending_outbox pf (d\<lparr>outbox := map (recovered_outbox now) (outbox d)\<rparr>)")
  case Nil
  then have "d' = d\<lparr>outbox := map (recovered_outbox now) (outbox d)\<rparr>" using assms by (simp add: claim_outbox_eq)
  then show ?thesis by (auto intro: exI [of _ "\<lambda>_. False"])
next
  case (Cons q qs)
  have "(if outbox_key (recovered_outbox now r) = outbox_key q \<and> ox_stat (recovered_outbox now r) = ObPending
      then claim_outbox_row w now deadline (recovered_outbox now r) else recovered_outbox now r) =
    (if outbox_key r = outbox_key q \<and> ox_stat r = ObPending
      then claim_outbox_row w now deadline r else recovered_outbox now r)" for r
    using pending_recovered [of r now] recovered_pending [of now r] by (cases "ox_stat r = ObPending") auto
  then have "outbox d' = map (\<lambda>r. if outbox_key r = outbox_key q \<and> ox_stat r = ObPending
      then claim_outbox_row w now deadline r else recovered_outbox now r) (outbox d)" "inbox d' = inbox d"
    using assms Cons unfolding claim_outbox_eq Let_def by auto
  then show ?thesis by (intro conjI exI [of _ "\<lambda>r. outbox_key r = outbox_key q"]) simp_all
qed

lemma claim_outbox_follow:
  assumes "claim_outbox_tx w now (c + timedelta_us l) pf d = Inr (x, d')" and "w \<noteq> []" "0 < l"
  shows "channel_follow env (ClaimOutbox w l pf now c) d d'"
proof -
  obtain P where P: "inbox d' = inbox d" "outbox d' = map (\<lambda>r. if P r \<and> ox_stat r = ObPending
     then claim_outbox_row w now (c + timedelta_us l) r else recovered_outbox now r) (outbox d)"
    using claim_outbox_shape [OF assms(1)] by blast
  have "outbox_step (ClaimOutbox w l pf now c) r (recovered_outbox now r)" for r
    by (auto simp: recovered_outbox_def intro: outbox_step.keep outbox_step.recover)
  then have "outbox_follow env (ClaimOutbox w l pf now c) d d'"
    using outbox_step.claim [OF assms(2,3)] P(2)
    by (intro table_followI [of _ "\<lambda>r. if P r \<and> ox_stat r = ObPending
     then claim_outbox_row w now (c + timedelta_us l) r else recovered_outbox now r" _ "[]"]) auto
  then show ?thesis using P(1) by (simp add: channel_follow_def inbox_follow_same)
qed

lemma update_outbox_Inr:
  "update_outbox k P f d = Inr (x, d') \<longleftrightarrow> rowcount P (outbox d) = 1 \<and> d' = d\<lparr>outbox := update_where P f (outbox d)\<rparr> \<and>
     x = find_outbox k d'"
  by (auto simp: update_outbox_def Let_def)

lemma update_outbox_follow:
  "update_outbox k P f d = Inr (x, d') \<Longrightarrow> (\<And>r. P r \<Longrightarrow> outbox_step a r (f r)) \<Longrightarrow> channel_follow env a d d'"
  by (auto simp: update_outbox_Inr channel_follow_def
      intro!: table_follow_update [OF outbox_step.keep] table_follow_refl [OF inbox_step.keep])

section \<open>The machine\<close>

lemma deadline_at_Inr: "deadline_at c l = Inr t \<longleftrightarrow> 0 < l \<and> t = c + timedelta_us l"
  by (auto simp: deadline_at_def)

lemma transaction_follow:
  "(\<And>x d'. body (chdb s) = Inr (x, d') \<Longrightarrow> channel_follow env a (chdb s) d') \<Longrightarrow>
   channel_follow env a (chdb s) (chdb (snd (channel_transaction body s)))"
  by (rule channel_transaction_rule) simp_all

lemma ingest_telegram_update_follow:
  "channel_follow env (IngestTelegram u p k rc now) (chdb s) (chdb (snd (ingest_telegram_update env u p k rc now s)))"
proof (cases "jget u ''update_id''")
  case (JInt i)
  show ?thesis
  proof (cases "normalize_telegram (ce_text env) (case p of None \<Rightarrow> ce_policy env | Some p \<Rightarrow> p) rc u")
    case (Inr nz)
    show ?thesis
    proof (cases "i < 0")
      case False
      then have "ingest_telegram_update env u p k rc now s =
          channel_transaction (ingest_telegram_tx (stream_or env k) i nz (JObj u)
            (sha256_hex (te_codec (ce_text env)) (JObj u)) now) s"
        using JInt Inr by (simp add: ingest_telegram_update_def)
      then show ?thesis by (simp only:) (rule transaction_follow, rule ingest_telegram_follow)
    qed (use JInt in \<open>simp add: ingest_telegram_update_def\<close>)
  qed (use JInt in \<open>simp add: ingest_telegram_update_def\<close>)
qed (simp_all add: ingest_telegram_update_def)

lemma inbox_op_follow:
  "channel_follow env (ClaimInbox w l pf now c) (chdb s) (chdb (snd (claim_inbox w l pf now c s)))"
  "channel_follow env (RecoverInbox now) (chdb s) (chdb (snd (recover_inbox_leases now s)))"
  "channel_follow env (HeartbeatInbox p e w l now c) (chdb s) (chdb (snd (heartbeat_inbox p e w l now c s)))"
  "channel_follow env (LinkInbox p e ds run now) (chdb s) (chdb (snd (link_inbox_run p e ds run now s)))"
  "channel_follow env (CompleteInbox p e w runo k now) (chdb s) (chdb (snd (complete_inbox p e w runo k now s)))"
  "channel_follow env (FailInbox p e w err runo now) (chdb s) (chdb (snd (fail_inbox p e w err runo now s)))"
proof -
  show "channel_follow env (ClaimInbox w l pf now c) (chdb s) (chdb (snd (claim_inbox w l pf now c s)))"
    by (auto simp: claim_inbox_def deadline_at_Inr split: sum.split intro!: transaction_follow claim_inbox_follow)
  show "channel_follow env (RecoverInbox now) (chdb s) (chdb (snd (recover_inbox_leases now s)))"
    unfolding recover_inbox_leases_def
  proof (rule transaction_follow)
    fix x d' assume "Inr (recover_inbox_locked now (chdb s)) = (Inr (x, d') :: channel_error + nat \<times> channel_db)"
    then have "d' = snd (recover_inbox_locked now (chdb s))" by simp
    then show "channel_follow env (RecoverInbox now) (chdb s) d'"
      using recover_inbox_follow [of "RecoverInbox now" now] outbox_follow_same [of d' "chdb s"]
      by (simp add: channel_follow_def recover_inbox_tables)
  qed
  show "channel_follow env (HeartbeatInbox p e w l now c) (chdb s) (chdb (snd (heartbeat_inbox p e w l now c s)))"
    by (auto simp: heartbeat_inbox_def deadline_at_Inr split: sum.split
        intro!: transaction_follow inbox_step.heartbeat elim!: update_held_follow)
  show "channel_follow env (LinkInbox p e ds run now) (chdb s) (chdb (snd (link_inbox_run p e ds run now s)))"
    by (auto simp: link_inbox_run_def intro!: transaction_follow elim!: link_inbox_follow)
  show "channel_follow env (CompleteInbox p e w runo k now) (chdb s) (chdb (snd (complete_inbox p e w runo k now s)))"
    by (auto simp: complete_inbox_def finish_inbox_def intro!: transaction_follow intro: inbox_step.complete elim!: update_held_follow)
  show "channel_follow env (FailInbox p e w err runo now) (chdb s) (chdb (snd (fail_inbox p e w err runo now s)))"
    by (auto simp: fail_inbox_def finish_inbox_def intro!: transaction_follow inbox_step.fail elim!: update_held_follow)
qed

lemma outbox_op_follow:
  "channel_follow env (Enqueue m now) (chdb s) (chdb (snd (enqueue_outbox env m now s)))"
  "channel_follow env (ClaimOutbox w l pf now c) (chdb s) (chdb (snd (claim_outbox w l pf now c s)))"
  "channel_follow env (RecoverOutbox now) (chdb s) (chdb (snd (recover_outbox_leases now s)))"
  "channel_follow env (HeartbeatOutbox k w l now c) (chdb s) (chdb (snd (heartbeat_outbox k w l now c s)))"
  "channel_follow env (MarkSent k w rc now) (chdb s) (chdb (snd (mark_outbox_sent k w rc now s)))"
  "channel_follow env (MarkUnknown k w err now) (chdb s) (chdb (snd (mark_outbox_unknown k w err now s)))"
  "channel_follow env (MarkFailed k w err now) (chdb s) (chdb (snd (mark_outbox_failed k w err now s)))"
  "channel_follow env (ResolveOutbox k b n now) (chdb s) (chdb (snd (resolve_outbox k b n now s)))"
  "channel_follow env (RetryOutbox k n now) (chdb s) (chdb (snd (retry_outbox k n now s)))"
proof -
  show "channel_follow env (Enqueue m now) (chdb s) (chdb (snd (enqueue_outbox env m now s)))"
    unfolding enqueue_outbox_def
  proof (rule transaction_follow)
    fix x d' assume "enqueue_locked env now m (chdb s) = Inr (x, d')"
    from enqueue_locked_Inr [OF this] show "channel_follow env (Enqueue m now) (chdb s) d'"
      by (auto simp: channel_follow_def intro!: table_follow_snoc table_follow_refl [OF outbox_step.keep] inbox_follow_same)
  qed
  show "channel_follow env (ClaimOutbox w l pf now c) (chdb s) (chdb (snd (claim_outbox w l pf now c s)))"
    by (auto simp: claim_outbox_def deadline_at_Inr split: sum.split intro!: transaction_follow claim_outbox_follow)
  show "channel_follow env (RecoverOutbox now) (chdb s) (chdb (snd (recover_outbox_leases now s)))"
    unfolding recover_outbox_leases_def
  proof (rule transaction_follow)
    fix x d' assume "Inr (recover_outbox_locked now (chdb s)) = (Inr (x, d') :: channel_error + nat \<times> channel_db)"
    then have "d' = snd (recover_outbox_locked now (chdb s))" by simp
    then show "channel_follow env (RecoverOutbox now) (chdb s) d'"
      using recover_outbox_follow [of "RecoverOutbox now" now] inbox_follow_same [of d' "chdb s"]
      by (simp add: channel_follow_def recover_outbox_tables)
  qed
  show "channel_follow env (HeartbeatOutbox k w l now c) (chdb s) (chdb (snd (heartbeat_outbox k w l now c s)))"
    by (auto simp: heartbeat_outbox_def deadline_at_Inr split: sum.split
        intro!: transaction_follow outbox_step.heartbeat elim!: update_outbox_follow)
  show "channel_follow env (MarkSent k w rc now) (chdb s) (chdb (snd (mark_outbox_sent k w rc now s)))"
    by (auto simp: mark_outbox_sent_def finish_outbox_def finish_outbox_row_def [symmetric]
        intro!: transaction_follow outbox_step.sent elim!: update_outbox_follow)
  show "channel_follow env (MarkUnknown k w err now) (chdb s) (chdb (snd (mark_outbox_unknown k w err now s)))"
    by (auto simp: mark_outbox_unknown_def finish_outbox_def finish_outbox_row_def [symmetric]
        intro!: transaction_follow outbox_step.unknown elim!: update_outbox_follow)
  show "channel_follow env (MarkFailed k w err now) (chdb s) (chdb (snd (mark_outbox_failed k w err now s)))"
    by (auto simp: mark_outbox_failed_def finish_outbox_def finish_outbox_row_def [symmetric]
        intro!: transaction_follow outbox_step.failed elim!: update_outbox_follow)
  show "channel_follow env (ResolveOutbox k b n now) (chdb s) (chdb (snd (resolve_outbox k b n now s)))"
    unfolding resolve_outbox_def
    using outbox_step.resolve [of _ k b n now]
    by (cases "n = []") (auto intro!: transaction_follow elim!: update_outbox_follow)
  show "channel_follow env (RetryOutbox k n now) (chdb s) (chdb (snd (retry_outbox k n now s)))"
    unfolding retry_outbox_def
    using outbox_step.retry [of _ k n now]
    by (cases "n = []") (auto intro!: transaction_follow elim!: update_outbox_follow)
qed

theorem channel_exec_follow: "channel_follow env a (chdb s) (chdb (channel_exec env a s))"
proof (cases a)
  case (BindIdentity b k now)
  then show ?thesis using bind_identity_tables
    by (auto simp: bind_telegram_identity_def intro!: transaction_follow channel_follow_same)
next
  case (BeginEpoch n k now)
  then show ?thesis using begin_epoch_tables
    by (auto simp: begin_telegram_epoch_def intro!: transaction_follow channel_follow_same)
next
  case (SetOffset n k now)
  then show ?thesis by (auto simp: set_telegram_offset_def intro!: transaction_follow channel_follow_same)
next
  case (IngestEnvelope e pl dec why now)
  then show ?thesis unfolding IngestEnvelope channel_exec.simps ingest_envelope_def Let_def
    by (intro transaction_follow) (rule ingest_envelope_follow)
next
  case (CompleteWithOutbox p e w ms run now)
  then show ?thesis
    by (auto simp: complete_inbox_with_outbox_def intro!: transaction_follow elim!: complete_with_outbox_follow)
next
  case (RecordNotification k p e ks now)
  then show ?thesis using record_notification_tables
    by (auto simp: record_notification_def intro!: transaction_follow channel_follow_same)
next
  case CloseChannel
  then show ?thesis by (simp add: close_channel_store_def)
qed (simp_all add: ingest_telegram_update_follow inbox_op_follow outbox_op_follow)

end
