(* ===== verification/ChannelInvariants.thy ===== *)
theory ChannelInvariants
  imports ChannelSteps
begin

text \<open>
  The invariant of the channel store and its preservation by every operation: the rows agree with
  their status, the keys are unique, each inbox row has its audit record, and every notification
  refers to stored rows.
\<close>

section \<open>Rows\<close>

definition inbox_row_ok :: "inbox_row \<Rightarrow> bool" where
  "inbox_row_ok r \<longleftrightarrow> 0 \<le> ib_attempts r \<and>
     (if ib_stat r = IbProcessing then ib_owner r \<noteq> None \<and> ib_expires r \<noteq> None \<and> 0 < ib_attempts r
      else ib_owner r = None \<and> ib_expires r = None) \<and>
     (if ib_decision r = AuAllow \<and> ib_envelope r \<noteq> None then ib_payload r \<noteq> None \<and> ib_downstream r \<noteq> None
      else ib_stat r = IbCompleted \<and> ib_payload r = None \<and> ib_envelope r = None \<and> ib_thread r = None \<and>
        ib_downstream r = None \<and> ib_attempts r = 0 \<and> ib_run r = None)"

definition outbox_row_ok :: "channel_env \<Rightarrow> outbox_row \<Rightarrow> bool" where
  "outbox_row_ok env r \<longleftrightarrow> ox_hash r = content_hash env (ox_message r) \<and> 0 \<le> ox_attempts r \<and>
     (ox_stat r \<noteq> ObPending \<longrightarrow> 0 < ox_attempts r) \<and> (ox_receipt r \<noteq> None \<longrightarrow> ox_stat r = ObSent) \<and>
     (if ox_stat r = ObSending then ox_owner r \<noteq> None \<and> ox_expires r \<noteq> None
      else ox_owner r = None \<and> ox_expires r = None)"

lemmas inbox_fields = recover_inbox_row_def recovered_inbox_def claim_inbox_row_def close_inbox_row_def
  inbox_expired_def inbox_held_def or_else_def

lemmas outbox_fields = recover_outbox_row_def claim_outbox_row_def finish_outbox_row_def
  outbox_expired_def outbox_held_def

lemma recovered_inbox_ok: "inbox_row_ok r \<Longrightarrow> inbox_expired now r \<Longrightarrow> inbox_row_ok (recover_inbox_row now r)"
  by (simp add: inbox_row_ok_def recover_inbox_row_def inbox_expired_def split: if_splits)

lemma recovered_ok: "inbox_row_ok r \<Longrightarrow> inbox_row_ok (recovered_inbox now r)"
  by (simp add: recovered_inbox_def recovered_inbox_ok)

lemma claimed_inbox_ok: "inbox_row_ok q \<Longrightarrow> ib_stat q = IbReceived \<Longrightarrow> inbox_row_ok (claim_inbox_row w now e q)"
  by (simp add: inbox_row_ok_def claim_inbox_row_def split: if_splits)

lemma closed_inbox_ok:
  "inbox_row_ok r \<Longrightarrow> inbox_held p ev w now r \<Longrightarrow> st \<in> {IbCompleted, IbFailed} \<Longrightarrow> inbox_row_ok (close_inbox_row st run k err now r)"
  by (auto simp: inbox_row_ok_def close_inbox_row_def inbox_held_def split: if_splits)

lemma inbox_step_ok: "inbox_step a r r' \<Longrightarrow> inbox_row_ok r \<Longrightarrow> inbox_row_ok r'"
proof (erule inbox_step.cases, goal_cases)
  case 4 then show ?case by (simp add: inbox_row_ok_def inbox_held_def split: if_splits)
next
  case 5 then show ?case by (simp add: inbox_row_ok_def split: if_splits)
qed (simp_all add: recovered_inbox_ok recovered_ok claimed_inbox_ok closed_inbox_ok)

lemma outbox_step_ok: "outbox_step a r r' \<Longrightarrow> outbox_row_ok env r \<Longrightarrow> outbox_row_ok env r'"
proof (erule outbox_step.cases, goal_cases)
  case 9 then show ?case by (auto simp: outbox_row_ok_def)
qed (simp_all add: outbox_row_ok_def outbox_fields split: if_splits)

lemma fresh_inbox_row_ok: "fresh_inbox_row r \<Longrightarrow> inbox_row_ok r"
  by (auto simp: fresh_inbox_row_def inbox_row_ok_def split: if_splits)

lemma new_inbox_ok: "new_inbox a r \<Longrightarrow> inbox_row_ok r"
  by (cases a) (simp_all add: fresh_inbox_row_ok)

lemma new_outbox_ok: "new_outbox env a r \<Longrightarrow> outbox_row_ok env r"
  by (cases a) (auto simp: fresh_outbox_def outbox_row_ok_def)

text \<open>What of an inbox row never changes: what the audit repeats, and the content.\<close>

definition inbox_audit where
  "inbox_audit r = (inbox_key r, ib_type r, ib_user r, ib_channel r, ib_hash r, ib_decision r, ib_reason r, ib_created r)"

definition audit_facts where
  "audit_facts a = ((ad_platform a, ad_event a), ad_type a, ad_user a, ad_channel a, ad_hash a, ad_decision a,
     ad_reason a, ad_created a)"

definition inbox_facts where
  "inbox_facts r = (inbox_audit r, ib_thread r, ib_downstream r, ib_payload r, ib_envelope r)"

lemma inbox_step_facts: "inbox_step a r r' \<Longrightarrow> inbox_facts r' = inbox_facts r"
  by (erule inbox_step.cases) (auto simp: inbox_facts_def inbox_audit_def inbox_key_def inbox_fields)

section \<open>Tables\<close>

definition downstreams :: "inbox_row list \<Rightarrow> str list" where
  "downstreams S = List.map_filter ib_downstream S"

definition channel_tables_ok :: "channel_db \<Rightarrow> bool" where
  "channel_tables_ok d \<longleftrightarrow> keyed inbox_key (inbox d) \<and> distinct (downstreams (inbox d)) \<and>
     keyed outbox_key (outbox d) \<and>
     keyed of_key (offsets d) \<and> (\<forall>r \<in> set (offsets d). 0 \<le> of_next r \<and> 0 \<le> of_epoch r) \<and>
     map audit_facts (audits d) = map inbox_audit (inbox d) \<and>
     keyed nt_key (notifications d) \<and>
     (\<forall>n \<in> set (notifications d). set (nt_outbox n) \<subseteq> outbox_key ` set (outbox d) \<and>
        (nt_platform n, nt_event n) \<in> inbox_key ` set (inbox d))"

definition channel_ok :: "channel_env \<Rightarrow> channel_db \<Rightarrow> bool" where
  "channel_ok env d \<longleftrightarrow> channel_tables_ok d \<and> (\<forall>r \<in> set (inbox d). inbox_row_ok r) \<and>
     (\<forall>r \<in> set (outbox d). outbox_row_ok env r)"

lemma facts_projections:
  assumes "map inbox_facts S' = map inbox_facts S"
  shows "map inbox_key S' = map inbox_key S" "map inbox_audit S' = map inbox_audit S" "downstreams S' = downstreams S"
proof -
  show "map inbox_audit S' = map inbox_audit S"
    using arg_cong [OF assms, of "map fst"] by (simp add: inbox_facts_def comp_def)
  show "map inbox_key S' = map inbox_key S"
    using arg_cong [OF assms, of "map (\<lambda>x. fst (fst x))"] by (simp add: inbox_facts_def inbox_audit_def comp_def)
  have "map ib_downstream S' = map ib_downstream S"
    using arg_cong [OF assms, of "map (\<lambda>x. fst (snd (snd x)))"] by (simp add: inbox_facts_def comp_def)
  moreover have "downstreams T = List.map_filter id (map ib_downstream T)" for T
    by (simp add: downstreams_def map_filter_def comp_def filter_map)
  ultimately show "downstreams S' = downstreams S" by simp
qed

text \<open>The tables depend on the inbox through what never changes, and on the outbox through its keys.\<close>

lemma tables_ok_same:
  assumes "channel_tables_ok d" and "map inbox_facts (inbox d') = map inbox_facts (inbox d)"
    and "map outbox_key (outbox d') = map outbox_key (outbox d)"
    and "offsets d' = offsets d" "audits d' = audits d" "notifications d' = notifications d"
  shows "channel_tables_ok d'"
proof -
  note p = facts_projections [OF assms(2)]
  have "inbox_key ` set (inbox d') = inbox_key ` set (inbox d)" "outbox_key ` set (outbox d') = outbox_key ` set (outbox d)"
    using arg_cong [OF p(1), of set] arg_cong [OF assms(3), of set] by simp_all
  then show ?thesis
    using assms(1,3-6) p by (simp add: channel_tables_ok_def keyed_def)
qed

text \<open>The operations that neither insert a row nor touch the other tables.\<close>

definition other_tables_same :: "channel_db \<Rightarrow> channel_db \<Rightarrow> bool" where
  "other_tables_same d d' \<longleftrightarrow> offsets d' = offsets d \<and> audits d' = audits d \<and> notifications d' = notifications d"

lemma other_tables_refl [simp]: "other_tables_same d d"
  by (simp add: other_tables_same_def)

lemma tables_ok_quiet:
  assumes follow: "channel_follow env a d d'" and "\<And>r. \<not> new_inbox a r" "\<And>r. \<not> new_outbox env a r"
    and "other_tables_same d d'" and "channel_tables_ok d"
  shows "channel_tables_ok d'"
proof (rule tables_ok_same [OF assms(5)])
  have in': "inbox_follow a d d'" and out': "outbox_follow env a d d'" using follow by (simp_all add: channel_follow_def)
  show "map inbox_facts (inbox d') = map inbox_facts (inbox d)"
    by (rule table_follow_same_keys [OF in' assms(2)]) (rule inbox_step_facts)
  show "map outbox_key (outbox d') = map outbox_key (outbox d)"
    by (rule table_follow_same_keys [OF out' assms(3)]) (rule outbox_step_key)
qed (use assms(4) in \<open>simp_all add: other_tables_same_def\<close>)

subsection \<open>Offsets\<close>

text \<open>A cursor moves forward: to a later epoch, or further within its epoch.\<close>

definition offset_step :: "offset_row \<Rightarrow> offset_row \<Rightarrow> bool" where
  "offset_step r r' \<longleftrightarrow> of_key r' = of_key r \<and>
     (of_epoch r < of_epoch r' \<or> of_epoch r' = of_epoch r \<and> of_next r \<le> of_next r') \<and>
     (0 \<le> of_next r \<longrightarrow> 0 \<le> of_next r')"

definition offsets_follow :: "channel_db \<Rightarrow> channel_db \<Rightarrow> bool" where
  "offsets_follow d d' \<longleftrightarrow> (keyed of_key (offsets d) \<longrightarrow> keyed of_key (offsets d')) \<and>
     table_follow offset_step (\<lambda>r. 0 \<le> of_next r \<and> 0 \<le> of_epoch r) (offsets d) (offsets d')"

lemma offset_step_refl [simp]: "offset_step r r"
  by (simp add: offset_step_def)

lemma offsets_follow_same: "offsets d' = offsets d \<Longrightarrow> offsets_follow d d'"
  by (simp add: offsets_follow_def table_follow_refl)

lemma offsets_follow_snoc [simp]:
  "find_offset (of_key r) d = None \<Longrightarrow> 0 \<le> of_next r \<Longrightarrow> 0 \<le> of_epoch r \<Longrightarrow>
   offsets_follow d (d\<lparr>offsets := offsets d @ [r]\<rparr>)"
  unfolding offsets_follow_def by (simp add: table_follow_snoc table_follow_refl)

lemma offsets_follow_update [simp]:
  "\<forall>r \<in> set (offsets d). of_key r = k \<longrightarrow> offset_step r (f r) \<Longrightarrow> \<forall>r. of_key (f r) = of_key r \<Longrightarrow>
   offsets_follow d (d\<lparr>offsets := update_where (\<lambda>r. of_key r = k) f (offsets d)\<rparr>)"
  unfolding offsets_follow_def by (simp add: table_follow_update)

lemma bump_offset_follow: "0 \<le> n \<Longrightarrow> offsets_follow d (bump_offset k n now d)"
  unfolding bump_offset_def by (auto simp: offset_step_def intro!: offsets_follow_update)

lemma bind_identity_follow:
  assumes "bind_identity_tx b k now d = Inr (x, d')" and "keyed of_key (offsets d)"
  shows "offsets_follow d d'"
proof (cases "find_offset k d")
  case None
  then show ?thesis using assms(1) by (auto simp: bind_identity_tx_def)
next
  case (Some row)
  have same: "\<forall>r \<in> set (offsets d). of_key r = k \<longrightarrow> r = row"
    using by_key_same [OF assms(2) Some] by blast
  show ?thesis
  proof (cases "of_bot row")
    case None
    then have "d' = d\<lparr>offsets := update_where (\<lambda>r. of_key r = k) (\<lambda>r. r\<lparr>of_bot := Some b, of_updated := now\<rparr>) (offsets d)\<rparr>"
      using assms(1) Some by (simp add: bind_identity_tx_def)
    then show ?thesis by (simp add: offset_step_def)
  next
    case (Some previous)
    then show ?thesis
      using assms(1) \<open>find_offset k d = Some row\<close> same
      by (cases "previous = b") (auto simp: bind_identity_tx_def offset_step_def offsets_follow_same)
  qed
qed

lemma begin_epoch_follow:
  assumes "begin_epoch_tx n k now d = Inr (x, d')" and "0 \<le> n"
  shows "offsets_follow d d'"
proof (cases "find_offset k d")
  case None
  then have "d' = d\<lparr>offsets := offsets d @ [\<lparr>of_key = k, of_next = n, of_updated = now, of_epoch = 1,
                               of_activity = Some now, of_bot = None\<rparr>]\<rparr>"
    using assms(1) by (simp add: begin_epoch_tx_def split: option.splits)
  then show ?thesis using None assms(2) by simp
next
  case (Some r)
  then have "d' = d\<lparr>offsets := update_where (\<lambda>r. of_key r = k) (\<lambda>r. r\<lparr>of_next := n, of_updated := now,
                   of_epoch := of_epoch r + 1, of_activity := Some now\<rparr>) (offsets d)\<rparr>"
    using assms(1) by (simp add: begin_epoch_tx_def split: option.splits)
  then show ?thesis using assms(2) by (simp add: offset_step_def)
qed

lemma offsets_follow_ok:
  assumes "offsets_follow d d'" and "channel_tables_ok d"
  shows "keyed of_key (offsets d') \<and> (\<forall>r \<in> set (offsets d'). 0 \<le> of_next r \<and> 0 \<le> of_epoch r)"
proof -
  have "\<forall>r \<in> set (offsets d'). 0 \<le> of_next r \<and> 0 \<le> of_epoch r"
    using assms(1) unfolding offsets_follow_def
    by (elim conjE table_follow_all) (use assms(2) in \<open>auto simp: offset_step_def channel_tables_ok_def\<close>)
  then show ?thesis using assms by (simp add: offsets_follow_def channel_tables_ok_def)
qed

lemma tables_ok_offsets:
  assumes "channel_tables_ok d" and "offsets_follow d d'" and "inbox d' = inbox d" "outbox d' = outbox d"
    "audits d' = audits d" "notifications d' = notifications d"
  shows "channel_tables_ok d'"
  using offsets_follow_ok [OF assms(2,1)] assms(1,3-6) by (simp add: channel_tables_ok_def)

subsection \<open>Insertions\<close>

lemma tables_ok_new_outbox:
  assumes "channel_tables_ok d" and "find_outbox (outbox_key r) d = None"
  shows "channel_tables_ok (d\<lparr>outbox := outbox d @ [r]\<rparr>)"
  using assms by (auto simp: channel_tables_ok_def)

lemma tables_ok_enqueue:
  assumes "channel_tables_ok d" and "enqueue_locked env now m d = Inr (row, d')"
  shows "channel_tables_ok d'"
  using enqueue_locked_Inr [OF assms(2)] tables_ok_new_outbox [OF assms(1), of "fresh_outbox env m now"] assms(1)
  by (auto simp: outbox_key_def fresh_outbox_def)

lemma tables_ok_enqueue_all:
  "channel_tables_ok d \<Longrightarrow> enqueue_all env now ms d = Inr (rows, d') \<Longrightarrow> channel_tables_ok d'"
proof (induction ms arbitrary: d rows)
  case (Cons m ms)
  obtain row d1 rows' where "enqueue_locked env now m d = Inr (row, d1)" "enqueue_all env now ms d1 = Inr (rows', d')"
    using Cons.prems(2) by (auto split: sum.splits)
  then show ?case using Cons.IH tables_ok_enqueue [OF Cons.prems(1)] by blast
qed simp

lemma map_facts_update:
  "(\<And>r. inbox_facts (f r) = inbox_facts r) \<Longrightarrow> map inbox_facts (update_where P f S) = map inbox_facts S"
  by (simp add: update_where_def)

lemma close_inbox_facts [simp]: "inbox_facts (close_inbox_row st run k err now r) = inbox_facts r"
  by (simp add: inbox_facts_def inbox_audit_def inbox_key_def close_inbox_row_def)

lemma tables_ok_complete_with:
  assumes "channel_tables_ok d" and "complete_with_outbox_tx env p e w ms run now d = Inr (x, d')"
  shows "channel_tables_ok d'"
proof -
  let ?k = "case ms of [] \<Rightarrow> None | m # _ \<Rightarrow> Some (om_key m)"
  obtain rows d1 where d1: "enqueue_all env now ms d = Inr (rows, d1)"
      "update_held_inbox (inbox_held p e w now) (close_inbox_row IbCompleted run ?k None now) d1 = Inr ((), d')"
    using assms(2) by (auto simp: complete_with_outbox_tx_def split: sum.splits)
  show ?thesis
    by (rule tables_ok_same [OF tables_ok_enqueue_all [OF assms(1) d1(1)]])
      (use d1(2) in \<open>auto simp: update_held_inbox_Inr map_facts_update\<close>)
qed

lemma downstreams_snoc: "downstreams (S @ [r]) = downstreams S @ (case ib_downstream r of None \<Rightarrow> [] | Some k \<Rightarrow> [k])"
  by (simp add: downstreams_def map_filter_def split: option.split)

lemma set_downstreams: "k \<in> set (downstreams S) \<longleftrightarrow> (\<exists>r \<in> set S. ib_downstream r = Some k)"
  by (force simp: downstreams_def map_filter_def)

text \<open>An insert and its audit record keep the tables; so does a duplicate, which stores nothing.\<close>

lemma tables_ok_insert_inbox:
  assumes "channel_tables_ok d" and "insert_inbox row d = Inr (dup, d1)" and "audit_facts ad = inbox_audit row"
  shows "channel_tables_ok (if dup then d1 else add_audit ad d1)"
proof -
  consider (dup) "dup" "d1 = d"
    | (new) "\<not> dup" "find_inbox (ib_platform row) (ib_event row) d = None"
        "ib_downstream row = None \<or> (\<forall>r \<in> set (inbox d). ib_downstream r \<noteq> ib_downstream row)"
        "d1 = d\<lparr>inbox := inbox d @ [row]\<rparr>"
    using assms(2) by (auto simp: insert_inbox_def split: if_splits)
  then show ?thesis
  proof cases
    case new
    have "find_inbox (fst (inbox_key row)) (snd (inbox_key row)) d = None" using new(2) by (simp add: inbox_key_def)
    moreover have "distinct (downstreams (inbox d @ [row]))"
      using new(3) assms(1) by (auto simp: downstreams_snoc channel_tables_ok_def set_downstreams split: option.split)
    ultimately show ?thesis
      using new(1,4) assms(1,3) by (auto simp: channel_tables_ok_def add_audit_def)
  qed (use assms(1) in simp)
qed

lemma fresh_inbox_audit:
  "audit_facts \<lparr>ad_platform = p, ad_event = e, ad_type = ty, ad_user = u, ad_channel = c, ad_action = ac,
     ad_hash = h, ad_decision = dec, ad_reason = why, ad_created = now\<rparr> =
   inbox_audit (fresh_inbox p e ty u c env' pl h dec why now)"
  by (simp add: audit_facts_def inbox_audit_def inbox_key_def fresh_inbox_def)

lemma tables_ok_ingest_envelope:
  assumes "channel_tables_ok d" and "ingest_envelope_tx e payload hash dec why now d = Inr (x, d')"
  shows "channel_tables_ok d'"
  using assms(2) tables_ok_insert_inbox [OF assms(1)] fresh_inbox_audit
  unfolding ingest_envelope_tx_def Let_def by (auto split: sum.splits)

lemma bump_audit: "add_audit ad (bump_offset k n now d) = bump_offset k n now (add_audit ad d)"
  by (simp add: add_audit_def bump_offset_def)

lemma tables_ok_bump: "channel_tables_ok d \<Longrightarrow> 0 \<le> n \<Longrightarrow> channel_tables_ok (bump_offset k n now d)"
  by (rule tables_ok_offsets [OF _ bump_offset_follow]) simp_all

lemma ingest_telegram_shape:
  assumes "ingest_telegram_tx key i nz payload hash now d = Inr (x, d')"
  obtains row dup d1 ad where "insert_inbox row d = Inr (dup, d1)" "audit_facts ad = inbox_audit row"
    "d' = bump_offset key (i + 1) now (if dup then d1 else add_audit ad d1)"
    "inbox_key row = (PfTelegram, telegram_event_id (case find_offset key d of None \<Rightarrow> 0 | Some r \<Rightarrow> of_epoch r) i)"
    "ir_duplicate x = dup"
proof -
  let ?event = "telegram_event_id (case find_offset key d of None \<Rightarrow> 0 | Some r \<Rightarrow> of_epoch r) i"
  let ?envelope = "if nz_decision nz = AuAllow
             then map_option (\<lambda>e. e\<lparr>ev_event := ?event, ev_downstream := ''telegram:update:'' @ ?event\<rparr>) (nz_envelope nz)
             else None"
  let ?row = "fresh_inbox PfTelegram ?event (nz_type nz) (nz_user nz) (nz_channel nz) ?envelope
                  (if ?envelope = None then None else Some payload) hash (nz_decision nz) (nz_reason nz) now"
  let ?ad = "\<lparr>ad_platform = PfTelegram, ad_event = ?event, ad_type = nz_type nz, ad_user = nz_user nz,
     ad_channel = nz_channel nz, ad_action = nz_action nz, ad_hash = hash, ad_decision = nz_decision nz,
     ad_reason = nz_reason nz, ad_created = now\<rparr>"
  obtain dup d1 where ins: "insert_inbox ?row d = Inr (dup, d1)" and "ir_duplicate x = dup"
    and "d' = bump_offset key (i + 1) now (if dup then d1 else add_audit ?ad d1)"
    using assms unfolding ingest_telegram_tx_def Let_def by (auto simp: bump_audit split: sum.splits)
  moreover have "audit_facts ?ad = inbox_audit ?row" by (rule fresh_inbox_audit)
  moreover have "inbox_key ?row = (PfTelegram, ?event)" by (simp add: inbox_key_def fresh_inbox_def)
  ultimately show thesis using that by blast
qed

lemma tables_ok_ingest_telegram:
  assumes "channel_tables_ok d" and "ingest_telegram_tx key i nz payload hash now d = Inr (x, d')" and "0 \<le> i"
  shows "channel_tables_ok d'"
proof -
  obtain row dup d1 ad where shape: "insert_inbox row d = Inr (dup, d1)" "audit_facts ad = inbox_audit row"
    "d' = bump_offset key (i + 1) now (if dup then d1 else add_audit ad d1)"
    using ingest_telegram_shape [OF assms(2)] by metis
  then show ?thesis
    using tables_ok_insert_inbox [OF assms(1) shape(1,2)] assms(3) by (simp add: tables_ok_bump)
qed

lemma tables_ok_notification:
  assumes "channel_tables_ok d" and "record_notification_tx k p e ks now d = Inr (x, d')"
  shows "channel_tables_ok d'"
proof (cases "by_key nt_key k (notifications d)")
  case None
  let ?n = "\<lparr>nt_key = k, nt_platform = p, nt_event = e, nt_outbox = ks, nt_created = now\<rparr>"
  have known: "\<forall>j \<in> set ks. find_outbox j d \<noteq> None" "find_inbox p e d \<noteq> None"
      and d': "d' = d\<lparr>notifications := notifications d @ [?n]\<rparr>"
    using assms(2) None by (auto simp: record_notification_tx_def Let_def by_key_append split: if_splits)
  have "set ks \<subseteq> outbox_key ` set (outbox d)" "(p, e) \<in> inbox_key ` set (inbox d)"
    using known by (auto simp: by_key_None_iff)
  then show ?thesis using assms(1) None d' by (auto simp: channel_tables_ok_def)
next
  case (Some row)
  then show ?thesis using assms by (auto simp: record_notification_tx_def Let_def split: if_splits)
qed

subsection \<open>Every call\<close>

lemma transaction_tables_ok:
  "channel_tables_ok (chdb s) \<Longrightarrow> (\<And>x d'. body (chdb s) = Inr (x, d') \<Longrightarrow> channel_tables_ok d') \<Longrightarrow>
   channel_tables_ok (chdb (snd (channel_transaction body s)))"
  by (auto simp: channel_transaction_def split: sum.splits)

lemma transaction_other_tables:
  "(\<And>x d'. body (chdb s) = Inr (x, d') \<Longrightarrow> other_tables_same (chdb s) d') \<Longrightarrow>
   other_tables_same (chdb s) (chdb (snd (channel_transaction body s)))"
  by (auto simp: channel_transaction_def split: sum.splits)

lemma held_other_tables: "update_held_inbox P f d = Inr (x, d') \<Longrightarrow> other_tables_same d d'"
  by (auto simp: update_held_inbox_Inr other_tables_same_def)

lemma outbox_other_tables: "update_outbox k P f d = Inr (x, d') \<Longrightarrow> other_tables_same d d'"
  by (auto simp: update_outbox_def Let_def other_tables_same_def split: if_splits)

lemma tx_other_tables:
  "link_inbox_tx p e ds run now d = Inr (u, d') \<Longrightarrow> other_tables_same d d'"
  "claim_inbox_tx w now dl pf d = Inr (ib, d') \<Longrightarrow> other_tables_same d d'"
  "claim_outbox_tx w now dl pf d = Inr (ob, d') \<Longrightarrow> other_tables_same d d'"
  by (auto simp: link_inbox_tx_def claim_inbox_eq claim_outbox_eq Let_def other_tables_same_def
      split: option.splits if_splits list.splits)

fun quiet_op :: "channel_op \<Rightarrow> bool" where
  "quiet_op (ClaimInbox w l pf now c) = True"
| "quiet_op (RecoverInbox now) = True"
| "quiet_op (HeartbeatInbox p e w l now c) = True"
| "quiet_op (LinkInbox p e ds run now) = True"
| "quiet_op (CompleteInbox p e w runo k now) = True"
| "quiet_op (FailInbox p e w err runo now) = True"
| "quiet_op (ClaimOutbox w l pf now c) = True"
| "quiet_op (RecoverOutbox now) = True"
| "quiet_op (HeartbeatOutbox k w l now c) = True"
| "quiet_op (MarkSent k w rc now) = True"
| "quiet_op (MarkUnknown k w err now) = True"
| "quiet_op (MarkFailed k w err now) = True"
| "quiet_op (ResolveOutbox k b n now) = True"
| "quiet_op (RetryOutbox k n now) = True"
| "quiet_op CloseChannel = True"
| "quiet_op _ = False"

lemma quiet_no_news: "quiet_op a \<Longrightarrow> \<not> new_inbox a r \<and> \<not> new_outbox env a q"
  by (cases a) simp_all

lemma deadline_other_tables:
  "(\<And>t. other_tables_same (chdb s) (chdb (snd (channel_transaction (body t) s)))) \<Longrightarrow>
   other_tables_same (chdb s) (chdb (snd (case x of Inl e \<Rightarrow> (Inl e, s) | Inr t \<Rightarrow> channel_transaction (body t) s)))"
  by (simp split: sum.split)

lemmas quiet_ops = claim_inbox_def recover_inbox_leases_def heartbeat_inbox_def link_inbox_run_def complete_inbox_def
  fail_inbox_def finish_inbox_def claim_outbox_def recover_outbox_leases_def heartbeat_outbox_def
  mark_outbox_sent_def mark_outbox_unknown_def mark_outbox_failed_def finish_outbox_def resolve_outbox_def
  retry_outbox_def close_channel_store_def

lemma recover_other_tables:
  "Inr (recover_inbox_locked now d) = (Inr (n, d') :: channel_error + nat \<times> channel_db) \<Longrightarrow> other_tables_same d d'"
  "Inr (recover_outbox_locked now d) = (Inr (n, d') :: channel_error + nat \<times> channel_db) \<Longrightarrow> other_tables_same d d'"
  by (auto simp: recover_inbox_locked_def recover_outbox_locked_def other_tables_same_def)

lemmas tx_quiet = held_other_tables outbox_other_tables tx_other_tables recover_other_tables

lemma quiet_other_tables: "quiet_op a \<Longrightarrow> other_tables_same (chdb s) (chdb (channel_exec env a s))"
  by (cases a; simp only: quiet_op.simps channel_exec.simps quiet_ops simp_thms snd_conv split: if_split;
      (intro conjI impI deadline_other_tables transaction_other_tables)?;
      (erule tx_quiet)?; simp)

text \<open>Only \<open>telegram_offsets\<close> is written by the operations on identities, epochs and offsets.\<close>

lemma offset_op_audits:
  "bind_identity_tx b k now d = Inr (x, d') \<Longrightarrow> audits d' = audits d \<and> notifications d' = notifications d"
  "begin_epoch_tx n k now d = Inr (x, d') \<Longrightarrow> audits d' = audits d \<and> notifications d' = notifications d"
  by (auto simp: bind_identity_tx_def begin_epoch_tx_def Let_def split: option.splits if_splits)

lemma channel_exec_tables_ok:
  assumes "channel_tables_ok (chdb s)"
  shows "channel_tables_ok (chdb (channel_exec env a s))"
proof (cases "quiet_op a")
  case True
  then show ?thesis
    using tables_ok_quiet [OF channel_exec_follow _ _ quiet_other_tables assms] quiet_no_news by blast
next
  case False
  then show ?thesis
  proof (cases a)
    case (BindIdentity b k now)
    have "channel_tables_ok d'" if "bind_identity_tx b key now (chdb s) = Inr (x, d')" for key x d'
      using bind_identity_follow [OF that] bind_identity_tables [OF that] offset_op_audits(1) [OF that] assms
      by (intro tables_ok_offsets [OF assms]) (simp_all add: channel_tables_ok_def)
    then show ?thesis using BindIdentity assms by (auto simp: bind_telegram_identity_def intro!: transaction_tables_ok)
  next
    case (BeginEpoch n k now)
    have "channel_tables_ok d'" if "begin_epoch_tx n key now (chdb s) = Inr (x, d')" "0 \<le> n" for key x d'
      using begin_epoch_follow [OF that] begin_epoch_tables [OF that(1)] offset_op_audits(2) [OF that(1)]
      by (intro tables_ok_offsets [OF assms]) simp_all
    then show ?thesis using BeginEpoch assms
      by (auto simp: begin_telegram_epoch_def not_less intro!: transaction_tables_ok)
  next
    case (SetOffset n k now)
    then show ?thesis using assms
      by (auto simp: set_telegram_offset_def tables_ok_bump intro!: transaction_tables_ok)
  next
    case (IngestTelegram u p k rc now)
    show ?thesis unfolding IngestTelegram channel_exec.simps ingest_telegram_update_def
      using assms by (auto simp: not_less split: json.splits sum.splits intro!: transaction_tables_ok
          intro: tables_ok_ingest_telegram [OF assms])
  next
    case (IngestEnvelope e pl dec why now)
    then show ?thesis using assms
      by (auto simp: ingest_envelope_def Let_def intro!: transaction_tables_ok intro: tables_ok_ingest_envelope [OF assms])
  next
    case (CompleteWithOutbox p e w ms run now)
    then show ?thesis using assms
      by (auto simp: complete_inbox_with_outbox_def intro!: transaction_tables_ok intro: tables_ok_complete_with [OF assms])
  next
    case (Enqueue m now)
    then show ?thesis using assms
      by (auto simp: enqueue_outbox_def intro!: transaction_tables_ok intro: tables_ok_enqueue [OF assms])
  next
    case (RecordNotification k p e ks now)
    then show ?thesis using assms
      by (auto simp: record_notification_def intro!: transaction_tables_ok intro: tables_ok_notification [OF assms])
  qed simp_all
qed

theorem channel_exec_ok:
  assumes "channel_ok env (chdb s)"
  shows "channel_ok env (chdb (channel_exec env a s))"
proof -
  have in': "inbox_follow a (chdb s) (chdb (channel_exec env a s))"
    and out': "outbox_follow env a (chdb s) (chdb (channel_exec env a s))"
    using channel_exec_follow [of env a s] by (simp_all add: channel_follow_def)
  have ok: "channel_tables_ok (chdb s)" "\<forall>r \<in> set (inbox (chdb s)). inbox_row_ok r"
      "\<forall>r \<in> set (outbox (chdb s)). outbox_row_ok env r"
    using assms by (simp_all add: channel_ok_def)
  show ?thesis
    unfolding channel_ok_def
    using channel_exec_tables_ok [OF ok(1)] table_follow_all [OF in' inbox_step_ok new_inbox_ok ok(2)]
      table_follow_all [OF out' outbox_step_ok new_outbox_ok ok(3)] by simp
qed

lemma new_channel_ok: "channel_ok env (chdb new_channel_store)"
  by (simp add: channel_ok_def channel_tables_ok_def new_channel_store_def downstreams_def)

end
