(* ===== verification/ChannelContracts.thy ===== *)
theory ChannelContracts
  imports ChannelInvariants Contracts
begin

text \<open>
  The channel store as a provider of the shared contracts: its invariant, the life cycles of inbox
  and outbox rows, the leases of their workers, the cursors of the Telegram streams, the audit log,
  and what of a row is frozen.
\<close>

definition chan_ok :: "channel_env \<Rightarrow> channel_store \<Rightarrow> bool" where
  "chan_ok env s \<longleftrightarrow> channel_ok env (chdb s)"

lemma chan_exec_ok: "chan_ok env s \<Longrightarrow> chan_ok env (channel_exec env a s)"
  using channel_exec_ok by (simp add: chan_ok_def)

interpretation chan: machine "channel_exec env" "chan_ok env" for env
  by unfold_locales (rule chan_exec_ok)

lemma chan_inbox_row: "chan_ok env s \<Longrightarrow> find_inbox p e (chdb s) = Some r \<Longrightarrow> inbox_row_ok r"
  by (auto simp: chan_ok_def channel_ok_def dest: by_key_SomeD)

lemma chan_ok_parts:
  assumes "chan_ok env s"
  shows "keyed inbox_key (inbox (chdb s))" "keyed outbox_key (outbox (chdb s))"
    "\<forall>r \<in> set (inbox (chdb s)). inbox_row_ok r" "\<forall>r \<in> set (outbox (chdb s)). outbox_row_ok env r"
  using assms by (simp_all add: chan_ok_def channel_ok_def channel_tables_ok_def)

lemma chan_outbox_row: "chan_ok env s \<Longrightarrow> find_outbox k (chdb s) = Some r \<Longrightarrow> outbox_row_ok env r"
  by (auto simp: chan_ok_def channel_ok_def dest: by_key_SomeD)

lemma exec_inbox_follow: "inbox_follow a (chdb s) (chdb (channel_exec env a s))"
  and exec_outbox_follow: "outbox_follow env a (chdb s) (chdb (channel_exec env a s))"
  using channel_exec_follow [of env a s] by (simp_all add: channel_follow_def)

lemma exec_inbox:
  "by_key inbox_key k (inbox (chdb s)) = Some r \<Longrightarrow>
   \<exists>r'. by_key inbox_key k (inbox (chdb (channel_exec env a s))) = Some r' \<and> inbox_step a r r'"
  by (rule table_follow_keyed [OF exec_inbox_follow]) (rule inbox_step_key)

lemma exec_new_inbox:
  "by_key inbox_key k (inbox (chdb s)) = None \<Longrightarrow>
   by_key inbox_key k (inbox (chdb (channel_exec env a s))) = Some r \<Longrightarrow> new_inbox a r"
  by (rule table_follow_new [OF exec_inbox_follow, where k = inbox_key]) (rule inbox_step_key)

lemma exec_outbox:
  "find_outbox k (chdb s) = Some r \<Longrightarrow>
   \<exists>r'. find_outbox k (chdb (channel_exec env a s)) = Some r' \<and> outbox_step a r r'"
  by (rule table_follow_keyed [OF exec_outbox_follow]) (rule outbox_step_key)

lemma exec_new_outbox:
  "find_outbox k (chdb s) = None \<Longrightarrow> find_outbox k (chdb (channel_exec env a s)) = Some r \<Longrightarrow> new_outbox env a r"
  by (rule table_follow_new [OF exec_outbox_follow, where k = outbox_key]) (rule outbox_step_key)

section \<open>What a claim takes\<close>

lemma recovered_inbox_key [simp]: "inbox_key (recovered_inbox now r) = inbox_key r"
  by (simp add: recovered_inbox_def recover_inbox_row_def inbox_key_def)

lemma claim_inbox_row_key [simp]: "inbox_key (claim_inbox_row w now e r) = inbox_key r"
  by (simp add: claim_inbox_row_def inbox_key_def)

lemma recovered_outbox_key [simp]: "outbox_key (recovered_outbox now r) = outbox_key r"
  by (simp add: recovered_outbox_def recover_outbox_row_def outbox_key_def)

lemma claim_outbox_row_key [simp]: "outbox_key (claim_outbox_row w now e r) = outbox_key r"
  by (simp add: claim_outbox_row_def outbox_key_def)

text \<open>A claim hands out the oldest waiting row, after the recovery of the expired ones.\<close>

lemma claim_inbox_result:
  assumes "claim_inbox_tx w now e pf d = Inr (Some r, d')" and "keyed inbox_key (inbox d)"
  obtains q where "q \<in> set (inbox d)" "ib_stat (recovered_inbox now q) = IbReceived"
    "r = claim_inbox_row w now e (recovered_inbox now q)" "find_inbox (ib_platform r) (ib_event r) d' = Some r"
proof -
  let ?d1 = "d\<lparr>inbox := map (recovered_inbox now) (inbox d)\<rparr>"
  obtain h hs where h: "received_inbox pf ?d1 = h # hs"
    using assms(1) by (auto simp: claim_inbox_eq Let_def split: list.splits)
  then have "h \<in> set (received_inbox pf ?d1)" by simp
  then obtain q where q: "q \<in> set (inbox d)" "h = recovered_inbox now q" "ib_stat h = IbReceived"
    by (auto simp: received_inbox_def)
  let ?f = "\<lambda>r. if inbox_key (recovered_inbox now r) = inbox_key h \<and> ib_stat (recovered_inbox now r) = IbReceived
        then claim_inbox_row w now e (recovered_inbox now r) else recovered_inbox now r"
  have d': "d' = d\<lparr>inbox := map ?f (inbox d)\<rparr>" and r: "by_key inbox_key (inbox_key q) (map ?f (inbox d)) = Some r"
    using assms(1) h by (simp_all add: claim_inbox_eq Let_def inbox_key_def [symmetric] q(2))
  have "by_key inbox_key (inbox_key q) (map ?f (inbox d)) = map_option ?f (by_key inbox_key (inbox_key q) (inbox d))"
    by (rule by_key_map) simp
  then have fr: "r = ?f q" using r by_key_in [OF assms(2) q(1)] by simp
  then have "r = claim_inbox_row w now e (recovered_inbox now q)" using q(2,3) by simp
  moreover from this have "(ib_platform r, ib_event r) = inbox_key q" using inbox_key_def [of r] by simp
  ultimately show thesis using that q r d' by simp
qed

lemma claim_outbox_result:
  assumes "claim_outbox_tx w now e pf d = Inr (Some r, d')" and "keyed outbox_key (outbox d)"
  obtains q where "q \<in> set (outbox d)" "ox_stat q = ObPending" "recovered_outbox now q = q"
    "r = claim_outbox_row w now e q" "find_outbox (outbox_key r) d' = Some r"
proof -
  let ?d1 = "d\<lparr>outbox := map (recovered_outbox now) (outbox d)\<rparr>"
  obtain h hs where h: "pending_outbox pf ?d1 = h # hs"
    using assms(1) by (auto simp: claim_outbox_eq Let_def split: list.splits)
  then have "h \<in> set (pending_outbox pf ?d1)" by simp
  then obtain q where q: "q \<in> set (outbox d)" "h = recovered_outbox now q" "ox_stat h = ObPending"
    by (auto simp: pending_outbox_def)
  have same: "recovered_outbox now q = q" "ox_stat q = ObPending" using recovered_pending [of now q] q(2,3) by auto
  let ?f = "\<lambda>r. if outbox_key (recovered_outbox now r) = outbox_key h \<and> ox_stat (recovered_outbox now r) = ObPending
        then claim_outbox_row w now e (recovered_outbox now r) else recovered_outbox now r"
  have d': "d' = d\<lparr>outbox := map ?f (outbox d)\<rparr>" and r: "by_key outbox_key (outbox_key q) (map ?f (outbox d)) = Some r"
    using assms(1) h by (simp_all add: claim_outbox_eq Let_def q(2))
  have "by_key outbox_key (outbox_key q) (map ?f (outbox d)) = map_option ?f (by_key outbox_key (outbox_key q) (outbox d))"
    by (rule by_key_map) simp
  then have fr: "r = ?f q" using r by_key_in [OF assms(2) q(1)] by simp
  then have "r = claim_outbox_row w now e q" using q(2) same by simp
  then show thesis using that q(1) same r d' by simp
qed

section \<open>Life cycles\<close>

inductive inbox_edge :: "inbox_status \<Rightarrow> inbox_status \<Rightarrow> bool" where
  "inbox_edge IbReceived IbProcessing"
| "inbox_edge IbProcessing IbReceived"
| "inbox_edge IbProcessing IbCompleted"
| "inbox_edge IbProcessing IbFailed"

inductive outbox_edge :: "outbox_status \<Rightarrow> outbox_status \<Rightarrow> bool" where
  "outbox_edge ObPending ObSending"
| "x \<in> {ObSent, ObUnknown, ObFailed} \<Longrightarrow> outbox_edge ObSending x"
| "x \<in> {ObSent, ObFailed, ObPending} \<Longrightarrow> outbox_edge ObUnknown x"
| "outbox_edge ObFailed ObPending"

inductive_cases outbox_edge_sentE: "outbox_edge ObSent x"
inductive_cases inbox_edge_completedE: "inbox_edge IbCompleted x"
inductive_cases inbox_edge_failedE: "inbox_edge IbFailed x"

definition inbox_status_of :: "channel_store \<Rightarrow> platform \<times> str \<Rightarrow> inbox_status option" where
  "inbox_status_of s k = map_option ib_stat (by_key inbox_key k (inbox (chdb s)))"

definition outbox_status_of :: "channel_store \<Rightarrow> str \<Rightarrow> outbox_status option" where
  "outbox_status_of s k = map_option ox_stat (find_outbox k (chdb s))"

lemma recovered_received:
  "ib_stat (recovered_inbox now r) = IbReceived \<Longrightarrow> ib_stat r = IbReceived \<or> ib_stat r = IbProcessing"
  by (auto simp: recovered_inbox_def inbox_expired_def split: if_splits)

lemma inbox_step_edge: "inbox_step a r r' \<Longrightarrow> ib_stat r = ib_stat r' \<or> inbox_edge (ib_stat r) (ib_stat r')"
proof (erule inbox_step.cases, goal_cases)
  case 3 then show ?case using recovered_received
    by (auto simp: claim_inbox_row_def intro: inbox_edge.intros dest!: recovered_received)
qed (auto simp: inbox_held_def inbox_expired_def recover_inbox_row_def close_inbox_row_def intro: inbox_edge.intros)

lemma outbox_step_edge: "outbox_step a r r' \<Longrightarrow> ox_stat r = ox_stat r' \<or> outbox_edge (ox_stat r) (ox_stat r')"
  by (erule outbox_step.cases) (auto simp: outbox_fields intro: outbox_edge.intros)

interpretation inbox_life: lifecycle "channel_exec env" "chan_ok env" inbox_status_of inbox_edge for env
proof unfold_locales
  fix s k x a assume "inbox_status_of s k = Some x"
  then show "\<exists>y. inbox_status_of (channel_exec env a s) k = Some y \<and> (x = y \<or> inbox_edge x y)"
    using exec_inbox [of k s _ env a] inbox_step_edge by (auto simp: inbox_status_of_def)
qed

interpretation outbox_life: lifecycle "channel_exec env" "chan_ok env" outbox_status_of outbox_edge for env
proof unfold_locales
  fix s k x a assume "outbox_status_of s k = Some x"
  then show "\<exists>y. outbox_status_of (channel_exec env a s) k = Some y \<and> (x = y \<or> outbox_edge x y)"
    using exec_outbox [of k s _ env a] outbox_step_edge by (auto simp: outbox_status_of_def)
qed

section \<open>What is frozen\<close>

definition sent_outbox :: "outbox_row \<Rightarrow> bool" where
  "sent_outbox r \<longleftrightarrow> ox_stat r = ObSent"

lemma sent_step: "outbox_step a r r' \<Longrightarrow> ox_stat r = ObSent \<Longrightarrow> r' = r"
  by (erule outbox_step.cases) (auto simp: outbox_fields)

interpretation sent: freezing "channel_exec env" "chan_ok env" "\<lambda>s k. find_outbox k (chdb s)" sent_outbox for env
proof unfold_locales
  fix s :: channel_store and k r a assume "find_outbox k (chdb s) = Some r" "sent_outbox r"
  then show "find_outbox k (chdb (channel_exec env a s)) = Some r"
    using exec_outbox [of k s r env a] sent_step by (auto simp: sent_outbox_def)
qed

definition closed_inbox :: "inbox_row \<Rightarrow> bool" where
  "closed_inbox r \<longleftrightarrow> ib_stat r = IbCompleted \<or> ib_stat r = IbFailed"

lemma closed_step: "inbox_step a r r' \<Longrightarrow> closed_inbox r \<Longrightarrow> r' = r"
proof (erule inbox_step.cases, goal_cases)
  case (3 w l now q pf c)
  then have "ib_stat r = IbReceived \<or> ib_stat r = IbProcessing" using recovered_received by blast
  with 3(1) show ?case by (auto simp: closed_inbox_def)
qed (auto simp: closed_inbox_def inbox_expired_def inbox_held_def)

interpretation closed_inbox: freezing "channel_exec env" "chan_ok env"
    "\<lambda>s k. by_key inbox_key k (inbox (chdb s))" closed_inbox for env
proof unfold_locales
  fix s :: channel_store and k r a assume "by_key inbox_key k (inbox (chdb s)) = Some r" "closed_inbox r"
  then show "by_key inbox_key k (inbox (chdb (channel_exec env a s))) = Some r"
    using exec_inbox [of k s r env a] closed_step by blast
qed

definition stored_event ::
  "channel_store \<Rightarrow> platform \<times> str \<Rightarrow> _" where
  "stored_event s k = map_option inbox_facts (by_key inbox_key k (inbox (chdb s)))"

interpretation event: freezing "channel_exec env" "chan_ok env" stored_event "\<lambda>_. True" for env
proof unfold_locales
  fix s k x a assume "stored_event s k = Some x"
  then show "stored_event (channel_exec env a s) k = Some x"
    using exec_inbox [of k s _ env a] inbox_step_facts by (fastforce simp: stored_event_def)
qed

definition stored_message :: "channel_store \<Rightarrow> str \<Rightarrow> (outbound_message \<times> str) option" where
  "stored_message s k = map_option (\<lambda>r. (ox_message r, ox_hash r)) (find_outbox k (chdb s))"

interpretation message: freezing "channel_exec env" "chan_ok env" stored_message "\<lambda>_. True" for env
proof unfold_locales
  fix s k x a assume "stored_message s k = Some x"
  then show "stored_message (channel_exec env a s) k = Some x"
    using exec_outbox [of k s _ env a] outbox_step_message by (fastforce simp: stored_message_def)
qed

section \<open>Leases\<close>

definition inbox_holding :: "channel_store \<Rightarrow> platform \<times> str \<Rightarrow> (str \<times> instant) option" where
  "inbox_holding s k = Option.bind (by_key inbox_key k (inbox (chdb s)))
     (\<lambda>r. case ib_owner r of None \<Rightarrow> None | Some w \<Rightarrow> map_option (Pair w) (ib_expires r))"

definition outbox_holding :: "channel_store \<Rightarrow> str \<Rightarrow> (str \<times> instant) option" where
  "outbox_holding s k = Option.bind (find_outbox k (chdb s))
     (\<lambda>r. case ox_owner r of None \<Rightarrow> None | Some w \<Rightarrow> map_option (Pair w) (ox_expires r))"

fun releases_inbox :: "channel_op \<Rightarrow> platform \<times> str \<Rightarrow> str \<Rightarrow> instant \<Rightarrow> bool" where
  "releases_inbox (ClaimInbox w' l pf now c) k w e \<longleftrightarrow> e \<le> now"
| "releases_inbox (RecoverInbox now) k w e \<longleftrightarrow> e \<le> now"
| "releases_inbox (HeartbeatInbox p ev w' l now c) k w e \<longleftrightarrow> (p, ev) = k \<and> w' = w \<and> now < e"
| "releases_inbox (CompleteInbox p ev w' run key now) k w e \<longleftrightarrow> (p, ev) = k \<and> w' = w \<and> now < e"
| "releases_inbox (CompleteWithOutbox p ev w' ms run now) k w e \<longleftrightarrow> (p, ev) = k \<and> w' = w \<and> now < e"
| "releases_inbox (FailInbox p ev w' err run now) k w e \<longleftrightarrow> (p, ev) = k \<and> w' = w \<and> now < e"
| "releases_inbox _ k w e \<longleftrightarrow> False"

fun acquires_inbox :: "channel_op \<Rightarrow> str \<Rightarrow> bool" where
  "acquires_inbox (ClaimInbox w' l pf now c) w \<longleftrightarrow> w' = w"
| "acquires_inbox _ w \<longleftrightarrow> False"

fun releases_outbox :: "channel_op \<Rightarrow> str \<Rightarrow> str \<Rightarrow> instant \<Rightarrow> bool" where
  "releases_outbox (ClaimOutbox w' l pf now c) k w e \<longleftrightarrow> e \<le> now"
| "releases_outbox (RecoverOutbox now) k w e \<longleftrightarrow> e \<le> now"
| "releases_outbox (HeartbeatOutbox k' w' l now c) k w e \<longleftrightarrow> k' = k \<and> w' = w \<and> now < e"
| "releases_outbox (MarkSent k' w' rc now) k w e \<longleftrightarrow> k' = k \<and> w' = w \<and> now < e"
| "releases_outbox (MarkUnknown k' w' err now) k w e \<longleftrightarrow> k' = k \<and> w' = w \<and> now < e"
| "releases_outbox (MarkFailed k' w' err now) k w e \<longleftrightarrow> k' = k \<and> w' = w \<and> now < e"
| "releases_outbox _ k w e \<longleftrightarrow> False"

fun acquires_outbox :: "channel_op \<Rightarrow> str \<Rightarrow> bool" where
  "acquires_outbox (ClaimOutbox w' l pf now c) w \<longleftrightarrow> w' = w"
| "acquires_outbox _ w \<longleftrightarrow> False"

lemma inbox_holding_Some: "inbox_holding s k = Some (w, e) \<longleftrightarrow>
    (\<exists>r. by_key inbox_key k (inbox (chdb s)) = Some r \<and> ib_owner r = Some w \<and> ib_expires r = Some e)"
  by (auto simp: inbox_holding_def bind_eq_Some_conv split: option.splits)

lemma outbox_holding_Some: "outbox_holding s k = Some (w, e) \<longleftrightarrow>
    (\<exists>r. find_outbox k (chdb s) = Some r \<and> ox_owner r = Some w \<and> ox_expires r = Some e)"
  by (auto simp: outbox_holding_def bind_eq_Some_conv split: option.splits)

lemma inbox_step_holding:
  assumes "inbox_step a r r'" and "inbox_row_ok r" and "ib_owner r = Some w" "ib_expires r = Some e"
    and "\<not> releases_inbox a (inbox_key r) w e"
  shows "ib_owner r' = Some w \<and> ib_expires r' = Some e"
proof -
  have "ib_stat r = IbProcessing" using assms(2,3) by (auto simp: inbox_row_ok_def split: if_splits)
  with assms(1,3-5) show ?thesis
    by cases (auto simp: inbox_held_def inbox_expired_def recovered_inbox_def split: if_splits)
qed

lemma outbox_step_holding:
  assumes "outbox_step a r r'" and "outbox_row_ok env r" and "ox_owner r = Some w" "ox_expires r = Some e"
    and "\<not> releases_outbox a (outbox_key r) w e"
  shows "ox_owner r' = Some w \<and> ox_expires r' = Some e"
proof -
  have "ox_stat r = ObSending" using assms(2,3) by (auto simp: outbox_row_ok_def split: if_splits)
  with assms(1,3-5) show ?thesis
    by cases (auto simp: outbox_held_def outbox_expired_def split: if_splits)
qed

lemma inbox_step_acquire:
  "inbox_step a r r' \<Longrightarrow> inbox_row_ok r \<Longrightarrow> ib_owner r = None \<or> ib_expires r = None \<Longrightarrow>
   ib_owner r' = Some w \<Longrightarrow> ib_expires r' = Some e \<Longrightarrow> acquires_inbox a w"
  by (erule inbox_step.cases)
    (auto simp: inbox_row_ok_def inbox_held_def claim_inbox_row_def recover_inbox_row_def close_inbox_row_def split: if_splits)

lemma outbox_step_acquire:
  "outbox_step a r r' \<Longrightarrow> outbox_row_ok env r \<Longrightarrow> ox_owner r = None \<or> ox_expires r = None \<Longrightarrow>
   ox_owner r' = Some w \<Longrightarrow> ox_expires r' = Some e \<Longrightarrow> acquires_outbox a w"
  by (erule outbox_step.cases)
    (auto simp: outbox_row_ok_def outbox_held_def claim_outbox_row_def recover_outbox_row_def finish_outbox_row_def split: if_splits)

lemma new_inbox_free: "new_inbox a r \<Longrightarrow> ib_owner r = None"
  by (cases a) (auto simp: fresh_inbox_row_def)

lemma new_outbox_free: "new_outbox env a r \<Longrightarrow> ox_owner r = None"
  by (cases a) (auto simp: fresh_outbox_def)

interpretation inbox_lease: lease_protocol "channel_exec env" "chan_ok env" inbox_holding releases_inbox acquires_inbox for env
proof unfold_locales
  fix s k w e a
  assume ok: "chan_ok env s" and "inbox_holding s k = Some (w, e)" and rel: "\<not> releases_inbox a k w e"
  then obtain r where r: "by_key inbox_key k (inbox (chdb s)) = Some r" "ib_owner r = Some w" "ib_expires r = Some e"
    by (auto simp: inbox_holding_Some)
  obtain r' where r': "by_key inbox_key k (inbox (chdb (channel_exec env a s))) = Some r'" "inbox_step a r r'"
    using exec_inbox [OF r(1)] by blast
  have "inbox_key r = k" "inbox_row_ok r" using by_key_SomeD [OF r(1)] chan_inbox_row [OF ok] r(1) by (auto, metis surj_pair)
  then show "inbox_holding (channel_exec env a s) k = Some (w, e)"
    using inbox_step_holding [OF r'(2) _ r(2,3)] rel r'(1) by (simp add: inbox_holding_Some)
next
  fix s k w e a
  assume ok: "chan_ok env s" and none: "inbox_holding s k = None" and "inbox_holding (channel_exec env a s) k = Some (w, e)"
  then obtain r' where r': "by_key inbox_key k (inbox (chdb (channel_exec env a s))) = Some r'"
      "ib_owner r' = Some w" "ib_expires r' = Some e"
    by (auto simp: inbox_holding_Some)
  show "acquires_inbox a w"
  proof (cases "by_key inbox_key k (inbox (chdb s))")
    case None
    then show ?thesis using new_inbox_free [OF exec_new_inbox [OF None r'(1)]] r'(2) by simp
  next
    case (Some r)
    then have "inbox_step a r r'" using exec_inbox [OF Some, of env a] r'(1) by simp
    moreover have "ib_owner r = None \<or> ib_expires r = None"
      using none Some by (auto simp: inbox_holding_def split: option.splits)
    moreover have "inbox_row_ok r" using chan_inbox_row [OF ok] Some by (metis surj_pair)
    ultimately show ?thesis using inbox_step_acquire r'(2,3) by blast
  qed
qed

interpretation outbox_lease: lease_protocol "channel_exec env" "chan_ok env" outbox_holding releases_outbox acquires_outbox for env
proof unfold_locales
  fix s k w e a
  assume ok: "chan_ok env s" and "outbox_holding s k = Some (w, e)" and rel: "\<not> releases_outbox a k w e"
  then obtain r where r: "find_outbox k (chdb s) = Some r" "ox_owner r = Some w" "ox_expires r = Some e"
    by (auto simp: outbox_holding_Some)
  obtain r' where r': "find_outbox k (chdb (channel_exec env a s)) = Some r'" "outbox_step a r r'"
    using exec_outbox [OF r(1)] by blast
  have "outbox_key r = k" "outbox_row_ok env r" using by_key_SomeD [OF r(1)] chan_outbox_row [OF ok r(1)] by simp_all
  then show "outbox_holding (channel_exec env a s) k = Some (w, e)"
    using outbox_step_holding [OF r'(2) _ r(2,3)] rel r'(1) by (simp add: outbox_holding_Some)
next
  fix s k w e a
  assume ok: "chan_ok env s" and none: "outbox_holding s k = None" and "outbox_holding (channel_exec env a s) k = Some (w, e)"
  then obtain r' where r': "find_outbox k (chdb (channel_exec env a s)) = Some r'"
      "ox_owner r' = Some w" "ox_expires r' = Some e"
    by (auto simp: outbox_holding_Some)
  show "acquires_outbox a w"
  proof (cases "find_outbox k (chdb s)")
    case None
    then show ?thesis using new_outbox_free [OF exec_new_outbox [OF None r'(1)]] r'(2) by simp
  next
    case (Some r)
    then have "outbox_step a r r'" using exec_outbox [OF Some, of env a] r'(1) by simp
    moreover have "ox_owner r = None \<or> ox_expires r = None"
      using none Some by (auto simp: outbox_holding_def split: option.splits)
    ultimately show ?thesis using outbox_step_acquire [OF _ chan_outbox_row [OF ok Some]] r'(2,3) by blast
  qed
qed

section \<open>The audit log and the cursors\<close>

definition grows :: "channel_db \<Rightarrow> channel_db \<Rightarrow> bool" where
  "grows d d' \<longleftrightarrow> (\<exists>es. audits d' = audits d @ es) \<and> offsets_follow d d'"

lemma grows_same: "audits d' = audits d \<Longrightarrow> offsets d' = offsets d \<Longrightarrow> grows d d'"
  by (simp add: grows_def offsets_follow_same)

lemma grows_offsets: "audits d' = audits d \<Longrightarrow> offsets_follow d d' \<Longrightarrow> grows d d'"
  by (simp add: grows_def)

lemma transaction_grows:
  "(\<And>x d'. body (chdb s) = Inr (x, d') \<Longrightarrow> grows (chdb s) d') \<Longrightarrow> grows (chdb s) (chdb (snd (channel_transaction body s)))"
  by (auto simp: channel_transaction_def grows_same split: sum.splits)

lemma insert_inbox_same:
  "insert_inbox row d = Inr (dup, d1) \<Longrightarrow> audits d1 = audits d \<and> offsets d1 = offsets d \<and> notifications d1 = notifications d"
  by (auto simp: insert_inbox_def split: if_splits)

lemma offsets_follow_cong: "offsets d1 = offsets d \<Longrightarrow> offsets_follow d1 d' \<Longrightarrow> offsets_follow d d'"
  by (simp add: offsets_follow_def)

lemma ingest_envelope_grows: "ingest_envelope_tx e pl hash dec why now d = Inr (x, d') \<Longrightarrow> grows d d'"
  unfolding ingest_envelope_tx_def Let_def
  by (auto simp: grows_def offsets_follow_same split: sum.splits dest: insert_inbox_same)

lemma ingest_telegram_grows:
  assumes "ingest_telegram_tx key i nz pl hash now d = Inr (x, d')" and "0 \<le> i"
  shows "grows d d'"
proof -
  obtain row dup d1 ad where "insert_inbox row d = Inr (dup, d1)"
    and d': "d' = bump_offset key (i + 1) now (if dup then d1 else add_audit ad d1)"
    using ingest_telegram_shape [OF assms(1)] by metis
  then have same: "audits d1 = audits d" "offsets d1 = offsets d" using insert_inbox_same by blast+
  then have "offsets (if dup then d1 else add_audit ad d1) = offsets d" by simp
  from offsets_follow_cong [OF this bump_offset_follow] show ?thesis
    using same assms(2) unfolding d' grows_def by simp
qed

lemma enqueue_all_same: "enqueue_all env now ms d = Inr (rows, d') \<Longrightarrow> other_tables_same d d'"
proof (induction ms arbitrary: d rows)
  case (Cons m ms)
  obtain row d1 rows' where "enqueue_locked env now m d = Inr (row, d1)" "enqueue_all env now ms d1 = Inr (rows', d')"
    using Cons.prems by (auto split: sum.splits)
  then show ?case using Cons.IH enqueue_locked_Inr by (fastforce simp: other_tables_same_def)
qed simp

lemma other_same_grows: "other_tables_same d d' \<Longrightarrow> grows d d'"
  by (simp add: other_tables_same_def grows_same)

lemma complete_with_grows:
  assumes "complete_with_outbox_tx env p e w ms run now d = Inr (x, d')"
  shows "grows d d'"
proof (rule other_same_grows)
  obtain rows d1 f where "enqueue_all env now ms d = Inr (rows, d1)"
      "update_held_inbox (inbox_held p e w now) f d1 = Inr ((), d')"
    using assms by (auto simp: complete_with_outbox_tx_def split: sum.splits)
  then show "other_tables_same d d'"
    using enqueue_all_same [of env now ms d rows d1] held_other_tables [of _ f d1 "()" d'] by (simp add: other_tables_same_def)
qed

lemma notification_grows: "record_notification_tx k p e ks now d = Inr (x, d') \<Longrightarrow> grows d d'"
  by (rule grows_same) (auto simp: record_notification_tx_def Let_def split: option.splits if_splits)

lemma exec_grows:
  assumes "keyed of_key (offsets (chdb s))"
  shows "grows (chdb s) (chdb (channel_exec env a s))"
proof (cases "quiet_op a")
  case True
  then show ?thesis by (intro other_same_grows quiet_other_tables)
next
  case False
  have keep: "grows (chdb s) (chdb s)" by (simp add: grows_same)
  show ?thesis
  proof (cases a)
    case (BindIdentity b k now)
    have "grows (chdb s) d'" if "bind_identity_tx b key now (chdb s) = Inr (x, d')" for key x d'
      using bind_identity_follow [OF that assms] offset_op_audits(1) [OF that] by (simp add: grows_offsets)
    then show ?thesis using BindIdentity keep by (auto simp: bind_telegram_identity_def intro!: transaction_grows)
  next
    case (BeginEpoch n k now)
    have "grows (chdb s) d'" if "begin_epoch_tx n key now (chdb s) = Inr (x, d')" "0 \<le> n" for key x d'
      using begin_epoch_follow [OF that] offset_op_audits(2) [OF that(1)] by (simp add: grows_offsets)
    then show ?thesis using BeginEpoch keep by (auto simp: begin_telegram_epoch_def not_less intro!: transaction_grows)
  next
    case (SetOffset n k now)
    then show ?thesis using keep
      by (auto simp: set_telegram_offset_def bump_offset_follow intro!: transaction_grows grows_offsets)
  next
    case (IngestTelegram u p k rc now)
    show ?thesis unfolding IngestTelegram channel_exec.simps ingest_telegram_update_def
      using keep by (auto simp: not_less split: json.splits sum.splits intro!: transaction_grows intro: ingest_telegram_grows)
  next
    case (IngestEnvelope e pl dec why now)
    then show ?thesis by (auto simp: ingest_envelope_def Let_def intro!: transaction_grows intro: ingest_envelope_grows)
  next
    case (CompleteWithOutbox p e w ms run now)
    then show ?thesis by (auto simp: complete_inbox_with_outbox_def intro!: transaction_grows intro: complete_with_grows)
  next
    case (Enqueue m now)
    have "grows (chdb s) d'" if "enqueue_locked env now m (chdb s) = Inr (x, d')" for x d'
      using enqueue_locked_Inr [OF that] by (auto intro: grows_same)
    then show ?thesis using Enqueue by (auto simp: enqueue_outbox_def intro!: transaction_grows)
  next
    case (RecordNotification k p e ks now)
    then show ?thesis using keep
      by (auto simp: record_notification_def intro!: transaction_grows intro: notification_grows)
  qed (use False in simp_all)
qed

lemma chan_ok_keyed: "chan_ok env s \<Longrightarrow> keyed of_key (offsets (chdb s))"
  by (simp add: chan_ok_def channel_ok_def channel_tables_ok_def)

interpretation audit_log: append_only "channel_exec env" "chan_ok env" "\<lambda>s. audits (chdb s)" for env
  by unfold_locales (use exec_grows chan_ok_keyed in \<open>auto simp: grows_def\<close>)

definition cursor :: "channel_store \<Rightarrow> str \<Rightarrow> (int \<times> int) option" where
  "cursor s k = map_option (\<lambda>r. (of_epoch r, of_next r)) (find_offset k (chdb s))"

definition ahead :: "int \<times> int \<Rightarrow> int \<times> int \<Rightarrow> bool" where
  "ahead x y \<longleftrightarrow> fst x < fst y \<or> fst x = fst y \<and> snd x \<le> snd y"

lemma ahead_star: "ahead\<^sup>*\<^sup>* x y \<Longrightarrow> ahead x y"
  by (induction rule: rtranclp_induct) (auto simp: ahead_def)

interpretation cursors: lifecycle "channel_exec env" "chan_ok env" cursor ahead for env
proof unfold_locales
  fix s :: channel_store and k x a assume ok: "chan_ok env s" and "cursor s k = Some x"
  then obtain r where r: "find_offset k (chdb s) = Some r" "x = (of_epoch r, of_next r)" by (auto simp: cursor_def)
  have "table_follow offset_step (\<lambda>r. 0 \<le> of_next r \<and> 0 \<le> of_epoch r) (offsets (chdb s)) (offsets (chdb (channel_exec env a s)))"
    using exec_grows [OF chan_ok_keyed [OF ok]] by (simp add: grows_def offsets_follow_def)
  from table_follow_keyed [OF this _ r(1)] obtain r' where
    "find_offset k (chdb (channel_exec env a s)) = Some r'" "offset_step r r'"
    by (auto simp: offset_step_def)
  then show "\<exists>y. cursor (channel_exec env a s) k = Some y \<and> (x = y \<or> ahead x y)"
    using r(2) by (auto simp: cursor_def offset_step_def ahead_def)
qed

end
