(* ===== verification/ChannelProperties.thy ===== *)
theory ChannelProperties
  imports ChannelContracts
begin

text \<open>
  The properties of the channel store, over every sequence of calls by any number of pollers,
  handlers and senders.
\<close>

abbreviation chan_run :: "channel_env \<Rightarrow> channel_op list \<Rightarrow> channel_store \<Rightarrow> channel_store" where
  "chan_run env \<equiv> run_ops (channel_exec env)"

lemma chan_run_ok: "chan_ok env (chan_run env ops new_channel_store)"
  by (rule chan.run_ok) (simp add: chan_ok_def new_channel_ok)

lemma channel_transaction_Inr:
  "channel_transaction body s = (Inr x, s') \<longleftrightarrow> \<not> chclosed s \<and> (\<exists>d'. body (chdb s) = Inr (x, d') \<and> s' = s\<lparr>chdb := d'\<rparr>)"
  by (auto simp: channel_transaction_def split: sum.splits)

text \<open>The environment and the calls of the witnesses.\<close>

definition demo_env :: channel_env where
  "demo_env = \<lparr>ce_text = \<lparr>te_codec = \<lparr>sha256 = (\<lambda>s. s), float_repr = (\<lambda>_. ''0.0'')\<rparr>, te_repr = (\<lambda>_. ''?'')\<rparr>,
     ce_policy = \<lparr>au_users = {''7''}, au_channels = {''9''}, au_actions = {''message''},
       au_platform_users = [], au_platform_channels = []\<rparr>, ce_stream = ''main''\<rparr>"

definition demo_update :: "(str \<times> json) list" where
  "demo_update = [(''update_id'', JInt 5), (''message'', JObj [(''text'', JStr ''hi''),
     (''from'', JObj [(''id'', JInt 7)]), (''chat'', JObj [(''id'', JInt 9)])])]"

definition demo_message :: outbound_message where
  "demo_message = \<lparr>om_platform = PfTelegram, om_key = ''k'', om_channel = ''9'', om_thread = ''t'', om_text = [104],
     om_operation = OpSend, om_parse = PmPlain, om_message = None, om_callback = None, om_silent = False,
     om_chunk = 0, om_chunks = 1, om_metadata = []\<rparr>"

definition demo_receipt :: remote_receipt where
  "demo_receipt = \<lparr>rr_platform = PfTelegram, rr_key = ''k'', rr_message = Some ''1'', rr_channel = ''9'',
     rr_operation = OpSend, rr_messages = [''1'']\<rparr>"

abbreviation demo_chan :: "channel_op list \<Rightarrow> channel_store" where
  "demo_chan ops \<equiv> chan_run demo_env ops new_channel_store"

definition demo_ingest :: channel_op where
  "demo_ingest = IngestTelegram demo_update None None ''now'' 1"

lemma enqueue_fresh:
  "\<not> chclosed s \<Longrightarrow> find_outbox (om_key m) (chdb s) = None \<Longrightarrow> \<not> list_ex surrogate (om_text m) \<Longrightarrow>
   enqueue_outbox env m now s = (Inr (fresh_outbox env m now), s\<lparr>chdb := (chdb s)\<lparr>outbox := outbox (chdb s) @ [fresh_outbox env m now]\<rparr>\<rparr>)"
  by (simp add: enqueue_outbox_def channel_transaction_def enqueue_locked_def by_key_append outbox_key_def fresh_outbox_def)

lemma demo_message_plain [simp]: "\<not> list_ex surrogate (om_text demo_message)" "om_key demo_message = ''k''" "om_platform demo_message = PfTelegram"
  by (simp_all add: demo_message_def surrogate_def)

lemma new_channel_simps [simp]: "\<not> chclosed new_channel_store" "outbox (chdb new_channel_store) = []" "inbox (chdb new_channel_store) = []"
  by (simp_all add: new_channel_store_def)

lemma fresh_outbox_simps [simp]:
  "outbox_key (fresh_outbox env m now) = om_key m" "ox_stat (fresh_outbox env m now) = ObPending"
  "ox_message (fresh_outbox env m now) = m" "ox_hash (fresh_outbox env m now) = content_hash env m" "ox_created (fresh_outbox env m now) = now"
  by (simp_all add: fresh_outbox_def outbox_key_def)

text \<open>
  C20: in every store reached by any interleaving of calls: event keys, downstream keys, idempotency
  keys, stream keys and notification keys are unique; offsets and epochs are not negative; each
  stored event has exactly one audit record, which repeats its decision; notifications refer to
  stored events and messages; a row is held by a named owner until an expiry exactly while it is
  processed or sent; a row that was not allowed holds no content and was never handed out; and a
  receipt is kept only with a sent message.
\<close>

theorem channel_invariant: "channel_ok env (chdb (chan_run env ops new_channel_store))"
  using chan_run_ok by (simp add: chan_ok_def)

section \<open>Ingest\<close>

lemma ingest_telegram_Inr:
  assumes "ingest_telegram_update env u p k rc now s = (Inr x, s')"
  obtains i nz d' where "jget u ''update_id'' = JInt i" "0 \<le> i" "\<not> chclosed s"
    "normalize_telegram (ce_text env) (case p of None \<Rightarrow> ce_policy env | Some q \<Rightarrow> q) rc u = Inr nz"
    "ingest_telegram_tx (stream_or env k) i nz (JObj u) (sha256_hex (te_codec (ce_text env)) (JObj u)) now (chdb s) = Inr (x, d')"
    "s' = s\<lparr>chdb := d'\<rparr>"
  using assms unfolding ingest_telegram_update_def
  by (auto simp: channel_transaction_Inr split: json.splits if_splits sum.splits)

text \<open>
  An update is accepted only if the policy in force allows its user, its chat and its action, and
  the envelope that is handed on names exactly these; every other update leaves no content behind:
  no envelope is returned.
\<close>

theorem ingest_respects_policy:
  assumes "ingest_telegram_update env u p k rc now s = (Inr x, s')"
  shows "case ir_envelope x of
      None \<Rightarrow> ir_decision x \<noteq> AuAllow
    | Some e \<Rightarrow> ir_decision x = AuAllow \<and> ev_platform e = PfTelegram \<and>
        policy_authorize (case p of None \<Rightarrow> ce_policy env | Some q \<Rightarrow> q) PfTelegram (ev_user e) (ev_channel e) (ev_action e) = AuAllow"
proof -
  obtain i nz d' where nz: "normalize_telegram (ce_text env) (case p of None \<Rightarrow> ce_policy env | Some q \<Rightarrow> q) rc u = Inr nz"
    and tx: "ingest_telegram_tx (stream_or env k) i nz (JObj u) (sha256_hex (te_codec (ce_text env)) (JObj u)) now (chdb s) = Inr (x, d')"
    using assms by (rule ingest_telegram_Inr)
  show ?thesis
    using normalize_allowed [OF nz] tx unfolding ingest_telegram_tx_def Let_def
    by (auto simp: policy_backs_def split: sum.splits if_splits option.splits)
qed

theorem ingest_respects_policy_witness:
  "case ingest_telegram_update demo_env demo_update None None ''now'' 1 new_channel_store of
     (Inl e, s') \<Rightarrow> False
   | (Inr x, s') \<Rightarrow> (case ir_envelope x of None \<Rightarrow> False | Some e \<Rightarrow>
       policy_authorize (ce_policy demo_env) PfTelegram (ev_user e) (ev_channel e) (ev_action e) = AuAllow)"
proof -
  have "case ingest_telegram_update demo_env demo_update None None ''now'' 1 new_channel_store of
     (Inl e, s') \<Rightarrow> False | (Inr x, s') \<Rightarrow> ir_decision x = AuAllow"
    by code_simp
  then show ?thesis
    using ingest_respects_policy [of demo_env demo_update None None "''now''" 1 new_channel_store]
    by (auto split: prod.splits sum.splits option.splits)
qed

text \<open>
  C22: a claim of the inbox hands out an event only if its stored decision is to allow it; the event
  comes with its payload and its envelope, it was received before every other waiting event of the
  platform, and the claimant holds it until the deadline.
\<close>

theorem only_allowed_events_claimed:
  assumes "claim_inbox w l pf now c (chan_run env ops new_channel_store) = (Inr (Some r), s')"
  shows "ib_decision r = AuAllow \<and> ib_envelope r \<noteq> None \<and> ib_payload r \<noteq> None \<and> ib_stat r = IbProcessing \<and>
    ib_owner r = Some w \<and> ib_expires r = Some (c + timedelta_us l) \<and>
    find_inbox (ib_platform r) (ib_event r) (chdb s') = Some r"
proof -
  let ?s = "chan_run env ops new_channel_store"
  obtain d' where d': "claim_inbox_tx w now (c + timedelta_us l) pf (chdb ?s) = Inr (Some r, d')" "chdb s' = d'"
    using assms by (auto simp: claim_inbox_def deadline_at_def channel_transaction_Inr split: if_splits)
  note parts = chan_ok_parts [OF chan_run_ok [of env ops]]
  obtain q where q: "q \<in> set (inbox (chdb ?s))" "ib_stat (recovered_inbox now q) = IbReceived"
      "r = claim_inbox_row w now (c + timedelta_us l) (recovered_inbox now q)"
      "find_inbox (ib_platform r) (ib_event r) d' = Some r"
    using claim_inbox_result [OF d'(1) parts(1)] by metis
  have "inbox_row_ok (recovered_inbox now q)" using q(1) parts(3) recovered_ok by blast
  then show ?thesis using q(2-4) d'(2)
    by (auto simp: inbox_row_ok_def claim_inbox_row_def split: if_splits)
qed

theorem only_allowed_events_claimed_witness:
  "case claim_inbox ''w'' 60 None 2 2 (demo_chan [demo_ingest]) of
     (Inr (Some r), s') \<Rightarrow> ib_decision r = AuAllow \<and> ib_owner r = Some ''w''
   | _ \<Rightarrow> False"
proof -
  have "case fst (claim_inbox ''w'' 60 None 2 2 (demo_chan [demo_ingest])) of Inr (Some r) \<Rightarrow> True | _ \<Rightarrow> False"
    by code_simp
  then show ?thesis
    using only_allowed_events_claimed [of "''w''" 60 None 2 2 demo_env "[demo_ingest]"]
    by (auto split: prod.splits sum.splits option.splits)
qed

definition epoch_of :: "channel_env \<Rightarrow> str option \<Rightarrow> channel_store \<Rightarrow> int" where
  "epoch_of env k s = (case find_offset (stream_or env k) (chdb s) of None \<Rightarrow> 0 | Some r \<Rightarrow> of_epoch r)"

text \<open>
  An update is stored once.  After a successful \<open>ingest_telegram_update\<close>, and whatever happens
  later, delivering an update with the same identifier to the stream in the same epoch, whatever
  its content and the policy are, is reported as a duplicate and stores no event and no audit
  record.
\<close>

theorem telegram_update_once:
  assumes "ingest_telegram_update env u p k rc now s = (Inr x, s')" and "chan_ok env s"
    and "s2 = chan_run env ops s'" and "\<not> chclosed s2" and "epoch_of env k s2 = epoch_of env k s"
    and "jget u2 ''update_id'' = jget u ''update_id''"
  shows "case ingest_telegram_update env u2 p2 k rc2 now2 s2 of
      (Inl e, s3) \<Rightarrow> False
    | (Inr y, s3) \<Rightarrow> ir_duplicate y \<and> inbox (chdb s3) = inbox (chdb s2) \<and> audits (chdb s3) = audits (chdb s2)"
proof -
  obtain i nz d' where i: "jget u ''update_id'' = JInt i" "0 \<le> i" "s' = s\<lparr>chdb := d'\<rparr>"
    and tx: "ingest_telegram_tx (stream_or env k) i nz (JObj u) (sha256_hex (te_codec (ce_text env)) (JObj u)) now (chdb s) = Inr (x, d')"
    using assms(1) by (rule ingest_telegram_Inr)
  let ?key = "(PfTelegram, telegram_event_id (epoch_of env k s) i)"
  obtain row dup d1 ad where row: "insert_inbox row (chdb s) = Inr (dup, d1)" "inbox_key row = ?key"
      "d' = bump_offset (stream_or env k) (i + 1) now (if dup then d1 else add_audit ad d1)"
    using ingest_telegram_shape [OF tx] unfolding epoch_of_def by metis
  have "by_key inbox_key ?key (inbox d1) \<noteq> None"
    using row(1,2) by (auto simp: insert_inbox_def inbox_key_def by_key_append split: if_splits option.splits)
  then have stored: "stored_event s' ?key \<noteq> None" using row(3) i(3) by (simp add: stored_event_def)
  have "chan_ok env s'" using chan_exec_ok [OF assms(2), of "IngestTelegram u p k rc now"] assms(1) by simp
  from event.run_frozen [OF this] stored have "stored_event s2 ?key \<noteq> None"
    using assms(3) by (cases "stored_event s' ?key") auto
  then have known: "by_key inbox_key ?key (inbox (chdb s2)) \<noteq> None" by (auto simp: stored_event_def)
  obtain nz2 where nz2: "normalize_telegram (ce_text env) (case p2 of None \<Rightarrow> ce_policy env | Some q \<Rightarrow> q) rc2 u2 = Inr nz2"
    using i(1) assms(6) by (simp add: normalize_telegram_def)
  define tx2 where "tx2 = ingest_telegram_tx (stream_or env k) i nz2 (JObj u2) (sha256_hex (te_codec (ce_text env)) (JObj u2)) now2 (chdb s2)"
  have "case tx2 of Inl e \<Rightarrow> False | Inr (y, d3) \<Rightarrow> ir_duplicate y \<and> inbox d3 = inbox (chdb s2) \<and> audits d3 = audits (chdb s2)"
    using known assms(5) unfolding tx2_def ingest_telegram_tx_def Let_def epoch_of_def
    by (simp add: insert_inbox_def fresh_inbox_def)
  then show ?thesis
    using i(1,2) assms(4,6) nz2 unfolding tx2_def
    by (auto simp: ingest_telegram_update_def channel_transaction_def split: sum.splits prod.splits)
qed

theorem telegram_update_once_witness:
  "case ingest_telegram_update demo_env demo_update None None ''later'' 9 (demo_chan [demo_ingest]) of
     (Inl e, s3) \<Rightarrow> False
   | (Inr y, s3) \<Rightarrow> ir_duplicate y \<and> inbox (chdb s3) = inbox (chdb (demo_chan [demo_ingest])) \<and>
       audits (chdb s3) = audits (chdb (demo_chan [demo_ingest]))"
proof -
  define r where "r = ingest_telegram_update demo_env demo_update None None ''now'' 1 new_channel_store"
  have s': "demo_chan [demo_ingest] = snd r" by (simp add: demo_ingest_def r_def)
  have "case fst r of Inl e \<Rightarrow> False | Inr x \<Rightarrow> True" unfolding r_def by code_simp
  then obtain x where x: "r = (Inr x, snd r)" by (cases r) (auto split: sum.splits)
  have "\<not> chclosed (demo_chan [demo_ingest])" "epoch_of demo_env None (demo_chan [demo_ingest]) = epoch_of demo_env None new_channel_store"
    by code_simp+
  then show ?thesis
    using telegram_update_once [OF x [unfolded r_def], where ops = "[]", folded r_def] s'
    by (simp add: chan_ok_def new_channel_ok)
qed

text \<open>
  The cursor of a stream never goes back: whatever calls are made, a stream that has a cursor
  keeps one, in a later epoch or at least as far in the same epoch.
\<close>

theorem cursor_never_back:
  assumes "cursor (chan_run env ops new_channel_store) k = Some x"
  shows "case cursor (chan_run env ops' (chan_run env ops new_channel_store)) k of None \<Rightarrow> False | Some y \<Rightarrow> ahead x y"
proof -
  obtain y where "cursor (chan_run env ops' (chan_run env ops new_channel_store)) k = Some y" "ahead\<^sup>*\<^sup>* x y"
    using cursors.run_status [OF chan_run_ok assms, of ops'] by blast
  then show ?thesis using ahead_star [of x y] by simp
qed

theorem cursor_never_back_witness:
  "case cursor (chan_run demo_env [SetOffset 3 None 2] (demo_chan [demo_ingest])) ''main'' of
     None \<Rightarrow> False | Some y \<Rightarrow> ahead (0, 6) y"
proof (rule cursor_never_back)
  show "cursor (demo_chan [demo_ingest]) ''main'' = Some (0, 6)" by code_simp
qed

section \<open>The outbox\<close>

lemma enqueue_locked_same:
  "enqueue_locked env now m d = Inr (row, d') \<Longrightarrow> outbox_key row = om_key m \<and> ox_hash row = content_hash env m \<and>
   message_text env (ox_message row) = message_text env m \<and> \<not> list_ex surrogate (om_text m)"
  unfolding enqueue_locked_def Let_def
  by (auto split: if_splits option.splits dest: by_key_SomeD)

lemma enqueue_locked_again:
  assumes "find_outbox (om_key m) d = Some row" and "\<not> list_ex surrogate (om_text m)"
  shows "enqueue_locked env now m d =
    (if ox_hash row = content_hash env m \<and> message_text env (ox_message row) = message_text env m
     then Inr (row, d) else Inl ChStoreError)"
  using assms by (simp add: enqueue_locked_def)

text \<open>
  The idempotency key makes \<open>enqueue_outbox\<close> idempotent.  After a successful enqueueing, and
  whatever happens later, enqueueing the same message returns the stored row without a change, and a
  different message under the same key is refused without a change.
\<close>

theorem enqueue_idempotent:
  assumes "enqueue_outbox env m now s = (Inr row, s')" and "chan_ok env s"
    and "s2 = chan_run env ops s'" and "\<not> chclosed s2" and "om_key m2 = om_key m"
  shows "case enqueue_outbox env m2 now2 s2 of
      (Inl e, s3) \<Rightarrow> s3 = s2 \<and> m2 \<noteq> m
    | (Inr row2, s3) \<Rightarrow> s3 = s2 \<and> find_outbox (om_key m) (chdb s2) = Some row2 \<and>
        ox_message row2 = ox_message row \<and> message_text env m2 = message_text env m"
proof -
  obtain d' where d': "enqueue_locked env now m (chdb s) = Inr (row, d')" "s' = s\<lparr>chdb := d'\<rparr>"
    using assms(1) by (auto simp: enqueue_outbox_def channel_transaction_Inr)
  note same = enqueue_locked_same [OF d'(1)]
  have "stored_message s' (om_key m) = Some (ox_message row, ox_hash row)"
    using enqueue_locked_Inr [OF d'(1)] d'(2) by (simp add: stored_message_def)
  moreover have "chan_ok env s'" using chan_exec_ok [OF assms(2), of "Enqueue m now"] assms(1) by simp
  ultimately have "stored_message s2 (om_key m) = Some (ox_message row, ox_hash row)"
    using message.run_frozen assms(3) by blast
  then obtain row2 where row2: "find_outbox (om_key m2) (chdb s2) = Some row2"
      "ox_message row2 = ox_message row" "ox_hash row2 = ox_hash row"
    using assms(5) by (auto simp: stored_message_def)
  show ?thesis
  proof (cases "list_ex surrogate (om_text m2)")
    case True
    then show ?thesis using assms(4) same
      by (auto simp: enqueue_outbox_def channel_transaction_def enqueue_locked_def)
  next
    case False
    then show ?thesis using enqueue_locked_again [OF row2(1) False, of env now2] row2 same assms(4,5)
      by (auto simp: enqueue_outbox_def channel_transaction_def message_text_def)
  qed
qed

definition demo_enqueued :: channel_store where
  "demo_enqueued = snd (enqueue_outbox demo_env demo_message 1 new_channel_store)"

theorem enqueue_idempotent_witness:
  "case enqueue_outbox demo_env demo_message 9 demo_enqueued of
     (Inl e, s3) \<Rightarrow> False | (Inr row2, s3) \<Rightarrow> s3 = demo_enqueued"
proof -
  have row: "enqueue_outbox demo_env demo_message 1 new_channel_store = (Inr (fresh_outbox demo_env demo_message 1), demo_enqueued)"
    by (simp add: demo_enqueued_def enqueue_fresh)
  have ok: "chan_ok demo_env new_channel_store" by (simp add: chan_ok_def new_channel_ok)
  have s2: "demo_enqueued = chan_run demo_env [] demo_enqueued" by simp
  have "\<not> chclosed demo_enqueued" by (simp add: demo_enqueued_def enqueue_fresh)
  from enqueue_idempotent [OF row ok s2 this, of demo_message 9]
  show ?thesis
    by (cases "enqueue_outbox demo_env demo_message 9 demo_enqueued") (simp split: sum.splits)
qed

text \<open>
  How often a row may still be handed to a sender: its attempts so far, and one more while it is
  pending.  Only an operator's retry raises this number.
\<close>

fun retries :: "str \<Rightarrow> channel_op \<Rightarrow> bool" where
  "retries k (RetryOutbox k' n now) \<longleftrightarrow> k' = k"
| "retries k _ \<longleftrightarrow> False"

definition potential :: "outbox_row \<Rightarrow> int" where
  "potential r = ox_attempts r + (if ox_stat r = ObPending then 1 else 0)"

lemma outbox_step_potential:
  "outbox_step a r r' \<Longrightarrow> potential r' \<le> potential r + (if retries (outbox_key r) a then 1 else 0)"
  by (erule outbox_step.cases) (auto simp: potential_def outbox_fields)

lemma new_outbox_potential: "new_outbox env a r \<Longrightarrow> potential r = 1"
  by (cases a) (auto simp: potential_def fresh_outbox_def)

definition potential_in :: "channel_store \<Rightarrow> str \<Rightarrow> int" where
  "potential_in s k = (case find_outbox k (chdb s) of None \<Rightarrow> 1 | Some r \<Rightarrow> potential r)"

lemma exec_potential: "potential_in (channel_exec env a s) k \<le> potential_in s k + (if retries k a then 1 else 0)"
proof (cases "find_outbox k (chdb s)")
  case None
  then show ?thesis
    using exec_new_outbox [OF None, of env a] new_outbox_potential
    by (auto simp: potential_in_def split: option.splits)
next
  case (Some r)
  then obtain r' where r': "find_outbox k (chdb (channel_exec env a s)) = Some r'" "outbox_step a r r'"
    using exec_outbox by blast
  then show ?thesis using outbox_step_potential [OF r'(2)] Some by_key_SomeD [OF Some] by (simp add: potential_in_def)
qed

lemma run_potential: "potential_in (chan_run env ops s) k \<le> potential_in s k + int (length (filter (retries k) ops))"
proof (induction ops arbitrary: s)
  case (Cons a ops)
  have "potential_in (chan_run env ops (channel_exec env a s)) k \<le>
      potential_in (channel_exec env a s) k + int (length (filter (retries k) ops))" by (rule Cons.IH)
  also have "\<dots> \<le> potential_in s k + (if retries k a then 1 else 0) + int (length (filter (retries k) ops))"
    using exec_potential [of env a s k] by linarith
  finally show ?case by (cases "retries k a") simp_all
qed simp

text \<open>
  A message is handed to a sender at most once, and once more for each retry an operator
  ordered, whatever crashes, expired leases and concurrent senders there are: its attempt count,
  which every claim increments, is at most one more than the number of retries.
\<close>

theorem outbox_attempts_bounded:
  "case find_outbox k (chdb (chan_run env ops new_channel_store)) of
     None \<Rightarrow> True | Some r \<Rightarrow> ox_attempts r \<le> 1 + int (length (filter (retries k) ops))"
  using run_potential [of env ops new_channel_store k]
  by (auto simp: potential_in_def potential_def new_channel_store_def split: option.splits if_splits)


definition kept_from_others :: "str \<Rightarrow> outbox_row \<Rightarrow> bool" where
  "kept_from_others w r \<longleftrightarrow> ox_owner r = Some w \<or> ox_owner r = None \<and> ox_stat r \<noteq> ObPending"

lemma kept_step:
  "outbox_step a r r' \<Longrightarrow> outbox_row_ok env r \<Longrightarrow> \<not> retries (outbox_key r) a \<Longrightarrow> kept_from_others w r \<Longrightarrow> kept_from_others w r'"
  by (erule outbox_step.cases) (auto simp: kept_from_others_def outbox_fields outbox_row_ok_def)

lemma kept_run:
  "chan_ok env s \<Longrightarrow> find_outbox k (chdb s) = Some r \<Longrightarrow> kept_from_others w r \<Longrightarrow> list_all (\<lambda>a. \<not> retries k a) ops \<Longrightarrow>
   \<exists>r'. find_outbox k (chdb (chan_run env ops s)) = Some r' \<and> kept_from_others w r'"
proof (induction ops arbitrary: s r)
  case (Cons a ops)
  obtain r1 where r1: "find_outbox k (chdb (channel_exec env a s)) = Some r1" "outbox_step a r r1"
    using exec_outbox [OF Cons.prems(2)] by blast
  have "kept_from_others w r1"
    using kept_step [OF r1(2) chan_outbox_row [OF Cons.prems(1,2)] _ Cons.prems(3)] Cons.prems(2,4) by (auto dest: by_key_SomeD)
  then show ?case using Cons.IH [OF chan_exec_ok [OF Cons.prems(1)] r1(1)] Cons.prems(4) by simp
qed simp

text \<open>
  Once a sender holds a message, a second sender comes to hold it only after an operator
  ordered a retry: the expiry of the lease makes the outcome unknown and never gives the message
  to someone else.
\<close>

theorem second_sender_needs_retry:
  assumes "outbox_holding (chan_run env ops new_channel_store) k = Some (w, e)"
    and "outbox_holding (chan_run env ops' (chan_run env ops new_channel_store)) k = Some (w', e')" and "w \<noteq> w'"
  shows "list_ex (retries k) ops'"
proof (rule ccontr)
  let ?s = "chan_run env ops new_channel_store"
  assume "\<not> list_ex (retries k) ops'"
  then have none: "list_all (\<lambda>a. \<not> retries k a) ops'" by (simp add: list_ex_iff list_all_iff)
  obtain r where r: "find_outbox k (chdb ?s) = Some r" "kept_from_others w r"
    using assms(1) by (auto simp: outbox_holding_Some kept_from_others_def)
  obtain r' where "find_outbox k (chdb (chan_run env ops' ?s)) = Some r'" "kept_from_others w r'"
    using kept_run [OF chan_run_ok r none] by blast
  then show False using assms(2,3) by (auto simp: outbox_holding_Some kept_from_others_def)
qed

definition demo_send :: "channel_op list" where
  "demo_send = [Enqueue demo_message 1, ClaimOutbox ''a'' 10 None 2 2]"

lemma timedelta_10: "timedelta_us 10 = 10000000"
  by code_simp

definition demo_sending :: outbox_row where
  "demo_sending = claim_outbox_row ''a'' 2 10000002 (fresh_outbox demo_env demo_message 1)"

lemma demo_send_run: "demo_chan demo_send = new_channel_store\<lparr>chdb := (chdb new_channel_store)\<lparr>outbox := [demo_sending]\<rparr>\<rparr>"
  by (simp add: demo_send_def enqueue_fresh claim_outbox_def deadline_at_def channel_transaction_def claim_outbox_eq
     recovered_outbox_def outbox_expired_def pending_outbox_def order_by_def timedelta_10 demo_sending_def)

theorem second_sender_needs_retry_witness:
  "list_ex (retries ''k'') [RecoverOutbox 10000002, RetryOutbox ''k'' ''again'' 10000003, ClaimOutbox ''b'' 10 None 10000004 10000004]"
proof (rule second_sender_needs_retry)
  have key: "outbox_key demo_sending = ''k''" "ox_stat demo_sending = ObSending" "ox_expires demo_sending = Some 10000002"
      "ox_owner demo_sending = Some ''a''" "om_key (ox_message demo_sending) = ''k''"
    by (simp_all add: demo_sending_def claim_outbox_row_def outbox_key_def fresh_outbox_def)
  show "outbox_holding (demo_chan demo_send) ''k'' = Some (''a'', 10000002)"
    unfolding demo_send_run by (simp add: outbox_holding_def key)
  show "outbox_holding (chan_run demo_env [RecoverOutbox 10000002, RetryOutbox ''k'' ''again'' 10000003,
      ClaimOutbox ''b'' 10 None 10000004 10000004] (demo_chan demo_send)) ''k'' = Some (''b'', 20000004)"
    unfolding demo_send_run
    by (simp add: outbox_holding_def key recover_outbox_leases_def recover_outbox_locked_def channel_transaction_def
      outbox_expired_def recover_outbox_row_def retry_outbox_def update_outbox_def rowcount_def Let_def outbox_key_def
      claim_outbox_def deadline_at_def claim_outbox_eq recovered_outbox_def pending_outbox_def order_by_def timedelta_10
      claim_outbox_row_def)
  show "''a'' \<noteq> ''b''" by simp
qed


lemma update_outbox_table:
  "update_outbox k P f d = Inr (x, d') \<Longrightarrow> d' = d\<lparr>outbox := update_where P f (outbox d)\<rparr> \<and> rowcount P (outbox d) = 1 \<and>
   x = find_outbox k d'"
  by (auto simp: update_outbox_def Let_def split: if_splits)

lemma update_outbox_row:
  assumes "update_outbox k P f d = Inr (x, d')" and "keyed outbox_key (outbox d)"
    and "\<And>r. P r \<Longrightarrow> outbox_key r = k" "\<And>r. outbox_key (f r) = outbox_key r"
  shows "\<exists>r. find_outbox k d = Some r \<and> P r \<and> find_outbox k d' = Some (f r) \<and> x = Some (f r)"
proof -
  note d' = update_outbox_table [OF assms(1)]
  have "\<exists>r \<in> set (outbox d). P r"
    using d' by (auto simp: rowcount_def filter_empty_conv dest!: arg_cong [where f = "\<lambda>n. n = 0"])
  then obtain r where r: "r \<in> set (outbox d)" "P r" by blast
  have "find_outbox k d = Some r" using by_key_in [OF assms(2) r(1)] assms(3) [OF r(2)] by simp
  moreover have "find_outbox k (d\<lparr>outbox := update_where P f (outbox d)\<rparr>) = Some (f r)"
    using calculation r(2) assms(4) by (simp add: by_key_update_where)
  ultimately show ?thesis using d' r(2) by simp
qed

text \<open>
  A successful \<open>mark_outbox_sent\<close> is final.  The caller held the message, the row records the
  receipt, and whatever happens later the row stays exactly as it is and no claim hands it out.
\<close>

theorem sent_is_final:
  assumes "mark_outbox_sent k w rc now (chan_run env ops new_channel_store) = (Inr x, s')"
  shows "case x of None \<Rightarrow> False
    | Some r \<Rightarrow> ox_stat r = ObSent \<and> ox_receipt r = Some rc \<and>
        outbox_status_of (chan_run env ops new_channel_store) k = Some ObSending \<and>
        find_outbox k (chdb (chan_run env ops' s')) = Some r \<and>
        (case fst (claim_outbox w2 l pf now2 c (chan_run env ops' s')) of
           Inr (Some q) \<Rightarrow> outbox_key q \<noteq> k | _ \<Rightarrow> True)"
proof -
  let ?s = "chan_run env ops new_channel_store"
  let ?f = "\<lambda>r. r\<lparr>ox_stat := ObSent, ox_receipt := Some rc, ox_error := None, ox_owner := None, ox_expires := None,
              ox_heartbeat := None, ox_updated := now\<rparr>"
  obtain d' where d': "update_outbox k (outbox_held k w now) ?f (chdb ?s) = Inr (x, d')" "chdb s' = d'"
    using assms by (auto simp: mark_outbox_sent_def finish_outbox_def channel_transaction_Inr)
  obtain r where r: "find_outbox k (chdb ?s) = Some r" "outbox_held k w now r" "find_outbox k d' = Some (?f r)" "x = Some (?f r)"
    using update_outbox_row [OF d'(1) chan_ok_parts(2) [OF chan_run_ok]]
    by (auto simp: outbox_held_def outbox_key_def)
  have ok': "chan_ok env s'" using chan_exec_ok [OF chan_run_ok, of env "MarkSent k w rc now" ops] assms by simp
  have kept: "find_outbox k (chdb (chan_run env ops' s')) = Some (?f r)"
    using sent.run_frozen [OF ok'] r(3) d'(2) by (simp add: sent_outbox_def)
  have never: "outbox_key q \<noteq> k" if taken: "claim_outbox w2 l pf now2 c (chan_run env ops' s') = (Inr (Some q), s2)" for q s2
  proof
    assume "outbox_key q = k"
    let ?s1 = "chan_run env ops' s'"
    have ok1: "chan_ok env ?s1" by (rule chan.run_ok [OF ok'])
    obtain d2 where "claim_outbox_tx w2 now2 (c + timedelta_us l) pf (chdb ?s1) = Inr (Some q, d2)"
      using taken by (auto simp: claim_outbox_def deadline_at_def channel_transaction_Inr split: if_splits)
    then obtain h where h: "h \<in> set (outbox (chdb ?s1))" "ox_stat h = ObPending" "q = claim_outbox_row w2 now2 (c + timedelta_us l) h"
      using claim_outbox_result [OF _ chan_ok_parts(2) [OF ok1]] by metis
    then have "find_outbox k (chdb ?s1) = Some h"
      using by_key_in [OF chan_ok_parts(2) [OF ok1] h(1)] \<open>outbox_key q = k\<close> by simp
    with kept h(2) show False by auto
  qed
  show ?thesis
    using r kept never
    by (auto simp: outbox_status_of_def outbox_held_def split: sum.splits option.splits prod.splits)
      (metis prod.collapse)
qed

definition demo_sent :: "channel_store" where
  "demo_sent = snd (mark_outbox_sent ''k'' ''a'' demo_receipt 3 (demo_chan demo_send))"

theorem sent_is_final_witness:
  "outbox_status_of (chan_run demo_env [RecoverOutbox 10000002] demo_sent) ''k'' = Some ObSent"
proof -
  have "isl (fst (mark_outbox_sent ''k'' ''a'' demo_receipt 3 (demo_chan demo_send))) = False"
    unfolding demo_send_run
    by (simp add: mark_outbox_sent_def finish_outbox_def channel_transaction_def update_outbox_def rowcount_def Let_def
      outbox_held_def demo_sending_def claim_outbox_row_def outbox_key_def fresh_outbox_def)
  then obtain x where x: "mark_outbox_sent ''k'' ''a'' demo_receipt 3 (demo_chan demo_send) = (Inr x, demo_sent)"
    using sum.collapse(2) [of "fst (mark_outbox_sent ''k'' ''a'' demo_receipt 3 (demo_chan demo_send))"]
    unfolding demo_sent_def by (metis prod.collapse)
  obtain r where "find_outbox ''k'' (chdb (chan_run demo_env [RecoverOutbox 10000002] demo_sent)) = Some r" "ox_stat r = ObSent"
    using sent_is_final [OF x, where ops' = "[RecoverOutbox 10000002]"]
    by (cases x) (simp_all del: run_ops_simps)
  then show ?thesis by (simp add: outbox_status_of_def del: run_ops_simps)
qed

section \<open>Handlers\<close>


lemma enqueue_all_rows:
  "enqueue_all env now ms d = Inr (rows, d') \<Longrightarrow> map (\<lambda>m. find_outbox (om_key m) d') ms = map Some rows \<and>
   map (\<lambda>row. message_text env (ox_message row)) rows = map (message_text env) ms \<and>
   (\<forall>k r. find_outbox k d = Some r \<longrightarrow> find_outbox k d' = Some r)"
proof (induction ms arbitrary: d rows)
  case (Cons m ms)
  obtain row d1 rows' where d1: "enqueue_locked env now m d = Inr (row, d1)" "enqueue_all env now ms d1 = Inr (rows', d')"
      and rows: "rows = row # rows'"
    using Cons.prems by (auto split: sum.splits)
  note kept = enqueue_locked_Inr [OF d1(1)]
  have "find_outbox k d1 = Some r" if "find_outbox k d = Some r" for k r
    using kept that by (auto simp: by_key_append)
  then show ?case
    using Cons.IH [OF d1(2)] kept enqueue_locked_same [OF d1(1)] rows by simp
qed simp

lemma held_update_row:
  assumes "update_held_inbox P f d = Inr (x, d')" and "keyed inbox_key (inbox d)"
    and "\<And>r. P r \<Longrightarrow> inbox_key r = k" "\<And>r. inbox_key (f r) = inbox_key r"
  shows "\<exists>r. by_key inbox_key k (inbox d) = Some r \<and> P r \<and> by_key inbox_key k (inbox d') = Some (f r)"
proof -
  have d': "rowcount P (inbox d) = 1" "d' = d\<lparr>inbox := update_where P f (inbox d)\<rparr>"
    using assms(1) by (simp_all add: update_held_inbox_Inr)
  have "\<exists>r \<in> set (inbox d). P r"
    using d'(1) by (auto simp: rowcount_def filter_empty_conv dest!: arg_cong [where f = "\<lambda>n. n = 0"])
  then obtain r where r: "r \<in> set (inbox d)" "P r" by blast
  have "by_key inbox_key k (inbox d) = Some r" using by_key_in [OF assms(2) r(1)] assms(3) [OF r(2)] by simp
  then show ?thesis using d'(2) r(2) assms(4) by (simp add: by_key_update_where)
qed

lemma close_inbox_row_key [simp]: "inbox_key (close_inbox_row st run k err now r) = inbox_key r"
  by (simp add: close_inbox_row_def inbox_key_def)

text \<open>
  An event is answered atomically.  When \<open>complete_inbox_with_outbox\<close> fails it changes nothing;
  when it succeeds, the caller held the event before the expiry of its lease, the event is
  completed and names its first answer, and every answer is stored under its key with its content.
\<close>

theorem answers_stored_atomically:
  assumes "chan_ok env s"
  shows "case complete_inbox_with_outbox env p e w ms run now s of
      (Inl err, s') \<Rightarrow> s' = s
    | (Inr rows, s') \<Rightarrow>
        map (\<lambda>m. find_outbox (om_key m) (chdb s')) ms = map Some rows \<and>
        map (\<lambda>row. message_text env (ox_message row)) rows = map (message_text env) ms \<and>
        (\<exists>r. find_inbox p e (chdb s) = Some r \<and> inbox_held p e w now r \<and>
           find_inbox p e (chdb s') = Some (close_inbox_row IbCompleted run
             (case ms of [] \<Rightarrow> None | m # _ \<Rightarrow> Some (om_key m)) None now r))"
proof (cases "complete_inbox_with_outbox env p e w ms run now s")
  case (Pair res s')
  show ?thesis
  proof (cases res)
    case (Inl err)
    then show ?thesis using Pair
      by (auto simp: complete_inbox_with_outbox_def channel_transaction_def split: sum.splits if_splits)
  next
    case (Inr rows)
    let ?f = "close_inbox_row IbCompleted run (case ms of [] \<Rightarrow> None | m # _ \<Rightarrow> Some (om_key m)) None now"
    obtain d1 d' where d1: "enqueue_all env now ms (chdb s) = Inr (rows, d1)"
        "update_held_inbox (inbox_held p e w now) ?f d1 = Inr ((), d')" "chdb s' = d'"
      using Pair Inr by (auto simp: complete_inbox_with_outbox_def complete_with_outbox_tx_def channel_transaction_Inr
          split: sum.splits)
    have same: "inbox d1 = inbox (chdb s)"
      using enqueue_all_follow [OF d1(1), of "CompleteWithOutbox p e w ms run now" "chdb s"]
      by (auto intro: outbox_follow_same)
    obtain r where "by_key inbox_key (p, e) (inbox d1) = Some r" "inbox_held p e w now r"
        "by_key inbox_key (p, e) (inbox d') = Some (?f r)"
      using held_update_row [OF d1(2), of "(p, e)"] chan_ok_parts(1) [OF assms] same by (auto simp: inbox_held_def)
    moreover have "outbox d' = outbox d1" using d1(2) by (simp add: update_held_inbox_Inr)
    ultimately show ?thesis using Pair Inr enqueue_all_rows [OF d1(1)] d1(3) same by simp
  qed
qed

abbreviation demo_handling :: channel_store where
  "demo_handling \<equiv> demo_chan [demo_ingest, ClaimInbox ''w'' 60 None 2 2]"

theorem answers_stored_atomically_witness:
  "case complete_inbox_with_outbox demo_env PfTelegram ''0:5'' ''w'' [demo_message] None 3 demo_handling of
     (Inl err, s') \<Rightarrow> False
   | (Inr rows, s') \<Rightarrow> (\<exists>row. find_outbox ''k'' (chdb s') = Some row)"
proof -
  define s where "s = demo_handling"
  have facts: "\<not> chclosed s" "find_outbox ''k'' (chdb s) = None"
      "rowcount (inbox_held PfTelegram ''0:5'' ''w'' 3) (inbox (chdb s)) = 1"
    unfolding s_def by code_simp+
  have locked: "enqueue_locked demo_env 3 demo_message (chdb s) =
      Inr (fresh_outbox demo_env demo_message 3, (chdb s)\<lparr>outbox := outbox (chdb s) @ [fresh_outbox demo_env demo_message 3]\<rparr>)"
    using facts(2) by (simp add: enqueue_locked_def by_key_append)
  have "\<not> isl (fst (complete_inbox_with_outbox demo_env PfTelegram ''0:5'' ''w'' [demo_message] None 3 s))"
    using facts by (simp add: complete_inbox_with_outbox_def channel_transaction_def complete_with_outbox_tx_def locked
      update_held_inbox_def)
  moreover have "chan_ok demo_env s" unfolding s_def by (rule chan_run_ok)
  ultimately show ?thesis
    using answers_stored_atomically [of demo_env s, where p = PfTelegram and e = "''0:5''" and w = "''w''"
        and ms = "[demo_message]" and run = None and now = 3]
    unfolding s_def [symmetric] by (auto split: prod.splits sum.splits)
qed

text \<open>
  C21: refinement.  Every call moves every row of the inbox along \<open>inbox_step\<close> and every row of the
  outbox along \<open>outbox_step\<close>, and appends only fresh rows: the tables refine the life of an event
  and of a message.
\<close>

theorem channel_refines_steps:
  "table_follow (inbox_step a) (new_inbox a) (inbox (chdb s)) (inbox (chdb (channel_exec env a s))) \<and>
   table_follow (outbox_step a) (new_outbox env a) (outbox (chdb s)) (outbox (chdb (channel_exec env a s)))"
  using exec_inbox_follow exec_outbox_follow by blast

text \<open>
  Handlers exclude each other.  While a worker holds an event, a second one comes to hold it
  only after the first has renewed, completed or failed it before the expiry of its lease, or after
  a recovery or a claim whose clock had reached that expiry.
\<close>

theorem inbox_takeover:
  assumes "inbox_holding (chan_run env ops new_channel_store) k = Some (w, e)"
    and "inbox_holding (chan_run env ops' (chan_run env ops new_channel_store)) k = Some (w', e')" and "w \<noteq> w'"
  shows "list_ex (\<lambda>a. releases_inbox a k w e) ops'"
  using inbox_lease.takeover_needs_release [OF chan_run_ok assms] by (auto simp: list_ex_iff)

theorem inbox_takeover_witness:
  "list_ex (\<lambda>a. releases_inbox a (PfTelegram, ''0:5'') ''w'' 60000002) [ClaimInbox ''v'' 60 None 60000002 60000002]"
proof (rule inbox_takeover)
  show "inbox_holding demo_handling (PfTelegram, ''0:5'') = Some (''w'', 60000002)" by code_simp
  show "inbox_holding (chan_run demo_env [ClaimInbox ''v'' 60 None 60000002 60000002] demo_handling)
      (PfTelegram, ''0:5'') = Some (''v'', 120000002)" by code_simp
  show "''w'' \<noteq> ''v''" by simp
qed

text \<open>
  The event key of a Telegram update is its epoch and its identifier; the stream is not part of it.
  So the update of a second stream with the same identifier in the same epoch is reported as a
  duplicate and is not stored, while the cursor of its stream moves past it.
\<close>

theorem streams_share_event_keys:
  "case ingest_telegram_update demo_env demo_update None (Some ''second'') ''now'' 2 (demo_chan [demo_ingest]) of
     (Inl e, s) \<Rightarrow> False
   | (Inr x, s) \<Rightarrow> ir_duplicate x \<and> length (inbox (chdb s)) = 1 \<and> cursor s ''second'' = Some (0, 6)"
  by code_simp

end
