(* ===== verification/Scanner.thy ===== *)
theory Scanner
  imports Texts
begin

text \<open>
  \<open>src/polaris/memory/security.py\<close>: the patterns, the scan of a memory text for prompt injections
  and secrets, and the redaction.  The patterns are terms of a small language of regular
  expressions with the backtracking semantics of \<open>re\<close>: \<open>ends\<close> lists the ends of all matches
  from a position in the order in which \<open>re\<close> tries them, so its head is the match.
\<close>

section \<open>Regular expressions\<close>

datatype regex =
    Chars "(nat \<times> nat) list"
  | Space
  | AnyChar
  | Edge
  | Empty
  | Then regex regex
  | Either regex regex
  | Many regex
  | Few regex

text \<open>A character in one of the ranges, up to case when the pattern ignores case.\<close>

definition char_in :: "unicode \<Rightarrow> bool \<Rightarrow> (nat \<times> nat) list \<Rightarrow> nat \<Rightarrow> bool" where
  "char_in uc ci ranges c =
     list_ex (\<lambda>(a, b). (a \<le> c \<and> c \<le> b) \<or> (ci \<and> list_ex (uc_same uc c) [a..<b + 1])) ranges"

definition word_at :: "unicode \<Rightarrow> ustr \<Rightarrow> nat \<Rightarrow> bool" where
  "word_at uc t i \<longleftrightarrow> i < length t \<and> uc_word uc (t ! i)"

text \<open>
  The repetitions: every round must advance, so the length of the text bounds their number.
  \<open>Many\<close> is \<open>*\<close> and tries one more round first, \<open>Few\<close> is \<open>*?\<close> and tries to stop first.
\<close>

fun many_ends :: "(nat \<Rightarrow> nat list) \<Rightarrow> nat \<Rightarrow> nat \<Rightarrow> nat list" where
  "many_ends step 0 i = [i]"
| "many_ends step (Suc n) i = concat (map (many_ends step n) (filter (\<lambda>j. i < j) (step i))) @ [i]"

fun few_ends :: "(nat \<Rightarrow> nat list) \<Rightarrow> nat \<Rightarrow> nat \<Rightarrow> nat list" where
  "few_ends step 0 i = [i]"
| "few_ends step (Suc n) i = i # concat (map (few_ends step n) (filter (\<lambda>j. i < j) (step i)))"

fun ends :: "unicode \<Rightarrow> bool \<Rightarrow> regex \<Rightarrow> ustr \<Rightarrow> nat \<Rightarrow> nat list" where
  "ends uc ci (Chars ranges) t i = (if i < length t \<and> char_in uc ci ranges (t ! i) then [i + 1] else [])"
| "ends uc ci Space t i = (if i < length t \<and> uc_space uc (t ! i) then [i + 1] else [])"
| "ends uc ci AnyChar t i = (if i < length t then [i + 1] else [])"
| "ends uc ci Edge t i = (if (0 < i \<and> word_at uc t (i - 1)) \<noteq> word_at uc t i then [i] else [])"
| "ends uc ci Empty t i = [i]"
| "ends uc ci (Then r s) t i = concat (map (ends uc ci s t) (ends uc ci r t i))"
| "ends uc ci (Either r s) t i = ends uc ci r t i @ ends uc ci s t i"
| "ends uc ci (Many r) t i = many_ends (ends uc ci r t) (length t - i) i"
| "ends uc ci (Few r) t i = few_ends (ends uc ci r t) (length t - i) i"

text \<open>\<open>pattern.search\<close>, as a truth value.\<close>

definition searches :: "unicode \<Rightarrow> bool \<Rightarrow> regex \<Rightarrow> ustr \<Rightarrow> bool" where
  "searches uc ci r t = list_ex (\<lambda>i. ends uc ci r t i \<noteq> []) [0..<length t + 1]"

text \<open>\<open>pattern.sub\<close> for a pattern that matches no empty text.\<close>

function substitute :: "unicode \<Rightarrow> bool \<Rightarrow> regex \<Rightarrow> ustr \<Rightarrow> ustr \<Rightarrow> nat \<Rightarrow> ustr" where
  "substitute uc ci r new t i =
     (if length t \<le> i then []
      else (case ends uc ci r t i of
              [] \<Rightarrow> t ! i # substitute uc ci r new t (i + 1)
            | j # _ \<Rightarrow> (if i < j then new @ substitute uc ci r new t j
                         else t ! i # substitute uc ci r new t (i + 1))))"
  by pat_completeness auto
termination by (relation "measure (\<lambda>(uc, ci, r, new, t, i). length t - i)") auto

declare substitute.simps [simp del]

section \<open>The patterns\<close>

fun text_re :: "str \<Rightarrow> regex" where
  "text_re [] = Empty"
| "text_re [c] = Chars [(of_char c, of_char c)]"
| "text_re (c # s) = Then (Chars [(of_char c, of_char c)]) (text_re s)"

fun seq_re :: "regex list \<Rightarrow> regex" where
  "seq_re [] = Empty"
| "seq_re [r] = r"
| "seq_re (r # rs) = Then r (seq_re rs)"

fun alt_re :: "regex list \<Rightarrow> regex" where
  "alt_re [] = Empty"
| "alt_re [r] = r"
| "alt_re (r # rs) = Either r (alt_re rs)"

definition maybe :: "regex \<Rightarrow> regex" where "maybe r = Either r Empty"
definition some_re :: "regex \<Rightarrow> regex" where "some_re r = Then r (Many r)"

fun times_re :: "nat \<Rightarrow> regex \<Rightarrow> regex" where
  "times_re 0 r = Empty"
| "times_re (Suc n) r = Then r (times_re n r)"

definition at_least :: "nat \<Rightarrow> regex \<Rightarrow> regex" where "at_least n r = Then (times_re n r) (Many r)"

definition upper :: "nat \<times> nat" where "upper = (65, 90)"
definition lower :: "nat \<times> nat" where "lower = (97, 122)"
definition digits :: "nat \<times> nat" where "digits = (48, 57)"

abbreviation spaces :: regex where "spaces \<equiv> some_re Space"

definition injection_patterns :: "(str \<times> bool \<times> regex) list" where
  "injection_patterns =
     [(''prompt_injection:ignore_previous'', True,
       seq_re [Edge, text_re ''ignore'', spaces, maybe (Then (text_re ''all'') spaces),
         alt_re (map text_re [''previous'', ''prior'', ''above'']), spaces,
         text_re ''instruction'', maybe (text_re ''s''), Edge]),
      (''prompt_injection:system_prompt'', True,
       seq_re [Edge, text_re ''system'', spaces, text_re ''prompt'', Edge]),
      (''prompt_injection:tool_execution'', True,
       seq_re [Edge, alt_re (map text_re [''execute'', ''invoke'', ''call'', ''run'', ''use'']), spaces,
         maybe (Then (text_re ''the'') spaces), alt_re (map text_re [''tool'', ''command'', ''shell'', ''terminal'']),
         Edge]),
      (''prompt_injection:role_takeover'', True,
       seq_re [Edge, alt_re
         [seq_re [text_re ''you'', spaces, text_re ''are'', spaces, text_re ''now''],
          seq_re [text_re ''act'', spaces, text_re ''as''],
          seq_re [text_re ''switch'', spaces, maybe (Then (text_re ''your'') spaces), text_re ''role'', spaces,
            text_re ''to''],
          seq_re [text_re ''new'', spaces, alt_re (map text_re [''system'', ''developer'']), spaces,
            text_re ''instruction'', maybe (text_re ''s'')]], Edge]),
      (''prompt_injection:fence_breakout'', False, times_re 3 (Chars [(96, 96)])),
      (''prompt_injection:memory_tag_breakout'', True,
       seq_re [text_re ''<'', maybe (text_re ''/''), Many Space,
         alt_re (map text_re [''memory'', ''memory_context'', ''polaris-memory'', ''system'', ''developer'']),
         alt_re [Space, text_re ''>'', text_re ''/'']])]"

definition key_label :: regex where
  "key_label = maybe (Then (some_re (Chars [upper, digits, (32, 32)])) (text_re '' ''))"

definition token_chars :: regex where "token_chars = Chars [upper, lower, digits, (95, 95), (45, 45)]"

definition secret_patterns :: "(str \<times> bool \<times> regex) list" where
  "secret_patterns =
     [(''secret:private_key'', True,
       seq_re [text_re ''-----BEGIN '', key_label, text_re ''PRIVATE KEY-----'', Few AnyChar,
         text_re ''-----END '', key_label, text_re ''PRIVATE KEY-----'']),
      (''secret:jwt'', False,
       seq_re [Edge, text_re ''eyJ'', at_least 5 token_chars, text_re ''.'', at_least 5 token_chars, text_re ''.'',
         at_least 5 token_chars, Edge]),
      (''secret:api_token'', False,
       seq_re [Edge, alt_re
         [Then (text_re ''sk-'') (at_least 16 token_chars),
          Then (text_re ''ghp_'') (at_least 20 (Chars [upper, lower, digits])),
          Then (text_re ''github_pat_'') (at_least 20 (Chars [upper, lower, digits, (95, 95)])),
          Then (text_re ''AKIA'') (times_re 16 (Chars [digits, upper]))], Edge])]"

section \<open>Scanning and redacting\<close>

text \<open>\<open>sorted(..., key=lambda item: (-len(item), item))\<close> of the distinct non-empty secrets.\<close>

definition scanner_secrets :: "ustr list \<Rightarrow> ustr list" where
  "scanner_secrets secrets = sort_key (\<lambda>s. (- int (length s), s)) (remdups (filter (\<lambda>s. s \<noteq> []) secrets))"

definition join_reasons :: "ustr list \<Rightarrow> ustr" where
  "join_reasons rs = (case rs of [] \<Rightarrow> [] | r # rest \<Rightarrow> r @ concat (map (\<lambda>x. 59 # x) rest))"

text \<open>\<open>dict.fromkeys\<close> keeps the first occurrence of each key.\<close>

definition first_distinct :: "'a list \<Rightarrow> 'a list" where
  "first_distinct xs = rev (remdups (rev xs))"

definition scan :: "unicode \<Rightarrow> ustr list \<Rightarrow> ustr \<Rightarrow> ustr option" where
  "scan uc secrets t =
     (let hits = map (\<lambda>(name, ci, r). asc name)
            (filter (\<lambda>(name, ci, r). searches uc ci r t) (injection_patterns @ secret_patterns));
          reasons = first_distinct (hits @ (if list_ex (\<lambda>s. contains s t) (scanner_secrets secrets)
                                            then [asc ''secret:configured''] else []))
      in if reasons = [] then None else Some (join_reasons reasons))"

definition redact :: "unicode \<Rightarrow> ustr list \<Rightarrow> ustr \<Rightarrow> ustr" where
  "redact uc secrets t =
     fold (\<lambda>s x. replace_all s (asc ''[REDACTED CONFIGURED SECRET]'') x) (scanner_secrets secrets)
       (fold (\<lambda>(name, ci, r) x. substitute uc ci r (asc ''[REDACTED SECRET]'') x 0) secret_patterns t)"

text \<open>What a clean scan means.\<close>

lemma first_distinct_Nil [simp]: "first_distinct xs = [] \<longleftrightarrow> xs = []"
  by (simp add: first_distinct_def)

lemma set_scanner_secrets [simp]: "set (scanner_secrets secrets) = {s \<in> set secrets. s \<noteq> []}"
  by (auto simp: scanner_secrets_def)

lemma scan_None_iff:
  "scan uc secrets t = None \<longleftrightarrow>
     (\<forall>(name, ci, r) \<in> set (injection_patterns @ secret_patterns). \<not> searches uc ci r t) \<and>
     (\<forall>s \<in> set secrets. s \<noteq> [] \<longrightarrow> \<not> contains s t)"
  unfolding scan_def Let_def
  by (auto simp: filter_empty_conv list_ex_iff case_prod_beta split: if_splits)

lemma scan_more_secrets: "scan uc (secrets @ more') t = None \<Longrightarrow> scan uc secrets t = None"
  by (auto simp: scan_None_iff)

end
