(* ===== verification/MemoryStore.thy ===== *)
theory MemoryStore
  imports Scanner
begin

text \<open>
  The writing half of \<open>MemoryStore\<close> of \<open>src/polaris/memory/store.py\<close> with the records of
  \<open>memory/models.py\<close>: versioned memories of a profile and a subject, their revision history, the
  idempotency keys and the full-text index.  SHA-256 of the UTF-8 of a text is the parameter
  \<open>mv_digest\<close>, fresh identifiers are arguments.
\<close>

section \<open>Records\<close>

datatype memory_kind = MkUser | MkAgent | MkFact | MkPreference
datatype trust_level = TlUserAsserted | TlModelInferred | TlVerified

fun memory_kind_value :: "memory_kind \<Rightarrow> str" where
  "memory_kind_value MkUser = ''user''"
| "memory_kind_value MkAgent = ''agent''"
| "memory_kind_value MkFact = ''fact''"
| "memory_kind_value MkPreference = ''preference''"

fun trust_level_value :: "trust_level \<Rightarrow> str" where
  "trust_level_value TlUserAsserted = ''user_asserted''"
| "trust_level_value TlModelInferred = ''model_inferred''"
| "trust_level_value TlVerified = ''verified''"

datatype memory_error = MmClosed | MmConflict | MmNotFound | MmValidation | MmValue | MmIntegrity | MmType

record memory_scope =
  sc_profile :: ustr
  sc_subject :: ustr

record provenance =
  pv_run :: "ustr option"
  pv_session :: "ustr option"
  pv_message :: "ustr option"

record memory_write =
  mw_content :: ustr
  mw_kind :: memory_kind
  mw_trust :: trust_level
  mw_id :: "ustr option"
  mw_provenance :: provenance

record memory_entry =
  me_id :: ustr
  me_profile :: ustr
  me_subject :: ustr
  me_content :: ustr
  me_kind :: memory_kind
  me_trust :: trust_level
  me_provenance :: provenance
  me_created :: instant
  me_updated :: instant
  me_revision :: int
  me_hash :: ustr
  me_blocked :: "ustr option"
  me_tombstoned :: bool

record revision_row =
  rv_entry :: memory_entry
  rv_operation :: str

record idempotency_row =
  ik_key :: ustr
  ik_entry :: ustr
  ik_profile :: ustr
  ik_subject :: ustr
  ik_hash :: ustr
  ik_created :: instant

record fts_row =
  ft_id :: ustr
  ft_profile :: ustr
  ft_subject :: ustr
  ft_content :: ustr

record memory_db =
  memories :: "memory_entry list"
  revisions :: "revision_row list"
  generation :: int
  idempotency :: "idempotency_row list"
  fts :: "fts_row list"

text \<open>
  The database outlives the store object, whose own state is the set of secrets its scanner looks
  for and whether it uses the full-text index.  \<open>mv_fts\<close> says whether SQLite offers FTS5.
\<close>

record memory_config =
  cf_secrets :: "ustr list"
  cf_fts :: bool

record memory_store =
  mdb :: memory_db
  mclosed :: bool
  mconfig :: memory_config

record memory_env =
  mv_unicode :: unicode
  mv_digest :: "ustr \<Rightarrow> ustr"
  mv_fts :: bool

definition empty_memory_db :: memory_db where
  "empty_memory_db = \<lparr>memories = [], revisions = [], generation = 0, idempotency = [], fts = []\<rparr>"

definition fts_row_of :: "memory_entry \<Rightarrow> fts_row" where
  "fts_row_of e = \<lparr>ft_id = me_id e, ft_profile = me_profile e, ft_subject = me_subject e, ft_content = me_content e\<rparr>"

text \<open>\<open>_configure_fts\<close>: the rows the index lacks are added when the store is opened.\<close>

definition configure_fts :: "memory_db \<Rightarrow> memory_db" where
  "configure_fts d =
     (let indexed = ft_id ` set (fts d)
      in d\<lparr>fts := fts d @ map fts_row_of
        (filter (\<lambda>e. \<not> me_tombstoned e \<and> me_id e \<notin> indexed \<and> me_blocked e = None) (memories d))\<rparr>)"

definition open_memory :: "memory_env \<Rightarrow> ustr list \<Rightarrow> bool \<Rightarrow> memory_db \<Rightarrow> memory_store" where
  "open_memory env secrets enable_fts d =
     (let ft = enable_fts \<and> mv_fts env
      in \<lparr>mdb = (if ft then configure_fts d else d), mclosed = False,
          mconfig = \<lparr>cf_secrets = filter (\<lambda>s. s \<noteq> []) secrets, cf_fts = ft\<rparr>\<rparr>)"

text \<open>\<open>MemoryScope.__post_init__\<close> and \<open>MemoryWrite.__post_init__\<close>.\<close>

definition make_scope :: "unicode \<Rightarrow> ustr \<Rightarrow> ustr \<Rightarrow> memory_error + memory_scope" where
  "make_scope uc profile subject =
     (if blank uc profile \<or> blank uc subject then Inl MmValue else Inr \<lparr>sc_profile = profile, sc_subject = subject\<rparr>)"

definition make_write :: "unicode \<Rightarrow> memory_write \<Rightarrow> memory_error + memory_write" where
  "make_write uc w =
     (if blank uc (mw_content w) then Inl MmValue
      else if (case mw_id w of None \<Rightarrow> False | Some i \<Rightarrow> blank uc i) then Inl MmValue else Inr w)"

section \<open>Transactions\<close>

definition memory_transaction ::
  "(memory_db \<Rightarrow> memory_error + 'a \<times> memory_db) \<Rightarrow> memory_store \<Rightarrow> (memory_error + 'a) \<times> memory_store" where
  "memory_transaction body s =
     (if mclosed s then (Inl MmClosed, s)
      else case body (mdb s) of Inl e \<Rightarrow> (Inl e, s) | Inr (x, d) \<Rightarrow> (Inr x, s\<lparr>mdb := d\<rparr>))"

definition close_memory :: "memory_store \<Rightarrow> memory_store" where
  "close_memory s = s\<lparr>mclosed := True\<rparr>"

definition add_configured_secrets :: "ustr list \<Rightarrow> memory_store \<Rightarrow> (memory_error + unit) \<times> memory_store" where
  "add_configured_secrets secrets s =
     (if mclosed s then (Inl MmClosed, s)
      else (Inr (), s\<lparr>mconfig := (mconfig s)\<lparr>cf_secrets := cf_secrets (mconfig s) @ filter (\<lambda>x. x \<noteq> []) secrets\<rparr>\<rparr>))"

text \<open>\<open>_content_hash\<close>; a lone surrogate cannot be encoded.\<close>

definition memory_hash :: "memory_env \<Rightarrow> ustr \<Rightarrow> memory_error + ustr" where
  "memory_hash env t = (if list_ex surrogate t then Inl MmValue else Inr (mv_digest env t))"

abbreviation memory_scan :: "memory_env \<Rightarrow> ustr list \<Rightarrow> ustr \<Rightarrow> ustr option" where
  "memory_scan env secrets t \<equiv> scan (mv_unicode env) secrets t"

text \<open>
  A text with a lone surrogate cannot be bound to a statement: a \<open>UnicodeEncodeError\<close>, which is a
  \<open>ValueError\<close>.
\<close>

definition binding :: "ustr list \<Rightarrow> memory_error + 'a \<Rightarrow> memory_error + 'a" where
  "binding ts r = (if list_ex (list_ex surrogate) ts then Inl MmValue else r)"

definition scope_texts :: "memory_scope \<Rightarrow> ustr list" where
  "scope_texts sc = [sc_profile sc, sc_subject sc]"

definition provenance_texts :: "provenance \<Rightarrow> ustr list" where
  "provenance_texts p = List.map_filter id [pv_run p, pv_session p, pv_message p]"

text \<open>SQLite's \<open>length\<close> counts up to the first null character.\<close>

definition sqlite_empty :: "ustr \<Rightarrow> bool" where
  "sqlite_empty t \<longleftrightarrow> t = [] \<or> hd t = 0"

definition in_scope :: "memory_scope \<Rightarrow> memory_entry \<Rightarrow> bool" where
  "in_scope sc e \<longleftrightarrow> me_profile e = sc_profile sc \<and> me_subject e = sc_subject sc"

definition find_memory :: "ustr \<Rightarrow> memory_db \<Rightarrow> memory_entry option" where
  "find_memory i d = by_key me_id i (memories d)"

definition get_in_transaction :: "memory_scope \<Rightarrow> ustr \<Rightarrow> bool \<Rightarrow> memory_db \<Rightarrow> memory_error + memory_entry" where
  "get_in_transaction sc i include_tombstone d = binding (i # scope_texts sc)
     (case fetch_one (\<lambda>e. me_id e = i \<and> in_scope sc e \<and> (include_tombstone \<or> \<not> me_tombstoned e)) (memories d) of
        None \<Rightarrow> Inl MmNotFound | Some e \<Rightarrow> Inr e)"

section \<open>Appending\<close>

definition insert_revision :: "memory_entry \<Rightarrow> str \<Rightarrow> memory_db \<Rightarrow> memory_error + memory_db" where
  "insert_revision e operation d =
     (if \<exists>r \<in> set (revisions d). me_id (rv_entry r) = me_id e \<and> me_revision (rv_entry r) = me_revision e
      then Inl MmIntegrity
      else Inr (d\<lparr>revisions := revisions d @ [\<lparr>rv_entry = e, rv_operation = operation\<rparr>]\<rparr>))"

definition bump_generation :: "memory_db \<Rightarrow> memory_db" where
  "bump_generation d = d\<lparr>generation := generation d + 1\<rparr>"

definition fresh_entry ::
  "memory_env \<Rightarrow> ustr list \<Rightarrow> memory_scope \<Rightarrow> memory_write \<Rightarrow> ustr \<Rightarrow> ustr \<Rightarrow> instant \<Rightarrow> memory_entry" where
  "fresh_entry env secrets sc w i digest now =
     \<lparr>me_id = i, me_profile = sc_profile sc, me_subject = sc_subject sc, me_content = mw_content w,
      me_kind = mw_kind w, me_trust = mw_trust w, me_provenance = mw_provenance w, me_created = now,
      me_updated = now, me_revision = 1, me_hash = digest, me_blocked = memory_scan env secrets (mw_content w),
      me_tombstoned = False\<rparr>"

text \<open>
  An identifier that exists, like a profile or subject that SQLite sees as empty, violates a
  constraint of \<open>memory_entries\<close>, which is reported as a conflict.
\<close>

definition append_in_transaction ::
  "memory_env \<Rightarrow> memory_config \<Rightarrow> memory_scope \<Rightarrow> memory_write \<Rightarrow> ustr \<Rightarrow> instant \<Rightarrow> memory_db \<Rightarrow>
   memory_error + memory_entry \<times> memory_db" where
  "append_in_transaction env cf sc w fresh now d =
     (let i = (case mw_id w of None \<Rightarrow> fresh | Some i \<Rightarrow> i) in
      case memory_hash env (mw_content w) of
        Inl e \<Rightarrow> Inl e
      | Inr digest \<Rightarrow> binding (i # scope_texts sc @ provenance_texts (mw_provenance w))
          (let entry = fresh_entry env (cf_secrets cf) sc w i digest now
           in if find_memory i d \<noteq> None \<or> sqlite_empty (sc_profile sc) \<or> sqlite_empty (sc_subject sc) then Inl MmConflict
              else case insert_revision entry ''append'' (d\<lparr>memories := memories d @ [entry]\<rparr>) of
                Inl e \<Rightarrow> Inl e
              | Inr d1 \<Rightarrow>
                  (let d2 = bump_generation (if cf_fts cf \<and> me_blocked entry = None
                              then d1\<lparr>fts := fts d1 @ [fts_row_of entry]\<rparr> else d1)
                   in case find_memory i d2 of None \<Rightarrow> Inl MmType | Some e \<Rightarrow> Inr (e, d2))))"

text \<open>What a caller may pass: a write, a text, or the content by keyword.\<close>

datatype write_arg = ArgWrite memory_write | ArgText ustr | ArgNone

definition coerce_write ::
  "unicode \<Rightarrow> write_arg \<Rightarrow> ustr option \<Rightarrow> memory_kind \<Rightarrow> trust_level \<Rightarrow> ustr option \<Rightarrow> provenance \<Rightarrow>
   memory_error + memory_write" where
  "coerce_write uc arg content kind trust i prov =
     (case arg of
        ArgWrite w \<Rightarrow> if content \<noteq> None then Inl MmValidation else Inr w
      | _ \<Rightarrow>
          if (case arg of ArgText t \<Rightarrow> content \<noteq> None | _ \<Rightarrow> False) then Inl MmValidation
          else (case (case arg of ArgText t \<Rightarrow> Some t | _ \<Rightarrow> content) of
             None \<Rightarrow> Inl MmValidation
           | Some t \<Rightarrow> make_write uc \<lparr>mw_content = t, mw_kind = kind, mw_trust = trust, mw_id = i, mw_provenance = prov\<rparr>))"

definition append_memory ::
  "memory_env \<Rightarrow> memory_scope \<Rightarrow> write_arg \<Rightarrow> ustr option \<Rightarrow> memory_kind \<Rightarrow> trust_level \<Rightarrow> ustr option \<Rightarrow> provenance \<Rightarrow>
   ustr \<Rightarrow> instant \<Rightarrow> memory_store \<Rightarrow> (memory_error + memory_entry) \<times> memory_store" where
  "append_memory env sc arg content kind trust i prov fresh now s =
     (case coerce_write (mv_unicode env) arg content kind trust i prov of
        Inl e \<Rightarrow> (Inl e, s)
      | Inr w \<Rightarrow> memory_transaction (append_in_transaction env (mconfig s) sc w fresh now) s)"

text \<open>Each write of a batch comes with its fresh identifier and its clock reading.\<close>

fun append_all ::
  "memory_env \<Rightarrow> memory_config \<Rightarrow> memory_scope \<Rightarrow> (memory_write \<times> ustr \<times> instant) list \<Rightarrow> memory_db \<Rightarrow>
   memory_error + memory_entry list \<times> memory_db" where
  "append_all env cf sc [] d = Inr ([], d)"
| "append_all env cf sc ((w, fresh, now) # ws) d =
     (case append_in_transaction env cf sc w fresh now d of
        Inl e \<Rightarrow> Inl e
      | Inr (x, d1) \<Rightarrow> (case append_all env cf sc ws d1 of Inl e \<Rightarrow> Inl e | Inr (xs, d2) \<Rightarrow> Inr (x # xs, d2)))"

definition append_many ::
  "memory_env \<Rightarrow> memory_scope \<Rightarrow> (memory_write \<times> ustr \<times> instant) list \<Rightarrow> memory_store \<Rightarrow>
   (memory_error + memory_entry list) \<times> memory_store" where
  "append_many env sc ws s = memory_transaction (append_all env (mconfig s) sc ws) s"

text \<open>\<open>_write_identity_hash\<close>: the members in the order of their names.\<close>

definition write_identity :: "memory_env \<Rightarrow> memory_write \<Rightarrow> ustr" where
  "write_identity env w = mv_digest env
     (asc ''{'' @ json_text (asc ''content'') @ asc '':'' @ json_text (mw_content w)
      @ asc '','' @ json_text (asc ''entry_id'') @ asc '':'' @ json_text_or_null (mw_id w)
      @ asc '','' @ json_text (asc ''kind'') @ asc '':'' @ json_text (asc (memory_kind_value (mw_kind w)))
      @ asc '','' @ json_text (asc ''provenance_message_id'') @ asc '':'' @ json_text_or_null (pv_message (mw_provenance w))
      @ asc '','' @ json_text (asc ''provenance_run_id'') @ asc '':'' @ json_text_or_null (pv_run (mw_provenance w))
      @ asc '','' @ json_text (asc ''provenance_session_id'') @ asc '':'' @ json_text_or_null (pv_session (mw_provenance w))
      @ asc '','' @ json_text (asc ''trust_level'') @ asc '':'' @ json_text (asc (trust_level_value (mw_trust w)))
      @ asc ''}'')"

definition append_idempotent_tx ::
  "memory_env \<Rightarrow> memory_config \<Rightarrow> memory_scope \<Rightarrow> memory_write \<Rightarrow> ustr \<Rightarrow> ustr \<Rightarrow> instant \<Rightarrow> instant \<Rightarrow> memory_db \<Rightarrow>
   memory_error + memory_entry \<times> memory_db" where
  "append_idempotent_tx env cf sc w key fresh now now2 d = binding [key]
     (case by_key ik_key key (idempotency d) of
        Some row \<Rightarrow>
          if ik_profile row \<noteq> sc_profile sc \<or> ik_subject row \<noteq> sc_subject sc \<or> ik_hash row \<noteq> write_identity env w
          then Inl MmConflict
          else (case get_in_transaction sc (ik_entry row) True d of Inl e \<Rightarrow> Inl e | Inr e \<Rightarrow> Inr (e, d))
      | None \<Rightarrow>
          (case append_in_transaction env cf sc w fresh now d of
             Inl e \<Rightarrow> Inl e
           | Inr (e, d1) \<Rightarrow> Inr (e, d1\<lparr>idempotency := idempotency d1 @ [\<lparr>ik_key = key, ik_entry = me_id e,
                 ik_profile = sc_profile sc, ik_subject = sc_subject sc, ik_hash = write_identity env w,
                 ik_created = now2\<rparr>]\<rparr>)))"

definition append_idempotent ::
  "memory_env \<Rightarrow> memory_scope \<Rightarrow> memory_write \<Rightarrow> ustr \<Rightarrow> ustr \<Rightarrow> instant \<Rightarrow> instant \<Rightarrow> memory_store \<Rightarrow>
   (memory_error + memory_entry) \<times> memory_store" where
  "append_idempotent env sc w key fresh now now2 s =
     (if blank (mv_unicode env) key then (Inl MmValidation, s)
      else memory_transaction (append_idempotent_tx env (mconfig s) sc w key fresh now now2) s)"

definition equal_active :: "memory_scope \<Rightarrow> ustr \<Rightarrow> memory_db \<Rightarrow> memory_entry list" where
  "equal_active sc digest d = order_by (\<lambda>e. (me_created e, me_id e))
     (filter (\<lambda>e. in_scope sc e \<and> me_hash e = digest \<and> \<not> me_tombstoned e) (memories d))"

definition append_reconciled ::
  "memory_env \<Rightarrow> memory_scope \<Rightarrow> memory_write \<Rightarrow> ustr \<Rightarrow> instant \<Rightarrow> memory_store \<Rightarrow>
   (memory_error + memory_entry \<times> bool) \<times> memory_store" where
  "append_reconciled env sc w fresh now s =
     (case memory_hash env (mw_content w) of
        Inl e \<Rightarrow> (Inl e, s)
      | Inr digest \<Rightarrow> memory_transaction (\<lambda>d. binding (scope_texts sc)
          (case equal_active sc digest d of
             e # _ \<Rightarrow> Inr ((e, False), d)
           | [] \<Rightarrow> (case append_in_transaction env (mconfig s) sc w fresh now d of
                 Inl err \<Rightarrow> Inl err | Inr (e, d1) \<Rightarrow> Inr ((e, True), d1)))) s)"

section \<open>Revising and removing\<close>

definition check_expected :: "memory_entry \<Rightarrow> int option \<Rightarrow> ustr option \<Rightarrow> memory_error option" where
  "check_expected e expected hash =
     (if expected = None \<and> hash = None then Some MmValidation
      else if expected \<noteq> None \<and> expected \<noteq> Some (me_revision e) then Some MmConflict
      else if hash \<noteq> None \<and> hash \<noteq> Some (me_hash e) then Some MmConflict else None)"

definition replace_fts :: "memory_config \<Rightarrow> memory_scope \<Rightarrow> ustr \<Rightarrow> ustr option \<Rightarrow> ustr option \<Rightarrow> memory_db \<Rightarrow> memory_db" where
  "replace_fts cf sc i content blocked d =
     (if \<not> cf_fts cf then d
      else d\<lparr>fts := filter (\<lambda>f. ft_id f \<noteq> i) (fts d) @
        (case content of None \<Rightarrow> [] | Some t \<Rightarrow> if blocked = None
           then [\<lparr>ft_id = i, ft_profile = sc_profile sc, ft_subject = sc_subject sc, ft_content = t\<rparr>] else [])\<rparr>)"

text \<open>The update of the row, its revision, the index and the generation, and the row read back.\<close>

definition store_revision ::
  "memory_config \<Rightarrow> memory_scope \<Rightarrow> memory_entry \<Rightarrow> str \<Rightarrow> ustr option \<Rightarrow> memory_db \<Rightarrow> memory_error + memory_entry \<times> memory_db" where
  "store_revision cf sc e operation content d =
     (case insert_revision e operation
            (d\<lparr>memories := update_where (\<lambda>x. me_id x = me_id e \<and> in_scope sc x) (\<lambda>x. e) (memories d)\<rparr>) of
        Inl err \<Rightarrow> Inl err
      | Inr d1 \<Rightarrow>
          (let d2 = bump_generation (replace_fts cf sc (me_id e) content (me_blocked e) d1)
           in case find_memory (me_id e) d2 of None \<Rightarrow> Inl MmType | Some x \<Rightarrow> Inr (x, d2)))"

text \<open>\<open>_replacement_provenance\<close>: an argument that is not given keeps the current value.\<close>

definition replacement_provenance :: "ustr option option \<Rightarrow> ustr option \<Rightarrow> ustr option" where
  "replacement_provenance given current = (case given of None \<Rightarrow> current | Some v \<Rightarrow> v)"

record replace_args =
  ra_write :: write_arg
  ra_content :: "ustr option"
  ra_revision :: "int option"
  ra_hash :: "ustr option"
  ra_kind :: "memory_kind option"
  ra_trust :: "trust_level option"
  ra_run :: "ustr option option"
  ra_session :: "ustr option option"
  ra_message :: "ustr option option"

definition replacement_write :: "unicode \<Rightarrow> memory_entry \<Rightarrow> replace_args \<Rightarrow> memory_error + memory_write" where
  "replacement_write uc cur a =
     (case ra_write a of
        ArgWrite w \<Rightarrow>
          if ra_content a \<noteq> None then Inl MmValidation
          else if mw_id w \<noteq> None \<and> mw_id w \<noteq> Some (me_id cur) then Inl MmValidation else Inr w
      | arg \<Rightarrow>
          (case (case arg of ArgText t \<Rightarrow> Some t | _ \<Rightarrow> ra_content a) of
             None \<Rightarrow> Inl MmValidation
           | Some t \<Rightarrow> make_write uc
               \<lparr>mw_content = t,
                mw_kind = (case ra_kind a of None \<Rightarrow> me_kind cur | Some k \<Rightarrow> k),
                mw_trust = (case ra_trust a of None \<Rightarrow> me_trust cur | Some l \<Rightarrow> l),
                mw_id = Some (me_id cur),
                mw_provenance =
                  \<lparr>pv_run = replacement_provenance (ra_run a) (pv_run (me_provenance cur)),
                   pv_session = replacement_provenance (ra_session a) (pv_session (me_provenance cur)),
                   pv_message = replacement_provenance (ra_message a) (pv_message (me_provenance cur))\<rparr>\<rparr>))"

definition replace_tx ::
  "memory_env \<Rightarrow> memory_config \<Rightarrow> memory_scope \<Rightarrow> ustr \<Rightarrow> replace_args \<Rightarrow> instant \<Rightarrow> memory_db \<Rightarrow>
   memory_error + memory_entry \<times> memory_db" where
  "replace_tx env cf sc i a now d =
     (case get_in_transaction sc i True d of
        Inl e \<Rightarrow> Inl e
      | Inr cur \<Rightarrow>
          if me_tombstoned cur then Inl MmNotFound
          else case check_expected cur (ra_revision a) (ra_hash a) of
            Some e \<Rightarrow> Inl e
          | None \<Rightarrow>
              (case replacement_write (mv_unicode env) cur a of
                 Inl e \<Rightarrow> Inl e
               | Inr w \<Rightarrow>
                   (case memory_hash env (mw_content w) of
                      Inl e \<Rightarrow> Inl e
                    | Inr digest \<Rightarrow> binding (provenance_texts (mw_provenance w))
                        (store_revision cf sc
                          (cur\<lparr>me_content := mw_content w, me_kind := mw_kind w, me_trust := mw_trust w,
                               me_provenance := mw_provenance w, me_updated := now,
                               me_revision := me_revision cur + 1, me_hash := digest,
                               me_blocked := memory_scan env (cf_secrets cf) (mw_content w), me_tombstoned := False\<rparr>)
                          ''replace'' (Some (mw_content w)) d))))"

definition replace_memory ::
  "memory_env \<Rightarrow> memory_scope \<Rightarrow> ustr \<Rightarrow> replace_args \<Rightarrow> instant \<Rightarrow> memory_store \<Rightarrow>
   (memory_error + memory_entry) \<times> memory_store" where
  "replace_memory env sc i a now s = memory_transaction (replace_tx env (mconfig s) sc i a now) s"

definition remove_tx ::
  "memory_config \<Rightarrow> memory_scope \<Rightarrow> ustr \<Rightarrow> int option \<Rightarrow> ustr option \<Rightarrow> instant \<Rightarrow> memory_db \<Rightarrow>
   memory_error + memory_entry \<times> memory_db" where
  "remove_tx cf sc i expected hash now d =
     (case get_in_transaction sc i True d of
        Inl e \<Rightarrow> Inl e
      | Inr cur \<Rightarrow>
          if me_tombstoned cur then Inr (cur, d)
          else case check_expected cur expected hash of
            Some e \<Rightarrow> Inl e
          | None \<Rightarrow> store_revision cf sc
              (cur\<lparr>me_updated := now, me_revision := me_revision cur + 1, me_tombstoned := True\<rparr>)
              ''tombstone'' None d)"

definition remove_memory ::
  "memory_scope \<Rightarrow> ustr \<Rightarrow> int option \<Rightarrow> ustr option \<Rightarrow> instant \<Rightarrow> memory_store \<Rightarrow>
   (memory_error + memory_entry) \<times> memory_store" where
  "remove_memory sc i expected hash now s = memory_transaction (remove_tx (mconfig s) sc i expected hash now) s"

end
