(* ===== verification/MemoryMachine.thy ===== *)
theory MemoryMachine
  imports MemoryReads Contracts
begin

text \<open>
  The memory store as a machine: its calls as one datatype, the abstract steps they are made of
  (append, revise, tombstone, remember a key, rebuild the index), the invariant of the database and
  the proof that every call is a sequence of such steps within its own scope.
\<close>

section \<open>Calls\<close>

datatype memory_op =
    MemAppend memory_scope write_arg "ustr option" memory_kind trust_level "ustr option" provenance ustr instant
  | MemAppendMany memory_scope "(memory_write \<times> ustr \<times> instant) list"
  | MemAppendIdempotent memory_scope memory_write ustr ustr instant instant
  | MemAppendReconciled memory_scope memory_write ustr instant
  | MemReplace memory_scope ustr replace_args instant
  | MemRemove memory_scope ustr "int option" "ustr option" instant
  | MemAddSecrets "ustr list"
  | MemClose
  | MemReopen "ustr list" bool

fun memory_exec :: "memory_env \<Rightarrow> memory_op \<Rightarrow> memory_store \<Rightarrow> memory_store" where
  "memory_exec env (MemAppend sc arg content kind trust i prov fresh now) s =
     snd (append_memory env sc arg content kind trust i prov fresh now s)"
| "memory_exec env (MemAppendMany sc ws) s = snd (append_many env sc ws s)"
| "memory_exec env (MemAppendIdempotent sc w key fresh now now2) s = snd (append_idempotent env sc w key fresh now now2 s)"
| "memory_exec env (MemAppendReconciled sc w fresh now) s = snd (append_reconciled env sc w fresh now s)"
| "memory_exec env (MemReplace sc i args now) s = snd (replace_memory env sc i args now s)"
| "memory_exec env (MemRemove sc i expected hash now) s = snd (remove_memory sc i expected hash now s)"
| "memory_exec env (MemAddSecrets secrets) s = snd (add_configured_secrets secrets s)"
| "memory_exec env MemClose s = close_memory s"
| "memory_exec env (MemReopen secrets enable) s = open_memory env secrets enable (mdb s)"

text \<open>The scope a call is bound to.\<close>

fun op_scope :: "memory_op \<Rightarrow> memory_scope option" where
  "op_scope (MemAppend sc arg content kind trust i prov fresh now) = Some sc"
| "op_scope (MemAppendMany sc ws) = Some sc"
| "op_scope (MemAppendIdempotent sc w key fresh now now2) = Some sc"
| "op_scope (MemAppendReconciled sc w fresh now) = Some sc"
| "op_scope (MemReplace sc i args now) = Some sc"
| "op_scope (MemRemove sc i expected hash now) = Some sc"
| "op_scope _ = None"

section \<open>Abstract steps\<close>

definition content_ok :: "memory_env \<Rightarrow> memory_entry \<Rightarrow> bool" where
  "content_ok env e \<longleftrightarrow> \<not> list_ex surrogate (me_content e) \<and> me_hash e = mv_digest env (me_content e) \<and>
     (me_blocked e = None \<longrightarrow> memory_scan env [] (me_content e) = None)"

definition entry_ok :: "memory_env \<Rightarrow> memory_entry \<Rightarrow> bool" where
  "entry_ok env e \<longleftrightarrow> content_ok env e \<and> 1 \<le> me_revision e \<and>
     \<not> sqlite_empty (me_profile e) \<and> \<not> sqlite_empty (me_subject e)"

text \<open>What a revision keeps.\<close>

definition same_origin :: "memory_entry \<Rightarrow> memory_entry \<Rightarrow> bool" where
  "same_origin x y \<longleftrightarrow> me_id x = me_id y \<and> me_profile x = me_profile y \<and> me_subject x = me_subject y \<and>
     me_created x = me_created y"

definition indexed_after :: "bool \<Rightarrow> memory_entry \<Rightarrow> fts_row list \<Rightarrow> fts_row list" where
  "indexed_after ft e f =
     (if \<not> ft then f
      else filter (\<lambda>r. ft_id r \<noteq> me_id e) f @ (if me_tombstoned e \<or> me_blocked e \<noteq> None then [] else [fts_row_of e]))"

definition recorded :: "bool \<Rightarrow> memory_entry list \<Rightarrow> memory_entry \<Rightarrow> str \<Rightarrow> memory_db \<Rightarrow> memory_db" where
  "recorded ft ms e operation d =
     d\<lparr>memories := ms, revisions := revisions d @ [\<lparr>rv_entry = e, rv_operation = operation\<rparr>],
       generation := generation d + 1, fts := indexed_after ft e (fts d)\<rparr>"

inductive mem_step :: "memory_env \<Rightarrow> bool \<Rightarrow> memory_scope option \<Rightarrow> memory_db \<Rightarrow> memory_db \<Rightarrow> bool" where
  append: "find_memory (me_id e) d = None \<Longrightarrow> in_scope sc e \<Longrightarrow> entry_ok env e \<Longrightarrow> me_revision e = 1 \<Longrightarrow>
    \<not> me_tombstoned e \<Longrightarrow> mem_step env ft (Some sc) d (recorded ft (memories d @ [e]) e ''append'' d)"
| revise: "find_memory (me_id e) d = Some cur \<Longrightarrow> in_scope sc cur \<Longrightarrow> \<not> me_tombstoned cur \<Longrightarrow> same_origin e cur \<Longrightarrow>
    entry_ok env e \<Longrightarrow> me_revision e = me_revision cur + 1 \<Longrightarrow> \<not> me_tombstoned e \<Longrightarrow>
    mem_step env ft (Some sc) d (recorded ft (update_where (\<lambda>x. me_id x = me_id e) (\<lambda>x. e) (memories d)) e ''replace'' d)"
| tombstone: "find_memory (me_id cur) d = Some cur \<Longrightarrow> in_scope sc cur \<Longrightarrow> \<not> me_tombstoned cur \<Longrightarrow>
    e = cur\<lparr>me_updated := now, me_revision := me_revision cur + 1, me_tombstoned := True\<rparr> \<Longrightarrow>
    mem_step env ft (Some sc) d (recorded ft (update_where (\<lambda>x. me_id x = me_id e) (\<lambda>x. e) (memories d)) e ''tombstone'' d)"
| remember: "by_key ik_key (ik_key row) (idempotency d) = None \<Longrightarrow> find_memory (ik_entry row) d = Some e \<Longrightarrow>
    in_scope sc e \<Longrightarrow> ik_profile row = sc_profile sc \<Longrightarrow> ik_subject row = sc_subject sc \<Longrightarrow>
    mem_step env ft (Some sc) d (d\<lparr>idempotency := idempotency d @ [row]\<rparr>)"
| reindex: "mem_step env ft None d (configure_fts d)"

section \<open>The invariant\<close>

definition history :: "memory_db \<Rightarrow> ustr \<Rightarrow> revision_row list" where
  "history d i = filter (\<lambda>r. me_id (rv_entry r) = i) (revisions d)"

definition expected_operation :: "memory_entry \<Rightarrow> str" where
  "expected_operation e = (if me_revision e = 1 then ''append'' else if me_tombstoned e then ''tombstone'' else ''replace'')"

text \<open>
  The history of an entry: the revisions are numbered from 1 without a gap, the last one is the
  stored row, every one is of the same origin, and only the last may be a tombstone.
\<close>

definition history_ok :: "memory_env \<Rightarrow> memory_entry \<Rightarrow> revision_row list \<Rightarrow> bool" where
  "history_ok env e h \<longleftrightarrow> h \<noteq> [] \<and> rv_entry (last h) = e \<and>
     map (\<lambda>r. me_revision (rv_entry r)) h = map int [1..<Suc (length h)] \<and>
     (\<forall>r \<in> set h. same_origin (rv_entry r) e \<and> content_ok env (rv_entry r) \<and>
        rv_operation r = expected_operation (rv_entry r)) \<and>
     (\<forall>r \<in> set (butlast h). \<not> me_tombstoned (rv_entry r))"

definition memory_ok :: "memory_env \<Rightarrow> memory_db \<Rightarrow> bool" where
  "memory_ok env d \<longleftrightarrow> keyed me_id (memories d) \<and> (\<forall>e \<in> set (memories d). entry_ok env e) \<and>
     (\<forall>e \<in> set (memories d). history_ok env e (history d (me_id e))) \<and>
     (\<forall>r \<in> set (revisions d). me_id (rv_entry r) \<in> me_id ` set (memories d)) \<and>
     generation d = int (length (revisions d)) \<and>
     keyed ik_key (idempotency d) \<and>
     (\<forall>row \<in> set (idempotency d). \<exists>e \<in> set (memories d). ik_entry row = me_id e \<and> ik_profile row = me_profile e \<and>
        ik_subject row = me_subject e) \<and>
     keyed ft_id (fts d) \<and> ft_id ` set (fts d) \<subseteq> me_id ` set (memories d)"

text \<open>When the index has been maintained throughout, it holds the active entries that are not blocked.\<close>

definition searchable :: "memory_entry \<Rightarrow> bool" where
  "searchable e \<longleftrightarrow> \<not> me_tombstoned e \<and> me_blocked e = None"

definition index_exact :: "memory_db \<Rightarrow> bool" where
  "index_exact d \<longleftrightarrow> set (fts d) = fts_row_of ` {e \<in> set (memories d). searchable e}"

lemma empty_memory_ok: "memory_ok env empty_memory_db" "index_exact empty_memory_db"
  by (simp_all add: memory_ok_def empty_memory_db_def index_exact_def)

lemma memory_okD:
  assumes "memory_ok env d"
  shows "keyed me_id (memories d)" "\<And>e. e \<in> set (memories d) \<Longrightarrow> entry_ok env e"
    "\<And>e. e \<in> set (memories d) \<Longrightarrow> history_ok env e (history d (me_id e))"
    "\<And>r. r \<in> set (revisions d) \<Longrightarrow> me_id (rv_entry r) \<in> me_id ` set (memories d)"
    "generation d = int (length (revisions d))" "keyed ik_key (idempotency d)"
    "\<And>row. row \<in> set (idempotency d) \<Longrightarrow> \<exists>e \<in> set (memories d). ik_entry row = me_id e \<and> ik_profile row = me_profile e \<and>
        ik_subject row = me_subject e"
    "keyed ft_id (fts d)" "ft_id ` set (fts d) \<subseteq> me_id ` set (memories d)"
  using assms by (simp_all add: memory_ok_def)

lemma find_memory_in: "find_memory i d = Some e \<Longrightarrow> e \<in> set (memories d) \<and> me_id e = i"
  unfolding find_memory_def by (rule by_key_SomeD)

lemma find_memory_ok:
  assumes "memory_ok env d" and "find_memory i d = Some e"
  shows "entry_ok env e" "history_ok env e (history d i)" "me_id e = i"
  using assms find_memory_in memory_okD by blast+

lemma history_revision:
  assumes "history_ok env e h"
  shows "me_revision e = int (length h)"
proof -
  have h: "h \<noteq> []" "rv_entry (last h) = e" "map (\<lambda>r. me_revision (rv_entry r)) h = map int [1..<Suc (length h)]"
    using assms by (simp_all add: history_ok_def del: upt_Suc)
  then have "me_revision (rv_entry (last h)) = int (length h)"
    by (cases h rule: rev_cases) simp_all
  with h(2) show ?thesis by simp
qed

lemma history_snoc:
  assumes "history_ok env cur h" and "same_origin e cur" and "me_revision e = me_revision cur + 1"
    and "\<not> me_tombstoned cur" and "content_ok env e" and "operation = expected_operation e"
  shows "history_ok env e (h @ [\<lparr>rv_entry = e, rv_operation = operation\<rparr>])"
proof -
  have rev: "me_revision e = int (Suc (length h))" using history_revision [OF assms(1)] assms(3) by simp
  have trans: "same_origin x cur \<Longrightarrow> same_origin x e" for x using assms(2) by (simp add: same_origin_def)
  have "\<forall>r \<in> set h. \<not> me_tombstoned (rv_entry r)"
    using assms(1,4) by (cases h rule: rev_cases) (auto simp: history_ok_def)
  then show ?thesis
    using assms(1,5,6) rev trans by (auto simp: history_ok_def same_origin_def)
qed

lemma history_first:
  "me_revision e = 1 \<Longrightarrow> content_ok env e \<Longrightarrow> history_ok env e [\<lparr>rv_entry = e, rv_operation = ''append''\<rparr>]"
  by (simp add: history_ok_def same_origin_def expected_operation_def)

lemma history_recorded:
  "history (recorded ft ms e operation d) i =
     history d i @ (if i = me_id e then [\<lparr>rv_entry = e, rv_operation = operation\<rparr>] else [])"
  by (simp add: history_def recorded_def)

lemma history_new: "memory_ok env d \<Longrightarrow> find_memory i d = None \<Longrightarrow> history d i = []"
  using memory_okD(4) by (fastforce simp: history_def filter_empty_conv find_memory_def by_key_None_iff)

lemma recorded_simps [simp]:
  "memories (recorded ft ms e operation d) = ms"
  "revisions (recorded ft ms e operation d) = revisions d @ [\<lparr>rv_entry = e, rv_operation = operation\<rparr>]"
  "generation (recorded ft ms e operation d) = generation d + 1"
  "idempotency (recorded ft ms e operation d) = idempotency d"
  "fts (recorded ft ms e operation d) = indexed_after ft e (fts d)"
  by (simp_all add: recorded_def)

lemma fts_row_of_simps [simp]:
  "ft_id (fts_row_of e) = me_id e" "ft_content (fts_row_of e) = me_content e"
  by (simp_all add: fts_row_of_def)

lemma indexed_after_keyed: "keyed ft_id f \<Longrightarrow> keyed ft_id (indexed_after ft e f)"
  by (auto simp: indexed_after_def keyed_def by_key_None_iff distinct_map_filter)

lemma indexed_after_ids: "ft_id ` set (indexed_after ft e f) \<subseteq> insert (me_id e) (ft_id ` set f)"
  by (auto simp: indexed_after_def)

section \<open>Every step keeps the invariant\<close>

lemma replaced_row_set:
  assumes "keyed me_id ms" and "by_key me_id (me_id e) ms = Some cur"
  shows "set (update_where (\<lambda>x. me_id x = me_id e) (\<lambda>x. e) ms) = insert e (set ms - {cur})"
  using update_key_set [OF assms] by simp

lemma replaced_row_ids:
  "map me_id (update_where (\<lambda>x. me_id x = me_id e) (\<lambda>x. e) ms) = map me_id ms"
  by (rule map_update_where) simp

lemma keyed_replaced [simp]: "keyed me_id (update_where (\<lambda>x. me_id x = me_id e) (\<lambda>x. e) ms) = keyed me_id ms"
  by (simp only: keyed_def replaced_row_ids)

lemma ids_replaced [simp]: "me_id ` set (update_where (\<lambda>x. me_id x = me_id e) (\<lambda>x. e) ms) = me_id ` set ms"
  using arg_cong [OF replaced_row_ids, of set] by simp

lemma replaced_memory_ok:
  assumes ok: "memory_ok env d" and cur: "find_memory (me_id e) d = Some cur" "\<not> me_tombstoned cur"
    and e: "same_origin e cur" "entry_ok env e" "me_revision e = me_revision cur + 1" "operation = expected_operation e"
  shows "memory_ok env (recorded ft (update_where (\<lambda>x. me_id x = me_id e) (\<lambda>x. e) (memories d)) e operation d)"
    (is "memory_ok env ?d")
proof -
  note inv = memory_okD [OF ok]
  have old: "cur \<in> set (memories d)" "me_id cur = me_id e" using find_memory_in [OF cur(1)] by simp_all
  have rows: "set (memories ?d) = insert e (set (memories d) - {cur})"
    using replaced_row_set [OF inv(1)] cur(1) by (simp add: find_memory_def)
  have same: "x = cur" if "x \<in> set (memories d)" "me_id x = me_id e" for x
    using by_key_same [OF inv(1)] cur(1) that by (simp add: find_memory_def)
  have hist: "history_ok env x (history ?d (me_id x))" if "x \<in> set (memories ?d)" for x
  proof (cases "x = e")
    case True
    then show ?thesis
      using history_snoc [OF find_memory_ok(2) [OF ok cur(1)] e(1) e(3) cur(2) _ e(4)] e(2)
      by (simp add: history_recorded entry_ok_def)
  next
    case False
    then have "x \<in> set (memories d)" "me_id x \<noteq> me_id e" using that rows same by auto
    then show ?thesis using inv(3) by (simp add: history_recorded)
  qed
  have ids: "me_id ` set (memories ?d) = me_id ` set (memories d)" by simp
  have keys: "\<exists>x \<in> set (memories ?d). ik_entry row = me_id x \<and> ik_profile row = me_profile x \<and> ik_subject row = me_subject x"
    if row: "row \<in> set (idempotency d)" for row
  proof -
    obtain x where x: "x \<in> set (memories d)" "ik_entry row = me_id x" "ik_profile row = me_profile x" "ik_subject row = me_subject x"
      using inv(7) [OF row] by blast
    show ?thesis
    proof (cases "x = cur")
      case True
      then have "ik_entry row = me_id e \<and> ik_profile row = me_profile e \<and> ik_subject row = me_subject e"
        using x e(1) by (simp add: same_origin_def)
      then show ?thesis using rows by blast
    next
      case False
      then show ?thesis using rows x by blast
    qed
  qed
  have in': "me_id e \<in> me_id ` set (memories d)" using old imageI [of cur _ me_id] by simp
  show ?thesis
    unfolding memory_ok_def
  proof (intro conjI)
    show "keyed me_id (memories ?d)" using inv(1) by simp
    show "\<forall>x \<in> set (memories ?d). entry_ok env x" using rows inv(2) e(2) by auto
    show "\<forall>x \<in> set (memories ?d). history_ok env x (history ?d (me_id x))" using hist by blast
    show "\<forall>r \<in> set (revisions ?d). me_id (rv_entry r) \<in> me_id ` set (memories ?d)"
      using inv(4) in' by auto
    show "generation ?d = int (length (revisions ?d))" using inv(5) by simp
    show "keyed ik_key (idempotency ?d)" using inv(6) by simp
    show "\<forall>row \<in> set (idempotency ?d). \<exists>x \<in> set (memories ?d). ik_entry row = me_id x \<and> ik_profile row = me_profile x \<and>
        ik_subject row = me_subject x" using keys by simp
    show "keyed ft_id (fts ?d)" using inv(8) by (simp add: indexed_after_keyed)
    show "ft_id ` set (fts ?d) \<subseteq> me_id ` set (memories ?d)"
      using inv(9) in' unfolding ids by (simp add: subset_trans [OF indexed_after_ids])
  qed
qed

lemma appended_memory_ok:
  assumes ok: "memory_ok env d" and none: "find_memory (me_id e) d = None"
    and e: "entry_ok env e" "me_revision e = 1"
  shows "memory_ok env (recorded ft (memories d @ [e]) e ''append'' d)" (is "memory_ok env ?d")
proof -
  note inv = memory_okD [OF ok]
  have new: "me_id e \<notin> me_id ` set (memories d)" using none by (simp add: find_memory_def by_key_None_iff)
  have hist: "history_ok env x (history ?d (me_id x))" if "x \<in> set (memories ?d)" for x
  proof (cases "me_id x = me_id e")
    case True
    then have "x = e" using that new by (auto simp: image_iff)
    then show ?thesis
      using history_new [OF ok none] history_first e by (simp add: history_recorded entry_ok_def)
  next
    case False
    then show ?thesis using inv(3) that by (auto simp: history_recorded)
  qed
  show ?thesis
    unfolding memory_ok_def
  proof (intro conjI)
    show "keyed me_id (memories ?d)" using inv(1) none by (simp add: find_memory_def)
    show "\<forall>x \<in> set (memories ?d). entry_ok env x" using inv(2) e(1) by auto
    show "\<forall>x \<in> set (memories ?d). history_ok env x (history ?d (me_id x))" using hist by blast
    show "\<forall>r \<in> set (revisions ?d). me_id (rv_entry r) \<in> me_id ` set (memories ?d)" using inv(4) by auto
    show "generation ?d = int (length (revisions ?d))" using inv(5) by simp
    show "keyed ik_key (idempotency ?d)" using inv(6) by simp
    show "\<forall>row \<in> set (idempotency ?d). \<exists>x \<in> set (memories ?d). ik_entry row = me_id x \<and> ik_profile row = me_profile x \<and>
        ik_subject row = me_subject x"
    proof
      fix row assume "row \<in> set (idempotency ?d)"
      then have "row \<in> set (idempotency d)" by simp
      from inv(7) [OF this] show "\<exists>x \<in> set (memories ?d). ik_entry row = me_id x \<and> ik_profile row = me_profile x \<and>
        ik_subject row = me_subject x" by auto
    qed
    show "keyed ft_id (fts ?d)" using inv(8) by (simp add: indexed_after_keyed)
    show "ft_id ` set (fts ?d) \<subseteq> me_id ` set (memories ?d)"
      unfolding recorded_simps by (rule subset_trans [OF indexed_after_ids]) (use inv(9) in auto)
  qed
qed

lemma configure_fts_simps [simp]:
  "memories (configure_fts d) = memories d" "revisions (configure_fts d) = revisions d"
  "generation (configure_fts d) = generation d" "idempotency (configure_fts d) = idempotency d"
  by (simp_all add: configure_fts_def Let_def)

lemma configured_memory_ok:
  assumes ok: "memory_ok env d"
  shows "memory_ok env (configure_fts d)"
proof -
  note inv = memory_okD [OF ok]
  have key: "keyed ft_id (fts (configure_fts d))"
    using inv(1,8)
    by (auto simp: configure_fts_def Let_def keyed_def comp_def distinct_map_filter) (metis imageI)
  have "ft_id ` set (fts (configure_fts d)) \<subseteq> me_id ` set (memories d)"
    using inv(9) by (auto simp: configure_fts_def Let_def)
  with key ok show ?thesis by (simp add: memory_ok_def history_def)
qed

lemma mem_step_ok: "mem_step env ft sc d d' \<Longrightarrow> memory_ok env d \<Longrightarrow> memory_ok env d'"
proof (induction rule: mem_step.induct)
  case (append e d sc env ft)
  then show ?case by (intro appended_memory_ok) simp_all
next
  case (revise e d cur sc env ft)
  have "1 \<le> me_revision cur" using find_memory_ok(1) [OF revise.prems revise.hyps(1)] by (simp add: entry_ok_def)
  then have "''replace'' = expected_operation e" using revise.hyps by (simp add: expected_operation_def)
  then show ?case using revise by (intro replaced_memory_ok) simp_all
next
  case (tombstone cur d sc e now env ft)
  have "entry_ok env cur" using find_memory_ok(1) [OF tombstone.prems tombstone.hyps(1)] .
  then have "entry_ok env e" "''tombstone'' = expected_operation e" "same_origin e cur"
    using tombstone.hyps(4) by (simp_all add: entry_ok_def content_ok_def expected_operation_def same_origin_def)
  then show ?case using tombstone by (intro replaced_memory_ok) simp_all
next
  case (remember row d e sc env ft)
  have "e \<in> set (memories d)" "ik_entry row = me_id e" using find_memory_in [OF remember.hyps(2)] by simp_all
  then show ?case
    using remember unfolding memory_ok_def by (auto simp: history_def in_scope_def)
next
  case (reindex env ft d)
  then show ?case by (rule configured_memory_ok)
qed

section \<open>Every call is a sequence of steps\<close>

text \<open>Whether a call maintains the index is what the store was opened with.\<close>

abbreviation index_on :: "memory_store \<Rightarrow> bool" where
  "index_on s \<equiv> cf_fts (mconfig s)"

abbreviation mem_steps :: "memory_env \<Rightarrow> bool \<Rightarrow> memory_scope option \<Rightarrow> memory_db \<Rightarrow> memory_db \<Rightarrow> bool" where
  "mem_steps env ft sc \<equiv> (mem_step env ft sc)\<^sup>*\<^sup>*"

lemma mem_steps_ok: "mem_steps env ft sc d d' \<Longrightarrow> memory_ok env d \<Longrightarrow> memory_ok env d'"
  by (induction rule: rtranclp_induct) (auto intro: mem_step_ok)

lemma memory_transaction_steps:
  "(\<And>x d'. body (mdb s) = Inr (x, d') \<Longrightarrow> mem_steps env ft sc (mdb s) d') \<Longrightarrow>
   mem_steps env ft sc (mdb s) (mdb (snd (memory_transaction body s)))"
  by (auto simp: memory_transaction_def split: sum.splits)

lemma binding_InrD: "binding ts r = Inr x \<Longrightarrow> r = Inr x"
  by (simp add: binding_def split: if_splits)

lemma memory_hash_InrD:
  "memory_hash env t = Inr digest \<Longrightarrow> \<not> list_ex surrogate t \<and> digest = mv_digest env t"
  by (simp add: memory_hash_def split: if_splits)

lemma insert_revision_InrD:
  "insert_revision e operation d = Inr d' \<Longrightarrow>
   d' = d\<lparr>revisions := revisions d @ [\<lparr>rv_entry = e, rv_operation = operation\<rparr>]\<rparr>"
  by (simp add: insert_revision_def split: if_splits)

lemma scan_no_secrets: "memory_scan env secrets t = None \<Longrightarrow> memory_scan env [] t = None"
  by (auto simp: scan_None_iff)

lemma fresh_entry_ok:
  "memory_hash env (mw_content w) = Inr digest \<Longrightarrow> \<not> sqlite_empty (sc_profile sc) \<Longrightarrow> \<not> sqlite_empty (sc_subject sc) \<Longrightarrow>
   entry_ok env (fresh_entry env secrets sc w i digest now)"
  by (auto simp: entry_ok_def content_ok_def fresh_entry_def dest: memory_hash_InrD scan_no_secrets)

text \<open>What a successful append has done; the index has no row of a new identifier.\<close>

lemma append_in_transaction_shape:
  assumes "append_in_transaction env cf sc w fresh now d = Inr (e, d')" and "memory_ok env d"
  shows "find_memory (me_id e) d = None" "in_scope sc e" "entry_ok env e" "me_revision e = 1" "\<not> me_tombstoned e"
    "d' = recorded (cf_fts cf) (memories d @ [e]) e ''append'' d"
    "e = fresh_entry env (cf_secrets cf) sc w (case mw_id w of None \<Rightarrow> fresh | Some i \<Rightarrow> i) (mv_digest env (mw_content w)) now"
proof -
  let ?i = "case mw_id w of None \<Rightarrow> fresh | Some i \<Rightarrow> i"
  obtain digest where h: "memory_hash env (mw_content w) = Inr digest"
    using assms(1) by (auto simp: append_in_transaction_def Let_def split: sum.splits)
  let ?e = "fresh_entry env (cf_secrets cf) sc w ?i digest now"
  have simps: "me_id ?e = ?i" "me_revision ?e = 1" "\<not> me_tombstoned ?e" "in_scope sc ?e"
    by (simp_all add: fresh_entry_def in_scope_def)
  obtain d1 where d1: "find_memory ?i d = None" "\<not> sqlite_empty (sc_profile sc)" "\<not> sqlite_empty (sc_subject sc)"
      "insert_revision ?e ''append'' (d\<lparr>memories := memories d @ [?e]\<rparr>) = Inr d1"
      "d' = bump_generation (if cf_fts cf \<and> me_blocked ?e = None then d1\<lparr>fts := fts d1 @ [fts_row_of ?e]\<rparr> else d1)"
      "find_memory ?i d' = Some e"
    using assms(1) h
    by (fastforce simp: append_in_transaction_def Let_def dest!: binding_InrD split: sum.splits if_splits option.splits)
  have "ft_id r \<noteq> ?i" if "r \<in> set (fts d)" for r
    using memory_okD(9) [OF assms(2)] d1(1) that by (metis by_key_None_iff find_memory_def imageI subsetD)
  then have idx: "indexed_after (cf_fts cf) ?e (fts d) =
      (if cf_fts cf \<and> me_blocked ?e = None then fts d @ [fts_row_of ?e] else fts d)"
    using simps(1,3) by (auto simp: indexed_after_def filter_id_conv)
  have d': "d' = recorded (cf_fts cf) (memories d @ [?e]) ?e ''append'' d"
    using insert_revision_InrD [OF d1(4)] d1(5) idx by (simp add: recorded_def bump_generation_def)
  have "e = ?e" using d1(1,6) simps(1) unfolding d' by (simp add: find_memory_def by_key_append)
  then show "find_memory (me_id e) d = None" "in_scope sc e" "entry_ok env e" "me_revision e = 1" "\<not> me_tombstoned e"
    "d' = recorded (cf_fts cf) (memories d @ [e]) e ''append'' d"
    "e = fresh_entry env (cf_secrets cf) sc w ?i (mv_digest env (mw_content w)) now"
    using d1 simps d' fresh_entry_ok [OF h d1(2,3)] memory_hash_InrD [OF h] by simp_all
qed

lemma append_in_transaction_step:
  "append_in_transaction env cf sc w fresh now d = Inr (e, d') \<Longrightarrow> memory_ok env d \<Longrightarrow> mem_step env (cf_fts cf) (Some sc) d d'"
  using append_in_transaction_shape mem_step.append by metis

lemma append_all_steps:
  "append_all env cf sc ws d = Inr (es, d') \<Longrightarrow> memory_ok env d \<Longrightarrow> mem_steps env (cf_fts cf) (Some sc) d d'"
proof (induction ws arbitrary: d es)
  case (Cons a ws)
  obtain w fresh now where a: "a = (w, fresh, now)" by (cases a) auto
  obtain e d1 xs where d1: "append_in_transaction env cf sc w fresh now d = Inr (e, d1)"
      "append_all env cf sc ws d1 = Inr (xs, d')"
    using Cons.prems(1) a by (auto split: sum.splits)
  have step: "mem_step env (cf_fts cf) (Some sc) d d1" by (rule append_in_transaction_step [OF d1(1) Cons.prems(2)])
  have "mem_steps env (cf_fts cf) (Some sc) d1 d'" by (rule Cons.IH [OF d1(2) mem_step_ok [OF step Cons.prems(2)]])
  with step show ?case by (rule converse_rtranclp_into_rtranclp)
qed simp

lemma get_in_transaction_InrD:
  assumes "get_in_transaction sc i t d = Inr e" and "keyed me_id (memories d)"
  shows "find_memory i d = Some e" "in_scope sc e" "me_id e = i" "\<not> t \<longrightarrow> \<not> me_tombstoned e"
proof -
  have e: "fetch_one (\<lambda>e. me_id e = i \<and> in_scope sc e \<and> (t \<or> \<not> me_tombstoned e)) (memories d) = Some e"
    using assms(1) by (auto simp: get_in_transaction_def dest!: binding_InrD split: option.splits)
  then show "find_memory i d = Some e" "in_scope sc e" "me_id e = i" "\<not> t \<longrightarrow> \<not> me_tombstoned e"
    using fetch_one_SomeD [OF e] by_key_in [OF assms(2)] by (auto simp: find_memory_def)
qed

lemma update_in_scope:
  assumes "keyed me_id (memories d)" and "find_memory (me_id e) d = Some cur" and "in_scope sc cur"
  shows "update_where (\<lambda>x. me_id x = me_id e \<and> in_scope sc x) f (memories d) =
    update_where (\<lambda>x. me_id x = me_id e) f (memories d)"
  using assms update_where_key_cond [of me_id "memories d" "me_id e" cur "in_scope sc" f] by (simp add: find_memory_def)

lemma replaced_lookup:
  assumes "find_memory (me_id e) d = Some cur"
  shows "by_key me_id (me_id e) (update_where (\<lambda>x. me_id x = me_id e) (\<lambda>x. e) (memories d)) = Some e"
proof -
  have "by_key me_id (me_id e) (update_where (\<lambda>x. me_id x = me_id e) (\<lambda>x. e) t) =
      map_option (\<lambda>x. e) (by_key me_id (me_id e) t)" for t
    by (induction t) auto
  then show ?thesis using assms by (simp add: find_memory_def)
qed

lemma revision_memories [simp]:
  "memories (bump_generation d) = memories d" "memories (replace_fts cf sc i content blocked d) = memories d"
  by (simp_all add: bump_generation_def replace_fts_def)

text \<open>What a stored revision does, for either operation.\<close>

lemma store_revision_shape:
  assumes "store_revision cf sc e operation content d = Inr (x, d')" and ok: "memory_ok env d"
    and cur: "find_memory (me_id e) d = Some cur" "in_scope sc cur" and "same_origin e cur"
    and "content = (if me_tombstoned e then None else Some (me_content e))"
  shows "x = e" "d' = recorded (cf_fts cf) (update_where (\<lambda>x. me_id x = me_id e) (\<lambda>x. e) (memories d)) e operation d"
proof -
  note upd = update_in_scope [OF memory_okD(1) [OF ok] cur]
  let ?ms = "update_where (\<lambda>x. me_id x = me_id e) (\<lambda>x. e) (memories d)"
  obtain d1 where d1: "insert_revision e operation (d\<lparr>memories := ?ms\<rparr>) = Inr d1"
      "d' = bump_generation (replace_fts cf sc (me_id e) content (me_blocked e) d1)" "find_memory (me_id e) d' = Some x"
    using assms(1) upd by (auto simp: store_revision_def Let_def split: sum.splits option.splits)
  have "in_scope sc e" using cur(2) assms(5) by (simp add: in_scope_def same_origin_def)
  then have "replace_fts cf sc (me_id e) content (me_blocked e) d1 = d1\<lparr>fts := indexed_after (cf_fts cf) e (fts d1)\<rparr>"
    using assms(6) by (simp add: replace_fts_def indexed_after_def fts_row_of_def in_scope_def)
  then show d': "d' = recorded (cf_fts cf) ?ms e operation d"
    using insert_revision_InrD [OF d1(1)] d1(2) by (simp add: recorded_def bump_generation_def)
  show "x = e" using d1(3) replaced_lookup [OF cur(1)] unfolding d' by (simp add: find_memory_def)
qed

lemma store_revision_succeeds:
  assumes ok: "memory_ok env d" and cur: "find_memory (me_id e) d = Some cur" "in_scope sc cur"
    and "same_origin e cur" "me_revision e = me_revision cur + 1"
    and "content = (if me_tombstoned e then None else Some (me_content e))"
  shows "store_revision cf sc e operation content d =
    Inr (e, recorded (cf_fts cf) (update_where (\<lambda>x. me_id x = me_id e) (\<lambda>x. e) (memories d)) e operation d)"
proof -
  have "\<not> (me_id (rv_entry r) = me_id e \<and> me_revision (rv_entry r) = me_revision e)" if "r \<in> set (revisions d)" for r
  proof
    assume r: "me_id (rv_entry r) = me_id e \<and> me_revision (rv_entry r) = me_revision e"
    have h: "history_ok env cur (history d (me_id e))" by (rule find_memory_ok(2) [OF ok cur(1)])
    have "r \<in> set (history d (me_id e))" using that r by (simp add: history_def)
    then have "me_revision (rv_entry r) \<in> set (map (\<lambda>r. me_revision (rv_entry r)) (history d (me_id e)))" by simp
    also have "\<dots> = set (map int [1..<Suc (length (history d (me_id e)))])" using h unfolding history_ok_def by metis
    finally have "me_revision (rv_entry r) \<le> me_revision cur" using history_revision [OF h] by auto
    then show False using r assms(5) by simp
  qed
  then have ins: "insert_revision e operation (d\<lparr>memories := ms\<rparr>) =
      Inr (d\<lparr>memories := ms, revisions := revisions d @ [\<lparr>rv_entry = e, rv_operation = operation\<rparr>]\<rparr>)" for ms
    by (auto simp: insert_revision_def)
  obtain y where "find_memory (me_id e) (recorded (cf_fts cf)
      (update_where (\<lambda>x. me_id x = me_id e) (\<lambda>x. e) (memories d)) e operation d) = Some y"
    using replaced_lookup [OF cur(1)] by (simp add: find_memory_def)
  then obtain p where p: "store_revision cf sc e operation content d = Inr p"
    unfolding store_revision_def update_in_scope [OF memory_okD(1) [OF ok] cur] ins Let_def
    using replaced_lookup [OF cur(1)]
    by (auto simp: find_memory_def)
  then show ?thesis using store_revision_shape [OF _ ok cur assms(4,6), of cf operation "fst p" "snd p"] by (cases p) auto
qed

lemma replace_tx_shape:
  assumes "replace_tx env cf sc i a now d = Inr (e, d')" and ok: "memory_ok env d"
  obtains cur where "find_memory i d = Some cur" "in_scope sc cur" "\<not> me_tombstoned cur"
    "check_expected cur (ra_revision a) (ra_hash a) = None" "same_origin e cur" "entry_ok env e"
    "me_revision e = me_revision cur + 1" "\<not> me_tombstoned e"
    "d' = recorded (cf_fts cf) (update_where (\<lambda>x. me_id x = me_id e) (\<lambda>x. e) (memories d)) e ''replace'' d"
    "\<exists>w. replacement_write (mv_unicode env) cur a = Inr w \<and> me_content e = mw_content w"
proof -
  obtain cur where g: "get_in_transaction sc i True d = Inr cur" "\<not> me_tombstoned cur"
      "check_expected cur (ra_revision a) (ra_hash a) = None"
    using assms(1) by (auto simp: replace_tx_def split: sum.splits if_splits option.splits)
  note cur = get_in_transaction_InrD [OF g(1) memory_okD(1) [OF ok]]
  obtain w where rw: "replacement_write (mv_unicode env) cur a = Inr w"
    using assms(1) g by (auto simp: replace_tx_def split: sum.splits)
  obtain digest where w: "memory_hash env (mw_content w) = Inr digest"
    using assms(1) g rw by (auto simp: replace_tx_def split: sum.splits)
  have st: "store_revision cf sc (cur\<lparr>me_content := mw_content w, me_kind := mw_kind w, me_trust := mw_trust w,
        me_provenance := mw_provenance w, me_updated := now, me_revision := me_revision cur + 1, me_hash := digest,
        me_blocked := memory_scan env (cf_secrets cf) (mw_content w), me_tombstoned := False\<rparr>)
        ''replace'' (Some (mw_content w)) d = Inr (e, d')"
    using assms(1) g rw w by (simp add: replace_tx_def) (drule binding_InrD, simp)
  let ?e = "cur\<lparr>me_content := mw_content w, me_kind := mw_kind w, me_trust := mw_trust w,
        me_provenance := mw_provenance w, me_updated := now, me_revision := me_revision cur + 1, me_hash := digest,
        me_blocked := memory_scan env (cf_secrets cf) (mw_content w), me_tombstoned := False\<rparr>"
  have same: "same_origin ?e cur" by (simp add: same_origin_def)
  have lookup: "find_memory (me_id ?e) d = Some cur" using cur(1,3) by simp
  have "entry_ok env cur" by (rule find_memory_ok(1) [OF ok cur(1)])
  then have eok: "entry_ok env ?e"
    using memory_hash_InrD [OF w] by (auto simp: entry_ok_def content_ok_def dest: scan_no_secrets)
  note shape = store_revision_shape [OF st ok lookup cur(2) same]
  show thesis
    using that [OF cur(1,2) g(2,3)] shape same eok rw by simp
qed

lemma remove_tx_shape:
  assumes "remove_tx cf sc i expected hash now d = Inr (e, d')" and ok: "memory_ok env d"
  obtains cur where "find_memory i d = Some cur" "in_scope sc cur"
    "if me_tombstoned cur then e = cur \<and> d' = d
     else check_expected cur expected hash = None \<and>
       e = cur\<lparr>me_updated := now, me_revision := me_revision cur + 1, me_tombstoned := True\<rparr> \<and>
       d' = recorded (cf_fts cf) (update_where (\<lambda>x. me_id x = me_id e) (\<lambda>x. e) (memories d)) e ''tombstone'' d"
proof -
  obtain cur where g: "get_in_transaction sc i True d = Inr cur"
    using assms(1) by (auto simp: remove_tx_def split: sum.splits)
  note cur = get_in_transaction_InrD [OF g memory_okD(1) [OF ok]]
  show thesis
  proof (cases "me_tombstoned cur")
    case True
    then show ?thesis using that [OF cur(1,2)] assms(1) g by (simp add: remove_tx_def)
  next
    case False
    let ?e = "cur\<lparr>me_updated := now, me_revision := me_revision cur + 1, me_tombstoned := True\<rparr>"
    have ch: "check_expected cur expected hash = None" and st: "store_revision cf sc ?e ''tombstone'' None d = Inr (e, d')"
      using assms(1) g False by (auto simp: remove_tx_def split: option.splits)
    have "same_origin ?e cur" "find_memory (me_id ?e) d = Some cur" using cur(1,3) by (simp_all add: same_origin_def)
    from store_revision_shape [OF st ok this(2) cur(2) this(1)] show ?thesis
      using that [OF cur(1,2)] ch False by simp
  qed
qed

lemma replace_tx_step:
  assumes "replace_tx env cf sc i a now d = Inr (e, d')" and "memory_ok env d"
  shows "mem_step env (cf_fts cf) (Some sc) d d'"
  using assms
proof (rule replace_tx_shape)
  fix cur assume c: "find_memory i d = Some cur" "in_scope sc cur" "\<not> me_tombstoned cur" "same_origin e cur" "entry_ok env e"
    "me_revision e = me_revision cur + 1" "\<not> me_tombstoned e"
    "d' = recorded (cf_fts cf) (update_where (\<lambda>x. me_id x = me_id e) (\<lambda>x. e) (memories d)) e ''replace'' d"
  have "find_memory (me_id e) d = Some cur" using c(1,4) find_memory_in [OF c(1)] by (simp add: same_origin_def)
  then show ?thesis unfolding c(8) using c(2-7) by (rule mem_step.revise)
qed

lemma remove_tx_steps:
  assumes "remove_tx cf sc i expected hash now d = Inr (e, d')" and "memory_ok env d"
  shows "mem_steps env (cf_fts cf) (Some sc) d d'"
  using assms
proof (rule remove_tx_shape)
  fix cur assume c: "find_memory i d = Some cur" "in_scope sc cur"
    "if me_tombstoned cur then e = cur \<and> d' = d
     else check_expected cur expected hash = None \<and>
       e = cur\<lparr>me_updated := now, me_revision := me_revision cur + 1, me_tombstoned := True\<rparr> \<and>
       d' = recorded (cf_fts cf) (update_where (\<lambda>x. me_id x = me_id e) (\<lambda>x. e) (memories d)) e ''tombstone'' d"
  have lookup: "find_memory (me_id cur) d = Some cur" using c(1) find_memory_in [OF c(1)] by simp
  show ?thesis
  proof (cases "me_tombstoned cur")
    case False
    with c(3) have "e = cur\<lparr>me_updated := now, me_revision := me_revision cur + 1, me_tombstoned := True\<rparr>"
      and d': "d' = recorded (cf_fts cf) (update_where (\<lambda>x. me_id x = me_id e) (\<lambda>x. e) (memories d)) e ''tombstone'' d"
      by simp_all
    from mem_step.tombstone [OF lookup c(2) False this(1)] show ?thesis unfolding d' by (rule r_into_rtranclp)
  qed (use c(3) in simp)
qed

lemma append_idempotent_tx_steps:
  assumes "append_idempotent_tx env cf sc w key fresh now now2 d = Inr (e, d')" and ok: "memory_ok env d"
  shows "mem_steps env (cf_fts cf) (Some sc) d d'"
proof (cases "by_key ik_key key (idempotency d)")
  case (Some row)
  then have "d' = d"
    using assms(1) by (auto simp: append_idempotent_tx_def dest!: binding_InrD split: if_splits sum.splits)
  then show ?thesis by simp
next
  case None
  let ?row = "\<lambda>e. \<lparr>ik_key = key, ik_entry = me_id e, ik_profile = sc_profile sc, ik_subject = sc_subject sc,
      ik_hash = write_identity env w, ik_created = now2\<rparr>"
  obtain d1 where d1: "append_in_transaction env cf sc w fresh now d = Inr (e, d1)"
      "d' = d1\<lparr>idempotency := idempotency d1 @ [?row e]\<rparr>"
    using assms(1) None by (auto simp: append_idempotent_tx_def dest!: binding_InrD split: sum.splits)
  note shape = append_in_transaction_shape [OF d1(1) ok]
  have "find_memory (ik_entry (?row e)) d1 = Some e" "by_key ik_key (ik_key (?row e)) (idempotency d1) = None"
    using shape(1) None unfolding shape(6) by (simp_all add: find_memory_def by_key_append)
  then have "mem_step env (cf_fts cf) (Some sc) d1 d'"
    unfolding d1(2) using shape(2) by (intro mem_step.remember) simp_all
  then show ?thesis
    using append_in_transaction_step [OF d1(1) ok] by (meson r_into_rtranclp rtranclp.rtrancl_into_rtrancl)
qed

text \<open>The step relation of a call depends on whether the index is on before it, except at a reopening.\<close>

definition call_index :: "memory_env \<Rightarrow> memory_op \<Rightarrow> memory_store \<Rightarrow> bool" where
  "call_index env a s = (case a of MemReopen secrets enable \<Rightarrow> enable \<and> mv_fts env | _ \<Rightarrow> index_on s)"

lemma memory_exec_steps:
  assumes ok: "memory_ok env (mdb s)"
  shows "mem_steps env (index_on s) (op_scope a) (mdb s) (mdb (memory_exec env a s))"
proof (cases a)
  case (MemAppend sc arg content kind trust i prov fresh now)
  have "append_in_transaction env (mconfig s) sc w fresh now (mdb s) = Inr (x, d') \<Longrightarrow>
      mem_steps env (index_on s) (Some sc) (mdb s) d'" for w x d'
    using append_in_transaction_step [OF _ ok] by blast
  then show ?thesis
    using MemAppend by (auto simp: append_memory_def intro: memory_transaction_steps split: sum.split)
next
  case (MemAppendMany sc ws)
  then show ?thesis
    using append_all_steps [OF _ ok] by (auto simp: append_many_def intro: memory_transaction_steps)
next
  case (MemAppendIdempotent sc w key fresh now now2)
  then show ?thesis
    using append_idempotent_tx_steps [OF _ ok] by (auto simp: append_idempotent_def intro: memory_transaction_steps)
next
  case (MemAppendReconciled sc w fresh now)
  have "append_in_transaction env (mconfig s) sc w fresh now (mdb s) = Inr (x, d') \<Longrightarrow>
      mem_steps env (index_on s) (Some sc) (mdb s) d'" for x d'
    using append_in_transaction_step [OF _ ok] by blast
  then show ?thesis
    using MemAppendReconciled
    by (auto simp: append_reconciled_def intro!: memory_transaction_steps dest!: binding_InrD split: sum.splits list.splits)
next
  case (MemReplace sc i args now)
  have "replace_tx env (mconfig s) sc i args now (mdb s) = Inr (x, d') \<Longrightarrow>
      mem_steps env (index_on s) (Some sc) (mdb s) d'" for x d'
    using replace_tx_step [OF _ ok] by blast
  then show ?thesis using MemReplace by (auto simp: replace_memory_def intro: memory_transaction_steps)
next
  case (MemRemove sc i expected hash now)
  then show ?thesis using remove_tx_steps [OF _ ok] by (auto simp: remove_memory_def intro: memory_transaction_steps)
next
  case (MemReopen secrets enable)
  then show ?thesis using mem_step.reindex [of env "index_on s" "mdb s"] by (auto simp: open_memory_def Let_def)
qed (simp_all add: add_configured_secrets_def close_memory_def)

lemma memory_exec_ok: "memory_ok env (mdb s) \<Longrightarrow> memory_ok env (mdb (memory_exec env a s))"
  using mem_steps_ok memory_exec_steps by blast

end
