(* ===== verification/MemoryContracts.thy ===== *)
theory MemoryContracts
  imports MemoryMachine
begin

text \<open>
  The memory store as a provider of the shared contracts: its invariant, the revision log, the
  revision numbers, the tombstones, the isolation of the scopes and the exactness of the index.
\<close>

definition mem_ok :: "memory_env \<Rightarrow> memory_store \<Rightarrow> bool" where
  "mem_ok env s \<longleftrightarrow> memory_ok env (mdb s)"

interpretation mem: machine "memory_exec env" "mem_ok env" for env
  by unfold_locales (simp add: mem_ok_def memory_exec_ok)

section \<open>How a step moves an entry\<close>

text \<open>An entry stays as it is, or is revised by a step of its own scope while it is active.\<close>

definition entry_moves :: "memory_scope option \<Rightarrow> memory_entry \<Rightarrow> memory_entry \<Rightarrow> bool" where
  "entry_moves sc e e' \<longleftrightarrow> e' = e \<or>
     ((\<exists>c. sc = Some c \<and> in_scope c e) \<and> \<not> me_tombstoned e \<and> same_origin e' e \<and> me_revision e < me_revision e')"

lemma entry_moves_refl [simp]: "entry_moves sc e e"
  by (simp add: entry_moves_def)

lemma entry_moves_trans: "entry_moves sc a b \<Longrightarrow> entry_moves sc b c \<Longrightarrow> entry_moves sc a c"
  by (auto simp: entry_moves_def same_origin_def)

lemma same_origin_scope: "same_origin e' e \<Longrightarrow> in_scope c e' = in_scope c e"
  by (simp add: same_origin_def in_scope_def)

lemma find_recorded_replaced:
  "find_memory i (recorded ft (update_where (\<lambda>x. me_id x = me_id e) (\<lambda>x. e) (memories d)) e operation d) =
     (if i = me_id e \<and> find_memory i d \<noteq> None then Some e else find_memory i d)"
proof -
  have "by_key me_id i (update_where (\<lambda>x. me_id x = me_id e) (\<lambda>x. e) t) =
      (if i = me_id e \<and> by_key me_id i t \<noteq> None then Some e else by_key me_id i t)" for t
    by (induction t) auto
  then show ?thesis by (simp only: find_memory_def recorded_simps)
qed

text \<open>The three effects of a step on the entries.\<close>

lemma mem_step_shapes:
  assumes "mem_step env ft sc d d'"
  obtains (append) e c where "sc = Some c" "d' = recorded ft (memories d @ [e]) e ''append'' d" "find_memory (me_id e) d = None"
      "in_scope c e" "entry_ok env e" "me_revision e = 1" "\<not> me_tombstoned e"
  | (replaced) e cur c operation where "sc = Some c"
      "d' = recorded ft (update_where (\<lambda>x. me_id x = me_id e) (\<lambda>x. e) (memories d)) e operation d"
      "find_memory (me_id e) d = Some cur" "in_scope c cur" "\<not> me_tombstoned cur" "same_origin e cur"
      "me_revision e = me_revision cur + 1"
  | (same) "memories d' = memories d" "revisions d' = revisions d" "fts d' = fts d \<or> d' = configure_fts d"
  using assms
proof cases
  case (tombstone cur c e now)
  then show thesis by (intro replaced [of c e "''tombstone''" cur]) (simp_all add: same_origin_def)
qed (auto intro: append replaced same)

lemma step_entry:
  assumes "mem_step env ft sc d d'" and "find_memory i d = Some e"
  shows "\<exists>e'. find_memory i d' = Some e' \<and> entry_moves sc e e'"
  using assms
proof (cases rule: mem_step_shapes)
  case (append e1 c)
  then show ?thesis using assms(2) by (auto simp: find_memory_def by_key_append)
next
  case (replaced e1 cur c operation)
  then show ?thesis
    using assms(2) by (cases "i = me_id e1") (auto simp: find_recorded_replaced entry_moves_def)
qed (use assms(2) in \<open>simp add: find_memory_def\<close>)

lemma step_new_entry:
  assumes "mem_step env ft sc d d'" and "find_memory i d = None" and "find_memory i d' = Some e"
  shows "(\<exists>c. sc = Some c \<and> in_scope c e) \<and> \<not> me_tombstoned e"
  using assms
proof (cases rule: mem_step_shapes)
  case (append e1 c)
  then have "e = e1" using assms(2,3) by (auto simp: find_memory_def by_key_append split: if_splits)
  then show ?thesis using append by simp
next
  case (replaced e1 cur c operation)
  then show ?thesis using assms(2,3) by (auto simp: find_recorded_replaced split: if_splits)
qed (use assms(2,3) in \<open>simp add: find_memory_def\<close>)

lemma step_revisions:
  assumes "mem_step env ft sc d d'"
  shows "\<exists>rs. revisions d' = revisions d @ rs \<and> (\<forall>r \<in> set rs. \<exists>c. sc = Some c \<and> in_scope c (rv_entry r))"
  using assms
proof (cases rule: mem_step_shapes)
  case (replaced e1 cur c operation)
  then show ?thesis using same_origin_scope by fastforce
qed auto

lemma steps_entry:
  "mem_steps env ft sc d d' \<Longrightarrow> find_memory i d = Some e \<Longrightarrow> \<exists>e'. find_memory i d' = Some e' \<and> entry_moves sc e e'"
  by (induction rule: rtranclp_induct) (auto dest!: step_entry intro: entry_moves_trans)

lemma steps_new_entry:
  assumes "mem_steps env ft sc d d'" and "find_memory i d = None" and "find_memory i d' = Some e"
  shows "\<exists>c. sc = Some c \<and> in_scope c e"
  using assms
proof (induction arbitrary: e rule: rtranclp_induct)
  case (step d1 d2)
  show ?case
  proof (cases "find_memory i d1")
    case None
    then show ?thesis using step_new_entry [OF step.hyps(2) None step.prems(2)] by blast
  next
    case (Some e1)
    obtain c where c: "sc = Some c" "in_scope c e1" using step.IH [OF step.prems(1) Some] by blast
    have "entry_moves sc e1 e" using step_entry [OF step.hyps(2) Some] step.prems(2) by auto
    then show ?thesis using c same_origin_scope by (auto simp: entry_moves_def)
  qed
qed simp

lemma steps_revisions:
  "mem_steps env ft sc d d' \<Longrightarrow>
   \<exists>rs. revisions d' = revisions d @ rs \<and> (\<forall>r \<in> set rs. \<exists>c. sc = Some c \<and> in_scope c (rv_entry r))"
proof (induction rule: rtranclp_induct)
  case (step d1 d2)
  from step.IH obtain rs where rs: "revisions d1 = revisions d @ rs" "\<forall>r \<in> set rs. \<exists>c. sc = Some c \<and> in_scope c (rv_entry r)"
    by blast
  from step_revisions [OF step.hyps(2)] obtain ss where "revisions d2 = revisions d1 @ ss"
    "\<forall>r \<in> set ss. \<exists>c. sc = Some c \<and> in_scope c (rv_entry r)" by blast
  with rs show ?case by (intro exI [of _ "rs @ ss"]) auto
qed simp

lemmas exec_entry = steps_entry [OF memory_exec_steps]
lemmas exec_new_entry = steps_new_entry [OF memory_exec_steps]
lemmas exec_revisions = steps_revisions [OF memory_exec_steps]

section \<open>The shared contracts\<close>

interpretation mem_log: append_only "memory_exec env" "mem_ok env" "\<lambda>s. revisions (mdb s)" for env
proof unfold_locales
  fix s a assume "mem_ok env s"
  then show "\<exists>es. revisions (mdb (memory_exec env a s)) = revisions (mdb s) @ es"
    using exec_revisions [of env s a] by (auto simp: mem_ok_def)
qed

definition revision_of :: "memory_store \<Rightarrow> ustr \<Rightarrow> int option" where
  "revision_of s i = map_option me_revision (find_memory i (mdb s))"

interpretation mem_life: lifecycle "memory_exec env" "mem_ok env" revision_of "(<)" for env
proof unfold_locales
  fix s i x a assume ok: "mem_ok env s" and "revision_of s i = Some x"
  then obtain e where e: "find_memory i (mdb s) = Some e" "me_revision e = x" by (auto simp: revision_of_def)
  obtain e' where e': "find_memory i (mdb (memory_exec env a s)) = Some e'" "entry_moves (op_scope a) e e'"
    using exec_entry [OF _ e(1), of env a] ok by (auto simp: mem_ok_def)
  from e'(2) have "x = me_revision e' \<or> x < me_revision e'" using e(2) by (auto simp: entry_moves_def)
  with e'(1) show "\<exists>y. revision_of (memory_exec env a s) i = Some y \<and> (x = y \<or> x < y)" by (simp add: revision_of_def)
qed

lemma less_star: "(<)\<^sup>*\<^sup>* (x :: int) y \<Longrightarrow> x \<le> y"
  by (induction rule: rtranclp_induct) auto

interpretation mem_tomb: freezing "memory_exec env" "mem_ok env" "\<lambda>s i. find_memory i (mdb s)" me_tombstoned for env
proof unfold_locales
  fix s i e a assume ok: "mem_ok env s" and e: "find_memory i (mdb s) = Some e" "me_tombstoned e"
  obtain e' where e': "find_memory i (mdb (memory_exec env a s)) = Some e'" "entry_moves (op_scope a) e e'"
    using exec_entry [OF _ e(1), of env a] ok by (auto simp: mem_ok_def)
  then show "find_memory i (mdb (memory_exec env a s)) = Some e" using e(2) by (auto simp: entry_moves_def)
qed

section \<open>What a scope sees\<close>

definition scope_entries :: "memory_scope \<Rightarrow> memory_db \<Rightarrow> memory_entry list" where
  "scope_entries sc d = filter (in_scope sc) (memories d)"

definition scope_revisions :: "memory_scope \<Rightarrow> memory_db \<Rightarrow> revision_row list" where
  "scope_revisions sc d = filter (\<lambda>r. in_scope sc (rv_entry r)) (revisions d)"

lemma in_scope_unique: "in_scope c e \<Longrightarrow> in_scope c' e \<Longrightarrow> c = c'"
  by (auto simp: in_scope_def intro: memory_scope.equality)

lemma step_isolated:
  assumes "mem_step env ft sc d d'" and "sc \<noteq> Some c" and "memory_ok env d"
  shows "scope_entries c d' = scope_entries c d"
  using assms(1)
proof (cases rule: mem_step_shapes)
  case (append e c')
  then show ?thesis using assms(2) in_scope_unique by (auto simp: scope_entries_def)
next
  case (replaced e cur c' operation)
  note key = memory_okD(1) [OF assms(3)] and cur = replaced(3) [unfolded find_memory_def]
  have out: "\<not> in_scope c cur" "\<not> in_scope c e"
    using replaced(1,4,6) assms(2) in_scope_unique same_origin_scope by metis+
  have "filter (in_scope c) (update_where (\<lambda>x. me_id x = me_id e) (\<lambda>x. e) t) = filter (in_scope c) t"
    if "\<And>x. x \<in> set t \<Longrightarrow> me_id x = me_id e \<Longrightarrow> x = cur" for t
    using that by (induction t) (use out in fastforce)+
  then show ?thesis using by_key_same [OF key cur] replaced(2) by (simp add: scope_entries_def)
qed (simp add: scope_entries_def)

lemma steps_isolated:
  assumes "mem_steps env ft sc d d'" and "sc \<noteq> Some c" and ok: "memory_ok env d"
  shows "scope_entries c d' = scope_entries c d" "scope_revisions c d' = scope_revisions c d"
proof -
  show "scope_entries c d' = scope_entries c d"
    using assms(1)
  proof (induction rule: rtranclp_induct)
    case (step d1 d2)
    then show ?case using step_isolated [OF step.hyps(2) assms(2) mem_steps_ok [OF step.hyps(1) ok]] by simp
  qed simp
  obtain rs where rs: "revisions d' = revisions d @ rs" "\<forall>r \<in> set rs. \<exists>c. sc = Some c \<and> in_scope c (rv_entry r)"
    using steps_revisions [OF assms(1)] by blast
  have "filter (\<lambda>r. in_scope c (rv_entry r)) rs = []"
    using rs(2) assms(2) in_scope_unique by (fastforce simp: filter_empty_conv)
  then show "scope_revisions c d' = scope_revisions c d" by (simp add: scope_revisions_def rs(1))
qed

text \<open>What a scope reads depends on its own entries only.\<close>

lemma listed_scope: "listed sc t d = order_by (\<lambda>e. (me_created e, me_id e)) (filter (\<lambda>e. t \<or> \<not> me_tombstoned e) (scope_entries sc d))"
  by (simp add: listed_def scope_entries_def conj_commute)

lemma get_scope: "get_in_transaction sc i t d = binding (i # scope_texts sc)
    (case fetch_one (\<lambda>e. me_id e = i \<and> (t \<or> \<not> me_tombstoned e)) (scope_entries sc d) of
       None \<Rightarrow> Inl MmNotFound | Some e \<Rightarrow> Inr e)"
proof -
  have "fetch_one (\<lambda>e. me_id e = i \<and> in_scope sc e \<and> (t \<or> \<not> me_tombstoned e)) ms =
      fetch_one (\<lambda>e. me_id e = i \<and> (t \<or> \<not> me_tombstoned e)) (filter (in_scope sc) ms)" for ms
    by (induction ms) auto
  then show ?thesis by (simp add: get_in_transaction_def scope_entries_def)
qed

definition remembered :: "memory_store \<Rightarrow> ustr \<Rightarrow> idempotency_row option" where
  "remembered s key = by_key ik_key key (idempotency (mdb s))"

lemma step_remembered:
  "mem_step env ft sc d d' \<Longrightarrow> by_key ik_key key (idempotency d) = Some row \<Longrightarrow> by_key ik_key key (idempotency d') = Some row"
  by (erule mem_step.cases) (auto simp: by_key_append)

lemma steps_remembered:
  "mem_steps env ft sc d d' \<Longrightarrow> by_key ik_key key (idempotency d) = Some row \<Longrightarrow> by_key ik_key key (idempotency d') = Some row"
  by (induction rule: rtranclp_induct) (auto intro: step_remembered)

interpretation mem_keys: freezing "memory_exec env" "mem_ok env" remembered "\<lambda>_. True" for env
  by unfold_locales (simp add: remembered_def mem_ok_def steps_remembered [OF memory_exec_steps])

text \<open>An entry never leaves its scope.\<close>

definition entry_home :: "memory_store \<Rightarrow> ustr \<Rightarrow> (ustr \<times> ustr \<times> instant) option" where
  "entry_home s i = map_option (\<lambda>e. (me_profile e, me_subject e, me_created e)) (find_memory i (mdb s))"

interpretation mem_home: freezing "memory_exec env" "mem_ok env" entry_home "\<lambda>_. True" for env
proof unfold_locales
  fix s i x a assume ok: "mem_ok env s" and "entry_home s i = Some x"
  then obtain e where e: "find_memory i (mdb s) = Some e" "x = (me_profile e, me_subject e, me_created e)"
    by (auto simp: entry_home_def)
  obtain e' where "find_memory i (mdb (memory_exec env a s)) = Some e'" "entry_moves (op_scope a) e e'"
    using exec_entry [OF _ e(1), of env a] ok by (auto simp: mem_ok_def)
  then show "entry_home (memory_exec env a s) i = Some x"
    using e(2) by (auto simp: entry_home_def entry_moves_def same_origin_def)
qed

section \<open>The index\<close>

lemma indexed_after_set:
  "set (indexed_after True e f) = {r \<in> set f. ft_id r \<noteq> me_id e} \<union> (if searchable e then {fts_row_of e} else {})"
  by (auto simp: indexed_after_def searchable_def)

lemma index_recorded:
  assumes "index_exact d" and ms: "set ms = insert e {x \<in> set (memories d). me_id x \<noteq> me_id e}"
  shows "index_exact (recorded True ms e operation d)"
proof -
  have "{x \<in> set ms. searchable x} =
      {x \<in> set (memories d). me_id x \<noteq> me_id e \<and> searchable x} \<union> (if searchable e then {e} else {})"
    unfolding ms by auto
  moreover have "{r \<in> set (fts d). ft_id r \<noteq> me_id e} =
      fts_row_of ` {x \<in> set (memories d). me_id x \<noteq> me_id e \<and> searchable x}"
    using assms(1) by (auto simp: index_exact_def)
  ultimately show ?thesis by (simp add: index_exact_def indexed_after_set image_Un)
qed

lemma index_step:
  assumes "mem_step env True sc d d'" and ok: "memory_ok env d" and idx: "index_exact d"
  shows "index_exact d'"
  using assms(1)
proof (cases rule: mem_step_shapes)
  case (append e c)
  have "{x \<in> set (memories d). me_id x \<noteq> me_id e} = set (memories d)"
    using append(3) unfolding find_memory_def by_key_None_iff by (auto simp: image_iff)
  then show ?thesis
    unfolding append(2) by (intro index_recorded [OF idx]) simp
next
  case (replaced e cur c operation)
  note key = memory_okD(1) [OF ok] and cur = replaced(3) [unfolded find_memory_def]
  have "set (memories d) - {cur} = {x \<in> set (memories d). me_id x \<noteq> me_id e}"
    using by_key_same [OF key cur] by_key_SomeD [OF cur] by auto
  then show ?thesis
    unfolding replaced(2) by (intro index_recorded [OF idx]) (simp add: replaced_row_set [OF key cur])
next
  case same
  have "fts (configure_fts d) = fts d"
    using idx by (auto simp: configure_fts_def Let_def index_exact_def searchable_def image_iff filter_empty_conv)
  then show ?thesis using idx same by (auto simp: index_exact_def)
qed

lemma index_steps:
  "mem_steps env True sc d d' \<Longrightarrow> memory_ok env d \<Longrightarrow> index_exact d \<Longrightarrow> index_exact d'"
proof (induction rule: rtranclp_induct)
  case (step d1 d2)
  then show ?case using index_step [OF step.hyps(2)] mem_steps_ok [OF step.hyps(1)] by blast
qed simp

text \<open>The index is exact as long as the store is always opened with it.\<close>

definition index_ok :: "memory_env \<Rightarrow> memory_store \<Rightarrow> bool" where
  "index_ok env s \<longleftrightarrow> memory_ok env (mdb s) \<and> index_exact (mdb s) \<and> index_on s"

fun keeps_index :: "memory_env \<Rightarrow> memory_op \<Rightarrow> bool" where
  "keeps_index env (MemReopen secrets enable) \<longleftrightarrow> enable \<and> mv_fts env"
| "keeps_index env _ \<longleftrightarrow> True"

lemma memory_transaction_config [simp]: "mconfig (snd (memory_transaction body s)) = mconfig s"
  by (simp add: memory_transaction_def split: sum.split)

lemma exec_index_on: "keeps_index env a \<Longrightarrow> index_on s \<Longrightarrow> index_on (memory_exec env a s)"
  by (cases a) (auto simp: append_memory_def append_many_def append_idempotent_def append_reconciled_def replace_memory_def
      remove_memory_def add_configured_secrets_def close_memory_def open_memory_def Let_def split: sum.split)

lemma exec_index_ok:
  assumes "index_ok env s" and "keeps_index env a"
  shows "index_ok env (memory_exec env a s)"
proof -
  have "mem_steps env True (op_scope a) (mdb s) (mdb (memory_exec env a s))"
    using memory_exec_steps [of env s a] assms(1) by (simp add: index_ok_def)
  then show ?thesis
    using assms index_steps memory_exec_ok exec_index_on by (metis index_ok_def)
qed

definition indexed_exec :: "memory_env \<Rightarrow> memory_op \<Rightarrow> memory_store \<Rightarrow> memory_store" where
  "indexed_exec env a s = (if keeps_index env a then memory_exec env a s else s)"

interpretation mem_index: machine "indexed_exec env" "index_ok env" for env
  by unfold_locales (simp add: indexed_exec_def exec_index_ok)

end
