(* ===== verification/MemoryTools.thy ===== *)
theory MemoryTools
  imports MemoryContracts
begin

text \<open>
  The model-facing tools of \<open>src/polaris/memory/tools.py\<close>, bound to one scope: search, add, revise
  and remove, and the reconciliation handlers that the runtime asks after a crash whether an
  interrupted call took effect.  The handlers do not hold the store's lock between two calls of the
  store; \<open>others\<close> is what other connections do in between.
\<close>

section \<open>Arguments and results\<close>

datatype json_arg = JText ustr | JInteger int | JBoolean bool | JNothing | JOther

type_synonym tool_args = "str \<Rightarrow> json_arg option"

definition given_arg :: "tool_args \<Rightarrow> str \<Rightarrow> json_arg \<Rightarrow> json_arg" where
  "given_arg args name d = (case args name of None \<Rightarrow> d | Some v \<Rightarrow> v)"

definition string_arg :: "unicode \<Rightarrow> tool_args \<Rightarrow> str \<Rightarrow> memory_error + ustr" where
  "string_arg uc args name =
     (case given_arg args name JNothing of JText t \<Rightarrow> if blank uc t then Inl MmValue else Inr t | _ \<Rightarrow> Inl MmValue)"

definition optional_string_arg :: "tool_args \<Rightarrow> str \<Rightarrow> memory_error + ustr option" where
  "optional_string_arg args name =
     (case given_arg args name JNothing of JNothing \<Rightarrow> Inr None | JText t \<Rightarrow> Inr (Some t) | _ \<Rightarrow> Inl MmType)"

definition integer_arg :: "tool_args \<Rightarrow> str \<Rightarrow> json_arg \<Rightarrow> memory_error + int" where
  "integer_arg args name d = (case given_arg args name d of JInteger n \<Rightarrow> Inr n | _ \<Rightarrow> Inl MmType)"

definition memory_kind_arg :: "tool_args \<Rightarrow> memory_error + memory_kind" where
  "memory_kind_arg args =
     (case given_arg args ''kind'' (JText (asc ''fact'')) of
        JText t \<Rightarrow> (case fetch_one (\<lambda>k. asc (memory_kind_value k) = t) [MkUser, MkAgent, MkFact, MkPreference] of
          None \<Rightarrow> Inl MmValue | Some k \<Rightarrow> Inr k)
      | _ \<Rightarrow> Inl MmValue)"

definition trust_level_arg :: "tool_args \<Rightarrow> memory_error + trust_level" where
  "trust_level_arg args =
     (case given_arg args ''trust_level'' (JText (asc ''user_asserted'')) of
        JText t \<Rightarrow> (case fetch_one (\<lambda>l. asc (trust_level_value l) = t) [TlUserAsserted, TlModelInferred, TlVerified] of
          None \<Rightarrow> Inl MmValue | Some l \<Rightarrow> Inr l)
      | _ \<Rightarrow> Inl MmValue)"

record result_facts =
  er_id :: ustr
  er_revision :: int
  er_hash :: ustr
  er_blocked :: bool
  er_tombstoned :: bool

definition entry_result :: "memory_entry \<Rightarrow> result_facts" where
  "entry_result e = \<lparr>er_id = me_id e, er_revision = me_revision e, er_hash = me_hash e,
     er_blocked = (me_blocked e \<noteq> None), er_tombstoned = me_tombstoned e\<rparr>"

text \<open>The status of a result with what it carries.\<close>

datatype tool_result =
    ResApplied result_facts
  | ResAlreadyApplied result_facts
  | ResNotApplied "int option"
  | ResConflict int

definition sum_bind :: "'e + 'a \<Rightarrow> ('a \<Rightarrow> 'e + 'b) \<Rightarrow> 'e + 'b" where
  "sum_bind r f = (case r of Inl e \<Rightarrow> Inl e | Inr x \<Rightarrow> f x)"

lemma sum_bind_simps [simp]: "sum_bind (Inl e) f = Inl e" "sum_bind (Inr x) f = f x"
  by (simp_all add: sum_bind_def)

lemma sum_bind_InrE: "sum_bind r f = Inr y \<Longrightarrow> (\<And>x. r = Inr x \<Longrightarrow> f x = Inr y \<Longrightarrow> P) \<Longrightarrow> P"
  by (cases r) simp_all

definition write_from_arguments :: "unicode \<Rightarrow> tool_args \<Rightarrow> memory_error + memory_write" where
  "write_from_arguments uc args =
     sum_bind (string_arg uc args ''content'') (\<lambda>content.
     sum_bind (memory_kind_arg args) (\<lambda>kind.
     sum_bind (trust_level_arg args) (\<lambda>trust.
     sum_bind (optional_string_arg args ''provenance_run_id'') (\<lambda>run.
     sum_bind (optional_string_arg args ''provenance_session_id'') (\<lambda>session.
     sum_bind (optional_string_arg args ''provenance_message_id'') (\<lambda>message.
       make_write uc \<lparr>mw_content = content, mw_kind = kind, mw_trust = trust, mw_id = None,
         mw_provenance = \<lparr>pv_run = run, pv_session = session, pv_message = message\<rparr>\<rparr>))))))"

section \<open>Handlers\<close>

definition tool_search ::
  "memory_env \<Rightarrow> (fts_row list \<Rightarrow> ustr \<Rightarrow> fts_row \<Rightarrow> rat option) \<Rightarrow> memory_scope \<Rightarrow> tool_args \<Rightarrow> memory_store \<Rightarrow>
   memory_error + memory_hit list" where
  "tool_search env rank sc args s =
     sum_bind (string_arg (mv_unicode env) args ''query'') (\<lambda>q.
     sum_bind (integer_arg args ''limit'' (JInteger 10)) (\<lambda>limit. recall env rank q sc limit s))"

definition tool_add ::
  "memory_env \<Rightarrow> memory_scope \<Rightarrow> tool_args \<Rightarrow> ustr \<Rightarrow> instant \<Rightarrow> memory_store \<Rightarrow>
   (memory_error + tool_result) \<times> memory_store" where
  "tool_add env sc args fresh now s =
     (case write_from_arguments (mv_unicode env) args of
        Inl e \<Rightarrow> (Inl e, s)
      | Inr w \<Rightarrow>
          (case append_reconciled env sc w fresh now s of
             (Inl e, s1) \<Rightarrow> (Inl e, s1)
           | (Inr (e, created), s1) \<Rightarrow>
               (Inr (if created then ResApplied (entry_result e) else ResAlreadyApplied (entry_result e)), s1)))"

definition reconcile_add :: "memory_env \<Rightarrow> memory_scope \<Rightarrow> tool_args \<Rightarrow> memory_store \<Rightarrow> memory_error + tool_result" where
  "reconcile_add env sc args s =
     sum_bind (write_from_arguments (mv_unicode env) args) (\<lambda>w.
     sum_bind (memory_hash env (mw_content w)) (\<lambda>digest.
     sum_bind (find_by_hash sc digest s) (\<lambda>existing.
       Inr (case existing of None \<Rightarrow> ResNotApplied None | Some e \<Rightarrow> ResAlreadyApplied (entry_result e)))))"

text \<open>The arguments of the replacement a revision asks for.\<close>

definition revision_args :: "memory_write \<Rightarrow> int \<Rightarrow> ustr option \<Rightarrow> replace_args" where
  "revision_args w expected hash =
     \<lparr>ra_write = ArgWrite w, ra_content = None, ra_revision = Some expected, ra_hash = hash, ra_kind = None,
      ra_trust = None, ra_run = None, ra_session = None, ra_message = None\<rparr>"

definition revise_conflict :: "memory_scope \<Rightarrow> ustr \<Rightarrow> ustr \<Rightarrow> memory_store \<Rightarrow> memory_error + tool_result" where
  "revise_conflict sc i desired s =
     (case get_memory sc i False s of
        Inl e \<Rightarrow> Inl e
      | Inr cur \<Rightarrow> if me_hash cur \<noteq> desired then Inl MmConflict else Inr (ResAlreadyApplied (entry_result cur)))"

definition tool_revise ::
  "memory_env \<Rightarrow> memory_scope \<Rightarrow> tool_args \<Rightarrow> instant \<Rightarrow> (memory_store \<Rightarrow> memory_store) \<Rightarrow> (memory_store \<Rightarrow> memory_store) \<Rightarrow>
   memory_store \<Rightarrow> (memory_error + tool_result) \<times> memory_store" where
  "tool_revise env sc args now others1 others2 s =
     (case sum_bind (string_arg (mv_unicode env) args ''id'') (\<lambda>i.
           sum_bind (write_from_arguments (mv_unicode env) args) (\<lambda>w.
           sum_bind (get_memory sc i False s) (\<lambda>cur.
           sum_bind (memory_hash env (mw_content w)) (\<lambda>desired. Inr (i, w, cur, desired))))) of
        Inl e \<Rightarrow> (Inl e, s)
      | Inr (i, w, cur, desired) \<Rightarrow>
          if me_hash cur = desired then (Inr (ResAlreadyApplied (entry_result cur)), s)
          else (case sum_bind (integer_arg args ''expected_revision'' JNothing) (\<lambda>n.
                     sum_bind (optional_string_arg args ''expected_hash'') (\<lambda>h. Inr (revision_args w n h))) of
             Inl e \<Rightarrow> (Inl e, s)
           | Inr a \<Rightarrow>
               (case replace_memory env sc i a now (others1 s) of
                  (Inr e, s2) \<Rightarrow> (Inr (ResApplied (entry_result e)), s2)
                | (Inl err, s2) \<Rightarrow>
                    if err = MmConflict then (revise_conflict sc i desired (others2 s2), others2 s2) else (Inl err, s2))))"

definition reconcile_revise :: "memory_env \<Rightarrow> memory_scope \<Rightarrow> tool_args \<Rightarrow> memory_store \<Rightarrow> memory_error + tool_result" where
  "reconcile_revise env sc args s =
     sum_bind (string_arg (mv_unicode env) args ''id'') (\<lambda>i.
       case get_memory sc i True s of
         Inl e \<Rightarrow> if e = MmNotFound then Inr (ResNotApplied None) else Inl e
       | Inr cur \<Rightarrow>
           sum_bind (string_arg (mv_unicode env) args ''content'') (\<lambda>content.
           sum_bind (memory_hash env content) (\<lambda>desired.
             if \<not> me_tombstoned cur \<and> me_hash cur = desired then Inr (ResAlreadyApplied (entry_result cur))
             else sum_bind (integer_arg args ''expected_revision'' JNothing) (\<lambda>n.
               Inr (if me_revision cur = n then ResNotApplied (Some (me_revision cur)) else ResConflict (me_revision cur))))))"

definition tool_remove ::
  "memory_env \<Rightarrow> memory_scope \<Rightarrow> tool_args \<Rightarrow> instant \<Rightarrow> (memory_store \<Rightarrow> memory_store) \<Rightarrow> memory_store \<Rightarrow>
   (memory_error + tool_result) \<times> memory_store" where
  "tool_remove env sc args now others s =
     (case sum_bind (string_arg (mv_unicode env) args ''id'') (\<lambda>i.
           sum_bind (get_memory sc i True s) (\<lambda>cur. Inr (i, cur))) of
        Inl e \<Rightarrow> (Inl e, s)
      | Inr (i, cur) \<Rightarrow>
          if me_tombstoned cur then (Inr (ResAlreadyApplied (entry_result cur)), s)
          else (case sum_bind (integer_arg args ''expected_revision'' JNothing) (\<lambda>n.
                     sum_bind (optional_string_arg args ''expected_hash'') (\<lambda>h. Inr (n, h))) of
             Inl e \<Rightarrow> (Inl e, s)
           | Inr (n, h) \<Rightarrow>
               (case remove_memory sc i (Some n) h now (others s) of
                  (Inl e, s2) \<Rightarrow> (Inl e, s2)
                | (Inr e, s2) \<Rightarrow> (Inr (ResApplied (entry_result e)), s2))))"

definition reconcile_remove :: "memory_env \<Rightarrow> memory_scope \<Rightarrow> tool_args \<Rightarrow> memory_store \<Rightarrow> memory_error + tool_result" where
  "reconcile_remove env sc args s =
     sum_bind (string_arg (mv_unicode env) args ''id'') (\<lambda>i.
       case get_memory sc i True s of
         Inl e \<Rightarrow> if e = MmNotFound then Inr (ResNotApplied None) else Inl e
       | Inr cur \<Rightarrow>
           if me_tombstoned cur then Inr (ResAlreadyApplied (entry_result cur))
           else sum_bind (integer_arg args ''expected_revision'' JNothing) (\<lambda>n.
             Inr (if me_revision cur = n then ResNotApplied (Some (me_revision cur)) else ResConflict (me_revision cur))))"

end
