(* ===== verification/MemorySafety.thy ===== *)
theory MemorySafety
  imports MemoryTools "HOL-Library.Sublist"
begin

text \<open>
  What leaves the memory store: the entries of the reads, the selection of a snapshot, and the shape
  of the rendered prompt block.  Also what the writes return, and what the tools' handlers rely on.
\<close>

section \<open>Safe entries\<close>

text \<open>An entry is safe to hand out when its text is the marker, or is clean and matches its hash.\<close>

definition outward_safe :: "memory_env \<Rightarrow> ustr list \<Rightarrow> memory_entry \<Rightarrow> bool" where
  "outward_safe env secrets e \<longleftrightarrow> me_content e = blocked_content \<or>
     (memory_scan env secrets (me_content e) = None \<and> mv_digest env (me_content e) = me_hash e)"

lemma first_distinct_set [simp]: "set (first_distinct xs) = set xs"
  by (simp add: first_distinct_def)

lemma join_reasons_nonempty: "rs \<noteq> [] \<Longrightarrow> [] \<notin> set rs \<Longrightarrow> join_reasons rs \<noteq> []"
  by (cases rs) (auto simp: join_reasons_def)

lemma pattern_names: "(name, ci, r) \<in> set (injection_patterns @ secret_patterns) \<Longrightarrow> name \<noteq> []"
  by (auto simp: injection_patterns_def secret_patterns_def)

lemma scan_reason: "memory_scan env secrets t = Some r \<Longrightarrow> r \<noteq> []"
proof -
  let ?hits = "map (\<lambda>(name, ci, r). asc name)
      (filter (\<lambda>(name, ci, r). searches (mv_unicode env) ci r t) (injection_patterns @ secret_patterns))"
  let ?all = "first_distinct (?hits @ (if list_ex (\<lambda>s. contains s t) (scanner_secrets secrets)
      then [asc ''secret:configured''] else []))"
  assume "memory_scan env secrets t = Some r"
  then have r: "?all \<noteq> []" "r = join_reasons ?all" by (simp_all add: scan_def Let_def split: if_splits)
  have "[] \<noteq> asc name" if "(name, ci, r) \<in> set (injection_patterns @ secret_patterns)" for name ci r
    using pattern_names [OF that] by (simp add: asc_def)
  then have hits: "[] \<notin> set ?hits" by (auto simp del: set_append filter_append simp: image_iff)
  have add: "[] \<notin> set hs \<Longrightarrow> [] \<notin> set (first_distinct (hs @ (if b then [asc ''secret:configured''] else [])))"
    for hs b by (simp add: asc_def)
  have "[] \<notin> set ?all" by (rule add [OF hits])
  with r(1) show "r \<noteq> []" unfolding r(2) by (rule join_reasons_nonempty)
qed

lemma safe_entry_safe: "outward_safe env secrets (safe_entry env secrets e)"
proof (cases "me_content e = blocked_content \<and> me_blocked e \<noteq> None")
  case True
  then show ?thesis by (simp add: safe_entry_def outward_safe_def)
next
  case False
  let ?given = "\<lambda>x. case x of None \<Rightarrow> [] | Some t \<Rightarrow> if t = [] then [] else [t]"
  let ?scan = "?given (memory_scan env secrets (me_content e))"
  let ?hash = "if mv_digest env (me_content e) \<noteq> me_hash e then [asc ''integrity:content_hash_mismatch''] else []"
  let ?reasons = "?given (me_blocked e) @ ?scan @ ?hash"
  have safe: "safe_entry env secrets e = (if ?reasons = [] then e else e\<lparr>me_content := blocked_content,
      me_blocked := Some (join_reasons (first_distinct (split_reasons (join_reasons ?reasons))))\<rparr>)"
    using False unfolding safe_entry_def Let_def by (simp only: if_False)
  show ?thesis
  proof (cases "?reasons = []")
    case True
    then have "?scan = []" "?hash = []" by simp_all
    then have "memory_scan env secrets (me_content e) = None" "mv_digest env (me_content e) = me_hash e"
      using scan_reason [of env secrets "me_content e"] by (simp_all split: option.splits if_splits)
    then show ?thesis using True safe by (simp add: outward_safe_def)
  next
    case nonempty: False
    show ?thesis unfolding safe outward_safe_def if_not_P [OF nonempty] by simp
  qed
qed

lemma safe_entry_fields [simp]:
  "me_id (safe_entry env secrets e) = me_id e" "me_revision (safe_entry env secrets e) = me_revision e"
  "me_tombstoned (safe_entry env secrets e) = me_tombstoned e" "in_scope sc (safe_entry env secrets e) = in_scope sc e"
  "me_hash (safe_entry env secrets e) = me_hash e"
  by (simp_all add: safe_entry_def Let_def in_scope_def)

text \<open>A text shorter than every pattern is clean.\<close>

fun min_width :: "regex \<Rightarrow> nat" where
  "min_width (Chars ranges) = 1"
| "min_width Space = 1"
| "min_width AnyChar = 1"
| "min_width (Then r s) = min_width r + min_width s"
| "min_width (Either r s) = min (min_width r) (min_width s)"
| "min_width _ = 0"

lemma many_ends_bounds:
  "(\<And>i j. j \<in> set (step i) \<Longrightarrow> i \<le> n \<Longrightarrow> j \<le> n) \<Longrightarrow> j \<in> set (many_ends step k i) \<Longrightarrow> i \<le> n \<Longrightarrow> i \<le> j \<and> j \<le> n"
  by (induction k arbitrary: i) fastforce+

lemma few_ends_bounds:
  "(\<And>i j. j \<in> set (step i) \<Longrightarrow> i \<le> n \<Longrightarrow> j \<le> n) \<Longrightarrow> j \<in> set (few_ends step k i) \<Longrightarrow> i \<le> n \<Longrightarrow> i \<le> j \<and> j \<le> n"
  by (induction k arbitrary: i) fastforce+

lemma ends_bounds:
  "j \<in> set (ends uc ci r t i) \<Longrightarrow> i \<le> length t \<Longrightarrow> i + min_width r \<le> j \<and> j \<le> length t"
proof (induction r arbitrary: i j)
  case (Then r s)
  then obtain k where "k \<in> set (ends uc ci r t i)" "j \<in> set (ends uc ci s t k)" by auto
  with Then.IH(1) [of k i] Then.IH(2) [of j k] Then.prems(2) show ?case by simp
next
  case (Either r s)
  then consider "j \<in> set (ends uc ci r t i)" | "j \<in> set (ends uc ci s t i)" by auto
  then show ?case using Either.IH Either.prems(2) by cases fastforce+
next
  case (Many r)
  have "j \<in> set (many_ends (ends uc ci r t) (length t - i) i)" using Many.prems(1) by simp
  from many_ends_bounds [OF _ this Many.prems(2)] Many.IH show ?case by auto
next
  case (Few r)
  have "j \<in> set (few_ends (ends uc ci r t) (length t - i) i)" using Few.prems(1) by simp
  from few_ends_bounds [OF _ this Few.prems(2)] Few.IH show ?case by auto
qed (auto split: if_splits)

lemma searches_short:
  assumes "length t < min_width r"
  shows "\<not> searches uc ci r t"
proof
  assume "searches uc ci r t"
  then obtain i where "i \<le> length t" "ends uc ci r t i \<noteq> []"
    by (auto simp: searches_def list_ex_iff less_Suc_eq_le simp del: upt_Suc)
  then show False using ends_bounds [of "hd (ends uc ci r t i)" uc ci r t i] assms by simp
qed

lemma pattern_widths: "list_all (\<lambda>(name, ci, r). 3 \<le> min_width r) (injection_patterns @ secret_patterns)"
  by code_simp

lemma scan_short:
  assumes "length t < 3"
  shows "scan uc [] t = None"
proof -
  have "\<not> searches uc ci r t" if p: "(name, ci, r) \<in> set (injection_patterns @ secret_patterns)" for name ci r
    using bspec [OF pattern_widths [unfolded list_all_iff] p] assms by (intro searches_short) simp
  then have "\<forall>(name, ci, r) \<in> set (injection_patterns @ secret_patterns). \<not> searches uc ci r t" by blast
  then show ?thesis unfolding scan_None_iff by simp
qed

section \<open>Reads\<close>

lemma set_listed: "set (listed sc t d) = {e \<in> set (memories d). in_scope sc e \<and> (t \<or> \<not> me_tombstoned e)}"
  by (auto simp: listed_def)

lemma list_memories_eq:
  "list_memories env sc t n s = Inr es \<Longrightarrow>
   es = map (safe_entry env (cf_secrets (mconfig s)))
     ((case n of None \<Rightarrow> id | Some n \<Rightarrow> take (nat n)) (listed sc t (mdb s)))"
  by (auto simp: list_memories_def dest!: binding_InrD split: if_splits)

lemma list_memories_set:
  assumes "list_memories env sc t n s = Inr es" and "e \<in> set es"
  shows "\<exists>x \<in> set (memories (mdb s)). e = safe_entry env (cf_secrets (mconfig s)) x \<and> in_scope sc x \<and> (t \<or> \<not> me_tombstoned x)"
proof -
  obtain x where x: "x \<in> set ((case n of None \<Rightarrow> id | Some n \<Rightarrow> take (nat n)) (listed sc t (mdb s)))"
      "e = safe_entry env (cf_secrets (mconfig s)) x"
    using assms list_memories_eq [OF assms(1)] by auto
  have "x \<in> set (listed sc t (mdb s))" using x(1) by (cases n) (auto dest: in_set_takeD)
  then show ?thesis using x(2) set_listed by blast
qed

lemma select_entries_subseq: "subseq (select_entries budget used es) es"
  by (induction budget used es rule: select_entries.induct) auto

definition content_size :: "memory_entry list \<Rightarrow> int" where
  "content_size es = sum_list (map (\<lambda>e. int (length (me_content e))) es)"

lemma content_size_simps [simp]:
  "content_size [] = 0" "content_size (e # es) = int (length (me_content e)) + content_size es"
  by (simp_all add: content_size_def)

lemma content_size_nonneg [simp]: "0 \<le> content_size es"
  by (induction es) auto

lemma select_entries_bound: "used \<le> budget \<Longrightarrow> used + content_size (select_entries budget used es) \<le> budget"
proof (induction budget used es rule: select_entries.induct)
  case (2 budget used e es)
  then show ?case by (cases "budget < used + int (length (me_content e))") auto
qed simp

lemma select_entries_all: "used + content_size es \<le> budget \<Longrightarrow> select_entries budget used es = es"
proof (induction budget used es rule: select_entries.induct)
  case (2 budget used e es)
  have "\<not> budget < used + int (length (me_content e))"
    using 2(3) content_size_nonneg [of es] unfolding content_size_simps by linarith
  then show ?case using 2 by simp
qed simp

lemma recall_hits:
  assumes "recall env rank q sc n s = Inr hits" and "h \<in> set hits"
  shows "\<exists>x \<in> set (memories (mdb s)). mh_entry h = safe_entry env (cf_secrets (mconfig s)) x \<and> in_scope sc x \<and> \<not> me_tombstoned x"
proof -
  let ?secrets = "cf_secrets (mconfig s)"
  have candidates: "in_scope sc x \<and> \<not> me_tombstoned x \<and> x \<in> set (memories (mdb s))"
    if c: "(x, sco) \<in> set (fts_candidates env ?secrets rank q sc (nat n) (mdb s))" for x sco
    using c by (auto simp: fts_candidates_def Let_def dest!: in_set_takeD split: option.splits)
  show ?thesis
  proof (cases "index_on s \<and> n \<noteq> 0")
    case True
    then obtain x sco where "(x, sco) \<in> set (fts_candidates env ?secrets rank q sc (nat n) (mdb s))"
        "mh_entry h = safe_entry env ?secrets x"
      using assms by (fastforce simp: recall_def Let_def dest!: in_set_takeD binding_InrD split: if_splits)
    with candidates show ?thesis by blast
  next
    case False
    then obtain x where "x \<in> set (memories (mdb s))" "in_scope sc x" "\<not> me_tombstoned x" "mh_entry h = safe_entry env ?secrets x"
      using assms by (fastforce simp: recall_def Let_def dest!: in_set_takeD binding_InrD split: if_splits)
    then show ?thesis by blast
  qed
qed

lemma recall_length: "recall env rank q sc n s = Inr hits \<Longrightarrow> length hits \<le> nat n"
  by (auto simp: recall_def Let_def dest!: binding_InrD split: if_splits)

section \<open>The prompt block\<close>

lemma int_text_printable [simp]: "printable (int_text i)"
proof -
  have digits: "printable (asc (nat_digits n))" for n
    using nat_digits_chars [of _ n] by (fastforce simp: printable_def list_all_iff asc_def)
  have minus: "printable (asc (CHR ''-'' # t)) = printable (asc t)" for t
    by (simp add: printable_def asc_def)
  show ?thesis by (simp add: int_text_def py_int_str_def digits minus)
qed

lemma payload_printable [simp]: "printable (entry_payload env secrets e)"
  by (simp add: entry_payload_def Let_def asc_def del: json_text_printable) (simp add: json_text_printable)

text \<open>The loop takes the longest prefix of the entries whose lines fit.\<close>

definition fits :: "int option \<Rightarrow> nat \<Rightarrow> bool" where
  "fits budget n \<longleftrightarrow> (case budget of None \<Rightarrow> True | Some b \<Rightarrow> int n \<le> b)"

lemma fits_mono: "fits budget n \<Longrightarrow> m \<le> n \<Longrightarrow> fits budget m"
  by (auto simp: fits_def split: option.splits)

lemma prompt_lines_greedy:
  "fits budget used \<Longrightarrow> \<exists>k \<le> length es. prompt_lines env secrets budget used es = map (prompt_line env secrets) (take k es) \<and>
     fits budget (used + length (concat (map (prompt_line env secrets) (take k es)))) \<and>
     (k = length es \<or> \<not> fits budget (used + length (concat (map (prompt_line env secrets) (take (Suc k) es)))))"
proof (induction es arbitrary: used)
  case (Cons e es)
  let ?line = "prompt_line env secrets e"
  have f: "(case budget of None \<Rightarrow> False | Some b \<Rightarrow> b < int (used + length ?line)) \<longleftrightarrow> \<not> fits budget (used + length ?line)"
    by (auto simp: fits_def split: option.split)
  show ?case
  proof (cases "fits budget (used + length ?line)")
    case True
    obtain k where "k \<le> length es" "prompt_lines env secrets budget (used + length ?line) es = map (prompt_line env secrets) (take k es)"
      "fits budget (used + length ?line + length (concat (map (prompt_line env secrets) (take k es))))"
      "k = length es \<or> \<not> fits budget (used + length ?line + length (concat (map (prompt_line env secrets) (take (Suc k) es))))"
      using Cons.IH [OF True] by blast
    then show ?thesis using True f by (intro exI [of _ "Suc k"]) (simp add: Let_def add.assoc)
  next
    case False
    then show ?thesis using Cons.prems f by (intro exI [of _ 0]) (simp add: Let_def)
  qed
qed simp

end
