(* ===== verification/MemoryEffects.thy ===== *)
theory MemoryEffects
  imports MemorySafety
begin

text \<open>What the writes of the memory store return and leave behind, as the tools rely on it.\<close>

lemma memory_transaction_InrD:
  assumes "memory_transaction body s = (Inr x, s')"
  shows "\<not> mclosed s" "body (mdb s) = Inr (x, mdb s')" "s' = s\<lparr>mdb := mdb s'\<rparr>"
  using assms by (auto simp: memory_transaction_def split: if_splits sum.splits)

lemma memory_transaction_InlD: "memory_transaction body s = (Inl e, s') \<Longrightarrow> s' = s"
  by (auto simp: memory_transaction_def split: if_splits sum.splits)

section \<open>Appending\<close>

lemma append_all_shape:
  assumes "append_all env cf sc ws d = Inr (es, d')" and "memory_ok env d"
  shows "memories d' = memories d @ es \<and> length es = length ws \<and>
    revisions d' = revisions d @ map (\<lambda>e. \<lparr>rv_entry = e, rv_operation = ''append''\<rparr>) es \<and>
    (\<forall>e \<in> set es. in_scope sc e \<and> me_revision e = 1 \<and> \<not> me_tombstoned e)"
  using assms
proof (induction ws arbitrary: d es)
  case (Cons a ws)
  obtain w fresh now where a: "a = (w, fresh, now)" by (cases a) auto
  obtain e d1 xs where d1: "append_in_transaction env cf sc w fresh now d = Inr (e, d1)"
      "append_all env cf sc ws d1 = Inr (xs, d')" "es = e # xs"
    using Cons.prems(1) a by (auto split: sum.splits)
  note shape = append_in_transaction_shape [OF d1(1) Cons.prems(2)]
  have "memory_ok env d1" using mem_step_ok [OF append_in_transaction_step [OF d1(1) Cons.prems(2)] Cons.prems(2)] .
  from Cons.IH [OF d1(2) this] show ?case using shape(2,4,5) unfolding shape(6) d1(3) by simp
qed simp

lemma append_in_transaction_bound:
  assumes "append_in_transaction env cf sc w fresh now d = Inr (e, d')" and "memory_ok env d"
  shows "\<not> list_ex (list_ex surrogate) (me_id e # scope_texts sc)"
proof -
  have "me_id e = (case mw_id w of None \<Rightarrow> fresh | Some i \<Rightarrow> i)"
    using append_in_transaction_shape(7) [OF assms] by (simp add: fresh_entry_def)
  then show ?thesis
    using assms(1) by (auto simp: append_in_transaction_def Let_def binding_def split: sum.splits if_splits)
qed

lemma append_idempotent_InrD:
  assumes "append_idempotent env sc w key fresh now now2 s = (Inr e, s')" and ok: "mem_ok env s"
  shows "\<exists>row. remembered s' key = Some row \<and> ik_entry row = me_id e \<and> ik_profile row = sc_profile sc \<and>
      ik_subject row = sc_subject sc \<and> ik_hash row = write_identity env w \<and> \<not> list_ex surrogate key" "in_scope sc e"
    "find_memory (me_id e) (mdb s') = Some e" "\<not> blank (mv_unicode env) key"
    "\<not> list_ex (list_ex surrogate) (me_id e # scope_texts sc)"
proof -
  note ok' = ok [unfolded mem_ok_def]
  have key: "\<not> blank (mv_unicode env) key" using assms(1) by (auto simp: append_idempotent_def split: if_splits)
  then have tx: "append_idempotent_tx env (mconfig s) sc w key fresh now now2 (mdb s) = Inr (e, mdb s')"
    using assms(1) by (simp add: append_idempotent_def memory_transaction_InrD(2))
  have sur: "\<not> list_ex surrogate key" using tx by (auto simp: append_idempotent_tx_def binding_def split: if_splits)
  have "(\<exists>row. remembered s' key = Some row \<and> ik_entry row = me_id e \<and> ik_profile row = sc_profile sc \<and>
      ik_subject row = sc_subject sc \<and> ik_hash row = write_identity env w) \<and> in_scope sc e \<and>
      find_memory (me_id e) (mdb s') = Some e \<and> \<not> list_ex (list_ex surrogate) (me_id e # scope_texts sc)"
  proof (cases "by_key ik_key key (idempotency (mdb s))")
    case (Some row)
    then have g: "get_in_transaction sc (ik_entry row) True (mdb s) = Inr e" "mdb s' = mdb s"
        "ik_profile row = sc_profile sc" "ik_subject row = sc_subject sc" "ik_hash row = write_identity env w"
      using tx by (auto simp: append_idempotent_tx_def dest!: binding_InrD split: if_splits sum.splits)
    note e = get_in_transaction_InrD [OF g(1) memory_okD(1) [OF ok']]
    from g(1) have "\<not> list_ex (list_ex surrogate) (ik_entry row # scope_texts sc)"
      by (auto simp: get_in_transaction_def binding_def split: if_splits)
    with e g Some show ?thesis by (auto simp: remembered_def)
  next
    case None
    obtain d1 where d1: "append_in_transaction env (mconfig s) sc w fresh now (mdb s) = Inr (e, d1)"
        "mdb s' = d1\<lparr>idempotency := idempotency d1 @ [\<lparr>ik_key = key, ik_entry = me_id e, ik_profile = sc_profile sc,
           ik_subject = sc_subject sc, ik_hash = write_identity env w, ik_created = now2\<rparr>]\<rparr>"
      using tx None by (auto simp: append_idempotent_tx_def dest!: binding_InrD split: sum.splits)
    note shape = append_in_transaction_shape [OF d1(1) ok']
    show ?thesis
      using shape(1,2) None append_in_transaction_bound [OF d1(1) ok']
      unfolding d1(2) shape(6) remembered_def by (simp add: by_key_append find_memory_def)
  qed
  with key sur show "\<exists>row. remembered s' key = Some row \<and> ik_entry row = me_id e \<and> ik_profile row = sc_profile sc \<and>
      ik_subject row = sc_subject sc \<and> ik_hash row = write_identity env w \<and> \<not> list_ex surrogate key" "in_scope sc e"
    "find_memory (me_id e) (mdb s') = Some e" "\<not> blank (mv_unicode env) key"
    "\<not> list_ex (list_ex surrogate) (me_id e # scope_texts sc)" by auto
qed

text \<open>A lookup in the scope of an entry that exists.\<close>

lemma get_in_transaction_found:
  assumes "keyed me_id (memories d)" and "find_memory i d = Some e" and "in_scope sc e" and "t \<or> \<not> me_tombstoned e"
  shows "get_in_transaction sc i t d = binding (i # scope_texts sc) (Inr e)"
proof -
  have "fetch_one (\<lambda>e. me_id e = i \<and> in_scope sc e \<and> (t \<or> \<not> me_tombstoned e)) (memories d) = Some e"
  proof -
    have "e \<in> set (memories d)" "me_id e = i" using find_memory_in [OF assms(2)] by simp_all
    then have "fetch_one (\<lambda>e. me_id e = i \<and> in_scope sc e \<and> (t \<or> \<not> me_tombstoned e)) (memories d) \<noteq> None"
      using assms(3,4) by (auto simp: fetch_one_None_iff)
    then obtain x where x: "fetch_one (\<lambda>e. me_id e = i \<and> in_scope sc e \<and> (t \<or> \<not> me_tombstoned e)) (memories d) = Some x"
      by (rule not_None_eq [THEN iffD1, THEN exE])
    have "x = e" using fetch_one_SomeD [OF x] by_key_same [OF assms(1)] assms(2) by (auto simp: find_memory_def)
    with x show ?thesis by simp
  qed
  then show ?thesis by (simp add: get_in_transaction_def)
qed

section \<open>Equal content\<close>

lemma set_equal_active:
  "set (equal_active sc digest d) = {e \<in> set (memories d). in_scope sc e \<and> me_hash e = digest \<and> \<not> me_tombstoned e}"
  by (auto simp: equal_active_def)

lemma equal_active_snoc:
  assumes "equal_active sc digest d = []" and "in_scope sc e" and "me_hash e = digest" and "\<not> me_tombstoned e"
  shows "equal_active sc digest (recorded ft (memories d @ [e]) e operation d) = [e]"
proof -
  have "filter (\<lambda>e. in_scope sc e \<and> me_hash e = digest \<and> \<not> me_tombstoned e) (memories d) = []"
    using assms(1) set_equal_active [of sc digest d] by (auto simp: filter_empty_conv)
  then show ?thesis using assms(2-4) by (simp add: equal_active_def order_by_def)
qed

lemma append_reconciled_created:
  assumes "append_reconciled env sc w fresh now s = (Inr (e, True), s')" and ok: "mem_ok env s"
  shows "equal_active sc (mv_digest env (mw_content w)) (mdb s) = []"
    "equal_active sc (mv_digest env (mw_content w)) (mdb s') = [e]" "\<not> mclosed s'"
    "memory_hash env (mw_content w) = Inr (mv_digest env (mw_content w))" "\<not> list_ex (list_ex surrogate) (scope_texts sc)"
proof -
  obtain digest where h: "memory_hash env (mw_content w) = Inr digest"
    using assms(1) by (auto simp: append_reconciled_def split: sum.splits)
  then have digest: "digest = mv_digest env (mw_content w)" using memory_hash_InrD by blast
  let ?body = "\<lambda>d. binding (scope_texts sc) (case equal_active sc digest d of
             e # _ \<Rightarrow> Inr ((e, False), d)
           | [] \<Rightarrow> (case append_in_transaction env (mconfig s) sc w fresh now d of
                 Inl err \<Rightarrow> Inl err | Inr (e, d1) \<Rightarrow> Inr ((e, True), d1)))"
  have tx: "memory_transaction ?body s = (Inr (e, True), s')" using assms(1) h by (simp add: append_reconciled_def)
  note parts = memory_transaction_InrD [OF tx]
  have sur: "\<not> list_ex (list_ex surrogate) (scope_texts sc)" using parts(2) by (auto simp: binding_def split: if_splits)
  have none: "equal_active sc digest (mdb s) = []" and
    app: "append_in_transaction env (mconfig s) sc w fresh now (mdb s) = Inr (e, mdb s')"
    using binding_InrD [OF parts(2)] by (auto split: list.splits sum.splits)
  note shape = append_in_transaction_shape [OF app ok [unfolded mem_ok_def]]
  have "me_hash e = digest" using shape(7) digest by (simp add: fresh_entry_def)
  then have "equal_active sc digest (mdb s') = [e]"
    unfolding shape(6) by (rule equal_active_snoc [OF none shape(2) _ shape(5)])
  moreover have "\<not> mclosed s'" using parts(1) arg_cong [OF parts(3), of mclosed] by simp
  ultimately show "equal_active sc (mv_digest env (mw_content w)) (mdb s) = []"
    "equal_active sc (mv_digest env (mw_content w)) (mdb s') = [e]" "\<not> mclosed s'"
    "memory_hash env (mw_content w) = Inr (mv_digest env (mw_content w))" "\<not> list_ex (list_ex surrogate) (scope_texts sc)"
    using none h digest sur by simp_all
qed

section \<open>Replacing and removing\<close>

lemma replace_memory_InrD:
  assumes "replace_memory env sc i a now s = (Inr e, s')" and ok: "mem_ok env s"
  obtains cur where "find_memory i (mdb s) = Some cur" "in_scope sc cur" "\<not> me_tombstoned cur"
    "check_expected cur (ra_revision a) (ra_hash a) = None" "me_revision e = me_revision cur + 1" "\<not> me_tombstoned e"
    "same_origin e cur" "in_scope sc e" "find_memory i (mdb s') = Some e" "\<not> mclosed s'" "mem_ok env s'" "mconfig s' = mconfig s"
    "\<exists>w. replacement_write (mv_unicode env) cur a = Inr w \<and> me_content e = mw_content w"
proof -
  note tx = memory_transaction_InrD [OF assms(1) [unfolded replace_memory_def]]
  from replace_tx_shape [OF tx(2) ok [unfolded mem_ok_def]] obtain cur where
    c: "find_memory i (mdb s) = Some cur" "in_scope sc cur" "\<not> me_tombstoned cur"
      "check_expected cur (ra_revision a) (ra_hash a) = None" "same_origin e cur" "me_revision e = me_revision cur + 1"
      "\<not> me_tombstoned e"
      "mdb s' = recorded (index_on s) (update_where (\<lambda>x. me_id x = me_id e) (\<lambda>x. e) (memories (mdb s))) e ''replace'' (mdb s)"
      "\<exists>w. replacement_write (mv_unicode env) cur a = Inr w \<and> me_content e = mw_content w"
    by metis
  have id: "me_id e = i" using c(5) find_memory_in [OF c(1)] by (simp add: same_origin_def)
  have f: "find_memory i (mdb s') = Some e"
    unfolding c(8) find_recorded_replaced using id c(1) by simp
  have "s' = memory_exec env (MemReplace sc i a now) s" using assms(1) by simp
  then have "mem_ok env s'" using mem.exec_ok [OF ok] by metis
  moreover have "\<not> mclosed s'" "mconfig s' = mconfig s"
    using tx(1) arg_cong [OF tx(3), of mclosed] arg_cong [OF tx(3), of mconfig] by simp_all
  moreover have "in_scope sc e" using c(2,5) same_origin_scope by simp
  ultimately show thesis using that c f by blast
qed

lemma remove_memory_InrD:
  assumes "remove_memory sc i expected hash now s = (Inr e, s')" and ok: "mem_ok env s"
  obtains cur where "find_memory i (mdb s) = Some cur" "in_scope sc cur" "me_tombstoned e" "in_scope sc e"
    "find_memory i (mdb s') = Some e" "\<not> mclosed s'" "mem_ok env s'"
    "if me_tombstoned cur then e = cur \<and> mdb s' = mdb s else check_expected cur expected hash = None \<and>
       e = cur\<lparr>me_updated := now, me_revision := me_revision cur + 1, me_tombstoned := True\<rparr>"
proof -
  note tx = memory_transaction_InrD [OF assms(1) [unfolded remove_memory_def]]
  from remove_tx_shape [OF tx(2) ok [unfolded mem_ok_def]] obtain cur where
    c: "find_memory i (mdb s) = Some cur" "in_scope sc cur"
    "if me_tombstoned cur then e = cur \<and> mdb s' = mdb s
     else check_expected cur expected hash = None \<and>
       e = cur\<lparr>me_updated := now, me_revision := me_revision cur + 1, me_tombstoned := True\<rparr> \<and>
       mdb s' = recorded (index_on s) (update_where (\<lambda>x. me_id x = me_id e) (\<lambda>x. e) (memories (mdb s))) e ''tombstone'' (mdb s)"
    by metis
  have id: "me_id cur = i" using find_memory_in [OF c(1)] by simp
  have f: "find_memory i (mdb s') = Some e \<and> me_tombstoned e \<and> in_scope sc e"
  proof (cases "me_tombstoned cur")
    case False
    then have e: "e = cur\<lparr>me_updated := now, me_revision := me_revision cur + 1, me_tombstoned := True\<rparr>" and
      d': "mdb s' = recorded (index_on s) (update_where (\<lambda>x. me_id x = me_id e) (\<lambda>x. e) (memories (mdb s))) e ''tombstone'' (mdb s)"
      using c(3) by simp_all
    have "me_id e = i" "me_tombstoned e" "in_scope sc e" using e id c(2) by (simp_all add: in_scope_def)
    then show ?thesis unfolding d' find_recorded_replaced using c(1) by simp
  qed (use c in simp)
  have "s' = memory_exec env (MemRemove sc i expected hash now) s" using assms(1) by simp
  then have "mem_ok env s'" using mem.exec_ok [OF ok] by metis
  moreover have "\<not> mclosed s'" using tx(1) arg_cong [OF tx(3), of mclosed] by simp
  ultimately show thesis using that [OF c(1,2)] f c(3) by auto
qed

text \<open>A revision that was checked against a number that is no longer current fails.\<close>

lemma stale_revision_fails:
  assumes ok: "mem_ok env s" and "revision_of s i = Some n" and "ra_revision a = Some m" and "m \<noteq> n"
  shows "fst (replace_memory env sc i a now s) \<in> {Inl MmClosed, Inl MmValue, Inl MmNotFound, Inl MmConflict}"
proof -
  obtain e where e: "find_memory i (mdb s) = Some e" "me_revision e = n" using assms(2) by (auto simp: revision_of_def)
  have "check_expected cur (ra_revision a) (ra_hash a) = Some MmConflict"
    if "get_in_transaction sc i True (mdb s) = Inr cur" for cur
    using get_in_transaction_InrD(1) [OF that memory_okD(1) [OF ok [unfolded mem_ok_def]]] e assms(3,4)
    by (simp add: check_expected_def)
  moreover have "get_in_transaction sc i True (mdb s) \<in> {Inl MmValue, Inl MmNotFound} \<or>
      (\<exists>cur. get_in_transaction sc i True (mdb s) = Inr cur)"
    by (auto simp: get_in_transaction_def binding_def split: option.splits)
  ultimately show ?thesis
    by (auto simp: replace_memory_def memory_transaction_def replace_tx_def split: sum.split)
qed

end
