(* ===== verification/MemoryProperties.thy ===== *)
theory MemoryProperties
  imports MemoryEffects
begin

text \<open>The properties of the curated memory, each with its instance where it has a hypothesis.\<close>

section \<open>A concrete environment\<close>

definition ex_memory_env :: memory_env where
  "ex_memory_env =
     \<lparr>mv_unicode = \<lparr>uc_space = (\<lambda>c. c = 32), uc_word = (\<lambda>c. 97 \<le> c \<and> c \<le> 122), uc_same = (=), uc_casefold = id\<rparr>,
      mv_digest = map (\<lambda>c. 97 + c mod 26), mv_fts = True\<rparr>"

definition ex_scope :: memory_scope where
  "ex_scope = \<lparr>sc_profile = asc ''p'', sc_subject = asc ''s''\<rparr>"

definition ex_other_scope :: memory_scope where
  "ex_other_scope = \<lparr>sc_profile = asc ''p'', sc_subject = asc ''t''\<rparr>"

definition ex_provenance :: provenance where
  "ex_provenance = \<lparr>pv_run = None, pv_session = None, pv_message = None\<rparr>"

definition ex_write :: "str \<Rightarrow> memory_write" where
  "ex_write t = \<lparr>mw_content = asc t, mw_kind = MkFact, mw_trust = TlUserAsserted, mw_id = None, mw_provenance = ex_provenance\<rparr>"

definition ex_memory :: memory_store where
  "ex_memory = open_memory ex_memory_env [] True empty_memory_db"

lemma ex_memory_ok: "mem_ok env ex_memory" "memory_ok env (mdb ex_memory)"
  by (simp_all add: mem_ok_def ex_memory_def open_memory_def Let_def configured_memory_ok empty_memory_ok)

text \<open>The store after the first write, and the entry it stored.\<close>

definition ex_entry :: memory_entry where
  "ex_entry = \<lparr>me_id = asc ''i'', me_profile = asc ''p'', me_subject = asc ''s'', me_content = asc ''a'', me_kind = MkFact,
     me_trust = TlUserAsserted, me_provenance = ex_provenance, me_created = 1, me_updated = 1, me_revision = 1,
     me_hash = [116], me_blocked = None, me_tombstoned = False\<rparr>"

definition ex_append :: memory_op where
  "ex_append = MemAppend ex_scope (ArgWrite (ex_write ''a'')) None MkFact TlUserAsserted None ex_provenance (asc ''i'') 1"

definition ex_stored :: memory_store where
  "ex_stored = memory_exec ex_memory_env ex_append ex_memory"

lemma ex_stored_ok: "mem_ok ex_memory_env ex_stored"
  unfolding ex_stored_def by (rule mem.exec_ok [OF ex_memory_ok(1)])

lemma ex_scan [simp]: "scan uc [] [c] = None"
  by (rule scan_short) simp

lemmas memory_eval = ex_memory_def open_memory_def configure_fts_def empty_memory_db_def ex_memory_env_def ex_scope_def
  ex_other_scope_def ex_provenance_def ex_write_def ex_entry_def Let_def memory_transaction_def binding_def memory_hash_def
  scope_texts_def provenance_texts_def sqlite_empty_def surrogate_def asc_def map_filter_def append_memory_def
  coerce_write_def append_in_transaction_def fresh_entry_def insert_revision_def bump_generation_def fts_row_of_def
  find_memory_def recorded_def indexed_after_def blank_def in_scope_def get_in_transaction_def

lemma ex_append_result:
  "append_memory ex_memory_env ex_scope (ArgWrite (ex_write ''a'')) None MkFact TlUserAsserted None ex_provenance (asc ''i'') 1 ex_memory
   = (Inr ex_entry, ex_memory\<lparr>mdb := recorded True [ex_entry] ex_entry ''append'' empty_memory_db\<rparr>)"
  by (simp add: memory_eval)

lemma ex_stored_eq: "ex_stored = ex_memory\<lparr>mdb := recorded True [ex_entry] ex_entry ''append'' empty_memory_db\<rparr>"
  by (simp add: ex_stored_def ex_append_def ex_append_result)

lemma ex_stored_entry: "find_memory (asc ''i'') (mdb ex_stored) = Some ex_entry"
  by (simp add: ex_stored_eq find_memory_def ex_entry_def)

section \<open>The store\<close>

text \<open>C25: Whatever calls a fresh database goes through, with the store closed and reopened with or without
  the index in between, every memory keeps a gapless revision history whose last row is the stored
  entry, every hash matches its text, a text stored as unblocked has none of the injection or secret
  patterns, the generation counts the revisions, and the idempotency keys and the index refer to
  stored entries.\<close>

theorem memory_invariant:
  "memory_ok env (mdb (run_ops (memory_exec env) ops (open_memory env secrets enable empty_memory_db)))"
proof -
  have "mem_ok env (open_memory env secrets enable empty_memory_db)"
    by (simp add: mem_ok_def open_memory_def Let_def configured_memory_ok empty_memory_ok)
  then show ?thesis using mem.run_ok mem_ok_def by blast
qed

text \<open>Every call of the store is a sequence of the abstract steps append, revise, tombstone, remember and
  reindex, each of them within the scope the call is bound to; a failed call is the empty sequence.\<close>

theorem memory_refines_steps:
  assumes "memory_ok env (mdb s)"
  shows "(mem_step env (cf_fts (mconfig s)) (op_scope a))\<^sup>*\<^sup>* (mdb s) (mdb (memory_exec env a s))"
  by (rule memory_exec_steps [OF assms])

lemma memory_refines_steps_witness:
  "(mem_step ex_memory_env True (Some ex_scope))\<^sup>*\<^sup>* (mdb ex_memory) (mdb ex_stored)"
  using memory_refines_steps [OF ex_memory_ok(2), of ex_memory_env ex_append]
  by (simp add: ex_stored_def) (simp add: ex_append_def memory_eval)

text \<open>C26: Scopes are isolated: calls bound to other scopes leave what a scope can read as it was, its list,
  its lookups and its audit trail, whatever identifiers they name.\<close>

theorem scope_isolated:
  assumes "mem_ok env s" and "\<And>a. a \<in> set ops \<Longrightarrow> op_scope a \<noteq> Some sc"
  shows "listed sc t (mdb (run_ops (memory_exec env) ops s)) = listed sc t (mdb s) \<and>
    get_in_transaction sc i t (mdb (run_ops (memory_exec env) ops s)) = get_in_transaction sc i t (mdb s) \<and>
    filter (\<lambda>r. in_scope sc (rv_entry r)) (revisions (mdb (run_ops (memory_exec env) ops s))) =
      filter (\<lambda>r. in_scope sc (rv_entry r)) (revisions (mdb s))"
proof -
  have "scope_entries sc (mdb (run_ops (memory_exec env) ops s)) = scope_entries sc (mdb s) \<and>
    scope_revisions sc (mdb (run_ops (memory_exec env) ops s)) = scope_revisions sc (mdb s)"
    using assms
  proof (induction ops arbitrary: s)
    case (Cons a ops)
    have step: "mem_steps env (index_on s) (op_scope a) (mdb s) (mdb (memory_exec env a s))" "op_scope a \<noteq> Some sc"
      using memory_exec_steps Cons.prems by (auto simp: mem_ok_def)
    have "memory_ok env (mdb s)" using Cons.prems(1) by (simp add: mem_ok_def)
    from steps_isolated [OF step this] Cons.IH [OF mem.exec_ok [OF Cons.prems(1)]] Cons.prems(2) show ?case by simp
  qed simp
  then show ?thesis
    by (simp add: listed_scope get_scope scope_revisions_def)
qed

lemma scope_isolated_witness:
  "get_in_transaction ex_other_scope (asc ''i'') True (mdb (run_ops (memory_exec ex_memory_env) [ex_append] ex_memory)) =
     Inl MmNotFound"
proof -
  have "ex_scope \<noteq> ex_other_scope" by (simp add: ex_scope_def ex_other_scope_def asc_def)
  then have "get_in_transaction ex_other_scope (asc ''i'') True (mdb (run_ops (memory_exec ex_memory_env) [ex_append] ex_memory)) =
      get_in_transaction ex_other_scope (asc ''i'') True (mdb ex_memory)"
    by (intro scope_isolated [THEN conjunct2, THEN conjunct1] ex_memory_ok(1)) (simp add: ex_append_def)
  then show ?thesis by (simp add: memory_eval)
qed

text \<open>C27: Updates are not lost: when a replacement has succeeded, no other replacement that was decided on the
  same revision of the entry can succeed any more, however many calls come in between.\<close>

theorem stale_replace_fails:
  assumes "mem_ok env s" and "replace_memory env sc i a now s = (Inr e, s1)"
    and "ra_revision a' = Some m" and "m < me_revision e"
  shows "fst (replace_memory env sc' i a' now' (run_ops (memory_exec env) ops s1)) \<in>
    {Inl MmClosed, Inl MmValue, Inl MmNotFound, Inl MmConflict}"
proof -
  obtain f: "find_memory i (mdb s1) = Some e" and ok: "mem_ok env s1" using replace_memory_InrD [OF assms(2,1)] by metis
  have "revision_of s1 i = Some (me_revision e)" using f by (simp add: revision_of_def)
  from mem_life.run_status [OF ok this, of ops] obtain n where
    n: "revision_of (run_ops (memory_exec env) ops s1) i = Some n" "me_revision e \<le> n"
    using less_star by blast
  show ?thesis
    by (rule stale_revision_fails [OF mem.run_ok [OF ok] n(1) assms(3)]) (use n(2) assms(4) in simp)
qed

definition ex_revision :: "str \<Rightarrow> replace_args" where
  "ex_revision t = revision_args (ex_write t) 1 None"

lemma ex_replace_result:
  "\<exists>s1. replace_memory ex_memory_env ex_scope (asc ''i'') (ex_revision ''b'') 2 ex_stored =
     (Inr (ex_entry\<lparr>me_content := [98], me_updated := 2, me_revision := 2, me_hash := [117]\<rparr>), s1)"
  by (simp add: replace_memory_def replace_tx_def ex_stored_eq ex_revision_def revision_args_def check_expected_def
      replacement_write_def store_revision_def update_where_def replace_fts_def memory_eval)

lemma stale_replace_fails_witness:
  "\<exists>s1. fst (replace_memory ex_memory_env ex_scope (asc ''i'') (ex_revision ''b'') 2 ex_stored) =
        Inr (ex_entry\<lparr>me_content := [98], me_updated := 2, me_revision := 2, me_hash := [117]\<rparr>) \<and>
      fst (replace_memory ex_memory_env ex_scope (asc ''i'') (ex_revision ''c'') 3 s1) \<in>
        {Inl MmClosed, Inl MmValue, Inl MmNotFound, Inl MmConflict}"
proof -
  let ?e = "ex_entry\<lparr>me_content := [98], me_updated := 2, me_revision := 2, me_hash := [117]\<rparr>"
  obtain s1 where s1: "replace_memory ex_memory_env ex_scope (asc ''i'') (ex_revision ''b'') 2 ex_stored = (Inr ?e, s1)"
    using ex_replace_result by blast
  have "ra_revision (ex_revision ''c'') = Some 1" by (simp add: ex_revision_def revision_args_def)
  from stale_replace_fails [OF ex_stored_ok s1 this, of ex_scope 3 "[]"] s1 show ?thesis by auto
qed

lemma remove_again:
  assumes "mem_ok env s1" and "remove_memory sc i expected hash now s = (Inr e, s0)" and "mem_ok env s"
    and "find_memory i (mdb s1) = Some e"
  shows "remove_memory sc i expected' hash' now' s1 = ((if mclosed s1 then Inl MmClosed else Inr e), s1)"
proof -
  have e: "me_tombstoned e" "in_scope sc e" using remove_memory_InrD [OF assms(2,3)] by metis+
  have "\<not> list_ex (list_ex surrogate) (i # scope_texts sc)"
    using assms(2) by (auto simp: remove_memory_def remove_tx_def memory_transaction_def get_in_transaction_def binding_def
        split: if_splits sum.splits)
  moreover have "keyed me_id (memories (mdb s1))" using assms(1) by (auto simp: mem_ok_def dest: memory_okD)
  ultimately have "get_in_transaction sc i True (mdb s1) = Inr e"
    using get_in_transaction_found [OF _ assms(4) e(2)] by (simp add: binding_def)
  then show ?thesis using e(1) by (simp add: remove_memory_def remove_tx_def memory_transaction_def)
qed

lemma remove_elsewhere:
  assumes "mem_ok env s1" and "find_memory i (mdb s1) = Some e" and "\<not> in_scope sc e"
  shows "\<exists>err. remove_memory sc i expected hash now s1 = (Inl err, s1)"
proof (cases "remove_memory sc i expected hash now s1")
  case (Pair r s')
  show ?thesis
  proof (cases r)
    case (Inl err)
    then show ?thesis using Pair memory_transaction_InlD unfolding remove_memory_def by metis
  next
    case (Inr x)
    with Pair have "remove_memory sc i expected hash now s1 = (Inr x, s')" by simp
    from remove_memory_InrD [OF this assms(1)] assms(2,3) show ?thesis by (metis option.inject)
  qed
qed

lemma replace_error_keeps: "replace_memory env sc i a now s = (Inl err, s') \<Longrightarrow> s' = s"
  by (auto simp: replace_memory_def split: sum.splits if_splits option.splits dest: memory_transaction_InlD)

text \<open>C28: A tombstone is final: no sequence of calls brings a removed memory back or changes it, a
  replacement of it is refused and changes nothing, removing it again in its scope returns it unchanged
  and changes nothing (as long as the store is open), and removing it from another scope is refused.\<close>

theorem tombstone_final:
  assumes ok: "mem_ok env s" and rm: "remove_memory sc i expected hash now s = (Inr e, s1)"
    and s2: "s2 = run_ops (memory_exec env) ops s1"
  shows "find_memory i (mdb s2) = Some e \<and> me_tombstoned e \<and>
    (\<exists>err. replace_memory env sc' i a now' s2 = (Inl err, s2)) \<and>
    remove_memory sc i expected' hash' now' s2 = ((if mclosed s2 then Inl MmClosed else Inr e), s2) \<and>
    (\<not> in_scope sc' e \<longrightarrow> (\<exists>err. remove_memory sc' i expected' hash' now' s2 = (Inl err, s2)))"
proof -
  obtain ok1: "mem_ok env s1" and t: "me_tombstoned e" and f: "find_memory i (mdb s1) = Some e"
    using remove_memory_InrD [OF rm ok] by metis
  have ok2: "mem_ok env s2" and f2: "find_memory i (mdb s2) = Some e"
    unfolding s2 by (rule mem.run_ok [OF ok1], rule mem_tomb.run_frozen [OF ok1 f t])
  have "\<exists>err. replace_memory env sc' i a now' s2 = (Inl err, s2)"
  proof (cases "replace_memory env sc' i a now' s2")
    case (Pair r s3)
    then show ?thesis using replace_memory_InrD [OF _ ok2, of sc' i a now' _ s3] f2 t replace_error_keeps by (cases r) auto
  qed
  then show ?thesis using f2 t remove_again [OF ok2 rm ok f2] remove_elsewhere [OF ok2 f2] by blast
qed

lemma ex_remove_result:
  "\<exists>s1. remove_memory ex_scope (asc ''i'') (Some 1) None 2 ex_stored =
     (Inr (ex_entry\<lparr>me_updated := 2, me_revision := 2, me_tombstoned := True\<rparr>), s1)"
  by (simp add: remove_memory_def remove_tx_def ex_stored_eq check_expected_def store_revision_def update_where_def
      replace_fts_def memory_eval)

lemma tombstone_final_witness:
  "\<exists>s1. let e = ex_entry\<lparr>me_updated := 2, me_revision := 2, me_tombstoned := True\<rparr>;
      s2 = run_ops (memory_exec ex_memory_env) [MemReopen [] True, ex_append] s1 in
    remove_memory ex_scope (asc ''i'') (Some 1) None 2 ex_stored = (Inr e, s1) \<and>
    remove_memory ex_scope (asc ''i'') (Some 1) None 9 s2 = ((if mclosed s2 then Inl MmClosed else Inr e), s2)"
proof -
  let ?e = "ex_entry\<lparr>me_updated := 2, me_revision := 2, me_tombstoned := True\<rparr>"
  obtain s1 where s1: "remove_memory ex_scope (asc ''i'') (Some 1) None 2 ex_stored = (Inr ?e, s1)"
    using ex_remove_result by blast
  from tombstone_final [OF ex_stored_ok s1 refl, of "[MemReopen [] True, ex_append]"] s1 show ?thesis unfolding Let_def by blast
qed

text \<open>A batch is appended as a whole or not at all: after a failure the store is as before, after a
  success it has exactly the entries returned, in order, each with its first revision.\<close>

theorem append_many_atomic:
  assumes "memory_ok env (mdb s)" and "append_many env sc ws s = (r, s')"
  shows "case r of
      Inl e \<Rightarrow> s' = s
    | Inr es \<Rightarrow> length es = length ws \<and> memories (mdb s') = memories (mdb s) @ es \<and>
        revisions (mdb s') = revisions (mdb s) @ map (\<lambda>e. \<lparr>rv_entry = e, rv_operation = ''append''\<rparr>) es \<and>
        (\<forall>e \<in> set es. in_scope sc e \<and> me_revision e = 1 \<and> \<not> me_tombstoned e)"
proof (cases r)
  case (Inl e)
  then show ?thesis using memory_transaction_InlD assms(2) by (auto simp: append_many_def)
next
  case (Inr es)
  then have "append_all env (mconfig s) sc ws (mdb s) = Inr (es, mdb s')"
    using assms(2) memory_transaction_InrD(2) by (fastforce simp: append_many_def)
  from append_all_shape [OF this assms(1)] show ?thesis using Inr by simp
qed

lemma append_many_atomic_witness:
  "memories (mdb (snd (append_many ex_memory_env ex_scope [(ex_write ''a'', asc ''i'', 1)] ex_memory))) = [ex_entry]"
proof -
  obtain s' where s': "append_many ex_memory_env ex_scope [(ex_write ''a'', asc ''i'', 1)] ex_memory = (Inr [ex_entry], s')"
    by (simp add: append_many_def memory_eval)
  from append_many_atomic [OF ex_memory_ok(2) s'] show ?thesis using s' by (simp add: memory_eval)
qed

text \<open>Appending under a key is idempotent: once it has succeeded, a repetition with the same write, after
  any calls in between, returns the same entry as it then is and stores nothing; the key with another
  write is refused as a conflict.\<close>

theorem append_idempotent_replays:
  assumes ok: "mem_ok env s" and first: "append_idempotent env sc w key fresh now now2 s = (Inr e, s1)"
    and s2: "s2 = run_ops (memory_exec env) ops s1" "\<not> mclosed s2"
  shows "if write_identity env w' = write_identity env w
    then \<exists>x. append_idempotent env sc w' key fresh' now' now2' s2 = (Inr x, s2) \<and>
      find_memory (me_id e) (mdb s2) = Some x \<and> same_origin x e
    else append_idempotent env sc w' key fresh' now' now2' s2 = (Inl MmConflict, s2)"
proof -
  note d = append_idempotent_InrD [OF first ok]
  obtain row where row: "remembered s1 key = Some row" "ik_entry row = me_id e" "ik_profile row = sc_profile sc"
      "ik_subject row = sc_subject sc" "ik_hash row = write_identity env w" and key: "\<not> list_ex surrogate key"
    using d(1) by blast
  have "s1 = memory_exec env (MemAppendIdempotent sc w key fresh now now2) s" using first by simp
  then have ok1: "mem_ok env s1" using mem.exec_ok [OF ok] by metis
  then have ok2: "memory_ok env (mdb s2)" using mem.run_ok s2(1) by (simp add: mem_ok_def)
  have row2: "by_key ik_key key (idempotency (mdb s2)) = Some row"
    using mem_keys.run_frozen [OF ok1 row(1)] s2(1) by (simp add: remembered_def)
  have "entry_home s1 (me_id e) = Some (me_profile e, me_subject e, me_created e)" using d(3) by (simp add: entry_home_def)
  from mem_home.run_frozen [OF ok1 this, of ops] s2(1) obtain x where
    x: "find_memory (me_id e) (mdb s2) = Some x" "me_profile x = me_profile e" "me_subject x = me_subject e" "me_created x = me_created e"
    by (auto simp: entry_home_def)
  then have same: "same_origin x e" using find_memory_in by (fastforce simp: same_origin_def)
  have g: "get_in_transaction sc (me_id e) True (mdb s2) = binding (me_id e # scope_texts sc) (Inr x)"
    using get_in_transaction_found [OF memory_okD(1) [OF ok2] x(1)] d(2) same_origin_scope [OF same] by simp
  show ?thesis
    using g row row2 key d(4,5) s2(2) x(1) same
    by (auto simp: append_idempotent_def memory_transaction_def append_idempotent_tx_def binding_def)
qed

lemma ex_idempotent_result:
  "\<exists>s1. append_idempotent ex_memory_env ex_scope (ex_write ''a'') (asc ''k'') (asc ''i'') 1 1 ex_memory = (Inr ex_entry, s1) \<and>
     \<not> mclosed s1"
  by (simp add: append_idempotent_def append_idempotent_tx_def memory_eval)

lemma append_idempotent_replays_witness:
  "\<exists>s1. append_idempotent ex_memory_env ex_scope (ex_write ''a'') (asc ''k'') (asc ''i'') 1 1 ex_memory = (Inr ex_entry, s1) \<and>
     (\<exists>x. append_idempotent ex_memory_env ex_scope (ex_write ''a'') (asc ''k'') (asc ''j'') 2 2 s1 = (Inr x, s1) \<and>
        find_memory (asc ''i'') (mdb s1) = Some x)"
proof -
  obtain s1 where s1: "append_idempotent ex_memory_env ex_scope (ex_write ''a'') (asc ''k'') (asc ''i'') 1 1 ex_memory =
      (Inr ex_entry, s1)" "\<not> mclosed s1"
    using ex_idempotent_result by blast
  have "s1 = run_ops (memory_exec ex_memory_env) [] s1" by simp
  from append_idempotent_replays [OF ex_memory_ok(1) s1(1) this s1(2), of "ex_write ''a''" "asc ''j''" 2 2] s1(1)
  show ?thesis by (auto simp: ex_entry_def)
qed

text \<open>As long as the store is always opened with it, the full-text index is exactly the active entries that
  are not blocked: what a search can miss is only what was removed or flagged.\<close>

theorem index_matches_entries:
  assumes "mv_fts env" and "\<And>a. a \<in> set ops \<Longrightarrow> keeps_index env a"
  shows "set (fts (mdb (run_ops (memory_exec env) ops (open_memory env secrets True empty_memory_db)))) =
    fts_row_of ` {e \<in> set (memories (mdb (run_ops (memory_exec env) ops (open_memory env secrets True empty_memory_db)))).
      \<not> me_tombstoned e \<and> me_blocked e = None}"
proof -
  have start: "index_ok env (open_memory env secrets True empty_memory_db)"
    using assms(1)
    by (simp add: index_ok_def open_memory_def Let_def configured_memory_ok empty_memory_ok)
      (simp add: configure_fts_def index_exact_def empty_memory_db_def)
  have "run_ops (indexed_exec env) ops s = run_ops (memory_exec env) ops s" for s
    using assms(2) by (induction ops arbitrary: s) (simp_all add: indexed_exec_def)
  then have "index_ok env (run_ops (memory_exec env) ops (open_memory env secrets True empty_memory_db))"
    using mem_index.run_ok [OF start, of ops] by metis
  then show ?thesis by (simp add: index_ok_def index_exact_def searchable_def)
qed

lemma index_matches_entries_witness:
  "set (fts (mdb (run_ops (memory_exec ex_memory_env) [ex_append] (open_memory ex_memory_env [] True empty_memory_db)))) =
     fts_row_of ` {e \<in> set (memories (mdb (run_ops (memory_exec ex_memory_env) [ex_append]
       (open_memory ex_memory_env [] True empty_memory_db)))). \<not> me_tombstoned e \<and> me_blocked e = None}"
  by (rule index_matches_entries) (simp_all add: ex_memory_env_def ex_append_def)

end
