(* ===== verification/MemoryToolProperties.thy ===== *)
theory MemoryToolProperties
  imports MemoryProperties
begin

text \<open>The properties of what leaves the memory store, and of the tools with their reconciliation.\<close>

section \<open>Reads\<close>

text \<open>C29: Nothing unsafe leaves the store: every entry that a list, a recall or a session snapshot returns
  belongs to the scope, and its text is the fixed marker or has no injection pattern, no secret pattern
  and no secret configured by now, and matches its hash; a recall returns active entries and at most as
  many as asked.\<close>

theorem reads_are_safe:
  "(case list_memories env sc t n s of Inl err \<Rightarrow> True | Inr es \<Rightarrow>
      list_all (\<lambda>e. in_scope sc e \<and> outward_safe env (cf_secrets (mconfig s)) e) es) \<and>
   (case recall env rank q sc limit s of Inl err \<Rightarrow> True | Inr hits \<Rightarrow> length hits \<le> nat limit \<and>
      list_all (\<lambda>h. in_scope sc (mh_entry h) \<and> \<not> me_tombstoned (mh_entry h) \<and>
        outward_safe env (cf_secrets (mconfig s)) (mh_entry h)) hits) \<and>
   (case session_snapshot env sc chars tokens s of Inl err \<Rightarrow> True | Inr sn \<Rightarrow>
      list_all (\<lambda>e. in_scope sc e \<and> \<not> me_tombstoned e \<and> outward_safe env (cf_secrets (mconfig s)) e) (sn_entries sn))"
proof (intro conjI)
  let ?safe = "outward_safe env (cf_secrets (mconfig s))"
  have listed: "in_scope sc e \<and> (t' \<or> \<not> me_tombstoned e) \<and> ?safe e"
    if l: "list_memories env sc t' n' s = Inr es" and e: "e \<in> set es" for t' n' es e
    using list_memories_set [OF l e] safe_entry_safe by auto
  then show "case list_memories env sc t n s of Inl err \<Rightarrow> True | Inr es \<Rightarrow> list_all (\<lambda>e. in_scope sc e \<and> ?safe e) es"
    by (auto simp: list_all_iff split: sum.split)
  show "case recall env rank q sc limit s of Inl err \<Rightarrow> True | Inr hits \<Rightarrow> length hits \<le> nat limit \<and>
      list_all (\<lambda>h. in_scope sc (mh_entry h) \<and> \<not> me_tombstoned (mh_entry h) \<and> ?safe (mh_entry h)) hits"
    using recall_hits recall_length safe_entry_safe by (fastforce simp: list_all_iff split: sum.split)
  show "case session_snapshot env sc chars tokens s of Inl err \<Rightarrow> True | Inr sn \<Rightarrow>
      list_all (\<lambda>e. in_scope sc e \<and> \<not> me_tombstoned e \<and> ?safe e) (sn_entries sn)"
  proof (cases "session_snapshot env sc chars tokens s")
    case (Inr sn)
    then obtain es b where es: "list_memories env sc False None s = Inr es" "sn_entries sn = select_entries b 0 es"
      by (auto simp: session_snapshot_def Let_def split: if_splits sum.splits)
    have "set (sn_entries sn) \<subseteq> set es"
      unfolding es(2) using select_entries_subseq [of b 0 es] by (auto dest: list_emb_set)
    then have "list_all (\<lambda>e. in_scope sc e \<and> \<not> me_tombstoned e \<and> ?safe e) (sn_entries sn)"
      using listed [OF es(1)] by (auto simp: list_all_iff)
    then show ?thesis using Inr by simp
  qed simp
qed

text \<open>A session snapshot keeps its budget: it is a selection, in order, of the listed entries whose texts
  together are no longer than the character budget and four characters per token; when all entries fit
  together, it has all of them; its version is the generation it was taken at.\<close>

theorem snapshot_within_budget:
  assumes "session_snapshot env sc chars tokens s = Inr sn" and "list_memories env sc False None s = Inr es"
  shows "subseq (sn_entries sn) es \<and> content_size (sn_entries sn) \<le> chars \<and>
    (case tokens of None \<Rightarrow> True | Some n \<Rightarrow> content_size (sn_entries sn) \<le> 4 * n) \<and>
    (content_size es \<le> (case tokens of None \<Rightarrow> chars | Some n \<Rightarrow> min chars (4 * n)) \<longrightarrow> sn_entries sn = es) \<and>
    sn_version sn = generation (mdb s)"
proof -
  let ?b = "case tokens of None \<Rightarrow> chars | Some n \<Rightarrow> min chars (n * 4)"
  have sn: "sn_entries sn = select_entries ?b 0 es" "sn_version sn = generation (mdb s)" and b: "0 \<le> ?b"
    using assms by (auto simp: session_snapshot_def Let_def split: if_splits option.splits)
  have size: "content_size (sn_entries sn) \<le> ?b" unfolding sn(1) using select_entries_bound [OF b, of es] by simp
  have all: "content_size es \<le> ?b \<Longrightarrow> sn_entries sn = es" unfolding sn(1) using select_entries_all [of 0 es ?b] by simp
  have "subseq (sn_entries sn) es" unfolding sn(1) by (rule select_entries_subseq)
  then show ?thesis using size all sn(2) by (cases tokens) (simp_all add: mult.commute)
qed

lemma ex_listed: "list_memories ex_memory_env ex_scope False None ex_stored = Inr [ex_entry]"
  by (simp add: list_memories_def listed_def order_by_def safe_entry_def ex_stored_eq memory_eval)

lemma snapshot_within_budget_witness:
  "\<exists>sn. session_snapshot ex_memory_env ex_scope 5 (Some 2) ex_stored = Inr sn \<and> sn_entries sn = [ex_entry]"
proof -
  obtain sn where sn: "session_snapshot ex_memory_env ex_scope 5 (Some 2) ex_stored = Inr sn"
    by (simp add: session_snapshot_def ex_listed Let_def)
  have "content_size [ex_entry] \<le> 5" by (simp add: ex_entry_def asc_def)
  with snapshot_within_budget [OF sn ex_listed] sn show ?thesis by simp
qed

text \<open>The block with the first \<open>k\<close> entries, and what the budgets allow (four characters per token).\<close>

definition prompt_block :: "memory_env \<Rightarrow> ustr list \<Rightarrow> memory_snapshot \<Rightarrow> nat \<Rightarrow> ustr" where
  "prompt_block env secrets sn k =
     prompt_header env secrets sn @ concat (map (prompt_line env secrets) (take k (sn_entries sn))) @ prompt_footer"

definition prompt_allowed :: "int option \<Rightarrow> int option \<Rightarrow> ustr \<Rightarrow> bool" where
  "prompt_allowed chars tokens t \<longleftrightarrow>
     (case chars of None \<Rightarrow> True | Some b \<Rightarrow> int (length t) \<le> b) \<and> (case tokens of None \<Rightarrow> True | Some n \<Rightarrow> int (length t) \<le> 4 * n)"

lemma prompt_budget_fits: "prompt_budget chars tokens = Inr budget \<Longrightarrow> prompt_allowed chars tokens t \<longleftrightarrow> fits budget (length t)"
  by (auto simp: prompt_budget_def prompt_allowed_def fits_def Let_def split: option.splits if_splits)

text \<open>C30: The prompt block holds as many entries as the budgets allow and cannot be broken out of: when header and
  closing fence alone exceed a budget nothing is rendered; otherwise the header, one line for each entry
  of a prefix of the snapshot and the closing fence, within both budgets, where the prefix is the whole
  snapshot (as without a budget) or one more line would exceed a budget; and every line is a dash and
  printable ASCII characters, so no text of a memory can start a line.\<close>

theorem prompt_block_shape:
  assumes "render_prompt_context env secrets sn chars tokens = Inr t"
  shows "(if prompt_allowed chars tokens (prompt_block env secrets sn 0)
      then \<exists>k \<le> length (sn_entries sn). t = prompt_block env secrets sn k \<and> prompt_allowed chars tokens t \<and>
        (k = length (sn_entries sn) \<or> \<not> prompt_allowed chars tokens (prompt_block env secrets sn (Suc k)))
      else t = []) \<and>
    (\<forall>e. \<exists>p. prompt_line env secrets e = asc ''- '' @ p @ [10] \<and> list_all (\<lambda>c. 32 \<le> c \<and> c \<le> 126) p)"
proof -
  obtain budget where b: "prompt_budget chars tokens = Inr budget"
    using assms by (auto simp: render_prompt_context_def split: sum.splits)
  let ?used = "length (prompt_header env secrets sn) + length prompt_footer"
  let ?all = "prompt_header env secrets sn @ concat (prompt_lines env secrets budget ?used (sn_entries sn)) @ prompt_footer"
  have t: "t = (if fits budget (length ?all) then ?all else [])"
    using assms b by (auto simp: render_prompt_context_def Let_def fits_def split: option.splits)
  have size: "length (prompt_block env secrets sn k) = ?used + length (concat (map (prompt_line env secrets) (take k (sn_entries sn))))" for k
    by (simp add: prompt_block_def)
  have "if fits budget ?used then \<exists>k \<le> length (sn_entries sn). t = prompt_block env secrets sn k \<and> fits budget (length t) \<and>
        (k = length (sn_entries sn) \<or> \<not> fits budget (length (prompt_block env secrets sn (Suc k))))
      else t = []"
  proof (cases "fits budget ?used")
    case True
    obtain k where k: "k \<le> length (sn_entries sn)"
      "prompt_lines env secrets budget ?used (sn_entries sn) = map (prompt_line env secrets) (take k (sn_entries sn))"
      "fits budget (length (prompt_block env secrets sn k))"
      "k = length (sn_entries sn) \<or> \<not> fits budget (length (prompt_block env secrets sn (Suc k)))"
      using prompt_lines_greedy [OF True, of "sn_entries sn" env secrets] unfolding size by blast
    have "?all = prompt_block env secrets sn k" unfolding prompt_block_def k(2) ..
    with k(1,3,4) t True show ?thesis by auto
  next
    case False
    have "?used \<le> length ?all" by simp
    then show ?thesis using False t fits_mono [of budget "length ?all" ?used] by (auto split: if_splits)
  qed
  moreover have "\<exists>p. prompt_line env secrets e = asc ''- '' @ p @ [10] \<and> list_all (\<lambda>c. 32 \<le> c \<and> c \<le> 126) p" for e
    using payload_printable [of env secrets e] by (auto simp: prompt_line_def printable_def)
  moreover have "length (prompt_block env secrets sn 0) = ?used" by (simp add: size)
  ultimately show ?thesis unfolding prompt_budget_fits [OF b] by simp
qed

lemma prompt_block_shape_witness:
  "render_prompt_context ex_memory_env [] \<lparr>sn_version = 1, sn_hash = [], sn_entries = [ex_entry]\<rparr> None None =
     Inr (prompt_block ex_memory_env [] \<lparr>sn_version = 1, sn_hash = [], sn_entries = [ex_entry]\<rparr> 1)"
proof -
  let ?sn = "\<lparr>sn_version = 1, sn_hash = [], sn_entries = [ex_entry]\<rparr>"
  obtain t where t: "render_prompt_context ex_memory_env [] ?sn None None = Inr t"
    by (simp add: render_prompt_context_def prompt_budget_def Let_def)
  from prompt_block_shape [OF t] t show ?thesis by (auto simp: prompt_allowed_def)
qed

section \<open>Tools\<close>

text \<open>C31: Adding and reconciling agree: the reconciliation of an interrupted add answers already_applied exactly
  when executing the add would return that answer and store nothing, and it answers not_applied only when
  executing it would not find an equal memory.\<close>

theorem add_and_reconcile_agree:
  assumes "reconcile_add env sc args s = Inr r"
  shows "(case r of ResAlreadyApplied x \<Rightarrow> True | ResNotApplied None \<Rightarrow> True | _ \<Rightarrow> False) \<and>
    (tool_add env sc args fresh now s = (Inr r, s) \<longleftrightarrow> (\<exists>x. r = ResAlreadyApplied x)) \<and>
    (r = ResNotApplied None \<longrightarrow> (\<forall>x s'. tool_add env sc args fresh now s \<noteq> (Inr (ResAlreadyApplied x), s')))"
proof -
  obtain w where w: "write_from_arguments (mv_unicode env) args = Inr w"
    using assms by (auto simp: reconcile_add_def elim!: sum_bind_InrE)
  obtain digest where h: "memory_hash env (mw_content w) = Inr digest"
    using assms w by (auto simp: reconcile_add_def elim!: sum_bind_InrE)
  obtain existing where f: "find_by_hash sc digest s = Inr existing"
      "r = (case existing of None \<Rightarrow> ResNotApplied None | Some e \<Rightarrow> ResAlreadyApplied (entry_result e))"
    using assms w h by (auto simp: reconcile_add_def elim!: sum_bind_InrE)
  have e: "\<not> mclosed s" "existing = (case equal_active sc digest (mdb s) of [] \<Rightarrow> None | e # _ \<Rightarrow> Some e)"
    using f(1) by (auto simp: find_by_hash_def dest!: binding_InrD split: if_splits)
  have "\<not> list_ex (list_ex surrogate) (scope_texts sc)"
    using f(1) e(1) by (auto simp: find_by_hash_def binding_def split: if_splits)
  then show ?thesis
    using w h e f(2)
    by (cases "equal_active sc digest (mdb s)")
      (auto simp: tool_add_def append_reconciled_def memory_transaction_def binding_def split: sum.split)
qed

definition ex_args :: "str \<Rightarrow> tool_args" where
  "ex_args t = [''content'' \<mapsto> JText (asc t), ''id'' \<mapsto> JText (asc ''i''), ''expected_revision'' \<mapsto> JInteger 1]"

lemmas tool_eval = ex_args_def given_arg_def string_arg_def optional_string_arg_def integer_arg_def memory_kind_arg_def
  trust_level_arg_def write_from_arguments_def make_write_def reconcile_add_def find_by_hash_def equal_active_def order_by_def
  entry_result_def tool_revise_def revision_args_def get_memory_def check_expected_def replacement_write_def
  store_revision_def update_where_def replace_fts_def replace_memory_def replace_tx_def remove_memory_def remove_tx_def
  tool_remove_def

lemma ex_reconcile_add:
  "reconcile_add ex_memory_env ex_scope (ex_args ''a'') ex_stored = Inr (ResAlreadyApplied (entry_result ex_entry))"
  by (simp add: tool_eval ex_stored_eq memory_eval)

lemma add_and_reconcile_agree_witness:
  "tool_add ex_memory_env ex_scope (ex_args ''a'') (asc ''j'') 5 ex_stored =
     (Inr (ResAlreadyApplied (entry_result ex_entry)), ex_stored)"
  using add_and_reconcile_agree [OF ex_reconcile_add, of "asc ''j''" 5] by blast

text \<open>The handlers that applied something.\<close>

lemma write_from_arguments_content:
  "write_from_arguments uc args = Inr w \<Longrightarrow> string_arg uc args ''content'' = Inr (mw_content w)"
  by (auto simp: write_from_arguments_def make_write_def elim!: sum_bind_InrE split: if_splits)

lemma get_memory_InrD:
  "get_memory sc i t s = Inr e \<Longrightarrow> \<not> mclosed s \<and> \<not> list_ex (list_ex surrogate) (i # scope_texts sc)"
  by (auto simp: get_memory_def get_in_transaction_def binding_def split: if_splits)

lemma get_memory_found:
  assumes "mem_ok env s" and "\<not> mclosed s" and "find_memory i (mdb s) = Some e" and "in_scope sc e"
    and "\<not> list_ex (list_ex surrogate) (i # scope_texts sc)"
  shows "get_memory sc i True s = Inr e"
  using get_in_transaction_found [OF memory_okD(1) assms(3,4), of env True] assms(1,2,5)
  by (simp add: get_memory_def mem_ok_def binding_def)

lemma applied_addition:
  assumes "tool_add env sc args fresh now s = (Inr (ResApplied x), s')" and "mem_ok env s"
    and "\<And>t. \<not> list_ex surrogate (mv_digest env t)"
  shows "reconcile_add env sc args s' = Inr (ResAlreadyApplied x)"
proof -
  obtain w e where w: "write_from_arguments (mv_unicode env) args = Inr w" "x = entry_result e"
      "append_reconciled env sc w fresh now s = (Inr (e, True), s')"
    using assms(1) by (auto simp: tool_add_def split: sum.splits prod.splits if_splits)
  note c = append_reconciled_created [OF w(3) assms(2)]
  show ?thesis using w(1,2) c assms(3) by (simp add: reconcile_add_def find_by_hash_def binding_def)
qed

lemma applied_revision:
  assumes "tool_revise env sc args now others1 others2 s = (Inr (ResApplied x), s')" and "mem_ok env (others1 s)"
  shows "reconcile_revise env sc args s' = Inr (ResAlreadyApplied x)"
proof -
  obtain i w cur desired where pre: "string_arg (mv_unicode env) args ''id'' = Inr i"
      "write_from_arguments (mv_unicode env) args = Inr w" "get_memory sc i False s = Inr cur"
      "memory_hash env (mw_content w) = Inr desired" "me_hash cur \<noteq> desired"
    using assms(1) by (auto simp: tool_revise_def elim!: sum_bind_InrE split: sum.splits prod.splits if_splits)
  obtain n h where a: "integer_arg args ''expected_revision'' JNothing = Inr n" "optional_string_arg args ''expected_hash'' = Inr h"
    using assms(1) pre by (auto simp: tool_revise_def elim!: sum_bind_InrE split: sum.splits prod.splits if_splits)
  obtain e where e: "replace_memory env sc i (revision_args w n h) now (others1 s) = (Inr e, s')" "x = entry_result e"
    using assms(1) pre a
    by (auto simp: tool_revise_def revise_conflict_def split: sum.splits prod.splits if_splits)
  obtain cur' where r: "\<not> me_tombstoned e" "in_scope sc e" "find_memory i (mdb s') = Some e" "\<not> mclosed s'" "mem_ok env s'"
      "\<exists>v. replacement_write (mv_unicode env) cur' (revision_args w n h) = Inr v \<and> me_content e = mw_content v"
    using replace_memory_InrD [OF e(1) assms(2)] by metis
  have content: "me_content e = mw_content w"
    using r(6) by (auto simp: replacement_write_def revision_args_def split: if_splits)
  have "content_ok env e" using find_memory_ok(1) r(3,5) by (auto simp: mem_ok_def entry_ok_def)
  then have hash: "me_hash e = desired" using memory_hash_InrD [OF pre(4)] content by (simp add: content_ok_def)
  have "get_memory sc i True s' = Inr e" using get_memory_found [OF r(5,4,3,2)] get_memory_InrD [OF pre(3)] by blast
  then show ?thesis
    using pre(1,4) write_from_arguments_content [OF pre(2)] r(1) hash e(2) by (simp add: reconcile_revise_def)
qed

lemma applied_removal:
  assumes "tool_remove env sc args now others1 s = (Inr (ResApplied x), s')" and "mem_ok env (others1 s)"
  shows "reconcile_remove env sc args s' = Inr (ResAlreadyApplied x)"
proof -
  obtain i cur where pre: "string_arg (mv_unicode env) args ''id'' = Inr i" "get_memory sc i True s = Inr cur" "\<not> me_tombstoned cur"
    using assms(1) by (auto simp: tool_remove_def elim!: sum_bind_InrE split: sum.splits prod.splits if_splits)
  obtain n h where a: "integer_arg args ''expected_revision'' JNothing = Inr n" "optional_string_arg args ''expected_hash'' = Inr h"
    using assms(1) pre by (auto simp: tool_remove_def elim!: sum_bind_InrE split: sum.splits prod.splits if_splits)
  obtain e where e: "remove_memory sc i (Some n) h now (others1 s) = (Inr e, s')" "x = entry_result e"
    using assms(1) pre a by (auto simp: tool_remove_def split: sum.splits prod.splits if_splits)
  obtain r: "me_tombstoned e" "in_scope sc e" "find_memory i (mdb s') = Some e" "\<not> mclosed s'" "mem_ok env s'"
    using remove_memory_InrD [OF e(1) assms(2)] by metis
  have "get_memory sc i True s' = Inr e" using get_memory_found [OF r(5,4,3,2)] get_memory_InrD [OF pre(2)] by blast
  then show ?thesis using pre(1) r(1) e(2) by (simp add: reconcile_remove_def)
qed

text \<open>What was applied is found again: after an addition, a revision or a removal has been applied, the
  reconciliation of the same call answers already_applied with the facts the call itself returned, so
  a crash between the write and its receipt does not repeat the write; \<open>others1\<close> and \<open>others2\<close> are what
  other connections do between the calls of a handler.\<close>

theorem applied_is_reconciled:
  assumes "mem_ok env s" and "mem_ok env (others1 s)" and "\<And>t. \<not> list_ex surrogate (mv_digest env t)"
  shows "(case tool_add env sc args fresh now s of
      (Inr (ResApplied x), s') \<Rightarrow> reconcile_add env sc args s' = Inr (ResAlreadyApplied x) | _ \<Rightarrow> True) \<and>
    (case tool_revise env sc args now others1 others2 s of
      (Inr (ResApplied x), s') \<Rightarrow> reconcile_revise env sc args s' = Inr (ResAlreadyApplied x) | _ \<Rightarrow> True) \<and>
    (case tool_remove env sc args now others1 s of
      (Inr (ResApplied x), s') \<Rightarrow> reconcile_remove env sc args s' = Inr (ResAlreadyApplied x) | _ \<Rightarrow> True)"
  using applied_addition [OF _ assms(1,3)] applied_revision [of env sc args now others1 others2 s, OF _ assms(2)]
    applied_removal [of env sc args now others1 s, OF _ assms(2)]
  by (auto split: prod.split sum.split tool_result.split)

lemma ex_digests: "\<not> list_ex surrogate (mv_digest ex_memory_env t)"
proof -
  have "\<not> surrogate (97 + c mod 26)" for c :: nat
  proof -
    have "c mod 26 < 26" by simp
    then show ?thesis by (simp add: surrogate_def)
  qed
  then show ?thesis by (induction t) (simp_all add: ex_memory_env_def)
qed

lemma ex_tool_revise:
  "\<exists>s'. tool_revise ex_memory_env ex_scope (ex_args ''b'') 2 id id ex_stored =
     (Inr (ResApplied (entry_result (ex_entry\<lparr>me_content := [98], me_updated := 2, me_revision := 2, me_hash := [117]\<rparr>))), s')"
  by (simp add: tool_eval ex_stored_eq memory_eval)

lemma applied_is_reconciled_witness:
  "\<exists>x s'. tool_revise ex_memory_env ex_scope (ex_args ''b'') 2 id id ex_stored = (Inr (ResApplied x), s') \<and>
     reconcile_revise ex_memory_env ex_scope (ex_args ''b'') s' = Inr (ResAlreadyApplied x)"
proof -
  obtain x s' where r: "tool_revise ex_memory_env ex_scope (ex_args ''b'') 2 id id ex_stored = (Inr (ResApplied x), s')"
    using ex_tool_revise by blast
  have "mem_ok ex_memory_env (id ex_stored)" using ex_stored_ok by simp
  from applied_is_reconciled [of ex_memory_env ex_stored id ex_scope "ex_args ''b''" "[]" 2 id, OF ex_stored_ok this ex_digests] r
  show ?thesis by auto
qed

text \<open>
  A revision compares the text only: one that changes the kind, the trust level or the provenance of a
  memory and repeats its text answers already_applied without storing the change.
\<close>

theorem revise_drops_metadata:
  assumes "string_arg (mv_unicode env) args ''id'' = Inr i" and "write_from_arguments (mv_unicode env) args = Inr w"
    and "get_memory sc i False s = Inr cur" and "memory_hash env (mw_content w) = Inr (me_hash cur)"
  shows "tool_revise env sc args now others1 others2 s = (Inr (ResAlreadyApplied (entry_result cur)), s)"
  using assms by (simp add: tool_revise_def)

text \<open>
  The index is rebuilt only for entries it lacks, so a revision made while the store was opened
  without the index is never indexed: the row keeps the text of the old revision.
\<close>

lemma index_goes_stale:
  "let d = mdb (run_ops (memory_exec ex_memory_env) [MemReopen [] False,
        MemReplace ex_scope (asc ''i'') (ex_revision ''b'') 2, MemReopen [] True] ex_stored)
   in map me_content (memories d) = [asc ''b''] \<and> map ft_content (fts d) = [asc ''a'']"
  by (simp add: ex_revision_def tool_eval ex_stored_eq memory_eval)

end
