(* ===== verification/ToolRegistry.thy ===== *)
theory ToolRegistry
  imports Contracts Texts "HOL-Library.AList"
begin

text \<open>
  The tool registry of \<open>src/polaris/tools/registry.py\<close>: the copy of arguments and results into JSON
  values, tool entries and their validation, registration under a name and aliases, the
  availability cache, and the execution of a tool.  A Python dictionary is an association list in
  the order of insertion.  A handler is a function from its arguments to its result or exception;
  an availability check is known by its identity, and its outcome and the clock readings are
  arguments of the operations.
\<close>

section \<open>JSON values\<close>

datatype json_value =
    VNull | VBool bool | VInt int | VFloat rat | VText ustr
  | VList "json_value list" | VDict "(ustr \<times> json_value) list"

text \<open>An object that is passed as arguments or returned by a handler.\<close>

datatype py_key = KText ustr | KOther

datatype py_object =
    ONone | OBool bool | OInt int | OFloat rat | OText ustr
  | OList "py_object list" | ODict "(py_key \<times> py_object) list" | OOther

datatype tool_error =
    TeType | TeValue | TeRegistry | TeDuplicate | TeUnknown | TeUnavailable | TeTooLarge | TeHandler ustr

text \<open>\<open>_copy_json\<close>.\<close>

function copy_json :: "py_object \<Rightarrow> tool_error + json_value"
  and copy_items :: "py_object list \<Rightarrow> tool_error + json_value list"
  and copy_members :: "(py_key \<times> py_object) list \<Rightarrow> tool_error + (ustr \<times> json_value) list"
where
  "copy_json ONone = Inr VNull"
| "copy_json (OBool b) = Inr (VBool b)"
| "copy_json (OInt i) = Inr (VInt i)"
| "copy_json (OFloat r) = Inr (VFloat r)"
| "copy_json (OText t) = Inr (VText t)"
| "copy_json (OList xs) = map_sum id VList (copy_items xs)"
| "copy_json (ODict kvs) = map_sum id VDict (copy_members kvs)"
| "copy_json OOther = Inl TeType"
| "copy_items [] = Inr []"
| "copy_items (x # xs) =
     (case copy_json x of Inl e \<Rightarrow> Inl e | Inr v \<Rightarrow> map_sum id (\<lambda>vs. v # vs) (copy_items xs))"
| "copy_members [] = Inr []"
| "copy_members ((k, x) # kvs) =
     (case k of KOther \<Rightarrow> Inl TeType
      | KText t \<Rightarrow> (case copy_json x of Inl e \<Rightarrow> Inl e | Inr v \<Rightarrow> map_sum id (\<lambda>vs. (t, v) # vs) (copy_members kvs)))"
  by pat_completeness auto
termination
  by (relation "measure (\<lambda>x. case x of Inl p \<Rightarrow> size p
      | Inr y \<Rightarrow> (case y of Inl xs \<Rightarrow> size_list size xs | Inr kvs \<Rightarrow> size_list (size_prod (\<lambda>_. 0) size) kvs))")
    auto

text \<open>The text of \<open>json.dumps(value, ensure_ascii=False, separators=(",", ":"))\<close>.\<close>

definition dump_code :: "nat \<Rightarrow> ustr" where
  "dump_code c =
     (if c = 34 then [92, 34] else if c = 92 then [92, 92]
      else if c = 10 then [92, 110] else if c = 13 then [92, 114] else if c = 9 then [92, 116]
      else if c = 12 then [92, 102] else if c = 8 then [92, 98]
      else if c < 32 then [92, 117] @ hex4 c else [c])"

definition dump_text :: "ustr \<Rightarrow> ustr" where
  "dump_text t = [34] @ concat (map dump_code t) @ [34]"

fun join_codes :: "ustr \<Rightarrow> ustr list \<Rightarrow> ustr" where
  "join_codes sep [] = []"
| "join_codes sep [x] = x"
| "join_codes sep (x # y # ys) = x @ sep @ join_codes sep (y # ys)"

fun dump_json :: "codec \<Rightarrow> json_value \<Rightarrow> ustr" where
  "dump_json cd VNull = asc ''null''"
| "dump_json cd (VBool b) = asc (if b then ''true'' else ''false'')"
| "dump_json cd (VInt i) = int_text i"
| "dump_json cd (VFloat r) = asc (float_repr cd r)"
| "dump_json cd (VText t) = dump_text t"
| "dump_json cd (VList xs) = [91] @ join_codes [44] (map (dump_json cd) xs) @ [93]"
| "dump_json cd (VDict kvs) =
     [123] @ join_codes [44] (map (\<lambda>(k, t). dump_text k @ [58] @ t) (map (map_prod id (dump_json cd)) kvs)) @ [125]"

section \<open>Entries\<close>

datatype tool_safety = TsReadOnly | TsIdempotent | TsReconcilable | TsOpaque

type_synonym json_dict = "(ustr \<times> json_value) list"
type_synonym tool_handler = "json_dict \<Rightarrow> tool_error + py_object"

record tool_entry =
  te_name :: ustr
  te_toolset :: ustr
  te_schema :: json_dict
  te_handler :: tool_handler
  te_check :: "nat option"
  te_description :: ustr
  te_safety :: tool_safety
  te_reconcile :: "tool_handler option"
  te_max_size :: "int option"

text \<open>The constructor, with \<open>__post_init__\<close>.\<close>

definition make_entry ::
  "unicode \<Rightarrow> ustr \<Rightarrow> ustr \<Rightarrow> py_object \<Rightarrow> tool_handler \<Rightarrow> nat option \<Rightarrow> ustr \<Rightarrow> tool_safety \<Rightarrow>
   tool_handler option \<Rightarrow> int option \<Rightarrow> tool_error + tool_entry" where
  "make_entry uc name toolset schema handler check description safety reconcile limit =
     (if blank uc name \<or> blank uc toolset then Inl TeType
      else case copy_json schema of
        Inl e \<Rightarrow> Inl e
      | Inr (VDict members) \<Rightarrow>
          if safety = TsReconcilable \<and> reconcile = None then Inl TeValue
          else if (case limit of None \<Rightarrow> False | Some n \<Rightarrow> n \<le> 0) then Inl TeType
          else Inr \<lparr>te_name = name, te_toolset = toolset, te_schema = members, te_handler = handler,
            te_check = check, te_description = description, te_safety = safety, te_reconcile = reconcile,
            te_max_size = limit\<rparr>
      | Inr _ \<Rightarrow> Inl TeType)"

definition tool_entry_ok :: "unicode \<Rightarrow> tool_entry \<Rightarrow> bool" where
  "tool_entry_ok uc e \<longleftrightarrow> \<not> blank uc (te_name e) \<and> \<not> blank uc (te_toolset e) \<and>
     (te_safety e = TsReconcilable \<longrightarrow> te_reconcile e \<noteq> None) \<and>
     (case te_max_size e of None \<Rightarrow> True | Some n \<Rightarrow> 0 < n)"

section \<open>Registration\<close>

record registry =
  rg_entries :: "(ustr \<times> tool_entry) list"
  rg_aliases :: "(ustr \<times> ustr) list"
  rg_cache :: "nat \<Rightarrow> (rat \<times> bool) option"
  rg_good :: "nat \<Rightarrow> rat option"
  rg_ttl :: rat
  rg_grace :: rat
  rg_generation :: nat

definition new_registry :: "rat \<Rightarrow> rat \<Rightarrow> tool_error + registry" where
  "new_registry ttl grace =
     (if ttl < 0 \<or> grace < 0 then Inl TeValue
      else Inr \<lparr>rg_entries = [], rg_aliases = [], rg_cache = Map.empty, rg_good = Map.empty,
        rg_ttl = ttl, rg_grace = grace, rg_generation = 0\<rparr>)"

definition strip :: "unicode \<Rightarrow> ustr \<Rightarrow> ustr" where
  "strip uc t = List.rev (dropWhile (uc_space uc) (List.rev (dropWhile (uc_space uc) t)))"

definition tool_name :: "unicode \<Rightarrow> ustr \<Rightarrow> tool_error + ustr" where
  "tool_name uc value = (if blank uc value then Inl TeType else Inr (strip uc value))"

fun tool_names :: "unicode \<Rightarrow> ustr list \<Rightarrow> tool_error + ustr list" where
  "tool_names uc [] = Inr []"
| "tool_names uc (a # al) =
     (case tool_name uc a of Inl e \<Rightarrow> Inl e | Inr n \<Rightarrow> map_sum id (\<lambda>ns. n # ns) (tool_names uc al))"

abbreviation registered :: "registry \<Rightarrow> ustr \<Rightarrow> bool" where
  "registered r n \<equiv> map_of (rg_entries r) n \<noteq> None"

abbreviation aliased :: "registry \<Rightarrow> ustr \<Rightarrow> bool" where
  "aliased r n \<equiv> map_of (rg_aliases r) n \<noteq> None"

definition drop_aliases :: "ustr \<Rightarrow> registry \<Rightarrow> registry" where
  "drop_aliases canonical r =
     (if registered r canonical then r\<lparr>rg_aliases := filter (\<lambda>(a, t). t \<noteq> canonical) (rg_aliases r)\<rparr> else r)"

definition alias_refused :: "registry \<Rightarrow> ustr \<Rightarrow> ustr \<Rightarrow> bool" where
  "alias_refused r canonical a \<longleftrightarrow> (registered r a \<and> a \<noteq> canonical) \<or>
     (case map_of (rg_aliases r) a of None \<Rightarrow> False | Some t \<Rightarrow> t \<noteq> canonical)"

text \<open>The body under the lock; the old aliases are dropped before the new ones are checked.\<close>

definition register_locked ::
  "ustr \<Rightarrow> ustr list \<Rightarrow> bool \<Rightarrow> tool_entry \<Rightarrow> registry \<Rightarrow> (tool_error + tool_entry) \<times> registry" where
  "register_locked canonical names override e r =
     (if \<not> override \<and> list_ex (\<lambda>n. registered r n \<or> aliased r n) (canonical # names) then (Inl TeDuplicate, r)
      else if override \<and> aliased r canonical then (Inl TeDuplicate, r)
      else let r1 = drop_aliases canonical r in
        if list_ex (alias_refused r1 canonical) names then (Inl TeDuplicate, r1)
        else (Inr e, r1\<lparr>rg_entries := AList.update canonical e (rg_entries r1),
          rg_aliases := fold (\<lambda>a. AList.update a canonical) names (rg_aliases r1),
          rg_generation := rg_generation r1 + 1\<rparr>))"

definition register ::
  "unicode \<Rightarrow> tool_entry \<Rightarrow> ustr list \<Rightarrow> bool \<Rightarrow> registry \<Rightarrow> (tool_error + tool_entry) \<times> registry" where
  "register uc e names override r =
     (case tool_name uc (te_name e) of
        Inl x \<Rightarrow> (Inl x, r)
      | Inr canonical \<Rightarrow> (case tool_names uc names of
          Inl x \<Rightarrow> (Inl x, r)
        | Inr normalized \<Rightarrow>
            if canonical \<in> set normalized \<or> \<not> distinct normalized then (Inl TeDuplicate, r)
            else register_locked canonical normalized override e r))"

definition target_of :: "registry \<Rightarrow> ustr \<Rightarrow> ustr" where
  "target_of r n = (case map_of (rg_aliases r) n of None \<Rightarrow> n | Some t \<Rightarrow> t)"

definition register_alias :: "unicode \<Rightarrow> ustr \<Rightarrow> ustr \<Rightarrow> registry \<Rightarrow> (tool_error + unit) \<times> registry" where
  "register_alias uc a target r =
     (case tool_name uc a of
        Inl x \<Rightarrow> (Inl x, r)
      | Inr n \<Rightarrow>
          (let canonical = target_of r target in
           if \<not> registered r canonical then (Inl TeUnknown, r)
           else if registered r n \<or> aliased r n then (Inl TeDuplicate, r)
           else (Inr (), r\<lparr>rg_aliases := AList.update n canonical (rg_aliases r), rg_generation := rg_generation r + 1\<rparr>)))"

definition get_entry :: "registry \<Rightarrow> ustr \<Rightarrow> tool_error + tool_entry" where
  "get_entry r n = (case map_of (rg_entries r) (target_of r n) of None \<Rightarrow> Inl TeUnknown | Some e \<Rightarrow> Inr e)"

definition registered_names :: "registry \<Rightarrow> ustr list" where
  "registered_names r = sort (map fst (rg_entries r))"

text \<open>\<open>clone\<close>: a new registry that is filled again; the first refusal would end it.\<close>

fun register_all :: "unicode \<Rightarrow> tool_entry list \<Rightarrow> registry \<Rightarrow> tool_error + registry" where
  "register_all uc [] r = Inr r"
| "register_all uc (e # es) r =
     (case register uc e [] False r of (Inl x, _) \<Rightarrow> Inl x | (Inr _, r1) \<Rightarrow> register_all uc es r1)"

fun alias_all :: "unicode \<Rightarrow> (ustr \<times> ustr) list \<Rightarrow> registry \<Rightarrow> tool_error + registry" where
  "alias_all uc [] r = Inr r"
| "alias_all uc ((a, t) # al) r =
     (case register_alias uc a t r of (Inl x, _) \<Rightarrow> Inl x | (Inr _, r1) \<Rightarrow> alias_all uc al r1)"

definition clone :: "unicode \<Rightarrow> registry \<Rightarrow> tool_error + registry" where
  "clone uc r =
     (case new_registry (rg_ttl r) (rg_grace r) of
        Inl x \<Rightarrow> Inl x
      | Inr r0 \<Rightarrow> (case register_all uc (map snd (rg_entries r)) r0 of
          Inl x \<Rightarrow> Inl x | Inr r1 \<Rightarrow> alias_all uc (rg_aliases r) r1))"

section \<open>Availability\<close>

text \<open>\<open>_is_available\<close> takes the lock twice: to read the cache, and to record the outcome of the check.
  Other calls may run between the two.\<close>

definition cached_answer :: "rat \<Rightarrow> nat \<Rightarrow> registry \<Rightarrow> bool option" where
  "cached_answer now c r =
     (case rg_cache r c of None \<Rightarrow> None
      | Some (t, v) \<Rightarrow> if now - t < rg_ttl r then Some v else None)"

definition record_check :: "rat \<Rightarrow> nat \<Rightarrow> bool \<Rightarrow> registry \<Rightarrow> bool \<times> registry" where
  "record_check now c available r =
     (if available then (True, r\<lparr>rg_good := (rg_good r)(c \<mapsto> now), rg_cache := (rg_cache r)(c \<mapsto> (now, True))\<rparr>)
      else if (case rg_good r c of None \<Rightarrow> False | Some t \<Rightarrow> now - t < rg_grace r)
        then (True, r\<lparr>rg_cache := (rg_cache r)(c := None)\<rparr>)
      else (False, r\<lparr>rg_cache := (rg_cache r)(c \<mapsto> (now, False))\<rparr>))"

definition is_available :: "tool_entry \<Rightarrow> rat \<Rightarrow> bool \<Rightarrow> registry \<Rightarrow> bool \<times> registry" where
  "is_available e now outcome r =
     (case te_check e of None \<Rightarrow> (True, r)
      | Some c \<Rightarrow> (case cached_answer now c r of
          Some v \<Rightarrow> (v, r)
        | None \<Rightarrow> record_check now c outcome r))"

definition invalidate_checks :: "registry \<Rightarrow> registry" where
  "invalidate_checks r = r\<lparr>rg_cache := Map.empty, rg_good := Map.empty, rg_generation := rg_generation r + 1\<rparr>"

text \<open>\<open>get_definitions\<close>: the probe facts are the clock reading and the outcome for the i-th entry.\<close>

type_synonym probes = "nat \<Rightarrow> rat \<times> bool"

definition tool_definition :: "tool_entry \<Rightarrow> json_value" where
  "tool_definition e =
     (let function = AList.update (asc ''name'') (VText (te_name e)) (te_schema e);
          described = (if te_description e \<noteq> [] \<and> map_of function (asc ''description'') = None
            then AList.update (asc ''description'') (VText (te_description e)) function else function)
      in VDict [(asc ''type'', VText (asc ''function'')), (asc ''function'', VDict described)])"

fun list_definitions ::
  "(ustr \<Rightarrow> bool) \<Rightarrow> (ustr \<Rightarrow> bool) \<Rightarrow> probes \<Rightarrow> tool_entry list \<Rightarrow> registry \<Rightarrow> json_value list \<times> registry" where
  "list_definitions named inside p [] r = ([], r)"
| "list_definitions named inside p (e # es) r =
     (if \<not> named (te_name e) \<or> \<not> inside (te_toolset e) then list_definitions named inside (p \<circ> Suc) es r
      else (case is_available e (fst (p 0)) (snd (p 0)) r of (up, r1) \<Rightarrow>
        (case list_definitions named inside (p \<circ> Suc) es r1 of (ds, r2) \<Rightarrow>
          (if up then tool_definition e # ds else ds, r2))))"

definition get_definitions ::
  "ustr list option \<Rightarrow> ustr list option \<Rightarrow> probes \<Rightarrow> registry \<Rightarrow> json_value list \<times> registry" where
  "get_definitions selected toolsets p r =
     list_definitions
       (case selected of None \<Rightarrow> (\<lambda>_. True) | Some ns \<Rightarrow> (\<lambda>n. n \<in> target_of r ` set ns))
       (case toolsets of None \<Rightarrow> (\<lambda>_. True) | Some ts \<Rightarrow> (\<lambda>t. t \<in> set ts))
       p (sort_key te_name (map snd (rg_entries r))) r"

section \<open>Execution\<close>

definition execute ::
  "codec \<Rightarrow> ustr \<Rightarrow> py_object \<Rightarrow> rat \<Rightarrow> bool \<Rightarrow> registry \<Rightarrow> (tool_error + json_value) \<times> registry" where
  "execute cd n arguments now outcome r =
     (case get_entry r n of
        Inl x \<Rightarrow> (Inl x, r)
      | Inr e \<Rightarrow> (case copy_json arguments of
          Inl x \<Rightarrow> (Inl x, r)
        | Inr (VDict args) \<Rightarrow> (case is_available e now outcome r of
            (False, r1) \<Rightarrow> (Inl TeUnavailable, r1)
          | (True, r1) \<Rightarrow>
              (case te_handler e args of
                 Inl x \<Rightarrow> (Inl x, r1)
               | Inr result \<Rightarrow> (case copy_json result of
                   Inl x \<Rightarrow> (Inl x, r1)
                 | Inr v \<Rightarrow>
                     if (case te_max_size e of None \<Rightarrow> False | Some k \<Rightarrow> k < int (length (dump_json cd v)))
                     then (Inl TeTooLarge, r1) else (Inr v, r1))))
        | Inr _ \<Rightarrow> (Inl TeType, r)))"

definition reconcile :: "ustr \<Rightarrow> py_object \<Rightarrow> registry \<Rightarrow> tool_error + json_value" where
  "reconcile n arguments r =
     (case get_entry r n of
        Inl x \<Rightarrow> Inl x
      | Inr e \<Rightarrow> (case te_reconcile e of
          None \<Rightarrow> Inl TeRegistry
        | Some h \<Rightarrow> (case copy_json arguments of
            Inl x \<Rightarrow> Inl x
          | Inr (VDict args) \<Rightarrow> (case h args of Inl x \<Rightarrow> Inl x | Inr result \<Rightarrow> copy_json result)
          | Inr _ \<Rightarrow> Inl TeType)))"

end
