(* ===== verification/ToolRegistryMachine.thy ===== *)
theory ToolRegistryMachine
  imports ToolRegistry
begin

text \<open>
  The tool registry as a machine.  One operation is one block under the lock: a registration, an
  alias, the record of the outcome of an availability check, or the invalidation of the cache.  The
  calls that only use the registry (listing, execution) are sequences of these operations.
\<close>

datatype registry_op =
    Register tool_entry "ustr list" bool
  | RegisterAlias ustr ustr
  | RecordCheck rat nat bool
  | InvalidateChecks

text \<open>Only entries that the constructor accepts exist.\<close>

fun registry_exec :: "unicode \<Rightarrow> registry_op \<Rightarrow> registry \<Rightarrow> registry" where
  "registry_exec uc (Register e names override) r = (if tool_entry_ok uc e then snd (register uc e names override r) else r)"
| "registry_exec uc (RegisterAlias a target) r = snd (register_alias uc a target r)"
| "registry_exec uc (RecordCheck now c available) r = snd (record_check now c available r)"
| "registry_exec uc InvalidateChecks r = invalidate_checks r"

definition names_ok :: "unicode \<Rightarrow> registry \<Rightarrow> bool" where
  "names_ok uc r \<longleftrightarrow> distinct (map fst (rg_entries r)) \<and> distinct (map fst (rg_aliases r)) \<and>
     (\<forall>k e. map_of (rg_entries r) k = Some e \<longrightarrow> k = strip uc (te_name e) \<and> tool_entry_ok uc e) \<and>
     (\<forall>a t. map_of (rg_aliases r) a = Some t \<longrightarrow>
        registered r t \<and> \<not> registered r a \<and> \<not> blank uc a \<and> strip uc a = a)"

definition cache_ok :: "registry \<Rightarrow> bool" where
  "cache_ok r \<longleftrightarrow> 0 \<le> rg_ttl r \<and> 0 \<le> rg_grace r \<and> (\<forall>c t. rg_cache r c = Some (t, True) \<longrightarrow> rg_good r c = Some t)"

definition registry_ok :: "unicode \<Rightarrow> registry \<Rightarrow> bool" where
  "registry_ok uc r \<longleftrightarrow> names_ok uc r \<and> cache_ok r"

section \<open>Names\<close>

lemma dropWhile_rev_hd:
  "dropWhile P (List.rev (dropWhile P (List.rev (dropWhile P t)))) = List.rev (dropWhile P (List.rev (dropWhile P t)))"
proof (cases "dropWhile P t")
  case (Cons c u)
  then have "\<not> P c" by (simp add: dropWhile_eq_Cons_conv)
  then have "List.rev (dropWhile P (List.rev (c # u))) = c # List.rev (dropWhile P (List.rev u))"
    by (simp add: dropWhile_append)
  with Cons \<open>\<not> P c\<close> show ?thesis by simp
next
  case Nil
  then show ?thesis by (simp del: dropWhile_eq_Nil_conv)
qed

lemma strip_strip [simp]: "strip uc (strip uc t) = strip uc t"
  unfolding strip_def by (simp add: dropWhile_rev_hd)

lemma blank_strip [simp]: "blank uc (strip uc t) \<longleftrightarrow> blank uc t"
proof -
  have "list_all P (dropWhile P t) \<longleftrightarrow> list_all P t" for P :: "nat \<Rightarrow> bool" and t
    by (induction t) auto
  moreover have "list_all P (List.rev t) \<longleftrightarrow> list_all P t" for P :: "nat \<Rightarrow> bool" and t
    by (simp add: list_all_iff)
  ultimately show ?thesis by (simp add: blank_def strip_def)
qed

lemma tool_name_Inr: "tool_name uc a = Inr n \<longleftrightarrow> \<not> blank uc a \<and> n = strip uc a"
  by (auto simp: tool_name_def)

lemma tool_names_Inr:
  "tool_names uc al = Inr ns \<longleftrightarrow> (\<forall>a \<in> set al. \<not> blank uc a) \<and> ns = map (strip uc) al"
proof (induction al arbitrary: ns)
  case (Cons a al)
  then show ?case by (cases "tool_names uc al") (auto simp: tool_name_def)
qed auto

lemma registered_iff: "registered r n \<longleftrightarrow> n \<in> fst ` set (rg_entries r)"
  by (simp add: map_of_eq_None_iff)

lemma map_of_filter_target:
  "distinct (map fst al) \<Longrightarrow>
   map_of (filter (\<lambda>(a, t). P t) al) a = (case map_of al a of None \<Rightarrow> None | Some t \<Rightarrow> if P t then Some t else None)"
proof (induction al)
  case (Cons x al)
  have "map_of al (fst x) = None" using Cons.prems by (simp add: map_of_eq_None_iff)
  then show ?case using Cons by (cases x) (auto split: option.splits)
qed simp

lemma distinct_filter_keys: "distinct (map fst al) \<Longrightarrow> distinct (map fst (filter P al))"
  by (induction al) auto

lemma map_of_fold_update:
  "map_of (fold (\<lambda>a. AList.update a c) ns al) x = (if x \<in> set ns then Some c else map_of al x)"
  by (induction ns arbitrary: al) (auto simp: AList.update_conv')

lemma distinct_fold_update:
  "distinct (map fst al) \<Longrightarrow> distinct (map fst (fold (\<lambda>a. AList.update a c) ns al))"
  by (induction ns arbitrary: al) (auto intro: AList.distinct_update)

section \<open>The invariant\<close>

lemma new_registry_ok: "new_registry ttl grace = Inr r \<Longrightarrow> registry_ok uc r"
  by (auto simp: new_registry_def registry_ok_def names_ok_def cache_ok_def split: if_splits)

lemma drop_aliases_names: "names_ok uc r \<Longrightarrow> names_ok uc (drop_aliases c r)"
  by (auto simp: names_ok_def drop_aliases_def map_of_filter_target distinct_filter_keys simp del: map_of_eq_Some_iff
      split: option.splits if_splits)

lemma drop_aliases_simps [simp]:
  "rg_entries (drop_aliases c r) = rg_entries r" "rg_cache (drop_aliases c r) = rg_cache r"
  "rg_good (drop_aliases c r) = rg_good r" "rg_ttl (drop_aliases c r) = rg_ttl r"
  "rg_grace (drop_aliases c r) = rg_grace r" "rg_generation (drop_aliases c r) = rg_generation r"
  by (simp_all add: drop_aliases_def)

lemma drop_aliases_lookup:
  "names_ok uc r \<Longrightarrow> map_of (rg_aliases (drop_aliases c r)) a =
     (case map_of (rg_aliases r) a of None \<Rightarrow> None | Some t \<Rightarrow> if t \<noteq> c then Some t else None)"
  by (auto simp: names_ok_def drop_aliases_def map_of_filter_target split: option.splits)

definition stored_entry :: "ustr \<Rightarrow> ustr list \<Rightarrow> tool_entry \<Rightarrow> registry \<Rightarrow> registry" where
  "stored_entry c ns e r = r\<lparr>rg_entries := AList.update c e (rg_entries r),
     rg_aliases := fold (\<lambda>a. AList.update a c) ns (rg_aliases r), rg_generation := rg_generation r + 1\<rparr>"

text \<open>A registration is refused, possibly after the old aliases are gone, or it stores the entry.\<close>

lemma register_cases:
  assumes "register uc e al ov r = (res, r')"
  obtains (refused) x where "res = Inl x" "r' = r"
    | (dropped) "res = Inl TeDuplicate" "ov" "r' = drop_aliases (strip uc (te_name e)) r"
    | (stored) "res = Inr e" "\<not> blank uc (te_name e)" "\<And>a. a \<in> set al \<Longrightarrow> \<not> blank uc a"
        "strip uc (te_name e) \<notin> strip uc ` set al" "\<not> aliased r (strip uc (te_name e))"
        "\<And>a. a \<in> set al \<Longrightarrow> \<not> alias_refused (drop_aliases (strip uc (te_name e)) r) (strip uc (te_name e)) (strip uc a)"
        "r' = stored_entry (strip uc (te_name e)) (map (strip uc) al) e (drop_aliases (strip uc (te_name e)) r)"
proof -
  let ?c = "strip uc (te_name e)"
  show ?thesis
  proof (cases "tool_name uc (te_name e)")
    case (Inl x)
    then show ?thesis using assms by (intro refused [of x]) (simp_all add: register_def)
  next
    case c: (Inr c)
    show ?thesis
    proof (cases "tool_names uc al")
      case (Inl x)
      then show ?thesis using assms c by (intro refused [of x]) (simp_all add: register_def)
    next
      case ns: (Inr ns)
      show ?thesis
      proof (cases "?c \<in> set ns \<or> \<not> distinct ns")
        case True
        then show ?thesis using assms c ns by (intro refused [of TeDuplicate]) (auto simp: register_def tool_name_Inr)
      next
        case False
        have locked: "register_locked ?c ns ov e r = (res, r')"
          using assms c ns False by (simp add: register_def tool_name_Inr)
        have facts: "\<not> blank uc (te_name e)" "\<And>a. a \<in> set al \<Longrightarrow> \<not> blank uc a" "ns = map (strip uc) al"
          "?c \<notin> strip uc ` set al"
          using c ns False by (auto simp: tool_name_Inr tool_names_Inr)
        have cases: "(\<exists>x. res = Inl x) \<and> r' = r \<or> res = Inl TeDuplicate \<and> ov \<and> r' = drop_aliases ?c r \<or>
            res = Inr e \<and> \<not> aliased r ?c \<and> (\<forall>a \<in> set ns. \<not> alias_refused (drop_aliases ?c r) ?c a) \<and>
            r' = stored_entry ?c ns e (drop_aliases ?c r)"
          using locked
          by (auto simp: register_locked_def Let_def stored_entry_def list_ex_iff drop_aliases_def alias_refused_def
              split: if_splits)
        show ?thesis using cases facts refused dropped stored by auto
      qed
    qed
  qed
qed

lemma stored_entry_names:
  assumes "names_ok uc r" and "tool_entry_ok uc e" and "c = strip uc (te_name e)" and "\<not> aliased r c"
    and "\<And>a. a \<in> set ns \<Longrightarrow> \<not> registered r a \<and> \<not> blank uc a \<and> strip uc a = a" and "c \<notin> set ns"
  shows "names_ok uc (stored_entry c ns e r)"
  using assms unfolding names_ok_def stored_entry_def
  by (auto simp: AList.update_conv' map_of_fold_update simp del: map_of_eq_Some_iff intro: AList.distinct_update distinct_fold_update)

lemma register_names:
  assumes "names_ok uc r" and "tool_entry_ok uc e" and "register uc e al ov r = (res, r')"
  shows "names_ok uc r'"
  using assms(3)
proof (cases rule: register_cases)
  case stored
  let ?c = "strip uc (te_name e)"
  have free: "\<not> registered (drop_aliases ?c r) (strip uc a)" if "a \<in> set al" for a
  proof -
    have "strip uc a \<noteq> ?c" using stored(4) that by (metis imageI)
    then show ?thesis using stored(6) [OF that] by (simp add: alias_refused_def)
  qed
  have "\<not> aliased (drop_aliases ?c r) ?c"
    using stored(5) by (auto simp: drop_aliases_lookup [OF assms(1)])
  then show ?thesis
    unfolding stored(7) using assms(2) stored(3,4) free
    by (intro stored_entry_names drop_aliases_names assms(1)) auto
qed (use assms(1) in \<open>auto intro: drop_aliases_names\<close>)

lemma register_alias_names:
  "names_ok uc r \<Longrightarrow> names_ok uc (snd (register_alias uc a t r))"
  by (auto simp: register_alias_def Let_def names_ok_def tool_name_def AList.update_conv'
      simp del: map_of_eq_Some_iff intro: AList.distinct_update)

lemma names_frame:
  "rg_entries r' = rg_entries r \<Longrightarrow> rg_aliases r' = rg_aliases r \<Longrightarrow> names_ok uc r \<Longrightarrow> names_ok uc r'"
  unfolding names_ok_def by metis

lemma cache_frame:
  "rg_cache r' = rg_cache r \<Longrightarrow> rg_good r' = rg_good r \<Longrightarrow> rg_ttl r' = rg_ttl r \<Longrightarrow> rg_grace r' = rg_grace r \<Longrightarrow>
   cache_ok r \<Longrightarrow> cache_ok r'"
  by (simp add: cache_ok_def)

lemma record_check_tables [simp]:
  "rg_entries (snd (record_check now c v r)) = rg_entries r" "rg_aliases (snd (record_check now c v r)) = rg_aliases r"
  "rg_ttl (snd (record_check now c v r)) = rg_ttl r" "rg_grace (snd (record_check now c v r)) = rg_grace r"
  "rg_generation (snd (record_check now c v r)) = rg_generation r"
  by (auto simp: record_check_def split: option.splits)

lemma record_check_cache: "cache_ok r \<Longrightarrow> cache_ok (snd (record_check now c v r))"
  by (auto simp: record_check_def cache_ok_def split: option.splits if_splits)

lemma registry_exec_ok: "registry_ok uc r \<Longrightarrow> registry_ok uc (registry_exec uc a r)"
proof (cases a)
  case (Register e al ov)
  assume ok: "registry_ok uc r"
  obtain res r' where reg: "register uc e al ov r = (res, r')" by (cases "register uc e al ov r")
  have "cache_ok r'" using reg
    by (cases rule: register_cases) (use ok in \<open>auto simp: registry_ok_def stored_entry_def cache_ok_def\<close>)
  then show ?thesis using ok Register reg register_names by (auto simp: registry_ok_def)
next
  case (RegisterAlias a t)
  assume ok: "registry_ok uc r"
  have "cache_ok (snd (register_alias uc a t r))"
    using ok by (auto simp: register_alias_def Let_def registry_ok_def cache_ok_def split: sum.splits)
  then show ?thesis using ok RegisterAlias register_alias_names by (simp add: registry_ok_def)
next
  case (RecordCheck now c v)
  assume "registry_ok uc r"
  then show ?thesis using RecordCheck
    by (auto simp: registry_ok_def record_check_cache intro: names_frame [rotated 2])
next
  case InvalidateChecks
  assume "registry_ok uc r"
  then show ?thesis using InvalidateChecks by (auto simp: registry_ok_def invalidate_checks_def names_ok_def cache_ok_def)
qed

text \<open>The registry keeps its invariant, its generation only grows, and a registered name stays one.\<close>

interpretation reg: machine "registry_exec uc" "registry_ok uc" for uc
  by unfold_locales (rule registry_exec_ok)

lemma register_generation: "rg_generation r \<le> rg_generation (snd (register uc e al ov r))"
proof -
  obtain res r' where reg: "register uc e al ov r = (res, r')" by (cases "register uc e al ov r")
  then have "rg_generation r \<le> rg_generation r'" by (cases rule: register_cases) (auto simp: stored_entry_def)
  then show ?thesis using reg by simp
qed

interpretation reg_generation: lifecycle "registry_exec uc" "registry_ok uc"
    "\<lambda>r (_::unit). Some (rg_generation r)" "(<)" for uc
proof unfold_locales
  fix r :: registry and a x
  assume x: "Some (rg_generation r) = Some x"
  have "rg_generation r \<le> rg_generation (registry_exec uc a r)"
    by (cases a) (auto simp: register_generation register_alias_def Let_def invalidate_checks_def split: sum.splits)
  then show "\<exists>y. Some (rg_generation (registry_exec uc a r)) = Some y \<and> (x = y \<or> x < y)"
    using x by auto
qed

interpretation reg_names: freezing "registry_exec uc" "registry_ok uc"
    "\<lambda>r n. if registered r n then Some () else None" "\<lambda>_. True" for uc
proof unfold_locales
  fix r :: registry and n u a
  assume "(if registered r n then Some () else None) = Some u"
  then have "registered r n" by (auto split: if_splits)
  moreover have "registered (snd (register uc e al ov r)) n" if "registered r n" for e al ov
  proof -
    obtain res r' where reg: "register uc e al ov r = (res, r')" by (cases "register uc e al ov r")
    then have "registered r' n"
      by (cases rule: register_cases) (use that in \<open>auto simp: stored_entry_def AList.update_conv'\<close>)
    then show ?thesis using reg by simp
  qed
  ultimately have "registered (registry_exec uc a r) n"
    by (cases a) (auto simp: register_alias_def Let_def invalidate_checks_def split: sum.splits)
  then show "(if registered (registry_exec uc a r) n then Some () else None) = Some u" by simp
qed

end
