(* ===== verification/Evidence.thy ===== *)
theory Evidence
  imports Contracts
begin

text \<open>
  The contract of a store that records facts about the outside world: a fact is only recorded by an
  operation that proves it, and it is gone after an operation that revokes it.
\<close>

locale evidence = machine +
  fixes recorded :: "'s \<Rightarrow> 'f \<Rightarrow> bool"
    and proves :: "'op \<Rightarrow> 'f \<Rightarrow> bool"
    and revokes :: "'op \<Rightarrow> 'f \<Rightarrow> bool"
  assumes exec_recorded: "ok s \<Longrightarrow> recorded (exec a s) f \<Longrightarrow> proves a f \<or> (recorded s f \<and> \<not> revokes a f)"
begin

text \<open>What is recorded after a run was proved in it, and nothing since then revoked it.\<close>

lemma run_recorded:
  "ok s \<Longrightarrow> recorded (run_ops exec ops s) f \<Longrightarrow>
   (recorded s f \<and> (\<forall>b \<in> set ops. \<not> revokes b f)) \<or>
   (\<exists>ps a qs. ops = ps @ a # qs \<and> proves a f \<and> (\<forall>b \<in> set qs. \<not> revokes b f))"
proof (induction ops arbitrary: s)
  case (Cons a ops)
  have "(recorded (exec a s) f \<and> (\<forall>b \<in> set ops. \<not> revokes b f)) \<or>
     (\<exists>ps c qs. ops = ps @ c # qs \<and> proves c f \<and> (\<forall>b \<in> set qs. \<not> revokes b f))"
    using Cons exec_ok by simp
  then show ?case
  proof
    assume now: "recorded (exec a s) f \<and> (\<forall>b \<in> set ops. \<not> revokes b f)"
    with exec_recorded Cons.prems(1) consider "proves a f" | "recorded s f" "\<not> revokes a f" by blast
    then show ?thesis
    proof cases
      case 1
      with now show ?thesis by (intro disjI2 exI [of _ "[]"]) auto
    qed (use now in auto)
  next
    assume "\<exists>ps c qs. ops = ps @ c # qs \<and> proves c f \<and> (\<forall>b \<in> set qs. \<not> revokes b f)"
    then obtain ps c qs where "ops = ps @ c # qs" "proves c f" "\<forall>b \<in> set qs. \<not> revokes b f" by blast
    then show ?thesis by (intro disjI2 exI [of _ "a # ps"]) auto
  qed
qed simp

lemma run_recorded_new:
  assumes "ok s" and "recorded (run_ops exec ops s) f" and "\<not> recorded s f"
  obtains ps a qs where "ops = ps @ a # qs" "proves a f" "\<And>b. b \<in> set qs \<Longrightarrow> \<not> revokes b f"
  using run_recorded [OF assms(1,2)] assms(3) by blast

end

end
