(* ===== verification/ToolRegistryProperties.thy ===== *)
theory ToolRegistryProperties
  imports ToolRegistryMachine Evidence
begin

text \<open>
  The properties of the tool registry: what a name resolves to, how recent an answer about
  availability is, what a clone holds, and what reaches a handler and what leaves it.
\<close>

lemma registry_run_ok:
  "new_registry ttl grace = Inr r0 \<Longrightarrow> registry_ok uc (run_ops (registry_exec uc) ops r0)"
  by (intro reg.run_ok new_registry_ok)

section \<open>JSON copies\<close>

text \<open>The Python object that a JSON value is.\<close>

fun json_object :: "json_value \<Rightarrow> py_object" where
  "json_object VNull = ONone"
| "json_object (VBool b) = OBool b"
| "json_object (VInt i) = OInt i"
| "json_object (VFloat r) = OFloat r"
| "json_object (VText t) = OText t"
| "json_object (VList vs) = OList (map json_object vs)"
| "json_object (VDict kvs) = ODict (map (\<lambda>(k, x). (KText k, x)) (map (map_prod id json_object) kvs))"

lemma copy_sound:
  "copy_json x = Inr v \<Longrightarrow> x = json_object v"
  "copy_items xs = Inr vs \<Longrightarrow> xs = map json_object vs"
  "copy_members kxs = Inr kvs \<Longrightarrow> kxs = map (\<lambda>(k, v). (KText k, json_object v)) kvs"
  by (induction x and xs and kxs arbitrary: v and vs and kvs rule: copy_json_copy_items_copy_members.induct)
    (auto simp: map_sum_def case_prod_beta split: sum.splits py_key.splits)

lemma copy_items_map:
  "(\<And>v. v \<in> set vs \<Longrightarrow> copy_json (f v) = Inr v) \<Longrightarrow> copy_items (map f vs) = Inr vs"
  by (induction vs) auto

lemma copy_members_map:
  "(\<And>kv. kv \<in> set kvs \<Longrightarrow> copy_json (f (snd kv)) = Inr (snd kv)) \<Longrightarrow>
   copy_members (map (\<lambda>(k, x). (KText k, x)) (map (map_prod id f) kvs)) = Inr kvs"
proof (induction kvs)
  case (Cons kv kvs)
  have "copy_json (f (snd kv)) = Inr (snd kv)" by (rule Cons.prems) simp
  with Cons show ?case by (cases kv) simp
qed simp

lemma copy_complete: "copy_json (json_object v) = Inr v"
proof (induction v)
  case (VList vs)
  then show ?case by (simp add: copy_items_map)
next
  case (VDict kvs)
  have "copy_json (json_object (snd kv)) = Inr (snd kv)" if "kv \<in> set kvs" for kv
    using VDict [OF that, of "snd kv"] by (cases kv) simp
  then have "copy_members (map (\<lambda>(k, x). (KText k, x)) (map (map_prod id json_object) kvs)) = Inr kvs"
    by (rule copy_members_map)
  then show ?case by simp
qed auto

text \<open>
  The copy of arguments and results accepts exactly the objects that are JSON values, and returns
  that very value: a copy that succeeds changes nothing, and an object with anything else inside it
  (a key that is not a string, an object of another type) is refused at whatever depth it stands.
\<close>

theorem copy_json_exact: "copy_json x = Inr v \<longleftrightarrow> x = json_object v"
  using copy_sound(1) copy_complete by blast

section \<open>Names\<close>

text \<open>
  In every registry that operations can reach, tool names and aliases are two disjoint sets of
  trimmed, non-blank names; every alias leads to a tool; every entry stands under its own trimmed
  name and satisfies the rules of its constructor; and the cache calls a tool available only with
  the matching last success.
\<close>

theorem registry_invariant:
  assumes "new_registry ttl grace = Inr r0"
  shows "registry_ok uc (run_ops (registry_exec uc) ops r0)"
  using assms by (rule registry_run_ok)

definition sample_unicode :: unicode where
  "sample_unicode = \<lparr>uc_space = (\<lambda>c. c = 32), uc_word = (\<lambda>c. 97 \<le> c \<and> c \<le> 122), uc_same = (=), uc_casefold = id\<rparr>"

definition sample_tool :: "ustr \<Rightarrow> tool_entry" where
  "sample_tool n = \<lparr>te_name = n, te_toolset = [116], te_schema = [], te_handler = (\<lambda>args. Inr (OInt (int (length args)))),
     te_check = Some 0, te_description = [], te_safety = TsReadOnly, te_reconcile = None, te_max_size = Some 8\<rparr>"

abbreviation sample_registry :: registry where
  "sample_registry \<equiv> \<lparr>rg_entries = [], rg_aliases = [], rg_cache = Map.empty, rg_good = Map.empty,
     rg_ttl = 30, rg_grace = 60, rg_generation = 0\<rparr>"

lemma new_sample: "new_registry 30 60 = Inr sample_registry"
  by (simp add: new_registry_def)

definition sample_registrations :: "registry_op list" where
  "sample_registrations = [Register (sample_tool [97]) [[98]] False, Register (sample_tool [99]) [] False]"

lemmas sample_registry_defs = sample_registrations_def sample_tool_def sample_unicode_def tool_entry_ok_def blank_def
  register_def tool_name_def strip_def register_locked_def drop_aliases_def alias_refused_def Let_def

lemma sample_registered:
  "run_ops (registry_exec sample_unicode) sample_registrations sample_registry =
     sample_registry\<lparr>rg_entries := [([97], sample_tool [97]), ([99], sample_tool [99])],
       rg_aliases := [([98], [97])], rg_generation := 2\<rparr>"
  by (simp add: sample_registry_defs)

theorem registry_invariant_witness:
  "registry_ok sample_unicode (run_ops (registry_exec sample_unicode) sample_registrations sample_registry)"
  by (rule registry_invariant [OF new_sample])

lemma target_registered:
  assumes "names_ok uc r" and "registered r n"
  shows "target_of r n = n"
  using assms unfolding names_ok_def target_of_def by (cases "map_of (rg_aliases r) n") auto

text \<open>
  A successful registration makes the tool the answer for its trimmed name and for each of its
  aliases; an alias the tool had before and does not get again becomes unknown; every other name
  resolves as before.
\<close>

theorem register_resolves:
  assumes "new_registry ttl grace = Inr r0" and "r = run_ops (registry_exec uc) ops r0"
    and "register uc e al ov r = (Inr e', r')"
  shows "get_entry r' n =
     (if n = strip uc (te_name e) \<or> n \<in> strip uc ` set al then Inr e
      else if map_of (rg_aliases r) n = Some (strip uc (te_name e)) then Inl TeUnknown
      else get_entry r n)"
proof -
  let ?c = "strip uc (te_name e)"
  have ok: "names_ok uc r" using registry_run_ok [OF assms(1)] assms(2) by (simp add: registry_ok_def)
  from assms(3) show ?thesis
  proof (cases rule: register_cases)
    case stored
    have entries: "map_of (rg_entries r') = (map_of (rg_entries r))(?c \<mapsto> e)"
      by (simp add: stored(7) stored_entry_def AList.update_conv')
    have aliases: "map_of (rg_aliases r') m = (if m \<in> strip uc ` set al then Some ?c
        else case map_of (rg_aliases r) m of None \<Rightarrow> None | Some t \<Rightarrow> if t \<noteq> ?c then Some t else None)" for m
      by (simp add: stored(7) stored_entry_def map_of_fold_update drop_aliases_lookup [OF ok])
    have "registered r t" "\<not> registered r a" if "map_of (rg_aliases r) a = Some t" for a t
      using ok that by (auto simp: names_ok_def simp del: map_of_eq_Some_iff)
    then show ?thesis using stored(4,5)
      by (auto simp: get_entry_def target_of_def entries aliases split: option.splits simp del: map_of_eq_Some_iff)
  qed auto
qed

theorem register_resolves_witness:
  "case register sample_unicode (sample_tool [97]) [[100]] True
       (run_ops (registry_exec sample_unicode) sample_registrations sample_registry) of
     (Inl x, r') \<Rightarrow> False
   | (Inr e', r') \<Rightarrow> get_entry r' [98] = Inl TeUnknown \<and> get_entry r' [100] = Inr (sample_tool [97])"
proof -
  let ?r = "run_ops (registry_exec sample_unicode) sample_registrations sample_registry"
  have "\<exists>r'. register sample_unicode (sample_tool [97]) [[100]] True ?r = (Inr (sample_tool [97]), r')"
    unfolding sample_registered by (simp add: sample_registry_defs)
  then obtain r' where r': "register sample_unicode (sample_tool [97]) [[100]] True ?r = (Inr (sample_tool [97]), r')" ..
  have name: "te_name (sample_tool [97]) = [97]" "strip sample_unicode [97] = [97]" "strip sample_unicode [100] = [100]"
    by (simp_all add: sample_registry_defs)
  show ?thesis
    using register_resolves [OF new_sample refl r', of "[98]"] register_resolves [OF new_sample refl r', of "[100]"]
    unfolding r' by (simp add: name sample_registered)
qed

text \<open>
  A registration that does not override and is refused leaves the registry as it was.
\<close>

theorem refused_registration_unchanged:
  assumes "register uc e al False r = (Inl x, r')"
  shows "r' = r"
  using assms by (cases rule: register_cases) auto

theorem refused_registration_unchanged_witness:
  "\<exists>x. register sample_unicode (sample_tool [98]) [] False
     (run_ops (registry_exec sample_unicode) sample_registrations sample_registry) =
     (Inl x, run_ops (registry_exec sample_unicode) sample_registrations sample_registry)"
proof -
  let ?r = "run_ops (registry_exec sample_unicode) sample_registrations sample_registry"
  obtain r' where r': "register sample_unicode (sample_tool [98]) [] False ?r = (Inl TeDuplicate, r')"
    unfolding sample_registered by (simp add: sample_registry_defs)
  show ?thesis using refused_registration_unchanged [OF r'] r' by blast
qed

text \<open>
  A refused override is not without effect: the tool loses its aliases, and the generation by which
  clients notice a change stays the same.
\<close>

theorem refused_override_drops_aliases:
  "case run_ops (registry_exec sample_unicode) sample_registrations sample_registry of r \<Rightarrow>
   (case register sample_unicode (sample_tool [97]) [[99]] True r of (res, r') \<Rightarrow>
      res = Inl TeDuplicate \<and> get_entry r [98] = Inr (sample_tool [97]) \<and> get_entry r' [98] = Inl TeUnknown \<and>
      rg_generation r' = rg_generation r)"
  unfolding sample_registered by (simp add: sample_registry_defs get_entry_def target_of_def)

text \<open>An entry whose name has spaces around it is registered without them, and a selection by that name
  misses it.\<close>

theorem padded_name_not_listed:
  "case register sample_unicode (sample_tool [32, 97]) [] False sample_registry of (res, r') \<Rightarrow>
     get_entry r' [97] = Inr (sample_tool [32, 97]) \<and> get_entry r' [32, 97] = Inl TeUnknown \<and>
     fst (get_definitions (Some [[97]]) None (\<lambda>_. (0, True)) r') = []"
  by (simp add: sample_registry_defs get_entry_def target_of_def get_definitions_def)

section \<open>Clones\<close>

lemma register_fresh:
  assumes "\<not> blank uc (te_name e)" and "\<not> registered r (strip uc (te_name e))" and "rg_aliases r = []"
  shows "register uc e [] False r =
     (Inr e, r\<lparr>rg_entries := rg_entries r @ [(strip uc (te_name e), e)], rg_generation := rg_generation r + 1\<rparr>)"
proof -
  have "AList.update k v kvs = kvs @ [(k, v)]" if "k \<notin> fst ` set kvs" for k :: ustr and v :: tool_entry and kvs
    using that by (induction kvs) auto
  then show ?thesis using assms
    by (simp add: register_def register_locked_def tool_name_def Let_def drop_aliases_def map_of_eq_None_iff)
qed

lemma register_all_fresh:
  assumes "distinct (map fst (rg_entries r) @ map (strip uc \<circ> te_name) es)" and "rg_aliases r = []"
    and "\<And>e. e \<in> set es \<Longrightarrow> \<not> blank uc (te_name e)"
  shows "register_all uc es r =
     Inr (r\<lparr>rg_entries := rg_entries r @ map (\<lambda>e. (strip uc (te_name e), e)) es, rg_generation := rg_generation r + length es\<rparr>)"
  using assms
proof (induction es arbitrary: r)
  case (Cons e es)
  have "\<not> registered r (strip uc (te_name e))" using Cons.prems(1) by (auto simp: map_of_eq_None_iff)
  then show ?case using Cons by (simp add: register_fresh)
qed simp

lemma alias_all_fresh:
  assumes "distinct (map fst (rg_aliases r @ al))"
    and "\<And>a t. (a, t) \<in> set (rg_aliases r @ al) \<Longrightarrow> registered r t \<and> \<not> registered r a \<and> \<not> blank uc a \<and> strip uc a = a"
  shows "alias_all uc al r = Inr (r\<lparr>rg_aliases := rg_aliases r @ al, rg_generation := rg_generation r + length al\<rparr>)"
  using assms
proof (induction al arbitrary: r)
  case (Cons x al)
  obtain a t where x: "x = (a, t)" by (cases x)
  have facts: "registered r t" "\<not> registered r a" "\<not> blank uc a" "strip uc a = a" "a \<notin> fst ` set (rg_aliases r)"
    using Cons.prems by (auto simp: x simp del: map_of_eq_Some_iff)
  have "map_of (rg_aliases r) t = None"
  proof (rule ccontr)
    assume "map_of (rg_aliases r) t \<noteq> None"
    then obtain u where "map_of (rg_aliases r) t = Some u" by blast
    then have "(t, u) \<in> set (rg_aliases r)" by (rule map_of_SomeD)
    then show False using Cons.prems(2) [of t u] facts(1) by simp
  qed
  then have target: "target_of r t = t" by (simp add: target_of_def)
  have "AList.update k v kvs = kvs @ [(k, v)]" if "k \<notin> fst ` set kvs" for k v :: ustr and kvs
    using that by (induction kvs) auto
  then have one: "register_alias uc a t r = (Inr (), r\<lparr>rg_aliases := rg_aliases r @ [(a, t)], rg_generation := rg_generation r + 1\<rparr>)"
    using facts target by (simp add: register_alias_def tool_name_def Let_def map_of_eq_None_iff)
  let ?r = "r\<lparr>rg_aliases := rg_aliases r @ [(a, t)], rg_generation := rg_generation r + 1\<rparr>"
  have "alias_all uc al ?r = Inr (?r\<lparr>rg_aliases := rg_aliases ?r @ al, rg_generation := rg_generation ?r + length al\<rparr>)"
    by (rule Cons.IH) (use Cons.prems x in auto)
  then show ?case by (simp add: x one)
qed simp

text \<open>
  A clone is never refused: it holds the same entries and the same aliases in the same order under
  the same cache durations, so that every name resolves as in the original, and it starts without
  any availability answers.
\<close>

theorem clone_same:
  assumes "new_registry ttl grace = Inr r0" and "r = run_ops (registry_exec uc) ops r0"
  shows "clone uc r = Inr (r\<lparr>rg_cache := Map.empty, rg_good := Map.empty,
     rg_generation := length (rg_entries r) + length (rg_aliases r)\<rparr>)"
proof -
  have ok: "names_ok uc r" "cache_ok r" using registry_run_ok [OF assms(1)] assms(2) by (auto simp: registry_ok_def)
  let ?r0 = "\<lparr>rg_entries = [], rg_aliases = [], rg_cache = Map.empty, rg_good = Map.empty,
        rg_ttl = rg_ttl r, rg_grace = rg_grace r, rg_generation = 0\<rparr>"
  have entry: "fst ke = strip uc (te_name (snd ke))" "\<not> blank uc (te_name (snd ke))" if "ke \<in> set (rg_entries r)" for ke
  proof -
    have "map_of (rg_entries r) (fst ke) = Some (snd ke)" using ok(1) that by (simp add: names_ok_def)
    then have "fst ke = strip uc (te_name (snd ke)) \<and> tool_entry_ok uc (snd ke)"
      using ok(1) unfolding names_ok_def by blast
    then show "fst ke = strip uc (te_name (snd ke))" "\<not> blank uc (te_name (snd ke))" by (auto simp: tool_entry_ok_def)
  qed
  have keys: "map (strip uc \<circ> te_name) (map snd (rg_entries r)) = map fst (rg_entries r)"
    "map (\<lambda>e. (strip uc (te_name e), e)) (map snd (rg_entries r)) = rg_entries r"
    using entry(1) by (auto simp: map_idI prod_eq_iff)
  let ?r1 = "?r0\<lparr>rg_entries := rg_entries r, rg_generation := length (rg_entries r)\<rparr>"
  have "register_all uc (map snd (rg_entries r)) ?r0 =
      Inr (?r0\<lparr>rg_entries := rg_entries ?r0 @ map (\<lambda>e. (strip uc (te_name e), e)) (map snd (rg_entries r)),
        rg_generation := rg_generation ?r0 + length (map snd (rg_entries r))\<rparr>)"
  proof (rule register_all_fresh)
    show "distinct (map fst (rg_entries ?r0) @ map (strip uc \<circ> te_name) (map snd (rg_entries r)))"
      unfolding keys(1) using ok(1) by (simp add: names_ok_def)
  qed (use entry(2) in auto)
  then have "register_all uc (map snd (rg_entries r)) ?r0 = Inr ?r1" unfolding keys(2) by simp
  moreover have "alias_all uc (rg_aliases r) ?r1 =
      Inr (?r1\<lparr>rg_aliases := rg_aliases r, rg_generation := length (rg_entries r) + length (rg_aliases r)\<rparr>)"
    using alias_all_fresh [of ?r1 "rg_aliases r" uc] ok(1) by (auto simp: names_ok_def)
  ultimately show ?thesis using ok(2) by (simp add: clone_def new_registry_def cache_ok_def)
qed

theorem clone_same_witness:
  "clone sample_unicode (run_ops (registry_exec sample_unicode) sample_registrations sample_registry) =
     Inr (run_ops (registry_exec sample_unicode) sample_registrations sample_registry\<lparr>rg_generation := 3\<rparr>)"
  using clone_same [OF new_sample refl, of sample_unicode sample_registrations] by (simp add: sample_registered)

section \<open>Availability\<close>

text \<open>The last success of a check is recorded by that check only, and forgotten on invalidation.\<close>

interpretation probe: evidence "registry_exec uc" "registry_ok uc" "\<lambda>r (c, t). rg_good r c = Some t"
    "\<lambda>a (c, t). a = RecordCheck t c True" "\<lambda>a _. a = InvalidateChecks" for uc
proof unfold_locales
  fix r :: registry and a f
  assume "case f of (c, t) \<Rightarrow> rg_good (registry_exec uc a r) c = Some t"
  moreover have "rg_good (snd (register uc e al ov r)) = rg_good r" for e al ov
  proof -
    obtain res r' where reg: "register uc e al ov r = (res, r')" by (cases "register uc e al ov r")
    then have "rg_good r' = rg_good r" by (cases rule: register_cases) (auto simp: stored_entry_def)
    then show ?thesis using reg by simp
  qed
  ultimately show "(case f of (c, t) \<Rightarrow> a = RecordCheck t c True) \<or>
      ((case f of (c, t) \<Rightarrow> rg_good r c = Some t) \<and> a \<noteq> InvalidateChecks)"
    by (cases a) (auto simp: register_alias_def Let_def record_check_def invalidate_checks_def
        split: prod.splits sum.splits if_splits option.splits)
qed

text \<open>
  A tool is reported available only if it has no availability check, if its check has just
  succeeded, or if the check did succeed earlier, since the last invalidation of the cache, and less
  than the cache duration or the grace period ago.  Whatever other calls run in between.
\<close>

theorem availability_is_recent:
  assumes "new_registry ttl grace = Inr r0" and "r = run_ops (registry_exec uc) ops r0"
    and "is_available e now outcome r = (True, r')"
  shows "te_check e = None \<or> outcome \<or>
    (\<exists>c t ps qs. te_check e = Some c \<and> ops = ps @ RecordCheck t c True # qs \<and> InvalidateChecks \<notin> set qs \<and>
       now - t < max ttl grace)"
proof -
  have ok: "registry_ok uc r" using registry_run_ok [OF assms(1)] assms(2) by simp
  have "rg_ttl (registry_exec uc a s) = rg_ttl s \<and> rg_grace (registry_exec uc a s) = rg_grace s" for a s
  proof (cases a)
    case (Register e al ov)
    obtain res s' where reg: "register uc e al ov s = (res, s')" by (cases "register uc e al ov s")
    then have "rg_ttl s' = rg_ttl s \<and> rg_grace s' = rg_grace s" by (cases rule: register_cases) (auto simp: stored_entry_def)
    then show ?thesis using reg Register by simp
  qed (auto simp: register_alias_def Let_def invalidate_checks_def split: sum.splits)
  then have "rg_ttl (run_ops (registry_exec uc) ops s) = rg_ttl s \<and> rg_grace (run_ops (registry_exec uc) ops s) = rg_grace s" for s
    by (induction ops arbitrary: s) auto
  then have limits: "rg_ttl r = ttl" "rg_grace r = grace"
    using assms(1,2) by (auto simp: new_registry_def split: if_splits)
  show ?thesis
  proof (cases "te_check e = None \<or> outcome")
    case False
    then obtain c where c: "te_check e = Some c" "\<not> outcome" by auto
    obtain t where t: "rg_good r c = Some t" "now - t < max ttl grace"
    proof (cases "cached_answer now c r")
      case (Some v)
      then obtain t where "rg_cache r c = Some (t, True)" "now - t < ttl"
        using assms(3) c limits by (auto simp: is_available_def cached_answer_def split: option.splits if_splits)
      then show ?thesis using that [of t] ok by (auto simp: registry_ok_def cache_ok_def)
    next
      case None
      then show ?thesis using assms(3) c limits that
        by (auto simp: is_available_def record_check_def split: option.splits if_splits)
    qed
    have "\<not> (case (c, t) of (c, t) \<Rightarrow> rg_good r0 c = Some t)"
      using assms(1) by (auto simp: new_registry_def split: if_splits)
    then obtain ps a qs where "ops = ps @ a # qs" "a = RecordCheck t c True" "\<And>b. b \<in> set qs \<Longrightarrow> b \<noteq> InvalidateChecks"
      using probe.run_recorded_new [of uc r0 ops "(c, t)"] new_registry_ok [OF assms(1)] t(1) assms(2) by auto
    then show ?thesis using c(1) t(2) by blast
  qed auto
qed

theorem availability_is_recent_witness:
  "\<exists>r'. is_available (sample_tool [97]) 50 False
     (run_ops (registry_exec sample_unicode) [RecordCheck 10 0 True] sample_registry) = (True, r') \<and>
   (\<exists>t. RecordCheck t 0 True \<in> set [RecordCheck 10 0 True] \<and> 50 - t < max (30::rat) 60)"
proof -
  let ?r = "run_ops (registry_exec sample_unicode) [RecordCheck 10 0 True] sample_registry"
  obtain r' where r': "is_available (sample_tool [97]) 50 False ?r = (True, r')"
    by (simp add: is_available_def cached_answer_def record_check_def sample_tool_def)
  from availability_is_recent [OF new_sample refl this]
  have "\<exists>t. RecordCheck t 0 True \<in> set [RecordCheck 10 0 True] \<and> 50 - t < max (30::rat) 60"
    by (auto simp: sample_tool_def)
  with r' show ?thesis by blast
qed

section \<open>Execution\<close>

text \<open>
  C37: a result that \<open>execute\<close> returns comes from the tool that the name resolves to, while it was
  available, called with exactly the arguments given as JSON; the result is the handler's own value,
  it is JSON, and its text is no longer than the size the tool declares, which is positive.
\<close>

theorem execute_contract:
  assumes "new_registry ttl grace = Inr r0" and "r = run_ops (registry_exec uc) ops r0"
    and "execute cd n arguments now outcome r = (Inr v, r')"
  shows "\<exists>e args. get_entry r n = Inr e \<and> arguments = json_object (VDict args) \<and>
    fst (is_available e now outcome r) \<and> te_handler e args = Inr (json_object v) \<and>
    (\<forall>k. te_max_size e = Some k \<longrightarrow> 0 < k \<and> int (length (dump_json cd v)) \<le> k) \<and>
    (\<exists>later. r' = run_ops (registry_exec uc) later r \<and> length later \<le> 1)"
proof -
  obtain e args result where e: "get_entry r n = Inr e" "copy_json arguments = Inr (VDict args)"
      "is_available e now outcome r = (True, r')" "te_handler e args = Inr result" "copy_json result = Inr v"
      "\<not> (case te_max_size e of None \<Rightarrow> False | Some k \<Rightarrow> k < int (length (dump_json cd v)))"
    using assms(3) by (auto simp: execute_def split: sum.splits json_value.splits prod.splits bool.splits if_splits)
  have "names_ok uc r" using registry_run_ok [OF assms(1)] assms(2) by (simp add: registry_ok_def)
  then have "tool_entry_ok uc e" using e(1)
    by (auto simp: get_entry_def names_ok_def split: option.splits simp del: map_of_eq_Some_iff)
  then have size: "0 < k \<and> int (length (dump_json cd v)) \<le> k" if "te_max_size e = Some k" for k
    using e(6) that by (auto simp: tool_entry_ok_def)
  have "\<exists>later. r' = run_ops (registry_exec uc) later r \<and> length later \<le> 1"
  proof (cases "\<exists>c. te_check e = Some c \<and> cached_answer now c r = None")
    case True
    then obtain c where "te_check e = Some c" "cached_answer now c r = None" by blast
    then have "r' = run_ops (registry_exec uc) [RecordCheck now c outcome] r"
      using e(3) by (simp add: is_available_def)
    then show ?thesis by (intro exI [of _ "[RecordCheck now c outcome]"]) simp
  next
    case False
    then have "r' = r" using e(3) by (auto simp: is_available_def split: option.splits)
    then show ?thesis by (intro exI [of _ "[]"]) simp
  qed
  then show ?thesis using e size by (auto simp: copy_json_exact)
qed

theorem execute_contract_witness:
  "\<exists>v r'. execute (\<lparr>sha256 = id, float_repr = (\<lambda>_. [])\<rparr>) [98] (ODict [(KText [120], OInt 7)]) 5 True
     (run_ops (registry_exec sample_unicode) sample_registrations sample_registry) = (Inr v, r') \<and>
   int (length (dump_json (\<lparr>sha256 = id, float_repr = (\<lambda>_. [])\<rparr>) v)) \<le> 8"
proof -
  let ?r = "run_ops (registry_exec sample_unicode) sample_registrations sample_registry"
  let ?cd = "\<lparr>sha256 = id, float_repr = (\<lambda>_. [])\<rparr>"
  have "\<exists>v r'. execute ?cd [98] (ODict [(KText [120], OInt 7)]) 5 True ?r = (Inr v, r')"
    unfolding sample_registered
    by (simp add: execute_def get_entry_def target_of_def is_available_def cached_answer_def record_check_def sample_tool_def
        int_text_def py_int_str_def nat_digits.simps [of "Suc 0"])
  then obtain v r' where v: "execute ?cd [98] (ODict [(KText [120], OInt 7)]) 5 True ?r = (Inr v, r')" by blast
  have "get_entry ?r [98] = Inr (sample_tool [97])" "te_max_size (sample_tool [97]) = Some 8"
    unfolding sample_registered by (simp_all add: get_entry_def target_of_def sample_tool_def)
  then have "int (length (dump_json ?cd v)) \<le> 8"
    using execute_contract [OF new_sample refl v] by auto
  with v show ?thesis by blast
qed

end
