(* ===== verification/ChannelProcessor.thy ===== *)
theory ChannelProcessor
  imports ChannelProperties
begin

text \<open>
  The processor of \<open>src/polaris/channels/processor.py\<close>, which drives the channel store: one round
  claims an event, runs the handler and completes or fails the event, or claims a message, sends
  it and records the outcome.  Handler and adapter are parameters.  While the handler or the
  adapter runs, other calls reach the store (heartbeats of this processor among them): they are the
  list \<open>others\<close> of a round.  When the heartbeat loses the lease, the round is cancelled.
\<close>

text \<open>What is raised: an exception of the store, of the handler or the adapter (by its text), the
  refusal of a foreign message, and the use of an event without an envelope.\<close>

datatype processor_error = PcStore channel_error | PcRaised str | PcForeign | PcNoEnvelope

record processor =
  pc_owner :: str
  pc_platform :: platform
  pc_lease :: rat

text \<open>The texts \<open>str(exc)\<close> of the exceptions that reach the store.\<close>

record processor_env =
  pe_channel :: channel_env
  pe_why :: "processor_error \<Rightarrow> str"

type_synonym channel_handler = "channel_envelope \<Rightarrow> str + outbound_message list"
type_synonym outbound_preparer = "outbound_message \<Rightarrow> str + outbound_message list"

text \<open>The clock readings and the other calls of one round, and the failure of its heartbeat.\<close>

record round =
  rn_claim :: instant
  rn_clock :: instant
  rn_others :: "channel_op list"
  rn_lost :: "channel_error option"
  rn_finish :: instant
  rn_fail :: instant

section \<open>The inbox\<close>

fun prepare_all :: "platform \<Rightarrow> outbound_preparer option \<Rightarrow> outbound_message list \<Rightarrow> processor_error + outbound_message list" where
  "prepare_all pf prep [] = Inr []"
| "prepare_all pf prep (m # ms) =
     (if om_platform m \<noteq> pf then Inl PcForeign
      else case (case prep of None \<Rightarrow> Inr [m] | Some f \<Rightarrow> f m) of
        Inl t \<Rightarrow> Inl (PcRaised t)
      | Inr parts \<Rightarrow> map_sum id (\<lambda>rest. parts @ rest) (prepare_all pf prep ms))"

definition answers :: "processor \<Rightarrow> channel_handler \<Rightarrow> outbound_preparer option \<Rightarrow> channel_envelope \<Rightarrow>
   processor_error + outbound_message list" where
  "answers pc handler prep envelope =
     (case handler envelope of Inl t \<Rightarrow> Inl (PcRaised t) | Inr ms \<Rightarrow> prepare_all (pc_platform pc) prep ms)"

definition answer_run :: "text_env \<Rightarrow> outbound_message list \<Rightarrow> str option" where
  "answer_run te prepared =
     (case prepared of [] \<Rightarrow> None
      | m # _ \<Rightarrow> (case jget (om_metadata m) ''run_id'' of JNull \<Rightarrow> None | v \<Rightarrow> Some (py_str te v)))"

text \<open>The \<open>except\<close> branch: the event is failed, and the exception goes on.\<close>

definition fail_event ::
  "processor_env \<Rightarrow> processor \<Rightarrow> channel_envelope \<Rightarrow> processor_error \<Rightarrow> instant \<Rightarrow> channel_store \<Rightarrow>
   (processor_error + bool) \<times> channel_store" where
  "fail_event pe pc envelope x now s =
     (case fail_inbox (ev_platform envelope) (ev_event envelope) (pc_owner pc) (pe_why pe x) None now s of
        (Inl e, s1) \<Rightarrow> (Inl (PcStore e), s1)
      | (Inr _, s1) \<Rightarrow> (Inl x, s1))"

definition handle_event ::
  "processor_env \<Rightarrow> processor \<Rightarrow> channel_handler \<Rightarrow> outbound_preparer option \<Rightarrow> round \<Rightarrow> channel_envelope \<Rightarrow>
   channel_store \<Rightarrow> (processor_error + bool) \<times> channel_store" where
  "handle_event pe pc handler prep rn envelope s =
     (case answers pc handler prep envelope of
        Inl x \<Rightarrow> fail_event pe pc envelope x (rn_fail rn) s
      | Inr prepared \<Rightarrow>
          (case complete_inbox_with_outbox (pe_channel pe) (ev_platform envelope) (ev_event envelope) (pc_owner pc)
                  prepared (answer_run (ce_text (pe_channel pe)) prepared) (rn_finish rn) s of
             (Inl e, s1) \<Rightarrow> fail_event pe pc envelope (PcStore e) (rn_fail rn) s1
           | (Inr _, s1) \<Rightarrow> (Inr True, s1)))"

definition process_inbox_once ::
  "processor_env \<Rightarrow> processor \<Rightarrow> channel_handler \<Rightarrow> outbound_preparer option \<Rightarrow> round \<Rightarrow> channel_store \<Rightarrow>
   (processor_error + bool) \<times> channel_store" where
  "process_inbox_once pe pc handler prep rn s =
     (case claim_inbox (pc_owner pc) (pc_lease pc) (Some (pc_platform pc)) (rn_claim rn) (rn_clock rn) s of
        (Inl e, s1) \<Rightarrow> (Inl (PcStore e), s1)
      | (Inr None, s1) \<Rightarrow> (Inr False, s1)
      | (Inr (Some r), s1) \<Rightarrow>
          (case ib_envelope r of
             None \<Rightarrow> (Inl PcNoEnvelope, s1)
           | Some envelope \<Rightarrow>
               (let s2 = chan_run (pe_channel pe) (rn_others rn) s1 in
                case rn_lost rn of
                  Some e \<Rightarrow> (Inl (PcStore e), s2)
                | None \<Rightarrow> handle_event pe pc handler prep rn envelope s2)))"

section \<open>The outbox\<close>

text \<open>An exception of the adapter: its text and \<open>delivery_unknown\<close> (true when it has none).\<close>

record send_failure =
  sf_text :: str
  sf_unknown :: bool

type_synonym channel_sender = "outbound_message \<Rightarrow> send_failure + remote_receipt"

definition record_sending ::
  "processor \<Rightarrow> str \<Rightarrow> send_failure + remote_receipt \<Rightarrow> instant \<Rightarrow> channel_store \<Rightarrow>
   (processor_error + bool) \<times> channel_store" where
  "record_sending pc key outcome now s =
     (case outcome of
        Inl f \<Rightarrow>
          (case (if sf_unknown f then mark_outbox_unknown key (pc_owner pc) (sf_text f) now s
                 else mark_outbox_failed key (pc_owner pc) (sf_text f) now s) of
             (Inl e, s1) \<Rightarrow> (Inl (PcStore e), s1)
           | (Inr _, s1) \<Rightarrow> (Inl (PcRaised (sf_text f)), s1))
      | Inr receipt \<Rightarrow>
          (case mark_outbox_sent key (pc_owner pc) receipt now s of
             (Inl e, s1) \<Rightarrow> (Inl (PcStore e), s1)
           | (Inr _, s1) \<Rightarrow> (Inr True, s1)))"

text \<open>A round of the outbox, with the messages that it handed to the adapter.\<close>

definition send_outbox_once ::
  "processor_env \<Rightarrow> processor \<Rightarrow> channel_sender \<Rightarrow> round \<Rightarrow> channel_store \<Rightarrow>
   ((processor_error + bool) \<times> outbound_message list) \<times> channel_store" where
  "send_outbox_once pe pc send rn s =
     (case claim_outbox (pc_owner pc) (pc_lease pc) (Some (pc_platform pc)) (rn_claim rn) (rn_clock rn) s of
        (Inl e, s1) \<Rightarrow> ((Inl (PcStore e), []), s1)
      | (Inr None, s1) \<Rightarrow> ((Inr False, []), s1)
      | (Inr (Some r), s1) \<Rightarrow>
          (let m = ox_message r; s2 = chan_run (pe_channel pe) (rn_others rn) s1 in
           case rn_lost rn of
             Some e \<Rightarrow> ((Inl (PcStore e), [m]), s2)
           | None \<Rightarrow> (case record_sending pc (om_key m) (send m) (rn_finish rn) s2 of (res, s3) \<Rightarrow> ((res, [m]), s3))))"

definition process_once ::
  "processor_env \<Rightarrow> processor \<Rightarrow> channel_handler \<Rightarrow> outbound_preparer option \<Rightarrow> channel_sender \<Rightarrow> round \<Rightarrow> round \<Rightarrow>
   channel_store \<Rightarrow> ((processor_error + bool) \<times> outbound_message list) \<times> channel_store" where
  "process_once pe pc handler prep send rn rn' s =
     (case process_inbox_once pe pc handler prep rn s of
        (Inl x, s1) \<Rightarrow> ((Inl x, []), s1)
      | (Inr processed, s1) \<Rightarrow> (case send_outbox_once pe pc send rn' s1 of
          ((Inl x, ms), s2) \<Rightarrow> ((Inl x, ms), s2)
        | ((Inr sent, ms), s2) \<Rightarrow> ((Inr (processed \<or> sent), ms), s2)))"

section \<open>A round is a sequence of calls of the store\<close>

lemma two_witnesses: "P x y \<Longrightarrow> \<exists>x y. P x y"
  by blast

lemma run_ops_append: "run_ops exec (xs @ ys) s = run_ops exec ys (run_ops exec xs s)"
  by (simp add: run_ops_def)

definition inbox_calls :: "processor_env \<Rightarrow> processor \<Rightarrow> round \<Rightarrow> channel_op \<Rightarrow> bool" where
  "inbox_calls pe pc rn a \<longleftrightarrow>
     (\<exists>p e ms run. a = CompleteWithOutbox p e (pc_owner pc) ms run (rn_finish rn)) \<or>
     (\<exists>p e x. a = FailInbox p e (pc_owner pc) (pe_why pe x) None (rn_fail rn))"

definition outbox_calls :: "processor \<Rightarrow> round \<Rightarrow> channel_op \<Rightarrow> bool" where
  "outbox_calls pc rn a \<longleftrightarrow> (\<exists>k rc. a = MarkSent k (pc_owner pc) rc (rn_finish rn)) \<or>
     (\<exists>k t. a = MarkUnknown k (pc_owner pc) t (rn_finish rn) \<or> a = MarkFailed k (pc_owner pc) t (rn_finish rn))"

definition claims_inbox :: "processor \<Rightarrow> round \<Rightarrow> channel_op" where
  "claims_inbox pc rn = ClaimInbox (pc_owner pc) (pc_lease pc) (Some (pc_platform pc)) (rn_claim rn) (rn_clock rn)"

definition claims_outbox :: "processor \<Rightarrow> round \<Rightarrow> channel_op" where
  "claims_outbox pc rn = ClaimOutbox (pc_owner pc) (pc_lease pc) (Some (pc_platform pc)) (rn_claim rn) (rn_clock rn)"

lemma fail_event_op:
  "snd (fail_event pe pc envelope x now s) =
     channel_exec env (FailInbox (ev_platform envelope) (ev_event envelope) (pc_owner pc) (pe_why pe x) None now) s"
  by (simp add: fail_event_def split: prod.splits sum.splits)

lemma handle_event_ops:
  "\<exists>tail. snd (handle_event pe pc handler prep rn envelope s) = chan_run (pe_channel pe) tail s \<and> list_all (inbox_calls pe pc rn) tail"
proof (cases "answers pc handler prep envelope")
  case (Inl x)
  then show ?thesis
    by (intro exI [of _ "[FailInbox (ev_platform envelope) (ev_event envelope) (pc_owner pc) (pe_why pe x) None (rn_fail rn)]"])
      (auto simp: handle_event_def fail_event_op inbox_calls_def simp del: channel_exec.simps)
next
  case (Inr prepared)
  let ?a = "CompleteWithOutbox (ev_platform envelope) (ev_event envelope) (pc_owner pc) prepared
    (answer_run (ce_text (pe_channel pe)) prepared) (rn_finish rn)"
  have complete: "inbox_calls pe pc rn ?a" by (auto simp: inbox_calls_def)
  show ?thesis
  proof (cases "fst (complete_inbox_with_outbox (pe_channel pe) (ev_platform envelope) (ev_event envelope) (pc_owner pc)
                  prepared (answer_run (ce_text (pe_channel pe)) prepared) (rn_finish rn) s)")
    case (Inl e)
    let ?b = "FailInbox (ev_platform envelope) (ev_event envelope) (pc_owner pc) (pe_why pe (PcStore e)) None (rn_fail rn)"
    have "snd (handle_event pe pc handler prep rn envelope s) = chan_run (pe_channel pe) [?a, ?b] s"
      using Inl Inr by (auto simp: handle_event_def fail_event_op [of pe pc envelope _ _ _ "pe_channel pe"] split: prod.splits)
    then show ?thesis using complete by (intro exI [of _ "[?a, ?b]"]) (auto simp: inbox_calls_def)
  next
    case ok: (Inr rows)
    then show ?thesis using Inr complete
      by (intro exI [of _ "[?a]"]) (auto simp: handle_event_def split: prod.splits)
  qed
qed

lemma process_inbox_ops:
  "\<exists>others tail. snd (process_inbox_once pe pc handler prep rn s) =
     chan_run (pe_channel pe) (claims_inbox pc rn # others @ tail) s \<and> others \<in> {[], rn_others rn} \<and>
     list_all (inbox_calls pe pc rn) tail"
proof -
  obtain res s1 where claim: "claim_inbox (pc_owner pc) (pc_lease pc) (Some (pc_platform pc)) (rn_claim rn) (rn_clock rn) s = (res, s1)"
    by (cases "claim_inbox (pc_owner pc) (pc_lease pc) (Some (pc_platform pc)) (rn_claim rn) (rn_clock rn) s")
  then have s1: "channel_exec (pe_channel pe) (claims_inbox pc rn) s = s1" by (simp add: claims_inbox_def)
  show ?thesis
  proof (cases "\<exists>r envelope. res = Inr (Some r) \<and> ib_envelope r = Some envelope \<and> rn_lost rn = None")
    case True
    then obtain r envelope where r: "res = Inr (Some r)" "ib_envelope r = Some envelope" "rn_lost rn = None" by blast
    obtain tail where "snd (handle_event pe pc handler prep rn envelope (chan_run (pe_channel pe) (rn_others rn) s1)) =
        chan_run (pe_channel pe) tail (chan_run (pe_channel pe) (rn_others rn) s1)" "list_all (inbox_calls pe pc rn) tail"
      using handle_event_ops by blast
    then show ?thesis using r claim s1
      by (intro two_witnesses [of _ "rn_others rn" tail]) (simp add: process_inbox_once_def run_ops_append)
  next
    case False
    then have "snd (process_inbox_once pe pc handler prep rn s) = s1 \<or>
        snd (process_inbox_once pe pc handler prep rn s) = chan_run (pe_channel pe) (rn_others rn) s1"
      using claim by (auto simp: process_inbox_once_def Let_def split: sum.splits option.splits)
    then show ?thesis
    proof
      assume "snd (process_inbox_once pe pc handler prep rn s) = s1"
      then show ?thesis using s1 by (intro two_witnesses [of _ "[]" "[]"]) simp
    next
      assume "snd (process_inbox_once pe pc handler prep rn s) = chan_run (pe_channel pe) (rn_others rn) s1"
      then show ?thesis using s1 by (intro two_witnesses [of _ "rn_others rn" "[]"]) simp
    qed
  qed
qed

lemma record_sending_op:
  "\<exists>a. snd (record_sending pc k outcome (rn_finish rn) s) = channel_exec env a s \<and> outbox_calls pc rn a"
proof (cases outcome)
  case (Inl f)
  show ?thesis
  proof (cases "sf_unknown f")
    case True
    then show ?thesis using Inl
      by (intro exI [of _ "MarkUnknown k (pc_owner pc) (sf_text f) (rn_finish rn)"])
        (auto simp: record_sending_def outbox_calls_def split: prod.splits sum.splits)
  next
    case False
    then show ?thesis using Inl
      by (intro exI [of _ "MarkFailed k (pc_owner pc) (sf_text f) (rn_finish rn)"])
        (auto simp: record_sending_def outbox_calls_def split: prod.splits sum.splits)
  qed
next
  case (Inr rc)
  then show ?thesis
    by (intro exI [of _ "MarkSent k (pc_owner pc) rc (rn_finish rn)"])
      (auto simp: record_sending_def outbox_calls_def split: prod.splits sum.splits)
qed

lemma send_outbox_ops:
  "\<exists>others tail. snd (send_outbox_once pe pc send rn s) =
     chan_run (pe_channel pe) (claims_outbox pc rn # others @ tail) s \<and> others \<in> {[], rn_others rn} \<and>
     list_all (outbox_calls pc rn) tail"
proof -
  obtain res s1 where claim: "claim_outbox (pc_owner pc) (pc_lease pc) (Some (pc_platform pc)) (rn_claim rn) (rn_clock rn) s = (res, s1)"
    by (cases "claim_outbox (pc_owner pc) (pc_lease pc) (Some (pc_platform pc)) (rn_claim rn) (rn_clock rn) s")
  then have s1: "channel_exec (pe_channel pe) (claims_outbox pc rn) s = s1" by (simp add: claims_outbox_def)
  show ?thesis
  proof (cases "\<exists>r. res = Inr (Some r)")
    case True
    then obtain r where r: "res = Inr (Some r)" by blast
    let ?s2 = "chan_run (pe_channel pe) (rn_others rn) s1"
    show ?thesis
    proof (cases "rn_lost rn")
      case None
      obtain a where "snd (record_sending pc (om_key (ox_message r)) (send (ox_message r)) (rn_finish rn) ?s2) =
          channel_exec (pe_channel pe) a ?s2" "outbox_calls pc rn a" using record_sending_op by blast
      then show ?thesis using r claim s1 None
        by (intro two_witnesses [of _ "rn_others rn" "[a]"])
          (auto simp: send_outbox_once_def run_ops_append Let_def split: prod.splits)
    next
      case (Some e)
      then show ?thesis using r claim s1
        by (intro two_witnesses [of _ "rn_others rn" "[]"]) (simp add: send_outbox_once_def Let_def)
    qed
  next
    case False
    then have "snd (send_outbox_once pe pc send rn s) = s1"
      using claim by (auto simp: send_outbox_once_def split: sum.splits option.splits)
    then show ?thesis using s1 by (intro exI [of _ "[]"]) simp
  qed
qed

end
