(* ===== verification/ChannelProcessorProperties.thy ===== *)
theory ChannelProcessorProperties
  imports ChannelProcessor
begin

text \<open>
  The properties of the processor on top of the store: how often a message reaches the adapter, and
  what a round leaves behind.
\<close>

section \<open>At most once\<close>

text \<open>The daemon: any calls of the store and any rounds of any processors, with the messages that reached an adapter.\<close>

datatype daemon_act =
    StoreCall channel_op
  | InboxRound processor channel_handler "outbound_preparer option" round
  | OutboxRound processor channel_sender round

fun daemon_step :: "processor_env \<Rightarrow> daemon_act \<Rightarrow> channel_store \<times> outbound_message list \<Rightarrow> channel_store \<times> outbound_message list" where
  "daemon_step pe (StoreCall a) (s, handed) = (channel_exec (pe_channel pe) a s, handed)"
| "daemon_step pe (InboxRound pc handler prep rn) (s, handed) = (snd (process_inbox_once pe pc handler prep rn s), handed)"
| "daemon_step pe (OutboxRound pc send rn) (s, handed) =
     (case send_outbox_once pe pc send rn s of ((res, ms), s1) \<Rightarrow> (s1, handed @ ms))"

fun ordered_retries :: "str \<Rightarrow> daemon_act \<Rightarrow> nat" where
  "ordered_retries k (StoreCall a) = (if retries k a then 1 else 0)"
| "ordered_retries k (InboxRound pc handler prep rn) = length (filter (retries k) (rn_others rn))"
| "ordered_retries k (OutboxRound pc send rn) = length (filter (retries k) (rn_others rn))"

definition attempts_in :: "channel_store \<Rightarrow> str \<Rightarrow> int" where
  "attempts_in s k = (case find_outbox k (chdb s) of None \<Rightarrow> 0 | Some r \<Rightarrow> ox_attempts r)"

lemma attempts_potential: "attempts_in s k \<le> potential_in s k"
  by (simp add: attempts_in_def potential_in_def potential_def split: option.splits)

lemma exec_attempts: "attempts_in s k \<le> attempts_in (channel_exec env a s) k"
proof (cases "find_outbox k (chdb s)")
  case None
  show ?thesis
  proof (cases "find_outbox k (chdb (channel_exec env a s))")
    case (Some r)
    then have "new_outbox env a r" using exec_new_outbox [OF None] by blast
    then have "ox_attempts r = 0" by (cases a) (auto simp: fresh_outbox_def)
    then show ?thesis using None Some by (simp add: attempts_in_def)
  qed (use None in \<open>simp add: attempts_in_def\<close>)
next
  case (Some r)
  then obtain r' where r': "find_outbox k (chdb (channel_exec env a s)) = Some r'" "outbox_step a r r'"
    using exec_outbox by blast
  have "ox_attempts r \<le> ox_attempts r'" using r'(2) by (cases rule: outbox_step.cases) (auto simp: outbox_fields)
  then show ?thesis using Some r'(1) by (simp add: attempts_in_def)
qed

lemma run_attempts: "attempts_in s k \<le> attempts_in (chan_run env ops s) k"
proof (induction ops arbitrary: s)
  case (Cons a ops)
  show ?case using exec_attempts [of s k env a] Cons.IH [of "channel_exec env a s"] by simp
qed simp

lemma claim_outbox_attempt:
  assumes "chan_ok env s" and "claim_outbox w l pf now c s = (Inr (Some r), s')"
  shows "attempts_in s' (outbox_key r) = attempts_in s (outbox_key r) + 1"
proof -
  obtain d' where d': "claim_outbox_tx w now (c + timedelta_us l) pf (chdb s) = Inr (Some r, d')" "chdb s' = d'"
    using assms(2) by (auto simp: claim_outbox_def deadline_at_def channel_transaction_Inr split: if_splits)
  note keyed = chan_ok_parts(2) [OF assms(1)]
  obtain q where q: "q \<in> set (outbox (chdb s))" "ox_stat q = ObPending" "recovered_outbox now q = q"
      "r = claim_outbox_row w now (c + timedelta_us l) q" "find_outbox (outbox_key r) d' = Some r"
    by (rule claim_outbox_result [OF d'(1) keyed])
  have "find_outbox (outbox_key r) (chdb s) = Some q" using by_key_in [OF keyed q(1)] q(4) by simp
  then show ?thesis using q(4,5) d'(2) by (simp add: attempts_in_def claim_outbox_row_def)
qed

lemma calls_without_retries:
  "list_all (inbox_calls pe pc rn) tail \<Longrightarrow> filter (retries k) tail = []"
  "list_all (outbox_calls pc rn) tail \<Longrightarrow> filter (retries k) tail = []"
  by (induction tail) (auto simp: inbox_calls_def outbox_calls_def)

lemma round_retries:
  assumes "others \<in> {[], rn_others rn}" and "filter (retries k) tail = []" and "\<not> retries k a"
  shows "length (filter (retries k) (a # others @ tail)) \<le> length (filter (retries k) (rn_others rn))"
  using assms by auto

definition handed_ok :: "processor_env \<Rightarrow> str \<Rightarrow> nat \<Rightarrow> channel_store \<times> outbound_message list \<Rightarrow> bool" where
  "handed_ok pe k n st \<longleftrightarrow> chan_ok (pe_channel pe) (fst st) \<and> potential_in (fst st) k \<le> 1 + int n \<and>
     int (length (filter (\<lambda>m. om_key m = k) (snd st))) \<le> attempts_in (fst st) k"

lemma handed_run:
  assumes "handed_ok pe k n (s, handed)" and "length (filter (retries k) ops) \<le> j"
  shows "handed_ok pe k (n + j) (chan_run (pe_channel pe) ops s, handed)"
proof -
  let ?t = "chan_run (pe_channel pe) ops s"
  have start: "chan_ok (pe_channel pe) s" "potential_in s k \<le> 1 + int n"
      "int (length (filter (\<lambda>m. om_key m = k) handed)) \<le> attempts_in s k"
    using assms(1) by (simp_all add: handed_ok_def)
  have "chan_ok (pe_channel pe) ?t" by (rule chan.run_ok [OF start(1)])
  moreover have "potential_in ?t k \<le> 1 + int (n + j)"
    using run_potential [of "pe_channel pe" ops s k] start(2) assms(2) by linarith
  moreover have "int (length (filter (\<lambda>m. om_key m = k) handed)) \<le> attempts_in ?t k"
    using run_attempts [of s k "pe_channel pe" ops] start(3) by linarith
  ultimately show ?thesis by (simp add: handed_ok_def)
qed

lemma send_outbox_messages:
  assumes "chan_ok (pe_channel pe) s" and "send_outbox_once pe pc send rn s = ((res, ms), s1)"
  shows "attempts_in s k + int (length (filter (\<lambda>m. om_key m = k) ms)) \<le> attempts_in s1 k"
proof -
  obtain others tail where ops: "s1 = chan_run (pe_channel pe) (claims_outbox pc rn # others @ tail) s"
    using send_outbox_ops [of pe pc send rn s] assms(2) by auto
  obtain out s2 where claim: "claim_outbox (pc_owner pc) (pc_lease pc) (Some (pc_platform pc)) (rn_claim rn) (rn_clock rn) s = (out, s2)"
    by (cases "claim_outbox (pc_owner pc) (pc_lease pc) (Some (pc_platform pc)) (rn_claim rn) (rn_clock rn) s")
  have s2: "s2 = channel_exec (pe_channel pe) (claims_outbox pc rn) s" using claim by (simp add: claims_outbox_def)
  have later: "attempts_in s2 k \<le> attempts_in s1 k" using run_attempts [of s2 k "pe_channel pe" "others @ tail"] ops s2 by simp
  have first: "attempts_in s k \<le> attempts_in s2 k" unfolding s2 by (rule exec_attempts)
  show ?thesis
  proof (cases "\<exists>r. out = Inr (Some r)")
    case True
    then obtain r where r: "out = Inr (Some r)" by blast
    then have "ms = [ox_message r]" using assms(2) claim
      by (auto simp: send_outbox_once_def Let_def split: option.splits prod.splits)
    moreover have "attempts_in s2 (outbox_key r) = attempts_in s (outbox_key r) + 1"
      using claim_outbox_attempt [OF assms(1)] claim r by blast
    ultimately show ?thesis using later first by (auto simp: outbox_key_def)
  next
    case False
    then have "ms = []" using assms(2) claim by (auto simp: send_outbox_once_def split: sum.splits option.splits)
    then show ?thesis using later first by simp
  qed
qed

lemma daemon_step_ok:
  assumes "handed_ok pe k n st"
  shows "handed_ok pe k (n + ordered_retries k a) (daemon_step pe a st)"
proof (cases st)
  case (Pair s handed)
  show ?thesis
  proof (cases a)
    case (StoreCall op)
    then show ?thesis using handed_run [of pe k n s handed "[op]" "ordered_retries k a"] assms Pair by simp
  next
    case (InboxRound pc handler prep rn)
    obtain others tail where ops: "snd (process_inbox_once pe pc handler prep rn s) =
        chan_run (pe_channel pe) (claims_inbox pc rn # others @ tail) s" "others \<in> {[], rn_others rn}"
        "list_all (inbox_calls pe pc rn) tail"
      using process_inbox_ops by blast
    have "length (filter (retries k) (claims_inbox pc rn # others @ tail)) \<le> ordered_retries k a"
      using round_retries [OF ops(2) calls_without_retries(1) [OF ops(3)], of k "claims_inbox pc rn"] InboxRound
      by (simp add: claims_inbox_def)
    from handed_run [OF _ this, of pe n s handed] assms Pair
    show ?thesis unfolding ops(1) [symmetric] by (simp add: InboxRound)
  next
    case (OutboxRound pc send rn)
    obtain res ms s1 where send: "send_outbox_once pe pc send rn s = ((res, ms), s1)"
      by (metis surj_pair)
    obtain others tail where ops: "snd (send_outbox_once pe pc send rn s) =
        chan_run (pe_channel pe) (claims_outbox pc rn # others @ tail) s" "others \<in> {[], rn_others rn}"
        "list_all (outbox_calls pc rn) tail"
      using send_outbox_ops by blast
    have "length (filter (retries k) (claims_outbox pc rn # others @ tail)) \<le> ordered_retries k a"
      using round_retries [OF ops(2) calls_without_retries(2) [OF ops(3)], of k "claims_outbox pc rn"] OutboxRound
      by (simp add: claims_outbox_def)
    from handed_run [OF _ this, of pe n s handed] assms Pair
    have "handed_ok pe k (n + ordered_retries k a) (s1, handed)" unfolding ops(1) [symmetric] by (simp add: send)
    moreover have "attempts_in s k + int (length (filter (\<lambda>m. om_key m = k) ms)) \<le> attempts_in s1 k"
      using send_outbox_messages [OF _ send] assms Pair by (simp add: handed_ok_def)
    ultimately show ?thesis using assms Pair OutboxRound send by (simp add: handed_ok_def)
  qed
qed

lemma daemon_run_ok:
  "handed_ok pe k n st \<Longrightarrow> handed_ok pe k (n + sum_list (map (ordered_retries k) acts)) (run_ops (daemon_step pe) acts st)"
proof (induction acts arbitrary: n st)
  case (Cons a acts)
  then show ?case using daemon_step_ok [OF Cons.prems, of a] Cons.IH [of "n + ordered_retries k a"]
    by (simp add: add.assoc)
qed simp

text \<open>
  C32: a message reaches an adapter at most once, and once more for each retry an operator ordered:
  for every sequence of rounds of any number of processors and any calls of the store between and
  inside the rounds, with failing and crashing handlers and senders and lost leases.
\<close>

theorem handed_at_most_once:
  "case run_ops (daemon_step pe) acts (new_channel_store, []) of (s, handed) \<Rightarrow>
     length (filter (\<lambda>m. om_key m = k) handed) \<le> 1 + sum_list (map (ordered_retries k) acts)"
proof -
  have "handed_ok pe k 0 (new_channel_store, [])"
    by (simp add: handed_ok_def potential_in_def attempts_in_def chan_ok_def new_channel_ok)
  then have "handed_ok pe k (0 + sum_list (map (ordered_retries k) acts)) (run_ops (daemon_step pe) acts (new_channel_store, []))"
    by (rule daemon_run_ok)
  then show ?thesis
    using attempts_potential [of "fst (run_ops (daemon_step pe) acts (new_channel_store, []))" k]
    by (auto simp: handed_ok_def split: prod.splits)
qed

section \<open>The outcome of a round\<close>

lemma fail_inbox_row:
  assumes "chan_ok env s" and "fail_inbox p e w err run now s = (Inr x, s')"
  shows "\<exists>r. find_inbox p e (chdb s') = Some r \<and> ib_stat r = IbFailed \<and> ib_error r = Some err \<and>
    outbox (chdb s') = outbox (chdb s)"
proof -
  obtain d' where d': "update_held_inbox (inbox_held p e w now) (close_inbox_row IbFailed run None (Some err) now) (chdb s) = Inr ((), d')"
      "chdb s' = d'"
    using assms(2) by (auto simp: fail_inbox_def finish_inbox_def channel_transaction_Inr)
  obtain r where "find_inbox p e d' = Some (close_inbox_row IbFailed run None (Some err) now r)"
    using held_update_row [OF d'(1) chan_ok_parts(1) [OF assms(1)], of "(p, e)"] by (auto simp: inbox_held_def)
  moreover have "outbox d' = outbox (chdb s)" using d'(1) by (simp add: update_held_inbox_Inr)
  ultimately show ?thesis using d'(2) by (simp add: close_inbox_row_def)
qed

definition failed_event :: "processor_env \<Rightarrow> processor_error \<Rightarrow> channel_envelope \<Rightarrow> channel_store \<Rightarrow> bool" where
  "failed_event pe x e s \<longleftrightarrow> (case find_inbox (ev_platform e) (ev_event e) (chdb s) of
     None \<Rightarrow> False | Some r \<Rightarrow> ib_stat r = IbFailed \<and> ib_error r = Some (pe_why pe x))"

definition answered_event :: "processor_env \<Rightarrow> outbound_message list \<Rightarrow> channel_envelope \<Rightarrow> channel_store \<Rightarrow> bool" where
  "answered_event pe ms e s \<longleftrightarrow>
     (\<forall>m \<in> set ms. case find_outbox (om_key m) (chdb s) of
        None \<Rightarrow> False | Some row \<Rightarrow> message_text (pe_channel pe) (ox_message row) = message_text (pe_channel pe) m) \<and>
     (case find_inbox (ev_platform e) (ev_event e) (chdb s) of
        None \<Rightarrow> False | Some r \<Rightarrow> ib_stat r = IbCompleted \<and> ib_decision r = AuAllow)"

lemma fail_event_outcome:
  assumes "chan_ok (pe_channel pe) s" and "fail_event pe pc e x now s = (res, s')"
  shows "(\<exists>y. res = Inl (PcStore y)) \<or> res = Inl x \<and> failed_event pe x e s' \<and> outbox (chdb s') = outbox (chdb s)"
proof -
  obtain out s1 where fail: "fail_inbox (ev_platform e) (ev_event e) (pc_owner pc) (pe_why pe x) None now s = (out, s1)"
    by (cases "fail_inbox (ev_platform e) (ev_event e) (pc_owner pc) (pe_why pe x) None now s")
  show ?thesis
  proof (cases out)
    case (Inl y)
    then have "res = Inl (PcStore y)" using fail assms(2) by (simp add: fail_event_def)
    then show ?thesis by blast
  next
    case (Inr u)
    then have s': "res = Inl x" "s' = s1" using fail assms(2) by (simp_all add: fail_event_def)
    obtain r where "find_inbox (ev_platform e) (ev_event e) (chdb s1) = Some r" "ib_stat r = IbFailed"
        "ib_error r = Some (pe_why pe x)" "outbox (chdb s1) = outbox (chdb s)"
      using fail_inbox_row [OF assms(1)] fail Inr by blast
    then show ?thesis using s' by (simp add: failed_event_def)
  qed
qed

lemma handle_event_outcome:
  assumes "chan_ok (pe_channel pe) s" and "handle_event pe pc handler prep rn e s = (res, s')"
  shows "(\<exists>y. res = Inl (PcStore y)) \<or>
     (\<exists>x. res = Inl x \<and> answers pc handler prep e = Inl x \<and> failed_event pe x e s' \<and> outbox (chdb s') = outbox (chdb s)) \<or>
     (\<exists>ms. res = Inr True \<and> answers pc handler prep e = Inr ms \<and> answered_event pe ms e s')"
proof (cases "answers pc handler prep e")
  case (Inl x)
  then show ?thesis using assms fail_event_outcome [OF assms(1), of pc e x "rn_fail rn" res s']
    by (auto simp: handle_event_def)
next
  case (Inr ms)
  let ?run = "answer_run (ce_text (pe_channel pe)) ms"
  obtain out s1 where complete: "complete_inbox_with_outbox (pe_channel pe) (ev_platform e) (ev_event e) (pc_owner pc) ms ?run (rn_finish rn) s = (out, s1)"
    by (cases "complete_inbox_with_outbox (pe_channel pe) (ev_platform e) (ev_event e) (pc_owner pc) ms ?run (rn_finish rn) s")
  note stored = answers_stored_atomically [OF assms(1), where p = "ev_platform e" and e = "ev_event e" and w = "pc_owner pc" and ms = ms and run = ?run
      and now = "rn_finish rn"]
  show ?thesis
  proof (cases out)
    case (Inl y)
    then have "fail_event pe pc e (PcStore y) (rn_fail rn) s = (res, s')"
      using assms(2) complete Inr stored by (simp add: handle_event_def)
    then show ?thesis using fail_event_outcome [OF assms(1)] by blast
  next
    case rows: (Inr rows)
    then have s': "res = Inr True" "s' = s1" using assms(2) complete Inr by (simp_all add: handle_event_def)
    obtain r where r: "find_inbox (ev_platform e) (ev_event e) (chdb s) = Some r"
        "inbox_held (ev_platform e) (ev_event e) (pc_owner pc) (rn_finish rn) r"
        "find_inbox (ev_platform e) (ev_event e) (chdb s1) =
           Some (close_inbox_row IbCompleted ?run (case ms of [] \<Rightarrow> None | m # _ \<Rightarrow> Some (om_key m)) None (rn_finish rn) r)"
      and found: "map (\<lambda>m. find_outbox (om_key m) (chdb s1)) ms = map Some rows"
        "map (\<lambda>row. message_text (pe_channel pe) (ox_message row)) rows = map (message_text (pe_channel pe)) ms"
      using stored complete rows by auto
    have "r \<in> set (inbox (chdb s))" using by_key_SomeD [OF r(1)] by simp
    then have "inbox_row_ok r" using chan_ok_parts(3) [OF assms(1)] by blast
    then have allowed: "ib_decision r = AuAllow" using r(2) by (auto simp: inbox_row_ok_def inbox_held_def split: if_splits)
    have "case find_outbox (om_key m) (chdb s1) of None \<Rightarrow> False
        | Some row \<Rightarrow> message_text (pe_channel pe) (ox_message row) = message_text (pe_channel pe) m" if answer: "m \<in> set ms" for m
    proof -
      obtain i where i: "i < length ms" "m = ms ! i" using answer by (auto simp: in_set_conv_nth)
      have "length rows = length ms" using found(2) by (metis length_map)
      then show ?thesis using i arg_cong [OF found(1), of "\<lambda>xs. xs ! i"] arg_cong [OF found(2), of "\<lambda>xs. xs ! i"] by simp
    qed
    then have "answered_event pe ms e s1" using r(3) allowed by (simp add: answered_event_def close_inbox_row_def)
    then show ?thesis using s' Inr by blast
  qed
qed

text \<open>
  A round of the inbox that returns true took an allowed event from the store, has all the
  messages that the handler returned for it in the outbox, with their content, and the event
  completed; when the handler raised or returned a message that was refused, the event is failed
  with that reason and none of its answers was stored.
\<close>

theorem inbox_round_outcome:
  assumes "s = chan_run (pe_channel pe) ops new_channel_store"
    and "process_inbox_once pe pc handler prep rn s = (res, s')"
  shows "res = Inr False \<and> s' = channel_exec (pe_channel pe) (claims_inbox pc rn) s \<or>
    (\<exists>y. res = Inl (PcStore y)) \<or>
    (\<exists>e ms. res = Inr True \<and> answers pc handler prep e = Inr ms \<and> answered_event pe ms e s') \<or>
    (\<exists>e x. res = Inl x \<and> answers pc handler prep e = Inl x \<and> failed_event pe x e s' \<and>
       outbox (chdb s') = outbox (chdb (chan_run (pe_channel pe) (claims_inbox pc rn # rn_others rn) s)))"
proof -
  let ?env = "pe_channel pe"
  obtain out s1 where claim: "claim_inbox (pc_owner pc) (pc_lease pc) (Some (pc_platform pc)) (rn_claim rn) (rn_clock rn) s = (out, s1)"
    by (cases "claim_inbox (pc_owner pc) (pc_lease pc) (Some (pc_platform pc)) (rn_claim rn) (rn_clock rn) s")
  have s1: "channel_exec ?env (claims_inbox pc rn) s = s1" using claim by (simp add: claims_inbox_def)
  show ?thesis
  proof (cases "\<exists>r. out = Inr (Some r)")
    case False
    then show ?thesis using assms(2) claim s1
      by (auto simp: process_inbox_once_def split: sum.splits option.splits)
  next
    case True
    then obtain r where r: "out = Inr (Some r)" by blast
    have "ib_envelope r \<noteq> None" using only_allowed_events_claimed claim r assms(1) by blast
    then obtain e where e: "ib_envelope r = Some e" by blast
    let ?s2 = "chan_run ?env (rn_others rn) s1"
    have ok2: "chan_ok ?env ?s2"
      using chan_run_ok [of ?env ops] assms(1) s1 chan.run_ok [of ?env s "claims_inbox pc rn # rn_others rn"] by simp
    show ?thesis
    proof (cases "rn_lost rn")
      case (Some x)
      then show ?thesis using assms(2) claim r e by (auto simp: process_inbox_once_def)
    next
      case None
      then have "handle_event pe pc handler prep rn e ?s2 = (res, s')"
        using assms(2) claim r e by (simp add: process_inbox_once_def)
      from handle_event_outcome [OF ok2 this] show ?thesis using s1 by auto
    qed
  qed
qed

text \<open>The processor and the handler of the witnesses.\<close>

definition demo_penv :: processor_env where
  "demo_penv = \<lparr>pe_channel = demo_env, pe_why = (\<lambda>_. ''error'')\<rparr>"

definition demo_processor :: processor where
  "demo_processor = \<lparr>pc_owner = ''w'', pc_platform = PfTelegram, pc_lease = 60\<rparr>"

definition demo_round :: round where
  "demo_round = \<lparr>rn_claim = 2, rn_clock = 2, rn_others = [], rn_lost = None, rn_finish = 3, rn_fail = 3\<rparr>"

definition demo_handler :: channel_handler where
  "demo_handler e = Inr [demo_message]"

lemma demo_answers [simp]: "answers demo_processor demo_handler None e = Inr [demo_message]"
  by (simp add: answers_def demo_handler_def demo_processor_def)

lemma demo_inbox_round:
  "fst (process_inbox_once demo_penv demo_processor demo_handler None demo_round (demo_chan [demo_ingest])) = Inr True"
proof -
  define s where "s = snd (claim_inbox ''w'' 60 (Some PfTelegram) 2 2 (demo_chan [demo_ingest]))"
  have "case fst (claim_inbox ''w'' 60 (Some PfTelegram) 2 2 (demo_chan [demo_ingest])) of
      Inr (Some r) \<Rightarrow> (case ib_envelope r of Some e \<Rightarrow> ev_platform e = PfTelegram \<and> ev_event e = ''0:5'' | None \<Rightarrow> False) | _ \<Rightarrow> False"
    by code_simp
  then obtain r e where r: "claim_inbox ''w'' 60 (Some PfTelegram) 2 2 (demo_chan [demo_ingest]) = (Inr (Some r), s)"
      "ib_envelope r = Some e" "ev_platform e = PfTelegram" "ev_event e = ''0:5''"
    unfolding s_def by (auto split: sum.splits option.splits) (metis prod.collapse)
  have facts: "\<not> chclosed s" "find_outbox ''k'' (chdb s) = None"
      "rowcount (inbox_held PfTelegram ''0:5'' ''w'' 3) (inbox (chdb s)) = 1"
    unfolding s_def by code_simp+
  have locked: "enqueue_locked demo_env 3 demo_message (chdb s) =
      Inr (fresh_outbox demo_env demo_message 3, (chdb s)\<lparr>outbox := outbox (chdb s) @ [fresh_outbox demo_env demo_message 3]\<rparr>)"
    using facts(2) by (simp add: enqueue_locked_def by_key_append)
  have "fst (handle_event demo_penv demo_processor demo_handler None demo_round e s) = Inr True"
    using facts r(3,4) by (simp add: handle_event_def demo_penv_def demo_round_def complete_inbox_with_outbox_def
      channel_transaction_def complete_with_outbox_tx_def locked update_held_inbox_def)
      (simp add: demo_processor_def)
  then show ?thesis using r by (simp add: process_inbox_once_def demo_processor_def demo_round_def)
qed

theorem inbox_round_outcome_witness:
  "\<exists>s'. process_inbox_once demo_penv demo_processor demo_handler None demo_round (demo_chan [demo_ingest]) = (Inr True, s') \<and>
     find_outbox ''k'' (chdb s') \<noteq> None"
proof -
  obtain s' where s': "process_inbox_once demo_penv demo_processor demo_handler None demo_round (demo_chan [demo_ingest]) = (Inr True, s')"
    using demo_inbox_round by (metis prod.collapse)
  have "demo_chan [demo_ingest] = chan_run (pe_channel demo_penv) [demo_ingest] new_channel_store" by (simp add: demo_penv_def)
  from inbox_round_outcome [OF this s'] obtain e where "answered_event demo_penv [demo_message] e s'" by auto
  then show ?thesis using s' by (auto simp: answered_event_def split: option.splits)
qed

text \<open>What a send must leave in the outbox.\<close>

definition sending_recorded :: "outbound_message \<Rightarrow> send_failure + remote_receipt \<Rightarrow> processor_error + bool \<Rightarrow> channel_store \<Rightarrow> bool" where
  "sending_recorded m outcome res s \<longleftrightarrow>
     (case find_outbox (om_key m) (chdb s) of
        None \<Rightarrow> False
      | Some row \<Rightarrow> (case outcome of
          Inr receipt \<Rightarrow> res = Inr True \<and> ox_stat row = ObSent \<and> ox_receipt row = Some receipt
        | Inl f \<Rightarrow> res = Inl (PcRaised (sf_text f)) \<and> ox_stat row = (if sf_unknown f then ObUnknown else ObFailed) \<and>
            ox_error row = Some (sf_text f)))"

lemma finish_outbox_row:
  assumes "chan_ok env s" and "finish_outbox k w st receipt err now s = (Inr x, s')"
  shows "\<exists>row. find_outbox k (chdb s') = Some row \<and> ox_stat row = st \<and> ox_receipt row = receipt \<and> ox_error row = err"
proof -
  let ?f = "\<lambda>r. r\<lparr>ox_stat := st, ox_receipt := receipt, ox_error := err, ox_owner := None, ox_expires := None,
              ox_heartbeat := None, ox_updated := now\<rparr>"
  obtain d' where d': "update_outbox k (outbox_held k w now) ?f (chdb s) = Inr (x, d')" "chdb s' = d'"
    using assms(2) by (auto simp: finish_outbox_def channel_transaction_Inr)
  obtain r where "find_outbox k d' = Some (?f r)"
    using update_outbox_row [OF d'(1) chan_ok_parts(2) [OF assms(1)]] by (auto simp: outbox_held_def outbox_key_def)
  then show ?thesis using d'(2) by simp
qed

lemma record_sending_outcome:
  assumes "chan_ok env s" and "record_sending pc (om_key m) outcome now s = (res, s')"
  shows "(\<exists>y. res = Inl (PcStore y)) \<or> sending_recorded m outcome res s'"
proof (cases outcome)
  case (Inl f)
  let ?st = "if sf_unknown f then ObUnknown else ObFailed"
  obtain out s1 where mark: "finish_outbox (om_key m) (pc_owner pc) ?st None (Some (sf_text f)) now s = (out, s1)"
    by (cases "finish_outbox (om_key m) (pc_owner pc) ?st None (Some (sf_text f)) now s")
  then have marked: "(if sf_unknown f then mark_outbox_unknown (om_key m) (pc_owner pc) (sf_text f) now s
      else mark_outbox_failed (om_key m) (pc_owner pc) (sf_text f) now s) = (out, s1)"
    by (simp add: mark_outbox_unknown_def mark_outbox_failed_def split: if_splits)
  show ?thesis
  proof (cases out)
    case y: (Inl y)
    then have "res = Inl (PcStore y)" using assms(2) Inl marked by (simp add: record_sending_def)
    then show ?thesis by blast
  next
    case (Inr x)
    then have s': "res = Inl (PcRaised (sf_text f))" "s' = s1" using assms(2) Inl marked by (simp_all add: record_sending_def)
    obtain row where "find_outbox (om_key m) (chdb s1) = Some row" "ox_stat row = ?st" "ox_error row = Some (sf_text f)"
      using finish_outbox_row [OF assms(1)] mark Inr by blast
    then show ?thesis using Inl s' by (simp add: sending_recorded_def)
  qed
next
  case (Inr receipt)
  obtain out s1 where mark: "mark_outbox_sent (om_key m) (pc_owner pc) receipt now s = (out, s1)"
    by (cases "mark_outbox_sent (om_key m) (pc_owner pc) receipt now s")
  show ?thesis
  proof (cases out)
    case (Inl y)
    then have "res = Inl (PcStore y)" using assms(2) Inr mark by (simp add: record_sending_def)
    then show ?thesis by blast
  next
    case x: (Inr x)
    then have s': "res = Inr True" "s' = s1" using assms(2) Inr mark by (simp_all add: record_sending_def)
    obtain row where "find_outbox (om_key m) (chdb s1) = Some row" "ox_stat row = ObSent" "ox_receipt row = Some receipt"
      using finish_outbox_row [OF assms(1)] mark x unfolding mark_outbox_sent_def by blast
    then show ?thesis using Inr s' by (simp add: sending_recorded_def)
  qed
qed

text \<open>
  A round of the outbox sends at most one message, one that was stored before, and records what
  became of it: the receipt of a delivery, the failure of a send that certainly did not deliver,
  and an unknown outcome for every other exception.  Only when the store refuses the record (the
  lease was lost) does the message stay as it is.
\<close>

theorem outbox_round_outcome:
  assumes "s = chan_run (pe_channel pe) ops new_channel_store"
    and "send_outbox_once pe pc send rn s = ((res, ms), s')"
  shows "ms = [] \<and> (res = Inr False \<or> (\<exists>y. res = Inl (PcStore y))) \<or>
    (\<exists>m. ms = [m] \<and> (\<exists>row. find_outbox (om_key m) (chdb s) = Some row \<and> ox_message row = m \<and> ox_stat row = ObPending) \<and>
       ((\<exists>y. res = Inl (PcStore y)) \<or> sending_recorded m (send m) res s'))"
proof -
  let ?env = "pe_channel pe"
  obtain out s1 where claim: "claim_outbox (pc_owner pc) (pc_lease pc) (Some (pc_platform pc)) (rn_claim rn) (rn_clock rn) s = (out, s1)"
    by (cases "claim_outbox (pc_owner pc) (pc_lease pc) (Some (pc_platform pc)) (rn_claim rn) (rn_clock rn) s")
  have s1: "channel_exec ?env (claims_outbox pc rn) s = s1" using claim by (simp add: claims_outbox_def)
  have ok: "chan_ok ?env s" using chan_run_ok assms(1) by simp
  show ?thesis
  proof (cases "\<exists>r. out = Inr (Some r)")
    case False
    then show ?thesis using assms(2) claim by (auto simp: send_outbox_once_def split: sum.splits option.splits)
  next
    case True
    then obtain r where r: "out = Inr (Some r)" by blast
    obtain d' where d': "claim_outbox_tx (pc_owner pc) (rn_claim rn) (rn_clock rn + timedelta_us (pc_lease pc)) (Some (pc_platform pc)) (chdb s) =
        Inr (Some r, d')"
      using claim r by (auto simp: claim_outbox_def deadline_at_def channel_transaction_Inr split: if_splits)
    obtain q where q: "q \<in> set (outbox (chdb s))" "ox_stat q = ObPending" "recovered_outbox (rn_claim rn) q = q"
        "r = claim_outbox_row (pc_owner pc) (rn_claim rn) (rn_clock rn + timedelta_us (pc_lease pc)) q" "find_outbox (outbox_key r) d' = Some r"
      by (rule claim_outbox_result [OF d' chan_ok_parts(2) [OF ok]])
    have stored: "find_outbox (om_key (ox_message r)) (chdb s) = Some q" "ox_message q = ox_message r"
      using by_key_in [OF chan_ok_parts(2) [OF ok] q(1)] q(4) by (simp_all add: outbox_key_def claim_outbox_row_def)
    let ?s2 = "chan_run ?env (rn_others rn) s1"
    have ok2: "chan_ok ?env ?s2"
      using ok s1 chan.run_ok [of ?env s "claims_outbox pc rn # rn_others rn"] by simp
    have "ms = [ox_message r] \<and> ((\<exists>y. res = Inl (PcStore y)) \<or> sending_recorded (ox_message r) (send (ox_message r)) res s')"
    proof (cases "rn_lost rn")
      case (Some x)
      then show ?thesis using assms(2) claim r by (auto simp: send_outbox_once_def)
    next
      case None
      obtain res' s3 where rec: "record_sending pc (om_key (ox_message r)) (send (ox_message r)) (rn_finish rn) ?s2 = (res', s3)"
        by (cases "record_sending pc (om_key (ox_message r)) (send (ox_message r)) (rn_finish rn) ?s2")
      then have "res = res'" "ms = [ox_message r]" "s' = s3"
        using assms(2) claim r None by (simp_all add: send_outbox_once_def)
      then show ?thesis using record_sending_outcome [OF ok2 rec] by simp
    qed
    then show ?thesis using stored q(2) by auto
  qed
qed

lemma timedelta_60: "timedelta_us 60 = 60000000"
  by code_simp

theorem outbox_round_outcome_witness:
  "\<exists>s'. send_outbox_once demo_penv demo_processor (\<lambda>m. Inl \<lparr>sf_text = ''lost'', sf_unknown = True\<rparr>) demo_round
       (demo_chan [Enqueue demo_message 1]) = ((Inl (PcRaised ''lost''), [demo_message]), s') \<and>
     outbox_status_of s' ''k'' = Some ObUnknown"
proof -
  let ?send = "\<lambda>m :: outbound_message. (Inl \<lparr>sf_text = ''lost'', sf_unknown = True\<rparr> :: send_failure + remote_receipt)"
  let ?s = "demo_chan [Enqueue demo_message 1]"
  have s: "?s = chan_run (pe_channel demo_penv) [Enqueue demo_message 1] new_channel_store" by (simp add: demo_penv_def)
  have "\<exists>s'. send_outbox_once demo_penv demo_processor ?send demo_round ?s = ((Inl (PcRaised ''lost''), [demo_message]), s')"
    by (simp add: send_outbox_once_def demo_processor_def demo_round_def demo_penv_def enqueue_fresh claim_outbox_def deadline_at_def
       channel_transaction_def claim_outbox_eq recovered_outbox_def outbox_expired_def pending_outbox_def order_by_def
       claim_outbox_row_def record_sending_def mark_outbox_unknown_def finish_outbox_def update_outbox_def rowcount_def
       outbox_held_def outbox_key_def Let_def timedelta_60 fresh_outbox_def)
  then obtain s' where s': "send_outbox_once demo_penv demo_processor ?send demo_round ?s = ((Inl (PcRaised ''lost''), [demo_message]), s')" ..
  from outbox_round_outcome [OF s s'] have "sending_recorded demo_message (?send demo_message) (Inl (PcRaised ''lost'')) s'" by auto
  then show ?thesis using s' by (auto simp: sending_recorded_def outbox_status_of_def split: option.splits)
qed

end
