(* ===== verification/TelegramAdapter.thy ===== *)
theory TelegramAdapter
  imports ChannelProcessor ChannelFormatting
begin

text \<open>
  The Telegram adapter of \<open>src/polaris/channels/telegram.py\<close>: what an HTTP answer means, the polling
  of updates into the channel store with the detection of a restarted update numbering, the loop
  around it, and the sending of a message with its retries.  The HTTP answers, the clock readings
  and the random numbers are arguments; the network itself is not modelled.
\<close>

section \<open>Requests\<close>

datatype telegram_error =
    TgClosed | TgInvalid | TgTransport | TgValue | TgStore channel_error
  | TgApi int "int option" "rat option" | TgConflict int "int option" "rat option"

text \<open>\<open>getattr(exc, "delivery_unknown", True)\<close>: the exceptions outside \<open>TelegramError\<close> have no such attribute.\<close>

fun delivery_unknown :: "telegram_error \<Rightarrow> bool" where
  "delivery_unknown TgTransport = True"
| "delivery_unknown TgValue = True"
| "delivery_unknown (TgStore e) = True"
| "delivery_unknown _ = False"

text \<open>An HTTP exchange: it failed, or there is a status, a JSON body and a \<open>Retry-After\<close> header that is a number.\<close>

record http_response =
  hr_status :: int
  hr_body :: "json option"
  hr_retry :: "rat option"

datatype http_result = HttpFailed | HttpDone http_response

definition body_dict :: "http_response \<Rightarrow> (str \<times> json) list option" where
  "body_dict r = (case hr_body r of Some (JObj kvs) \<Rightarrow> Some kvs | _ \<Rightarrow> None)"

definition body_error_code :: "http_response \<Rightarrow> int option" where
  "body_error_code r = (case body_dict r of None \<Rightarrow> None
     | Some kvs \<Rightarrow> (case jget kvs ''error_code'' of JInt i \<Rightarrow> Some i | JBool b \<Rightarrow> Some (if b then 1 else 0) | _ \<Rightarrow> None))"

definition body_retry_after :: "http_response \<Rightarrow> rat option" where
  "body_retry_after r = (case body_dict r of None \<Rightarrow> None
     | Some kvs \<Rightarrow> (case jget kvs ''parameters'' of
         JObj ps \<Rightarrow> (case jget ps ''retry_after'' of JInt i \<Rightarrow> Some (of_int i) | JFloat q \<Rightarrow> Some q | _ \<Rightarrow> None)
       | _ \<Rightarrow> None))"

definition effective_code :: "http_response \<Rightarrow> int" where
  "effective_code r =
     (if 400 \<le> hr_status r \<and> hr_status r < 500 then hr_status r
      else case body_error_code r of None \<Rightarrow> hr_status r | Some c \<Rightarrow> if c = 0 then hr_status r else c)"

definition telegram_answer :: "http_response \<Rightarrow> telegram_error + json" where
  "telegram_answer r =
     (let code = body_error_code r;
          retry = (case body_retry_after r of Some q \<Rightarrow> Some q
            | None \<Rightarrow> if hr_status r = 429 \<or> code = Some 429 then hr_retry r else None)
      in if 500 \<le> hr_status r then Inl TgTransport
         else if 500 \<le> effective_code r then Inl TgTransport
         else if 200 \<le> hr_status r \<and> hr_status r < 300 \<and>
             (case body_dict r of None \<Rightarrow> False | Some kvs \<Rightarrow> jget kvs ''ok'' = JBool True)
           then Inr (case body_dict r of None \<Rightarrow> JNull | Some kvs \<Rightarrow> jget kvs ''result'')
         else if \<not> (400 \<le> effective_code r \<and> effective_code r < 500) then Inl TgTransport
         else if effective_code r = 409 then Inl (TgConflict (hr_status r) code retry)
         else Inl (TgApi (hr_status r) code retry))"

record telegram_state =
  tg_last_update :: instant
  tg_epoch_offset :: "int option"
  tg_probing :: bool
  tg_identity :: "(str \<times> json) list option"
  tg_closed :: bool
  tg_stop :: bool

definition telegram_request :: "telegram_state \<Rightarrow> http_result \<Rightarrow> telegram_error + json" where
  "telegram_request st h =
     (if tg_closed st then Inl TgClosed
      else case h of HttpFailed \<Rightarrow> Inl TgTransport | HttpDone r \<Rightarrow> telegram_answer r)"

section \<open>The adapter\<close>

record telegram_config =
  tc_token :: ustr
  tc_stream :: str
  tc_policy :: auth_policy
  tc_long_poll :: int
  tc_timeout :: rat
  tc_close_timeout :: rat
  tc_max_conflicts :: int
  tc_max_retries :: int
  tc_max_retry_after :: rat
  tc_backoff_base :: rat
  tc_backoff_max :: rat
  tc_reset_after :: int

text \<open>The constructor, after the defaults from the store.\<close>

definition new_telegram :: "telegram_config \<Rightarrow> instant \<Rightarrow> telegram_error + telegram_state" where
  "new_telegram cfg now =
     (if tc_token cfg = [] then Inl TgValue
      else if tc_long_poll cfg < 0 \<or> tc_timeout cfg \<le> 0 \<or> tc_close_timeout cfg \<le> 0 then Inl TgValue
      else if tc_max_conflicts cfg < 1 \<or> tc_max_retries cfg < 0 then Inl TgValue
      else if tc_max_retry_after cfg \<le> 0 \<or> tc_backoff_base cfg \<le> 0 \<or> tc_backoff_max cfg \<le> 0 then Inl TgValue
      else if tc_reset_after cfg \<le> 0 then Inl TgValue
      else Inr \<lparr>tg_last_update = now, tg_epoch_offset = None, tg_probing = False, tg_identity = None,
        tg_closed = False, tg_stop = False\<rparr>)"

text \<open>\<open>connect\<close>: \<open>getMe\<close>, the binding of the stream to the bot, and \<open>deleteWebhook\<close>.\<close>

definition telegram_connect ::
  "channel_env \<Rightarrow> telegram_config \<Rightarrow> http_result \<Rightarrow> http_result \<Rightarrow> instant \<Rightarrow> telegram_state \<Rightarrow> channel_store \<Rightarrow>
   ((telegram_error + unit) \<times> telegram_state) \<times> channel_store" where
  "telegram_connect env cfg me hook now st s =
     (case telegram_request st me of
        Inl e \<Rightarrow> ((Inl e, st), s)
      | Inr (JObj identity) \<Rightarrow>
          (if \<not> jhas identity ''id'' then ((Inl TgInvalid, st), s)
           else let st1 = st\<lparr>tg_identity := Some identity\<rparr> in
             (case bind_telegram_identity env (py_str (ce_text env) (jget identity ''id'')) (Some (tc_stream cfg)) now s of
                (Inl e, s1) \<Rightarrow> ((Inl (TgStore e), st1), s1)
              | (Inr _, s1) \<Rightarrow>
                  (let st2 = st1\<lparr>tg_epoch_offset := None, tg_probing := False\<rparr> in
                   ((map_sum id (\<lambda>_. ()) (telegram_request st2 hook), st2), s1))))
      | Inr _ \<Rightarrow> ((Inl TgInvalid, st), s))"

definition close_telegram :: "telegram_state \<Rightarrow> telegram_state" where
  "close_telegram st = (if tg_closed st then st else st\<lparr>tg_closed := True, tg_stop := True\<rparr>)"

section \<open>Polling\<close>

definition poll_offset ::
  "channel_env \<Rightarrow> telegram_config \<Rightarrow> instant \<Rightarrow> telegram_state \<Rightarrow> channel_store \<Rightarrow> telegram_error + int option \<times> telegram_state" where
  "poll_offset env cfg now st s =
     (if tg_epoch_offset st \<noteq> None then Inr (tg_epoch_offset st, st)
      else case get_telegram_offset env (Some (tc_stream cfg)) s of
        Inl e \<Rightarrow> Inl (TgStore e)
      | Inr _ \<Rightarrow> (case get_telegram_offset_state (tc_stream cfg) s of
          Inl e \<Rightarrow> Inl (TgStore e)
        | Inr state \<Rightarrow>
            (let last = (case os_activity state of None \<Rightarrow> tg_last_update st | Some a \<Rightarrow> a) in
             if os_offset state \<noteq> None \<and> tc_reset_after cfg \<le> now - last then Inr (None, st\<lparr>tg_probing := True\<rparr>)
             else Inr (os_offset state, st))))"

type_synonym telegram_update = "int \<times> (str \<times> json) list"

fun checked_updates :: "json list \<Rightarrow> telegram_error + telegram_update list" where
  "checked_updates [] = Inr []"
| "checked_updates (JObj u # us) =
     (case jget u ''update_id'' of
        JInt i \<Rightarrow> map_sum id (\<lambda>rest. (i, u) # rest) (checked_updates us)
      | _ \<Rightarrow> Inl TgInvalid)"
| "checked_updates (_ # us) = Inl TgInvalid"

text \<open>The facts of one poll: the clock before and after it, the answer, the calls of the store while
  the request waited, and the clock readings of each ingest.\<close>

record poll_facts =
  pl_now :: instant
  pl_answer :: http_result
  pl_others :: "channel_op list"
  pl_epoch_now :: instant
  pl_received :: "nat \<Rightarrow> str"
  pl_stored :: "nat \<Rightarrow> instant"
  pl_after :: instant

fun ingest_all ::
  "channel_env \<Rightarrow> telegram_config \<Rightarrow> poll_facts \<Rightarrow> nat \<Rightarrow> telegram_update list \<Rightarrow> channel_store \<Rightarrow>
   (channel_error + ingest_result list) \<times> channel_store" where
  "ingest_all env cfg p n [] s = (Inr [], s)"
| "ingest_all env cfg p n ((i, u) # us) s =
     (case ingest_telegram_update env u (Some (tc_policy cfg)) (Some (tc_stream cfg)) (pl_received p n) (pl_stored p n) s of
        (Inl e, s1) \<Rightarrow> (Inl e, s1)
      | (Inr x, s1) \<Rightarrow> (case ingest_all env cfg p (Suc n) us s1 of
          (Inl e, s2) \<Rightarrow> (Inl e, s2) | (Inr xs, s2) \<Rightarrow> (Inr (x # xs), s2)))"

definition start_epoch ::
  "channel_env \<Rightarrow> telegram_config \<Rightarrow> poll_facts \<Rightarrow> telegram_state \<Rightarrow> telegram_update list \<Rightarrow> channel_store \<Rightarrow>
   (channel_error + unit) \<times> channel_store" where
  "start_epoch env cfg p st us s =
     (if us \<noteq> [] \<and> tg_probing st
      then (case begin_telegram_epoch env (Min (set (map fst us))) (Some (tc_stream cfg)) (pl_epoch_now p) s of
              (res, s1) \<Rightarrow> (map_sum id (\<lambda>_. ()) res, s1))
      else (Inr (), s))"

definition polled :: "poll_facts \<Rightarrow> telegram_update list \<Rightarrow> telegram_state \<Rightarrow> telegram_state" where
  "polled p us st =
     (if us = [] then st
      else let st1 = st\<lparr>tg_last_update := pl_after p\<rparr> in
        if tg_probing st1 \<or> tg_epoch_offset st1 \<noteq> None
        then st1\<lparr>tg_epoch_offset := Some (Max (set (map fst us)) + 1), tg_probing := False\<rparr> else st1)"

definition ingest_poll ::
  "channel_env \<Rightarrow> telegram_config \<Rightarrow> poll_facts \<Rightarrow> telegram_update list \<Rightarrow> telegram_state \<Rightarrow> channel_store \<Rightarrow>
   ((telegram_error + ingest_result list) \<times> telegram_state) \<times> channel_store" where
  "ingest_poll env cfg p us st s =
     (case start_epoch env cfg p st us s of
        (Inl e, s1) \<Rightarrow> ((Inl (TgStore e), st), s1)
      | (Inr _, s1) \<Rightarrow> (case ingest_all env cfg p 0 (sort_key fst us) s1 of
          (Inl e, s2) \<Rightarrow> ((Inl (TgStore e), st), s2)
        | (Inr xs, s2) \<Rightarrow> ((Inr xs, polled p us st), s2)))"

definition poll_once ::
  "channel_env \<Rightarrow> telegram_config \<Rightarrow> poll_facts \<Rightarrow> telegram_state \<Rightarrow> channel_store \<Rightarrow>
   ((telegram_error + ingest_result list) \<times> telegram_state) \<times> channel_store" where
  "poll_once env cfg p st s =
     (case poll_offset env cfg (pl_now p) st s of
        Inl e \<Rightarrow> ((Inl e, st), s)
      | Inr (offset, st1) \<Rightarrow>
          (case telegram_request st1 (pl_answer p) of
             Inl e \<Rightarrow> ((Inl e, st1), chan_run env (pl_others p) s)
           | Inr (JArr items) \<Rightarrow> (case checked_updates items of
               Inl e \<Rightarrow> ((Inl e, st1), chan_run env (pl_others p) s)
             | Inr us \<Rightarrow> ingest_poll env cfg p us st1 (chan_run env (pl_others p) s))
           | Inr _ \<Rightarrow> ((Inl TgInvalid, st1), chan_run env (pl_others p) s)))"

text \<open>\<open>poll_forever\<close> sees only the outcome of each poll: the loop's two counters, and how it ends.\<close>

datatype poll_outcome = PoDone | PoConflict | PoTelegram | PoOther | PoStopped

datatype poll_loop = LpRunning nat nat | LpConflict | LpRaised | LpStopped

fun outcome_of_poll :: "telegram_error + 'a \<Rightarrow> poll_outcome" where
  "outcome_of_poll (Inr x) = PoDone"
| "outcome_of_poll (Inl (TgConflict a b c)) = PoConflict"
| "outcome_of_poll (Inl TgValue) = PoOther"
| "outcome_of_poll (Inl (TgStore e)) = PoOther"
| "outcome_of_poll (Inl _) = PoTelegram"

fun poll_step :: "telegram_config \<Rightarrow> poll_outcome \<Rightarrow> poll_loop \<Rightarrow> poll_loop" where
  "poll_step cfg PoStopped (LpRunning f c) = LpStopped"
| "poll_step cfg PoDone (LpRunning f c) = LpRunning 0 0"
| "poll_step cfg PoConflict (LpRunning f c) =
     (if tc_max_conflicts cfg \<le> int (c + 1) then LpConflict else LpRunning (f + 1) (c + 1))"
| "poll_step cfg PoTelegram (LpRunning f c) = LpRunning (f + 1) 0"
| "poll_step cfg PoOther (LpRunning f c) = LpRaised"
| "poll_step cfg oc l = l"

text \<open>The delay after a failure; every operation on floats rounds.\<close>

definition backoff :: "telegram_config \<Rightarrow> nat \<Rightarrow> rat \<Rightarrow> rat" where
  "backoff cfg failures jitter =
     (let base = min (tc_backoff_max cfg) (round_double (tc_backoff_base cfg * 2 ^ min 30 (failures - 1)))
      in min (tc_backoff_max cfg) (round_double (base * round_double (1 / 2 + jitter))))"

section \<open>Sending\<close>

definition telegram_limit :: int where "telegram_limit = 4096"

definition prepare_telegram :: "outbound_message \<Rightarrow> telegram_error + outbound_message list" where
  "prepare_telegram m =
     (if om_platform m \<noteq> PfTelegram then Inl TgValue
      else if om_operation m = OpSend then map_sum (\<lambda>_. TgValue) id (chunk_outbound m telegram_limit)
      else case utf16_units (om_text m) of
        Inl e \<Rightarrow> Inl TgValue
      | Inr n \<Rightarrow> if (if om_operation m = OpAnswer then 200 else 4096) < n then Inl TgValue else Inr [m])"

datatype payload_value = PvText ustr | PvStr str | PvBool bool

definition payload_text :: "outbound_message \<Rightarrow> ustr" where
  "payload_text m =
     (if om_parse m = PmHtml \<and> jget (om_metadata m) ''trusted_html'' \<noteq> JBool True then safe_html (om_text m) else om_text m)"

definition send_payload :: "outbound_message \<Rightarrow> telegram_error + str \<times> (str \<times> payload_value) list" where
  "send_payload m =
     (let t = payload_text m in
      if om_operation m = OpAnswer then
        (case om_callback m of
           None \<Rightarrow> Inl TgValue
         | Some q \<Rightarrow> if q = [] then Inl TgValue
             else (case utf16_units t of
               Inl e \<Rightarrow> Inl TgValue
             | Inr n \<Rightarrow> if 200 < n then Inl TgValue
                 else Inr (''answerCallbackQuery'', [(''callback_query_id'', PvStr q), (''text'', PvText t)])))
      else let html = (if om_parse m = PmHtml then [(''parse_mode'', PvStr ''HTML'')] else []) in
        if om_operation m = OpEdit then
          (case om_message m of
             None \<Rightarrow> Inl TgValue
           | Some i \<Rightarrow> if i = [] then Inl TgValue
               else Inr (''editMessageText'',
                 [(''chat_id'', PvStr (om_channel m)), (''text'', PvText t)] @ html @ [(''message_id'', PvStr i)]))
        else Inr (''sendMessage'',
          [(''chat_id'', PvStr (om_channel m)), (''text'', PvText t), (''disable_notification'', PvBool (om_silent m))] @ html))"

definition rate_limited :: "telegram_error \<Rightarrow> bool" where
  "rate_limited e = (case e of TgApi st code r \<Rightarrow> st = 429 \<or> code = Some 429
     | TgConflict st code r \<Rightarrow> st = 429 \<or> code = Some 429 | _ \<Rightarrow> False)"

definition retry_after :: "telegram_error \<Rightarrow> rat option" where
  "retry_after e = (case e of TgApi st code r \<Rightarrow> r | TgConflict st code r \<Rightarrow> r | _ \<Rightarrow> None)"

text \<open>
  The retry loop for one part: the result with the delays it slept.  \<open>reply n\<close> is the answer to its
  n-th request, \<open>jitter n\<close> the random number for the n-th delay.
\<close>

definition send_delay :: "telegram_config \<Rightarrow> (nat \<Rightarrow> rat) \<Rightarrow> nat \<Rightarrow> telegram_error \<Rightarrow> rat" where
  "send_delay cfg jitter attempts e =
     min (tc_max_retry_after cfg) (max 0 (case retry_after e of Some q \<Rightarrow> q | None \<Rightarrow> backoff cfg attempts (jitter attempts)))"

function send_part ::
  "telegram_config \<Rightarrow> telegram_state \<Rightarrow> (nat \<Rightarrow> http_result) \<Rightarrow> (nat \<Rightarrow> rat) \<Rightarrow> outbound_message \<Rightarrow> nat \<Rightarrow>
   (telegram_error + json) \<times> rat list" where
  "send_part cfg st reply jitter m attempts =
     (case send_payload m of
        Inl e \<Rightarrow> (Inl e, [])
      | Inr payload \<Rightarrow> (case telegram_request st (reply attempts) of
          Inr v \<Rightarrow> (Inr v, [])
        | Inl e \<Rightarrow>
            if \<not> rate_limited e \<or> tc_max_retries cfg \<le> int attempts then (Inl e, [])
            else (case send_part cfg st reply jitter m (attempts + 1) of
              (res, delays) \<Rightarrow> (res, send_delay cfg jitter (attempts + 1) e # delays))))"
  by pat_completeness auto
termination
  by (relation "measure (\<lambda>(cfg, st, reply, jitter, m, attempts). nat (tc_max_retries cfg - int attempts))") auto

declare send_part.simps [simp del]

text \<open>The remote identifier that an answer to a part adds; an answered callback adds none.\<close>

definition part_receipt :: "text_env \<Rightarrow> outbound_message \<Rightarrow> json \<Rightarrow> telegram_error + str list" where
  "part_receipt te m v =
     (if om_operation m = OpAnswer \<and> v = JBool True then Inr []
      else case v of
        JObj kvs \<Rightarrow> (if jget kvs ''message_id'' \<noteq> JNull then Inr [py_str te (jget kvs ''message_id'')] else Inl TgTransport)
      | _ \<Rightarrow> Inl TgTransport)"

fun send_parts ::
  "text_env \<Rightarrow> telegram_config \<Rightarrow> telegram_state \<Rightarrow> (nat \<Rightarrow> nat \<Rightarrow> http_result) \<Rightarrow> (nat \<Rightarrow> nat \<Rightarrow> rat) \<Rightarrow> nat \<Rightarrow>
   outbound_message list \<Rightarrow> telegram_error + str list" where
  "send_parts te cfg st reply jitter i [] = Inr []"
| "send_parts te cfg st reply jitter i (m # ms) =
     (case fst (send_part cfg st (reply i) (jitter i) m 0) of
        Inl e \<Rightarrow> Inl e
      | Inr v \<Rightarrow> (case part_receipt te m v of
          Inl e \<Rightarrow> Inl e
        | Inr ids \<Rightarrow> map_sum id (\<lambda>rest. ids @ rest) (send_parts te cfg st reply jitter (Suc i) ms)))"

definition telegram_send ::
  "text_env \<Rightarrow> telegram_config \<Rightarrow> telegram_state \<Rightarrow> (nat \<Rightarrow> nat \<Rightarrow> http_result) \<Rightarrow> (nat \<Rightarrow> nat \<Rightarrow> rat) \<Rightarrow> outbound_message \<Rightarrow>
   telegram_error + remote_receipt" where
  "telegram_send te cfg st reply jitter m =
     (if om_platform m \<noteq> PfTelegram then Inl TgValue
      else case prepare_telegram m of
        Inl e \<Rightarrow> Inl e
      | Inr parts \<Rightarrow> map_sum id (\<lambda>ids. \<lparr>rr_platform = PfTelegram, rr_key = om_key m,
            rr_message = (if ids = [] then None else Some (last ids)), rr_channel = om_channel m,
            rr_operation = om_operation m, rr_messages = ids\<rparr>)
          (send_parts te cfg st reply jitter 0 parts))"

text \<open>The adapter as the sender and the preparer of a processor; \<open>why\<close> gives the texts of its exceptions.\<close>

definition telegram_sender ::
  "text_env \<Rightarrow> telegram_config \<Rightarrow> telegram_state \<Rightarrow> (telegram_error \<Rightarrow> str) \<Rightarrow> (nat \<Rightarrow> nat \<Rightarrow> http_result) \<Rightarrow> (nat \<Rightarrow> nat \<Rightarrow> rat) \<Rightarrow>
   channel_sender" where
  "telegram_sender te cfg st why reply jitter m =
     map_sum (\<lambda>e. \<lparr>sf_text = why e, sf_unknown = delivery_unknown e\<rparr>) id (telegram_send te cfg st reply jitter m)"

definition telegram_preparer :: "(telegram_error \<Rightarrow> str) \<Rightarrow> outbound_preparer" where
  "telegram_preparer why m = map_sum why id (prepare_telegram m)"

section \<open>Redaction\<close>

definition hex_upper :: "nat \<Rightarrow> nat" where
  "hex_upper n = (if n < 10 then 48 + n else 55 + n)"

text \<open>\<open>urllib.parse.quote(token, safe="")\<close>.\<close>

definition unreserved :: "nat \<Rightarrow> bool" where
  "unreserved c \<longleftrightarrow> (48 \<le> c \<and> c \<le> 57) \<or> (65 \<le> c \<and> c \<le> 90) \<or> (97 \<le> c \<and> c \<le> 122) \<or> c \<in> {95, 46, 45, 126}"

definition quote_plus_none :: "ustr \<Rightarrow> ustr" where
  "quote_plus_none t = concat (map (\<lambda>b. if unreserved (of_char b) then [of_char b]
     else [37, hex_upper (of_char b div 16), hex_upper (of_char b mod 16)]) (utf8_encode t))"

definition redacted_mark :: ustr where "redacted_mark = asc ''[REDACTED]''"

definition redact_token :: "ustr \<Rightarrow> ustr \<Rightarrow> ustr" where
  "redact_token token t =
     (let t1 = replace_all token redacted_mark t;
          t2 = replace_all (quote_plus_none token) redacted_mark t1
      in replace_all (asc ''https://api.telegram.org/bot'' @ token) (asc ''https://api.telegram.org/bot[REDACTED]'') t2)"

end
