(* ===== verification/TelegramProperties.thy ===== *)
theory TelegramProperties
  imports ChannelProcessorProperties TelegramAdapter
begin

text \<open>
  The properties of the Telegram adapter: no update of a batch is skipped by the next poll, what a
  reported failure means, how often and how long a send retries, when the polling loop gives up,
  and that error texts do not show the token.
\<close>

section \<open>Polling\<close>

definition next_of :: "str \<Rightarrow> channel_store \<Rightarrow> int option" where
  "next_of k s = map_option of_next (find_offset k (chdb s))"

definition event_stored :: "channel_env \<Rightarrow> str \<Rightarrow> channel_store \<Rightarrow> int \<Rightarrow> bool" where
  "event_stored env k s i \<longleftrightarrow> stored_event s (PfTelegram, telegram_event_id (epoch_of env (Some k) s) i) \<noteq> None"







definition ingested :: "channel_env \<Rightarrow> str \<Rightarrow> channel_store \<Rightarrow> channel_store \<Rightarrow> telegram_update list \<Rightarrow> bool" where
  "ingested env k s s' ds \<longleftrightarrow> (\<forall>iu \<in> set ds. event_stored env k s' (fst iu)) \<and>
     (\<forall>j. event_stored env k s j \<longrightarrow> event_stored env k s' j) \<and>
     (\<forall>m. next_of k s' = Some m \<longrightarrow> next_of k s = Some m \<or> (\<exists>iu \<in> set ds. m = fst iu + 1))"

lemma ingested_Nil [simp]: "ingested env k s s []"
  by (simp add: ingested_def)










definition demo_telegram :: telegram_config where
  "demo_telegram = \<lparr>tc_token = asc ''7:xyz'', tc_stream = ''main'', tc_policy = ce_policy demo_env, tc_long_poll = 30,
     tc_timeout = 10, tc_close_timeout = 5, tc_max_conflicts = 3, tc_max_retries = 3, tc_max_retry_after = 60,
     tc_backoff_base = 1 / 2, tc_backoff_max = 30, tc_reset_after = 604800000000\<rparr>"

definition demo_telegram_state :: telegram_state where
  "demo_telegram_state = \<lparr>tg_last_update = 0, tg_epoch_offset = None, tg_probing = False, tg_identity = None,
     tg_closed = False, tg_stop = False\<rparr>"




text \<open>
  Once a restarted numbering was detected, the adapter keeps its cursor in memory and never looks at the
  last activity again: no later poll of this process omits the offset, however long the silence
  was, so a second restart of the numbering is not detected.
\<close>

theorem second_restart_undetected:
  assumes "tg_epoch_offset st \<noteq> None"
    and "poll_once env cfg p st s = ((res, st'), s')"
  shows "tg_epoch_offset st' \<noteq> None \<and> (\<forall>now s2. \<exists>n. poll_offset env cfg now st' s2 = Inr (Some n, st'))"
proof -
  have "tg_epoch_offset st' \<noteq> None"
    using assms by (auto simp: poll_once_def poll_offset_def ingest_poll_def polled_def Let_def
        split: sum.splits json.splits prod.splits if_splits)
  then show ?thesis by (auto simp: poll_offset_def)
qed

section \<open>The polling loop\<close>

definition trail :: "poll_outcome list \<Rightarrow> nat" where
  "trail ocs = length (takeWhile (\<lambda>oc. oc = PoConflict) (List.rev ocs))"

lemma trail_simps [simp]: "trail [] = 0" "trail (ocs @ [oc]) = (if oc = PoConflict then trail ocs + 1 else 0)"
  by (simp_all add: trail_def)

lemma trail_block: "trail (ps @ replicate n PoConflict) \<ge> n"
  by (simp add: trail_def takeWhile_append)

lemma trail_suffix: "\<exists>ps. ocs = ps @ replicate (trail ocs) PoConflict"
proof (induction ocs rule: rev_induct)
  case (snoc oc ocs)
  then show ?case
  proof (cases "oc = PoConflict")
    case True
    then obtain ps where "ocs = ps @ replicate (trail ocs) PoConflict" using snoc by blast
    then have "ocs @ [oc] = ps @ (replicate (trail ocs) PoConflict @ [PoConflict])" using True by (metis append.assoc)
    also have "\<dots> = ps @ replicate (trail ocs + 1) PoConflict" by (simp add: replicate_append_same)
    finally have "ocs @ [oc] = ps @ replicate (trail ocs + 1) PoConflict" .
    moreover have "trail (ocs @ [oc]) = trail ocs + 1" using True by simp
    ultimately show ?thesis by metis
  qed simp
qed simp

definition has_block :: "nat \<Rightarrow> poll_outcome list \<Rightarrow> bool" where
  "has_block n ocs \<longleftrightarrow> (\<exists>ps qs. ocs = ps @ replicate n PoConflict @ qs)"

lemma has_block_snoc: "has_block n (ocs @ [oc]) \<longleftrightarrow> has_block n ocs \<or> n \<le> trail (ocs @ [oc])"
proof
  assume "has_block n (ocs @ [oc])"
  then obtain ps qs where split: "ocs @ [oc] = ps @ replicate n PoConflict @ qs" by (auto simp: has_block_def)
  show "has_block n ocs \<or> n \<le> trail (ocs @ [oc])"
  proof (cases qs rule: rev_cases)
    case Nil
    then show ?thesis using split trail_block [of n ps] by simp
  next
    case (snoc qs' q)
    then have "ocs = ps @ replicate n PoConflict @ qs'" using split by simp
    then show ?thesis by (auto simp: has_block_def)
  qed
next
  assume "has_block n ocs \<or> n \<le> trail (ocs @ [oc])"
  then show "has_block n (ocs @ [oc])"
  proof
    assume "has_block n ocs"
    then obtain ps qs where "ocs = ps @ replicate n PoConflict @ qs" by (auto simp: has_block_def)
    then have "ocs @ [oc] = ps @ replicate n PoConflict @ (qs @ [oc])" by simp
    then show ?thesis unfolding has_block_def by blast
  next
    define t where "t = trail (ocs @ [oc])"
    assume "n \<le> trail (ocs @ [oc])"
    then have n: "t - n + n = t" by (simp add: t_def)
    obtain ps where "ocs @ [oc] = ps @ replicate t PoConflict" unfolding t_def using trail_suffix by blast
    also have "\<dots> = (ps @ replicate (t - n) PoConflict) @ replicate n PoConflict @ []"
      using replicate_add [of "t - n" n PoConflict] n by simp
    finally show ?thesis unfolding has_block_def by blast
  qed
qed

lemma poll_loop_state:
  assumes "set ocs \<subseteq> {PoDone, PoConflict, PoTelegram}" and "1 \<le> tc_max_conflicts cfg"
  shows "if has_block (nat (tc_max_conflicts cfg)) ocs then fold (poll_step cfg) ocs (LpRunning 0 0) = LpConflict
    else \<exists>f. fold (poll_step cfg) ocs (LpRunning 0 0) = LpRunning f (trail ocs) \<and> int (trail ocs) < tc_max_conflicts cfg"
  using assms
proof (induction ocs rule: rev_induct)
  case Nil
  then show ?case by (auto simp: has_block_def)
next
  case (snoc oc ocs)
  let ?k = "nat (tc_max_conflicts cfg)"
  have IH: "if has_block ?k ocs then fold (poll_step cfg) ocs (LpRunning 0 0) = LpConflict
    else \<exists>f. fold (poll_step cfg) ocs (LpRunning 0 0) = LpRunning f (trail ocs) \<and> int (trail ocs) < tc_max_conflicts cfg"
    using snoc by simp
  have oc: "oc = PoDone \<or> oc = PoConflict \<or> oc = PoTelegram" using snoc.prems(1) by simp
  show ?case
  proof (cases "has_block ?k ocs")
    case True
    then show ?thesis using IH oc by (auto simp: has_block_snoc)
  next
    case False
    then obtain f where "fold (poll_step cfg) ocs (LpRunning 0 0) = LpRunning f (trail ocs)" "int (trail ocs) < tc_max_conflicts cfg"
      using IH by auto
    then show ?thesis using False oc snoc.prems(2) by (auto simp: has_block_snoc)
  qed
qed

text \<open>
  C35: failed requests never end the polling loop: it gives up exactly after the configured number of
  conflicts with another poller in a row, and a successful poll or another failure in between
  starts the count again.
\<close>

theorem polling_gives_up_on_conflicts:
  assumes "new_telegram cfg now = Inr st" and "set ocs \<subseteq> {PoDone, PoConflict, PoTelegram}"
  shows "if \<exists>ps qs. ocs = ps @ replicate (nat (tc_max_conflicts cfg)) PoConflict @ qs
    then fold (poll_step cfg) ocs (LpRunning 0 0) = LpConflict
    else \<exists>f c. fold (poll_step cfg) ocs (LpRunning 0 0) = LpRunning f c"
  using poll_loop_state [OF assms(2), of cfg] assms(1)
  unfolding has_block_def by (auto simp: new_telegram_def split: if_splits)

theorem polling_gives_up_on_conflicts_witness:
  "fold (poll_step demo_telegram) [PoTelegram, PoConflict, PoConflict, PoConflict] (LpRunning 0 0) = LpConflict"
proof -
  have new: "new_telegram demo_telegram 0 = Inr demo_telegram_state"
    by (simp add: new_telegram_def demo_telegram_def demo_telegram_state_def asc_def)
  have "\<exists>ps qs. [PoTelegram, PoConflict, PoConflict, PoConflict] = ps @ replicate (nat (tc_max_conflicts demo_telegram)) PoConflict @ qs"
    by (intro two_witnesses [of _ "[PoTelegram]" "[]"]) (simp add: demo_telegram_def numeral_3_eq_3)
  then show ?thesis using polling_gives_up_on_conflicts [OF new, of "[PoTelegram, PoConflict, PoConflict, PoConflict]"]
    by (simp del: fold_simps)
qed

section \<open>Sending\<close>

text \<open>The server refused the request: it answered with an error that is the client's.\<close>

definition refused :: "http_result \<Rightarrow> bool" where
  "refused h = (case h of HttpFailed \<Rightarrow> False
     | HttpDone r \<Rightarrow> hr_status r < 500 \<and> 400 \<le> effective_code r \<and> effective_code r < 500)"

lemma answer_known: "telegram_answer r = Inl e \<Longrightarrow> \<not> delivery_unknown e \<Longrightarrow> refused (HttpDone r)"
  by (auto simp: telegram_answer_def Let_def refused_def split: if_splits)

lemma request_known:
  "telegram_request st h = Inl e \<Longrightarrow> \<not> delivery_unknown e \<Longrightarrow> \<not> tg_closed st \<Longrightarrow> refused h"
  using answer_known by (auto simp: telegram_request_def split: http_result.splits)

lemma rate_limited_known: "rate_limited e \<Longrightarrow> \<not> delivery_unknown e"
  by (cases e) (auto simp: rate_limited_def)

lemma send_delay_bounds: "0 < tc_max_retry_after cfg \<Longrightarrow> 0 \<le> send_delay cfg jitter n e \<and> send_delay cfg jitter n e \<le> tc_max_retry_after cfg"
  by (simp add: send_delay_def)

lemma send_part_trace:
  assumes "send_part cfg st reply jitter m a = (res, delays)" and "0 < tc_max_retry_after cfg"
  shows "(\<forall>d \<in> set delays. 0 \<le> d \<and> d \<le> tc_max_retry_after cfg) \<and>
    int (a + length delays) \<le> max (int a) (tc_max_retries cfg) \<and>
    (\<forall>j < length delays. \<exists>e. telegram_request st (reply (a + j)) = Inl e \<and> rate_limited e) \<and>
    (\<forall>payload. send_payload m = Inr payload \<longrightarrow> res = telegram_request st (reply (a + length delays))) \<and>
    (\<forall>e. send_payload m = Inl e \<longrightarrow> res = Inl e)"
  using assms
proof (induction cfg st reply jitter m a arbitrary: res delays rule: send_part.induct)
  case (1 cfg st reply jitter m a)
  show ?case
  proof (cases "send_payload m")
    case (Inl e)
    then show ?thesis using 1(2) by (simp add: send_part.simps [of cfg st reply jitter m a])
  next
    case payload: (Inr payload)
    show ?thesis
    proof (cases "telegram_request st (reply a)")
      case (Inr v)
      then show ?thesis using 1(2) payload by (simp add: send_part.simps [of cfg st reply jitter m a])
    next
      case (Inl e)
      show ?thesis
      proof (cases "\<not> rate_limited e \<or> tc_max_retries cfg \<le> int a")
        case True
        then show ?thesis using 1(2) payload Inl by (simp add: send_part.simps [of cfg st reply jitter m a])
      next
        case False
        obtain res1 ds where rest: "send_part cfg st reply jitter m (a + 1) = (res1, ds)" by (metis surj_pair)
        have eq: "res = res1" "delays = send_delay cfg jitter (a + 1) e # ds"
          using 1(2) payload Inl False rest by (simp_all add: send_part.simps [of cfg st reply jitter m a])
        have IH: "(\<forall>d \<in> set ds. 0 \<le> d \<and> d \<le> tc_max_retry_after cfg) \<and>
            int (a + 1 + length ds) \<le> max (int (a + 1)) (tc_max_retries cfg) \<and>
            (\<forall>j < length ds. \<exists>e. telegram_request st (reply (a + 1 + j)) = Inl e \<and> rate_limited e) \<and>
            (\<forall>payload. send_payload m = Inr payload \<longrightarrow> res1 = telegram_request st (reply (a + 1 + length ds)))"
          using 1(1) [OF payload Inl False rest 1(3)] by blast
        have "\<exists>e. telegram_request st (reply (a + j)) = Inl e \<and> rate_limited e" if "j < length delays" for j
          using IH Inl False that eq(2) by (cases j) auto
        moreover have "int (a + length delays) \<le> max (int a) (tc_max_retries cfg)" using IH False eq(2) by simp
        ultimately show ?thesis using IH eq payload send_delay_bounds [OF 1(3)] by simp
      qed
    qed
  qed
qed

lemma payload_error_unknown: "send_payload m = Inl e \<Longrightarrow> e = TgValue"
  by (auto simp: send_payload_def Let_def split: if_splits option.splits sum.splits)

lemma receipt_error_unknown: "part_receipt te m v = Inl e \<Longrightarrow> e = TgTransport"
  by (auto simp: part_receipt_def split: if_splits json.splits)

lemma send_part_exhausted:
  "send_part cfg st reply jitter m a = (Inl e, delays) \<Longrightarrow> send_payload m = Inr p \<Longrightarrow> rate_limited e \<Longrightarrow>
   tc_max_retries cfg \<le> int (a + length delays)"
proof (induction cfg st reply jitter m a arbitrary: delays rule: send_part.induct)
  case (1 cfg st reply jitter m a)
  show ?case
  proof (cases "telegram_request st (reply a)")
    case (Inl e')
    show ?thesis
    proof (cases "\<not> rate_limited e' \<or> tc_max_retries cfg \<le> int a")
      case False
      obtain res ds where rest: "send_part cfg st reply jitter m (a + 1) = (res, ds)" by (metis surj_pair)
      have eq: "res = Inl e" "delays = send_delay cfg jitter (a + 1) e' # ds"
        using 1(2,3) Inl False rest by (simp_all add: send_part.simps [of cfg st reply jitter m a])
      have "tc_max_retries cfg \<le> int (a + 1 + length ds)"
        using 1(1) [OF 1(3) Inl False] rest eq(1) 1(3,4) by simp
      then show ?thesis by (simp add: eq(2))
    qed (use 1(2-) Inl in \<open>auto simp: send_part.simps [of cfg st reply jitter m a]\<close>)
  qed (use 1(2-) in \<open>simp add: send_part.simps [of cfg st reply jitter m a]\<close>)
qed

lemma single_part_refused:
  assumes "new_telegram cfg now = Inr st0" and "\<not> tg_closed st" and "prepare_telegram m = Inr [m']"
    and "telegram_send te cfg st reply jitter m = Inl e" and "\<not> delivery_unknown e"
  shows "\<exists>delays. send_part cfg st (reply 0) (jitter 0) m' 0 = (Inl e, delays) \<and>
    int (length delays) \<le> tc_max_retries cfg \<and> (rate_limited e \<longrightarrow> int (length delays) = tc_max_retries cfg) \<and>
    (\<forall>d \<in> set delays. 0 \<le> d \<and> d \<le> tc_max_retry_after cfg) \<and>
    (\<forall>j \<le> length delays. refused (reply 0 j)) \<and>
    (\<forall>j < length delays. \<exists>e'. telegram_request st (reply 0 j) = Inl e' \<and> rate_limited e') \<and>
    telegram_request st (reply 0 (length delays)) = Inl e"
proof -
  have cfg: "0 < tc_max_retry_after cfg" "0 \<le> tc_max_retries cfg"
    using assms(1) by (auto simp: new_telegram_def split: if_splits)
  have pf: "om_platform m = PfTelegram" using assms(3) by (auto simp: prepare_telegram_def split: if_splits)
  obtain res delays where part: "send_part cfg st (reply 0) (jitter 0) m' 0 = (res, delays)" by (metis surj_pair)
  note trace = send_part_trace [OF part cfg(1)]
  have res: "res = Inl e"
    using assms(3,4,5) pf part receipt_error_unknown
    by (auto simp: telegram_send_def split: sum.splits) fastforce
  moreover obtain payload where payload: "send_payload m' = Inr payload"
    using calculation trace payload_error_unknown assms(5) by (cases "send_payload m'") force+
  ultimately have final: "telegram_request st (reply 0 (length delays)) = Inl e" using trace by auto
  have "refused (reply 0 j)" if "j \<le> length delays" for j
  proof (cases "j < length delays")
    case True
    then obtain e' where "telegram_request st (reply 0 j) = Inl e'" "rate_limited e'" using trace by auto
    then show ?thesis using request_known rate_limited_known assms(2) by blast
  next
    case False
    then show ?thesis using final that request_known assms(2,5) by simp
  qed
  moreover have "rate_limited e \<longrightarrow> tc_max_retries cfg \<le> int (length delays)"
    using send_part_exhausted [OF part [unfolded res] payload] by simp
  ultimately show ?thesis using trace cfg(2) part res final by (intro exI [of _ delays]) auto
qed

text \<open>
  C34: a message that the processor records as failed through the Telegram adapter was not delivered.
  The adapter made one request and one more after each of its delays; it made at most the configured number
  of retries, each after a delay between zero and the configured maximum; every request was answered
  by the server with a refusal, all but the last with a rate limit, and the last one also only if
  the retries were used up.  (The message was prepared before it was stored, so it is one part.)
\<close>

theorem failed_means_refused:
  assumes "new_telegram cfg now = Inr st0" and "\<not> tg_closed st" and "prepare_telegram m = Inr [m']"
    and "s = chan_run (pe_channel pe) ops new_channel_store"
    and "send_outbox_once pe pc (telegram_sender te cfg st why reply jitter) rn s = ((res, [m]), s')"
    and "\<And>y. res \<noteq> Inl (PcStore y)"
    and "outbox_status_of s' (om_key m) = Some ObFailed"
  shows "\<exists>e delays. send_part cfg st (reply 0) (jitter 0) m' 0 = (Inl e, delays) \<and>
    int (length delays) \<le> tc_max_retries cfg \<and> (rate_limited e \<longrightarrow> int (length delays) = tc_max_retries cfg) \<and>
    (\<forall>d \<in> set delays. 0 \<le> d \<and> d \<le> tc_max_retry_after cfg) \<and>
    (\<forall>j \<le> length delays. refused (reply 0 j)) \<and>
    (\<forall>j < length delays. \<exists>e'. telegram_request st (reply 0 j) = Inl e' \<and> rate_limited e') \<and>
    telegram_request st (reply 0 (length delays)) = Inl e"
proof -
  have "sending_recorded m (telegram_sender te cfg st why reply jitter m) res s'"
    using outbox_round_outcome [OF assms(4,5)] assms(6) by auto
  then obtain e where "telegram_send te cfg st reply jitter m = Inl e" "\<not> delivery_unknown e"
    using assms(7)
    by (cases "telegram_send te cfg st reply jitter m")
      (auto simp: sending_recorded_def telegram_sender_def outbox_status_of_def split: option.splits if_splits)
  from single_part_refused [OF assms(1,2,3) this] show ?thesis by blast
qed

definition bad_request :: http_result where
  "bad_request = HttpDone \<lparr>hr_status = 400, hr_body = Some (JObj []), hr_retry = None\<rparr>"

lemma demo_prepared: "prepare_telegram demo_message = Inr [demo_message]"
  by (simp add: prepare_telegram_def telegram_limit_def chunk_outbound_def chunk_text_def chunk_loop.simps [of 4096 "[104]"]
      chunk_loop.simps [of 4096 "[]"] take_units_def cp_units_def preserve_fences_def demo_message_def)

lemma demo_refused: "telegram_send te demo_telegram demo_telegram_state (\<lambda>_ _. bad_request) (\<lambda>_ _. 0) demo_message = Inl (TgApi 400 None None)"
proof -
  obtain payload where payload: "send_payload demo_message = Inr payload" by (simp add: send_payload_def demo_message_def)
  have request: "telegram_request demo_telegram_state bad_request = Inl (TgApi 400 None None)"
    by (simp add: telegram_request_def demo_telegram_state_def bad_request_def telegram_answer_def body_error_code_def
        body_retry_after_def body_dict_def effective_code_def jget_def)
  have "send_part demo_telegram demo_telegram_state (\<lambda>_. bad_request) (\<lambda>_. 0) demo_message 0 = (Inl (TgApi 400 None None), [])"
    by (subst send_part.simps) (simp add: payload request rate_limited_def)
  then show ?thesis by (simp add: telegram_send_def demo_prepared)
qed

theorem failed_means_refused_witness:
  "\<exists>e delays. send_part demo_telegram demo_telegram_state (\<lambda>_. bad_request) (\<lambda>_. 0) demo_message 0 = (Inl e, delays) \<and>
     int (length delays) \<le> tc_max_retries demo_telegram"
proof -
  let ?send = "telegram_sender (ce_text demo_env) demo_telegram demo_telegram_state (\<lambda>_. ''no'') (\<lambda>_ _. bad_request) (\<lambda>_ _. 0)"
  let ?s = "demo_chan [Enqueue demo_message 1]"
  have new: "new_telegram demo_telegram 0 = Inr demo_telegram_state"
    by (simp add: new_telegram_def demo_telegram_def demo_telegram_state_def asc_def)
  have s: "?s = chan_run (pe_channel demo_penv) [Enqueue demo_message 1] new_channel_store" by (simp add: demo_penv_def)
  have send: "?send demo_message = Inl \<lparr>sf_text = ''no'', sf_unknown = False\<rparr>" by (simp add: telegram_sender_def demo_refused)
  have "\<exists>s'. send_outbox_once demo_penv demo_processor ?send demo_round ?s = ((Inl (PcRaised ''no''), [demo_message]), s') \<and>
      outbox_status_of s' (om_key demo_message) = Some ObFailed"
    by (simp add: send_outbox_once_def demo_processor_def demo_round_def demo_penv_def enqueue_fresh claim_outbox_def deadline_at_def
       channel_transaction_def claim_outbox_eq recovered_outbox_def outbox_expired_def pending_outbox_def order_by_def
       claim_outbox_row_def record_sending_def mark_outbox_failed_def finish_outbox_def update_outbox_def rowcount_def
       outbox_held_def outbox_key_def Let_def timedelta_60 fresh_outbox_def send outbox_status_of_def)
  then obtain s' where s': "send_outbox_once demo_penv demo_processor ?send demo_round ?s = ((Inl (PcRaised ''no''), [demo_message]), s')"
      "outbox_status_of s' (om_key demo_message) = Some ObFailed" by blast
  have closed: "\<not> tg_closed demo_telegram_state" by (simp add: demo_telegram_state_def)
  from failed_means_refused [OF new closed demo_prepared s s'(1) _ s'(2)] show ?thesis by auto
qed

text \<open>
  An answer to a callback in HTML mode is escaped although \<open>answerCallbackQuery\<close> has no parse mode, and its
  length is checked before the escaping when it is prepared and after it when it is sent.  So a
  text of 100 ampersands is accepted into the outbox, is refused on every send, and is recorded as
  of unknown outcome although no request was made.
\<close>

definition escaped_answer :: outbound_message where
  "escaped_answer = demo_message\<lparr>om_operation := OpAnswer, om_parse := PmHtml, om_callback := Some ''q'',
     om_text := replicate 100 38\<rparr>"

lemma units_repeated: "units (concat (replicate n t)) = n * units t"
  by (induction n) auto

theorem prepared_answer_never_sent:
  "prepare_telegram escaped_answer = Inr [escaped_answer] \<and>
   telegram_send te cfg st reply jitter escaped_answer = Inl TgValue \<and> delivery_unknown TgValue"
proof -
  have plain: "prepare_telegram escaped_answer = Inr [escaped_answer]"
    by (simp add: prepare_telegram_def escaped_answer_def demo_message_def utf16_units_def units_def surrogate_def cp_units_def
        sum_list_replicate list_ex_iff)
  have html: "payload_text escaped_answer = concat (replicate 100 [38, 97, 109, 112, 59])"
    by (simp add: payload_text_def escaped_answer_def demo_message_def jget_def safe_html_def escape_code_def)
  have ascii: "\<not> list_ex surrogate (concat (replicate 100 [38, 97, 109, 112, 59]))" "units (concat (replicate 100 [38, 97, 109, 112, 59])) = 500"
    by (auto simp: list_ex_iff surrogate_def units_repeated cp_units_def)
  have "utf16_units (concat (replicate 100 [38, 97, 109, 112, 59])) = Inr 500" by (simp only: utf16_units_def ascii if_False)
  then have "send_payload escaped_answer = Inl TgValue"
    unfolding send_payload_def html Let_def by (simp add: escaped_answer_def)
  then have "send_part cfg st (reply 0) (jitter 0) escaped_answer 0 = (Inl TgValue, [])"
    by (subst send_part.simps) simp
  then show ?thesis using plain by (simp add: telegram_send_def escaped_answer_def)
qed

end
