(* ===== verification/TelegramRedaction.thy ===== *)
theory TelegramRedaction
  imports TelegramAdapter
begin

text \<open>
  The redaction of error texts: what \<open>str.replace\<close> removes is gone, and the bot's token, plain or quoted,
  does not appear in a redacted text.
\<close>

section \<open>Occurrences\<close>

lemma contains_Nil_iff: "contains p [] \<longleftrightarrow> p = []"
  by (auto simp: contains_iff)

lemma contains_appendI: "contains p x \<Longrightarrow> contains p (x @ y)" "contains p y \<Longrightarrow> contains p (x @ y)"
  unfolding contains_iff by (metis append.assoc)+

text \<open>A text that does not contain the character between two texts occurs in one of them.\<close>

lemma contains_split:
  assumes "contains p (x @ b # y)" and "b \<notin> set p" and "p \<noteq> []"
  shows "contains p x \<or> contains p y"
proof -
  obtain a r where split: "x @ b # y = a @ p @ r" using assms(1) by (auto simp: contains_iff)
  from split consider us where "x = a @ us" "us @ b # y = p @ r" | us where "x @ us = a" "b # y = us @ p @ r"
    by (auto simp: append_eq_append_conv2)
  then show ?thesis
  proof cases
    case 1
    from 1(2) consider vs where "us = p @ vs" | vs where "us @ vs = p" "b # y = vs @ r"
      by (auto simp: append_eq_append_conv2)
    then show ?thesis
    proof cases
      case 1
      then have "x = a @ p @ vs" using \<open>x = a @ us\<close> by simp
      then show ?thesis by (auto simp: contains_iff)
    next
      case 2
      then have "vs = []" using assms(2) by (cases vs) auto
      then have "x = a @ p @ []" using 2 \<open>x = a @ us\<close> by simp
      then show ?thesis unfolding contains_iff by blast
    qed
  next
    case 2
    show ?thesis
    proof (cases us)
      case Nil
      then show ?thesis using 2(2) assms(2,3) by (cases p) auto
    next
      case (Cons c cs)
      then have "y = cs @ p @ r" using 2(2) by simp
      then show ?thesis by (auto simp: contains_iff)
    qed
  qed
qed

text \<open>A replacement text that keeps apart: its first and last characters and its middle are foreign to the pattern.\<close>

definition separates :: "'a list \<Rightarrow> 'a list \<Rightarrow> bool" where
  "separates new p \<longleftrightarrow> p \<noteq> [] \<and> (\<exists>b mid b'. new = b # mid @ [b'] \<and> b \<notin> set p \<and> b' \<notin> set p \<and> \<not> contains p mid)"

lemma separates_contains:
  assumes "separates new p" and "contains p (x @ new @ y)"
  shows "contains p x \<or> contains p y"
proof -
  obtain b mid b' where new: "new = b # mid @ [b']" "b \<notin> set p" "b' \<notin> set p" "\<not> contains p mid" "p \<noteq> []"
    using assms(1) by (auto simp: separates_def)
  have "contains p (x @ b # (mid @ b' # y))" using assms(2) new(1) by simp
  then have "contains p x \<or> contains p (mid @ b' # y)" using contains_split new(2,5) by metis
  then show ?thesis using contains_split new(3-5) by metis
qed

lemma replace_all_Nil [simp]: "replace_all q new [] = []"
  by (subst replace_all.simps) simp

lemma replace_all_hit: "q \<noteq> [] \<Longrightarrow> replace_all q new (q @ r) = new @ replace_all q new r"
  by (subst replace_all.simps) (simp add: prefix_of_iff)

lemma replace_all_miss: "q \<noteq> [] \<Longrightarrow> \<not> prefix_of q (c # t) \<Longrightarrow> replace_all q new (c # t) = c # replace_all q new t"
  by (subst replace_all.simps) simp

text \<open>A replacement creates no new occurrence of a pattern it keeps apart.\<close>

lemma replace_all_no_new:
  assumes "separates new p"
  shows "contains p (u @ replace_all q new t) \<Longrightarrow> contains p (u @ t)"
proof (induction "length t" arbitrary: t u rule: less_induct)
  case less
  show ?case
  proof (cases "q = [] \<or> t = []")
    case True
    then show ?thesis using less.prems by (simp add: replace_all.simps [of q new t])
  next
    case False
    show ?thesis
    proof (cases "prefix_of q t")
      case True
      then obtain r where t: "t = q @ r" by (auto simp: prefix_of_iff)
      then have "replace_all q new t = new @ replace_all q new r" using False by (simp add: replace_all_hit)
      then have "contains p u \<or> contains p (replace_all q new r)"
        using less.prems separates_contains [OF assms] by simp
      moreover have "length r < length t" using t False by simp
      ultimately have "contains p u \<or> contains p ([] @ r)" using less.hyps [of r "[]"] by auto
      then show ?thesis unfolding t using contains_appendI by (metis append_Nil)
    next
      case no: False
      then obtain c t' where t: "t = c # t'" using False by (cases t) auto
      then have "replace_all q new t = c # replace_all q new t'"
        using False no by (simp add: replace_all_miss)
      then have "contains p ((u @ [c]) @ replace_all q new t')" using less.prems by simp
      then have "contains p ((u @ [c]) @ t')" using less.hyps [of t' "u @ [c]"] t by simp
      then show ?thesis using t by simp
    qed
  qed
qed

text \<open>A replacement leaves no occurrence of the pattern it replaces.\<close>

lemma replace_all_gone:
  assumes "separates new p"
  shows "(\<And>a r. u @ t = a @ p @ r \<Longrightarrow> length u \<le> length a) \<Longrightarrow> \<not> contains p (u @ replace_all p new t)"
proof (induction "length t" arbitrary: t u rule: less_induct)
  case less
  have p: "p \<noteq> []" using assms by (auto simp: separates_def)
  have alone: "\<not> contains p u"
  proof
    assume "contains p u"
    then obtain a r where u: "u = a @ p @ r" by (auto simp: contains_iff)
    have "length u \<le> length a" by (rule less.prems [of a "r @ t"]) (simp add: u)
    then show False using u p by simp
  qed
  show ?case
  proof (cases "t = []")
    case True
    then show ?thesis using alone by simp
  next
    case False
    show ?thesis
    proof (cases "prefix_of p t")
      case True
      then obtain r where t: "t = p @ r" by (auto simp: prefix_of_iff)
      then have eq: "replace_all p new t = new @ replace_all p new r" using p by (simp add: replace_all_hit)
      have "\<not> contains p ([] @ replace_all p new r)" by (rule less.hyps) (use t p in auto)
      then show ?thesis unfolding eq using alone separates_contains [OF assms] by auto
    next
      case no: False
      then obtain c t' where t: "t = c # t'" using False by (cases t) auto
      then have eq: "replace_all p new t = c # replace_all p new t'"
        using no p by (simp add: replace_all_miss)
      have "\<not> contains p ((u @ [c]) @ replace_all p new t')"
      proof (rule less.hyps)
        fix a r assume split: "(u @ [c]) @ t' = a @ p @ r"
        then have "length u \<le> length a" using less.prems [of a r] t by simp
        moreover have "length u \<noteq> length a"
        proof
          assume "length u = length a"
          then have "c # t' = p @ r" using split by (simp add: append_eq_append_conv)
          then show False using no t by (auto simp: prefix_of_iff)
        qed
        ultimately show "length (u @ [c]) \<le> length a" by simp
      qed (use t in simp)
      then show ?thesis unfolding eq by simp
    qed
  qed
qed

lemma replaced_gone: "separates new p \<Longrightarrow> \<not> contains p (replace_all p new t)"
  using replace_all_gone [of new p "[]" t] by simp

lemma replace_all_absent: "\<not> contains q t \<Longrightarrow> replace_all q new t = t"
proof (induction t)
  case (Cons c t)
  have "\<not> prefix_of q (c # t)"
    using Cons.prems by (auto simp: prefix_of_iff contains_iff) (metis append_Nil)
  moreover have "\<not> contains q t" using Cons.prems contains_appendI(2) [of q t "[c]"] by auto
  moreover have "q \<noteq> []" using Cons.prems by (cases q) (auto simp: contains_def)
  ultimately show ?case using Cons.IH by (simp add: replace_all_miss)
qed simp

section \<open>The token\<close>

text \<open>A token as Telegram issues it: not empty, without brackets, and not a part of the replacement text.\<close>

definition proper_token :: "ustr \<Rightarrow> bool" where
  "proper_token t \<longleftrightarrow> t \<noteq> [] \<and> 91 \<notin> set t \<and> 93 \<notin> set t \<and> \<not> contains t (asc ''REDACTED'')"

lemma redacted_separates: "proper_token t \<Longrightarrow> separates redacted_mark t"
  unfolding separates_def proper_token_def redacted_mark_def
  by (intro conjI exI [of _ 91] exI [of _ "asc ''REDACTED''"] exI [of _ 93]) (auto simp: asc_def)

lemma contains_trans: "contains p q \<Longrightarrow> contains q t \<Longrightarrow> contains p t"
  unfolding contains_iff by (metis append.assoc)

text \<open>
  C36: a redacted text shows the token neither as it is nor in its quoted form, whatever text an
  exception or the server supplied.
\<close>

theorem redaction_hides_token:
  assumes "proper_token token" and "proper_token (quote_plus_none token)"
  shows "\<not> contains token (redact_token token t) \<and> \<not> contains (quote_plus_none token) (redact_token token t)"
proof -
  let ?t1 = "replace_all token redacted_mark t"
  let ?t2 = "replace_all (quote_plus_none token) redacted_mark ?t1"
  have t1: "\<not> contains token ?t1" by (rule replaced_gone [OF redacted_separates [OF assms(1)]])
  have t2: "\<not> contains token ?t2"
    using replace_all_no_new [OF redacted_separates [OF assms(1)], of "[]" "quote_plus_none token" ?t1] t1 by auto
  have quoted: "\<not> contains (quote_plus_none token) ?t2" by (rule replaced_gone [OF redacted_separates [OF assms(2)]])
  have "contains token (asc ''https://api.telegram.org/bot'' @ token)"
    by (auto simp: contains_iff intro: exI [of _ "[]"])
  then have "redact_token token t = ?t2"
    unfolding redact_token_def Let_def using contains_trans t2 by (intro replace_all_absent) blast
  then show ?thesis using t2 quoted by simp
qed

theorem redaction_hides_token_witness:
  "\<not> contains (asc ''7:xyz'') (redact_token (asc ''7:xyz'') (asc ''https://api.telegram.org/bot7:xyz/getMe''))"
proof -
  have "quote_plus_none (asc ''7:xyz'') = asc ''7%3Axyz''"
    by (simp add: quote_plus_none_def asc_def utf8_encode_def utf8_char_def unreserved_def hex_upper_def)
  moreover have "proper_token (asc ''7:xyz'')" "proper_token (asc ''7%3Axyz'')"
    by (simp_all add: proper_token_def asc_def contains_def)
  ultimately show ?thesis using redaction_hides_token [of "asc ''7:xyz''"] by simp
qed

end
