(* ===== verification/JsonText.thy ===== *)
theory JsonText
  imports Texts
begin

text \<open>
  Stored JSON is read again: \<open>decode_json\<close> of \<open>src/polaris/journal/codec.py\<close>, that is the parser of
  \<open>json.loads\<close> on UTF-8 text.  The nesting of a text is bounded by its length, which is the fuel of the
  parser.  \<open>NaN\<close> and \<open>Infinity\<close>, which \<open>canonical_json\<close> never writes, are refused.  The reading of a
  float from its digits is the parameter \<open>floats\<close>.

  The main result: what \<open>canonical_json\<close> wrote is read back as the same value with sorted members.
\<close>

section \<open>The parser\<close>

definition json_space :: "char \<Rightarrow> bool" where
  "json_space c \<longleftrightarrow> (of_char c :: nat) \<in> {9, 10, 13, 32}"

definition skip_space :: "str \<Rightarrow> str" where
  "skip_space t = dropWhile json_space t"

definition is_digit :: "char \<Rightarrow> bool" where
  "is_digit c \<longleftrightarrow> 48 \<le> (of_char c :: nat) \<and> (of_char c :: nat) \<le> 57"

definition hex_value :: "char \<Rightarrow> nat option" where
  "hex_value c = (let n = of_char c :: nat in
     if 48 \<le> n \<and> n \<le> 57 then Some (n - 48)
     else if 97 \<le> n \<and> n \<le> 102 then Some (n - 87)
     else if 65 \<le> n \<and> n \<le> 70 then Some (n - 55) else None)"

fun hex4_value :: "str \<Rightarrow> (nat \<times> str) option" where
  "hex4_value (a # b # c # d # t) =
     (case (hex_value a, hex_value b, hex_value c, hex_value d) of
        (Some w, Some x, Some y, Some z) \<Rightarrow> Some (w * 4096 + x * 256 + y * 16 + z, t)
      | _ \<Rightarrow> None)"
| "hex4_value _ = None"

text \<open>The code point of a \<open>\u\<close> escape: a high surrogate joins a low one that follows.\<close>

definition unicode_escape :: "str \<Rightarrow> (nat \<times> str) option" where
  "unicode_escape t =
     (case hex4_value t of
        None \<Rightarrow> None
      | Some (h, r) \<Rightarrow>
          (if 55296 \<le> h \<and> h \<le> 56319 \<and> take 2 r = [char_of (92 :: nat), CHR ''u''] then
             (case hex4_value (drop 2 r) of
                None \<Rightarrow> None
              | Some (l, r') \<Rightarrow>
                  if 56320 \<le> l \<and> l \<le> 57343 then Some (65536 + (h - 55296) * 1024 + (l - 56320), r')
                  else Some (h, r))
           else Some (h, r)))"

definition simple_escape :: "char \<Rightarrow> char option" where
  "simple_escape c =
     (let n = of_char c :: nat in
      if n = 34 \<or> n = 92 \<or> n = 47 then Some c
      else if c = CHR ''b'' then Some (char_of (8 :: nat))
      else if c = CHR ''f'' then Some (char_of (12 :: nat))
      else if c = CHR ''n'' then Some (char_of (10 :: nat))
      else if c = CHR ''r'' then Some (char_of (13 :: nat))
      else if c = CHR ''t'' then Some (char_of (9 :: nat)) else None)"

text \<open>The text up to the closing quote; control characters are refused (\<open>strict\<close>).\<close>

fun scan_string :: "nat \<Rightarrow> str \<Rightarrow> (str \<times> str) option" where
  "scan_string 0 t = None"
| "scan_string (Suc n) [] = None"
| "scan_string (Suc n) (c # t) =
     (if (of_char c :: nat) = 34 then Some ([], t)
      else if (of_char c :: nat) < 32 then None
      else if (of_char c :: nat) = 92 then
        (case t of
           [] \<Rightarrow> None
         | e # r \<Rightarrow>
             (case (if e = CHR ''u'' then map_option (map_prod utf8_char id) (unicode_escape r)
                    else map_option (\<lambda>x. ([x], r)) (simple_escape e)) of
                None \<Rightarrow> None
              | Some (xs, r') \<Rightarrow> map_option (map_prod (\<lambda>s. xs @ s) id) (scan_string n r')))
      else map_option (map_prod (\<lambda>s. c # s) id) (scan_string n t))"

text \<open>A number: the integer part, and the fraction and the exponent where they are complete.\<close>

definition scan_integer :: "str \<Rightarrow> (str \<times> str) option" where
  "scan_integer t =
     (let (sign, r) = (if take 1 t = ''-'' then (''-'', drop 1 t) else ([], t)) in
      case r of
        [] \<Rightarrow> None
      | c # r' \<Rightarrow> if c = CHR ''0'' then Some (sign @ [c], r')
                 else if is_digit c then Some (sign @ takeWhile is_digit r, dropWhile is_digit r)
                 else None)"

definition scan_fraction :: "str \<Rightarrow> str \<times> str" where
  "scan_fraction t =
     (case t of
        [] \<Rightarrow> ([], t)
      | c # r \<Rightarrow> if c = CHR ''.'' \<and> takeWhile is_digit r \<noteq> []
                then (c # takeWhile is_digit r, dropWhile is_digit r) else ([], t))"

definition scan_exponent :: "str \<Rightarrow> str \<times> str" where
  "scan_exponent t =
     (case t of
        [] \<Rightarrow> ([], t)
      | c # r \<Rightarrow>
          (let (sign, r') = (if take 1 r = ''-'' \<or> take 1 r = ''+'' then (take 1 r, drop 1 r) else ([], r)) in
           if (c = CHR ''e'' \<or> c = CHR ''E'') \<and> takeWhile is_digit r' \<noteq> []
           then (c # sign @ takeWhile is_digit r', dropWhile is_digit r') else ([], t)))"

definition integer_value :: "str \<Rightarrow> int" where
  "integer_value t = (if take 1 t = ''-'' then - int (digits_value (drop 1 t)) else int (digits_value t))"

definition scan_number :: "(str \<Rightarrow> rat) \<Rightarrow> str \<Rightarrow> (json \<times> str) option" where
  "scan_number floats t =
     (case scan_integer t of
        None \<Rightarrow> None
      | Some (digits, r) \<Rightarrow>
          (let (fraction, r1) = scan_fraction r; (ex, r2) = scan_exponent r1 in
           Some (if fraction = [] \<and> ex = [] then JInt (integer_value digits)
                 else JFloat (floats (digits @ fraction @ ex)), r2)))"

text \<open>A name or a number, an object or an array.  Of equal keys the later value counts.\<close>

definition put_member :: "str \<times> json \<Rightarrow> (str \<times> json) list \<Rightarrow> (str \<times> json) list" where
  "put_member kv kvs =
     (if fst kv \<in> set (map fst kvs) then map (\<lambda>(k, v). (k, if k = fst kv then snd kv else v)) kvs
      else kvs @ [kv])"

definition object_of_pairs :: "(str \<times> json) list \<Rightarrow> json" where
  "object_of_pairs kvs = JObj (fold put_member kvs [])"

fun scan_value :: "(str \<Rightarrow> rat) \<Rightarrow> nat \<Rightarrow> str \<Rightarrow> (json \<times> str) option"
  and scan_items :: "(str \<Rightarrow> rat) \<Rightarrow> nat \<Rightarrow> str \<Rightarrow> (json list \<times> str) option"
  and scan_members :: "(str \<Rightarrow> rat) \<Rightarrow> nat \<Rightarrow> str \<Rightarrow> ((str \<times> json) list \<times> str) option"
where
  "scan_value floats 0 t = None"
| "scan_value floats (Suc n) t =
     (case t of
        [] \<Rightarrow> None
      | c # r \<Rightarrow>
          (if (of_char c :: nat) = 34 then map_option (map_prod JStr id) (scan_string (length r) r)
           else if c = CHR ''{'' then
             (if take 1 (skip_space r) = ''}'' then Some (JObj [], drop 1 (skip_space r))
              else map_option (map_prod object_of_pairs id) (scan_members floats n (skip_space r)))
           else if c = CHR ''['' then
             (if take 1 (skip_space r) = '']'' then Some (JArr [], drop 1 (skip_space r))
              else map_option (map_prod JArr id) (scan_items floats n (skip_space r)))
           else if take 4 t = ''null'' then Some (JNull, drop 4 t)
           else if take 4 t = ''true'' then Some (JBool True, drop 4 t)
           else if take 5 t = ''false'' then Some (JBool False, drop 5 t)
           else scan_number floats t))"
| "scan_items floats 0 t = None"
| "scan_items floats (Suc n) t =
     (case scan_value floats n t of
        None \<Rightarrow> None
      | Some (v, r) \<Rightarrow>
          (case skip_space r of
             [] \<Rightarrow> None
           | c # r' \<Rightarrow> if c = CHR '']'' then Some ([v], r')
                      else if c = CHR '','' then map_option (map_prod (\<lambda>vs. v # vs) id) (scan_items floats n (skip_space r'))
                      else None))"
| "scan_members floats 0 t = None"
| "scan_members floats (Suc n) t =
     (if (of_char (hd (t @ '' '')) :: nat) \<noteq> 34 then None
      else case scan_string (length (tl t)) (tl t) of
        None \<Rightarrow> None
      | Some (k, r) \<Rightarrow>
          (if take 1 (skip_space r) \<noteq> '':'' then None
           else case scan_value floats n (skip_space (drop 1 (skip_space r))) of
             None \<Rightarrow> None
           | Some (v, r1) \<Rightarrow>
               (case skip_space r1 of
                  [] \<Rightarrow> None
                | c # r' \<Rightarrow> if c = CHR ''}'' then Some ([(k, v)], r')
                           else if c = CHR '','' then
                             map_option (map_prod (\<lambda>kvs. (k, v) # kvs) id) (scan_members floats n (skip_space r'))
                           else None)))"

definition json_loads :: "(str \<Rightarrow> rat) \<Rightarrow> str \<Rightarrow> json option" where
  "json_loads floats t =
     (case scan_value floats (length t) (skip_space t) of
        None \<Rightarrow> None
      | Some (v, r) \<Rightarrow> if skip_space r = [] then Some v else None)"

text \<open>\<open>decode_json\<close>: a null column is no value.\<close>

definition decode_json :: "(str \<Rightarrow> rat) \<Rightarrow> str option \<Rightarrow> json option" where
  "decode_json floats x = (case x of None \<Rightarrow> Some JNull | Some t \<Rightarrow> json_loads floats t)"

section \<open>What is read back\<close>

fun sorted_json :: "json \<Rightarrow> json" where
  "sorted_json (JArr xs) = JArr (map sorted_json xs)"
| "sorted_json (JObj kvs) = JObj (sort_key fst (map (\<lambda>(k, v). (k, sorted_json v)) kvs))"
| "sorted_json v = v"

text \<open>A character that cannot continue a number.\<close>

definition number_ends :: "str \<Rightarrow> bool" where
  "number_ends r \<longleftrightarrow> (case r of [] \<Rightarrow> True | c # _ \<Rightarrow> \<not> is_digit c \<and> c \<noteq> CHR ''.'' \<and> c \<noteq> CHR ''e'' \<and> c \<noteq> CHR ''E'')"

text \<open>A value of the program: keys are distinct, and the digits of its floats are read back.\<close>

fun json_ok :: "codec \<Rightarrow> (str \<Rightarrow> rat) \<Rightarrow> json \<Rightarrow> bool" where
  "json_ok cd floats (JFloat x) \<longleftrightarrow>
     (case float_repr cd x of [] \<Rightarrow> False | c # _ \<Rightarrow> is_digit c \<or> c = CHR ''-'') \<and>
     (\<forall>r. number_ends r \<longrightarrow> scan_number floats (float_repr cd x @ r) = Some (JFloat x, r))"
| "json_ok cd floats (JArr xs) \<longleftrightarrow> list_all (json_ok cd floats) xs"
| "json_ok cd floats (JObj kvs) \<longleftrightarrow> distinct (map fst kvs) \<and> list_all (\<lambda>(k, v). json_ok cd floats v) kvs"
| "json_ok cd floats v \<longleftrightarrow> True"

section \<open>Reading back\<close>

lemma hex_value_digit [simp]: "n < 16 \<Longrightarrow> hex_value (hex_digit n) = Some n"
  by (auto simp: hex_value_def hex_digit_def Let_def)

lemma escape_code_control:
  "n < 32 \<Longrightarrow> unicode_escape (CHR ''0'' # CHR ''0'' # hex_digit (n div 16) # hex_digit (n mod 16) # r) = Some (n, r)"
proof -
  assume n: "n < 32"
  have zero: "hex_value (CHR ''0'') = Some 0" by (simp add: hex_value_def)
  have "hex_value (hex_digit (n div 16)) = Some (n div 16)" "hex_value (hex_digit (n mod 16)) = Some (n mod 16)"
    using n by (auto intro: hex_value_digit)
  then have "hex4_value (CHR ''0'' # CHR ''0'' # hex_digit (n div 16) # hex_digit (n mod 16) # r) = Some (n, r)"
    using zero by simp
  then show ?thesis using n by (simp add: unicode_escape_def)
qed

lemma simple_escapes:
  "simple_escape (char_of (34::nat)) = Some (char_of (34::nat))" "simple_escape (char_of (92::nat)) = Some (char_of (92::nat))"
  "simple_escape (CHR ''n'') = Some (char_of (10::nat))" "simple_escape (CHR ''r'') = Some (char_of (13::nat))"
  "simple_escape (CHR ''t'') = Some (char_of (9::nat))" "simple_escape (CHR ''f'') = Some (char_of (12::nat))"
  "simple_escape (CHR ''b'') = Some (char_of (8::nat))"
  by (simp_all add: simple_escape_def)

lemma scan_string_simple:
  assumes "simple_escape e = Some c" "e \<noteq> CHR ''u''"
  shows "scan_string (Suc n) (char_of (92::nat) # e # t) = map_option (map_prod (\<lambda>s. c # s) id) (scan_string n t)"
proof -
  have "(@) [c] = (#) c" by (rule ext) simp
  then show ?thesis using assms by simp
qed

text \<open>One character of a quoted text.\<close>

lemma scan_string_char:
  "scan_string (Suc n) (escape_char c @ t) = map_option (map_prod (\<lambda>s. c # s) id) (scan_string n t)"
proof -
  define k :: nat where "k = of_char c"
  have c: "c = char_of k" by (simp add: k_def)
  consider "k \<in> {34, 92, 10, 13, 9, 12, 8}" | "k < 32" "k \<notin> {10, 13, 9, 12, 8}" | "32 \<le> k" "k \<notin> {34, 92}"
    by fastforce
  then show ?thesis
  proof cases
    case 1
    then have "c \<in> {CHR 0x22, CHR 0x5C, CHR 0x0A, CHR 0x0D, CHR 0x09, CHR 0x0C, CHR 0x08}"
      by (elim insertE emptyE) (simp_all add: c char_of_def bit_0)
    then have "\<exists>e. escape_char c = [char_of (92::nat), e] \<and> simple_escape e = Some c \<and> e \<noteq> CHR ''u''"
      by (elim insertE emptyE) (simp_all add: escape_char_def simple_escape_def char_of_def bit_0)
    then show ?thesis by (metis append_Cons append_Nil scan_string_simple)
  next
    case 2
    have "utf8_char k = [c]" using 2 by (simp add: utf8_char_def c)
    moreover have "(@) [c] = (#) c" by (rule ext) simp
    ultimately show ?thesis using 2 escape_code_control [of k t]
      by (simp add: escape_char_def k_def [symmetric] Let_def option.map_comp comp_def)
  next
    case 3
    then show ?thesis by (simp add: escape_char_def k_def [symmetric] Let_def)
  qed
qed

lemma scan_string_plain:
  "length s < n \<Longrightarrow> scan_string n (concat (map escape_char s) @ char_of (34::nat) # r) = Some (s, r)"
proof (induction s arbitrary: n)
  case Nil
  then obtain m where "n = Suc m" by (cases n) auto
  then show ?case by simp
next
  case (Cons c s)
  then obtain m where n: "n = Suc m" "length s < m" by (cases n) auto
  then show ?case using Cons.IH [of m] scan_string_char [of m c "concat (map escape_char s) @ char_of (34::nat) # r"]
    by (simp del: scan_string.simps)
qed

lemma length_escaped: "length s \<le> length (concat (map escape_char s))"
proof (induction s)
  case (Cons c s)
  have "escape_char c \<noteq> []" by (simp add: escape_char_def Let_def)
  then have "1 \<le> length (escape_char c)" by (cases "escape_char c") auto
  with Cons show ?case by simp
qed simp

lemma scan_string_quoted:
  "quote_text s = char_of (34::nat) # tl (quote_text s)"
  "n = length (tl (quote_text s @ r)) \<Longrightarrow> scan_string n (tl (quote_text s @ r)) = Some (s, r)"
  using length_escaped [of s] by (auto simp: quote_text_def intro!: scan_string_plain)

lemma is_digit_nat_digits: "c \<in> set (nat_digits n) \<Longrightarrow> is_digit c"
  using nat_digits_chars by (auto simp: is_digit_def)

lemma nat_digits_nonempty [simp]: "nat_digits n \<noteq> []"
  by (subst nat_digits.simps) simp

lemma nat_digits_zero: "hd (nat_digits n) = CHR ''0'' \<Longrightarrow> nat_digits n = ''0''"
proof (induction n rule: nat_digits.induct)
  case (1 n)
  show ?case
  proof (cases "n < 10")
    case True
    then have e: "nat_digits n = [char_of (48 + n)]" by (subst nat_digits.simps) simp
    then show ?thesis using 1(2) by (simp add: e)
  next
    case False
    then have e: "nat_digits n = nat_digits (n div 10) @ [char_of (48 + n mod 10)]" by (subst nat_digits.simps) simp
    then have "hd (nat_digits (n div 10)) = CHR ''0''" using 1(2) by simp
    then have "nat_digits (n div 10) = ''0''" using 1(1) False by simp
    then have "digits_value (nat_digits (n div 10)) = 0" by (simp add: digits_value_def)
    then show ?thesis using False by simp
  qed
qed

lemma number_ends_digits: "number_ends r \<Longrightarrow> takeWhile is_digit r = [] \<and> dropWhile is_digit r = r"
  by (cases r) (auto simp: number_ends_def)

lemma scan_integer_nat:
  assumes "number_ends r"
  shows "scan_integer (nat_digits n @ r) = Some (nat_digits n, r)"
    "scan_integer (CHR ''-'' # nat_digits n @ r) = Some (CHR ''-'' # nat_digits n, r)"
proof -
  obtain c cs where d: "nat_digits n = c # cs" by (cases "nat_digits n") auto
  have digits: "is_digit x" if "x \<in> set (c # cs)" for x using is_digit_nat_digits that d by metis
  have c: "is_digit c" by (simp add: digits)
  then have minus: "c \<noteq> CHR ''-''" by (auto simp: is_digit_def)
  have zero: "c = CHR ''0'' \<Longrightarrow> cs = []" using nat_digits_zero [of n] d by simp
  have more: "takeWhile is_digit (cs @ r) = cs" "dropWhile is_digit (cs @ r) = r"
    using digits number_ends_digits [OF assms] by (simp_all add: takeWhile_append dropWhile_append)
  show "scan_integer (nat_digits n @ r) = Some (nat_digits n, r)"
    using c minus zero more by (cases "c = CHR ''0''") (simp_all add: scan_integer_def d)
  show "scan_integer (CHR ''-'' # nat_digits n @ r) = Some (CHR ''-'' # nat_digits n, r)"
    using c minus zero more by (cases "c = CHR ''0''") (simp_all add: scan_integer_def d)
qed

lemma scan_number_int:
  assumes "number_ends r"
  shows "scan_number floats (py_int_str i @ r) = Some (JInt i, r)"
proof -
  have fraction: "scan_fraction r = ([], r)" "scan_exponent r = ([], r)"
    using assms by (auto simp: scan_fraction_def scan_exponent_def number_ends_def split: list.splits)
  have "take 1 (nat_digits n) \<noteq> ''-''" for n
    using is_digit_nat_digits [of "CHR ''-''" n] by (cases "nat_digits n") (auto simp: is_digit_def)
  then show ?thesis using fraction scan_integer_nat [OF assms]
    by (auto simp: scan_number_def py_int_str_def integer_value_def)
qed

lemma scan_number_first:
  assumes "is_digit c \<or> c = CHR ''-''" "0 < n"
  shows "scan_value floats n (c # t) = scan_number floats (c # t)"
proof -
  obtain m where n: "n = Suc m" using assms(2) by (cases n) auto
  have "(of_char c :: nat) \<noteq> 34" "c \<noteq> CHR ''{''" "c \<noteq> CHR ''[''" "c \<noteq> CHR ''n''" "c \<noteq> CHR ''t''" "c \<noteq> CHR ''f''"
    using assms(1) by (auto simp: is_digit_def)
  then show ?thesis by (simp add: n)
qed

lemma skip_space_first [simp]: "\<not> json_space c \<Longrightarrow> skip_space (c # t) = c # t"
  by (simp add: skip_space_def)

lemma not_space [simp]:
  "is_digit c \<Longrightarrow> \<not> json_space c" "\<not> json_space (CHR ''-'')" "\<not> json_space (char_of (34::nat))"
  "\<not> json_space (CHR ''{'')" "\<not> json_space (CHR ''['')" "\<not> json_space (CHR ''}'')" "\<not> json_space (CHR '']'')"
  "\<not> json_space (CHR '','')" "\<not> json_space (CHR '':'')" "\<not> json_space (CHR ''n'')" "\<not> json_space (CHR ''t'')"
  "\<not> json_space (CHR ''f'')"
  by (auto simp: json_space_def is_digit_def)

lemma py_int_str_first: "\<exists>c t. py_int_str i = c # t \<and> (is_digit c \<or> c = CHR ''-'')"
proof (cases "i < 0")
  case False
  obtain c t where "nat_digits (nat i) = c # t" by (cases "nat_digits (nat i)") auto
  moreover have "is_digit c" using is_digit_nat_digits [of c "nat i"] calculation by simp
  ultimately show ?thesis using False by (simp add: py_int_str_def)
qed (simp add: py_int_str_def)

lemma quote_char: "char_of (34::nat) = CHR 0x22"
  by (simp add: char_of_def bit_0)

text \<open>The first character of a canonical text decides what is parsed.\<close>

lemma canonical_first:
  assumes "json_ok cd floats v"
  shows "\<exists>c t. canonical_json cd v = c # t \<and> \<not> json_space c \<and> c \<noteq> CHR '']''"
proof (cases v)
  case (JInt i)
  then show ?thesis using py_int_str_first [of i] by (auto simp: is_digit_def)
next
  case (JFloat x)
  then show ?thesis using assms by (auto simp: is_digit_def split: list.splits)
qed (use quote_char in \<open>auto simp: quote_text_def json_space_def\<close>)

lemma scan_items_joined:
  assumes "xs \<noteq> []" "list_all (json_ok cd floats) xs"
    "\<And>v n r. v \<in> set xs \<Longrightarrow> number_ends r \<Longrightarrow> length (canonical_json cd v) \<le> n \<Longrightarrow>
       scan_value floats n (canonical_json cd v @ r) = Some (sorted_json v, r)"
    "length (join_text '','' (map (canonical_json cd) xs)) < n"
  shows "scan_items floats n (join_text '','' (map (canonical_json cd) xs) @ CHR '']'' # r) = Some (map sorted_json xs, r)"
  using assms
proof (induction xs arbitrary: n)
  case (Cons v xs)
  obtain m where n: "n = Suc m" using Cons.prems(4) by (cases n) auto
  show ?case
  proof (cases xs)
    case Nil
    have "scan_value floats m (canonical_json cd v @ CHR '']'' # r) = Some (sorted_json v, CHR '']'' # r)"
      using Cons.prems(4) by (intro Cons.prems(3)) (simp_all add: Nil n number_ends_def is_digit_def)
    then show ?thesis by (simp add: Nil n)
  next
    case more: (Cons w ws)
    let ?rest = "join_text '','' (map (canonical_json cd) xs) @ CHR '']'' # r"
    have v: "scan_value floats m (canonical_json cd v @ CHR '','' # ?rest) = Some (sorted_json v, CHR '','' # ?rest)"
      using Cons.prems(4) by (intro Cons.prems(3)) (simp_all add: more n number_ends_def is_digit_def)
    have rest: "scan_items floats m ?rest = Some (map sorted_json xs, r)"
      using Cons.prems more n by (intro Cons.IH) auto
    obtain c t where "canonical_json cd w = c # t" "\<not> json_space c"
      using canonical_first [of cd floats w] Cons.prems(2) more by auto
    then have "skip_space ?rest = ?rest" by (cases ws) (simp_all add: more)
    then show ?thesis using v rest by (simp add: more n)
  qed
qed simp

lemma sort_key_values: "sort_key fst (map (\<lambda>(k, v). (k, f v)) kvs) = map (\<lambda>(k, v). (k, f v)) (sort_key fst kvs)"
proof (induction kvs)
  case (Cons kv kvs)
  have "insort_key fst (case kv of (k, v) \<Rightarrow> (k, f v)) (map (\<lambda>(k, v). (k, f v)) xs) =
      map (\<lambda>(k, v). (k, f v)) (insort_key fst kv xs)" for xs
    by (induction xs) (auto split: prod.splits)
  then show ?case using Cons by simp
qed simp

definition member_text :: "codec \<Rightarrow> str \<times> json \<Rightarrow> str" where
  "member_text cd kv = quote_text (fst kv) @ '':'' @ canonical_json cd (snd kv)"

lemma canonical_object:
  "canonical_json cd (JObj kvs) = ''{'' @ join_text '','' (map (member_text cd) (sort_key fst kvs)) @ ''}''"
proof -
  have "map (\<lambda>(k, t). quote_text k @ '':'' @ t) (map (\<lambda>(k, v). (k, canonical_json cd v)) xs) = map (member_text cd) xs" for xs
    by (simp add: member_text_def case_prod_unfold)
  then show ?thesis by (simp only: canonical_json.simps sort_key_values)
qed

lemma scan_member_text:
  assumes v: "scan_value floats m (canonical_json cd v @ t) = Some (w, t)" and ok: "json_ok cd floats v"
  shows "scan_members floats (Suc m) (member_text cd (k, v) @ t) =
      (case skip_space t of [] \<Rightarrow> None
       | c # r' \<Rightarrow> if c = CHR ''}'' then Some ([(k, w)], r')
                  else if c = CHR '','' then
                    map_option (map_prod (\<lambda>kvs. (k, w) # kvs) id) (scan_members floats m (skip_space r'))
                  else None)"
proof -
  let ?r = "CHR '':'' # canonical_json cd v @ t"
  have spelled: "member_text cd (k, v) @ t = char_of (34::nat) # tl (quote_text k @ ?r)"
    by (simp add: member_text_def quote_text_def)
  have key: "scan_string (length (tl (quote_text k @ ?r))) (tl (quote_text k @ ?r)) = Some (k, ?r)"
    by (rule scan_string_quoted(2)) simp
  have "skip_space (canonical_json cd v @ t) = canonical_json cd v @ t"
    using canonical_first [OF ok] by auto
  then show ?thesis unfolding spelled using key v by simp
qed

lemma scan_members_joined:
  assumes "kvs \<noteq> []" "\<And>k v. (k, v) \<in> set kvs \<Longrightarrow> json_ok cd floats v"
    "\<And>k v n r. (k, v) \<in> set kvs \<Longrightarrow> number_ends r \<Longrightarrow> length (canonical_json cd v) \<le> n \<Longrightarrow>
       scan_value floats n (canonical_json cd v @ r) = Some (sorted_json v, r)"
    "length (join_text '','' (map (member_text cd) kvs)) < n"
  shows "scan_members floats n (join_text '','' (map (member_text cd) kvs) @ CHR ''}'' # r) =
    Some (map (\<lambda>(k, v). (k, sorted_json v)) kvs, r)"
  using assms
proof (induction kvs arbitrary: n)
  case (Cons kv kvs)
  obtain k v where kv: "kv = (k, v)" by (cases kv)
  obtain m where n: "n = Suc m" using Cons.prems(4) by (cases n) auto
  have ok: "json_ok cd floats v" by (rule Cons.prems(2) [of k]) (simp add: kv)
  have small: "length (canonical_json cd v) \<le> length (member_text cd kv)" by (simp add: member_text_def kv)
  show ?case
  proof (cases kvs)
    case Nil
    have "scan_value floats m (canonical_json cd v @ CHR ''}'' # r) = Some (sorted_json v, CHR ''}'' # r)"
      using Cons.prems(4) small by (intro Cons.prems(3) [of k]) (simp_all add: Nil n kv number_ends_def is_digit_def)
    from scan_member_text [OF this ok] show ?thesis by (simp add: Nil n kv del: scan_members.simps)
  next
    case more: (Cons kw ws)
    let ?rest = "join_text '','' (map (member_text cd) kvs) @ CHR ''}'' # r"
    have "scan_value floats m (canonical_json cd v @ CHR '','' # ?rest) = Some (sorted_json v, CHR '','' # ?rest)"
      using Cons.prems(4) small by (intro Cons.prems(3) [of k]) (simp_all add: more n kv number_ends_def is_digit_def)
    note step = scan_member_text [OF this ok]
    have rest: "scan_members floats m ?rest = Some (map (\<lambda>(k, v). (k, sorted_json v)) kvs, r)"
    proof (rule Cons.IH)
      show "length (join_text '','' (map (member_text cd) kvs)) < m" using Cons.prems(4) by (simp add: more n)
    qed (use Cons.prems(2,3) more in \<open>simp, meson list.set_intros(2), meson list.set_intros(2)\<close>)
    have "skip_space ?rest = ?rest"
      by (cases ws) (simp_all add: more member_text_def quote_text_def)
    then show ?thesis using step rest by (simp add: more n kv del: scan_members.simps)
  qed
qed simp

lemma put_members_distinct:
  "distinct (map fst (acc @ kvs)) \<Longrightarrow> fold put_member kvs acc = acc @ kvs"
  by (induction kvs arbitrary: acc) (auto simp: put_member_def)

lemma scan_canonical:
  "json_ok cd floats v \<Longrightarrow> number_ends r \<Longrightarrow> length (canonical_json cd v) \<le> n \<Longrightarrow>
   scan_value floats n (canonical_json cd v @ r) = Some (sorted_json v, r)"
proof (induction v arbitrary: n r)
  case JNull
  then show ?case by (cases n) simp_all
next
  case (JBool b)
  then show ?case by (cases n) (simp_all split: if_splits)
next
  case (JInt i)
  obtain c t where "py_int_str i = c # t" "is_digit c \<or> c = CHR ''-''" using py_int_str_first by blast
  moreover from this have "scan_value floats n (c # t @ r) = scan_number floats (c # t @ r)"
    using JInt.prems(3) by (intro scan_number_first) auto
  ultimately show ?case using scan_number_int [OF JInt.prems(2), of floats i] by simp
next
  case (JFloat x)
  then obtain c t where first: "float_repr cd x = c # t" "is_digit c \<or> c = CHR ''-''" by (auto split: list.splits)
  then have "scan_value floats n (c # t @ r) = scan_number floats (c # t @ r)"
    using JFloat.prems(3) by (intro scan_number_first) auto
  moreover have "scan_number floats (float_repr cd x @ r) = Some (JFloat x, r)" using JFloat.prems by simp
  ultimately show ?case using first by simp
next
  case (JStr s)
  then obtain m where n: "n = Suc m" by (cases n) (auto simp: quote_text_def)
  have "scan_value floats n (char_of (34::nat) # q) = map_option (map_prod JStr id) (scan_string (length q) q)" for q
    by (simp add: n)
  moreover have "quote_text s @ r = char_of (34::nat) # tl (quote_text s @ r)" by (simp add: quote_text_def)
  ultimately have "scan_value floats n (quote_text s @ r) =
      map_option (map_prod JStr id) (scan_string (length (tl (quote_text s @ r))) (tl (quote_text s @ r)))"
    by metis
  then show ?case using scan_string_quoted(2) [OF refl, of s r] by simp
next
  case (JArr xs)
  then obtain m where n: "n = Suc m" by (cases n) auto
  show ?case
  proof (cases xs)
    case Cons
    have "scan_items floats m (join_text '','' (map (canonical_json cd) xs) @ CHR '']'' # r) = Some (map sorted_json xs, r)"
      using JArr n Cons by (intro scan_items_joined) (auto simp: list_all_iff)
    moreover obtain c t where "canonical_json cd (hd xs) = c # t" "\<not> json_space c" "c \<noteq> CHR '']''"
      using canonical_first [of cd floats "hd xs"] JArr.prems Cons by auto
    ultimately show ?thesis by (cases "tl xs") (auto simp: n Cons)
  qed (simp add: n)
next
  case (JObj kvs)
  then obtain m where n: "n = Suc m" by (cases n) auto
  let ?kvs = "sort_key fst kvs"
  have same: "set ?kvs = set kvs" "distinct (map fst ?kvs)"
    using JObj.prems(1) by (simp_all add: distinct_map)
  have object: "object_of_pairs (map (\<lambda>(k, v). (k, sorted_json v)) ?kvs) = sorted_json (JObj kvs)"
    using same(2) put_members_distinct [of "[]" "map (\<lambda>(k, v). (k, sorted_json v)) ?kvs"]
    by (simp add: object_of_pairs_def sort_key_values) (simp add: case_prod_unfold comp_def)
  show ?case
  proof (cases "kvs = []")
    case False
    let ?rest = "join_text '','' (map (member_text cd) ?kvs) @ CHR ''}'' # r"
    have "?kvs \<noteq> []" using False by (metis length_0_conv length_sort)
    then obtain kv ws where first: "?kvs = kv # ws" by (cases ?kvs) auto
    have short: "length (join_text '','' (map (member_text cd) ?kvs)) < m"
      using JObj.prems(3) n unfolding canonical_object by simp
    have members: "scan_members floats m ?rest = Some (map (\<lambda>(k, v). (k, sorted_json v)) ?kvs, r)"
    proof (rule scan_members_joined)
      show "?kvs \<noteq> []" by fact
      show "json_ok cd floats v" if "(k, v) \<in> set ?kvs" for k v
        using JObj.prems(1) that same(1) by (auto simp: list_all_iff)
      show "scan_value floats n (canonical_json cd v @ r) = Some (sorted_json v, r)"
        if "(k, v) \<in> set ?kvs" "number_ends r" "length (canonical_json cd v) \<le> n" for k v n r
      proof (rule JObj.IH)
        show "(k, v) \<in> set kvs" using that(1) same(1) by simp
        show "json_ok cd floats v" using JObj.prems(1) that(1) same(1) by (auto simp: list_all_iff)
      qed (use that in simp_all)
    qed (rule short)
    have "\<exists>t. ?rest = CHR 0x22 # t"
      by (cases ws) (simp_all add: first member_text_def quote_text_def quote_char)
    then obtain t where start: "?rest = CHR 0x22 # t" by blast
    have skip: "skip_space ?rest = ?rest" "take 1 ?rest \<noteq> ''}''"
      by (simp_all only: start) (simp_all add: json_space_def)
    have "scan_value floats n (CHR ''{'' # ?rest) = map_option (map_prod object_of_pairs id) (scan_members floats m ?rest)"
      using skip by (simp add: n del: scan_members.simps)
    then show ?thesis using members object by (simp only: canonical_object) simp
  qed (simp add: n)
qed

lemma json_loads_canonical:
  assumes "json_ok cd floats v"
  shows "json_loads floats (canonical_json cd v) = Some (sorted_json v)"
proof -
  have "number_ends []" by (simp add: number_ends_def)
  from scan_canonical [OF assms this order_refl]
  have "scan_value floats (length (canonical_json cd v)) (canonical_json cd v) = Some (sorted_json v, [])" by simp
  moreover have "skip_space (canonical_json cd v) = canonical_json cd v" using canonical_first [OF assms] by auto
  ultimately show ?thesis by (simp add: json_loads_def skip_space_def)
qed

text \<open>Stored JSON is read back: decoding the canonical text of a value with distinct keys gives the value
  with its members in the order of their keys, so that encoding it again gives the same text.\<close>

lemma decode_canonical:
  assumes "json_ok cd floats v"
  shows "decode_json floats (Some (canonical_json cd v)) = Some (sorted_json v) \<and>
    canonical_json cd (sorted_json v) = canonical_json cd v"
proof
  show "decode_json floats (Some (canonical_json cd v)) = Some (sorted_json v)"
    using json_loads_canonical [OF assms] by (simp add: decode_json_def)
  have "map (canonical_json cd) (map sorted_json xs) = map (canonical_json cd) xs"
    if "\<And>x. x \<in> set xs \<Longrightarrow> canonical_json cd (sorted_json x) = canonical_json cd x" for xs
    using that by simp
  show "canonical_json cd (sorted_json v) = canonical_json cd v"
  proof (induction v)
    case (JObj kvs)
    have "canonical_json cd (sorted_json (JObj kvs)) =
        canonical_json cd (JObj (map (\<lambda>(k, v). (k, sorted_json v)) (sort_key fst kvs)))"
      by (simp only: sorted_json.simps sort_key_values)
    also have "... = canonical_json cd (JObj kvs)"
    proof -
      have "member_text cd (k, sorted_json v) = member_text cd (k, v)" if "(k, v) \<in> set kvs" for k v
        using JObj.IH [of "(k, v)" v] that by (simp add: member_text_def)
      then have members: "map (member_text cd) (map (\<lambda>(k, v). (k, sorted_json v)) (sort_key fst kvs)) =
          map (member_text cd) (sort_key fst kvs)" by auto
      have "sort_key fst (map (\<lambda>(k, v). (k, sorted_json v)) (sort_key fst kvs)) =
          map (\<lambda>(k, v). (k, sorted_json v)) (sort_key fst kvs)"
        by (simp add: sort_key_values sort_key_id_if_sorted)
      then show ?thesis using members by (simp only: canonical_object)
    qed
    finally show ?case .
  qed (simp_all cong: map_cong)
qed

lemma decode_stored: "json_ok cd floats v \<Longrightarrow> decode_json floats (Some (canonical_json cd v)) = Some (sorted_json v)"
  by (simp add: decode_canonical)

definition plain_codec :: codec where
  "plain_codec = \<lparr>sha256 = (\<lambda>t. t), float_repr = (\<lambda>_. ''0.5'')\<rparr>"

end
