(* ===== verification/RuntimeValues.thy ===== *)
theory RuntimeValues
  imports JsonText
begin

text \<open>
  The values that the runtime exchanges with a model provider: tool calls, messages, usage and
  completions of \<open>src/polaris/providers/base.py\<close> with the checks of their constructors, and the form in
  which \<open>src/polaris/runtime/serialization.py\<close> stores them in the journal.  A mapping is the member list
  of a JSON object; an argument that may have any type is a JSON value.
\<close>

datatype value_error = VeType | VeValue | VeKey | VeAttribute

text \<open>Evaluation of one argument after the other: the first exception is raised.\<close>

definition sum_then :: "'e + 'a \<Rightarrow> ('a \<Rightarrow> 'e + 'b) \<Rightarrow> 'e + 'b" where
  "sum_then x f = (case x of Inl e \<Rightarrow> Inl e | Inr v \<Rightarrow> f v)"

lemma sum_then_simps [simp]: "sum_then (Inl e) f = Inl e" "sum_then (Inr v) f = f v"
  by (simp_all add: sum_then_def)

fun sum_all :: "('a \<Rightarrow> 'e + 'b) \<Rightarrow> 'a list \<Rightarrow> 'e + 'b list" where
  "sum_all f [] = Inr []"
| "sum_all f (x # xs) = sum_then (f x) (\<lambda>y. sum_then (sum_all f xs) (\<lambda>ys. Inr (y # ys)))"

lemma sum_all_map:
  "(\<And>x. x \<in> set xs \<Longrightarrow> f (g x) = (if P x then Inl e else Inr (h x))) \<Longrightarrow>
    sum_all f (map g xs) = (if list_ex P xs then Inl e else Inr (map h xs))"
  by (induction xs) auto

type_synonym jdict = "(str \<times> json) list"

text \<open>\<open>mapping[key]\<close>, and \<open>int()\<close> of a JSON value.\<close>

definition jitem :: "jdict \<Rightarrow> str \<Rightarrow> value_error + json" where
  "jitem kvs k = (case map_of kvs k of None \<Rightarrow> Inl VeKey | Some v \<Rightarrow> Inr v)"

fun jint :: "json \<Rightarrow> value_error + int" where
  "jint (JInt i) = Inr i"
| "jint (JBool b) = Inr (if b then 1 else 0)"
| "jint (JFloat r) = Inr (if 0 \<le> r then \<lfloor>r\<rfloor> else \<lceil>r\<rceil>)"
| "jint (JStr s) = (case py_int s of None \<Rightarrow> Inl VeValue | Some i \<Rightarrow> Inr i)"
| "jint _ = Inl VeType"

definition jget_or :: "jdict \<Rightarrow> str \<Rightarrow> json \<Rightarrow> json" where
  "jget_or kvs k d = (case map_of kvs k of None \<Rightarrow> d | Some v \<Rightarrow> v)"

section \<open>Values and their constructors\<close>

record tool_call =
  tc_id :: str
  tc_name :: str
  tc_arguments :: jdict

datatype content = NoContent | TextContent str | PartsContent "jdict list"

record message =
  ms_role :: str
  ms_content :: content
  ms_name :: "str option"
  ms_calls :: "tool_call list"
  ms_call_id :: "str option"

record usage =
  us_prompt :: int
  us_completion :: int
  us_total :: int
  us_duration :: "int option"
  us_load :: "int option"
  us_prompt_eval :: "int option"
  us_eval :: "int option"

record completion =
  cp_message :: message
  cp_model :: str
  cp_usage :: usage
  cp_finish :: "str option"
  cp_response :: "str option"

text \<open>
  \<open>_json_copy\<close> copies lists and mappings and refuses everything else.  A value read back from the journal is
  \<open>frozen\<close>: \<open>deep_freeze\<close> has turned its lists into tuples, which are refused.
\<close>

fun holds_array :: "json \<Rightarrow> bool" where
  "holds_array (JArr xs) \<longleftrightarrow> True"
| "holds_array (JObj kvs) \<longleftrightarrow> list_ex (\<lambda>(k, v). holds_array v) kvs"
| "holds_array _ \<longleftrightarrow> False"

definition refuses_copy :: "bool \<Rightarrow> jdict \<Rightarrow> bool" where
  "refuses_copy frozen kvs \<longleftrightarrow> frozen \<and> holds_array (JObj kvs)"

definition make_tool_call :: "bool \<Rightarrow> str \<Rightarrow> str \<Rightarrow> jdict \<Rightarrow> value_error + tool_call" where
  "make_tool_call frozen i n args =
     (if py_blank i \<or> py_blank n \<or> refuses_copy frozen args then Inl VeType else Inr \<lparr>tc_id = i, tc_name = n, tc_arguments = args\<rparr>)"

fun optional_text :: "json \<Rightarrow> value_error + str option" where
  "optional_text JNull = Inr None"
| "optional_text (JStr s) = Inr (Some s)"
| "optional_text _ = Inl VeType"

definition roles :: "str list" where
  "roles = [''system'', ''developer'', ''user'', ''assistant'', ''tool'']"

definition check_role :: "json \<Rightarrow> value_error + str" where
  "check_role r =
     (case r of
        JStr s \<Rightarrow> if s \<in> set roles then Inr s else Inl VeValue
      | JArr _ \<Rightarrow> Inl VeType | JObj _ \<Rightarrow> Inl VeType | _ \<Rightarrow> Inl VeValue)"

fun content_parts :: "content \<Rightarrow> jdict list" where
  "content_parts (PartsContent ps) = ps"
| "content_parts _ = []"

definition make_message ::
  "bool \<Rightarrow> json \<Rightarrow> content \<Rightarrow> json \<Rightarrow> tool_call list \<Rightarrow> json \<Rightarrow> value_error + message" where
  "make_message frozen role body name tcalls call_id =
     sum_then (check_role role) (\<lambda>r.
     sum_then (optional_text name) (\<lambda>n.
     sum_then (optional_text call_id) (\<lambda>c.
       if list_ex (refuses_copy frozen) (content_parts body) then Inl VeType
       else if r = ''tool'' \<and> (c = None \<or> c = Some []) then Inl VeValue
       else Inr \<lparr>ms_role = r, ms_content = body, ms_name = n, ms_calls = tcalls, ms_call_id = c\<rparr>)))"

fun optional_count :: "json \<Rightarrow> value_error + int option" where
  "optional_count JNull = Inr None"
| "optional_count (JInt i) = (if i < 0 then Inl VeType else Inr (Some i))"
| "optional_count _ = Inl VeType"

definition make_usage ::
  "int \<Rightarrow> int \<Rightarrow> int \<Rightarrow> json \<Rightarrow> json \<Rightarrow> json \<Rightarrow> json \<Rightarrow> value_error + usage" where
  "make_usage p c t d l pe ev =
     (if p < 0 \<or> c < 0 \<or> t < 0 then Inl VeType
      else
        sum_then (optional_count d) (\<lambda>d'. sum_then (optional_count l) (\<lambda>l'.
        sum_then (optional_count pe) (\<lambda>pe'. sum_then (optional_count ev) (\<lambda>ev'.
          Inr \<lparr>us_prompt = p, us_completion = c, us_total = t, us_duration = d', us_load = l',
               us_prompt_eval = pe', us_eval = ev'\<rparr>)))))"

definition make_completion ::
  "message \<Rightarrow> str \<Rightarrow> usage \<Rightarrow> json \<Rightarrow> json \<Rightarrow> value_error + completion" where
  "make_completion m model u finish response =
     (if py_blank model then Inl VeType
      else
        sum_then (optional_text finish) (\<lambda>f. sum_then (optional_text response) (\<lambda>r.
          Inr \<lparr>cp_message = m, cp_model = model, cp_usage = u, cp_finish = f, cp_response = r\<rparr>)))"

section \<open>Serialization\<close>

definition serialize_tool_call :: "tool_call \<Rightarrow> json" where
  "serialize_tool_call c =
     JObj [(''id'', JStr (tc_id c)), (''name'', JStr (tc_name c)), (''arguments'', JObj (tc_arguments c))]"

fun serialize_content :: "content \<Rightarrow> json" where
  "serialize_content NoContent = JNull"
| "serialize_content (TextContent s) = JStr s"
| "serialize_content (PartsContent ps) = JArr (map JObj ps)"

definition serialize_message :: "message \<Rightarrow> json" where
  "serialize_message m = JObj
     [(''role'', JStr (ms_role m)), (''content'', serialize_content (ms_content m)),
      (''name'', jopt (ms_name m)), (''tool_calls'', JArr (map serialize_tool_call (ms_calls m))),
      (''tool_call_id'', jopt (ms_call_id m))]"

definition serialize_completion :: "completion \<Rightarrow> json" where
  "serialize_completion c = (let u = cp_usage c in JObj
     [(''message'', serialize_message (cp_message c)), (''model'', JStr (cp_model c)),
      (''usage'', JObj
        [(''prompt_tokens'', JInt (us_prompt u)), (''completion_tokens'', JInt (us_completion u)),
         (''total_tokens'', JInt (us_total u)), (''total_duration_ns'', jopt_int (us_duration u)),
         (''load_duration_ns'', jopt_int (us_load u)), (''prompt_eval_duration_ns'', jopt_int (us_prompt_eval u)),
         (''eval_duration_ns'', jopt_int (us_eval u))]),
      (''finish_reason'', jopt (cp_finish c)), (''response_id'', jopt (cp_response c))])"

definition deserialize_tool_call :: "text_env \<Rightarrow> bool \<Rightarrow> json \<Rightarrow> value_error + tool_call" where
  "deserialize_tool_call te frozen v =
     (case v of
        JObj kvs \<Rightarrow>
          (case jget_or kvs ''arguments'' (JObj []) of
             JObj args \<Rightarrow>
               sum_then (jitem kvs ''id'') (\<lambda>i. sum_then (jitem kvs ''name'') (\<lambda>n.
                 make_tool_call frozen (py_str te i) (py_str te n) args))
           | _ \<Rightarrow> Inl VeType)
      | _ \<Rightarrow> Inl VeAttribute)"

fun json_parts :: "json list \<Rightarrow> jdict list option" where
  "json_parts [] = Some []"
| "json_parts (JObj kvs # xs) = map_option (\<lambda>ps. kvs # ps) (json_parts xs)"
| "json_parts (_ # xs) = None"

fun deserialize_content :: "json \<Rightarrow> value_error + content" where
  "deserialize_content JNull = Inr NoContent"
| "deserialize_content (JStr s) = Inr (TextContent s)"
| "deserialize_content (JArr xs) = (case json_parts xs of None \<Rightarrow> Inl VeType | Some ps \<Rightarrow> Inr (PartsContent ps))"
| "deserialize_content _ = Inl VeType"

definition deserialize_message :: "text_env \<Rightarrow> bool \<Rightarrow> jdict \<Rightarrow> value_error + message" where
  "deserialize_message te frozen kvs =
     (case jget_or kvs ''tool_calls'' (JArr []) of
        JArr cs \<Rightarrow>
          sum_then (deserialize_content (jget kvs ''content'')) (\<lambda>body.
          sum_then (jitem kvs ''role'') (\<lambda>role.
          sum_then (sum_all (deserialize_tool_call te frozen) cs) (\<lambda>tcalls.
            make_message frozen role body (jget kvs ''name'') tcalls (jget kvs ''tool_call_id''))))
      | _ \<Rightarrow> Inl VeType)"

text \<open>Completions are only read back from the journal.\<close>

definition deserialize_completion :: "text_env \<Rightarrow> jdict \<Rightarrow> value_error + completion" where
  "deserialize_completion te kvs =
     (case (jget kvs ''message'', jget_or kvs ''usage'' (JObj [])) of
        (JObj m, JObj u) \<Rightarrow>
          sum_then (deserialize_message te True m) (\<lambda>msg.
          sum_then (jitem kvs ''model'') (\<lambda>model.
          sum_then (jint (jget_or u ''prompt_tokens'' (JInt 0))) (\<lambda>p.
          sum_then (jint (jget_or u ''completion_tokens'' (JInt 0))) (\<lambda>c.
          sum_then (jint (jget_or u ''total_tokens'' (JInt 0))) (\<lambda>t.
          sum_then (make_usage p c t (jget u ''total_duration_ns'') (jget u ''load_duration_ns'')
                      (jget u ''prompt_eval_duration_ns'') (jget u ''eval_duration_ns'')) (\<lambda>us.
            make_completion msg (py_str te model) us (jget kvs ''finish_reason'') (jget kvs ''response_id'')))))))
      | _ \<Rightarrow> Inl VeType)"

section \<open>Values that a constructor accepted\<close>

definition tool_call_ok :: "tool_call \<Rightarrow> bool" where
  "tool_call_ok c \<longleftrightarrow> \<not> py_blank (tc_id c) \<and> \<not> py_blank (tc_name c)"

definition message_ok :: "message \<Rightarrow> bool" where
  "message_ok m \<longleftrightarrow> ms_role m \<in> set roles \<and> list_all tool_call_ok (ms_calls m) \<and>
     (ms_role m = ''tool'' \<longrightarrow> ms_call_id m \<noteq> None \<and> ms_call_id m \<noteq> Some [])"

definition usage_ok :: "usage \<Rightarrow> bool" where
  "usage_ok u \<longleftrightarrow> 0 \<le> us_prompt u \<and> 0 \<le> us_completion u \<and> 0 \<le> us_total u \<and>
     list_all (\<lambda>x. case x of None \<Rightarrow> True | Some n \<Rightarrow> 0 \<le> n)
       [us_duration u, us_load u, us_prompt_eval u, us_eval u]"

definition completion_ok :: "completion \<Rightarrow> bool" where
  "completion_ok c \<longleftrightarrow> message_ok (cp_message c) \<and> \<not> py_blank (cp_model c) \<and> usage_ok (cp_usage c)"


definition sorted_dict :: "jdict \<Rightarrow> jdict" where
  "sorted_dict kvs = sort_key fst (map (\<lambda>(k, v). (k, sorted_json v)) kvs)"

definition sorted_call :: "tool_call \<Rightarrow> tool_call" where
  "sorted_call c = c\<lparr>tc_arguments := sorted_dict (tc_arguments c)\<rparr>"

fun sorted_content :: "content \<Rightarrow> content" where
  "sorted_content (PartsContent ps) = PartsContent (map sorted_dict ps)"
| "sorted_content x = x"

definition sorted_message :: "message \<Rightarrow> message" where
  "sorted_message m = m\<lparr>ms_content := sorted_content (ms_content m), ms_calls := map sorted_call (ms_calls m)\<rparr>"

text \<open>A completion as it comes back: the members of its arguments and parts in the order of their keys.\<close>

definition sorted_completion :: "completion \<Rightarrow> completion" where
  "sorted_completion c = c\<lparr>cp_message := sorted_message (cp_message c)\<rparr>"

lemma sorted_json_object [simp]: "sorted_json (JObj kvs) = JObj (sorted_dict kvs)"
  by (simp add: sorted_dict_def)

declare sorted_json.simps(2) [simp del]

lemma map_of_insort:
  "k \<notin> fst ` set xs \<Longrightarrow> map_of (insort_key fst (k, v) xs) = (map_of xs)(k \<mapsto> v)"
  by (induction xs) (auto simp: fun_eq_iff)

lemma map_of_sort: "distinct (map fst kvs) \<Longrightarrow> map_of (sort_key fst kvs) = map_of kvs"
  by (induction kvs) (auto simp: map_of_insort)

lemma map_of_sorted_dict:
  assumes "distinct (map fst kvs)"
  shows "map_of (sorted_dict kvs) k = map_option sorted_json (map_of kvs k)"
proof -
  have "distinct (map fst (map (\<lambda>(k, v). (k, sorted_json v)) kvs))"
    using assms by (simp add: comp_def case_prod_unfold)
  from map_of_sort [OF this] show ?thesis by (simp add: sorted_dict_def map_of_map comp_def)
qed

lemma sorted_lookup:
  assumes "distinct (map fst kvs)"
  shows "jget (sorted_dict kvs) k = (case map_of kvs k of None \<Rightarrow> JNull | Some v \<Rightarrow> sorted_json v)"
    "jget_or (sorted_dict kvs) k d = (case map_of kvs k of None \<Rightarrow> d | Some v \<Rightarrow> sorted_json v)"
    "jitem (sorted_dict kvs) k = (case map_of kvs k of None \<Rightarrow> Inl VeKey | Some v \<Rightarrow> Inr (sorted_json v))"
  using map_of_sorted_dict [OF assms] by (simp_all add: jget_def jget_or_def jitem_def split: option.splits)

lemma sorted_jopt [simp]: "sorted_json (jopt x) = jopt x" "sorted_json (jopt_int n) = jopt_int n"
  by (simp_all add: jopt_def jopt_int_def split: option.splits)

lemma optional_jopt [simp]: "optional_text (jopt x) = Inr x"
  by (simp add: jopt_def split: option.splits)

lemma optional_jopt_int:
  "(case n of None \<Rightarrow> True | Some i \<Rightarrow> 0 \<le> i) \<Longrightarrow> optional_count (jopt_int n) = Inr n"
  by (auto simp: jopt_int_def split: option.splits)

lemma holds_array_sorted_aux:
  "holds_array (sorted_json v) = holds_array v"
proof (induction v rule: holds_array.induct)
  case (2 kvs)
  have "holds_array (JObj (sorted_dict kvs)) \<longleftrightarrow> (\<exists>p \<in> set kvs. holds_array (sorted_json (snd p)))"
    by (force simp: sorted_dict_def list_ex_iff)
  also have "\<dots> \<longleftrightarrow> (\<exists>p \<in> set kvs. holds_array (snd p))"
    using 2 [of p "fst p" "snd p" for p] by (intro bex_cong refl) simp
  also have "\<dots> \<longleftrightarrow> holds_array (JObj kvs)" by (force simp: list_ex_iff)
  finally show ?case by simp
qed simp_all

lemma holds_array_sorted [simp]: "refuses_copy True (sorted_dict kvs) \<longleftrightarrow> holds_array (JObj kvs)"
  using holds_array_sorted_aux [of "JObj kvs"] by (simp add: refuses_copy_def)

lemma deserialize_sorted_call:
  assumes "tool_call_ok c"
  shows "deserialize_tool_call te True (sorted_json (serialize_tool_call c)) =
    (if holds_array (JObj (tc_arguments c)) then Inl VeType else Inr (sorted_call c))"
  using assms
  by (simp add: serialize_tool_call_def deserialize_tool_call_def sorted_lookup sorted_call_def make_tool_call_def
      tool_call_ok_def)

lemma json_parts_objects: "json_parts (map JObj ps) = Some ps"
  by (induction ps) auto

lemma deserialize_sorted_content:
  "deserialize_content (sorted_json (serialize_content x)) = Inr (sorted_content x)"
proof (cases x)
  case (PartsContent ps)
  have "map sorted_json (map JObj ps) = map JObj (map sorted_dict ps)" by simp
  then show ?thesis
    by (simp only: PartsContent serialize_content.simps sorted_json.simps(1) deserialize_content.simps
        json_parts_objects option.case sorted_content.simps)
qed simp_all

lemma content_parts_sorted:
  "list_ex (refuses_copy True) (content_parts (sorted_content x)) \<longleftrightarrow>
    list_ex (\<lambda>p. holds_array (JObj p)) (content_parts x)"
  by (cases x) (simp_all add: list_ex_iff)

text \<open>A message with an array in the arguments of a call or in a part of its content.\<close>

definition message_arrays :: "message \<Rightarrow> bool" where
  "message_arrays m \<longleftrightarrow> list_ex (\<lambda>c. holds_array (JObj (tc_arguments c))) (ms_calls m) \<or>
     list_ex (\<lambda>p. holds_array (JObj p)) (content_parts (ms_content m))"

lemma deserialize_sorted_message:
  assumes "message_ok m"
  shows "\<exists>kvs. sorted_json (serialize_message m) = JObj kvs \<and>
    deserialize_message te True kvs = (if message_arrays m then Inl VeType else Inr (sorted_message m))"
proof -
  have calls: "sum_all (deserialize_tool_call te True) (map sorted_json (map serialize_tool_call (ms_calls m))) =
      (if list_ex (\<lambda>c. holds_array (JObj (tc_arguments c))) (ms_calls m) then Inl VeType
       else Inr (map sorted_call (ms_calls m)))"
    unfolding map_map using assms
    by (intro sum_all_map) (simp add: deserialize_sorted_call message_ok_def list_all_iff)
  show ?thesis using assms calls
    by (auto simp: serialize_message_def deserialize_message_def sorted_lookup deserialize_sorted_content
        make_message_def check_role_def sorted_message_def message_ok_def content_parts_sorted message_arrays_def)
qed


lemma deserialize_sorted_completion:
  assumes "completion_ok c"
  shows "\<exists>kvs. sorted_json (serialize_completion c) = JObj kvs \<and>
    deserialize_completion te kvs = (if message_arrays (cp_message c) then Inl VeType else Inr (sorted_completion c))"
proof -
  obtain m where m: "sorted_json (serialize_message (cp_message c)) = JObj m"
    "deserialize_message te True m =
      (if message_arrays (cp_message c) then Inl VeType else Inr (sorted_message (cp_message c)))"
    using deserialize_sorted_message assms by (auto simp: completion_ok_def)
  have usage: "make_usage (us_prompt u) (us_completion u) (us_total u) (jopt_int (us_duration u)) (jopt_int (us_load u))
      (jopt_int (us_prompt_eval u)) (jopt_int (us_eval u)) = Inr u" if "usage_ok u" for u
    using that by (simp add: make_usage_def usage_ok_def optional_jopt_int)
  show ?thesis using assms m usage [of "cp_usage c"]
    by (simp add: serialize_completion_def Let_def deserialize_completion_def sorted_lookup completion_ok_def
        make_completion_def sorted_completion_def)
qed

text \<open>C38: A completion that is stored in the journal comes back: the stored text decodes to an object that
  deserializes to the same completion, with the members of its arguments in the order of their keys, unless the
  arguments of a tool call or a part of the content hold an array; then reading it raises a type error.\<close>

theorem stored_completion_restored:
  assumes "completion_ok c" and "json_ok cd floats (serialize_completion c)"
  shows "\<exists>kvs. decode_json floats (Some (canonical_json cd (serialize_completion c))) = Some (JObj kvs) \<and>
    deserialize_completion te kvs = (if message_arrays (cp_message c) then Inl VeType else Inr (sorted_completion c))"
  using deserialize_sorted_completion [OF assms(1), of te] decode_stored [OF assms(2)] by auto

definition sample_call :: tool_call where
  "sample_call = \<lparr>tc_id = ''c1'', tc_name = ''search'', tc_arguments = [(''query'', JStr ''x''), (''limit'', JInt 3)]\<rparr>"

definition sample_completion :: completion where
  "sample_completion =
     \<lparr>cp_message = \<lparr>ms_role = ''assistant'', ms_content = NoContent, ms_name = None, ms_calls = [sample_call],
        ms_call_id = None\<rparr>,
      cp_model = ''m'', cp_usage = \<lparr>us_prompt = 10, us_completion = 5, us_total = 15, us_duration = None,
        us_load = None, us_prompt_eval = None, us_eval = None\<rparr>, cp_finish = Some ''stop'', cp_response = None\<rparr>"

lemma sample_completion_ok [simp]: "completion_ok sample_completion"
  by (simp add: completion_ok_def sample_completion_def message_ok_def roles_def sample_call_def tool_call_ok_def
      py_blank_def py_space_def usage_ok_def)

lemma sample_serialized_ok [simp]: "json_ok cd floats (serialize_completion sample_completion)"
  by (simp add: sample_completion_def serialize_completion_def serialize_message_def sample_call_def
      serialize_tool_call_def jopt_def jopt_int_def)

lemma stored_completion_restored_witness:
  "\<exists>kvs. decode_json (\<lambda>_. 0) (Some (canonical_json plain_codec (serialize_completion sample_completion))) = Some (JObj kvs) \<and>
    deserialize_completion \<lparr>te_codec = plain_codec, te_repr = (\<lambda>_. [])\<rparr> kvs =
      Inr (sample_completion\<lparr>cp_message := (cp_message sample_completion)\<lparr>ms_calls :=
        [sample_call\<lparr>tc_arguments := [(''limit'', JInt 3), (''query'', JStr ''x'')]\<rparr>]\<rparr>\<rparr>)"
  using stored_completion_restored [where cd = plain_codec and floats = "\<lambda>_. 0" and te = "\<lparr>te_codec = plain_codec, te_repr = (\<lambda>_. [])\<rparr>", OF sample_completion_ok sample_serialized_ok]
  by (simp add: sorted_completion_def sorted_message_def sorted_call_def sample_completion_def sample_call_def
      sorted_dict_def message_arrays_def)

text \<open>
  A tool call with a list among its arguments: it is stored, and every reading of the stored completion fails, since
  \<open>deep_freeze\<close> makes the list a tuple, which \<open>_json_copy\<close> refuses.
\<close>

definition list_completion :: completion where
  "list_completion = sample_completion\<lparr>cp_message := (cp_message sample_completion)\<lparr>ms_calls :=
     [sample_call\<lparr>tc_arguments := [(''paths'', JArr [JStr ''a''])]\<rparr>]\<rparr>\<rparr>"

lemma list_arguments_unreadable:
  "completion_ok list_completion \<and>
   (\<exists>kvs. decode_json floats (Some (canonical_json plain_codec (serialize_completion list_completion))) = Some (JObj kvs) \<and>
     deserialize_completion te kvs = Inl VeType)"
proof -
  have ok: "completion_ok list_completion"
    by (simp add: completion_ok_def list_completion_def sample_completion_def message_ok_def roles_def sample_call_def
        tool_call_ok_def py_blank_def py_space_def usage_ok_def)
  have "json_ok plain_codec floats (serialize_completion list_completion)"
    by (simp add: list_completion_def sample_completion_def serialize_completion_def serialize_message_def sample_call_def
        serialize_tool_call_def jopt_def jopt_int_def)
  from deserialize_sorted_completion [OF ok, of te] decode_stored [OF this] ok show ?thesis
    by (auto simp: list_completion_def message_arrays_def)
qed

end
