(* ===== verification/RuntimeProgram.thy ===== *)
theory RuntimeProgram
  imports JournalMachine RuntimeValues
begin

text \<open>
  The runtime is a program that calls the journal many times; between two calls other workers, the
  heartbeat task and the service call it too, and the process may be killed.  A program here takes
  the state (the journal, and what has been asked of providers and tools) to a result or an exception
  and the next state.  The \<open>n\<close>-th interaction of a program uses the \<open>n\<close>-th tick of the world: the calls of
  others that come before it, the clock readings and the uuid it draws, whether the process is
  killed at this point, and the answers of the provider and of the tool.
\<close>

section \<open>The world\<close>

datatype model_answer = ModelAnswered completion | ModelFailed str str | ModelRaised str str

record tick =
  tk_others :: "journal_op list"
  tk_now :: instant
  tk_now2 :: instant
  tk_now3 :: instant
  tk_hex :: str
  tk_stop :: bool
  tk_pulse :: "journal_error option"
  tk_model :: model_answer
  tk_tool :: "(str \<times> str) + json"
  tk_tools :: "json list"

text \<open>
  Exceptions: of the journal, of a value's constructor, an unknown tool, a claim of another step,
  a provider failure (\<open>ProviderError\<close> or \<open>TimeoutError\<close>) and any other exception of a provider, a tool
  or the cost estimator, by type name and text.  \<open>AeStopped\<close> is the death of the process, which no handler
  sees; \<open>AeFuel\<close> is not an exception but says that the fuel of a loop was too small.
\<close>

datatype agent_error =
    AeJournal journal_error | AeValue value_error | AeUnknownTool | AeOtherClaim
  | AeProvider str str | AeRaised str str | AeStopped | AeFuel

text \<open>
  What leaves the process: a request to the model for a step, an execution of a tool for a step (and for the
  uncertain step that it replaces, if any), and a reconciliation.
\<close>

datatype agent_event =
    ModelAsked str "message list" json
  | ToolRun str str jdict "str option"
  | ToolReconciled str str jdict

record agent_state =
  as_next :: nat
  as_journal :: journal
  as_trace :: "agent_event list"

record world =
  wd_text :: text_env
  wd_floats :: "str \<Rightarrow> rat"
  wd_tick :: "nat \<Rightarrow> tick"

type_synonym 'a prog = "agent_state \<Rightarrow> (agent_error + 'a) \<times> agent_state"

abbreviation wd_codec :: "world \<Rightarrow> codec" where
  "wd_codec wd \<equiv> te_codec (wd_text wd)"

section \<open>Sequencing and exceptions\<close>

definition yields :: "'a \<Rightarrow> 'a prog" where
  "yields x s = (Inr x, s)"

definition raises :: "agent_error \<Rightarrow> 'a prog" where
  "raises e s = (Inl e, s)"

definition andthen :: "'a prog \<Rightarrow> ('a \<Rightarrow> 'b prog) \<Rightarrow> 'b prog" where
  "andthen p f s = (case p s of (Inl e, s') \<Rightarrow> (Inl e, s') | (Inr x, s') \<Rightarrow> f x s')"

definition catches :: "(agent_error \<Rightarrow> bool) \<Rightarrow> 'a prog \<Rightarrow> (agent_error \<Rightarrow> 'a prog) \<Rightarrow> 'a prog" where
  "catches caught p h s =
     (case p s of (Inl e, s') \<Rightarrow> (if caught e then h e s' else (Inl e, s')) | (Inr x, s') \<Rightarrow> (Inr x, s'))"

text \<open>\<open>except Exception\<close>.\<close>

definition is_exception :: "agent_error \<Rightarrow> bool" where
  "is_exception e \<longleftrightarrow> e \<noteq> AeStopped \<and> e \<noteq> AeFuel"

definition value_of :: "value_error + 'a \<Rightarrow> 'a prog" where
  "value_of x = (case x of Inl e \<Rightarrow> raises (AeValue e) | Inr v \<Rightarrow> yields v)"

fun each :: "('a \<Rightarrow> unit prog) \<Rightarrow> 'a list \<Rightarrow> unit prog" where
  "each f [] = yields ()"
| "each f (x # xs) = andthen (f x) (\<lambda>_. each f xs)"

section \<open>Calls of the journal\<close>

definition arrive :: "world \<Rightarrow> agent_state \<Rightarrow> agent_state" where
  "arrive wd s = s\<lparr>as_next := as_next s + 1,
     as_journal := run_ops (exec (wd_codec wd)) (tk_others (wd_tick wd (as_next s))) (as_journal s)\<rparr>"

definition jcall :: "world \<Rightarrow> (tick \<Rightarrow> journal \<Rightarrow> (journal_error + 'a) \<times> journal) \<Rightarrow> 'a prog" where
  "jcall wd f s =
     (let t = wd_tick wd (as_next s); s1 = arrive wd s in
      if tk_stop t then (Inl AeStopped, s1)
      else (case f t (as_journal s1) of
              (Inl e, j) \<Rightarrow> (Inl (AeJournal e), s1\<lparr>as_journal := j\<rparr>)
            | (Inr x, j) \<Rightarrow> (Inr x, s1\<lparr>as_journal := j\<rparr>)))"

definition jread :: "world \<Rightarrow> (journal \<Rightarrow> journal_error + 'a) \<Rightarrow> 'a prog" where
  "jread wd f = jcall wd (\<lambda>t j. (f j, j))"

definition jdo :: "world \<Rightarrow> (tick \<Rightarrow> journal \<Rightarrow> (journal_error + 'a) \<times> journal) \<Rightarrow> unit prog" where
  "jdo wd f = andthen (jcall wd f) (\<lambda>_. yields ())"

text \<open>What leaves the process: it is recorded, others go on meanwhile, and the answer comes back.\<close>

definition awaits :: "world \<Rightarrow> agent_event \<Rightarrow> (tick \<Rightarrow> agent_error + 'a) \<Rightarrow> 'a prog" where
  "awaits wd ev answer s =
     (let t = wd_tick wd (as_next s); s1 = (arrive wd s)\<lparr>as_trace := as_trace s @ [ev]\<rparr> in
      if tk_stop t then (Inl AeStopped, s1) else (answer t, s1))"

section \<open>Records that the journal returns\<close>

record step_view =
  sv_id :: str
  sv_run :: str
  sv_kind :: str
  sv_name :: str
  sv_input :: json
  sv_safety :: safety_class
  sv_seq :: "int option"
  sv_stat :: step_status
  sv_output :: json
  sv_reason :: "str option"

record run_view =
  rv_request :: json
  rv_config :: json
  rv_stat :: run_status

definition decoded :: "world \<Rightarrow> str option \<Rightarrow> value_error + json" where
  "decoded wd x = (case decode_json (wd_floats wd) x of None \<Rightarrow> Inl VeValue | Some v \<Rightarrow> Inr v)"

definition step_from_row :: "world \<Rightarrow> step_row \<Rightarrow> value_error + step_view" where
  "step_from_row wd r =
     sum_then (decoded wd (Some (step_input r))) (\<lambda>i.
     sum_then (decoded wd (step_output r)) (\<lambda>out.
     sum_then (decoded wd (step_error r)) (\<lambda>_.
       Inr \<lparr>sv_id = step_id r, sv_run = step_run r, sv_kind = step_kind r, sv_name = step_name r, sv_input = i,
            sv_safety = step_safety r, sv_seq = step_seq r, sv_stat = step_stat r, sv_output = out,
            sv_reason = uncertainty r\<rparr>)))"

definition run_from_row :: "world \<Rightarrow> run_row \<Rightarrow> value_error + run_view" where
  "run_from_row wd r =
     sum_then (decoded wd (Some (run_request r))) (\<lambda>q.
     sum_then (decoded wd (Some (run_config r))) (\<lambda>c.
       Inr \<lparr>rv_request = q, rv_config = c, rv_stat = run_stat r\<rparr>))"

definition read_run :: "world \<Rightarrow> str \<Rightarrow> run_view prog" where
  "read_run wd rid = andthen (jread wd (get_run rid)) (\<lambda>r. value_of (run_from_row wd r))"

definition read_steps :: "world \<Rightarrow> str \<Rightarrow> step_view list prog" where
  "read_steps wd rid = andthen (jread wd (list_steps rid None)) (\<lambda>rs. value_of (sum_all (step_from_row wd) rs))"

definition read_step :: "world \<Rightarrow> str \<Rightarrow> step_view prog" where
  "read_step wd sid = andthen (jread wd (get_step sid)) (\<lambda>r. value_of (step_from_row wd r))"

definition read_receipt :: "world \<Rightarrow> str \<Rightarrow> json option prog" where
  "read_receipt wd key = andthen (jread wd (find_receipt key)) (\<lambda>x.
     (case x of None \<Rightarrow> yields None
      | Some r \<Rightarrow> andthen (value_of (decoded wd (Some (receipt_payload r)))) (\<lambda>p. yields (Some p))))"

definition make_step ::
  "world \<Rightarrow> str \<Rightarrow> str \<Rightarrow> str \<Rightarrow> json \<Rightarrow> str \<Rightarrow> int option \<Rightarrow> step_view prog" where
  "make_step wd rid kind name inp safety seq =
     andthen (jcall wd (\<lambda>t. create_step (wd_codec wd) rid kind name inp safety seq (tk_now t)))
       (\<lambda>r. value_of (step_from_row wd r))"

definition mark_run :: "world \<Rightarrow> str \<Rightarrow> run_status \<Rightarrow> unit prog" where
  "mark_run wd rid target =
     jdo wd (\<lambda>t. mark_run_status (wd_codec wd) rid (run_status_value target) (tk_now t))"

definition note_event :: "world \<Rightarrow> str \<Rightarrow> str \<Rightarrow> json \<Rightarrow> str option \<Rightarrow> unit prog" where
  "note_event wd rid ty payload sid = jdo wd (\<lambda>t. append_event (wd_codec wd) rid ty payload sid (tk_now t))"

section \<open>Members of stored values\<close>

text \<open>\<open>value.get(key)\<close>, \<open>value[key]\<close> and \<open>key in value\<close> of a value that should be a mapping.\<close>

fun get_member :: "json \<Rightarrow> str \<Rightarrow> value_error + json" where
  "get_member (JObj kvs) k = Inr (jget kvs k)"
| "get_member _ k = Inl VeAttribute"

fun item_member :: "json \<Rightarrow> str \<Rightarrow> value_error + json" where
  "item_member (JObj kvs) k = jitem kvs k"
| "item_member _ k = Inl VeType"

fun has_member :: "json \<Rightarrow> str \<Rightarrow> value_error + bool" where
  "has_member (JObj kvs) k = Inr (jhas kvs k)"
| "has_member (JArr xs) k = Inr (JStr k \<in> set xs)"
| "has_member (JStr s) k = Inr (contains k s)"
| "has_member _ k = Inl VeType"

text \<open>\<open>a == b\<close>: numbers and truth values compare by their value.\<close>

fun number_value :: "json \<Rightarrow> rat option" where
  "number_value (JInt i) = Some (of_int i)"
| "number_value (JBool b) = Some (if b then 1 else 0)"
| "number_value (JFloat r) = Some r"
| "number_value _ = None"

definition equals_json :: "json \<Rightarrow> json \<Rightarrow> bool" where
  "equals_json a b =
     (case (number_value a, number_value b) of
        (Some x, Some y) \<Rightarrow> x = y | (None, None) \<Rightarrow> a = b | _ \<Rightarrow> False)"

lemma equals_json_simps [simp]:
  "equals_json (JInt i) (JInt n) \<longleftrightarrow> i = n" "equals_json (JStr s) (JStr t) \<longleftrightarrow> s = t"
  "\<not> equals_json JNull (JInt n)" "\<not> equals_json JNull (JStr t)"
  by (simp_all add: equals_json_def)

text \<open>The elements an iteration over a value that are mappings.\<close>

fun mappings_of :: "json \<Rightarrow> value_error + jdict list" where
  "mappings_of (JArr xs) = Inr (concat (map (\<lambda>x. case x of JObj kvs \<Rightarrow> [kvs] | _ \<Rightarrow> []) xs))"
| "mappings_of (JObj kvs) = Inr []"
| "mappings_of (JStr s) = Inr []"
| "mappings_of _ = Inl VeType"

end
