(* ===== verification/RuntimeReplay.thy ===== *)
theory RuntimeReplay
  imports RuntimeProgram
begin

text \<open>
  \<open>src/polaris/runtime/replay.py\<close>: the outcome of a tool call is the recorded output of its step, or a
  receipt of its reconciliation, or the outcome of the step that replaced it; a replay reads the
  conversation of a run from the journal alone.
\<close>

section \<open>The outcome of a tool call\<close>

fun shown_result :: "json \<Rightarrow> json" where
  "shown_result (JObj kvs) = (if jhas kvs ''result'' then jget kvs ''result'' else JObj kvs)"
| "shown_result v = v"

definition reconcile_receipt_key :: "str \<Rightarrow> str" where
  "reconcile_receipt_key sid = ''runtime:reconciled:'' @ sid"

text \<open>The first tool step whose input names the step as the one it recovers.\<close>

fun replacement_of :: "step_view list \<Rightarrow> str \<Rightarrow> value_error + step_view option" where
  "replacement_of [] i = Inr None"
| "replacement_of (c # cs) i =
     (if sv_kind c \<noteq> ''tool'' then replacement_of cs i
      else sum_then (get_member (sv_input c) ''recovery_of'')
        (\<lambda>v. if equals_json v (JStr i) then Inr (Some c) else replacement_of cs i))"

fun lineage :: "world \<Rightarrow> step_view list \<Rightarrow> nat \<Rightarrow> str list \<Rightarrow> step_view \<Rightarrow> json option prog" where
  "lineage wd all 0 visited cur = raises AeFuel"
| "lineage wd all (Suc n) visited cur =
     (if sv_id cur \<in> set visited then yields None
      else if sv_stat cur = StepCommitted then yields (Some (shown_result (sv_output cur)))
      else andthen (read_receipt wd (reconcile_receipt_key (sv_id cur))) (\<lambda>r.
        (case r of
           Some p \<Rightarrow> yields (Some (shown_result p))
         | None \<Rightarrow> andthen (value_of (replacement_of all (sv_id cur))) (\<lambda>x.
             (case x of None \<Rightarrow> yields None | Some c \<Rightarrow> lineage wd all n (sv_id cur # visited) c)))))"

definition recorded_tool_output :: "world \<Rightarrow> str \<Rightarrow> step_view \<Rightarrow> json option prog" where
  "recorded_tool_output wd rid original =
     andthen (read_steps wd rid) (\<lambda>all. lineage wd all (length all + 2) [] original)"

section \<open>The conversation\<close>

text \<open>The step of every call of an iteration; of two steps with the same index the later one counts.\<close>

fun originals :: "json \<Rightarrow> step_view list \<Rightarrow> value_error + (int \<times> step_view) list" where
  "originals it [] = Inr []"
| "originals it (s # ss) =
     (if sv_kind s \<noteq> ''tool'' then originals it ss
      else sum_then (get_member (sv_input s) ''iteration'') (\<lambda>v.
        if \<not> equals_json v it then originals it ss
        else sum_then (has_member (sv_input s) ''recovery_of'') (\<lambda>h.
          if h then originals it ss
          else sum_then (sum_then (item_member (sv_input s) ''call_index'') jint) (\<lambda>i.
            sum_then (originals it ss) (\<lambda>r. Inr ((i, s) # r))))))"

definition step_of_call :: "(int \<times> step_view) list \<Rightarrow> int \<Rightarrow> step_view option" where
  "step_of_call table i = map_of (rev table) i"

definition tool_message :: "world \<Rightarrow> tool_call \<Rightarrow> json \<Rightarrow> value_error + message" where
  "tool_message wd c v =
     make_message False (JStr ''tool'') (TextContent (canonical_json (wd_codec wd) v)) (JStr (tc_name c)) []
       (JStr (tc_id c))"

fun text_of_message :: "codec \<Rightarrow> content \<Rightarrow> str" where
  "text_of_message cd NoContent = []"
| "text_of_message cd (TextContent s) = s"
| "text_of_message cd (PartsContent ps) = canonical_json cd (JArr (map JObj ps))"

text \<open>The prompt of the user, with the memory context under it.\<close>

definition prompt_of :: "json \<Rightarrow> json" where
  "prompt_of request = (case request of JObj kvs \<Rightarrow> jget kvs ''prompt'' | v \<Rightarrow> v)"

definition prompt_text :: "codec \<Rightarrow> json \<Rightarrow> str" where
  "prompt_text cd prompt = (case prompt of JStr s \<Rightarrow> s | v \<Rightarrow> canonical_json cd v)"

definition line_break :: str where
  "line_break = [char_of (10::nat), char_of (10::nat)]"

definition with_context :: "str \<Rightarrow> json \<Rightarrow> str" where
  "with_context body context =
     (case context of JStr s \<Rightarrow> if s = [] then body else body @ line_break @ s | _ \<Rightarrow> body)"

definition user_message :: "str \<Rightarrow> message" where
  "user_message body = \<lparr>ms_role = ''user'', ms_content = TextContent body, ms_name = None, ms_calls = [], ms_call_id = None\<rparr>"

definition system_message :: "str \<Rightarrow> message" where
  "system_message body = \<lparr>ms_role = ''system'', ms_content = TextContent body, ms_name = None, ms_calls = [], ms_call_id = None\<rparr>"

definition replay_opening :: "world \<Rightarrow> run_view \<Rightarrow> message list" where
  "replay_opening wd run =
     (let config = (case rv_config run of JObj kvs \<Rightarrow> kvs | _ \<Rightarrow> []);
          prompt = prompt_text (wd_codec wd) (prompt_of (rv_request run))
      in (if py_truthy (jget config ''system_prompt'')
          then [system_message (py_str (wd_text wd) (jget config ''system_prompt''))] else []) @
         [user_message (with_context prompt (jget config ''memory_context''))])"

fun replay_calls :: "world \<Rightarrow> str \<Rightarrow> (int \<times> step_view) list \<Rightarrow> int \<Rightarrow> tool_call list \<Rightarrow> message list prog" where
  "replay_calls wd rid table i [] = yields []"
| "replay_calls wd rid table i (c # cs) =
     (case step_of_call table i of
        None \<Rightarrow> yields []
      | Some st \<Rightarrow> andthen (recorded_tool_output wd rid st) (\<lambda>out.
          (case out of
             None \<Rightarrow> yields []
           | Some v \<Rightarrow> andthen (value_of (tool_message wd c v)) (\<lambda>m.
               andthen (replay_calls wd rid table (i + 1) cs) (\<lambda>ms. yields (m # ms))))))"

definition completion_of_output :: "world \<Rightarrow> json \<Rightarrow> value_error + completion" where
  "completion_of_output wd v =
     (case v of JObj kvs \<Rightarrow> deserialize_completion (wd_text wd) kvs | _ \<Rightarrow> Inl VeAttribute)"

fun replay_models ::
  "world \<Rightarrow> str \<Rightarrow> step_view list \<Rightarrow> message list \<Rightarrow> str option \<Rightarrow> (message list \<times> str option) prog" where
  "replay_models wd rid [] msgs final = yields (msgs, final)"
| "replay_models wd rid (s # ss) msgs final =
     (if sv_kind s \<noteq> ''model'' \<or> sv_stat s \<noteq> StepCommitted then replay_models wd rid ss msgs final
      else andthen (value_of (completion_of_output wd (sv_output s))) (\<lambda>c.
        if ms_calls (cp_message c) = []
        then replay_models wd rid ss (msgs @ [cp_message c])
               (Some (text_of_message (wd_codec wd) (ms_content (cp_message c))))
        else andthen (read_steps wd rid) (\<lambda>all.
          andthen (value_of (sum_then (get_member (sv_input s) ''iteration'') (\<lambda>it. originals it all))) (\<lambda>table.
          andthen (replay_calls wd rid table 0 (ms_calls (cp_message c))) (\<lambda>outs.
            replay_models wd rid ss (msgs @ [cp_message c] @ outs) final)))))"

section \<open>Usage\<close>

definition completed_calls :: "call_row list \<Rightarrow> call_row list" where
  "completed_calls rows = filter (\<lambda>c. call_stat c = CallCompleted) rows"

fun add_model :: "call_row \<Rightarrow> str list \<Rightarrow> str list" where
  "add_model c models =
     (case call_model c of None \<Rightarrow> models | Some m \<Rightarrow> if m \<in> set models then models else models @ [m])"

definition models_of :: "call_row list \<Rightarrow> str list" where
  "models_of rows = fold add_model rows []"

definition usage_of :: "call_row list \<Rightarrow> usage" where
  "usage_of rows =
     (let p = sum_list (map call_in_tokens rows); c = sum_list (map call_out_tokens rows)
      in \<lparr>us_prompt = p, us_completion = c, us_total = p + c, us_duration = None, us_load = None,
          us_prompt_eval = None, us_eval = None\<rparr>)"

section \<open>The replay\<close>

record replay_result =
  rr_timeline :: "event_row list"
  rr_messages :: "message list"
  rr_final :: "str option"
  rr_usage :: usage
  rr_models :: "str list"

definition recorded_replay :: "world \<Rightarrow> str \<Rightarrow> replay_result prog" where
  "recorded_replay wd rid =
     andthen (read_run wd rid) (\<lambda>run.
     andthen (read_steps wd rid) (\<lambda>all.
     andthen (replay_models wd rid all (replay_opening wd run) None) (\<lambda>(msgs, final).
     andthen (jread wd (list_provider_calls rid)) (\<lambda>rows.
     andthen (jread wd (materialized_timeline rid)) (\<lambda>timeline.
       yields \<lparr>rr_timeline = timeline, rr_messages = msgs, rr_final = final,
         rr_usage = usage_of (completed_calls rows), rr_models = models_of (completed_calls rows)\<rparr>)))))"

end
