(* ===== verification/AgentRuntime.thy ===== *)
theory AgentRuntime
  imports RuntimeReplay ToolRegistry
begin

text \<open>
  The agent runtime of \<open>src/polaris/runtime/agent.py\<close>: the loop that alternates model and tool steps, the
  approvals, the handling of uncertain steps after a crash, and the summary of a run.  Every method
  is a program over the journal.  The tools enter by what \<open>ToolRegistry.get_entry\<close> answers for a name
  (the name of the entry and its safety class); the answers of tools, of the provider and of the
  cost estimator come from the world.
\<close>

section \<open>Configuration\<close>

datatype approval_policy = DefaultPolicy "str list" "str list" | CustomPolicy str "str \<Rightarrow> tool_safety \<Rightarrow> bool"

fun requires_approval :: "approval_policy \<Rightarrow> str \<Rightarrow> tool_safety \<Rightarrow> bool" where
  "requires_approval (DefaultPolicy a b) name safety \<longleftrightarrow> safety \<noteq> TsReadOnly \<and> name \<notin> set a \<and> name \<notin> set b"
| "requires_approval (CustomPolicy n f) name safety \<longleftrightarrow> f name safety"

record runtime_config =
  rc_system_prompt :: str
  rc_max_iterations :: int
  rc_lease :: rat
  rc_worker :: str
  rc_policy :: approval_policy
  rc_tokens :: int
  rc_calls :: int
  rc_micro_usd :: int
  rc_threshold :: int
  rc_memory_context :: "str option"
  rc_memory_scope :: "(str \<times> str) option"
  rc_memory_hash :: "str option"

text \<open>\<open>RuntimeConfig.__post_init__\<close> (of typed values).\<close>

definition check_config :: "runtime_config \<Rightarrow> value_error + runtime_config" where
  "check_config rc =
     (if rc_max_iterations rc \<le> 0 \<or> rc_lease rc \<le> 0 \<or> rc_worker rc = [] \<or> rc_tokens rc < 0 \<or> rc_calls rc < 0 \<or>
         rc_micro_usd rc < 0 \<or> rc_threshold rc \<le> 0 \<or>
         (case rc_memory_scope rc of None \<Rightarrow> False | Some (p, s) \<Rightarrow> p = [] \<or> s = []) \<or> rc_memory_hash rc = Some []
      then Inl VeValue else Inr rc)"

record agent =
  ag_world :: world
  ag_provider :: str
  ag_model :: str
  ag_config :: runtime_config
  ag_entry :: "str \<Rightarrow> (str \<times> tool_safety) option"
  ag_cost :: "completion \<Rightarrow> (str \<times> str) + int"
  ag_describe :: "agent_error \<Rightarrow> str \<times> str"

abbreviation ag_codec :: "agent \<Rightarrow> codec" where
  "ag_codec ag \<equiv> wd_codec (ag_world ag)"

text \<open>\<open>_error\<close> and \<open>str(exc)\<close>.\<close>

definition error_record :: "agent \<Rightarrow> agent_error \<Rightarrow> json" where
  "error_record ag e = JObj [(''type'', JStr (fst (ag_describe ag e))), (''message'', JStr (snd (ag_describe ag e)))]"

fun safety_name :: "tool_safety \<Rightarrow> str" where
  "safety_name TsReadOnly = ''read_only''"
| "safety_name TsIdempotent = ''idempotent''"
| "safety_name TsReconcilable = ''reconcilable''"
| "safety_name TsOpaque = ''opaque_side_effect''"

definition find_entry :: "agent \<Rightarrow> str \<Rightarrow> (str \<times> tool_safety) prog" where
  "find_entry ag name = (case ag_entry ag name of None \<Rightarrow> raises AeUnknownTool | Some e \<Rightarrow> yields e)"

section \<open>Runs\<close>

text \<open>The names, sorted and without repetition, that the default policy preapproves.\<close>

fun preapproved_names :: "approval_policy \<Rightarrow> str list" where
  "preapproved_names (DefaultPolicy a b) = sorted_list_of_set (set a \<union> set b)"
| "preapproved_names (CustomPolicy n f) = []"

fun policy_name :: "approval_policy \<Rightarrow> str" where
  "policy_name (DefaultPolicy a b) = ''DefaultApprovalPolicy''"
| "policy_name (CustomPolicy n f) = n"

definition persisted_config :: "agent \<Rightarrow> json" where
  "persisted_config ag = (let rc = ag_config ag in JObj
     [(''provider'', JStr (ag_provider ag)), (''model'', JStr (ag_model ag)),
      (''system_prompt'', JStr (rc_system_prompt rc)), (''max_iterations'', JInt (rc_max_iterations rc)),
      (''lease_seconds'', JFloat (rc_lease rc)), (''approval_policy'', JStr (policy_name (rc_policy rc))),
      (''preapproved_tool_names'', JArr (map JStr (preapproved_names (rc_policy rc)))),
      (''reservation_tokens'', JInt (rc_tokens rc)), (''reservation_calls'', JInt (rc_calls rc)),
      (''reservation_micro_usd'', JInt (rc_micro_usd rc)), (''no_progress_threshold'', JInt (rc_threshold rc)),
      (''memory_context'', jopt (rc_memory_context rc)),
      (''memory_scope'', (case rc_memory_scope rc of None \<Rightarrow> JNull
         | Some (p, s) \<Rightarrow> JObj [(''profile_id'', JStr p), (''subject_key'', JStr s)])),
      (''memory_snapshot_hash'', jopt (rc_memory_hash rc))])"

definition agent_create_run :: "agent \<Rightarrow> str \<Rightarrow> str \<Rightarrow> budget_arg \<Rightarrow> str option \<Rightarrow> run_row prog" where
  "agent_create_run ag prompt mode limits key =
     jcall (ag_world ag) (\<lambda>t. create_run (ag_codec ag)
       \<lparr>rq_mode = mode, rq_request = JObj [(''prompt'', JStr prompt)], rq_config = persisted_config ag,
        rq_budget_limits = BudgetNone, rq_budget = limits, rq_parent = None, rq_external = key\<rparr> (tk_hex t) (tk_now t))"

definition agent_recover :: "agent \<Rightarrow> str list prog" where
  "agent_recover ag =
     andthen (jcall (ag_world ag) (\<lambda>t. reclaim_expired_leases (ag_codec ag) (tk_now t))) (\<lambda>_.
     andthen (jread (ag_world ag) recoverable_runs) (\<lambda>rs. yields (map run_id rs)))"

section \<open>The conversation so far\<close>

definition initial_messages :: "agent \<Rightarrow> run_view \<Rightarrow> message list" where
  "initial_messages ag run =
     (let wd = ag_world ag; rc = ag_config ag;
          context = (case rv_config run of JObj kvs \<Rightarrow> jget kvs ''memory_context'' | _ \<Rightarrow> jopt (rc_memory_context rc));
          system = (case rv_config run of JObj kvs \<Rightarrow> jget_or kvs ''system_prompt'' (JStr (rc_system_prompt rc))
                      | _ \<Rightarrow> JStr (rc_system_prompt rc))
      in (if py_truthy system then [system_message (py_str (wd_text wd) system)] else []) @
         [user_message (with_context (prompt_text (wd_codec wd) (prompt_of (rv_request run))) context)])"

text \<open>The committed completion of every iteration; of two for an iteration the later one counts.\<close>

fun committed_models :: "agent \<Rightarrow> step_view list \<Rightarrow> value_error + (int \<times> completion) list" where
  "committed_models ag [] = Inr []"
| "committed_models ag (s # ss) =
     (case sv_output s of
        JObj out \<Rightarrow>
          if sv_kind s = ''model'' \<and> sv_stat s = StepCommitted then
            sum_then (sum_then (item_member (sv_input s) ''iteration'') jint) (\<lambda>i.
            sum_then (deserialize_completion (wd_text (ag_world ag)) out) (\<lambda>c.
            sum_then (committed_models ag ss) (\<lambda>r. Inr ((i, c) # r))))
          else committed_models ag ss
      | _ \<Rightarrow> committed_models ag ss)"

definition by_iteration :: "(int \<times> completion) list \<Rightarrow> (int \<times> completion) list" where
  "by_iteration ms = map (\<lambda>i. (i, the (map_of (rev ms) i))) (sorted_list_of_set (set (map fst ms)))"

fun tool_outputs_from ::
  "agent \<Rightarrow> str \<Rightarrow> (int \<times> step_view) list \<Rightarrow> int \<Rightarrow> tool_call list \<Rightarrow> json list option prog" where
  "tool_outputs_from ag rid table i [] = yields (Some [])"
| "tool_outputs_from ag rid table i (c # cs) =
     (case step_of_call table i of
        None \<Rightarrow> yields None
      | Some st \<Rightarrow> andthen (recorded_tool_output (ag_world ag) rid st) (\<lambda>out.
          (case out of
             None \<Rightarrow> yields None
           | Some v \<Rightarrow> andthen (tool_outputs_from ag rid table (i + 1) cs) (\<lambda>rest.
               yields (map_option (\<lambda>vs. v # vs) rest)))))"

definition tool_outputs :: "agent \<Rightarrow> str \<Rightarrow> int \<Rightarrow> tool_call list \<Rightarrow> json list option prog" where
  "tool_outputs ag rid it cs =
     andthen (read_steps (ag_world ag) rid) (\<lambda>all.
     andthen (value_of (originals (JInt it) all)) (\<lambda>table. tool_outputs_from ag rid table 0 cs))"

definition tool_messages :: "agent \<Rightarrow> tool_call list \<Rightarrow> json list \<Rightarrow> value_error + message list" where
  "tool_messages ag cs outs = sum_all (\<lambda>(c, v). tool_message (ag_world ag) c v) (zip cs outs)"

type_synonym conversation = "message list \<times> int \<times> str option"

fun rebuild :: "agent \<Rightarrow> str \<Rightarrow> (int \<times> completion) list \<Rightarrow> message list \<Rightarrow> int \<Rightarrow> conversation prog" where
  "rebuild ag rid [] msgs expected = yields (msgs, expected, None)"
| "rebuild ag rid ((i, c) # rest) msgs expected =
     (if i \<noteq> expected then yields (msgs, expected, None)
      else if ms_calls (cp_message c) = []
      then yields (msgs @ [cp_message c], i + 1, Some (text_of_message (ag_codec ag) (ms_content (cp_message c))))
      else andthen (tool_outputs ag rid i (ms_calls (cp_message c))) (\<lambda>outs.
        (case outs of
           None \<Rightarrow> yields (msgs @ [cp_message c], i, None)
         | Some vs \<Rightarrow> andthen (value_of (tool_messages ag (ms_calls (cp_message c)) vs)) (\<lambda>more.
             rebuild ag rid rest (msgs @ [cp_message c] @ more) (i + 1)))))"

definition reconstruct :: "agent \<Rightarrow> str \<Rightarrow> conversation prog" where
  "reconstruct ag rid =
     andthen (read_run (ag_world ag) rid) (\<lambda>run.
     andthen (read_steps (ag_world ag) rid) (\<lambda>all.
     andthen (value_of (committed_models ag all)) (\<lambda>ms.
       rebuild ag rid (by_iteration ms) (initial_messages ag run) 0)))"

text \<open>The calls of the committed completion of an iteration, and whether they have repeated.\<close>

fun calls_of_iteration :: "agent \<Rightarrow> int \<Rightarrow> step_view list \<Rightarrow> value_error + tool_call list" where
  "calls_of_iteration ag it [] = Inr []"
| "calls_of_iteration ag it (s # ss) =
     (if sv_kind s = ''model'' \<and> sv_stat s = StepCommitted then
        sum_then (sum_then (item_member (sv_input s) ''iteration'') jint) (\<lambda>i.
          (case sv_output s of
             JObj out \<Rightarrow>
               if i = it then sum_then (deserialize_completion (wd_text (ag_world ag)) out) (\<lambda>c. Inr (ms_calls (cp_message c)))
               else calls_of_iteration ag it ss
           | _ \<Rightarrow> calls_of_iteration ag it ss))
      else calls_of_iteration ag it ss)"

definition outstanding_tool_calls :: "agent \<Rightarrow> str \<Rightarrow> int \<Rightarrow> tool_call list prog" where
  "outstanding_tool_calls ag rid it =
     andthen (read_steps (ag_world ag) rid) (\<lambda>all. value_of (calls_of_iteration ag it all))"

definition call_signature :: "agent \<Rightarrow> tool_call list \<Rightarrow> str" where
  "call_signature ag cs = canonical_json (ag_codec ag)
     (JArr (map (\<lambda>c. JObj [(''name'', JStr (tc_name c)), (''arguments'', JObj (tc_arguments c))]) cs))"

fun call_signatures :: "agent \<Rightarrow> step_view list \<Rightarrow> value_error + str list" where
  "call_signatures ag [] = Inr []"
| "call_signatures ag (s # ss) =
     (case sv_output s of
        JObj out \<Rightarrow>
          if sv_kind s = ''model'' \<and> sv_stat s = StepCommitted then
            sum_then (deserialize_completion (wd_text (ag_world ag)) out) (\<lambda>c.
            sum_then (call_signatures ag ss) (\<lambda>r.
              Inr (if ms_calls (cp_message c) = [] then r else call_signature ag (ms_calls (cp_message c)) # r)))
          else call_signatures ag ss
      | _ \<Rightarrow> call_signatures ag ss)"

definition no_progress :: "int \<Rightarrow> str list \<Rightarrow> bool" where
  "no_progress threshold sigs \<longleftrightarrow> threshold \<le> int (length sigs) \<and>
     card (set (drop (length sigs - nat threshold) sigs)) = 1"

definition has_repeated_tool_calls :: "agent \<Rightarrow> str \<Rightarrow> bool prog" where
  "has_repeated_tool_calls ag rid =
     andthen (read_steps (ag_world ag) rid) (\<lambda>all.
     andthen (value_of (call_signatures ag all)) (\<lambda>sigs. yields (no_progress (rc_threshold (ag_config ag)) sigs)))"

section \<open>The summary and the ends of a run\<close>

record agent_result =
  ar_run :: str
  ar_stat :: run_status
  ar_final :: "str option"
  ar_models :: "str list"
  ar_usage :: usage

definition agent_result_of :: "agent \<Rightarrow> str \<Rightarrow> agent_result prog" where
  "agent_result_of ag rid =
     andthen (read_run (ag_world ag) rid) (\<lambda>run.
     andthen (reconstruct ag rid) (\<lambda>(_, _, final).
     andthen (jread (ag_world ag) (list_provider_calls rid)) (\<lambda>rows.
       yields \<lparr>ar_run = rid, ar_stat = rv_stat run, ar_final = final, ar_models = models_of (completed_calls rows),
         ar_usage = usage_of (completed_calls rows)\<rparr>)))"

definition stop_failed :: "agent \<Rightarrow> str \<Rightarrow> str \<Rightarrow> str \<Rightarrow> str option \<Rightarrow> agent_result prog" where
  "stop_failed ag rid ty what sid =
     andthen (note_event (ag_world ag) rid ty (JObj [(''message'', JStr what)]) sid) (\<lambda>_.
     andthen (read_run (ag_world ag) rid) (\<lambda>run.
     andthen (if rv_stat run \<in> {RunFailed, RunCancelled} then yields () else mark_run (ag_world ag) rid RunFailed) (\<lambda>_.
       agent_result_of ag rid)))"

definition pause_run :: "agent \<Rightarrow> str \<Rightarrow> str \<Rightarrow> str option \<Rightarrow> unit prog" where
  "pause_run ag rid why sid =
     andthen (note_event (ag_world ag) rid ''runtime.paused'' (JObj [(''reason'', JStr why)]) sid) (\<lambda>_.
     andthen (read_run (ag_world ag) rid) (\<lambda>run.
       if rv_stat run \<in> {RunCreated, RunRunning} then mark_run (ag_world ag) rid RunPaused else yields ()))"

end
