(* ===== verification/AgentExecution.thy ===== *)
theory AgentExecution
  imports AgentRuntime
begin

text \<open>
  The execution of a run by \<open>AgentRuntime.execute\<close>: claims and leases, the model step with its budget and
  provider call, the group of tool steps of an iteration, the approvals and the uncertain steps that a crash has
  left, and the loop.
\<close>

section \<open>Claims and leases\<close>

definition claim_step :: "agent \<Rightarrow> step_view \<Rightarrow> step_view option prog" where
  "claim_step ag st =
     andthen (read_step (ag_world ag) (sv_id st)) (\<lambda>current.
       if sv_stat current \<noteq> StepReady then yields None
       else andthen (jcall (ag_world ag) (\<lambda>t. claim_ready_step (ag_codec ag) (rc_worker (ag_config ag))
                (rc_lease (ag_config ag)) (Some (sv_run st)) (tk_now t) (tk_now2 t))) (\<lambda>row.
         (case row of
            None \<Rightarrow> yields None
          | Some r \<Rightarrow> andthen (value_of (step_from_row (ag_world ag) r)) (\<lambda>claimed.
              if sv_id claimed \<noteq> sv_id st then raises AeOtherClaim else yields (Some claimed)))))"

definition executing :: "agent \<Rightarrow> str \<Rightarrow> unit prog" where
  "executing ag sid =
     jdo (ag_world ag) (\<lambda>t. mark_executing (ag_codec ag) sid (rc_worker (ag_config ag)) (tk_now t) (tk_now2 t))"

definition refresh_lease :: "agent \<Rightarrow> str \<Rightarrow> unit prog" where
  "refresh_lease ag sid =
     jdo (ag_world ag) (\<lambda>t. heartbeat (ag_codec ag) sid (rc_worker (ag_config ag)) (rc_lease (ag_config ag))
       (tk_now t) (tk_now2 t) (tk_now3 t))"

text \<open>\<open>_lease_heartbeat\<close>: when the heartbeat task has failed, its exception leaves the block.\<close>

definition lease_heartbeat :: "agent \<Rightarrow> 'a prog \<Rightarrow> 'a prog" where
  "lease_heartbeat ag p s =
     (case p s of
        (Inl AeStopped, s') \<Rightarrow> (Inl AeStopped, s')
      | (r, s') \<Rightarrow> (case tk_pulse (wd_tick (ag_world ag) (as_next s')) of
                     None \<Rightarrow> (r, s') | Some e \<Rightarrow> (Inl (AeJournal e), s')))"

definition commit :: "agent \<Rightarrow> str \<Rightarrow> json \<Rightarrow> receipt_arg \<Rightarrow> unit prog" where
  "commit ag sid out receipt =
     jdo (ag_world ag) (\<lambda>t. commit_step (ag_codec ag) sid (rc_worker (ag_config ag)) out receipt (tk_now t) (tk_now2 t))"

definition fail :: "agent \<Rightarrow> str \<Rightarrow> agent_error \<Rightarrow> unit prog" where
  "fail ag sid e =
     jdo (ag_world ag) (\<lambda>t. fail_step (ag_codec ag) sid (rc_worker (ag_config ag)) (Some (error_record ag e))
       (tk_now t) (tk_now2 t))"

definition cancel :: "agent \<Rightarrow> str \<Rightarrow> unit prog" where
  "cancel ag sid = jdo (ag_world ag) (\<lambda>t. cancel_step (ag_codec ag) sid None (tk_now t) (tk_now2 t))"

section \<open>The model step\<close>

fun raised :: "(str \<times> str) + 'a \<Rightarrow> agent_error + 'a" where
  "raised (Inl (ty, what)) = Inl (AeRaised ty what)"
| "raised (Inr x) = Inr x"

fun answered :: "model_answer \<Rightarrow> agent_error + completion" where
  "answered (ModelAnswered c) = Inr c"
| "answered (ModelFailed ty what) = Inl (AeProvider ty what)"
| "answered (ModelRaised ty what) = Inl (AeRaised ty what)"

definition requested_model :: "agent \<Rightarrow> str \<Rightarrow> str prog" where
  "requested_model ag rid =
     andthen (read_run (ag_world ag) rid) (\<lambda>run. yields
       (case rv_config run of
          JObj kvs \<Rightarrow> (case jget kvs ''model'' of JStr m \<Rightarrow> m | _ \<Rightarrow> ag_model ag)
        | _ \<Rightarrow> ag_model ag))"

fun model_steps :: "int \<Rightarrow> step_view list \<Rightarrow> value_error + step_view list" where
  "model_steps it [] = Inr []"
| "model_steps it (s # ss) =
     (if sv_kind s \<noteq> ''model'' then model_steps it ss
      else sum_then (get_member (sv_input s) ''iteration'') (\<lambda>v.
        if equals_json v (JInt it) then sum_then (model_steps it ss) (\<lambda>r. Inr (s # r)) else model_steps it ss))"

definition failed_attempts :: "step_view list \<Rightarrow> int" where
  "failed_attempts prior = int (length (filter (\<lambda>s. sv_stat s = StepFailed) prior))"

definition resumable_step :: "step_view list \<Rightarrow> step_view option" where
  "resumable_step prior = find (\<lambda>s. sv_stat s \<in> {StepReady, StepLeased, StepExecuting}) (rev prior)"

definition request_snapshot :: "agent \<Rightarrow> int \<Rightarrow> int \<Rightarrow> str \<Rightarrow> message list \<Rightarrow> json list \<Rightarrow> json" where
  "request_snapshot ag it attempt model msgs defs = JObj
     [(''iteration'', JInt it), (''attempt'', JInt attempt), (''provider'', JStr (ag_provider ag)),
      (''requested_model'', JStr model), (''messages'', JArr (map serialize_message msgs)), (''tools'', JArr defs)]"

text \<open>Calls that a crashed attempt left open are closed with a warning.\<close>

definition abandon_call :: "agent \<Rightarrow> str \<Rightarrow> str \<Rightarrow> call_row \<Rightarrow> unit prog" where
  "abandon_call ag rid sid c =
     andthen (jdo (ag_world ag) (\<lambda>t. complete_provider_call (ag_codec ag) (call_id c)
       (JObj [(''warning'', JStr ''worker lease expired before the response committed'')]) ''uncertain'' None 0 0 0
       (tk_now t))) (\<lambda>_.
     note_event (ag_world ag) rid ''provider.duplicate_billing_warning''
       (JObj [(''provider_call_id'', JStr (call_id c)), (''warning'', JStr ''retry may cause duplicate billing'')])
       (Some sid))"

definition abandon_calls :: "agent \<Rightarrow> str \<Rightarrow> str \<Rightarrow> unit prog" where
  "abandon_calls ag rid sid =
     andthen (jread (ag_world ag) (list_provider_calls rid)) (\<lambda>rows.
       each (abandon_call ag rid sid) (filter (\<lambda>c. call_step c = Some sid \<and> call_stat c = CallStarted) rows))"

definition settle :: "agent \<Rightarrow> str \<Rightarrow> str \<Rightarrow> int \<Rightarrow> int option \<Rightarrow> int option \<Rightarrow> unit prog" where
  "settle ag rid vid n tokens usd =
     jdo (ag_world ag) (\<lambda>t. settle_budget (ag_codec ag) rid vid
       \<lparr>sa_calls = (Some n, None), sa_tokens = (tokens, None), sa_micro_usd = (usd, None), sa_wall = (None, None)\<rparr>
       (tk_now t))"

definition snapshot_member :: "json \<Rightarrow> str \<Rightarrow> value_error + json" where
  "snapshot_member snapshot k = (case snapshot of JObj kvs \<Rightarrow> Inr (jget_or kvs k (JArr [])) | _ \<Rightarrow> Inl VeAttribute)"

text \<open>The body of the \<open>async with\<close>: the answer of the provider and the bookkeeping.  \<open>stored\<close> says that the request is
  the input of an earlier step, read from the journal.\<close>

definition complete_model :: "agent \<Rightarrow> str \<Rightarrow> str \<Rightarrow> bool \<Rightarrow> json \<Rightarrow> str \<Rightarrow> str \<Rightarrow> unit prog" where
  "complete_model ag rid sid stored snapshot vid cid =
     andthen (value_of (sum_then (sum_then (snapshot_member snapshot ''messages'') mappings_of)
                (sum_all (deserialize_message (wd_text (ag_world ag)) stored)))) (\<lambda>msgs.
     andthen (value_of (snapshot_member snapshot ''tools'')) (\<lambda>defs.
     andthen (awaits (ag_world ag) (ModelAsked sid msgs defs) (\<lambda>t. answered (tk_model t))) (\<lambda>c.
     andthen (\<lambda>s. (raised (ag_cost ag c), s)) (\<lambda>usd.
     andthen (refresh_lease ag sid) (\<lambda>_.
     andthen (jdo (ag_world ag) (\<lambda>t. complete_provider_call (ag_codec ag) cid (serialize_completion c) ''completed''
                (Some (cp_model c)) (us_prompt (cp_usage c)) (us_completion (cp_usage c)) usd (tk_now t))) (\<lambda>_.
     andthen (refresh_lease ag sid) (\<lambda>_.
     andthen (settle ag rid vid 1 (Some (us_total (cp_usage c))) (Some usd)) (\<lambda>_.
     andthen (refresh_lease ag sid) (\<lambda>_.
       commit ag sid (serialize_completion c) NoReceipt)))))))))"

text \<open>How the \<open>try\<close> of \<open>_execute_model\<close> is left: with a result, over the budget, or with the failure of a
  provider, the reservation and the call.\<close>

datatype model_outcome = ModelDone | OverBudget agent_error | ProviderDown agent_error str str

fun is_provider_error :: "agent_error \<Rightarrow> bool" where
  "is_provider_error (AeProvider ty what) = True"
| "is_provider_error _ = False"

definition try_model :: "agent \<Rightarrow> str \<Rightarrow> str \<Rightarrow> bool \<Rightarrow> json \<Rightarrow> str \<Rightarrow> model_outcome prog" where
  "try_model ag rid sid stored snapshot model =
     catches (\<lambda>e. e = AeJournal BudgetExceeded)
       (andthen (jcall (ag_world ag) (\<lambda>t. reserve_budget (ag_codec ag) rid
            \<lparr>a_calls = rc_calls (ag_config ag), a_tokens = rc_tokens (ag_config ag),
             a_micro_usd = rc_micro_usd (ag_config ag), a_wall = 0\<rparr> (Some (''budget_'' @ sid)) (tk_hex t) (tk_now t))) (\<lambda>vid.
        andthen (jcall (ag_world ag) (\<lambda>t. start_provider_call (ag_codec ag) rid (ag_provider ag) snapshot (Some sid)
            (Some model) (tk_hex t) (tk_now t))) (\<lambda>call.
        andthen (refresh_lease ag sid) (\<lambda>_.
          catches is_provider_error
            (andthen (lease_heartbeat ag (complete_model ag rid sid stored snapshot vid (call_id call))) (\<lambda>_. yields ModelDone))
            (\<lambda>e. yields (ProviderDown e vid (call_id call)))))))
       (\<lambda>e. yields (OverBudget e))"

definition finish_model :: "agent \<Rightarrow> str \<Rightarrow> str \<Rightarrow> str \<Rightarrow> int \<Rightarrow> model_outcome \<Rightarrow> bool prog" where
  "finish_model ag rid sid model attempt outcome =
     (case outcome of
        ModelDone \<Rightarrow> yields True
      | OverBudget e \<Rightarrow>
          andthen (fail ag sid e) (\<lambda>_.
          andthen (stop_failed ag rid ''budget.exceeded'' (snd (ag_describe ag e)) None) (\<lambda>_. yields False))
      | ProviderDown e vid cid \<Rightarrow>
          andthen (jdo (ag_world ag) (\<lambda>t. complete_provider_call (ag_codec ag) cid (error_record ag e) ''failed''
             (Some model) 0 0 0 (tk_now t))) (\<lambda>_.
          andthen (settle ag rid vid 1 None None) (\<lambda>_.
          andthen (fail ag sid e) (\<lambda>_.
          andthen (note_event (ag_world ag) rid ''provider.retryable_failure''
             (JObj [(''error'', error_record ag e), (''attempt'', JInt attempt),
                    (''warning'', JStr ''response was not committed; retry may cause duplicate billing'')]) (Some sid))
             (\<lambda>_. yields False)))))"

definition perform_model :: "agent \<Rightarrow> str \<Rightarrow> step_view \<Rightarrow> bool \<Rightarrow> json \<Rightarrow> str \<Rightarrow> int \<Rightarrow> bool prog" where
  "perform_model ag rid st stored snapshot model attempt =
     (if sv_stat st = StepCommitted then yields True
      else andthen (claim_step ag st) (\<lambda>claimed.
        (case claimed of
           None \<Rightarrow> yields False
         | Some _ \<Rightarrow>
             andthen (executing ag (sv_id st)) (\<lambda>_.
             andthen (abandon_calls ag rid (sv_id st)) (\<lambda>_.
             andthen (try_model ag rid (sv_id st) stored snapshot model) (\<lambda>outcome.
               finish_model ag rid (sv_id st) model attempt outcome))))))"

definition execute_model :: "agent \<Rightarrow> str \<Rightarrow> message list \<Rightarrow> int \<Rightarrow> bool prog" where
  "execute_model ag rid msgs it =
     andthen (read_steps (ag_world ag) rid) (\<lambda>all.
     andthen (value_of (model_steps it all)) (\<lambda>prior.
       if (\<exists>s \<in> set prior. sv_stat s = StepCommitted) then yields True
       else if rc_max_iterations (ag_config ag) \<le> failed_attempts prior then
         andthen (stop_failed ag rid ''provider.attempt_limit'' ''provider retry limit reached'' None) (\<lambda>_. yields False)
       else andthen (requested_model ag rid) (\<lambda>model.
         (case resumable_step prior of
            None \<Rightarrow>
              andthen (\<lambda>s. (Inr (tk_tools (wd_tick (ag_world ag) (as_next s))), s)) (\<lambda>defs.
              andthen (make_step (ag_world ag) rid ''model''
                  (''completion-'' @ py_int_str it @ ''-attempt-'' @ py_int_str (failed_attempts prior + 1))
                  (request_snapshot ag it (failed_attempts prior + 1) model msgs defs) ''read_only'' (Some (it * 1000)))
                (\<lambda>st. perform_model ag rid st False
                  (request_snapshot ag it (failed_attempts prior + 1) model msgs defs) model (failed_attempts prior + 1)))
          | Some st \<Rightarrow> perform_model ag rid st True (sv_input st) model (failed_attempts prior + 1)))))"


section \<open>Tools\<close>

text \<open>\<open>try ... except Exception\<close> around a block, as a value.\<close>

definition tries :: "'a prog \<Rightarrow> (agent_error + 'a) prog" where
  "tries p = catches is_exception (andthen p (\<lambda>x. yields (Inr x))) (\<lambda>e. yields (Inl e))"

definition run_tool :: "agent \<Rightarrow> str \<Rightarrow> tool_call \<Rightarrow> str option \<Rightarrow> json prog" where
  "run_tool ag sid c replaced = lease_heartbeat ag
     (andthen (awaits (ag_world ag) (ToolRun sid (tc_name c) (tc_arguments c) replaced) (\<lambda>t. raised (tk_tool t))) (\<lambda>v.
      andthen (refresh_lease ag sid) (\<lambda>_. yields v)))"

definition run_reconcile :: "agent \<Rightarrow> str \<Rightarrow> tool_call \<Rightarrow> json prog" where
  "run_reconcile ag sid c = lease_heartbeat ag
     (andthen (awaits (ag_world ag) (ToolReconciled sid (tc_name c) (tc_arguments c)) (\<lambda>t. raised (tk_tool t))) (\<lambda>v.
      andthen (refresh_lease ag sid) (\<lambda>_. yields v)))"

text \<open>The \<open>except\<close> branch: the step and the run fail.\<close>

definition tool_failed :: "agent \<Rightarrow> str \<Rightarrow> str \<Rightarrow> str \<Rightarrow> str \<Rightarrow> agent_error \<Rightarrow> 'a \<Rightarrow> 'a prog" where
  "tool_failed ag rid sid ty about e x =
     andthen (fail ag sid e) (\<lambda>_.
     andthen (stop_failed ag rid ty (snd (ag_describe ag e)) (Some about)) (\<lambda>_. yields x))"

definition tool_output :: "tool_call \<Rightarrow> json \<Rightarrow> json" where
  "tool_output c v = JObj [(''tool_call_id'', JStr (tc_id c)), (''name'', JStr (tc_name c)), (''result'', v)]"

definition tool_receipt :: "str \<Rightarrow> json \<Rightarrow> receipt_arg" where
  "tool_receipt sid payload = ReceiptMapping (Some (''tool:'' @ sid)) (Some payload) None"

definition approval_outcome :: "agent \<Rightarrow> str \<Rightarrow> step_view \<Rightarrow> str \<times> tool_safety \<Rightarrow> approval_status prog" where
  "approval_outcome ag rid st entry =
     andthen (read_run (ag_world ag) rid) (\<lambda>run.
     andthen (value_of (has_member (case rv_config run of JObj kvs \<Rightarrow> jget_or kvs ''preapproved_tool_names'' (JArr [])
                                      | _ \<Rightarrow> JArr []) (fst entry))) (\<lambda>durable.
       if durable \<or> \<not> requires_approval (rc_policy (ag_config ag)) (fst entry) (snd entry) then yields Approved
       else andthen (jread (ag_world ag) (list_approvals (Some rid) (Some (sv_id st)) None)) (\<lambda>found.
         if found = [] then
           andthen (jdo (ag_world ag) (\<lambda>t. request_approval (ag_codec ag) rid (Some (sv_id st))
               (JObj [(''tool'', JStr (fst entry)), (''safety'', JStr (safety_name (snd entry))), (''input'', sv_input st)])
               ''tool_execution'' (tk_hex t) (tk_now t))) (\<lambda>_. yields Pending)
         else yields (approval_stat (last found)))))"

datatype group_outcome = GoContinue | GoPaused | GoCancelled | GoFailed

definition tool_step_input :: "int \<Rightarrow> int \<Rightarrow> tool_call \<Rightarrow> json" where
  "tool_step_input it i c = JObj
     [(''iteration'', JInt it), (''call_index'', JInt i), (''tool_call'', serialize_tool_call c),
      (''arguments'', JObj (tc_arguments c))]"

definition perform_tool :: "agent \<Rightarrow> str \<Rightarrow> step_view \<Rightarrow> tool_call \<Rightarrow> tool_safety \<Rightarrow> group_outcome prog" where
  "perform_tool ag rid st c safety =
     andthen (claim_step ag st) (\<lambda>claimed.
       (case claimed of
          None \<Rightarrow> yields GoPaused
        | Some _ \<Rightarrow>
            andthen (executing ag (sv_id st)) (\<lambda>_.
            andthen (tries (run_tool ag (sv_id st) c None)) (\<lambda>r.
              (case r of
                 Inl e \<Rightarrow> tool_failed ag rid (sv_id st) ''tool.failed'' (sv_id st) e GoFailed
               | Inr v \<Rightarrow>
                   andthen (commit ag (sv_id st) (tool_output c v)
                     (if safety = TsReconcilable then tool_receipt (sv_id st) (tool_output c v) else NoReceipt))
                     (\<lambda>_. yields GoContinue))))))"

fun execute_tool_group :: "agent \<Rightarrow> str \<Rightarrow> int \<Rightarrow> int \<Rightarrow> tool_call list \<Rightarrow> group_outcome prog" where
  "execute_tool_group ag rid it i [] = yields GoContinue"
| "execute_tool_group ag rid it i (c # cs) =
     andthen (find_entry ag (tc_name c)) (\<lambda>entry.
     andthen (make_step (ag_world ag) rid ''tool'' (tc_name c) (tool_step_input it i c) (safety_name (snd entry))
                (Some (it * 1000 + i + 1))) (\<lambda>st.
       if sv_stat st = StepCommitted then execute_tool_group ag rid it (i + 1) cs
       else andthen (approval_outcome ag rid st entry) (\<lambda>outcome.
         (case outcome of
            Pending \<Rightarrow> andthen (pause_run ag rid ''tool approval required'' (Some (sv_id st))) (\<lambda>_. yields GoPaused)
          | Rejected \<Rightarrow>
              andthen (cancel ag (sv_id st)) (\<lambda>_.
              andthen (mark_run (ag_world ag) rid RunCancelled) (\<lambda>_. yields GoCancelled))
          | Approved \<Rightarrow>
              andthen (perform_tool ag rid st c (snd entry)) (\<lambda>o'.
                if o' = GoContinue then execute_tool_group ag rid it (i + 1) cs else yields o')))))"

section \<open>Uncertain steps\<close>

definition call_from_step :: "agent \<Rightarrow> step_view \<Rightarrow> value_error + tool_call" where
  "call_from_step ag st =
     sum_then (item_member (sv_input st) ''tool_call'') (\<lambda>v.
       (case v of JObj kvs \<Rightarrow> deserialize_tool_call (wd_text (ag_world ag)) True v | _ \<Rightarrow> Inl VeType))"

definition recovery_input :: "step_view \<Rightarrow> value_error + json" where
  "recovery_input st =
     (case sv_input st of
        JObj kvs \<Rightarrow> Inr (JObj (put_member (''recovery_of'', JStr (sv_id st)) kvs)) | _ \<Rightarrow> Inl VeType)"

definition after_sequence :: "step_view \<Rightarrow> int \<Rightarrow> int option" where
  "after_sequence st n = Some ((case sv_seq st of None \<Rightarrow> 0 | Some q \<Rightarrow> q) + n)"

definition make_replacement :: "agent \<Rightarrow> str \<Rightarrow> step_view \<Rightarrow> tool_call \<Rightarrow> step_view prog" where
  "make_replacement ag rid original c =
     andthen (value_of (recovery_input original)) (\<lambda>inp.
       make_step (ag_world ag) rid ''tool'' (tc_name c) inp (safety_value (sv_safety original)) (after_sequence original 600))"

text \<open>The claim and execution of a replacement of the step \<open>original\<close>; \<open>receipt\<close> says whether a receipt is stored
  with the result.\<close>

definition perform_replacement ::
  "agent \<Rightarrow> str \<Rightarrow> str \<Rightarrow> step_view \<Rightarrow> tool_call \<Rightarrow> str \<Rightarrow> bool \<Rightarrow> bool prog" where
  "perform_replacement ag rid original st c busy receipt =
     andthen (claim_step ag st) (\<lambda>claimed.
       (case claimed of
          None \<Rightarrow> andthen (pause_run ag rid busy (Some (sv_id st))) (\<lambda>_. yields False)
        | Some _ \<Rightarrow>
            andthen (executing ag (sv_id st)) (\<lambda>_.
            andthen (tries (run_tool ag (sv_id st) c (Some original))) (\<lambda>r.
              (case r of
                 Inl e \<Rightarrow> tool_failed ag rid (sv_id st) ''tool.failed'' (sv_id st) e False
               | Inr v \<Rightarrow>
                   andthen (commit ag (sv_id st) (tool_output c v)
                     (if receipt then tool_receipt (sv_id st) v else NoReceipt)) (\<lambda>_. yields True))))))"

definition retry_approved_uncertain :: "agent \<Rightarrow> str \<Rightarrow> step_view \<Rightarrow> bool prog" where
  "retry_approved_uncertain ag rid original =
     andthen (read_steps (ag_world ag) rid) (\<lambda>all.
     andthen (value_of (replacement_of all (sv_id original))) (\<lambda>existing.
       if (case existing of None \<Rightarrow> False | Some x \<Rightarrow> sv_stat x \<in> {StepCommitted, StepUncertain}) then yields True
       else andthen (value_of (call_from_step ag original)) (\<lambda>c.
         andthen (case existing of Some x \<Rightarrow> yields x | None \<Rightarrow> make_replacement ag rid original c) (\<lambda>st.
           perform_replacement ag rid (sv_id original) st c ''uncertain tool retry is already leased'' False))))"

text \<open>Whether a reconciliation says that the effect has happened; \<open>stored\<close> values are immutable.\<close>

fun hashable :: "json \<Rightarrow> bool" where
  "hashable (JArr xs) = list_all hashable xs"
| "hashable (JObj kvs) = False"
| "hashable v = True"

definition reconcile_proves_applied :: "bool \<Rightarrow> json \<Rightarrow> value_error + bool" where
  "reconcile_proves_applied stored v =
     (case v of
        JObj kvs \<Rightarrow>
          if py_truthy (jget kvs ''found'') \<or> py_truthy (jget kvs ''already_applied'') then Inr True
          else (case jget kvs ''status'' of
                  JStr s \<Rightarrow> Inr (s \<in> {''found'', ''already_applied'', ''applied'', ''completed''})
                | JArr xs \<Rightarrow> if stored \<and> hashable (JArr xs) then Inr False else Inl VeType
                | JObj _ \<Rightarrow> Inl VeType
                | _ \<Rightarrow> Inr False)
      | _ \<Rightarrow> Inr False)"

definition reconciled_output :: "tool_call \<Rightarrow> json \<Rightarrow> json" where
  "reconciled_output c v = tool_output c (case v of JObj kvs \<Rightarrow> jget_or kvs ''result'' v | _ \<Rightarrow> v)"

definition reconcile_input :: "step_view \<Rightarrow> tool_call \<Rightarrow> json" where
  "reconcile_input original c = JObj
     [(''original_step_id'', JStr (sv_id original)), (''tool_call'', serialize_tool_call c),
      (''arguments'', JObj (tc_arguments c))]"

text \<open>The result of the reconciliation step with its origin, or nothing when the run was stopped or paused.\<close>

definition reconcile_result :: "agent \<Rightarrow> str \<Rightarrow> step_view \<Rightarrow> tool_call \<Rightarrow> (bool \<times> json) option prog" where
  "reconcile_result ag rid original c =
     andthen (make_step (ag_world ag) rid ''reconcile'' (tc_name c) (reconcile_input original c) ''read_only''
                (after_sequence original 500)) (\<lambda>st.
       if sv_stat st = StepCommitted then yields (Some (True, sv_output st))
       else andthen (claim_step ag st) (\<lambda>claimed.
         (case claimed of
            None \<Rightarrow> andthen (pause_run ag rid ''reconciliation is already leased'' (Some (sv_id original))) (\<lambda>_. yields None)
          | Some _ \<Rightarrow>
              andthen (executing ag (sv_id st)) (\<lambda>_.
              andthen (tries (run_reconcile ag (sv_id st) c)) (\<lambda>r.
                (case r of
                   Inl e \<Rightarrow> tool_failed ag rid (sv_id st) ''tool.reconcile_failed'' (sv_id original) e None
                 | Inr v \<Rightarrow>
                     andthen (commit ag (sv_id st) v
                       (ReceiptMapping (Some (''reconcile:'' @ sv_id st)) (Some v) None))
                       (\<lambda>_. yields (Some (False, v)))))))))"

definition replace_after_reconcile :: "agent \<Rightarrow> str \<Rightarrow> step_view \<Rightarrow> tool_call \<Rightarrow> bool prog" where
  "replace_after_reconcile ag rid original c =
     andthen (make_replacement ag rid original c) (\<lambda>st.
     andthen (find_entry ag (tc_name c)) (\<lambda>entry.
     andthen (approval_outcome ag rid st entry) (\<lambda>outcome.
       (case outcome of
          Rejected \<Rightarrow>
            andthen (cancel ag (sv_id st)) (\<lambda>_.
            andthen (mark_run (ag_world ag) rid RunCancelled) (\<lambda>_. yields False))
        | Pending \<Rightarrow>
            andthen (pause_run ag rid ''retry after reconciliation requires approval'' (Some (sv_id st)))
              (\<lambda>_. yields False)
        | Approved \<Rightarrow> perform_replacement ag rid (sv_id original) st c ''recovered tool is already leased'' True))))"

definition reconcile_uncertain :: "agent \<Rightarrow> str \<Rightarrow> step_view \<Rightarrow> bool prog" where
  "reconcile_uncertain ag rid original =
     andthen (jread (ag_world ag) (find_receipt (reconcile_receipt_key (sv_id original)))) (\<lambda>known.
       if known \<noteq> None then yields True
       else andthen (value_of (call_from_step ag original)) (\<lambda>c.
         andthen (reconcile_result ag rid original c) (\<lambda>result.
           (case result of
              None \<Rightarrow> yields False
            | Some (stored, v) \<Rightarrow>
                andthen (value_of (reconcile_proves_applied stored v)) (\<lambda>applied.
                  if applied then
                    andthen (jdo (ag_world ag) (\<lambda>t. record_receipt (ag_codec ag) (sv_id original)
                        (reconcile_receipt_key (sv_id original)) (reconciled_output c v) (tk_now t))) (\<lambda>_.
                    andthen (note_event (ag_world ag) rid ''tool.reconciled''
                        (JObj [(''original_step_id'', JStr (sv_id original)), (''outcome'', JStr ''already_applied'')])
                        (Some (sv_id original))) (\<lambda>_. yields True))
                  else replace_after_reconcile ag rid original c)))))"

definition uncertain_kind :: str where
  "uncertain_kind = ''uncertain_outcome''"

definition request_uncertainty_decision :: "agent \<Rightarrow> str \<Rightarrow> step_view \<Rightarrow> unit prog" where
  "request_uncertainty_decision ag rid st =
     andthen (jread (ag_world ag) (list_approvals (Some rid) (Some (sv_id st)) None)) (\<lambda>found.
       if (\<exists>a \<in> set found. approval_kind a = uncertain_kind) then yields ()
       else jdo (ag_world ag) (\<lambda>t. request_approval (ag_codec ag) rid (Some (sv_id st))
         (JObj [(''step'', JStr (sv_id st)), (''tool'', JStr (sv_name st)), (''reason'', jopt (sv_reason st))])
         uncertain_kind (tk_hex t) (tk_now t)))"

fun settle_uncertain :: "agent \<Rightarrow> str \<Rightarrow> step_view list \<Rightarrow> bool prog" where
  "settle_uncertain ag rid [] = yields False"
| "settle_uncertain ag rid (st # rest) =
     (if sv_safety st = Reconcilable then
        andthen (reconcile_uncertain ag rid st) (\<lambda>ok. if ok then settle_uncertain ag rid rest else yields True)
      else andthen (jread (ag_world ag) (list_approvals (Some rid) (Some (sv_id st)) None)) (\<lambda>found.
        let decisions = filter (\<lambda>a. approval_kind a = uncertain_kind) found in
        if decisions \<noteq> [] \<and> approval_stat (last decisions) = Approved then
          andthen (retry_approved_uncertain ag rid st) (\<lambda>ok. if ok then settle_uncertain ag rid rest else yields True)
        else andthen (if decisions = [] then request_uncertainty_decision ag rid st else yields ()) (\<lambda>_.
          andthen (pause_run ag rid ''opaque tool outcome is uncertain'' (Some (sv_id st))) (\<lambda>_. yields True))))"

definition reject_run :: "agent \<Rightarrow> str \<Rightarrow> approval_row \<Rightarrow> unit prog" where
  "reject_run ag rid a =
     andthen (case approval_step a of
        None \<Rightarrow> yields ()
      | Some sid \<Rightarrow> andthen (read_step (ag_world ag) sid) (\<lambda>st.
          if sv_stat st \<in> {StepReady, StepUncertain} then cancel ag (sv_id st) else yields ())) (\<lambda>_.
     andthen (read_run (ag_world ag) rid) (\<lambda>run.
       if rv_stat run \<in> {RunCancelled, RunCompleted} then yields () else mark_run (ag_world ag) rid RunCancelled))"

fun check_approvals :: "agent \<Rightarrow> str \<Rightarrow> approval_row list \<Rightarrow> bool prog" where
  "check_approvals ag rid [] = yields False"
| "check_approvals ag rid (a # rest) =
     (case approval_stat a of
        Pending \<Rightarrow> andthen (pause_run ag rid ''approval pending'' (approval_step a)) (\<lambda>_. yields True)
      | Rejected \<Rightarrow> andthen (reject_run ag rid a) (\<lambda>_. yields True)
      | Approved \<Rightarrow> check_approvals ag rid rest)"

definition handle_approvals_and_uncertainty :: "agent \<Rightarrow> str \<Rightarrow> bool prog" where
  "handle_approvals_and_uncertainty ag rid =
     andthen (jread (ag_world ag) (list_approvals (Some rid) None None)) (\<lambda>found.
     andthen (check_approvals ag rid found) (\<lambda>ended.
       if ended then yields True
       else andthen (read_steps (ag_world ag) rid) (\<lambda>all.
         settle_uncertain ag rid (filter (\<lambda>s. sv_stat s = StepUncertain) all))))"

section \<open>The loop\<close>

text \<open>\<open>while True\<close>, for at most \<open>n\<close> rounds.\<close>

fun agent_loop :: "agent \<Rightarrow> str \<Rightarrow> nat \<Rightarrow> agent_result prog" where
  "agent_loop ag rid 0 = raises AeFuel"
| "agent_loop ag rid (Suc n) =
     andthen (reconstruct ag rid) (\<lambda>(msgs, it, final).
       if final \<noteq> None then
         andthen (mark_run (ag_world ag) rid RunCompleted) (\<lambda>_. agent_result_of ag rid)
       else if rc_max_iterations (ag_config ag) \<le> it then
         stop_failed ag rid ''runtime.iteration_limit'' ''maximum model iterations reached'' None
       else andthen (outstanding_tool_calls ag rid it) (\<lambda>tcalls.
         if tcalls \<noteq> [] then
           andthen (execute_tool_group ag rid it 0 tcalls) (\<lambda>outcome.
             if outcome \<noteq> GoContinue then agent_result_of ag rid
             else andthen (has_repeated_tool_calls ag rid) (\<lambda>stuck.
               if stuck then stop_failed ag rid ''runtime.no_progress'' ''repeated identical tool-call sets'' None
               else agent_loop ag rid n))
         else andthen (execute_model ag rid msgs it) (\<lambda>completed.
           if completed then agent_loop ag rid n
           else andthen (read_run (ag_world ag) rid) (\<lambda>run.
             if rv_stat run \<noteq> RunRunning then agent_result_of ag rid else agent_loop ag rid n))))"

definition agent_execute :: "agent \<Rightarrow> nat \<Rightarrow> str \<Rightarrow> agent_result prog" where
  "agent_execute ag fuel rid =
     andthen (read_run (ag_world ag) rid) (\<lambda>run.
       if rv_stat run \<in> {RunCompleted, RunFailed, RunCancelled} then agent_result_of ag rid
       else andthen (jdo (ag_world ag) (\<lambda>t. reclaim_expired_leases (ag_codec ag) (tk_now t))) (\<lambda>_.
         andthen (read_run (ag_world ag) rid) (\<lambda>_.
         andthen (handle_approvals_and_uncertainty ag rid) (\<lambda>ended.
           if ended then agent_result_of ag rid
           else andthen (read_run (ag_world ag) rid) (\<lambda>run'.
             andthen (if rv_stat run' \<in> {RunPaused, RunCreated} then mark_run (ag_world ag) rid RunRunning else yields ())
               (\<lambda>_. agent_loop ag rid fuel))))))"

end
