(* ===== verification/AgentCalm.thy ===== *)
theory AgentCalm
  imports AgentExecution
begin

text \<open>
  Programs in a calm world, where no one else calls the journal and the process is not killed.  What such a program
  reads depends on the journal alone: \<open>result p j x\<close> says that \<open>p\<close> returns \<open>x\<close> from every state with the journal \<open>j\<close>
  and leaves the journal as it is.
\<close>

definition calm :: "world \<Rightarrow> bool" where
  "calm wd \<longleftrightarrow> (\<forall>n. tk_others (wd_tick wd n) = [] \<and> \<not> tk_stop (wd_tick wd n))"

definition result :: "'a prog \<Rightarrow> journal \<Rightarrow> agent_error + 'a \<Rightarrow> bool" where
  "result p j r \<longleftrightarrow> (\<forall>s. as_journal s = j \<longrightarrow> fst (p s) = r \<and> as_journal (snd (p s)) = j \<and> as_trace (snd (p s)) = as_trace s)"

definition reads :: "'a prog \<Rightarrow> journal \<Rightarrow> bool" where
  "reads p j \<longleftrightarrow> (\<exists>r. result p j r)"

lemma result_unique: "result p j r \<Longrightarrow> result p j r' \<Longrightarrow> r = r'"
  unfolding result_def by (metis agent_state.select_convs(2))

lemma result_fst: "result p (as_journal s) r \<Longrightarrow> fst (p s) = r"
  by (simp add: result_def)

lemma result_yields [simp]: "result (yields x) j (Inr x)"
  by (simp add: result_def yields_def)

lemma result_raises [simp]: "result (raises e) j (Inl e)"
  by (simp add: result_def raises_def)

lemma result_pure [simp]: "result (\<lambda>s. (x, s)) j x"
  by (simp add: result_def)

lemma result_andthen:
  "result p j (Inr x) \<Longrightarrow> result (f x) j r \<Longrightarrow> result (andthen p f) j r"
  by (auto simp: result_def andthen_def split: prod.splits sum.splits)

lemma result_andthen_error: "result p j (Inl e) \<Longrightarrow> result (andthen p f) j (Inl e)"
  by (auto simp: result_def andthen_def split: prod.splits sum.splits)

lemma result_value_of: "result (value_of x) j (case x of Inl e \<Rightarrow> Inl (AeValue e) | Inr v \<Rightarrow> Inr v)"
  by (cases x) (simp_all add: value_of_def)

lemma result_value_Inr [simp]: "result (value_of (Inr v)) j (Inr v)"
  by (simp add: value_of_def)

lemma result_jread:
  assumes "calm wd"
  shows "result (jread wd f) j (case f j of Inl e \<Rightarrow> Inl (AeJournal e) | Inr x \<Rightarrow> Inr x)"
  using assms by (auto simp: result_def jread_def jcall_def calm_def arrive_def Let_def split: sum.splits)

lemma result_jread_Inr: "calm wd \<Longrightarrow> f j = Inr x \<Longrightarrow> result (jread wd f) j (Inr x)"
  using result_jread [of wd f j] by simp

lemma result_read_run:
  assumes "calm wd" and "get_run rid j = Inr r" and "run_from_row wd r = Inr v"
  shows "result (read_run wd rid) j (Inr v)"
  unfolding read_run_def
  by (rule result_andthen [OF result_jread_Inr [of wd "get_run rid" j r]]) (simp_all add: assms)

lemma result_read_step:
  assumes "calm wd" and "get_step sid j = Inr r" and "step_from_row wd r = Inr v"
  shows "result (read_step wd sid) j (Inr v)"
  unfolding read_step_def
  by (rule result_andthen [OF result_jread_Inr [of wd "get_step sid" j r]]) (simp_all add: assms)

lemma result_read_steps:
  assumes "calm wd" and "list_steps rid None j = Inr rs" and "sum_all (step_from_row wd) rs = Inr vs"
  shows "result (read_steps wd rid) j (Inr vs)"
  unfolding read_steps_def
  by (rule result_andthen [OF result_jread_Inr [of wd "list_steps rid None" j rs]]) (simp_all add: assms)

text \<open>Every program that only reads has a result.\<close>

named_theorems reading \<open>programs that only read\<close>

lemma reads_yields [reading]: "reads (yields x) j"
  unfolding reads_def by (blast intro: result_yields)

lemma reads_raises [reading]: "reads (raises e) j"
  unfolding reads_def by (blast intro: result_raises)

lemma reads_value_of [reading]: "reads (value_of x) j"
  unfolding reads_def by (blast intro: result_value_of)

lemma reads_jread [reading]: "calm wd \<Longrightarrow> reads (jread wd f) j"
  unfolding reads_def by (blast intro: result_jread)

lemma reads_andthen [reading]:
  assumes "reads p j" and "\<And>x. reads (f x) j"
  shows "reads (andthen p f) j"
proof -
  obtain r where r: "result p j r" using assms(1) by (auto simp: reads_def)
  show ?thesis
  proof (cases r)
    case (Inl e)
    then show ?thesis using r result_andthen_error unfolding reads_def by blast
  next
    case (Inr x)
    obtain r' where r': "result (f x) j r'" using assms(2) [of x] by (auto simp: reads_def)
    have "result (andthen p f) j r'" using r r' by (intro result_andthen [where x = x]) (simp_all add: Inr)
    then show ?thesis by (auto simp: reads_def)
  qed
qed

lemma reads_if [reading]: "(b \<Longrightarrow> reads p j) \<Longrightarrow> (\<not> b \<Longrightarrow> reads q j) \<Longrightarrow> reads (if b then p else q) j"
  by simp

lemma reads_option [reading]:
  "(x = None \<Longrightarrow> reads p j) \<Longrightarrow> (\<And>y. x = Some y \<Longrightarrow> reads (f y) j) \<Longrightarrow> reads (case x of None \<Rightarrow> p | Some y \<Rightarrow> f y) j"
  by (cases x) simp_all

lemma reads_prod [reading]: "(\<And>a b. reads (f a b) j) \<Longrightarrow> reads (case x of (a, b) \<Rightarrow> f a b) j"
  by (cases x) simp_all

lemma reads_records [reading]:
  assumes "calm wd"
  shows "reads (read_run wd rid) j" "reads (read_steps wd rid) j" "reads (read_step wd sid) j" "reads (read_receipt wd key) j"
  by (auto simp: read_run_def read_steps_def read_step_def read_receipt_def assms intro!: reading)

lemma reads_lineage [reading]:
  assumes "calm wd"
  shows "reads (lineage wd all n visited cur) j"
proof (induction n arbitrary: visited cur)
  case (Suc n)
  show ?case by (simp only: lineage.simps) (intro reading assms Suc.IH)
qed (simp add: reading)

lemma reads_recorded_output [reading]: "calm wd \<Longrightarrow> reads (recorded_tool_output wd rid st) j"
  unfolding recorded_tool_output_def by (intro reading)

end
