(* ===== verification/AgentFindings.thy ===== *)
theory AgentFindings
  imports AgentCalm
begin

text \<open>
  Where the runtime does not make progress.  In a calm world, where nobody else calls the journal, what an execution reads
  stays the same, so a round of the loop that only reads is repeated for ever; and a step that can no longer be claimed
  pauses the run again each time that it is executed.
\<close>

section \<open>A model step held by a lease\<close>

lemma committed_models_none:
  "(\<forall>s \<in> set all. sv_stat s \<noteq> StepCommitted) \<Longrightarrow> committed_models ag all = Inr []"
  by (induction all) (auto split: json.splits)

lemma calls_of_iteration_none:
  "(\<forall>s \<in> set all. sv_stat s \<noteq> StepCommitted) \<Longrightarrow> calls_of_iteration ag it all = Inr []"
  by (induction all) auto

lemma model_steps_subset: "model_steps it all = Inr prior \<Longrightarrow> set prior \<subseteq> set all"
  by (induction all arbitrary: prior) (auto simp: sum_then_def split: if_splits sum.splits)

lemma find_in: "find P xs = Some x \<Longrightarrow> x \<in> set xs"
  by (induction xs) (auto split: if_splits)

text \<open>The journal of a run whose first answer is awaited by someone: the step of the model is not committed and cannot
  be claimed.\<close>

definition model_step_held :: "agent \<Rightarrow> str \<Rightarrow> journal \<Rightarrow> bool" where
  "model_step_held ag rid j \<longleftrightarrow>
     (\<exists>run all prior st st'.
        result (read_run (ag_world ag) rid) j (Inr run) \<and> rv_stat run = RunRunning \<and>
        result (read_steps (ag_world ag) rid) j (Inr all) \<and> (\<forall>s \<in> set all. sv_stat s \<noteq> StepCommitted) \<and>
        model_steps 0 all = Inr prior \<and> failed_attempts prior < rc_max_iterations (ag_config ag) \<and>
        resumable_step prior = Some st \<and>
        result (read_step (ag_world ag) (sv_id st)) j (Inr st') \<and> sv_stat st' \<noteq> StepReady)"

lemma result_committed_none:
  assumes "\<forall>s \<in> set all. sv_stat s \<noteq> StepCommitted" and "result (read_run (ag_world ag) rid) j (Inr run)"
    and "result (read_steps (ag_world ag) rid) j (Inr all)"
  shows "result (reconstruct ag rid) j (Inr (initial_messages ag run, 0, None))"
    and "result (outstanding_tool_calls ag rid it) j (Inr [])"
proof -
  show "result (reconstruct ag rid) j (Inr (initial_messages ag run, 0, None))"
    unfolding reconstruct_def
    by (rule result_andthen [OF assms(2)], rule result_andthen [OF assms(3)],
        rule result_andthen [where x = "[]"])
      (simp_all add: committed_models_none [OF assms(1)] by_iteration_def)
  show "result (outstanding_tool_calls ag rid it) j (Inr [])"
    unfolding outstanding_tool_calls_def
    by (rule result_andthen [OF assms(3)]) (simp add: calls_of_iteration_none [OF assms(1)])
qed

lemma result_claim_refused:
  assumes "result (read_step (ag_world ag) (sv_id st)) j (Inr st')" and "sv_stat st' \<noteq> StepReady"
  shows "result (claim_step ag st) j (Inr None)"
  unfolding claim_step_def by (rule result_andthen [OF assms(1)]) (simp add: assms(2))

text \<open>
  A worker dies while the model answers, and the run is executed again before the lease of the step has run out: no step is
  reclaimed then, and the loop reads the journal over and over without ever waiting, asking or calling anything.
\<close>

theorem held_model_step_spins:
  assumes calm: "calm (ag_world ag)" and held: "model_step_held ag rid j"
  shows "result (agent_loop ag rid n) j (Inl AeFuel)"
proof (induction n)
  case (Suc n)
  obtain run all prior st st' where run: "result (read_run (ag_world ag) rid) j (Inr run)" "rv_stat run = RunRunning"
    and all: "result (read_steps (ag_world ag) rid) j (Inr all)" "\<forall>s \<in> set all. sv_stat s \<noteq> StepCommitted"
    and prior: "model_steps 0 all = Inr prior" "failed_attempts prior < rc_max_iterations (ag_config ag)"
    and st: "resumable_step prior = Some st"
    and held': "result (read_step (ag_world ag) (sv_id st)) j (Inr st')" "sv_stat st' \<noteq> StepReady"
    using held unfolding model_step_held_def by blast
  have limit: "\<not> rc_max_iterations (ag_config ag) \<le> 0" using prior(2) by (simp add: failed_attempts_def)
  have none: "\<not> (\<exists>s \<in> set prior. sv_stat s = StepCommitted)" using model_steps_subset [OF prior(1)] all(2) by blast
  have st_in: "st \<in> set prior" using find_in [OF st [unfolded resumable_step_def]] by simp
  have perform: "result (perform_model ag rid st stored snapshot m k) j (Inr False)" for stored snapshot m k
    unfolding perform_model_def using none st_in
    by (auto intro!: result_andthen [OF result_claim_refused [OF held']])
  have "\<exists>m. result (requested_model ag rid) j (Inr m)"
    unfolding requested_model_def by (rule exI, rule result_andthen [OF run(1)], rule result_yields)
  then obtain m where m: "result (requested_model ag rid) j (Inr m)" ..
  have model: "result (execute_model ag rid msgs 0) j (Inr False)" for msgs
    unfolding execute_model_def
    by (rule result_andthen [OF all(1)], rule result_andthen [where x = prior])
      (use prior none st in \<open>auto intro: result_andthen [OF m] perform\<close>)
  have again: "result (andthen (read_run (ag_world ag) rid)
      (\<lambda>run. if rv_stat run \<noteq> RunRunning then agent_result_of ag rid else agent_loop ag rid n)) j (Inl AeFuel)"
    by (rule result_andthen [OF run(1)]) (simp add: run(2) Suc)
  show ?case
    unfolding agent_loop.simps
    by (rule result_andthen [OF result_committed_none(1) [OF all(2) run(1) all(1)]])
      (use limit in \<open>auto intro!: result_andthen [OF result_committed_none(2) [OF all(2) run(1) all(1)]]
        result_andthen [OF model] again\<close>)
qed simp

section \<open>A recovered call in a group\<close>

lemma jcall_same:
  assumes "calm wd" and "\<And>t. f t j = (Inr x, j)"
  shows "result (jcall wd f) j (Inr x)"
  using assms by (auto simp: result_def jcall_def calm_def arrive_def Let_def)

lemma result_make_step:
  assumes "calm wd" and "\<And>now. create_step (wd_codec wd) rid kind name inp safety seq now j = (Inr row, j)"
    and "step_from_row wd row = Inr st"
  shows "result (make_step wd rid kind name inp safety seq) j (Inr st)"
  unfolding make_step_def
  by (rule result_andthen [OF jcall_same [OF assms(1), of _ _ row]]) (simp_all add: assms(2,3))

lemma result_approved:
  assumes "result (read_run (ag_world ag) rid) j (Inr run)" and "rv_config run = JObj kvs"
    and "jget_or kvs ''preapproved_tool_names'' (JArr []) = JArr names"
    and "\<not> requires_approval (rc_policy (ag_config ag)) (fst entry) (snd entry)"
  shows "result (approval_outcome ag rid st entry) j (Inr Approved)"
  unfolding approval_outcome_def
  by (rule result_andthen [OF assms(1)]) (simp add: assms(2-4) result_andthen [OF result_value_Inr])

text \<open>
  The first call of a group was executed, and its outcome was uncertain; it has been reconciled or replaced since.  The step
  of the call itself stays uncertain, is not skipped and cannot be claimed: the group ends there, and the calls
  behind it are never executed.
\<close>

theorem uncertain_call_blocks_group:
  assumes calm: "calm (ag_world ag)" and entry: "ag_entry ag (tc_name c) = Some entry"
    and step: "\<And>now. create_step (ag_codec ag) rid ''tool'' (tc_name c) (tool_step_input it i c)
      (safety_name (snd entry)) (Some (it * 1000 + i + 1)) now j = (Inr row, j)"
    and st: "step_from_row (ag_world ag) row = Inr st" "sv_stat st = StepUncertain"
    and now: "result (read_step (ag_world ag) (sv_id st)) j (Inr st)"
    and approved: "result (approval_outcome ag rid st entry) j (Inr Approved)"
  shows "result (execute_tool_group ag rid it i (c # cs)) j (Inr GoPaused)"
proof -
  have "result (perform_tool ag rid st c (snd entry)) j (Inr GoPaused)"
    unfolding perform_tool_def
    by (rule result_andthen [OF result_claim_refused [OF now]]) (simp_all add: st)
  then have "result (andthen (perform_tool ag rid st c (snd entry))
      (\<lambda>o'. if o' = GoContinue then execute_tool_group ag rid it (i + 1) cs else yields o')) j (Inr GoPaused)"
    by (rule result_andthen) simp
  note performed = this
  have "result (find_entry ag (tc_name c)) j (Inr entry)" by (simp add: find_entry_def entry)
  then show ?thesis
    unfolding execute_tool_group.simps
    by (rule result_andthen)
      (simp add: st performed result_andthen [OF result_make_step [OF calm step st(1)]] result_andthen [OF approved])
qed

section \<open>A recovered step when the run is executed again\<close>

lemma never_true:
  assumes "result p j (Inr x)" and "\<And>s. as_journal s = j \<Longrightarrow> fst (f x s) \<noteq> Inr True" and "as_journal s = j"
  shows "fst (andthen p f s) \<noteq> Inr True"
  using assms by (auto simp: result_def andthen_def split: prod.splits sum.splits)

text \<open>
  The outcome of a reconcilable step was uncertain, the reconciliation found no effect, and the tool was executed again by
  a replacement, which is committed.  When the run is executed once more, since it was paused or the process died, the
  committed replacement is to be claimed again, which fails: the run pauses, at every execution.
\<close>

theorem committed_replacement_pauses:
  assumes calm: "calm (ag_world ag)" and j: "as_journal s = j"
    and no_receipt: "find_receipt (reconcile_receipt_key (sv_id original)) j = Inr None"
    and call: "call_from_step ag original = Inr c"
    and reconciled: "\<And>now. create_step (ag_codec ag) rid ''reconcile'' (tc_name c) (reconcile_input original c) ''read_only''
        (after_sequence original 500) now j = (Inr row, j)"
      "step_from_row (ag_world ag) row = Inr rec" "sv_stat rec = StepCommitted"
      "reconcile_proves_applied True (sv_output rec) = Inr False"
    and replaced: "recovery_input original = Inr inp"
      "\<And>now. create_step (ag_codec ag) rid ''tool'' (tc_name c) inp (safety_value (sv_safety original))
        (after_sequence original 600) now j = (Inr row', j)"
      "step_from_row (ag_world ag) row' = Inr st" "sv_stat st = StepCommitted"
      "result (read_step (ag_world ag) (sv_id st)) j (Inr st)"
    and entry: "ag_entry ag (tc_name c) = Some entry"
    and approved: "result (approval_outcome ag rid st entry) j (Inr Approved)"
  shows "fst (reconcile_uncertain ag rid original s) \<noteq> Inr True"
proof -
  have pause: "fst (andthen (pause_run ag rid what i) (\<lambda>_. yields False) s) \<noteq> Inr True" for what i s
    by (auto simp: andthen_def yields_def split: prod.splits sum.splits)
  have perform: "fst (perform_replacement ag rid (sv_id original) st c what receipt s) \<noteq> Inr True"
    if "as_journal s = j" for what receipt s
    unfolding perform_replacement_def
    by (rule never_true [OF result_claim_refused [OF replaced(5)] _ that]) (simp_all add: replaced(4) pause)
  have replacement: "result (make_replacement ag rid original c) j (Inr st)"
    unfolding make_replacement_def
    by (rule result_andthen [where x = inp]) (simp_all add: replaced(1) result_make_step [OF calm replaced(2,3)])
  have found: "result (find_entry ag (tc_name c)) j (Inr entry)" by (simp add: find_entry_def entry)
  have replace: "fst (replace_after_reconcile ag rid original c s) \<noteq> Inr True" if "as_journal s = j" for s
    unfolding replace_after_reconcile_def
    by (rule never_true [OF replacement _ that], rule never_true [OF found], rule never_true [OF approved])
      (simp_all add: perform)
  have reconcile: "result (reconcile_result ag rid original c) j (Inr (Some (True, sv_output rec)))"
    unfolding reconcile_result_def
    by (rule result_andthen [OF result_make_step [OF calm reconciled(1,2)]]) (simp add: reconciled(3))
  have known: "result (jread (ag_world ag) (find_receipt (reconcile_receipt_key (sv_id original)))) j (Inr None)"
    by (rule result_jread_Inr) (simp_all add: calm no_receipt)
  show ?thesis
    unfolding reconcile_uncertain_def
    apply (rule never_true [OF known _ j])
    apply simp
    apply (rule never_true [where x = c], simp add: call)
     apply (rule never_true [OF reconcile], simp)
      apply (rule never_true [where x = False], simp add: reconciled(4))
       apply (simp_all add: replace)
    done
qed

section \<open>A crash between the settlement and the commit\<close>

text \<open>
  The reservation of a model step was settled, and the process died before the step was committed.  The step is claimed
  again and the model is asked again; unless the new answer has used exactly as much as the first, its settlement
  raises a conflict, which leaves the execution, and so will every further attempt.
\<close>

theorem second_settlement_conflicts:
  assumes "calm (ag_world ag)" and "as_journal s = j" "\<not> closed j"
    and "find_reservation (''budget_'' @ sid) (database j) = Some v" "rsv_run v = rid" "rsv_settled v"
    and "actual_amounts \<lparr>sa_calls = (Some 1, None), sa_tokens = (Some n, None), sa_micro_usd = (Some usd, None),
        sa_wall = (None, None)\<rparr> = Inr actual" "rsv_actual v \<noteq> Some actual"
  shows "settle ag rid (''budget_'' @ sid) 1 (Some n) (Some usd) s = (Inl (AeJournal Conflict), s\<lparr>as_next := as_next s + 1\<rparr>)"
  using assms
  by (simp add: settle_def jdo_def jcall_def andthen_def calm_def arrive_def Let_def settle_budget_def transaction_def
      settle_budget_tx_def)

end
