(* ===== verification/AgentSafety.thy ===== *)
theory AgentSafety
  imports AgentExecution JournalContracts
begin

text \<open>
  What every program of the runtime keeps.  \<open>keeps I p\<close>: the program keeps the invariant, whether it returns or
  raises; \<open>leads P p Q I\<close> adds what holds when it returns.  The rules follow the program constructs, and
  every program of the runtime is a sequence of calls of the journal interleaved with those of others.
\<close>

section \<open>Programs and invariants\<close>

definition keeps :: "(agent_state \<Rightarrow> bool) \<Rightarrow> 'a prog \<Rightarrow> bool" where
  "keeps I p \<longleftrightarrow> (\<forall>s. I s \<longrightarrow> I (snd (p s)))"

definition leads :: "(agent_state \<Rightarrow> bool) \<Rightarrow> 'a prog \<Rightarrow> ('a \<Rightarrow> agent_state \<Rightarrow> bool) \<Rightarrow> (agent_state \<Rightarrow> bool) \<Rightarrow> bool" where
  "leads P p Q I \<longleftrightarrow> (\<forall>s. P s \<longrightarrow> (case p s of (Inl e, s') \<Rightarrow> I s' | (Inr x, s') \<Rightarrow> Q x s'))"

named_theorems kept \<open>programs that keep an invariant\<close>

lemma leadsD:
  "leads P p Q I \<Longrightarrow> P s \<Longrightarrow> p s = (Inl e, s') \<Longrightarrow> I s'"
  "leads P p Q I \<Longrightarrow> P s \<Longrightarrow> p s = (Inr x, s') \<Longrightarrow> Q x s'"
  unfolding leads_def by fastforce+

lemma leadsI:
  assumes "\<And>s e s'. P s \<Longrightarrow> p s = (Inl e, s') \<Longrightarrow> I s'" and "\<And>s x s'. P s \<Longrightarrow> p s = (Inr x, s') \<Longrightarrow> Q x s'"
  shows "leads P p Q I"
  using assms unfolding leads_def by (auto split: prod.splits sum.splits)

lemma keepsD: "keeps I p \<Longrightarrow> I s \<Longrightarrow> p s = (r, s') \<Longrightarrow> I s'"
  unfolding keeps_def by (metis snd_conv)

lemma keepsI: "(\<And>s r s'. I s \<Longrightarrow> p s = (r, s') \<Longrightarrow> I s') \<Longrightarrow> keeps I p"
  unfolding keeps_def by (metis prod.collapse)

lemma keeps_iff_leads: "keeps I p \<longleftrightarrow> leads I p (\<lambda>_. I) I"
proof
  show "keeps I p \<Longrightarrow> leads I p (\<lambda>_. I) I" by (rule leadsI) (erule (2) keepsD)+
  assume p: "leads I p (\<lambda>_. I) I"
  show "keeps I p"
  proof (rule keepsI)
    fix s r s' assume "I s" "p s = (r, s')"
    then show "I s'" using leadsD(1) [OF p, of s _ s'] leadsD(2) [OF p, of s _ s'] by (cases r) blast+
  qed
qed

lemma andthen_cases:
  "andthen p f s = (r, s') \<Longrightarrow>
   (\<exists>e. p s = (Inl e, s') \<and> r = Inl e) \<or> (\<exists>x s1. p s = (Inr x, s1) \<and> f x s1 = (r, s'))"
  by (auto simp: andthen_def split: prod.splits sum.splits)

lemma leads_andthen:
  assumes p: "leads P p Q I" and f: "\<And>x. leads (Q x) (f x) R I"
  shows "leads P (andthen p f) R I"
proof (rule leadsI)
  fix s e s' assume s: "P s" "andthen p f s = (Inl e, s')"
  from andthen_cases [OF s(2)] show "I s'" using leadsD [OF p s(1)] leadsD [OF f] by blast
next
  fix s x s' assume s: "P s" "andthen p f s = (Inr x, s')"
  from andthen_cases [OF s(2)] show "R x s'" using leadsD(2) [OF p s(1)] leadsD(2) [OF f] by blast
qed

lemma leads_weaken:
  assumes p: "leads P p Q I" and "\<And>s. P' s \<Longrightarrow> P s" and "\<And>x s. Q x s \<Longrightarrow> Q' x s"
  shows "leads P' p Q' I"
  by (rule leadsI) (use assms(2,3) leadsD [OF p] in metis)+

lemma leads_keeps:
  assumes p: "keeps P p" and "\<And>s. P s \<Longrightarrow> I s"
  shows "leads P p (\<lambda>_. P) I"
  by (rule leadsI) (use assms(2) keepsD [OF p] in metis)+

lemma keeps_yields [kept]: "keeps I (yields x)"
  by (simp add: keeps_def yields_def)

lemma keeps_raises [kept]: "keeps I (raises e)"
  by (simp add: keeps_def raises_def)

lemma keeps_pure [kept]: "keeps I (\<lambda>s. (g s, s))"
  by (simp add: keeps_def)

lemma keeps_andthen [kept]: "keeps I p \<Longrightarrow> (\<And>x. keeps I (f x)) \<Longrightarrow> keeps I (andthen p f)"
  unfolding keeps_iff_leads by (rule leads_andthen)

lemma keeps_catches [kept]: "keeps I p \<Longrightarrow> (\<And>e. keeps I (h e)) \<Longrightarrow> keeps I (catches caught p h)"
  by (rule keepsI) (auto simp: catches_def split: prod.splits sum.splits if_splits dest: keepsD)

lemma keeps_value_of [kept]: "keeps I (value_of x)"
  by (cases x) (simp_all add: value_of_def keeps_raises keeps_yields)

lemma keeps_each [kept]: "(\<And>x. keeps I (f x)) \<Longrightarrow> keeps I (each f xs)"
  by (induction xs) (simp_all add: keeps_yields keeps_andthen)

lemma keeps_heartbeat [kept]: "keeps I p \<Longrightarrow> keeps I (lease_heartbeat ag p)"
  by (rule keepsI) (auto simp: lease_heartbeat_def split: prod.splits sum.splits agent_error.splits option.splits dest: keepsD)

lemma keeps_tries [kept]: "keeps I p \<Longrightarrow> keeps I (tries p)"
  by (simp add: tries_def kept)

lemma keeps_if [kept]: "(b \<Longrightarrow> keeps I p) \<Longrightarrow> (\<not> b \<Longrightarrow> keeps I q) \<Longrightarrow> keeps I (if b then p else q)"
  by simp

lemma keeps_option [kept]:
  "(x = None \<Longrightarrow> keeps I p) \<Longrightarrow> (\<And>y. x = Some y \<Longrightarrow> keeps I (f y)) \<Longrightarrow>
   keeps I (case x of None \<Rightarrow> p | Some y \<Rightarrow> f y)"
  by (cases x) simp_all

lemma keeps_sum [kept]:
  "(\<And>y. keeps I (f y)) \<Longrightarrow> (\<And>y. keeps I (g y)) \<Longrightarrow> keeps I (case x of Inl y \<Rightarrow> f y | Inr y \<Rightarrow> g y)"
  by (cases x) simp_all

lemma keeps_prod [kept]: "(\<And>a b. keeps I (f a b)) \<Longrightarrow> keeps I (case x of (a, b) \<Rightarrow> f a b)"
  by (cases x) simp_all

lemma keeps_approval [kept]:
  "keeps I p \<Longrightarrow> keeps I q \<Longrightarrow> keeps I r \<Longrightarrow> keeps I (case x of Pending \<Rightarrow> p | Approved \<Rightarrow> q | Rejected \<Rightarrow> r)"
  by (cases x) simp_all

section \<open>Calls of the journal\<close>

text \<open>A call acts on the journal as the operations of its machine.\<close>

definition journal_call :: "world \<Rightarrow> (tick \<Rightarrow> journal \<Rightarrow> (journal_error + 'a) \<times> journal) \<Rightarrow> bool" where
  "journal_call wd f \<longleftrightarrow> (\<forall>t j. \<exists>ops. snd (f t j) = run_ops (exec (wd_codec wd)) ops j)"

named_theorems calls_of_journal \<open>the methods of the journal as operations of its machine\<close>

lemma journal_callI: "(\<And>t j. snd (f t j) = exec (wd_codec wd) (op t) j) \<Longrightarrow> journal_call wd f"
  unfolding journal_call_def by (metis run_ops_simps)

lemma journal_call_read [calls_of_journal]: "journal_call wd (\<lambda>t j. (f t j, j))"
  unfolding journal_call_def by (metis run_ops_simps(1) snd_conv)

lemma journal_call_create_run [calls_of_journal]: "journal_call wd (\<lambda>t. create_run (wd_codec wd) rq (tk_hex t) (tk_now t))"
  by (rule journal_callI [of _ _ "\<lambda>t. CreateRun rq (tk_hex t) (tk_now t)"]) simp

lemma journal_call_mark_run [calls_of_journal]: "journal_call wd (\<lambda>t. mark_run_status (wd_codec wd) rid st (tk_now t))"
  by (rule journal_callI [of _ _ "\<lambda>t. MarkRunStatus rid st (tk_now t)"]) simp

lemma journal_call_append_event [calls_of_journal]:
  "journal_call wd (\<lambda>t. append_event (wd_codec wd) rid ty p sid (tk_now t))"
  by (rule journal_callI [of _ _ "\<lambda>t. AppendEvent rid ty p sid (tk_now t)"]) simp

lemma journal_call_create_step [calls_of_journal]:
  "journal_call wd (\<lambda>t. create_step (wd_codec wd) rid k n i sf q (tk_now t))"
  by (rule journal_callI [of _ _ "\<lambda>t. CreateStep rid k n i sf q (tk_now t)"]) simp

lemma journal_call_claim [calls_of_journal]:
  "journal_call wd (\<lambda>t. claim_ready_step (wd_codec wd) w l rid (tk_now t) (tk_now2 t))"
  by (rule journal_callI [of _ _ "\<lambda>t. ClaimReadyStep w l rid (tk_now t) (tk_now2 t)"]) simp

lemma journal_call_executing [calls_of_journal]:
  "journal_call wd (\<lambda>t. mark_executing (wd_codec wd) sid w (tk_now t) (tk_now2 t))"
  by (rule journal_callI [of _ _ "\<lambda>t. MarkExecuting sid w (tk_now t) (tk_now2 t)"]) simp

lemma journal_call_heartbeat [calls_of_journal]:
  "journal_call wd (\<lambda>t. heartbeat (wd_codec wd) sid w l (tk_now t) (tk_now2 t) (tk_now3 t))"
  by (rule journal_callI [of _ _ "\<lambda>t. Heartbeat sid w l (tk_now t) (tk_now2 t) (tk_now3 t)"]) simp

lemma journal_call_commit [calls_of_journal]:
  "journal_call wd (\<lambda>t. commit_step (wd_codec wd) sid w out r (tk_now t) (tk_now2 t))"
  by (rule journal_callI [of _ _ "\<lambda>t. CommitStep sid w out r (tk_now t) (tk_now2 t)"]) simp

lemma journal_call_fail [calls_of_journal]:
  "journal_call wd (\<lambda>t. fail_step (wd_codec wd) sid w e (tk_now t) (tk_now2 t))"
  by (rule journal_callI [of _ _ "\<lambda>t. FailStep sid w e (tk_now t) (tk_now2 t)"]) simp

lemma journal_call_cancel [calls_of_journal]:
  "journal_call wd (\<lambda>t. cancel_step (wd_codec wd) sid w (tk_now t) (tk_now2 t))"
  by (rule journal_callI [of _ _ "\<lambda>t. CancelStep sid w (tk_now t) (tk_now2 t)"]) simp

lemma journal_call_reclaim [calls_of_journal]: "journal_call wd (\<lambda>t. reclaim_expired_leases (wd_codec wd) (tk_now t))"
  by (rule journal_callI [of _ _ "\<lambda>t. ReclaimExpired (tk_now t)"]) simp

lemma journal_call_receipt [calls_of_journal]: "journal_call wd (\<lambda>t. record_receipt (wd_codec wd) sid k p (tk_now t))"
  by (rule journal_callI [of _ _ "\<lambda>t. RecordReceipt sid k p (tk_now t)"]) simp

lemma journal_call_approval [calls_of_journal]:
  "journal_call wd (\<lambda>t. request_approval (wd_codec wd) rid sid rq k (tk_hex t) (tk_now t))"
  by (rule journal_callI [of _ _ "\<lambda>t. RequestApproval rid sid rq k (tk_hex t) (tk_now t)"]) simp

lemma journal_call_start [calls_of_journal]:
  "journal_call wd (\<lambda>t. start_provider_call (wd_codec wd) rid p rq sid m (tk_hex t) (tk_now t))"
  by (rule journal_callI [of _ _ "\<lambda>t. StartCall rid p rq sid m (tk_hex t) (tk_now t)"]) simp

lemma journal_call_complete [calls_of_journal]:
  "journal_call wd (\<lambda>t. complete_provider_call (wd_codec wd) cid resp st m i out usd (tk_now t))"
  by (rule journal_callI [of _ _ "\<lambda>t. CompleteCall cid resp st m i out usd (tk_now t)"]) simp

lemma journal_call_reserve [calls_of_journal]:
  "journal_call wd (\<lambda>t. reserve_budget (wd_codec wd) rid a v (tk_hex t) (tk_now t))"
  by (rule journal_callI [of _ _ "\<lambda>t. ReserveBudget rid a v (tk_hex t) (tk_now t)"]) simp

lemma journal_call_settle [calls_of_journal]: "journal_call wd (\<lambda>t. settle_budget (wd_codec wd) rid v args (tk_now t))"
  by (rule journal_callI [of _ _ "\<lambda>t. SettleBudget rid v args (tk_now t)"]) simp

text \<open>An invariant of the journal machine that says nothing about the rest of the state.\<close>

definition stable :: "world \<Rightarrow> (agent_state \<Rightarrow> bool) \<Rightarrow> bool" where
  "stable wd I \<longleftrightarrow> (\<forall>s n ops. I s \<longrightarrow>
     I (s\<lparr>as_next := n, as_journal := run_ops (exec (wd_codec wd)) ops (as_journal s)\<rparr>))"

lemma arrive_stable: "stable wd I \<Longrightarrow> I s \<Longrightarrow> I (arrive wd s)"
  unfolding stable_def arrive_def by blast

lemma jcall_run:
  assumes "journal_call wd f"
  shows "\<exists>n ops. snd (jcall wd f s) = s\<lparr>as_next := n, as_journal := run_ops (exec (wd_codec wd)) ops (as_journal s)\<rparr>"
proof -
  let ?t = "wd_tick wd (as_next s)"
  let ?s1 = "arrive wd s"
  obtain ops where ops: "snd (f ?t (as_journal ?s1)) = run_ops (exec (wd_codec wd)) ops (as_journal ?s1)"
    using assms unfolding journal_call_def by blast
  have step: "snd (jcall wd f s) = (if tk_stop ?t then ?s1 else ?s1\<lparr>as_journal := snd (f ?t (as_journal ?s1))\<rparr>)"
    by (auto simp: jcall_def Let_def split: prod.splits sum.splits)
  have more: "run_ops g (xs @ ys) j = run_ops g ys (run_ops g xs j)" for g :: "journal_op \<Rightarrow> journal \<Rightarrow> journal" and xs ys j
    by (simp add: run_ops_def)
  show ?thesis
  proof (cases "tk_stop ?t")
    case True
    then show ?thesis unfolding step by (auto simp: arrive_def)
  next
    case False
    then have "snd (jcall wd f s) = s\<lparr>as_next := as_next s + 1,
        as_journal := run_ops (exec (wd_codec wd)) (tk_others ?t @ ops) (as_journal s)\<rparr>"
      unfolding step ops more by (simp add: arrive_def)
    then show ?thesis by blast
  qed
qed

lemma keeps_jcall: "stable wd I \<Longrightarrow> journal_call wd f \<Longrightarrow> keeps I (jcall wd f)"
  unfolding keeps_def by (metis jcall_run stable_def)

lemma keeps_jdo: "stable wd I \<Longrightarrow> journal_call wd f \<Longrightarrow> keeps I (jdo wd f)"
  unfolding jdo_def by (intro kept keeps_jcall)

lemma keeps_jread: "stable wd I \<Longrightarrow> keeps I (jread wd f)"
  unfolding jread_def by (intro keeps_jcall journal_call_read)


lemma keeps_awaits_only:
  assumes "stable wd I" and "\<And>s. I s \<Longrightarrow> I (s\<lparr>as_trace := as_trace s @ [ev]\<rparr>)"
  shows "keeps I (awaits wd ev ans)"
proof (rule keepsI)
  fix s r s' assume "I s" "awaits wd ev ans s = (r, s')"
  moreover have "as_trace (arrive wd s) = as_trace s" by (simp add: arrive_def)
  ultimately show "I s'" using assms(2) [OF arrive_stable [OF assms(1)], of s]
    by (auto simp: awaits_def Let_def split: if_splits)
qed

section \<open>The programs of the runtime\<close>

text \<open>
  \<open>allowed y i n\<close>: the tool \<open>n\<close> may be executed for the step \<open>i\<close> (as the replacement of the uncertain step \<open>y\<close>), once the
  step has been claimed; \<open>ready y i n\<close>: it has been claimed.  The approval of a step makes it allowed, and so does
  the approved decision on an uncertain step for every replacement of it.
\<close>

definition uncertain_approved :: "approval_row list \<Rightarrow> bool" where
  "uncertain_approved found \<longleftrightarrow> (let decisions = filter (\<lambda>a. approval_kind a = uncertain_kind) found in
     decisions \<noteq> [] \<and> approval_stat (last decisions) = Approved)"

locale runtime_invariant =
  fixes ag :: agent
    and rid :: str
    and I :: "agent_state \<Rightarrow> bool"
    and allowed ready :: "str option \<Rightarrow> str \<Rightarrow> str \<Rightarrow> agent_state \<Rightarrow> bool"
  assumes stable: "stable (ag_world ag) I" "stable (ag_world ag) (allowed y i n)" "stable (ag_world ag) (ready y i n)"
    and inside: "allowed y i n s \<Longrightarrow> I s" "ready y i n s \<Longrightarrow> I s"
    and approval: "ag_entry ag n = Some entry \<Longrightarrow>
      leads I (approval_outcome ag rid st entry) (\<lambda>x. if x = Approved then allowed y (sv_id st) n else I) I"
    and decision: "leads I (jread (ag_world ag) (list_approvals (Some rid) (Some i) None))
      (\<lambda>found s. if uncertain_approved found then \<forall>k n. allowed (Some i) k n s else I s) I"
    and claim: "leads (allowed y (sv_id st) n) (claim_step ag st)
      (\<lambda>x. if x = None then I else ready y (sv_id st) n) I"
    and tool: "leads (ready y i n) (awaits (ag_world ag) (ToolRun i n a y) (ans :: tick \<Rightarrow> agent_error + json)) (\<lambda>_. I) I"
    and model: "keeps I (awaits (ag_world ag) (ModelAsked i msgs defs) (ans' :: tick \<Rightarrow> agent_error + completion))"
    and reconciliation: "keeps I (awaits (ag_world ag) (ToolReconciled i n a) ans)"
    and plain_claim: "keeps I (claim_step ag st)"
begin

lemmas journal_rules = keeps_jcall [OF stable(1)] keeps_jdo [OF stable(1)] keeps_jread [OF stable(1)]

lemma keeps_reads [kept]:
  "keeps I (read_run (ag_world ag) rid)" "keeps I (read_steps (ag_world ag) rid)" "keeps I (read_step (ag_world ag) sid)"
  "keeps I (read_receipt (ag_world ag) key)"
  by (auto simp: read_run_def read_steps_def read_step_def read_receipt_def intro!: kept journal_rules)

lemma keeps_writes [kept]:
  "keeps I (make_step (ag_world ag) rid k n i sf q)" "keeps I (mark_run (ag_world ag) rid st)"
  "keeps I (note_event (ag_world ag) rid ty p x)" "keeps I (executing ag sid)" "keeps I (refresh_lease ag sid)"
  "keeps I (commit ag sid out r)" "keeps I (fail ag sid e)" "keeps I (cancel ag sid)"
  "keeps I (settle ag rid v m t u)" "keeps I (find_entry ag n)"
  by (auto simp: make_step_def mark_run_def note_event_def executing_def refresh_lease_def commit_def fail_def
      cancel_def settle_def find_entry_def intro!: kept journal_rules calls_of_journal)

lemma keeps_lineage [kept]: "keeps I (lineage (ag_world ag) all m visited cur)"
  by (induction m arbitrary: visited cur) (auto intro!: kept)

lemma keeps_recorded_output [kept]: "keeps I (recorded_tool_output (ag_world ag) rid st)"
  by (simp add: recorded_tool_output_def kept)

lemma keeps_tool_outputs [kept]: "keeps I (tool_outputs ag rid it cs)"
proof -
  have "keeps I (tool_outputs_from ag rid table i cs)" for table i
    by (induction cs arbitrary: i) (auto intro!: kept)
  then show ?thesis by (simp add: tool_outputs_def kept)
qed

lemma keeps_rebuild [kept]: "keeps I (rebuild ag rid ms msgs n)"
proof (induction ms arbitrary: msgs n)
  case (Cons m ms)
  then show ?case by (cases m) (auto intro!: kept)
qed (simp add: kept)

lemma keeps_summary [kept]:
  "keeps I (reconstruct ag rid)" "keeps I (agent_result_of ag rid)" "keeps I (outstanding_tool_calls ag rid it)"
  "keeps I (has_repeated_tool_calls ag rid)" "keeps I (stop_failed ag rid ty what sid)" "keeps I (pause_run ag rid why sid)"
  by (auto simp: reconstruct_def agent_result_of_def outstanding_tool_calls_def has_repeated_tool_calls_def
      stop_failed_def pause_run_def intro!: kept journal_rules)

lemma keeps_tool_failed [kept]: "keeps I (tool_failed ag rid sid ty about e x)"
  by (simp add: tool_failed_def kept)

text \<open>The model step.\<close>

lemma keeps_abandon [kept]: "keeps I (abandon_calls ag rid sid)"
  by (auto simp: abandon_calls_def abandon_call_def intro!: kept journal_rules calls_of_journal)

lemma keeps_complete_model [kept]: "keeps I (complete_model ag rid sid stored snapshot vid cid)"
  by (auto simp: complete_model_def intro!: kept journal_rules calls_of_journal model)

lemma keeps_try_model [kept]: "keeps I (try_model ag rid sid stored snapshot m)"
  by (auto simp: try_model_def intro!: kept journal_rules calls_of_journal)

lemma keeps_finish_model [kept]: "keeps I (finish_model ag rid sid m attempt outcome)"
  by (cases outcome) (auto simp: finish_model_def intro!: kept journal_rules calls_of_journal)

lemma keeps_execute_model [kept]: "keeps I (execute_model ag rid msgs it)"
  by (auto simp: execute_model_def perform_model_def requested_model_def Let_def intro!: kept plain_claim)

text \<open>A tool runs for a step that has been claimed while it was allowed.\<close>

lemma leads_yields: "(\<And>s. P s \<Longrightarrow> Q x s) \<Longrightarrow> leads P (yields x) Q I"
  by (auto simp: leads_def yields_def)

lemma leads_keepsI: "keeps I p \<Longrightarrow> leads I p (\<lambda>_. I) I"
  by (simp add: keeps_iff_leads)

lemma leads_tries:
  assumes "leads P p (\<lambda>_. I) I"
  shows "leads P (tries p) (\<lambda>_. I) I"
  using assms by (auto simp: leads_def tries_def catches_def andthen_def yields_def split: prod.splits sum.splits)

lemma leads_heartbeat:
  assumes "leads P p (\<lambda>_. I) I"
  shows "leads P (lease_heartbeat ag p) (\<lambda>_. I) I"
proof -
  have "I (snd (p s))" if "P s" for s
    using leadsD [OF assms that] by (cases "p s", cases "fst (p s)") auto
  moreover have "snd (lease_heartbeat ag p s) = snd (p s)" for s
    by (auto simp: lease_heartbeat_def split: prod.splits sum.splits agent_error.splits option.splits)
  ultimately show ?thesis
    unfolding leads_def by (auto split: prod.splits sum.splits) (metis snd_conv)+
qed

lemma run_tool_leads: "leads (ready y i (tc_name c)) (run_tool ag i c y) (\<lambda>_. I) I"
  unfolding run_tool_def
  by (intro leads_heartbeat leads_andthen [OF tool] leads_keepsI kept)

lemma executing_leads: "leads (ready y i n) (executing ag i) (\<lambda>_. ready y i n) I"
  unfolding executing_def
  by (rule leads_keeps [OF keeps_jdo]) (use stable inside in \<open>auto intro: calls_of_journal\<close>)

lemma claimed_leads:
  assumes none: "keeps I p" and some: "\<And>x. leads (ready y (sv_id st) n) (f x) (\<lambda>_. I) I"
  shows "leads (allowed y (sv_id st) n) (andthen (claim_step ag st) (\<lambda>c. case c of None \<Rightarrow> p | Some x \<Rightarrow> f x)) (\<lambda>_. I) I"
proof (rule leads_andthen [OF claim])
  fix c :: "step_view option"
  show "leads (if c = None then I else ready y (sv_id st) n) (case c of None \<Rightarrow> p | Some x \<Rightarrow> f x) (\<lambda>_. I) I"
    using leads_keepsI [OF none] some by (cases c) simp_all
qed

lemma perform_tool_leads: "leads (allowed y (sv_id st) (tc_name c)) (perform_tool ag rid st c sf) (\<lambda>_. I) I"
  if "y = None"
  unfolding perform_tool_def
proof (rule claimed_leads)
  show "leads (ready y (sv_id st) (tc_name c))
      (andthen (executing ag (sv_id st)) (\<lambda>_. andthen (tries (run_tool ag (sv_id st) c None)) (\<lambda>r.
        case r of Inl e \<Rightarrow> tool_failed ag rid (sv_id st) ''tool.failed'' (sv_id st) e GoFailed
        | Inr v \<Rightarrow> andthen (commit ag (sv_id st) (tool_output c v)
            (if sf = TsReconcilable then tool_receipt (sv_id st) (tool_output c v) else NoReceipt))
            (\<lambda>_. yields GoContinue)))) (\<lambda>_. I) I"
    unfolding that
    by (intro leads_andthen [OF executing_leads] leads_andthen [OF leads_tries [OF run_tool_leads]] leads_keepsI kept)
qed (simp add: kept)

lemma perform_replacement_leads:
  "leads (allowed (Some o') (sv_id st) (tc_name c)) (perform_replacement ag rid o' st c busy rc) (\<lambda>_. I) I"
  unfolding perform_replacement_def
proof (rule claimed_leads)
  show "leads (ready (Some o') (sv_id st) (tc_name c))
      (andthen (executing ag (sv_id st)) (\<lambda>_. andthen (tries (run_tool ag (sv_id st) c (Some o'))) (\<lambda>r.
        case r of Inl e \<Rightarrow> tool_failed ag rid (sv_id st) ''tool.failed'' (sv_id st) e False
        | Inr v \<Rightarrow> andthen (commit ag (sv_id st) (tool_output c v)
            (if rc then tool_receipt (sv_id st) v else NoReceipt)) (\<lambda>_. yields True)))) (\<lambda>_. I) I"
    by (intro leads_andthen [OF executing_leads] leads_andthen [OF leads_tries [OF run_tool_leads]] leads_keepsI kept)
qed (simp add: kept)

text \<open>What follows an approval.\<close>

lemma approved_leads:
  assumes entry: "ag_entry ag (tc_name c) = Some entry"
    and f: "leads (allowed y (sv_id st) (tc_name c)) p (\<lambda>_. I) I"
    and rest: "keeps I q" "keeps I q'"
  shows "leads I (andthen (approval_outcome ag rid st entry)
    (\<lambda>x. case x of Pending \<Rightarrow> q | Approved \<Rightarrow> p | Rejected \<Rightarrow> q')) (\<lambda>_. I) I"
proof (rule leads_andthen [OF approval [OF entry, of st y]])
  fix x :: approval_status
  show "leads (if x = Approved then allowed y (sv_id st) (tc_name c) else I)
      (case x of Pending \<Rightarrow> q | Approved \<Rightarrow> p | Rejected \<Rightarrow> q') (\<lambda>_. I) I"
    using f leads_keepsI [OF rest(1)] leads_keepsI [OF rest(2)] by (cases x) simp_all
qed

lemma find_entry_leads:
  assumes "\<And>entry. ag_entry ag n = Some entry \<Longrightarrow> keeps I (f entry)"
  shows "keeps I (andthen (find_entry ag n) f)"
  using assms by (cases "ag_entry ag n")
    (auto simp: keeps_def find_entry_def andthen_def raises_def yields_def)

lemma keeps_tool_group [kept]: "keeps I (execute_tool_group ag rid it i cs)"
proof (induction cs arbitrary: i)
  case (Cons c cs)
  have approved: "keeps I (andthen (approval_outcome ag rid st entry) (\<lambda>x. case x of
        Pending \<Rightarrow> andthen (pause_run ag rid ''tool approval required'' (Some (sv_id st))) (\<lambda>_. yields GoPaused)
      | Approved \<Rightarrow> andthen (perform_tool ag rid st c (snd entry))
          (\<lambda>o'. if o' = GoContinue then execute_tool_group ag rid it (i + 1) cs else yields o')
      | Rejected \<Rightarrow> andthen (cancel ag (sv_id st)) (\<lambda>_. andthen (mark_run (ag_world ag) rid RunCancelled) (\<lambda>_. yields GoCancelled))))"
    if "ag_entry ag (tc_name c) = Some entry" for st entry
    unfolding keeps_iff_leads
    by (rule approved_leads [OF that, of None])
      (auto intro!: leads_andthen [OF perform_tool_leads] leads_keepsI kept Cons.IH)
  show ?case unfolding execute_tool_group.simps
    by (rule find_entry_leads, rule keeps_andthen [OF keeps_writes(1)], rule keeps_if, rule Cons.IH, rule approved)
qed (simp add: kept)

text \<open>Uncertain steps.\<close>

lemma keeps_make_replacement [kept]: "keeps I (make_replacement ag rid original c)"
  by (simp add: make_replacement_def kept)

lemma keeps_run_reconcile [kept]: "keeps I (run_reconcile ag sid c)"
  by (simp add: run_reconcile_def kept reconciliation)

lemma keeps_reconcile_result [kept]: "keeps I (reconcile_result ag rid original c)"
  by (auto simp: reconcile_result_def intro!: kept plain_claim)

lemma keeps_replace_after_reconcile [kept]: "keeps I (replace_after_reconcile ag rid original c)"
proof -
  have approved: "keeps I (andthen (approval_outcome ag rid st entry) (\<lambda>x. case x of
        Pending \<Rightarrow> andthen (pause_run ag rid ''retry after reconciliation requires approval'' (Some (sv_id st))) (\<lambda>_. yields False)
      | Approved \<Rightarrow> perform_replacement ag rid (sv_id original) st c ''recovered tool is already leased'' True
      | Rejected \<Rightarrow> andthen (cancel ag (sv_id st)) (\<lambda>_. andthen (mark_run (ag_world ag) rid RunCancelled) (\<lambda>_. yields False))))"
    if "ag_entry ag (tc_name c) = Some entry" for st entry
    unfolding keeps_iff_leads
    by (rule approved_leads [OF that perform_replacement_leads]) (simp_all add: kept)
  show ?thesis unfolding replace_after_reconcile_def
    by (rule keeps_andthen [OF keeps_make_replacement], rule find_entry_leads, rule approved)
qed

lemma keeps_reconcile_uncertain [kept]: "keeps I (reconcile_uncertain ag rid original)"
  by (auto simp: reconcile_uncertain_def intro!: kept journal_rules calls_of_journal)

lemma keeps_request_decision [kept]: "keeps I (request_uncertainty_decision ag rid st)"
  by (auto simp: request_uncertainty_decision_def intro!: kept journal_rules calls_of_journal)

text \<open>An approved decision lasts until the replacement is claimed.\<close>

definition cleared :: "str \<Rightarrow> agent_state \<Rightarrow> bool" where
  "cleared i s \<longleftrightarrow> (\<forall>k n. allowed (Some i) k n s)"

lemma cleared_stable: "stable (ag_world ag) (cleared i)"
  using stable(2) by (simp add: stable_def cleared_def)

lemma cleared_inside: "cleared i s \<Longrightarrow> I s"
  unfolding cleared_def by (blast intro: inside(1))

lemma keeps_cleared_reads:
  "keeps (cleared i) (read_steps (ag_world ag) rid)" "keeps (cleared i) (make_replacement ag rid original c)"
  by (auto simp: read_steps_def make_replacement_def make_step_def
      intro!: kept keeps_jread [OF cleared_stable] keeps_jcall [OF cleared_stable] calls_of_journal)

lemma retry_leads: "leads (cleared (sv_id original)) (retry_approved_uncertain ag rid original) (\<lambda>_. I) I"
proof -
  note keep = leads_keeps [where P = "cleared (sv_id original)" and I = I, OF _ cleared_inside]
  have perform: "leads (cleared (sv_id original))
      (perform_replacement ag rid (sv_id original) st c busy False) (\<lambda>_. I) I" for st c busy
    by (rule leads_weaken [OF perform_replacement_leads]) (simp_all add: cleared_def)
  have step: "keeps (cleared (sv_id original))
      (case existing of Some x \<Rightarrow> yields x | None \<Rightarrow> make_replacement ag rid original c)" for existing c
    by (simp add: kept keeps_cleared_reads)
  have rest: "leads (cleared (sv_id original))
      (if b then yields True
       else andthen (value_of (call_from_step ag original)) (\<lambda>c.
         andthen (case existing of Some x \<Rightarrow> yields x | None \<Rightarrow> make_replacement ag rid original c) (\<lambda>st.
           perform_replacement ag rid (sv_id original) st c busy False))) (\<lambda>_. I) I" for b existing busy
  proof (cases b)
    case True
    then show ?thesis by (simp add: leads_yields cleared_inside)
  next
    case False
    have "leads (cleared (sv_id original)) (andthen (value_of (call_from_step ag original)) (\<lambda>c.
         andthen (case existing of Some x \<Rightarrow> yields x | None \<Rightarrow> make_replacement ag rid original c) (\<lambda>st.
           perform_replacement ag rid (sv_id original) st c busy False))) (\<lambda>_. I) I"
      by (rule leads_andthen [OF keep [OF keeps_value_of]], assumption, rule leads_andthen [OF keep [OF step]], assumption,
          rule perform)
    then show ?thesis using False by simp
  qed
  show ?thesis unfolding retry_approved_uncertain_def
    by (rule leads_andthen [OF keep [OF keeps_cleared_reads(1)]], assumption,
        rule leads_andthen [OF keep [OF keeps_value_of]], assumption, rule rest)
qed

lemma keeps_settle_uncertain [kept]: "keeps I (settle_uncertain ag rid sts)"
proof (induction sts)
  case (Cons st rest)
  have decided: "leads (if uncertain_approved found then cleared (sv_id st) else I)
      (let decisions = filter (\<lambda>a. approval_kind a = uncertain_kind) found in
        if decisions \<noteq> [] \<and> approval_stat (last decisions) = Approved then
          andthen (retry_approved_uncertain ag rid st) (\<lambda>ok. if ok then settle_uncertain ag rid rest else yields True)
        else andthen (if decisions = [] then request_uncertainty_decision ag rid st else yields ()) (\<lambda>_.
          andthen (pause_run ag rid ''opaque tool outcome is uncertain'' (Some (sv_id st))) (\<lambda>_. yields True)))
      (\<lambda>_. I) I" for found
  proof (cases "uncertain_approved found")
    case True
    have after: "leads I (if ok then settle_uncertain ag rid rest else yields True) (\<lambda>_. I) I" for ok
      using Cons.IH by (intro leads_keepsI) (simp add: kept)
    show ?thesis using leads_andthen [OF retry_leads after] True
      by (simp add: uncertain_approved_def Let_def)
  next
    case False
    have "keeps I (andthen (if decisions = [] then request_uncertainty_decision ag rid st else yields ()) (\<lambda>_.
          andthen (pause_run ag rid ''opaque tool outcome is uncertain'' (Some (sv_id st))) (\<lambda>_. yields True)))"
      for decisions :: "approval_row list"
      by (intro kept)
    from leads_keepsI [OF this, of "filter (\<lambda>a. approval_kind a = uncertain_kind) found"] show ?thesis
      using False by (simp only: uncertain_approved_def Let_def if_False)
  qed
  have choice: "keeps I (andthen (jread (ag_world ag) (list_approvals (Some rid) (Some (sv_id st)) None)) (\<lambda>found.
      let decisions = filter (\<lambda>a. approval_kind a = uncertain_kind) found in
        if decisions \<noteq> [] \<and> approval_stat (last decisions) = Approved then
          andthen (retry_approved_uncertain ag rid st) (\<lambda>ok. if ok then settle_uncertain ag rid rest else yields True)
        else andthen (if decisions = [] then request_uncertainty_decision ag rid st else yields ()) (\<lambda>_.
          andthen (pause_run ag rid ''opaque tool outcome is uncertain'' (Some (sv_id st))) (\<lambda>_. yields True))))"
    unfolding keeps_iff_leads
  proof (rule leads_andthen)
    show "leads I (jread (ag_world ag) (list_approvals (Some rid) (Some (sv_id st)) None))
        (\<lambda>found. if uncertain_approved found then cleared (sv_id st) else I) I"
      by (rule leads_weaken [OF decision]) (auto simp: cleared_def split: if_splits)
  qed (rule decided)
  show ?case unfolding settle_uncertain.simps
    by (rule keeps_if, intro kept Cons.IH, rule choice)
qed (simp add: kept)

lemma keeps_check_approvals [kept]: "keeps I (check_approvals ag rid found)"
proof (induction found)
  case (Cons a rest)
  then show ?case by (cases "approval_stat a") (auto simp: reject_run_def intro!: kept)
qed (simp add: kept)

lemma keeps_handle [kept]: "keeps I (handle_approvals_and_uncertainty ag rid)"
  by (auto simp: handle_approvals_and_uncertainty_def intro!: kept journal_rules)

lemma keeps_loop [kept]: "keeps I (agent_loop ag rid n)"
proof (induction n)
  case (Suc n)
  show ?case unfolding agent_loop.simps by (intro kept Suc.IH)
qed (simp add: kept)

lemma execute_keeps: "keeps I (agent_execute ag fuel rid)"
  by (auto simp: agent_execute_def intro!: kept journal_rules calls_of_journal)

end

end
