(* ===== verification/AgentProperties.thy ===== *)
theory AgentProperties
  imports AgentSafety JournalProperties
begin

text \<open>
  The safety of the runtime: it acts on the journal only through its methods, whatever happens in between; a tool is
  executed for a step only after a claim of that step, so at most once where a repetition could do harm; and no
  tool runs without the approval it needs.
\<close>

section \<open>Invariants that need no claim\<close>

lemma stable_claim:
  assumes "stable (ag_world ag) I"
  shows "keeps I (claim_step ag st)"
  by (auto simp: claim_step_def read_step_def intro!: kept keeps_jread keeps_jcall assms calls_of_journal)

lemma stable_approval:
  assumes "stable (ag_world ag) I"
  shows "keeps I (approval_outcome ag rid st entry)"
  by (auto simp: approval_outcome_def read_run_def intro!: kept keeps_jread keeps_jdo assms calls_of_journal)

lemma plain_runtime:
  assumes stable: "stable (ag_world ag) I" and trace: "\<And>s ev. I s \<Longrightarrow> I (s\<lparr>as_trace := as_trace s @ [ev]\<rparr>)"
  shows "runtime_invariant ag rid I (\<lambda>_ _ _. I) (\<lambda>_ _ _. I)"
proof
  show "leads I (approval_outcome ag rid st entry) (\<lambda>x. if x = Approved then I else I) I" for st entry
    using stable_approval [OF stable] by (simp add: keeps_iff_leads)
  show "leads I (jread (ag_world ag) (list_approvals (Some rid) (Some i) None))
      (\<lambda>found s. if uncertain_approved found then \<forall>(k :: str) (n :: str). I s else I s) I" for i
    using keeps_jread [OF stable] by (simp add: keeps_iff_leads)
  show "leads I (claim_step ag st) (\<lambda>x. if x = None then I else I) I" for st
    using stable_claim [OF stable] by (simp add: keeps_iff_leads)
  show "leads I (awaits (ag_world ag) (ToolRun i n a y) (ans :: tick \<Rightarrow> agent_error + json)) (\<lambda>_. I) I" for i n a y ans
    using keeps_awaits_only [OF stable trace] by (simp add: keeps_iff_leads)
qed (use stable trace stable_claim in \<open>auto intro: keeps_awaits_only\<close>)

section \<open>The runtime acts through the journal\<close>

definition reachable_from :: "codec \<Rightarrow> journal \<Rightarrow> agent_state \<Rightarrow> bool" where
  "reachable_from cd j s \<longleftrightarrow> (\<exists>ops. as_journal s = run_ops (exec cd) ops j)"

lemma run_ops_more: "run_ops g ys (run_ops g xs j) = run_ops g (xs @ ys) j"
  by (simp add: run_ops_def)

lemma reachable_stable: "stable wd (reachable_from (wd_codec wd) j)"
  by (auto simp: stable_def reachable_from_def run_ops_more)

interpretation acts: runtime_invariant ag rid "reachable_from (ag_codec ag) j"
  "\<lambda>_ _ _. reachable_from (ag_codec ag) j" "\<lambda>_ _ _. reachable_from (ag_codec ag) j" for ag rid j
  by (rule plain_runtime [OF reachable_stable]) (simp add: reachable_from_def)

lemma execution_reaches: "reachable_from (ag_codec ag) (as_journal s) (snd (agent_execute ag fuel rid s))"
proof -
  have "reachable_from (ag_codec ag) (as_journal s) s"
    unfolding reachable_from_def by (rule exI [of _ "[]"]) simp
  with acts.execute_keeps show ?thesis unfolding keeps_def by blast
qed

text \<open>
  Programs reach the journal through \<open>jcall\<close> alone, so that every invariant of the journal's methods is one of the runtime.
\<close>

lemma execution_keeps_invariant:
  assumes "as_journal s = after (ag_codec ag) before"
  shows "journal_ok (as_journal (snd (agent_execute ag fuel rid s)))"
proof -
  obtain ops where "as_journal (snd (agent_execute ag fuel rid s)) = after (ag_codec ag) (before @ ops)"
    using execution_reaches [of ag s fuel rid] assms by (auto simp: reachable_from_def after_append)
  then show ?thesis by (simp add: after_ok)
qed

section \<open>A tool runs once per attempt\<close>

definition attempts_of :: "journal \<Rightarrow> str \<Rightarrow> int" where
  "attempts_of j i = (case find_step i (database j) of None \<Rightarrow> 0 | Some r \<Rightarrow> attempts r)"

fun runs_for :: "str \<Rightarrow> agent_event \<Rightarrow> bool" where
  "runs_for i (ToolRun k n a y) \<longleftrightarrow> i = k"
| "runs_for i _ \<longleftrightarrow> False"

definition tool_runs :: "str \<Rightarrow> agent_event list \<Rightarrow> int" where
  "tool_runs i tr = int (length (filter (runs_for i) tr))"

lemma tool_runs_simps [simp]:
  "tool_runs i [] = 0" "tool_runs i (tr @ [ev]) = tool_runs i tr + (if runs_for i ev then 1 else 0)"
  by (simp_all add: tool_runs_def)

lemma row_step_attempts: "row_step a r r' \<Longrightarrow> attempts r \<le> attempts r'"
  by (erule row_step.cases) (auto simp: reclaimed_def)

lemma attempts_grow: "journal_ok j \<Longrightarrow> attempts_of j i \<le> attempts_of (exec cd a j) i"
proof (cases rule: exec_cases [where cd = cd and a = a], assumption)
  assume step: "db_step cd a (database j) (database (exec cd a j))" "db_ok (database j)"
  show "attempts_of j i \<le> attempts_of (exec cd a j) i"
  proof (cases "find_step i (database j)")
    case None
    have "0 \<le> attempts r" if "find_step i (database (exec cd a j)) = Some r" for r
      using db_step_new_step [OF step None that] by (simp add: fresh_step_def)
    then show ?thesis by (simp add: attempts_of_def None split: option.splits)
  next
    case (Some r)
    then show ?thesis using db_step_find_step [OF step Some] row_step_attempts by (auto simp: attempts_of_def)
  qed
qed (simp add: attempts_of_def)

lemma attempts_nonneg:
  assumes "journal_ok j"
  shows "0 \<le> attempts_of j i"
proof (cases "find_step i (database j)")
  case (Some r)
  have "db_ok (database j)" using assms by (simp add: journal_ok_def)
  from find_step_row_ok [OF this Some] have "0 \<le> attempts r" unfolding step_row_ok_def by blast
  then show ?thesis by (simp add: attempts_of_def Some)
qed (simp add: attempts_of_def)

lemma attempts_grow_run: "journal_ok j \<Longrightarrow> attempts_of j i \<le> attempts_of (run_ops (exec cd) ops j) i"
proof (induction ops arbitrary: j)
  case (Cons a ops)
  have "journal_ok (exec cd a j)" using Cons.prems by (rule journal_machine.exec_ok)
  from Cons.IH [OF this] have "attempts_of (exec cd a j) i \<le> attempts_of (run_ops (exec cd) (a # ops) j) i" by simp
  with attempts_grow [OF Cons.prems, of i cd a] show ?case by (rule order_trans)
qed simp

text \<open>A claim adds an attempt to the step it returns.\<close>

lemma claim_adds_attempt:
  assumes ok: "journal_ok j" and claim: "claim_ready_step cd w l rid now now2 j = (Inr (Some r), j')"
  shows "attempts_of j' (step_id r) = attempts_of j (step_id r) + 1"
proof -
  obtain r0 where r0: "r0 \<in> set (steps (database j))" "attempts r = attempts r0 + 1" "step_id r = step_id r0"
      "find_step (step_id r0) (database j') = Some r"
    using claim_takes_least_ready [OF claim ok] by auto
  have "keyed step_id (steps (database j))" using ok by (simp add: journal_ok_def db_okD)
  from by_key_in [OF this r0(1)] show ?thesis using r0 by (simp add: attempts_of_def)
qed

text \<open>
  \<open>paid k s\<close>: for every step, the executions recorded and \<open>k\<close> together are at most its attempts; \<open>credit k i s\<close>: and one
  attempt of step \<open>i\<close> is left over.
\<close>

definition paid :: "(str \<Rightarrow> int) \<Rightarrow> agent_state \<Rightarrow> bool" where
  "paid k s \<longleftrightarrow> journal_ok (as_journal s) \<and> (\<forall>i. tool_runs i (as_trace s) + k i \<le> attempts_of (as_journal s) i)"

definition credit :: "(str \<Rightarrow> int) \<Rightarrow> str \<Rightarrow> agent_state \<Rightarrow> bool" where
  "credit k i s \<longleftrightarrow> paid k s \<and> tool_runs i (as_trace s) + k i < attempts_of (as_journal s) i"

lemma paid_stable: "stable wd (paid k)"
  unfolding stable_def paid_def
proof (intro allI impI)
  fix s :: agent_state and n ops
  assume s: "journal_ok (as_journal s) \<and> (\<forall>i. tool_runs i (as_trace s) + k i \<le> attempts_of (as_journal s) i)"
  let ?j = "run_ops (exec (wd_codec wd)) ops (as_journal s)"
  have "journal_ok ?j" using s journal_machine.run_ok by blast
  moreover have "tool_runs i (as_trace s) + k i \<le> attempts_of ?j i" for i
    using s attempts_grow_run [of "as_journal s" i "wd_codec wd" ops] by (meson order_trans)
  ultimately show "journal_ok (as_journal (s\<lparr>as_next := n, as_journal := ?j\<rparr>)) \<and>
      (\<forall>i. tool_runs i (as_trace (s\<lparr>as_next := n, as_journal := ?j\<rparr>)) + k i \<le>
        attempts_of (as_journal (s\<lparr>as_next := n, as_journal := ?j\<rparr>)) i)" by simp
qed

lemma credit_stable: "stable wd (credit k i)"
  unfolding stable_def credit_def
proof (intro allI impI conjI)
  fix s :: agent_state and n ops
  assume s: "paid k s \<and> tool_runs i (as_trace s) + k i < attempts_of (as_journal s) i"
  let ?s = "s\<lparr>as_next := n, as_journal := run_ops (exec (wd_codec wd)) ops (as_journal s)\<rparr>"
  show "paid k ?s" using s paid_stable unfolding stable_def by blast
  show "tool_runs i (as_trace ?s) + k i < attempts_of (as_journal ?s) i"
    using s attempts_grow_run [of "as_journal s" i "wd_codec wd" ops] by (simp add: paid_def)
qed

lemma paid_claim: "leads (paid k) (claim_step ag st) (\<lambda>x. if x = None then paid k else credit k (sv_id st)) (paid k)"
proof -
  let ?call = "jcall (ag_world ag) (\<lambda>t. claim_ready_step (ag_codec ag) (rc_worker (ag_config ag))
                (rc_lease (ag_config ag)) (Some (sv_run st)) (tk_now t) (tk_now2 t))"
  have call: "leads (paid k) ?call (\<lambda>row. case row of None \<Rightarrow> paid k | Some r \<Rightarrow> credit k (step_id r)) (paid k)"
  proof (rule leadsI)
    fix s e s' assume "paid k s" "?call s = (Inl e, s')"
    then show "paid k s'" by (rule keepsD [OF keeps_jcall [OF paid_stable journal_call_claim]])
  next
    fix s row s' assume s: "paid k s" "?call s = (Inr row, s')"
    have s': "paid k s'" using s by (rule keepsD [OF keeps_jcall [OF paid_stable journal_call_claim]])
    show "(case row of None \<Rightarrow> paid k | Some r \<Rightarrow> credit k (step_id r)) s'"
    proof (cases row)
      case (Some r)
      let ?s1 = "arrive (ag_world ag) s" and ?t = "wd_tick (ag_world ag) (as_next s)"
      have s1: "paid k ?s1" using arrive_stable [OF paid_stable s(1)] .
      have claim: "claim_ready_step (ag_codec ag) (rc_worker (ag_config ag)) (rc_lease (ag_config ag)) (Some (sv_run st))
          (tk_now ?t) (tk_now2 ?t) (as_journal ?s1) = (Inr (Some r), as_journal s')" "as_trace s' = as_trace ?s1"
        using s(2) Some by (auto simp: jcall_def Let_def split: prod.splits sum.splits if_splits)
      from claim_adds_attempt [OF _ claim(1)] s1 have
        "attempts_of (as_journal s') (step_id r) = attempts_of (as_journal ?s1) (step_id r) + 1" by (simp add: paid_def)
      moreover have "tool_runs (step_id r) (as_trace ?s1) + k (step_id r) \<le> attempts_of (as_journal ?s1) (step_id r)"
        using s1 by (simp add: paid_def)
      ultimately show ?thesis using s' claim(2) Some by (simp add: credit_def)
    qed (use s' in simp)
  qed
  have view: "step_from_row wd r = Inr v \<Longrightarrow> sv_id v = step_id r" for wd r v
    by (auto simp: step_from_row_def sum_then_def split: sum.splits)
  have rest: "leads (case row of None \<Rightarrow> paid k | Some r \<Rightarrow> credit k (step_id r))
      (case row of None \<Rightarrow> yields None
       | Some r \<Rightarrow> andthen (value_of (step_from_row (ag_world ag) r)) (\<lambda>claimed.
           if sv_id claimed \<noteq> sv_id st then raises AeOtherClaim else yields (Some claimed)))
      (\<lambda>x. if x = None then paid k else credit k (sv_id st)) (paid k)" for row
  proof (cases row)
    case None
    then show ?thesis by (simp add: leads_def yields_def)
  next
    case (Some r)
    show ?thesis
      using view [of "ag_world ag" r]
      by (cases "step_from_row (ag_world ag) r")
        (auto simp: Some leads_def andthen_def value_of_def yields_def raises_def credit_def)
  qed
  show ?thesis unfolding claim_step_def
    by (rule leads_andthen [OF leads_keeps [where P = "paid k" and I = "paid k"]])
      (auto simp: read_step_def leads_def [where p = "yields None"] yields_def
        intro!: kept keeps_jread paid_stable leads_andthen [OF call rest])
qed

lemma paid_tool:
  "leads (credit k i) (awaits wd (ToolRun i n a y) ans) (\<lambda>_. paid k) (paid k)"
proof -
  have "paid k (snd (awaits wd (ToolRun i n a y) ans s))" if "credit k i s" for s
  proof -
    have s1: "credit k i (arrive wd s)" using arrive_stable [OF credit_stable that] .
    have "as_trace (arrive wd s) = as_trace s" by (simp add: arrive_def)
    then have "paid k ((arrive wd s)\<lparr>as_trace := as_trace s @ [ToolRun i n a y]\<rparr>)"
      using s1 by (auto simp: credit_def paid_def)
    then show ?thesis by (simp add: awaits_def Let_def)
  qed
  then show ?thesis by (auto simp: leads_def split: prod.splits sum.splits) (metis snd_conv)+
qed

interpretation attempts_paid: runtime_invariant ag rid "paid k" "\<lambda>_ _ _. paid k" "\<lambda>y i n. credit k i" for ag rid k
proof
  show "leads (paid k) (approval_outcome ag rid st entry) (\<lambda>x. if x = Approved then paid k else paid k) (paid k)" for st entry
    using stable_approval [OF paid_stable] by (simp add: keeps_iff_leads)
  show "leads (paid k) (jread (ag_world ag) (list_approvals (Some rid) (Some i) None))
      (\<lambda>found s. if uncertain_approved found then \<forall>(l :: str) (n :: str). paid k s else paid k s) (paid k)" for i
    using keeps_jread [OF paid_stable] by (simp add: keeps_iff_leads)
  show "keeps (paid k) (awaits (ag_world ag) (ModelAsked i msgs defs) (ans' :: tick \<Rightarrow> agent_error + completion))"
    "keeps (paid k) (awaits (ag_world ag) (ToolReconciled i n a) (ans :: tick \<Rightarrow> agent_error + json))" for i n a msgs defs ans ans'
    by (rule keeps_awaits_only [OF paid_stable], simp add: paid_def)+
qed (use paid_stable credit_stable paid_claim paid_tool stable_claim [OF paid_stable] in \<open>auto simp: credit_def\<close>)


text \<open>Executions of runs one after the other, by any number of runtimes over the same journal.\<close>

definition sessions :: "(agent \<times> nat \<times> str) list \<Rightarrow> agent_state \<Rightarrow> agent_state" where
  "sessions xs s = fold (\<lambda>(ag, fuel, rid) t. snd (agent_execute ag fuel rid t)) xs s"

lemma sessions_simps [simp]:
  "sessions [] s = s" "sessions ((ag, fuel, rid) # xs) s = sessions xs (snd (agent_execute ag fuel rid s))"
  by (simp_all add: sessions_def)

lemma sessions_keep:
  assumes "\<And>ag fuel rid. (ag, fuel, rid) \<in> set xs \<Longrightarrow> keeps I (agent_execute ag fuel rid)" and "I s"
  shows "I (sessions xs s)"
  using assms
proof (induction xs arbitrary: s)
  case (Cons x xs)
  obtain ag fuel rid where x: "x = (ag, fuel, rid)" by (cases x)
  have "I (snd (agent_execute ag fuel rid s))" using Cons.prems(1) [of ag fuel rid] Cons.prems(2) by (simp add: x keeps_def)
  then show ?case using Cons.IH Cons.prems(1) by (simp add: x)
qed simp

text \<open>
  C6: at most one side effect.  However often runs are executed over a journal, whatever is answered, whatever others do
  in between and wherever the processes die: a tool has run for a step at most as often as the step has been claimed
  meanwhile, and at most once for a step whose side effect cannot be repeated safely.
\<close>

theorem tool_runs_at_most_once:
  assumes start: "as_journal s = after cd before" "as_trace s = []"
    and same: "\<And>ag fuel rid. (ag, fuel, rid) \<in> set xs \<Longrightarrow> ag_codec ag = cd"
  defines "t \<equiv> sessions xs s"
  shows "tool_runs i (as_trace t) \<le> attempts_of (as_journal t) i - attempts_of (as_journal s) i \<and>
    (\<forall>r \<in> set (steps (database (as_journal t))). step_safety r \<in> {Reconcilable, OpaqueSideEffect} \<longrightarrow>
       tool_runs (step_id r) (as_trace t) \<le> 1)"
proof -
  let ?k = "attempts_of (as_journal s)"
  have "paid ?k s" using start after_ok [of cd before] by (simp add: paid_def)
  then have paid: "paid ?k t" unfolding t_def by (rule sessions_keep [rotated]) (rule attempts_paid.execute_keeps)
  have "reachable_from cd (as_journal s) s" unfolding reachable_from_def by (rule exI [of _ "[]"]) simp
  then have "reachable_from cd (as_journal s) t" unfolding t_def
    by (rule sessions_keep [rotated]) (use acts.execute_keeps same in blast)
  then obtain ops where ops: "as_journal t = run_ops (exec cd) (before @ ops) new_journal"
    using start(1) by (auto simp: reachable_from_def after_def run_ops_more)
  have single: "\<forall>r \<in> set (steps (database (as_journal t))). single_attempt r"
    using attempt_machine.run_ok [of new_journal cd "before @ ops"] new_journal_ok
    by (simp add: ops new_journal_def empty_db_def)
  have "tool_runs (step_id r) (as_trace t) \<le> 1"
    if r: "r \<in> set (steps (database (as_journal t)))" "step_safety r \<in> {Reconcilable, OpaqueSideEffect}" for r
  proof -
    have ok: "journal_ok (as_journal t)" "journal_ok (as_journal s)" using paid \<open>paid ?k s\<close> by (simp_all add: paid_def)
    then have "keyed step_id (steps (database (as_journal t)))" by (simp add: journal_ok_def db_okD)
    from by_key_in [OF this r(1)] have "find_step (step_id r) (database (as_journal t)) = Some r" .
    then have "attempts_of (as_journal t) (step_id r) \<le> 1"
      using single [THEN bspec, OF r(1)] r(2) by (auto simp: attempts_of_def single_attempt_def repeatable_def)
    moreover have "0 \<le> ?k (step_id r)" by (rule attempts_nonneg [OF ok(2)])
    moreover have "tool_runs (step_id r) (as_trace t) + ?k (step_id r) \<le> attempts_of (as_journal t) (step_id r)"
      using paid by (simp add: paid_def)
    ultimately show ?thesis by linarith
  qed
  moreover have "tool_runs i (as_trace t) + ?k i \<le> attempts_of (as_journal t) i" using paid by (simp add: paid_def)
  ultimately show ?thesis by auto
qed


section \<open>No tool runs without its approval\<close>

text \<open>The configuration of a run never changes.\<close>

interpretation run_settings: freezing "exec cd" journal_ok
  "\<lambda>j i. map_option run_config (find_run i (database j))" "\<lambda>_. True" for cd
proof unfold_locales
  fix j i r a
  assume "journal_ok j" "map_option run_config (find_run i (database j)) = Some r"
  then show "map_option run_config (find_run i (database (exec cd a j))) = Some r"
    by (cases rule: exec_cases [where cd = cd and a = a]) (auto dest!: db_step_find_run simp: run_follows_def)
qed

text \<open>The names that the stored configuration of a run approves in advance.\<close>

definition preapproved :: "world \<Rightarrow> str \<Rightarrow> str \<Rightarrow> journal \<Rightarrow> bool" where
  "preapproved wd rid n j \<longleftrightarrow>
     (case find_run rid (database j) of
        None \<Rightarrow> False
      | Some r \<Rightarrow> (case decoded wd (Some (run_config r)) of
          Inl e \<Rightarrow> False
        | Inr c \<Rightarrow> has_member (case c of JObj kvs \<Rightarrow> jget_or kvs ''preapproved_tool_names'' (JArr []) | _ \<Rightarrow> JArr []) n
                    = Inr True))"

definition needs_approval :: "agent \<Rightarrow> str \<Rightarrow> str \<Rightarrow> journal \<Rightarrow> bool" where
  "needs_approval ag rid n j \<longleftrightarrow>
     (case ag_entry ag n of
        None \<Rightarrow> False
      | Some (name, sf) \<Rightarrow> requires_approval (rc_policy (ag_config ag)) name sf \<and> \<not> preapproved (ag_world ag) rid name j)"

text \<open>An approved request for the step itself, or an approved decision on the uncertain step that it replaces.\<close>

definition approved_for :: "str option \<Rightarrow> str \<Rightarrow> approval_row \<Rightarrow> bool" where
  "approved_for y i a \<longleftrightarrow> approval_stat a = Approved \<and>
     (approval_step a = Some i \<or> (y \<noteq> None \<and> approval_step a = y \<and> approval_kind a = uncertain_kind))"

definition permitted :: "agent \<Rightarrow> str \<Rightarrow> str option \<Rightarrow> str \<Rightarrow> str \<Rightarrow> journal \<Rightarrow> bool" where
  "permitted ag rid y i n j \<longleftrightarrow>
     (needs_approval ag rid n j \<longrightarrow> (\<exists>a \<in> set (approvals (database j)). approved_for y i a))"

lemma preapproved_kept:
  assumes "journal_ok j" "preapproved wd rid n j"
  shows "preapproved wd rid n (run_ops (exec cd) ops j)"
proof -
  obtain r where r: "find_run rid (database j) = Some r" using assms(2) by (auto simp: preapproved_def split: option.splits)
  have "map_option run_config (find_run rid (database (run_ops (exec cd) ops j))) = Some (run_config r)"
    by (rule run_settings.run_frozen [OF assms(1)]) (simp_all add: r)
  then show ?thesis using assms(2) r by (auto simp: preapproved_def split: option.splits)
qed

lemma needs_approval_kept:
  "journal_ok j \<Longrightarrow> needs_approval ag rid n (run_ops (exec cd) ops j) \<Longrightarrow> needs_approval ag rid n j"
  using preapproved_kept [of j "ag_world ag" rid _ cd ops] by (auto simp: needs_approval_def split: option.splits)

lemma approval_kept:
  assumes "journal_ok j" "a \<in> set (approvals (database j))" "approval_stat a = Approved"
  shows "a \<in> set (approvals (database (run_ops (exec cd) ops j)))"
proof -
  have "keyed approval_id (approvals (database j))" using assms(1) by (simp add: journal_ok_def db_ok_def keys_ok_def)
  from by_key_in [OF this assms(2)] have "find_approval (approval_id a) (database (run_ops (exec cd) ops j)) = Some a"
    by (rule decided_approvals.run_frozen [OF assms(1)]) (simp add: assms(3))
  then show ?thesis by (rule by_key_SomeD [THEN conjunct1])
qed

lemma permitted_kept:
  assumes ok: "journal_ok j" and p: "permitted ag rid y i n j"
  shows "permitted ag rid y i n (run_ops (exec cd) ops j)"
  using p needs_approval_kept [OF ok, of ag rid n cd ops] approval_kept [OF ok, of _ cd ops]
  unfolding permitted_def approved_for_def by blast

definition tools_permitted :: "agent \<Rightarrow> str \<Rightarrow> agent_event list \<Rightarrow> agent_state \<Rightarrow> bool" where
  "tools_permitted ag rid tr s \<longleftrightarrow> journal_ok (as_journal s) \<and>
     (\<exists>new. as_trace s = tr @ new \<and>
       (\<forall>i n a y. ToolRun i n a y \<in> set new \<longrightarrow> permitted ag rid y i n (as_journal s)))"

definition tool_permitted :: "agent \<Rightarrow> str \<Rightarrow> agent_event list \<Rightarrow> str option \<Rightarrow> str \<Rightarrow> str \<Rightarrow> agent_state \<Rightarrow> bool" where
  "tool_permitted ag rid tr y i n s \<longleftrightarrow> tools_permitted ag rid tr s \<and> permitted ag rid y i n (as_journal s)"

lemma tools_permitted_stable: "stable wd (tools_permitted ag rid tr)"
proof -
  have "tools_permitted ag rid tr (s\<lparr>as_next := m, as_journal := run_ops (exec (wd_codec wd)) ops (as_journal s)\<rparr>)"
    if "tools_permitted ag rid tr s" for s m ops
  proof -
    from that obtain new where ok: "journal_ok (as_journal s)" and new: "as_trace s = tr @ new"
      "\<And>i n a y. ToolRun i n a y \<in> set new \<Longrightarrow> permitted ag rid y i n (as_journal s)"
      by (auto simp: tools_permitted_def)
    have "permitted ag rid y i n (run_ops (exec (wd_codec wd)) ops (as_journal s))" if "ToolRun i n a y \<in> set new" for i n a y
      using permitted_kept [OF ok new(2) [OF that]] .
    with journal_machine.run_ok [OF ok] new(1) show ?thesis by (auto simp: tools_permitted_def)
  qed
  then show ?thesis by (simp add: stable_def)
qed

lemma tool_permitted_stable: "stable wd (tool_permitted ag rid tr y i n)"
  using tools_permitted_stable [of wd ag rid tr] permitted_kept [of _ ag rid y i n]
  by (simp add: stable_def tool_permitted_def tools_permitted_def)


text \<open>What \<open>approval_outcome\<close> has seen when it answers.\<close>

lemma read_run_sees:
  assumes "stable (ag_world ag) I"
  shows "leads I (read_run (ag_world ag) rid)
    (\<lambda>run s. I s \<and> (\<exists>r. find_run rid (database (as_journal s)) = Some r \<and> run_from_row (ag_world ag) r = Inr run)) I"
proof (rule leadsI)
  have keep: "keeps I (read_run (ag_world ag) rid)" unfolding read_run_def by (intro kept keeps_jread assms)
  show "I s'" if "I s" "read_run (ag_world ag) rid s = (Inl e, s')" for s e s' using keepsD [OF keep that] .
  fix s run s' assume s: "I s" "read_run (ag_world ag) rid s = (Inr run, s')"
  have "\<exists>r. find_run rid (database (as_journal s')) = Some r \<and> run_from_row (ag_world ag) r = Inr run"
    using s(2) by (auto simp: read_run_def andthen_def jread_def jcall_def Let_def get_run_def value_of_def yields_def raises_def
        split: prod.splits sum.splits if_splits option.splits)
  then show "I s' \<and> (\<exists>r. find_run rid (database (as_journal s')) = Some r \<and> run_from_row (ag_world ag) r = Inr run)"
    using keepsD [OF keep s] by blast
qed

lemma jread_sees:
  assumes "stable wd I"
  shows "leads I (jread wd f) (\<lambda>x s. I s \<and> f (as_journal s) = Inr x) I"
proof (rule leadsI)
  fix s e s' assume "I s" "jread wd f s = (Inl e, s')"
  then show "I s'" by (rule keepsD [OF keeps_jread [OF assms]])
next
  fix s x s' assume s: "I s" "jread wd f s = (Inr x, s')"
  have "I s'" using s by (rule keepsD [OF keeps_jread [OF assms]])
  moreover have "f (as_journal s') = Inr x"
    using s(2) by (auto simp: jread_def jcall_def Let_def split: sum.splits if_splits)
  ultimately show "I s' \<and> f (as_journal s') = Inr x" ..
qed

lemma approved_row:
  assumes "list_approvals (Some rid) (Some i) None j = Inr found" "a \<in> set found"
  shows "a \<in> set (approvals (database j)) \<and> approval_step a = Some i"
  using assms by (auto simp: list_approvals_def order_by_def split: if_splits)

lemma outcome_permits:
  assumes entry: "ag_entry ag n = Some entry"
  shows "leads (tools_permitted ag rid tr) (approval_outcome ag rid st entry)
    (\<lambda>x. if x = Approved then tool_permitted ag rid tr y (sv_id st) n else tools_permitted ag rid tr) (tools_permitted ag rid tr)"
proof -
  let ?I = "tools_permitted ag rid tr"
  let ?names = "\<lambda>run. case rv_config run of JObj kvs \<Rightarrow> jget_or kvs ''preapproved_tool_names'' (JArr []) | _ \<Rightarrow> JArr []"
  have durable: "preapproved (ag_world ag) rid (fst entry) j"
    if "find_run rid (database j) = Some r" "run_from_row (ag_world ag) r = Inr run" "has_member (?names run) (fst entry) = Inr True"
    for r run j
    using that by (auto simp: preapproved_def run_from_row_def sum_then_def split: sum.splits)
  have names: "leads (\<lambda>s. ?I s \<and> (\<exists>r. find_run rid (database (as_journal s)) = Some r \<and> run_from_row (ag_world ag) r = Inr run))
      (value_of (has_member (?names run) (fst entry)))
      (\<lambda>b s. ?I s \<and> (b \<longrightarrow> preapproved (ag_world ag) rid (fst entry) (as_journal s))) ?I" for run
    using durable by (cases "has_member (?names run) (fst entry)")
      (auto simp: leads_def value_of_def yields_def raises_def)
  have rest: "leads (\<lambda>s. ?I s \<and> (b \<longrightarrow> preapproved (ag_world ag) rid (fst entry) (as_journal s)))
      (if b \<or> \<not> requires_approval (rc_policy (ag_config ag)) (fst entry) (snd entry) then yields Approved
       else andthen (jread (ag_world ag) (list_approvals (Some rid) (Some (sv_id st)) None)) (\<lambda>found.
         if found = [] then
           andthen (jdo (ag_world ag) (\<lambda>t. request_approval (ag_codec ag) rid (Some (sv_id st))
               (JObj [(''tool'', JStr (fst entry)), (''safety'', JStr (safety_name (snd entry))), (''input'', sv_input st)])
               ''tool_execution'' (tk_hex t) (tk_now t))) (\<lambda>_. yields Pending)
         else yields (approval_stat (last found))))
      (\<lambda>x. if x = Approved then tool_permitted ag rid tr y (sv_id st) n else ?I) ?I" for b
  proof (cases "b \<or> \<not> requires_approval (rc_policy (ag_config ag)) (fst entry) (snd entry)")
    case True
    then show ?thesis
      by (auto simp: leads_def yields_def tool_permitted_def permitted_def needs_approval_def entry split: prod.splits)
  next
    case False
    have ask: "leads (\<lambda>s. ?I s \<and> list_approvals (Some rid) (Some (sv_id st)) None (as_journal s) = Inr found)
        (if found = [] then
           andthen (jdo (ag_world ag) (\<lambda>t. request_approval (ag_codec ag) rid (Some (sv_id st))
               (JObj [(''tool'', JStr (fst entry)), (''safety'', JStr (safety_name (snd entry))), (''input'', sv_input st)])
               ''tool_execution'' (tk_hex t) (tk_now t))) (\<lambda>_. yields Pending)
         else yields (approval_stat (last found)))
        (\<lambda>x. if x = Approved then tool_permitted ag rid tr y (sv_id st) n else ?I) ?I" for found
    proof (cases "found = []")
      case True
      have "leads ?I (jdo (ag_world ag) (\<lambda>t. request_approval (ag_codec ag) rid (Some (sv_id st)) p ''tool_execution''
          (tk_hex t) (tk_now t))) (\<lambda>_. ?I) ?I" for p
        using keeps_jdo [OF tools_permitted_stable journal_call_approval] by (simp add: keeps_iff_leads)
      from leads_andthen [OF this, of "\<lambda>_. yields Pending"] have request:
        "leads ?I (andthen (jdo (ag_world ag) (\<lambda>t. request_approval (ag_codec ag) rid (Some (sv_id st)) p ''tool_execution''
          (tk_hex t) (tk_now t))) (\<lambda>_. yields Pending))
          (\<lambda>x. if x = Approved then tool_permitted ag rid tr y (sv_id st) n else ?I) ?I" for p
        by (simp add: leads_def [where p = "yields Pending"] yields_def)
      show ?thesis unfolding if_P [OF True] by (rule leads_weaken [OF request]) simp_all
    next
      case False
      have "tool_permitted ag rid tr y (sv_id st) n s"
        if "?I s" "list_approvals (Some rid) (Some (sv_id st)) None (as_journal s) = Inr found"
          "approval_stat (last found) = Approved" for s
        using approved_row [OF that(2) last_in_set [OF False]] that(1,3)
        by (auto simp: tool_permitted_def permitted_def approved_for_def)
      then show ?thesis using False by (auto simp: leads_def yields_def)
    qed
    have "leads ?I (andthen (jread (ag_world ag) (list_approvals (Some rid) (Some (sv_id st)) None)) (\<lambda>found.
         if found = [] then
           andthen (jdo (ag_world ag) (\<lambda>t. request_approval (ag_codec ag) rid (Some (sv_id st))
               (JObj [(''tool'', JStr (fst entry)), (''safety'', JStr (safety_name (snd entry))), (''input'', sv_input st)])
               ''tool_execution'' (tk_hex t) (tk_now t))) (\<lambda>_. yields Pending)
         else yields (approval_stat (last found))))
        (\<lambda>x. if x = Approved then tool_permitted ag rid tr y (sv_id st) n else ?I) ?I"
      by (rule leads_andthen [OF jread_sees [OF tools_permitted_stable] ask])
    then show ?thesis unfolding if_not_P [OF False] by (rule leads_weaken) simp_all
  qed
  show ?thesis unfolding approval_outcome_def
    by (rule leads_andthen [OF read_run_sees [OF tools_permitted_stable] leads_andthen [OF names rest]])
qed

interpretation approvals_first: runtime_invariant ag rid "tools_permitted ag rid tr" "tool_permitted ag rid tr"
  "tool_permitted ag rid tr" for ag rid tr
proof
  let ?I = "tools_permitted ag rid tr"
  show "leads ?I (approval_outcome ag rid st entry)
      (\<lambda>x. if x = Approved then tool_permitted ag rid tr y (sv_id st) n else ?I) ?I"
    if "ag_entry ag n = Some entry" for n entry st y by (rule outcome_permits [OF that])
  show "leads ?I (jread (ag_world ag) (list_approvals (Some rid) (Some i) None))
      (\<lambda>found s. if uncertain_approved found then \<forall>k n. tool_permitted ag rid tr (Some i) k n s else ?I s) ?I" for i
  proof (rule leads_weaken [OF jread_sees [OF tools_permitted_stable]])
    fix found s assume s: "?I s \<and> list_approvals (Some rid) (Some i) None (as_journal s) = Inr found"
    show "if uncertain_approved found then \<forall>k n. tool_permitted ag rid tr (Some i) k n s else ?I s"
    proof (cases "uncertain_approved found")
      case True
      let ?ds = "filter (\<lambda>a. approval_kind a = uncertain_kind) found"
      have "last ?ds \<in> set ?ds" "approval_stat (last ?ds) = Approved"
        using True by (simp_all add: uncertain_approved_def Let_def del: set_filter)
      then have "approved_for (Some i) k (last ?ds)" "last ?ds \<in> set (approvals (database (as_journal s)))" for k
        using approved_row [of rid i "as_journal s" found "last ?ds"] s by (auto simp: approved_for_def)
      then show ?thesis using True s by (auto simp: tool_permitted_def permitted_def)
    qed (use s in simp)
  qed
  show "leads (tool_permitted ag rid tr y (sv_id st) n) (claim_step ag st)
      (\<lambda>x. if x = None then ?I else tool_permitted ag rid tr y (sv_id st) n) ?I" for y st n
    by (rule leads_weaken [OF leads_keeps [OF stable_claim [OF tool_permitted_stable]]]) (auto simp: tool_permitted_def)
  show "leads (tool_permitted ag rid tr y i n) (awaits (ag_world ag) (ToolRun i n a y) (ans :: tick \<Rightarrow> agent_error + json))
      (\<lambda>_. ?I) ?I" for y i n a ans
  proof -
    have "?I (snd (awaits (ag_world ag) (ToolRun i n a y) ans s))" if "tool_permitted ag rid tr y i n s" for s
    proof -
      have "tool_permitted ag rid tr y i n (arrive (ag_world ag) s)" using arrive_stable [OF tool_permitted_stable that] .
      moreover have "as_trace (arrive (ag_world ag) s) = as_trace s" by (simp add: arrive_def)
      ultimately show ?thesis by (auto simp: awaits_def Let_def tool_permitted_def tools_permitted_def)
    qed
    then show ?thesis by (auto simp: leads_def split: prod.splits sum.splits) (metis snd_conv)+
  qed
  show "keeps ?I (awaits (ag_world ag) (ModelAsked i msgs defs) (ans' :: tick \<Rightarrow> agent_error + completion))"
    "keeps ?I (awaits (ag_world ag) (ToolReconciled i n a) (ans :: tick \<Rightarrow> agent_error + json))" for i n a msgs defs ans ans'
    by (rule keeps_awaits_only [OF tools_permitted_stable], force simp: tools_permitted_def)+
qed (use tools_permitted_stable tool_permitted_stable stable_claim [OF tools_permitted_stable] in
  \<open>auto simp: tool_permitted_def\<close>)

text \<open>
  C5: no tool runs without the approval it needs.  When an execution of a run has executed a tool that the policy wants
  approved and that the run does not approve in advance, the journal holds an approved request for that step, or an approved
  decision on the uncertain step that it replaces.
\<close>

theorem no_tool_without_approval:
  assumes "journal_ok (as_journal s)"
    and "snd (agent_execute ag fuel rid s) = t" and "as_trace t = as_trace s @ new"
    and "ToolRun i n args y \<in> set new" and "needs_approval ag rid n (as_journal t)"
  shows "\<exists>a \<in> set (approvals (database (as_journal t))). approval_stat a = Approved \<and>
    (approval_step a = Some i \<or> (y \<noteq> None \<and> approval_step a = y \<and> approval_kind a = uncertain_kind))"
proof -
  have "tools_permitted ag rid (as_trace s) s" using assms(1) by (simp add: tools_permitted_def)
  then have "tools_permitted ag rid (as_trace s) t"
    using approvals_first.execute_keeps [of ag rid "as_trace s" fuel] assms(2) unfolding keeps_def by blast
  then have "permitted ag rid y i n (as_journal t)" using assms(3,4) by (auto simp: tools_permitted_def)
  then show ?thesis using assms(5) by (simp add: permitted_def approved_for_def)
qed

end
