(* ===== verification/AgentExamples.thy ===== *)
theory AgentExamples
  imports AgentFindings AgentProperties
begin

text \<open>
  A runtime and journals in which the properties of the runtime apply: an uncertain tool step that an operator has
  approved for another attempt, and a model step that a dead worker still holds.
\<close>

section \<open>A runtime\<close>

definition demo_tick :: "bool \<Rightarrow> tick" where
  "demo_tick stop = \<lparr>tk_others = [], tk_now = 10, tk_now2 = 10, tk_now3 = 10, tk_hex = ''h'', tk_stop = stop,
     tk_pulse = None, tk_model = ModelRaised ''Error'' [], tk_tool = Inr JNull, tk_tools = []\<rparr>"

text \<open>The process is killed at the interaction \<open>k\<close>, if any.\<close>

definition demo_world :: "nat option \<Rightarrow> world" where
  "demo_world k = \<lparr>wd_text = \<lparr>te_codec = plain_codec, te_repr = (\<lambda>_. [])\<rparr>, wd_floats = (\<lambda>_. 0),
     wd_tick = (\<lambda>n. demo_tick (k = Some n))\<rparr>"

definition demo_agent :: "nat option \<Rightarrow> agent" where
  "demo_agent k = \<lparr>ag_world = demo_world k, ag_provider = ''p'', ag_model = ''m'',
     ag_config = \<lparr>rc_system_prompt = [], rc_max_iterations = 5, rc_lease = 30, rc_worker = ''w'',
       rc_policy = DefaultPolicy [] [], rc_tokens = 10, rc_calls = 1, rc_micro_usd = 0, rc_threshold = 3,
       rc_memory_context = None, rc_memory_scope = None, rc_memory_hash = None\<rparr>,
     ag_entry = (\<lambda>n. if n = ''write'' then Some (''write'', TsOpaque) else None),
     ag_cost = (\<lambda>_. Inr 0), ag_describe = (\<lambda>_. ([], []))\<rparr>"

lemma demo_simps [simp]:
  "ag_world (demo_agent k) = demo_world k" "wd_text (demo_world k) = \<lparr>te_codec = plain_codec, te_repr = (\<lambda>_. [])\<rparr>"
  "wd_tick (demo_world k) n = demo_tick (k = Some n)" "wd_floats (demo_world k) = (\<lambda>_. 0)"
  "tk_others (demo_tick b) = []" "tk_stop (demo_tick b) = b" "tk_now (demo_tick b) = 10" "tk_now2 (demo_tick b) = 10"
  "rc_worker (ag_config (demo_agent k)) = ''w''" "rc_lease (ag_config (demo_agent k)) = 30"
  "rc_max_iterations (ag_config (demo_agent k)) = 5" "rc_policy (ag_config (demo_agent k)) = DefaultPolicy [] []"
  "ag_entry (demo_agent k) nm = (if nm = ''write'' then Some (''write'', TsOpaque) else None)"
  by (simp_all add: demo_agent_def demo_world_def demo_tick_def)

lemma demo_calm: "calm (demo_world None)"
  by (simp add: calm_def)

lemma timedelta_30 [simp]: "timedelta_us 30 = 30000000"
  by simp

definition demo_run :: run_row where
  "demo_run = \<lparr>run_id = ''r'', run_mode = ''single'', run_request = canonical_json plain_codec (JObj []),
     run_config = canonical_json plain_codec (JObj []), run_stat = RunRunning, run_parent = None,
     run_budget = fresh_budget None None None None, run_created = 0, run_updated = 0\<rparr>"

lemma decoded_stored:
  "json_ok plain_codec (\<lambda>_. 0) v \<Longrightarrow> decoded (demo_world k) (Some (canonical_json plain_codec v)) = Inr (sorted_json v)"
  by (simp add: decoded_def decode_stored del: canonical_json.simps)

lemma decoded_none [simp]: "decoded wd None = Inr JNull"
  by (simp add: decoded_def decode_json_def)

lemma demo_run_view: "run_from_row (demo_world k) demo_run = Inr \<lparr>rv_request = JObj [], rv_config = JObj [], rv_stat = RunRunning\<rparr>"
  by (simp add: run_from_row_def demo_run_def decoded_stored sorted_dict_def del: canonical_json.simps)

definition demo_step :: "str \<Rightarrow> str \<Rightarrow> json \<Rightarrow> int \<Rightarrow> step_row" where
  "demo_step i kind inp n =
     \<lparr>step_id = i, step_run = ''r'', step_key = i, step_kind = kind, step_name = kind,
      step_input = canonical_json plain_codec inp, input_hash = [], step_safety = (if kind = ''model'' then ReadOnly else OpaqueSideEffect), step_seq = Some n,
      step_stat = StepReady, step_output = None, step_error = None, uncertainty = None, lease_owner = None,
      lease_expires = None, attempts = 0, step_created = 0, step_updated = 0\<rparr>"

lemma demo_step_run: "step_run (demo_step i kind inp n) = ''r''" "step_id (demo_step i kind inp n) = i"
  by (simp_all add: demo_step_def)

definition demo_journal :: "step_row list \<Rightarrow> approval_row list \<Rightarrow> journal" where
  "demo_journal ss as = \<lparr>database = empty_db\<lparr>runs := [demo_run], steps := ss, approvals := as\<rparr>, closed = False\<rparr>"

lemma demo_journal_simps [simp]:
  "\<not> closed (demo_journal ss as)" "runs (database (demo_journal ss as)) = [demo_run]"
  "steps (database (demo_journal ss as)) = ss" "approvals (database (demo_journal ss as)) = as"
  "receipts (database (demo_journal ss as)) = []" "run_id demo_run = ''r''"
  by (simp_all add: demo_journal_def empty_db_def demo_run_def)

section \<open>A model step that a dead worker holds\<close>

definition held_input :: json where
  "held_input = request_snapshot (demo_agent None) 0 1 ''m'' [] []"

definition held_journal :: journal where
  "held_journal = demo_journal
     [(demo_step ''s'' ''model'' held_input 0)\<lparr>step_stat := StepExecuting, lease_owner := Some ''w'',
        lease_expires := Some 30000000, attempts := 1\<rparr>] []"

lemma held_view:
  "step_from_row (demo_world k) ((demo_step ''s'' ''model'' held_input 0)\<lparr>step_stat := StepExecuting,
      lease_owner := Some ''w'', lease_expires := Some 30000000, attempts := 1\<rparr>) =
   Inr \<lparr>sv_id = ''s'', sv_run = ''r'', sv_kind = ''model'', sv_name = ''model'', sv_input = sorted_json held_input,
     sv_safety = ReadOnly, sv_seq = Some 0, sv_stat = StepExecuting, sv_output = JNull, sv_reason = None\<rparr>"
proof -
  have "json_ok plain_codec (\<lambda>_. 0) held_input" by (simp add: held_input_def request_snapshot_def)
  then show ?thesis
    by (simp add: step_from_row_def demo_step_def decoded_stored del: canonical_json.simps)
qed

lemma held_iteration: "get_member (sorted_json held_input) ''iteration'' = Inr (JInt 0)"
  by (simp add: held_input_def request_snapshot_def sorted_lookup)

text \<open>The hypothesis of \<open>held_model_step_spins\<close> holds in a journal that satisfies the invariant.\<close>

lemma held_journal_ok: "journal_ok held_journal"
  by (simp add: journal_ok_def db_ok_def held_journal_def demo_journal_def empty_db_def demo_step_def demo_run_def
      events_numbered_def step_keys_ok_def keys_ok_def keyed_def refs_ok_def refs_def ref_in_def run_ids_def
      step_rows_ok_def step_row_ok_def budgets_ok_def balanced_def column_ok_def limits_fit_def outstanding_def consumed_def fresh_budget_def
      del: canonical_json.simps)

lemma held_journal_spins:
  "fst (agent_loop (demo_agent None) ''r'' n \<lparr>as_next = 0, as_journal = held_journal, as_trace = []\<rparr>) = Inl AeFuel"
proof -
  let ?st = "\<lparr>sv_id = ''s'', sv_run = ''r'', sv_kind = ''model'', sv_name = ''model'', sv_input = sorted_json held_input,
     sv_safety = ReadOnly, sv_seq = Some 0, sv_stat = StepExecuting, sv_output = JNull, sv_reason = None\<rparr>"
  let ?row = "(demo_step ''s'' ''model'' held_input 0)\<lparr>step_stat := StepExecuting, lease_owner := Some ''w'',
        lease_expires := Some 30000000, attempts := 1\<rparr>"
  have run: "result (read_run (demo_world None) ''r'') held_journal
      (Inr \<lparr>rv_request = JObj [], rv_config = JObj [], rv_stat = RunRunning\<rparr>)"
    by (rule result_read_run [OF demo_calm, of _ _ demo_run])
      (simp_all add: get_run_def held_journal_def demo_run_view)
  have all: "result (read_steps (demo_world None) ''r'') held_journal (Inr [?st])"
    by (rule result_read_steps [OF demo_calm, of _ _ "[?row]"])
      (simp_all add: list_steps_def held_journal_def order_by_def held_view demo_step_run)
  have one: "result (read_step (demo_world None) ''s'') held_journal (Inr ?st)"
    by (rule result_read_step [OF demo_calm, of _ _ ?row])
      (simp_all add: get_step_def held_journal_def held_view demo_step_run)
  have "model_step_held (demo_agent None) ''r'' held_journal"
    unfolding model_step_held_def
    by (rule exI [of _ "\<lparr>rv_request = JObj [], rv_config = JObj [], rv_stat = RunRunning\<rparr>"], rule exI [of _ "[?st]"], rule exI [of _ "[?st]"], rule exI [of _ ?st], rule exI [of _ ?st])
      (use run all one in \<open>simp add: held_iteration failed_attempts_def resumable_step_def\<close>)
  from held_model_step_spins [OF _ this, of n] show ?thesis by (simp add: demo_calm result_def)
qed

section \<open>An uncertain step that an operator has approved\<close>

definition demo_call :: tool_call where
  "demo_call = \<lparr>tc_id = ''c'', tc_name = ''write'', tc_arguments = []\<rparr>"

definition lost_input :: json where
  "lost_input = tool_step_input 0 0 demo_call"

definition retry_input :: json where
  "retry_input = JObj [(''arguments'', JObj []), (''call_index'', JInt 0), (''iteration'', JInt 0),
     (''recovery_of'', JStr ''s1''), (''tool_call'', serialize_tool_call demo_call)]"

text \<open>The uncertain step \<open>s1\<close>, its replacement \<open>s2\<close>, which is ready, and the decision of the operator.\<close>

definition lost_step :: step_row where
  "lost_step = (demo_step ''s1'' ''tool'' lost_input 1)\<lparr>step_stat := StepUncertain, uncertainty := Some ''expired'',
     attempts := 1\<rparr>"

definition retry_step :: step_row where
  "retry_step = demo_step ''s2'' ''tool'' retry_input 601"

definition retry_decision :: approval_row where
  "retry_decision = \<lparr>approval_id = ''a'', approval_run = ''r'', approval_step = Some ''s1'',
     approval_kind = uncertain_kind, approval_request = [], approval_stat = Approved, decision = Some Approved,
     decided_by = Some ''o'', decision_reason = None, approval_created = 0, decided_at = Some 0\<rparr>"

definition retry_journal :: journal where
  "retry_journal = demo_journal [lost_step, retry_step] [retry_decision]"

definition lost_view :: step_view where
  "lost_view = \<lparr>sv_id = ''s1'', sv_run = ''r'', sv_kind = ''tool'', sv_name = ''tool'', sv_input = sorted_json lost_input,
     sv_safety = OpaqueSideEffect, sv_seq = Some 1, sv_stat = StepUncertain, sv_output = JNull, sv_reason = Some ''expired''\<rparr>"

definition retry_view :: "step_status \<Rightarrow> step_view" where
  "retry_view x = \<lparr>sv_id = ''s2'', sv_run = ''r'', sv_kind = ''tool'', sv_name = ''tool'',
     sv_input = sorted_json retry_input, sv_safety = OpaqueSideEffect, sv_seq = Some 601, sv_stat = x, sv_output = JNull,
     sv_reason = None\<rparr>"

lemma retry_journal_ok: "journal_ok retry_journal"
  by (simp add: journal_ok_def db_ok_def retry_journal_def demo_journal_def empty_db_def demo_step_def demo_run_def
      lost_step_def retry_step_def retry_decision_def
      events_numbered_def step_keys_ok_def keys_ok_def keyed_def refs_ok_def refs_def ref_in_def run_ids_def step_ids_def
      step_rows_ok_def step_row_ok_def budgets_ok_def balanced_def column_ok_def limits_fit_def outstanding_def consumed_def fresh_budget_def
      del: canonical_json.simps)

lemma inputs_ok: "json_ok plain_codec (\<lambda>_. 0) lost_input" "json_ok plain_codec (\<lambda>_. 0) retry_input"
  by (simp_all add: lost_input_def retry_input_def tool_step_input_def serialize_tool_call_def demo_call_def)

lemma lost_step_view: "step_from_row (demo_world k) lost_step = Inr lost_view"
  by (simp add: step_from_row_def lost_step_def lost_view_def demo_step_def decoded_stored inputs_ok
      del: canonical_json.simps)

lemma retry_step_view:
  "step_from_row (demo_world k) (retry_step\<lparr>step_stat := x, lease_owner := ow, lease_expires := e, attempts := n,
     step_updated := u\<rparr>) = Inr (retry_view x)"
  "step_from_row (demo_world k) retry_step = Inr (retry_view StepReady)"
  by (simp_all add: step_from_row_def retry_step_def retry_view_def demo_step_def decoded_stored inputs_ok
      del: canonical_json.simps)

lemma sorted_dict_Nil [simp]: "sorted_dict [] = []"
  by (simp add: sorted_dict_def)

lemma lost_members:
  "get_member (sv_input lost_view) ''recovery_of'' = Inr JNull"
  "call_from_step (demo_agent k) lost_view = Inr demo_call"
  by (simp_all add: call_from_step_def lost_view_def lost_input_def tool_step_input_def serialize_tool_call_def
      demo_call_def sorted_lookup deserialize_tool_call_def make_tool_call_def refuses_copy_def py_blank_def py_space_def)

lemma retry_member: "get_member (sv_input (retry_view x)) ''recovery_of'' = Inr (JStr ''s1'')"
  by (simp add: retry_view_def retry_input_def sorted_lookup)

text \<open>The process is killed at its interaction number 110.\<close>

lemma demo_jcall:
  "n \<noteq> 110 \<Longrightarrow> jcall (demo_world (Some 110)) f \<lparr>as_next = n, as_journal = j, as_trace = tr\<rparr> =
    (case f (demo_tick False) j of
       (Inl e, j') \<Rightarrow> (Inl (AeJournal e), \<lparr>as_next = n + 1, as_journal = j', as_trace = tr\<rparr>)
     | (Inr x, j') \<Rightarrow> (Inr x, \<lparr>as_next = n + 1, as_journal = j', as_trace = tr\<rparr>))"
  by (auto simp: jcall_def arrive_def Let_def split: prod.splits sum.splits)

lemma demo_jread:
  "n \<noteq> 110 \<Longrightarrow> f j = Inr x \<Longrightarrow> jread (demo_world (Some 110)) f \<lparr>as_next = n, as_journal = j, as_trace = tr\<rparr> =
    (Inr x, \<lparr>as_next = n + 1, as_journal = j, as_trace = tr\<rparr>)"
  by (simp add: jread_def demo_jcall)

lemma retry_reads:
  "get_run ''r'' retry_journal = Inr demo_run"
  "list_steps ''r'' None retry_journal = Inr [lost_step, retry_step]"
  "get_step ''s2'' retry_journal = Inr retry_step"
  "list_approvals (Some ''r'') None None retry_journal = Inr [retry_decision]"
  "list_approvals (Some ''r'') (Some ''s1'') None retry_journal = Inr [retry_decision]"
  by (simp_all add: get_run_def list_steps_def get_step_def list_approvals_def retry_journal_def order_by_def lost_step_def
      retry_step_def demo_step_def step_order_def retry_decision_def del: canonical_json.simps)

lemma retry_reclaim:
  "reclaim_expired_leases plain_codec 10 retry_journal = (Inr [], retry_journal)"
  by (simp add: reclaim_expired_leases_def transaction_def reclaim_expired_leases_tx_def retry_journal_def demo_journal_def
      order_by_def lease_expired_def lost_step_def retry_step_def demo_step_def del: canonical_json.simps)

definition claimed_step :: step_row where
  "claimed_step = retry_step\<lparr>step_stat := StepLeased, lease_owner := Some ''w'', lease_expires := Some 30000010,
     attempts := 1, step_updated := 10\<rparr>"

lemma retry_claim:
  "\<exists>j. claim_ready_step plain_codec ''w'' 30 (Some ''r'') 10 10 retry_journal = (Inr (Some claimed_step), j) \<and>
     \<not> closed j \<and> find_step ''s2'' (database j) = Some claimed_step \<and> runs (database j) = [demo_run]"
  by (simp add: claim_ready_step_def transaction_def claim_ready_step_tx_def ready_steps_def order_by_def rowcount_def
      retry_journal_def lost_step_def retry_step_def demo_step_def claimed_step_def Let_def append_event_row_def
      update_where_def demo_journal_def del: canonical_json.simps)

lemma retry_executing:
  assumes "\<not> closed j" and "find_step ''s2'' (database j) = Some claimed_step" and "runs (database j) = [demo_run]"
  shows "\<exists>j'. executing (demo_agent (Some 110)) ''s2'' \<lparr>as_next = 109, as_journal = j, as_trace = []\<rparr> =
    (Inr (), \<lparr>as_next = 110, as_journal = j', as_trace = []\<rparr>) \<and> runs (database j') = [demo_run]"
proof -
  have "find_step ''s2'' (d\<lparr>steps := update_where (\<lambda>r. step_id r = ''s2'' \<and> step_stat r = StepLeased)
      (\<lambda>r. r\<lparr>step_stat := StepExecuting, step_updated := 10\<rparr>) (steps (database j))\<rparr>) \<noteq> None" for d :: db
    using assms(2) by (auto simp: by_key_None_iff dest!: by_key_SomeD) force
  then show ?thesis using assms
    by (auto simp: executing_def jdo_def demo_jcall andthen_def mark_executing_def transaction_def mark_executing_tx_def
        claimed_step_def check_owner_and_lease_def Let_def append_event_row_def yields_def retry_step_def demo_step_def
        simp del: canonical_json.simps split: option.splits)
qed

text \<open>The program runs up to the tool.\<close>

abbreviation retry_event :: agent_event where
  "retry_event \<equiv> ToolRun ''s2'' ''write'' [] (Some ''s1'')"

lemma retry_performed:
  "\<exists>j. perform_replacement (demo_agent (Some 110)) ''r'' ''s1'' (retry_view StepReady) demo_call busy b
      \<lparr>as_next = 107, as_journal = retry_journal, as_trace = []\<rparr> =
     (Inl AeStopped, \<lparr>as_next = 111, as_journal = j, as_trace = [retry_event]\<rparr>) \<and> runs (database j) = [demo_run]"
proof -
  obtain j where j: "claim_ready_step plain_codec ''w'' 30 (Some ''r'') 10 10 retry_journal = (Inr (Some claimed_step), j)"
      "\<not> closed j" "find_step ''s2'' (database j) = Some claimed_step" "runs (database j) = [demo_run]"
    using retry_claim by blast
  obtain j' where j': "executing (demo_agent (Some 110)) ''s2'' \<lparr>as_next = 109, as_journal = j, as_trace = []\<rparr> =
    (Inr (), \<lparr>as_next = 110, as_journal = j', as_trace = []\<rparr>)" "runs (database j') = [demo_run]"
    using retry_executing [OF j(2-4)] by blast
  have ids: "sv_id (retry_view x) = ''s2''" "sv_run (retry_view x) = ''r''" "sv_stat (retry_view x) = x" for x
    by (simp_all add: retry_view_def)
  have claim: "claim_step (demo_agent (Some 110)) (retry_view StepReady)
      \<lparr>as_next = 107, as_journal = retry_journal, as_trace = []\<rparr> =
    (Inr (Some (retry_view StepLeased)), \<lparr>as_next = 109, as_journal = j, as_trace = []\<rparr>)"
    by (simp add: claim_step_def read_step_def andthen_def demo_jread retry_reads ids retry_step_view demo_jcall j
        claimed_step_def yields_def value_of_def)
  have tool: "run_tool (demo_agent (Some 110)) ''s2'' demo_call (Some ''s1'')
      \<lparr>as_next = 110, as_journal = j', as_trace = []\<rparr> =
    (Inl AeStopped, \<lparr>as_next = 111, as_journal = j', as_trace = [retry_event]\<rparr>)"
    by (simp add: run_tool_def lease_heartbeat_def andthen_def awaits_def arrive_def Let_def demo_call_def)
  show ?thesis
    by (rule exI [of _ j'])
      (simp add: perform_replacement_def ids andthen_def claim j' tries_def catches_def tool is_exception_def)
qed

lemma retry_execution:
  "\<exists>j. agent_execute (demo_agent (Some 110)) 0 ''r'' \<lparr>as_next = 100, as_journal = retry_journal, as_trace = []\<rparr> =
     (Inl AeStopped, \<lparr>as_next = 111, as_journal = j, as_trace = [retry_event]\<rparr>) \<and> runs (database j) = [demo_run]"
proof -
  obtain j where perform: "perform_replacement (demo_agent (Some 110)) ''r'' ''s1'' (retry_view StepReady) demo_call
      ''uncertain tool retry is already leased'' False \<lparr>as_next = 107, as_journal = retry_journal, as_trace = []\<rparr> =
     (Inl AeStopped, \<lparr>as_next = 111, as_journal = j, as_trace = [retry_event]\<rparr>)" "runs (database j) = [demo_run]"
    using retry_performed by blast
  have lost: "sv_id lost_view = ''s1''" "sv_stat lost_view = StepUncertain" "sv_safety lost_view = OpaqueSideEffect"
    "sv_kind lost_view = ''tool''" "sv_kind (retry_view x) = ''tool''" "sv_stat (retry_view x) = x" for x
    by (simp_all add: lost_view_def retry_view_def)
  have retry: "retry_approved_uncertain (demo_agent (Some 110)) ''r'' lost_view
      \<lparr>as_next = 106, as_journal = retry_journal, as_trace = []\<rparr> =
    (Inl AeStopped, \<lparr>as_next = 111, as_journal = j, as_trace = [retry_event]\<rparr>)"
    by (simp add: retry_approved_uncertain_def read_steps_def andthen_def demo_jread retry_reads value_of_def yields_def
        lost_step_view retry_step_view lost lost_members retry_member perform)
  have settle: "settle_uncertain (demo_agent (Some 110)) ''r'' [lost_view]
      \<lparr>as_next = 105, as_journal = retry_journal, as_trace = []\<rparr> =
    (Inl AeStopped, \<lparr>as_next = 111, as_journal = j, as_trace = [retry_event]\<rparr>)"
    by (simp add: andthen_def demo_jread retry_reads lost Let_def retry retry_decision_def)
  have handle: "handle_approvals_and_uncertainty (demo_agent (Some 110)) ''r''
      \<lparr>as_next = 103, as_journal = retry_journal, as_trace = []\<rparr> =
    (Inl AeStopped, \<lparr>as_next = 111, as_journal = j, as_trace = [retry_event]\<rparr>)"
    by (simp add: handle_approvals_and_uncertainty_def andthen_def demo_jread retry_reads retry_decision_def yields_def
        read_steps_def value_of_def lost_step_view retry_step_view lost settle del: settle_uncertain.simps)
  have "agent_execute (demo_agent (Some 110)) 0 ''r'' \<lparr>as_next = 100, as_journal = retry_journal, as_trace = []\<rparr> =
     (Inl AeStopped, \<lparr>as_next = 111, as_journal = j, as_trace = [retry_event]\<rparr>)"
    by (simp add: agent_execute_def andthen_def read_run_def demo_jread retry_reads value_of_def demo_run_view yields_def
        jdo_def demo_jcall retry_reclaim handle)
  with perform(2) show ?thesis by blast
qed

theorem no_tool_without_approval_witness:
  "retry_event \<in> set (as_trace (snd (agent_execute (demo_agent (Some 110)) 0 ''r''
      \<lparr>as_next = 100, as_journal = retry_journal, as_trace = []\<rparr>))) \<and>
   (\<exists>a \<in> set (approvals (database (as_journal (snd (agent_execute (demo_agent (Some 110)) 0 ''r''
      \<lparr>as_next = 100, as_journal = retry_journal, as_trace = []\<rparr>))))). approval_stat a = Approved \<and>
     (approval_step a = Some ''s2'' \<or> (Some ''s1'' \<noteq> None \<and> approval_step a = Some ''s1'' \<and> approval_kind a = uncertain_kind)))"
proof -
  obtain j where j: "agent_execute (demo_agent (Some 110)) 0 ''r''
      \<lparr>as_next = 100, as_journal = retry_journal, as_trace = []\<rparr> =
     (Inl AeStopped, \<lparr>as_next = 111, as_journal = j, as_trace = [retry_event]\<rparr>)" "runs (database j) = [demo_run]"
    using retry_execution by blast
  have "decoded (demo_world (Some 110)) (Some (run_config demo_run)) = Inr (JObj [])"
    by (simp add: demo_run_def decoded_stored del: canonical_json.simps)
  then have needs: "needs_approval (demo_agent (Some 110)) ''r'' ''write'' j"
    by (simp add: needs_approval_def preapproved_def j(2) jget_or_def)
  let ?s = "\<lparr>as_next = 100, as_journal = retry_journal, as_trace = []\<rparr>"
  have "\<exists>a \<in> set (approvals (database (as_journal (snd (agent_execute (demo_agent (Some 110)) 0 ''r'' ?s))))).
      approval_stat a = Approved \<and> (approval_step a = Some ''s2'' \<or>
        (Some ''s1'' \<noteq> None \<and> approval_step a = Some ''s1'' \<and> approval_kind a = uncertain_kind))"
    by (rule no_tool_without_approval [where s = ?s and ag = "demo_agent (Some 110)" and fuel = 0 and rid = "''r''"
          and new = "[retry_event]" and n = "''write''" and args = "[]" and t = "snd (agent_execute (demo_agent (Some 110)) 0 ''r'' ?s)"])
      (simp_all add: j retry_journal_ok needs)
  then show ?thesis by (simp add: j)
qed

text \<open>Two executions one after the other over a journal that its methods have produced; the second dies.\<close>

definition demo_sessions :: "agent_state \<Rightarrow> agent_state" where
  "demo_sessions = sessions [(demo_agent None, 3, ''run_1''), (demo_agent (Some 4), 3, ''run_1'')]"

definition demo_start :: agent_state where
  "demo_start = \<lparr>as_next = 0, as_journal = after plain_codec [CreateRun sample_request ''1'' 0], as_trace = []\<rparr>"

theorem tool_runs_at_most_once_witness:
  "tool_runs ''s'' (as_trace (demo_sessions demo_start)) \<le>
     attempts_of (as_journal (demo_sessions demo_start)) ''s'' - attempts_of (as_journal demo_start) ''s''"
  using tool_runs_at_most_once [of demo_start plain_codec "[CreateRun sample_request ''1'' 0]"
      "[(demo_agent None, 3, ''run_1''), (demo_agent (Some 4), 3, ''run_1'')]" "''s''"]
  by (force simp: demo_sessions_def demo_start_def)

end
