(* ===== verification/AgentReplay.thy ===== *)
theory AgentReplay
  imports AgentExamples
begin

text \<open>
  The replay of \<open>runtime/replay.py\<close> and the conversation that \<open>AgentRuntime._reconstruct\<close> rebuilds are two readings of the same
  steps: for a conversation that has come to its end they agree.
\<close>

section \<open>Taking results apart\<close>

lemma result_andthenE:
  assumes "result (andthen p f) j (Inr y)" and "reads p j" and "\<And>x. reads (f x) j"
  obtains x where "result p j (Inr x)" and "result (f x) j (Inr y)"
proof -
  obtain r where r: "result p j r" using assms(2) by (auto simp: reads_def)
  show thesis
  proof (cases r)
    case (Inl e)
    then have "result (andthen p f) j (Inl e)" using r by (simp add: result_andthen_error)
    from result_unique [OF this assms(1)] show thesis by simp
  next
    case (Inr x)
    obtain r' where r': "result (f x) j r'" using assms(3) [of x] by (auto simp: reads_def)
    have p: "result p j (Inr x)" using r Inr by simp
    have "result (andthen p f) j r'" using p r' by (rule result_andthen)
    then have "r' = Inr y" using assms(1) by (rule result_unique)
    with p r' show thesis using that by simp
  qed
qed

lemma result_value_ofE: "result (value_of x) j (Inr y) \<Longrightarrow> x = Inr y"
  using result_unique [OF result_value_of, of x j "Inr y"] by (simp split: sum.splits)

lemma result_yieldsE: "result (yields x) j (Inr y) \<Longrightarrow> x = y"
  using result_unique [OF result_yields, of x j "Inr y"] by simp

lemma reads_tool_outputs_from [reading]:
  "calm (ag_world ag) \<Longrightarrow> reads (tool_outputs_from ag rid table i cs) j"
  by (induction cs arbitrary: i) (auto intro!: reading simp: reads_yields)

lemma reads_tool_outputs [reading]: "calm (ag_world ag) \<Longrightarrow> reads (tool_outputs ag rid it cs) j"
  unfolding tool_outputs_def by (intro reading reads_records)

lemma reads_rebuild [reading]: "calm (ag_world ag) \<Longrightarrow> reads (rebuild ag rid ms msgs n) j"
proof (induction ms arbitrary: msgs n)
  case (Cons p ms)
  then show ?case by (cases p) (simp, intro reading conjI impI, simp_all)
qed (simp add: reading)

section \<open>The fuel of a lineage\<close>

text \<open>A program that never runs out of fuel.\<close>

definition fuelled :: "'a prog \<Rightarrow> bool" where
  "fuelled p \<longleftrightarrow> (\<forall>s. fst (p s) \<noteq> Inl AeFuel)"

lemma fuelled_simps [simp]: "fuelled (yields x)" "fuelled (value_of v)" "fuelled (jcall wd f)" "fuelled (jread wd g)"
  by (auto simp: fuelled_def yields_def value_of_def raises_def jcall_def jread_def Let_def split: sum.splits prod.splits)

lemma fuelled_andthen: "fuelled p \<Longrightarrow> (\<And>x. fuelled (f x)) \<Longrightarrow> fuelled (andthen p f)"
  by (auto simp: fuelled_def andthen_def split: prod.splits sum.splits) (metis fst_conv)

lemma replacement_of_in: "replacement_of all i = Inr (Some c) \<Longrightarrow> c \<in> set all"
  by (induction all) (auto simp: sum_then_def split: if_splits sum.splits)

lemma fuelled_value_then:
  "(\<And>v. x = Inr v \<Longrightarrow> fuelled (f v)) \<Longrightarrow> fuelled (andthen (value_of x) f)"
  by (auto simp: fuelled_def andthen_def value_of_def yields_def raises_def split: sum.splits)

lemma fuelled_lineage:
  "card (insert (sv_id cur) (sv_id ` set all) - set visited) < n \<Longrightarrow> fuelled (lineage wd all n visited cur)"
proof (induction n arbitrary: visited cur)
  case (Suc n)
  let ?U = "sv_id ` set all"
  have onward: "fuelled (lineage wd all n (sv_id cur # visited) c)" if "sv_id cur \<notin> set visited" "c \<in> set all" for c
  proof (rule Suc.IH)
    have "insert (sv_id c) ?U = ?U" using that(2) by auto
    moreover have "card (?U - set (sv_id cur # visited)) < card (insert (sv_id cur) ?U - set visited)"
      by (rule psubset_card_mono) (use that(1) in auto)
    ultimately show "card (insert (sv_id c) ?U - set (sv_id cur # visited)) < n" using Suc.prems by simp
  qed
  have receipt: "fuelled (read_receipt wd key)" for key
    unfolding read_receipt_def by (intro fuelled_andthen) (auto split: option.splits intro!: fuelled_andthen)
  show ?case
    by (auto simp: receipt onward replacement_of_in split: option.splits intro!: fuelled_andthen fuelled_value_then)
qed simp

text \<open>
  C40: the outcome of a tool call is always found or known to be missing: following receipts and replacements from step to
  step ends, whatever the journal holds and whatever others do to it meanwhile.
\<close>

theorem tool_output_search_ends:
  "fst (recorded_tool_output wd rid original s) \<noteq> Inl AeFuel"
proof -
  have "card (insert (sv_id original) (sv_id ` set all) - set []) < length all + 2" for all
  proof -
    have "card (sv_id ` set all) \<le> length all" using card_image_le [of "set all" sv_id] card_length [of all] by simp
    then show ?thesis by (simp add: card_insert_if)
  qed
  then have "fuelled (recorded_tool_output wd rid original)"
    unfolding recorded_tool_output_def read_steps_def
    by (intro fuelled_andthen fuelled_simps fuelled_lineage)
  then show ?thesis by (simp add: fuelled_def)
qed

section \<open>The outputs of an iteration\<close>

lemma replay_outputs:
  assumes calm: "calm (ag_world ag)"
  shows "result (tool_outputs_from ag rid table i cs) j (Inr (Some vs)) \<Longrightarrow> tool_messages ag cs vs = Inr ms \<Longrightarrow>
    result (replay_calls (ag_world ag) rid table i cs) j (Inr ms)"
proof (induction cs arbitrary: i vs ms)
  case Nil
  then show ?case by (auto simp: tool_messages_def dest: result_yieldsE)
next
  case (Cons c cs)
  show ?case
  proof (cases "step_of_call table i")
    case None
    then show ?thesis using Cons.prems(1) by (auto dest: result_yieldsE)
  next
    case (Some st)
    have first: "result (andthen (recorded_tool_output (ag_world ag) rid st) (\<lambda>out.
          (case out of
             None \<Rightarrow> yields None
           | Some v \<Rightarrow> andthen (tool_outputs_from ag rid table (i + 1) cs) (\<lambda>rest.
               yields (map_option (\<lambda>vs. v # vs) rest))))) j (Inr (Some vs))"
      using Cons.prems(1) Some by simp
    obtain out where out: "result (recorded_tool_output (ag_world ag) rid st) j (Inr out)"
      "result (case out of None \<Rightarrow> yields None
         | Some v \<Rightarrow> andthen (tool_outputs_from ag rid table (i + 1) cs) (\<lambda>rest.
             yields (map_option (\<lambda>vs. v # vs) rest))) j (Inr (Some vs))"
      by (rule result_andthenE [OF first]) (auto intro!: reading calm)
    then obtain v where v: "out = Some v" by (cases out) (auto dest: result_yieldsE)
    obtain rest where rest: "result (tool_outputs_from ag rid table (i + 1) cs) j (Inr rest)"
      "result (yields (map_option (\<lambda>vs. v # vs) rest)) j (Inr (Some vs))"
      using out(2) unfolding v option.case by (rule result_andthenE) (auto intro!: reading calm)
    obtain ws where ws: "rest = Some ws" "vs = v # ws" using result_yieldsE [OF rest(2)] by auto
    obtain m ms' where ms: "tool_message (ag_world ag) c v = Inr m" "tool_messages ag cs ws = Inr ms'" "ms = m # ms'"
      using Cons.prems(2) ws(2) by (auto simp: tool_messages_def sum_then_def split: sum.splits)
    have "result (replay_calls (ag_world ag) rid table (i + 1) cs) j (Inr ms')"
      using Cons.IH rest(1) ws(1) ms(2) by simp
    then have "result (andthen (replay_calls (ag_world ag) rid table (i + 1) cs) (\<lambda>ms. yields (m # ms))) j (Inr ms)"
      by (rule result_andthen) (simp add: ms(3))
    then have "result (andthen (value_of (tool_message (ag_world ag) c v)) (\<lambda>m.
        andthen (replay_calls (ag_world ag) rid table (i + 1) cs) (\<lambda>ms. yields (m # ms)))) j (Inr ms)"
      by (intro result_andthen [where x = m]) (simp_all add: ms(1))
    then show ?thesis using Some out(1) v by (simp add: result_andthen)
  qed
qed

section \<open>The conversation\<close>

text \<open>Every committed model step has an object for its output and an integer for its iteration, as \<open>_execute_model\<close> writes
  them.\<close>

definition regular_models :: "step_view list \<Rightarrow> bool" where
  "regular_models all \<longleftrightarrow>
     (\<forall>s \<in> set all. sv_kind s = ''model'' \<and> sv_stat s = StepCommitted \<longrightarrow>
        (\<exists>out inp n. sv_output s = JObj out \<and> sv_input s = JObj inp \<and> map_of inp ''iteration'' = Some (JInt n)))"

lemma committed_models_cases:
  assumes "regular_models (s # ss)" "sv_kind s = ''model''" "sv_stat s = StepCommitted" "committed_models ag (s # ss) = Inr ms"
  obtains n c rest where "ms = (n, c) # rest" "committed_models ag ss = Inr rest"
    "completion_of_output (ag_world ag) (sv_output s) = Inr c" "get_member (sv_input s) ''iteration'' = Inr (JInt n)"
  using assms
  by (auto simp: regular_models_def sum_then_def jitem_def jget_def completion_of_output_def split: sum.splits)

lemma committed_models_skip:
  "\<not> (sv_kind s = ''model'' \<and> sv_stat s = StepCommitted) \<Longrightarrow> committed_models ag (s # ss) = committed_models ag ss"
  by (auto split: json.splits)

lemma replay_nothing:
  "regular_models ss \<Longrightarrow> committed_models ag ss = Inr [] \<Longrightarrow>
    result (replay_models (ag_world ag) rid ss msgs f) j (Inr (msgs, f))"
proof (induction ss)
  case (Cons s ss)
  have skip: "\<not> (sv_kind s = ''model'' \<and> sv_stat s = StepCommitted)"
  proof
    assume "sv_kind s = ''model'' \<and> sv_stat s = StepCommitted"
    then show False using committed_models_cases [OF Cons.prems(1) _ _ Cons.prems(2)] by blast
  qed
  have "regular_models ss" using Cons.prems(1) by (simp add: regular_models_def)
  moreover have "committed_models ag ss = Inr []" using Cons.prems(2) committed_models_skip [OF skip] by simp
  ultimately show ?case using Cons.IH skip by auto
qed simp

lemma rebuild_calls:
  assumes calm: "calm (ag_world ag)" and calls: "ms_calls (cp_message c) \<noteq> []"
    and ends: "result (rebuild ag rid ((n, c) # rest) msgs n) j (Inr (out, it, Some final))"
  obtains vs told where "result (tool_outputs ag rid n (ms_calls (cp_message c))) j (Inr (Some vs))"
    "tool_messages ag (ms_calls (cp_message c)) vs = Inr told"
    "result (rebuild ag rid rest (msgs @ [cp_message c] @ told) (n + 1)) j (Inr (out, it, Some final))"
proof -
  have whole: "result (andthen (tool_outputs ag rid n (ms_calls (cp_message c))) (\<lambda>outs.
        (case outs of
           None \<Rightarrow> yields (msgs @ [cp_message c], n, None)
         | Some vs \<Rightarrow> andthen (value_of (tool_messages ag (ms_calls (cp_message c)) vs)) (\<lambda>told.
             rebuild ag rid rest (msgs @ [cp_message c] @ told) (n + 1))))) j (Inr (out, it, Some final))"
    using ends calls by (simp only: rebuild.simps simp_thms if_False)
  obtain outs where outs: "result (tool_outputs ag rid n (ms_calls (cp_message c))) j (Inr outs)"
    "result (case outs of
           None \<Rightarrow> yields (msgs @ [cp_message c], n, None)
         | Some vs \<Rightarrow> andthen (value_of (tool_messages ag (ms_calls (cp_message c)) vs)) (\<lambda>told.
             rebuild ag rid rest (msgs @ [cp_message c] @ told) (n + 1))) j (Inr (out, it, Some final))"
    by (rule result_andthenE [OF whole]) (auto intro!: reading calm)
  obtain vs where vs: "outs = Some vs" using outs(2) by (cases outs) (auto dest: result_yieldsE)
  obtain told where told: "result (value_of (tool_messages ag (ms_calls (cp_message c)) vs)) j (Inr told)"
    "result (rebuild ag rid rest (msgs @ [cp_message c] @ told) (n + 1)) j (Inr (out, it, Some final))"
    using outs(2) unfolding vs option.case by (rule result_andthenE) (auto intro!: reading calm)
  show thesis by (rule that [OF outs(1) [unfolded vs] result_value_ofE [OF told(1)] told(2)])
qed

lemma replay_iteration:
  assumes calm: "calm (ag_world ag)" and all: "result (read_steps (ag_world ag) rid) j (Inr all)"
    and outs: "result (tool_outputs ag rid n cs) j (Inr (Some vs))" and msgs: "tool_messages ag cs vs = Inr told"
  obtains table where "originals (JInt n) all = Inr table" "result (replay_calls (ag_world ag) rid table 0 cs) j (Inr told)"
proof -
  obtain all' where all': "result (read_steps (ag_world ag) rid) j (Inr all')"
    "result (andthen (value_of (originals (JInt n) all')) (\<lambda>table. tool_outputs_from ag rid table 0 cs)) j (Inr (Some vs))"
    using outs unfolding tool_outputs_def by (rule result_andthenE) (auto intro!: reading reads_records calm)
  have "all' = all" using result_unique [OF all'(1) all] by simp
  obtain table where table: "result (value_of (originals (JInt n) all')) j (Inr table)"
    "result (tool_outputs_from ag rid table 0 cs) j (Inr (Some vs))"
    using all'(2) by (rule result_andthenE) (auto intro!: reading calm)
  have "originals (JInt n) all = Inr table" using result_value_ofE [OF table(1)] \<open>all' = all\<close> by simp
  then show thesis using replay_outputs [OF calm table(2) msgs] by (rule that)
qed

lemma replay_rebuild:
  assumes calm: "calm (ag_world ag)" and all: "result (read_steps (ag_world ag) rid) j (Inr all)"
  shows "regular_models ss \<Longrightarrow> committed_models ag ss = Inr ms \<Longrightarrow> map fst ms = map int [k..<k + length ms] \<Longrightarrow>
    result (rebuild ag rid ms msgs (int k)) j (Inr (out, int k + int (length ms), Some final)) \<Longrightarrow>
    result (replay_models (ag_world ag) rid ss msgs f) j (Inr (out, Some final))"
proof (induction ss arbitrary: ms k msgs)
  case Nil
  then show ?case by (auto dest: result_yieldsE)
next
  case (Cons s ss)
  have regular: "regular_models ss" using Cons.prems(1) by (simp add: regular_models_def)
  show ?case
  proof (cases "sv_kind s = ''model'' \<and> sv_stat s = StepCommitted")
    case False
    then show ?thesis using Cons.IH [OF regular _ Cons.prems(3,4)] Cons.prems(2) committed_models_skip [OF False] by auto
  next
    case True
    obtain n c rest where c: "ms = (n, c) # rest" "committed_models ag ss = Inr rest"
      "completion_of_output (ag_world ag) (sv_output s) = Inr c" "get_member (sv_input s) ''iteration'' = Inr (JInt n)"
      using committed_models_cases [OF Cons.prems(1) _ _ Cons.prems(2)] True by blast
    have n: "n = int k" and rest: "map fst rest = map int [Suc k..<Suc k + length rest]"
      using Cons.prems(3) c(1) by (simp_all add: upt_conv_Cons del: upt_Suc)
    show ?thesis
    proof (cases "ms_calls (cp_message c) = []")
      case True
      have ended: "result (yields (msgs @ [cp_message c], n + 1, Some (text_of_message (ag_codec ag) (ms_content (cp_message c)))))
          j (Inr (out, int k + int (length ms), Some final))"
        using Cons.prems(4) c(1) n True by simp
      from result_yieldsE [OF ended] n have out: "rest = []" "out = msgs @ [cp_message c]"
        "final = text_of_message (ag_codec ag) (ms_content (cp_message c))" using c(1) by auto
      have "result (replay_models (ag_world ag) rid ss out (Some final)) j (Inr (out, Some final))"
        using replay_nothing [OF regular] c(2) out(1) by simp
      then show ?thesis using \<open>sv_kind s = ''model'' \<and> sv_stat s = StepCommitted\<close> True out c(3)
        by (auto intro!: result_andthen [where x = c])
    next
      case False
      have ends: "result (rebuild ag rid ((n, c) # rest) msgs n) j (Inr (out, int k + int (length ms), Some final))"
        using Cons.prems(4) c(1) n by simp
      obtain vs told where told: "result (tool_outputs ag rid n (ms_calls (cp_message c))) j (Inr (Some vs))"
        "tool_messages ag (ms_calls (cp_message c)) vs = Inr told"
        "result (rebuild ag rid rest (msgs @ [cp_message c] @ told) (n + 1)) j (Inr (out, int k + int (length ms), Some final))"
        by (rule rebuild_calls [OF calm False ends])
      obtain table where table: "originals (JInt n) all = Inr table"
        "result (replay_calls (ag_world ag) rid table 0 (ms_calls (cp_message c))) j (Inr told)"
        by (rule replay_iteration [OF calm all told(1,2)])
      have "result (rebuild ag rid rest (msgs @ [cp_message c] @ told) (int (Suc k))) j
          (Inr (out, int (Suc k) + int (length rest), Some final))"
        using told(3) n c(1) by (simp add: ac_simps)
      from Cons.IH [OF regular c(2) rest this]
      have again: "result (replay_models (ag_world ag) rid ss (msgs @ [cp_message c] @ told) f) j (Inr (out, Some final))" .
      then have "result (andthen (replay_calls (ag_world ag) rid table 0 (ms_calls (cp_message c)))
          (\<lambda>outs. replay_models (ag_world ag) rid ss (msgs @ [cp_message c] @ outs) f)) j (Inr (out, Some final))"
        by (rule result_andthen [OF table(2)])
      then have "result (andthen (value_of (sum_then (get_member (sv_input s) ''iteration'') (\<lambda>it. originals it all)))
          (\<lambda>table. andthen (replay_calls (ag_world ag) rid table 0 (ms_calls (cp_message c)))
            (\<lambda>outs. replay_models (ag_world ag) rid ss (msgs @ [cp_message c] @ outs) f))) j (Inr (out, Some final))"
        by (intro result_andthen [where x = table]) (simp_all add: c(4) table(1))
      then have "result (andthen (read_steps (ag_world ag) rid) (\<lambda>all.
          andthen (value_of (sum_then (get_member (sv_input s) ''iteration'') (\<lambda>it. originals it all)))
          (\<lambda>table. andthen (replay_calls (ag_world ag) rid table 0 (ms_calls (cp_message c)))
            (\<lambda>outs. replay_models (ag_world ag) rid ss (msgs @ [cp_message c] @ outs) f)))) j (Inr (out, Some final))"
        by (rule result_andthen [OF all])
      then show ?thesis using True False c(3) by (auto intro!: result_andthen [where x = c])
    qed
  qed
qed

lemma by_iteration_sorted:
  assumes "map fst ms = map int [0..<length ms]"
  shows "by_iteration ms = ms"
proof -
  have keys: "distinct (map fst ms)" "sorted (map fst ms)" using assms
    by (simp_all add: distinct_map sorted_map sorted_wrt_iff_nth_less)
  have "map_of (rev ms) i = Some c" if "(i, c) \<in> set ms" for i c
    using that keys(1) by (simp add: rev_map [symmetric] map_of_eq_Some_iff)
  then have "map (\<lambda>i. (i, the (map_of (rev ms) i))) (map fst ms) = ms"
    by (auto intro!: map_idI simp: comp_def)
  moreover have "sorted_list_of_set (set (map fst ms)) = map fst ms"
    by (rule sorted_list_of_set.idem_if_sorted_distinct [OF keys(2,1)])
  ultimately show ?thesis by (simp add: by_iteration_def)
qed

lemma same_opening:
  "rv_config run = JObj cfg \<Longrightarrow> map_of cfg ''system_prompt'' = Some v \<Longrightarrow>
    initial_messages ag run = replay_opening (ag_world ag) run"
  by (simp add: initial_messages_def replay_opening_def Let_def jget_or_def jget_def)

lemma readable_journal:
  assumes "calm wd" "result (read_run wd rid) j (Inr run)"
  obtains r where "get_run rid j = Inr r"
proof -
  obtain r where r: "result (jread wd (get_run rid)) j (Inr r)"
    using assms(2) unfolding read_run_def by (rule result_andthenE) (auto intro!: reading assms(1))
  from result_unique [OF r result_jread [OF assms(1)]] have "get_run rid j = Inr r" by (simp split: sum.splits)
  then show thesis by (rule that)
qed

lemma reconstruct_parts:
  assumes calm: "calm (ag_world ag)" and ended: "result (reconstruct ag rid) j (Inr y)"
  obtains run all ms where "result (read_run (ag_world ag) rid) j (Inr run)" "result (read_steps (ag_world ag) rid) j (Inr all)"
    "committed_models ag all = Inr ms"
    "result (rebuild ag rid (by_iteration ms) (initial_messages ag run) 0) j (Inr y)"
proof -
  obtain run where run: "result (read_run (ag_world ag) rid) j (Inr run)"
    "result (andthen (read_steps (ag_world ag) rid) (\<lambda>all.
      andthen (value_of (committed_models ag all)) (\<lambda>ms.
        rebuild ag rid (by_iteration ms) (initial_messages ag run) 0))) j (Inr y)"
    using ended unfolding reconstruct_def by (rule result_andthenE) (auto intro!: reading reads_records calm)
  obtain all where all: "result (read_steps (ag_world ag) rid) j (Inr all)"
    "result (andthen (value_of (committed_models ag all)) (\<lambda>ms.
        rebuild ag rid (by_iteration ms) (initial_messages ag run) 0)) j (Inr y)"
    using run(2) by (rule result_andthenE) (auto intro!: reading reads_records calm)
  obtain ms where ms: "result (value_of (committed_models ag all)) j (Inr ms)"
    "result (rebuild ag rid (by_iteration ms) (initial_messages ag run) 0) j (Inr y)"
    using all(2) by (rule result_andthenE) (auto intro!: reading calm)
  show thesis by (rule that [OF run(1) all(1) result_value_ofE [OF ms(1)] ms(2)])
qed

text \<open>
  C39: the replay of a conversation that has come to its end, read from the journal alone, shows the messages that the
  runtime rebuilds, and the final text, the usage and the models that the execution has returned.
\<close>

theorem replay_shows_result:
  assumes calm: "calm (ag_world ag)"
    and run: "result (read_run (ag_world ag) rid) j (Inr run)" "rv_config run = JObj cfg" "map_of cfg ''system_prompt'' = Some v"
    and all: "result (read_steps (ag_world ag) rid) j (Inr all)" "regular_models all"
    and ms: "committed_models ag all = Inr ms" "map fst ms = map int [0..<length ms]"
    and ended: "result (reconstruct ag rid) j (Inr (msgs, int (length ms), Some final))"
  shows "\<exists>rr res. result (recorded_replay (ag_world ag) rid) j (Inr rr) \<and> result (agent_result_of ag rid) j (Inr res) \<and>
    rr_messages rr = msgs \<and> rr_final rr = Some final \<and> ar_final res = Some final \<and>
    rr_usage rr = ar_usage res \<and> rr_models rr = ar_models res"
proof -
  obtain run' all' ms' where parts: "result (read_run (ag_world ag) rid) j (Inr run')"
    "result (read_steps (ag_world ag) rid) j (Inr all')" "committed_models ag all' = Inr ms'"
    "result (rebuild ag rid (by_iteration ms') (initial_messages ag run') 0) j (Inr (msgs, int (length ms), Some final))"
    by (rule reconstruct_parts [OF calm ended])
  have same: "run' = run" "all' = all" using result_unique [OF parts(1) run(1)] result_unique [OF parts(2) all(1)] by simp_all
  with parts(3) ms(1) have "ms' = ms" by simp
  with parts(4) same have "result (rebuild ag rid ms (replay_opening (ag_world ag) run) (int 0)) j
      (Inr (msgs, int 0 + int (length ms), Some final))"
    by (simp add: by_iteration_sorted [OF ms(2)] same_opening [OF run(2,3)])
  from replay_rebuild [OF calm all(1) all(2) ms(1) _ this] ms(2)
  have models: "result (replay_models (ag_world ag) rid all (replay_opening (ag_world ag) run) None) j (Inr (msgs, Some final))"
    by simp
  obtain r where r: "get_run rid j = Inr r" by (rule readable_journal [OF calm run(1)])
  obtain rows where rows: "list_provider_calls rid j = Inr rows" using r by (auto simp: get_run_def list_provider_calls_def split: if_splits)
  obtain tl where tl: "materialized_timeline rid j = Inr tl"
    using r by (auto simp: get_run_def materialized_timeline_def list_events_def Let_def split: if_splits option.splits)
  have calls: "result (jread (ag_world ag) (list_provider_calls rid)) j (Inr rows)" by (rule result_jread_Inr) (simp_all add: calm rows)
  have timeline: "result (jread (ag_world ag) (materialized_timeline rid)) j (Inr tl)" by (rule result_jread_Inr) (simp_all add: calm tl)
  let ?ended = "completed_calls rows"
  have "result (recorded_replay (ag_world ag) rid) j (Inr \<lparr>rr_timeline = tl, rr_messages = msgs, rr_final = Some final,
      rr_usage = usage_of ?ended, rr_models = models_of ?ended\<rparr>)"
    unfolding recorded_replay_def
    by (rule result_andthen [OF run(1)], rule result_andthen [OF all(1)], rule result_andthen [OF models], simp only: prod.case,
        rule result_andthen [OF calls], rule result_andthen [OF timeline], rule result_yields)
  moreover have "result (agent_result_of ag rid) j (Inr \<lparr>ar_run = rid, ar_stat = rv_stat run, ar_final = Some final,
      ar_models = models_of ?ended, ar_usage = usage_of ?ended\<rparr>)"
    unfolding agent_result_of_def
    by (rule result_andthen [OF run(1)], rule result_andthen [OF ended], simp only: prod.case,
        rule result_andthen [OF calls], rule result_yields)
  ultimately show ?thesis by (intro exI conjI) (assumption+, simp_all)
qed

section \<open>A run that has ended\<close>

definition final_completion :: completion where
  "final_completion = sample_completion\<lparr>cp_message := (cp_message sample_completion)\<lparr>ms_content := TextContent ''ok'',
     ms_calls := []\<rparr>\<rparr>"

definition ended_run :: run_row where
  "ended_run = demo_run\<lparr>run_config := canonical_json plain_codec (JObj [(''system_prompt'', JStr [])])\<rparr>"

definition ended_step :: step_row where
  "ended_step = (demo_step ''m'' ''model'' held_input 0)\<lparr>step_stat := StepCommitted, attempts := 1,
     step_output := Some (canonical_json plain_codec (serialize_completion final_completion))\<rparr>"

definition ended_journal :: journal where
  "ended_journal = \<lparr>database = empty_db\<lparr>runs := [ended_run], steps := [ended_step]\<rparr>, closed = False\<rparr>"

lemma final_completion_ok: "completion_ok final_completion" "json_ok plain_codec (\<lambda>_. 0) (serialize_completion final_completion)"
  by (simp_all add: final_completion_def sample_completion_def completion_ok_def message_ok_def roles_def py_blank_def
      py_space_def usage_ok_def serialize_completion_def serialize_message_def jopt_def jopt_int_def)

lemma final_completion_back:
  obtains kvs where "sorted_json (serialize_completion final_completion) = JObj kvs"
    "deserialize_completion te kvs = Inr final_completion"
proof -
  have "sorted_completion final_completion = final_completion" "\<not> message_arrays (cp_message final_completion)"
    by (simp_all add: sorted_completion_def sorted_message_def final_completion_def message_arrays_def)
  then show thesis using that deserialize_sorted_completion [OF final_completion_ok(1), of te] by auto
qed

lemma ended_journal_reads:
  "get_run ''r'' ended_journal = Inr ended_run" "list_steps ''r'' None ended_journal = Inr [ended_step]"
  by (simp_all add: get_run_def list_steps_def ended_journal_def empty_db_def ended_run_def demo_run_def ended_step_def
      demo_step_run order_by_def del: canonical_json.simps)

definition ended_view :: "jdict \<Rightarrow> step_view" where
  "ended_view kvs = \<lparr>sv_id = ''m'', sv_run = ''r'', sv_kind = ''model'', sv_name = ''model'', sv_input = sorted_json held_input,
     sv_safety = ReadOnly, sv_seq = Some 0, sv_stat = StepCommitted, sv_output = JObj kvs, sv_reason = None\<rparr>"

lemma ended_views:
  "run_from_row (demo_world None) ended_run =
     Inr \<lparr>rv_request = JObj [], rv_config = JObj [(''system_prompt'', JStr [])], rv_stat = RunRunning\<rparr>"
  "sorted_json (serialize_completion final_completion) = JObj kvs \<Longrightarrow>
     step_from_row (demo_world None) ended_step = Inr (ended_view kvs)"
proof -
  have "json_ok plain_codec (\<lambda>_. 0) held_input" by (simp add: held_input_def request_snapshot_def)
  then show "sorted_json (serialize_completion final_completion) = JObj kvs \<Longrightarrow>
     step_from_row (demo_world None) ended_step = Inr (ended_view kvs)"
    by (simp add: step_from_row_def ended_step_def ended_view_def demo_step_def decoded_stored final_completion_ok
        del: canonical_json.simps)
  show "run_from_row (demo_world None) ended_run =
     Inr \<lparr>rv_request = JObj [], rv_config = JObj [(''system_prompt'', JStr [])], rv_stat = RunRunning\<rparr>"
    by (simp add: run_from_row_def ended_run_def demo_run_def decoded_stored sorted_dict_def del: canonical_json.simps)
qed

lemma ended_models:
  assumes "deserialize_completion \<lparr>te_codec = plain_codec, te_repr = (\<lambda>_. [])\<rparr> kvs = Inr final_completion"
  shows "committed_models (demo_agent None) [ended_view kvs] = Inr [(0, final_completion)]" "regular_models [ended_view kvs]"
  using assms
  by (simp_all add: ended_view_def regular_models_def held_input_def request_snapshot_def sorted_lookup map_of_sorted_dict)

theorem replay_shows_result_witness:
  "\<exists>rr res. result (recorded_replay (demo_world None) ''r'') ended_journal (Inr rr) \<and>
    result (agent_result_of (demo_agent None) ''r'') ended_journal (Inr res) \<and>
    length (rr_messages rr) = 2 \<and> rr_final rr = Some ''ok'' \<and> ar_final res = Some ''ok'' \<and>
    rr_usage rr = ar_usage res \<and> rr_models rr = ar_models res"
proof -
  let ?ag = "demo_agent None"
  let ?run = "\<lparr>rv_request = JObj [], rv_config = JObj [(''system_prompt'', JStr [])], rv_stat = RunRunning\<rparr>"
  obtain kvs where kvs: "sorted_json (serialize_completion final_completion) = JObj kvs"
    "deserialize_completion \<lparr>te_codec = plain_codec, te_repr = (\<lambda>_. [])\<rparr> kvs = Inr final_completion"
    by (rule final_completion_back)
  have run: "result (read_run (ag_world ?ag) ''r'') ended_journal (Inr ?run)"
    by (rule result_read_run [of _ _ _ ended_run]) (simp_all add: demo_calm ended_journal_reads ended_views)
  have all: "result (read_steps (ag_world ?ag) ''r'') ended_journal (Inr [ended_view kvs])"
    by (rule result_read_steps [of _ _ _ "[ended_step]"]) (simp_all add: demo_calm ended_journal_reads ended_views(2) [OF kvs(1)])
  let ?msgs = "initial_messages ?ag ?run @ [cp_message final_completion]"
  have "ms_calls (cp_message final_completion) = []" "ms_content (cp_message final_completion) = TextContent ''ok''"
    by (simp_all add: final_completion_def)
  then have ended: "result (reconstruct ?ag ''r'') ended_journal (Inr (?msgs, int (length [(0 :: int, final_completion)]), Some ''ok''))"
    unfolding reconstruct_def
    by (intro result_andthen [OF run] result_andthen [OF all] result_andthen [where x = "[(0, final_completion)]"])
      (simp_all only: ended_models(1) [OF kvs(2)] result_value_Inr, simp add: by_iteration_def)
  have two: "length (initial_messages ?ag ?run) = Suc 0" by (simp add: initial_messages_def Let_def jget_or_def)
  have "\<exists>rr res. result (recorded_replay (ag_world ?ag) ''r'') ended_journal (Inr rr) \<and>
    result (agent_result_of ?ag ''r'') ended_journal (Inr res) \<and> rr_messages rr = ?msgs \<and>
    rr_final rr = Some ''ok'' \<and> ar_final res = Some ''ok'' \<and> rr_usage rr = ar_usage res \<and> rr_models rr = ar_models res"
    by (rule replay_shows_result [OF _ run _ _ all ended_models(2) [OF kvs(2)] ended_models(1) [OF kvs(2)] _ ended,
          of "[(''system_prompt'', JStr [])]" "JStr []"]) (simp_all add: demo_calm)
  then show ?thesis unfolding demo_simps by (elim exE conjE, intro exI conjI) (assumption | simp add: two)+
qed

end
