(* ===== verification/Spec2Isabelle.thy ===== *)
theory Spec2Isabelle
  imports JournalLedgerProperties SchedulerEngineProperties ChannelFormatting ChannelProperties MemoryToolProperties
    ToolRegistryProperties TelegramProperties TelegramRedaction AgentReplay
begin

text \<open>
  The durable core of the Polaris agent, verified: the run journal, the agent runtime that executes
  runs over it, the scheduler, the channel store with its processor and the Telegram adapter, the
  curated memory and the tool registry.

  \<^bold>\<open>The program.\<close>  Polaris is a daemon that runs language-model agents durably.  \<open>journal/journal.py\<close>
  keeps runs, their steps, events, receipts, approvals, provider calls and budgets in SQLite, so that
  a crashed worker's steps are recovered without repeating a side effect.  \<open>scheduler/store.py\<close> keeps
  jobs and the claims of their occurrences, \<open>scheduler/cron.py\<close> and \<open>scheduler/models.py\<close> say when a
  job is due.  \<open>channels/store.py\<close> keeps the messages that arrive from and leave for Telegram and
  Slack; \<open>channels/auth.py\<close> decides whose messages are accepted and \<open>channels/formatting.py\<close> splits
  the answers.  \<open>memory/store.py\<close> keeps curated memories per profile and subject with their revisions,
  \<open>memory/security.py\<close> scans what is stored and handed out, and \<open>memory/tools.py\<close> offers the memory
  to the model.  \<open>tools/registry.py\<close> resolves, checks and executes tools.  \<open>runtime/agent.py\<close> is the loop
  that asks the model and executes the tools it calls, as steps of the journal, with approvals and the
  recovery of uncertain steps; \<open>runtime/replay.py\<close> reads a conversation back.  \<open>channels/processor.py\<close> hands
  stored events to a handler and stored answers to an adapter, and \<open>channels/telegram.py\<close> polls and sends.
  The daemon drives the stores from many workers at once; each store is correct
  on its own, for every interleaving of calls.

  \<^bold>\<open>How it is modelled.\<close>  A store is a record of tables, a table the list of its rows in the order of
  the rowids.  An operation is a function of its arguments, the clock readings and fresh identifiers it
  uses and the store; it returns an error or a value together with the next store, and
  \<open>_transaction\<close> (\<open>transaction\<close>, \<open>sched_transaction\<close>, \<open>channel_transaction\<close>, \<open>memory_transaction\<close>) drops every change when
  an exception leaves the block.  The rollback is SQLite's: a body that fails returns no tables at all, so that its
  partial writes do not exist in the model and no theorem is about undoing them.  SQLite runs write transactions one after the other, so an
  interleaving of workers is a sequence of operations: a datatype of calls (\<open>journal_op\<close>,
  \<open>sched_op\<close>, \<open>channel_op\<close>, \<open>memory_op\<close>) with an interpreter.  A method that reads in one transaction and
  writes in another (\<open>SchedulerStore.update_job\<close>, \<open>heartbeat\<close>, \<open>request_cancel\<close>) also has an
  operation for its second half alone, so that the sequences include what other workers do between.
  The runtime calls the journal many times, so it is a program (\<open>prog\<close>): a function from the state (the
  journal and what has left the process) to a result or exception and the next state.  Its \<open>n\<close>-th
  interaction uses the \<open>n\<close>-th \<open>tick\<close> of a \<open>world\<close>, which says what others did to the journal before, what
  the clock shows, what the provider and the tools answer, and whether the process dies there.

  \<^bold>\<open>Theories.\<close>
  \<^item> \<open>Prelude\<close>: decimal digits, rounding, SQL tables (first row, update, row count, order by, unique
    keys) and \<open>table_follow\<close>, the relation of a table and its successor that every refinement
    rests on.  \<open>Contracts\<close>: the locales that the stores interpret.
  \<^item> \<open>Codec\<close>, \<open>Float64\<close>: canonical JSON and its hash (\<open>journal/codec.py\<close>), binary doubles and the
    microseconds of a \<open>timedelta\<close>.
  \<^item> \<open>JournalModel\<close> (tables, statuses, transactions, events), \<open>JournalRuns\<close> (creation and status of
    runs, events), \<open>JournalSteps\<close> (creation, claim, execution, receipts, commit, recovery),
    \<open>JournalLedger\<close> (approvals, artifacts, provider calls, budgets), \<open>JournalMachine\<close> (the calls):
    \<open>journal/journal.py\<close>, one definition per method, with the method's name.
  \<^item> \<open>StepMachine\<close>, \<open>JournalInvariants\<close>, \<open>JournalBudget\<close>, \<open>JournalContracts\<close>: the life of a step as a
    step relation, the invariant of the tables, the conservation of budgets, and the interpretations of
    the contracts.  \<open>JournalProperties\<close>, \<open>JournalLedgerProperties\<close>: the properties.
  \<^item> \<open>Cron\<close>, \<open>SchedulerModel\<close>, \<open>Schedules\<close> (expressions, time zones, timestamps, next occurrences);
    \<open>SchedulerStore\<close>, \<open>SchedulerRuns\<close>, \<open>SchedulerMachine\<close> (the operations and the life of a run);
    \<open>SchedulerInvariants\<close>, \<open>SchedulerContracts\<close>, \<open>SchedulerClaims\<close>, \<open>SchedulerProperties\<close>.
    \<open>SchedulerEngine\<close> (\<open>scheduler/engine.py\<close>: tick, retry and the tasks as sequences of stretches between two
    awaits, an act advancing one task by one), \<open>SchedulerEngineProperties\<close> (submissions per attempt, deliveries).
  \<^item> \<open>ChannelModel\<close> (statuses, envelopes, policy, normalisation of Telegram updates),
    \<open>ChannelFormatting\<close> (chunks), \<open>ChannelStore\<close> and \<open>ChannelOutbox\<close> (the operations), \<open>ChannelMachine\<close>
    and \<open>ChannelSteps\<close> (the lives of an event and of a message), \<open>ChannelInvariants\<close>,
    \<open>ChannelContracts\<close>, \<open>ChannelProperties\<close>.
  \<^item> \<open>Texts\<close> (code points, UTF-8, searches, ASCII JSON), \<open>Scanner\<close> (the patterns of
    \<open>memory/security.py\<close> as terms of a language of regular expressions with the backtracking order of
    \<open>re\<close>, scan and redaction), \<open>MemoryStore\<close> (writes), \<open>MemoryReads\<close> (lists, recall, snapshots,
    prompt block, audit), \<open>MemoryMachine\<close> (the calls, the abstract steps and the invariant),
    \<open>MemoryContracts\<close>, \<open>MemoryTools\<close> (the handlers of the tools), \<open>MemorySafety\<close> and
    \<open>MemoryEffects\<close> (what reads hand out and writes leave), \<open>MemoryProperties\<close>,
    \<open>MemoryToolProperties\<close>.
  \<^item> \<open>ToolRegistry\<close> (the operations), \<open>ToolRegistryMachine\<close> and \<open>ToolRegistryProperties\<close>; \<open>ChannelProcessor\<close> and
    \<open>ChannelProcessorProperties\<close> (rounds of \<open>channels/processor.py\<close>); \<open>TelegramAdapter\<close> (\<open>channels/telegram.py\<close>),
    \<open>TelegramProperties\<close> and \<open>TelegramRedaction\<close>; \<open>Evidence\<close>: lemmas for witnesses.
  \<^item> \<open>JsonText\<close> (the reader of JSON texts, inverse to \<open>Codec\<close>), \<open>RuntimeValues\<close> (values of
    \<open>providers/base.py\<close> and \<open>runtime/serialization.py\<close>), \<open>RuntimeProgram\<close> (worlds, programs, records),
    \<open>RuntimeReplay\<close> (\<open>runtime/replay.py\<close>), \<open>AgentRuntime\<close> (configuration, conversation, summary) and
    \<open>AgentExecution\<close> (claims, model and tool steps, uncertain steps, the loop): \<open>runtime/agent.py\<close>.
  \<^item> \<open>AgentSafety\<close> (a program logic and the contract \<open>runtime_invariant\<close> of all executions),
    \<open>AgentProperties\<close> (its interpretations), \<open>AgentCalm\<close> (what a program reads when nobody else acts),
    \<open>AgentFindings\<close> (runs that make no progress), \<open>AgentExamples\<close>, \<open>AgentReplay\<close>.

  \<^bold>\<open>What the lemmas show.\<close>  For each store: an invariant that every operation keeps (locale
  \<open>machine\<close>); that every call moves every row along the life of its kind, which is the abstract
  specification the tables refine; that leases exclude (\<open>lease_protocol\<close>), that statuses follow their
  table (\<open>lifecycle\<close>), that logs only grow (\<open>append_only\<close>) and that closed records never change
  (\<open>freezing\<close>).  The properties follow from these: at-most-once sending, single attempts of unsafe
  steps, idempotent creation, exactly-once receipts, conserved budgets, recovery of exactly what has
  expired, gapless revision histories, isolated scopes, no lost updates, reads without unsafe text and
  reconciliations that agree with what was applied.  The cron lemmas show that a scan returns the least matching minute, the formatting lemmas
  that the chunks of a text spell it and that the splitting ends.  For the runtime one proof about
  \<open>agent_execute\<close> (\<open>execute_keeps\<close>) gives that a tool runs at most once for a claimed attempt and that none runs without its approval; the
  replay agrees with the conversation; stored completions come back.

  \<^bold>\<open>Bounds.\<close>  The scan of a cron expression is bounded as in the code by 366 days of eight years in
  minutes (\<open>scan_limit\<close>); the walks over occurrences are bounded by the catch-up limit and the preview
  count.  The reader of JSON has the length of the text as fuel, which \<open>json_loads_canonical\<close> shows to be enough for
  every stored text; the lineage of a tool call has two more than the steps of the run, and visits no step
  twice.  \<open>agent_loop\<close> stands for \<open>while True\<close>: its fuel counts rounds, the safety theorems hold for every fuel,
  and \<open>held_model_step_spins\<close> is a run for which no fuel is enough.  Sending is bounded by the retry limit; the
  splitting of a text terminates by the length of the rest.

  \<^bold>\<open>Numbers.\<close>  The journal's integer columns are SQLite's: a parameter beyond 64 bits is refused with
  \<open>OverflowError\<close> (\<open>bindable\<close>, \<open>amounts_fit\<close>), and a budget column whose sum leaves the range goes on in
  doubles (\<open>sql_add\<close>, \<open>sql_sub\<close>, \<open>py_sum\<close>), so that budgets are conserved while the sums fit.  Wall seconds
  are binary doubles (\<open>fadd\<close>, \<open>fsub\<close>), whose sums round.  The integers of the other stores
  (options, counters, revisions, identifiers of Telegram) are unbounded: beyond 64 bits \<open>sqlite3\<close> refuses
  them before it writes.  A float is a rational: the infinities and NaN, which \<open>json.dumps(..., allow_nan=False)\<close> of
  the journal refuses and \<open>_copy_json\<close> of the tool registry lets pass, do not occur.  An instant is a number of
  microseconds; its text is \<open>iso_instant\<close>, whose order up to the year 9999 is the order of the numbers.

  \<^bold>\<open>Parameters.\<close>  SHA-256 and the text of a float (\<open>codec\<close>, \<open>mv_digest\<close>), the time zone database (\<open>zone\<close>), the
  parser of ISO timestamps, the seeded shuffle of \<open>random.Random\<close> (assumed to permute where that
  matters, \<open>shuffle_ok\<close>), \<open>str\<close> of JSON containers (\<open>te_repr\<close>), the
  Unicode tables (\<open>unicode\<close>), the rank of SQLite's full-text index (\<open>rank\<close>), the value of a number with a
  fraction (\<open>wd_floats\<close>), handlers and availability checks of tools, answers of the Telegram server, clocks,
  jitter and the world of the runtime.  A failed heartbeat task of a lease is a part of the world (\<open>tk_pulse\<close>).

  \<^bold>\<open>Not modelled.\<close>  Two processes that open one memory store at the same moment: \<open>_configure_fts\<close> reads what the index
  lacks before its transaction, \<open>configure_fts\<close> in it.  Connections, pragmas, locks and schema migrations (input and output); the HTTP
  clients of \<open>telegram.py\<close>, \<open>slack.py\<close> and the model providers, the built-in tools, secrets, backups,
  configuration and the command line, which call out of the program; the ticker loop of the
  scheduler engine, the ensemble and the service that compose the stores, which are covered as arbitrary sequences of calls.
\<close>

end
